(* ===== verification/Prelude.thy ===== *)
theory Prelude
  imports Complex_Main "HOL-Library.Log_Nat" "HOL-Library.Code_Target_Nat"
begin

text \<open>
  What every component shares: the HTTP errors the handlers raise, the result type of a handler,
  the named collections of facts the component proofs use, and generic lemmas on lists and
  options.

  A handler of the source either answers with an error (a thrown \<open>HttpError\<close>, or an early
  \<open>res.status(4xx).json(...)\<close>) or commits and answers with a value. Both ways to fail leave the
  tables as they were (a thrown error rolls the Prisma transaction back), so a handler is a
  function from the tables to \<open>http_error + ('a \<times> tables)\<close>.
\<close>

named_theorems handler_defs \<open>definitions of the handlers, unfolded when a handler is analysed\<close>
named_theorems table_simps \<open>what an operation leaves unchanged in the tables\<close>

section \<open>Errors\<close>

text \<open>\<open>HttpError\<close> of lib/http-error.ts: a status code and a message. The messages are the
  source's without diacritics and without the values the source interpolates into them.\<close>

datatype http_error = HttpError (statusCode: nat) (message: string)

definition badRequest :: "string \<Rightarrow> http_error" where
  "badRequest m = HttpError 400 m"

definition unauthorized :: "string \<Rightarrow> http_error" where
  "unauthorized m = HttpError 401 m"

definition forbidden :: "string \<Rightarrow> http_error" where
  "forbidden m = HttpError 403 m"

definition notFound :: "string \<Rightarrow> http_error" where
  "notFound m = HttpError 404 m"

definition conflict :: "string \<Rightarrow> http_error" where
  "conflict m = HttpError 409 m"

definition internal :: "string \<Rightarrow> http_error" where
  "internal m = HttpError 500 m"

lemmas http_error_defs =
  badRequest_def unauthorized_def forbidden_def notFound_def conflict_def internal_def

text \<open>\<open>errorHandler\<close> of middleware/error.ts: what the client reads. \<open>expose\<close> is
  \<open>statusCode < 500\<close> for every constructor of \<open>HttpError\<close>.\<close>

definition expose :: "http_error \<Rightarrow> bool" where
  "expose e \<longleftrightarrow> statusCode e < 500"

definition errorHandler :: "http_error \<Rightarrow> nat \<times> string" where
  "errorHandler e =
     (statusCode e, if expose e then message e else ''Eroare interna de server.'')"

text \<open>The unique-constraint violation P2002, as \<open>mapPrismaError\<close> answers it.\<close>

definition uniqueViolation :: http_error where
  "uniqueViolation = conflict ''Resursa exista deja cu aceeasi valoare unica.''"

section \<open>Results\<close>

fun bindR :: "'e + 'a \<Rightarrow> ('a \<Rightarrow> 'e + 'b) \<Rightarrow> 'e + 'b" where
  "bindR (Inl e) f = Inl e"
| "bindR (Inr x) f = f x"

lemma bindR_eq_Inr: "bindR r f = Inr y \<longleftrightarrow> (\<exists>x. r = Inr x \<and> f x = Inr y)"
  by (cases r) auto

lemma bindR_eq_Inl: "bindR r f = Inl e \<longleftrightarrow> r = Inl e \<or> (\<exists>x. r = Inr x \<and> f x = Inl e)"
  by (cases r) auto

fun is_ok :: "'e + 'a \<Rightarrow> bool" where
  "is_ok (Inl e) = False"
| "is_ok (Inr x) = True"

lemma is_ok_iff: "is_ok r \<longleftrightarrow> (\<exists>x. r = Inr x)"
  by (cases r) auto

section \<open>Lists and options\<close>

text \<open>\<open>a ?? b\<close> on an option whose default is a value.\<close>

definition orElse :: "'a option \<Rightarrow> 'a \<Rightarrow> 'a" where
  "orElse x d = (case x of None \<Rightarrow> d | Some y \<Rightarrow> y)"

lemma orElse_simps [simp]: "orElse None d = d" "orElse (Some y) d = y"
  by (simp_all add: orElse_def)

lemma find_SomeD: "find P xs = Some x \<Longrightarrow> x \<in> set xs \<and> P x"
  by (auto simp: find_Some_iff)

text \<open>An SQL \<open>UPDATE ... WHERE p\<close> on a table of rows in insertion order.\<close>

definition updateWhere :: "('r \<Rightarrow> bool) \<Rightarrow> ('r \<Rightarrow> 'r) \<Rightarrow> 'r list \<Rightarrow> 'r list" where
  "updateWhere p f rows = map (\<lambda>r. if p r then f r else r) rows"

lemma updateWhere_set: "set (updateWhere p f rows) = (\<lambda>r. if p r then f r else r) ` set rows"
  by (simp add: updateWhere_def)

lemma updateWhere_length [simp]: "length (updateWhere p f rows) = length rows"
  by (simp add: updateWhere_def)

lemma updateWhere_Nil [simp]: "updateWhere p f [] = []"
  by (simp add: updateWhere_def)

lemma updateWhere_Cons [simp]:
  "updateWhere p f (r # rows) = (if p r then f r else r) # updateWhere p f rows"
  by (simp add: updateWhere_def)

lemma updateWhere_append [simp]:
  "updateWhere p f (xs @ ys) = updateWhere p f xs @ updateWhere p f ys"
  by (simp add: updateWhere_def)

lemma map_updateWhere: "(\<And>r. p r \<Longrightarrow> g (f r) = g r) \<Longrightarrow> map g (updateWhere p f rows) = map g rows"
  by (auto simp: updateWhere_def)

lemma updateWhere_none: "(\<And>r. r \<in> set rows \<Longrightarrow> \<not> p r) \<Longrightarrow> updateWhere p f rows = rows"
  by (induction rows) auto

end
