(* ===== verification/Doubles.thy ===== *)
theory Doubles
  imports Prelude
begin

text \<open>
  The numbers of the program. A JavaScript number is an IEEE 754 double; a finite double is a
  rational, and every arithmetic operation rounds the exact result to the nearest double (ties to
  even). \<open>fl\<close> is that rounding, an executable function on rationals, and \<open>fadd\<close>, \<open>fsub\<close>,
  \<open>fmul\<close>, \<open>fdiv\<close> are the four operations. The lemmas give what the accounting code relies on:
  monotonicity, symmetry, exactness on small integers and the relative error \<open>2\<^sup>-\<^sup>5\<^sup>3\<close>.

  Not modelled: NaN and the infinities (zod 4 rejects both in a request, and no amount the code
  computes comes near \<open>2\<^sup>1\<^sup>0\<^sup>2\<^sup>4\<close>; the exponent is unbounded above here), and the sign of zero.
\<close>

type_synonym double = rat

section \<open>Rounding a rational to a double\<close>

text \<open>Nearest integer, ties to even.\<close>

definition rne :: "rat \<Rightarrow> int" where
  "rne q = (let f = \<lfloor>q\<rfloor>; d = q - of_int f in
     if d < 1/2 then f else if 1/2 < d then f + 1 else if even f then f else f + 1)"

text \<open>\<open>\<lfloor>log2 q\<rfloor>\<close> of a positive rational, from the lengths of its numerator and denominator.\<close>

definition ilog2 :: "rat \<Rightarrow> int" where
  "ilog2 q = (let (n, d) = quotient_of q; k = bitlen n - bitlen d in
     if 2 powi k \<le> q then k else k - 1)"

text \<open>The exponent of the unit in the last place: 53 significant bits, never below the
  subnormal unit \<open>2\<^sup>-\<^sup>1\<^sup>0\<^sup>7\<^sup>4\<close>.\<close>

definition ulpExp :: "rat \<Rightarrow> int" where
  "ulpExp q = max (ilog2 \<bar>q\<bar> - 52) (- 1074)"

definition fl :: "rat \<Rightarrow> double" where
  "fl q = (if q = 0 then 0 else of_int (rne (q / 2 powi (ulpExp q))) * 2 powi (ulpExp q))"

section \<open>Properties of the rounding\<close>

lemma pow2_le_iff [simp]: "(2::rat) powi a \<le> 2 powi b \<longleftrightarrow> a \<le> b"
  using power_int_increasing[of a b "2::rat"] power_int_strict_increasing[of b a "2::rat"]
  by (auto simp: not_le[symmetric] not_less)

lemma pow2_less_iff [simp]: "(2::rat) powi a < 2 powi b \<longleftrightarrow> a < b"
  by (metis pow2_le_iff not_le)

lemma pow2_gt0 [simp]: "(0::rat) < 2 powi a"
  by (simp add: zero_less_power_int)

lemma pow2_not_neg [simp]: "\<not> (2::rat) powi a < 0"
  by (simp add: not_less less_imp_le)

lemma rne_err: "\<bar>of_int (rne q) - q\<bar> \<le> 1/2"
proof -
  define f where "f = \<lfloor>q\<rfloor>"
  have "of_int f \<le> q" "q < of_int f + 1" unfolding f_def by linarith+
  then show ?thesis by (auto simp: rne_def Let_def f_def[symmetric] abs_le_iff)
qed

lemma rne_of_int [simp]: "rne (of_int n) = n"
  by (simp add: rne_def)

lemma rne_mono: assumes "x \<le> y" shows "rne x \<le> rne y"
proof -
  have fm: "\<lfloor>x\<rfloor> \<le> \<lfloor>y\<rfloor>" using assms by (rule floor_mono)
  show ?thesis
  proof (cases "\<lfloor>x\<rfloor> = \<lfloor>y\<rfloor>")
    case True then show ?thesis using assms by (auto simp: rne_def Let_def)
  next
    case False
    with fm have "\<lfloor>x\<rfloor> + 1 \<le> \<lfloor>y\<rfloor>" by simp
    then show ?thesis by (auto simp: rne_def Let_def)
  qed
qed

lemma rne_unique:
  assumes "\<bar>of_int n - x\<bar> < 1/2" shows "rne x = n"
proof -
  have "\<bar>(of_int (rne x) :: rat) - of_int n\<bar> < 1" using assms rne_err[of x] by linarith
  then have "\<bar>rne x - n\<bar> < 1" by linarith
  then show ?thesis by simp
qed

lemma rne_minus: "rne (- x) = - rne x"
proof (cases "x = of_int \<lfloor>x\<rfloor>")
  case True
  then show ?thesis by (metis of_int_minus rne_of_int)
next
  case False
  then have c: "\<lceil>x\<rceil> = \<lfloor>x\<rfloor> + 1" by (simp add: ceiling_altdef)
  show ?thesis unfolding rne_def Let_def floor_minus c by (auto simp: field_simps)
qed

lemma pow2_bitlen:
  assumes "0 < n"
  shows "2 powi (bitlen n - 1) \<le> (of_int n :: rat)" "(of_int n :: rat) < 2 powi (bitlen n)"
proof -
  have b: "1 \<le> bitlen n" using assms by (simp add: bitlen_alt_def)
  have "(of_int (2 ^ nat (bitlen n - 1)) :: rat) \<le> of_int n" "of_int n < (of_int (2 ^ nat (bitlen n)) :: rat)"
    using bitlen_bounds[OF assms] by (simp_all only: of_int_le_iff of_int_less_iff)
  then show "2 powi (bitlen n - 1) \<le> (of_int n :: rat)" "(of_int n :: rat) < 2 powi (bitlen n)"
    using b by (simp_all add: power_int_def)
qed

lemma ilog2_bounds:
  assumes "0 < q" shows "2 powi (ilog2 q) \<le> q" "q < 2 powi (ilog2 q + 1)"
proof -
  obtain n d where nd: "quotient_of q = (n, d)" by fastforce
  then have q: "q = of_int n / of_int d" and d: "0 < d"
    using quotient_of_div quotient_of_denom_pos by blast+
  with assms have n: "0 < n" by (simp add: zero_less_divide_iff)
  define k where "k = bitlen n - bitlen d"
  have bn: "1 \<le> bitlen n" "1 \<le> bitlen d" using n d
    by (simp_all add: bitlen_alt_def)
  have N: "2 powi (bitlen n - 1) \<le> (of_int n :: rat)" "(of_int n :: rat) < 2 powi (bitlen n)"
    using n by (rule pow2_bitlen)+
  have D: "2 powi (bitlen d - 1) \<le> (of_int d :: rat)" "(of_int d :: rat) < 2 powi (bitlen d)"
    using d by (rule pow2_bitlen)+
  have "2 powi (k - 1) * of_int d \<le> 2 powi (k - 1) * (2 powi (bitlen d) :: rat)"
    using D by (intro mult_left_mono) auto
  also have "\<dots> = 2 powi (bitlen n - 1)" by (simp add: k_def flip: power_int_add)
  also have "\<dots> \<le> of_int n" by (rule N)
  finally have lo: "2 powi (k - 1) \<le> q" using d by (simp add: q field_simps)
  have "of_int n < (2 powi (bitlen n) :: rat)" by (rule N)
  also have "\<dots> = 2 powi (k + 1) * 2 powi (bitlen d - 1)" by (simp add: k_def flip: power_int_add)
  also have "\<dots> \<le> 2 powi (k + 1) * of_int d" using D by (intro mult_left_mono) auto
  finally have hi: "q < 2 powi (k + 1)" using d by (simp add: q field_simps)
  show "2 powi (ilog2 q) \<le> q" "q < 2 powi (ilog2 q + 1)"
    using lo hi by (auto simp: ilog2_def nd k_def[symmetric])
qed

lemma ilog2_unique:
  assumes "2 powi k \<le> q" "q < 2 powi (k + 1)" shows "ilog2 q = k"
proof -
  have q: "0 < q" using assms(1) by (meson less_le_trans zero_less_numeral zero_less_power_int)
  have "(2::rat) powi k < 2 powi (ilog2 q + 1)" "(2::rat) powi (ilog2 q) < 2 powi (k + 1)"
    using assms ilog2_bounds[OF q] by linarith+
  then have "k < ilog2 q + 1" "ilog2 q < k + 1" by simp_all
  then show ?thesis by simp
qed

lemma ilog2_mono: assumes "0 < x" "x \<le> y" shows "ilog2 x \<le> ilog2 y"
proof -
  have "(2::rat) powi (ilog2 x) < 2 powi (ilog2 y + 1)"
    using assms ilog2_bounds[of x] ilog2_bounds[of y] by linarith
  then show ?thesis by simp
qed

lemma fl_0 [simp]: "fl 0 = 0"
  by (simp add: fl_def)

lemma fl_minus: "fl (- x) = - fl x"
  by (simp add: fl_def ulpExp_def rne_minus)

text \<open>A multiple of the unit in the last place, or of any smaller-than-needed one, is exact.\<close>

lemma fl_exact:
  assumes "\<bar>m\<bar> \<le> 2 ^ 53" "- 1074 \<le> e"
  shows "fl (of_int m * 2 powi e) = of_int m * 2 powi e"
proof (cases "m = 0")
  case False
  let ?x = "of_int m * (2::rat) powi e" and ?u = "ulpExp (of_int m * 2 powi e)"
  have pos: "0 < \<bar>?x\<bar>" using False by simp
  consider "?u \<le> e" | "e < ?u" by linarith
  then show ?thesis
  proof cases
    case 1
    have "?x / 2 powi ?u = of_int (m * 2 ^ nat (e - ?u))"
      using 1 by (simp add: power_int_diff flip: power_int_of_nat)
    then show ?thesis using False
      by (simp add: fl_def del: of_int_mult) (simp add: power_int_diff 1 flip: power_int_of_nat)
  next
    case 2
    then have u: "?u = ilog2 \<bar>?x\<bar> - 52" using assms(2) by (simp add: ulpExp_def max_def split: if_splits)
    have "2 powi (?u + 52) \<le> \<bar>?x\<bar>" using ilog2_bounds(1)[OF pos] u by simp
    also have "\<bar>?x\<bar> \<le> 2 ^ 53 * 2 powi e"
      using assms(1) by (simp add: abs_mult)
    also have "\<dots> = 2 powi (e + 53)" by (simp add: power_int_add)
    finally have "?u + 52 \<le> e + 53" by simp
    with 2 have ue: "?u = e + 1" by simp
    then have eq: "\<bar>?x\<bar> = 2 powi (e + 53)"
      using \<open>2 powi (?u + 52) \<le> \<bar>?x\<bar>\<close> \<open>\<bar>?x\<bar> \<le> 2 ^ 53 * 2 powi e\<close> by (simp add: power_int_add)
    then have "?x / 2 powi ?u = of_int (sgn m * 2 ^ 52)"
    proof -
      have "sgn ?x = of_int (sgn m)" 
        using False by (auto simp: sgn_if mult_less_0_iff zero_less_mult_iff)
      then have "?x = of_int (sgn m) * 2 powi (e + 53)" using mult_sgn_abs[of ?x] eq by simp
      also have "\<dots> / 2 powi ?u = of_int (sgn m) * 2 ^ 52" unfolding ue by (simp add: power_int_add)
      finally show ?thesis by simp
    qed
    moreover have "?x = ?x / 2 powi ?u * 2 powi ?u" by simp
    ultimately show ?thesis using False by (simp only: fl_def rne_of_int) auto
  qed
qed simp

lemma fl_of_int: "\<bar>m\<bar> \<le> 2 ^ 53 \<Longrightarrow> fl (of_int m) = of_int m"
  using fl_exact[of m 0] by simp

lemma fl_pow2: "- 1074 \<le> e \<Longrightarrow> fl (2 powi e) = 2 powi e"
  using fl_exact[of 1 e] by simp


lemma ulpExp_mono: assumes "0 < x" "x \<le> y" shows "ulpExp x \<le> ulpExp y"
  using ilog2_mono[OF assms] assms by (simp add: ulpExp_def)

lemma fl_nonneg: assumes "0 \<le> x" shows "0 \<le> fl x"
proof -
  have "rne 0 \<le> rne (x / 2 powi (ulpExp x))" by (rule rne_mono) (use assms in simp)
  then show ?thesis by (simp add: fl_def rne_def)
qed

lemma fl_mono_pos: assumes "0 < x" "x \<le> y" shows "fl x \<le> fl y"
proof -
  let ?u = "ulpExp x" and ?v = "ulpExp y"
  have y: "0 < y" using assms by simp
  consider "?u = ?v" | "?u < ?v" using ulpExp_mono[OF assms] by linarith
  then show ?thesis
  proof cases
    case 1
    have "rne (x / 2 powi ?u) \<le> rne (y / 2 powi ?u)"
      by (rule rne_mono) (use assms in \<open>simp add: divide_right_mono\<close>)
    then show ?thesis using assms y by (simp add: fl_def 1[symmetric] mult_right_mono)
  next
    case 2
    then have v: "?v = ilog2 y - 52" "ilog2 x < ilog2 y" "?u \<le> ilog2 y - 53" "-1074 \<le> ?u"
      using assms y by (auto simp: ulpExp_def max_def split: if_splits)
    have "x < 2 powi (ilog2 x + 1)" by (rule ilog2_bounds) (rule assms)
    also have "\<dots> \<le> 2 powi (ilog2 y)" using v by simp
    finally have "x / 2 powi ?u \<le> of_int (2 ^ nat (ilog2 y - ?u))"
      using v by (simp add: field_simps flip: power_int_of_nat power_int_add)
    then have "rne (x / 2 powi ?u) \<le> 2 ^ nat (ilog2 y - ?u)"
      using rne_mono rne_of_int by metis
    then have "(of_int (rne (x / 2 powi ?u)) :: rat) \<le> of_int (2 ^ nat (ilog2 y - ?u))"
      by (simp only: of_int_le_iff)
    then have "fl x \<le> of_int (2 ^ nat (ilog2 y - ?u)) * 2 powi ?u"
      using assms by (simp only: fl_def) (simp add: mult_right_mono)
    also have "\<dots> = 2 powi (ilog2 y)" using v by (simp flip: power_int_of_nat power_int_add)
    finally have up: "fl x \<le> 2 powi (ilog2 y)" .
    have "of_int (2 ^ 52) \<le> y / 2 powi ?v"
      using ilog2_bounds(1)[OF y] unfolding v by (simp add: power_int_diff field_simps)
    then have "2 ^ 52 \<le> rne (y / 2 powi ?v)" using rne_mono rne_of_int by metis
    then have "(of_int (2 ^ 52) :: rat) \<le> of_int (rne (y / 2 powi ?v))" by (simp only: of_int_le_iff)
    then have "of_int (2 ^ 52) * 2 powi ?v \<le> fl y"
      using y by (simp only: fl_def) (simp add: mult_right_mono)
    moreover have "of_int (2 ^ 52) * 2 powi ?v = (2::rat) powi (ilog2 y)"
      unfolding v by (simp add: power_int_diff)
    ultimately show ?thesis using up by simp
  qed
qed

lemma fl_mono: assumes "x \<le> y" shows "fl x \<le> fl y"
proof -
  consider "0 < x" | "y < 0" | "x \<le> 0" "0 \<le> y" by linarith
  then show ?thesis
  proof cases
    case 2
    then have "fl (- y) \<le> fl (- x)" using assms by (intro fl_mono_pos) auto
    then show ?thesis by (simp add: fl_minus)
  next
    case 3
    then have "fl x \<le> 0" using fl_nonneg[of "- x"] by (simp add: fl_minus)
    then show ?thesis using fl_nonneg[of y] 3 by simp
  qed (use assms fl_mono_pos in auto)
qed

text \<open>The rounding error: half a unit in the last place, so \<open>2\<^sup>-\<^sup>5\<^sup>3\<close> relative, down to the
  subnormal range.\<close>

lemma fl_err: "\<bar>fl x - x\<bar> \<le> \<bar>x\<bar> / 2 ^ 53 + 1 / 2 ^ 1000"
proof (cases "x = 0")
  case False
  let ?u = "ulpExp x"
  have "fl x - x = (of_int (rne (x / 2 powi ?u)) - x / 2 powi ?u) * 2 powi ?u"
    using False by (simp add: fl_def algebra_simps)
  then have "\<bar>fl x - x\<bar> = \<bar>of_int (rne (x / 2 powi ?u)) - x / 2 powi ?u\<bar> * 2 powi ?u"
    by (simp only: abs_mult) simp
  also have "\<dots> \<le> 1/2 * 2 powi ?u" by (rule mult_right_mono[OF rne_err]) simp
  also have "\<dots> \<le> \<bar>x\<bar> / 2 ^ 53 + 1 / 2 ^ 1000"
  proof (cases "?u = - 1074")
    case True
    have "(1::rat)/2 * 2 powi (- 1074) \<le> 1 / 2 ^ 1000" by (simp add: power_int_minus)
    then show ?thesis using True by (simp add: add_increasing)
  next
    case F: False
    then have u: "ilog2 \<bar>x\<bar> = ?u + 52" by (auto simp: ulpExp_def max_def split: if_splits)
    have "2 powi (ilog2 \<bar>x\<bar>) \<le> \<bar>x\<bar>" using False by (intro ilog2_bounds) simp
    then have "1/2 * 2 powi ?u \<le> \<bar>x\<bar> / 2 ^ 53" unfolding u by (simp add: power_int_add)
    then show ?thesis by (simp add: add_increasing2)
  qed
  finally show ?thesis .
qed simp


section \<open>JavaScript's arithmetic on doubles\<close>

definition fadd :: "double \<Rightarrow> double \<Rightarrow> double" where "fadd a b = fl (a + b)"
definition fsub :: "double \<Rightarrow> double \<Rightarrow> double" where "fsub a b = fl (a - b)"
definition fmul :: "double \<Rightarrow> double \<Rightarrow> double" where "fmul a b = fl (a * b)"
definition fdiv :: "double \<Rightarrow> double \<Rightarrow> double" where "fdiv a b = fl (a / b)"

text \<open>\<open>Number.EPSILON\<close> and \<open>Math.round\<close> (the nearest integer, ties upwards; it never rounds
  its result, which is the double itself from \<open>2\<^sup>5\<^sup>2\<close> on).\<close>

definition EPSILON :: double where "EPSILON = 1 / 2 ^ 52"

definition mathRound :: "double \<Rightarrow> double" where
  "mathRound x = of_int \<lfloor>x + 1/2\<rfloor>"

lemma mathRound_mono: "x \<le> y \<Longrightarrow> mathRound x \<le> mathRound y"
  by (simp add: mathRound_def floor_mono)

lemma mathRound_unique: "\<bar>of_int n - x\<bar> < 1/2 \<Longrightarrow> mathRound x = of_int n"
proof -
  assume "\<bar>of_int n - x\<bar> < 1/2"
  then have "\<lfloor>x + 1/2\<rfloor> = n" by (intro floor_unique) linarith+
  then show ?thesis by (simp add: mathRound_def)
qed

section \<open>Evaluation\<close>

text \<open>Code equations that compute the rounding on integers, for the worked examples.\<close>

definition rneDiv :: "int \<Rightarrow> int \<Rightarrow> int" where
  "rneDiv n d = (let f = n div d; r = 2 * (n mod d) in
     if r < d then f else if d < r then f + 1 else if even f then f else f + 1)"

lemma rne_div:
  assumes "0 < d" shows "rne (of_int n / of_int d) = rneDiv n d"
proof -
  have fl: "\<lfloor>(of_int n / of_int d :: rat)\<rfloor> = n div d" by (rule floor_divide_of_int_eq)
  have nd: "n = d * (n div d) + n mod d" by simp
  have "of_int n / of_int d - of_int (n div d) = (of_int (n mod d) / of_int d :: rat)"
    using assms by (subst (1) nd) (simp only: of_int_add of_int_mult, simp add: field_simps)
  then have m: "of_int n / of_int d - of_int (n div d) = (of_int (n mod d) / of_int d :: rat)" .
  have lt: "(of_int (n mod d) / of_int d :: rat) < 1/2 \<longleftrightarrow> 2 * (n mod d) < d"
  proof -
    have "(of_int (n mod d) / of_int d :: rat) < 1/2 \<longleftrightarrow> (of_int (2 * (n mod d)) :: rat) < of_int d"
      using assms by (simp add: field_simps)
    then show ?thesis by (simp only: of_int_less_iff)
  qed
  have gt: "1/2 < (of_int (n mod d) / of_int d :: rat) \<longleftrightarrow> d < 2 * (n mod d)"
  proof -
    have "1/2 < (of_int (n mod d) / of_int d :: rat) \<longleftrightarrow> (of_int d :: rat) < of_int (2 * (n mod d))"
      using assms by (simp add: field_simps)
    then show ?thesis by (simp only: of_int_less_iff)
  qed
  show ?thesis unfolding rne_def rneDiv_def Let_def fl m lt gt ..
qed

function twoTo :: "int \<Rightarrow> int" where
  "twoTo k = (if k \<le> 0 then 1 else if even k then twoTo (k div 2) * twoTo (k div 2) else 2 * twoTo (k - 1))"
  by auto
termination by (relation "measure nat") auto

declare twoTo.simps [simp del]

lemma twoTo_eq: "twoTo k = 2 ^ nat k"
proof (induction k rule: twoTo.induct)
  case (1 k)
  consider "k \<le> 0" | "0 < k" "even k" | "0 < k" "odd k" by linarith
  then show ?case
  proof cases
    case 2
    then have "nat k = nat (k div 2) + nat (k div 2)" by (simp flip: nat_add_distrib)
    then have "2 ^ nat k = (2::int) ^ nat (k div 2) * 2 ^ nat (k div 2)" by (simp only: power_add)
    then show ?thesis using 2 1(1) by (simp add: twoTo.simps[of k])
  next
    case 3
    then have "nat k = Suc (nat (k - 1))" by simp
    then have "2 ^ nat k = (2::int) * 2 ^ nat (k - 1)" by (simp only: power_Suc)
    then show ?thesis using 3 1(3) by (simp add: twoTo.simps[of k])
  qed (simp add: twoTo.simps[of k])
qed

definition square :: "int \<Rightarrow> int" where "square x = x * x"

definition rneAux :: "int \<Rightarrow> int \<Rightarrow> int \<Rightarrow> int" where
  "rneAux f r d = (if r < d then f else if d < r then f + 1 else if even f then f else f + 1)"

lemma rneDiv_code [code]: "rneDiv n d = rneAux (n div d) (2 * (n mod d)) d"
  by (simp add: rneDiv_def rneAux_def Let_def)

lemma twoTo_code [code]:
  "twoTo k = (if k \<le> 0 then 1 else if even k then square (twoTo (k div 2)) else 2 * twoTo (k - 1))"
  unfolding square_def by (rule twoTo.simps)

definition ilogAux :: "int \<Rightarrow> int \<Rightarrow> int \<Rightarrow> int" where
  "ilogAux n d k = (if (if 0 \<le> k then d * twoTo k \<le> n else d \<le> n * twoTo (- k)) then k else k - 1)"

definition flAux :: "int \<Rightarrow> int \<Rightarrow> int \<Rightarrow> rat" where
  "flAux n d e = (if 0 \<le> e then of_int (rneDiv n (d * twoTo e) * twoTo e)
     else of_int (rneDiv (n * twoTo (- e)) d) / of_int (twoTo (- e)))"

lemma powi_2_code: "(2::rat) powi k = (if 0 \<le> k then of_int (2 ^ nat k) else inverse (of_int (2 ^ nat (- k))))"
  by (simp only: power_int_def power_inverse of_int_power of_int_numeral)

lemma ilog2_code [code]:
  "ilog2 q = (case quotient_of q of (n, d) \<Rightarrow> ilogAux n d (bitlen n - bitlen d))"
proof -
  obtain n d where nd: "quotient_of q = (n, d)" by fastforce
  have d: "0 < d" and q: "q = of_int n / of_int d"
    using quotient_of_denom_pos[OF nd] quotient_of_div[OF nd] by auto
  have "(2::rat) powi k \<le> q \<longleftrightarrow> (if 0 \<le> k then d * 2 ^ nat k \<le> n else d \<le> n * 2 ^ nat (- k))" for k
  proof (cases "0 \<le> k")
    case True
    have "(2::rat) powi k \<le> q \<longleftrightarrow> (of_int (d * 2 ^ nat k) :: rat) \<le> of_int n"
      using True d unfolding powi_2_code q by (simp add: field_simps)
    then show ?thesis using True by (simp only: of_int_le_iff if_True)
  next
    case False
    have "(2::rat) powi k \<le> q \<longleftrightarrow> (of_int d :: rat) \<le> of_int (n * 2 ^ nat (- k))"
      using False d unfolding powi_2_code q by (simp add: field_simps)
    then show ?thesis using False by (simp only: of_int_le_iff if_False)
  qed
  then show ?thesis by (simp add: ilog2_def nd ilogAux_def twoTo_eq Let_def)
qed

lemma fl_code [code]:
  "fl q = (if q = 0 then 0 else case quotient_of q of (n, d) \<Rightarrow> flAux n d (ulpExp q))"
proof -
  obtain n d where nd: "quotient_of q = (n, d)" by fastforce
  have d: "0 < d" and q: "q = of_int n / of_int d"
    using quotient_of_denom_pos[OF nd] quotient_of_div[OF nd] by auto
  let ?e = "ulpExp q"
  show ?thesis
  proof (cases "0 \<le> ?e")
    case True
    have "q / 2 powi ?e = of_int n / of_int (d * 2 ^ nat ?e)"
      using True by (simp add: powi_2_code) (simp add: q)
    moreover have "0 < d * 2 ^ nat ?e" using d by simp
    ultimately have "rne (q / 2 powi ?e) = rneDiv n (d * 2 ^ nat ?e)" by (metis rne_div)
    then show ?thesis using True by (simp add: fl_def nd powi_2_code flAux_def twoTo_eq Let_def)
  next
    case False
    have "q / 2 powi ?e = of_int (n * 2 ^ nat (- ?e)) / of_int d" using False
      by (simp add: powi_2_code) (simp add: q divide_inverse)
    then have "rne (q / 2 powi ?e) = rneDiv (n * 2 ^ nat (- ?e)) d" using d by (simp only: rne_div)
    then show ?thesis using False by (simp add: fl_def nd powi_2_code flAux_def twoTo_eq Let_def divide_inverse)
  qed
qed

lemma EPSILON_code [code]: "EPSILON = 1 / 4503599627370496"
  by (simp add: EPSILON_def)

end
