(* ===== verification/Numbers.thy ===== *)
theory Numbers
  imports Doubles
begin

text \<open>
  utils/number.ts and the two other roundings of routes/stocks.ts. All three have one shape,
  \<open>Math.round((value + Number.EPSILON) * s) / s\<close> with \<open>s\<close> = 100, 1000 or 10000, so their laws
  are proved once, in the locale \<open>decimal_scale\<close>, and interpreted three times.

  A \<open>Decimal(18, k)\<close> column of the database holds an exact decimal; the model stores it as the
  integer count of its last digit (cents, thousandths, ten-thousandths). \<open>grid s n\<close> is the double
  that \<open>toNumber\<close> reads from the column value \<open>n / s\<close>. The main results: rounding always gives a
  grid value, it is monotone, it recovers \<open>grid s n\<close> from anything within 2/5 of the last digit of
  it, and so the double arithmetic of the code computes exact sums, differences and totals of
  decimals as long as the amounts stay below \<open>2\<^sup>4\<^sup>5\<close> last digits (351 billion in cents).
\<close>

section \<open>Rounding to a decimal scale\<close>

definition roundTo :: "int \<Rightarrow> double \<Rightarrow> double" where
  "roundTo s value = fdiv (mathRound (fmul (fadd value EPSILON) (of_int s))) (of_int s)"

text \<open>The double nearest to \<open>n / s\<close>: what a decimal with the scale \<open>s\<close> reads as.\<close>

definition grid :: "int \<Rightarrow> int \<Rightarrow> double" where
  "grid s n = fl (of_int n / of_int s)"

locale decimal_scale =
  fixes s :: int
  assumes scale_pos: "1 \<le> s" and scale_max: "s \<le> 10000"
begin

lemma roundTo_grid: "\<exists>n. roundTo s x = grid s n"
  by (auto simp: roundTo_def mathRound_def fdiv_def grid_def)

lemma roundTo_mono: "x \<le> y \<Longrightarrow> roundTo s x \<le> roundTo s y"
  unfolding roundTo_def fdiv_def fmul_def fadd_def
  using scale_pos by (intro fl_mono divide_right_mono mathRound_mono mult_right_mono) auto

lemma grid_0 [simp]: "grid s 0 = 0"
  by (simp add: grid_def)

lemma grid_minus: "grid s (- n) = - grid s n"
  by (simp add: grid_def fl_minus[symmetric])

lemma grid_mono: "m \<le> n \<Longrightarrow> grid s m \<le> grid s n"
  unfolding grid_def using scale_pos by (intro fl_mono divide_right_mono) auto

lemma grid_err: "\<bar>of_int s * grid s n - of_int n\<bar> \<le> \<bar>of_int n\<bar> / 2 ^ 53 + 1 / 2 ^ 900"
proof -
  have s: "(0::rat) < of_int s" "(of_int s :: rat) \<le> 10000" using scale_pos scale_max by simp_all
  have "\<bar>of_int s * grid s n - of_int n\<bar> = of_int s * \<bar>grid s n - of_int n / of_int s\<bar>"
    using s by (simp add: abs_mult_pos' field_simps)
  also have "\<dots> \<le> of_int s * (\<bar>of_int n / of_int s\<bar> / 2 ^ 53 + 1 / 2 ^ 1000)"
    unfolding grid_def using s by (intro mult_left_mono fl_err) auto
  also have "\<dots> = \<bar>of_int n\<bar> / 2 ^ 53 + of_int s * (1 / 2 ^ 1000)"
    using s by (simp add: field_simps abs_divide)
  also have "\<dots> \<le> \<bar>of_int n\<bar> / 2 ^ 53 + 10000 * (1 / 2 ^ 1000)"
    using s by (intro add_left_mono mult_right_mono) auto
  also have "\<dots> \<le> \<bar>of_int n\<bar> / 2 ^ 53 + 1 / 2 ^ 900"
    by (intro add_left_mono) simp
  finally show ?thesis .
qed

lemma grid_strict_mono: assumes "m < n" "\<bar>m\<bar> \<le> 2 ^ 50" "\<bar>n\<bar> \<le> 2 ^ 50" shows "grid s m < grid s n"
proof -
  have s: "(0::rat) < of_int s" using scale_pos by simp
  have b: "\<bar>of_int m :: rat\<bar> \<le> 2 ^ 50" "\<bar>of_int n :: rat\<bar> \<le> 2 ^ 50"
    using assms by (metis of_int_abs of_int_le_iff of_int_numeral of_int_power)+
  have t: "(1::rat) / 2 ^ 900 \<le> 1 / 2 ^ 10" by simp
  have "of_int m + 1 \<le> (of_int n :: rat)" using assms(1) by (metis of_int_1 of_int_add of_int_le_iff zless_imp_add1_zle add.commute)
  then have "of_int s * grid s m < of_int s * grid s n"
    using grid_err[of m] grid_err[of n] b t by simp
  then show ?thesis using s by simp
qed

lemma grid_inj: assumes "\<bar>m\<bar> \<le> 2 ^ 50" "\<bar>n\<bar> \<le> 2 ^ 50" shows "grid s m = grid s n \<longleftrightarrow> m = n"
  using grid_strict_mono[of m n] grid_strict_mono[of n m] assms by (cases m n rule: linorder_cases) auto

lemma grid_le_iff: assumes "\<bar>m\<bar> \<le> 2 ^ 50" "\<bar>n\<bar> \<le> 2 ^ 50" shows "grid s m \<le> grid s n \<longleftrightarrow> m \<le> n"
  using grid_strict_mono[of n m] grid_mono[of m n] assms by (meson not_le)

lemma roundTo_near:
  assumes near: "\<bar>of_int s * x - of_int n\<bar> \<le> 2/5" and n: "\<bar>n\<bar> \<le> 2 ^ 45"
  shows "roundTo s x = grid s n"
proof -
  have s: "(1::rat) \<le> of_int s" "(of_int s :: rat) \<le> 10000" using scale_pos scale_max by simp_all
  define a where "a = fl (x + EPSILON)"
  define N where "N = (of_int n :: rat)"
  have N: "\<bar>N\<bar> \<le> 2 ^ 45" unfolding N_def using n by (metis of_int_abs of_int_le_iff of_int_numeral of_int_power)
  have a: "\<bar>a - (x + EPSILON)\<bar> \<le> \<bar>x + EPSILON\<bar> / 2 ^ 53 + 1 / 2 ^ 1000" unfolding a_def by (rule fl_err)
  have sx: "\<bar>of_int s * (x + EPSILON)\<bar> \<le> 2 ^ 45 + 1" "\<bar>of_int s * (x + EPSILON) - N\<bar> \<le> 2/5 + 1/100"
  proof -
    have e: "0 \<le> of_int s * EPSILON" "of_int s * EPSILON \<le> 1/100"
      using s by (simp_all add: EPSILON_def)
    show "\<bar>of_int s * (x + EPSILON)\<bar> \<le> 2 ^ 45 + 1" "\<bar>of_int s * (x + EPSILON) - N\<bar> \<le> 2/5 + 1/100"
      using near N e unfolding N_def[symmetric] distrib_left by linarith+
  qed
  have sa: "\<bar>a * of_int s - of_int s * (x + EPSILON)\<bar> \<le> 1/100"
  proof -
    have "\<bar>a * of_int s - of_int s * (x + EPSILON)\<bar> = of_int s * \<bar>a - (x + EPSILON)\<bar>"
      using s by (simp add: abs_mult_pos' right_diff_distrib mult.commute)
    also have "\<dots> \<le> of_int s * (\<bar>x + EPSILON\<bar> / 2 ^ 53 + 1 / 2 ^ 1000)"
      using s a by (intro mult_left_mono) auto
    also have "\<dots> = \<bar>of_int s * (x + EPSILON)\<bar> / 2 ^ 53 + of_int s / 2 ^ 1000"
    proof -
      have m: "\<bar>of_int s * (x + EPSILON)\<bar> = of_int s * \<bar>x + EPSILON\<bar>" using s by (simp add: abs_mult)
      show ?thesis unfolding m by (simp add: ring_distribs(1))
    qed
    also have "\<dots> \<le> (2 ^ 45 + 1) / 2 ^ 53 + 10000 / 2 ^ 1000"
      using sx s by (intro add_mono divide_right_mono) auto
    also have "\<dots> \<le> 1/100" by simp
    finally show ?thesis .
  qed
  have "\<bar>fl (a * of_int s) - a * of_int s\<bar> \<le> \<bar>a * of_int s\<bar> / 2 ^ 53 + 1 / 2 ^ 1000" by (rule fl_err)
  also have "\<dots> \<le> (2 ^ 45 + 2) / 2 ^ 53 + 1 / 2 ^ 1000"
    using sa sx(1) by (intro add_right_mono divide_right_mono) (linarith, simp)
  also have "\<dots> \<le> 1/100" by simp
  finally have "\<bar>N - fl (a * of_int s)\<bar> < 1/2" using sa sx(2) by linarith
  then show ?thesis
    unfolding roundTo_def fdiv_def fmul_def fadd_def a_def[symmetric] N_def grid_def
    by (simp add: mathRound_unique)
qed

text \<open>The sum a \<open>reduce\<close> computes, one rounded addition per element, and its distance from
  the exact sum.\<close>

lemma sum_abs_nonneg: "0 \<le> (\<Sum>n\<leftarrow>ns. \<bar>n\<bar> :: int)"
  by (induction ns) auto

lemma add_step_err:
  assumes acc: "\<bar>of_int s * acc - A\<bar> \<le> e" "e \<le> 1" and T: "1 \<le> T" "\<bar>n\<bar> \<le> T" "\<bar>A + of_int n\<bar> \<le> of_int T"
  shows "\<bar>of_int s * fadd acc (grid s n) - (A + of_int n)\<bar> \<le> e + of_int T / 2 ^ 50"
proof -
  define t where "t = (of_int T :: rat)"
  have s: "(1::rat) \<le> of_int s" "(of_int s :: rat) \<le> 10000" using scale_pos scale_max by simp_all
  have t: "1 \<le> t" "\<bar>of_int n\<bar> \<le> t" "\<bar>A + of_int n\<bar> \<le> t"
    using T unfolding t_def by (simp, metis of_int_abs of_int_le_iff, simp)
  define y where "y = acc + grid s n"
  have "\<bar>of_int s * grid s n - of_int n\<bar> \<le> t / 2 ^ 53 + 1 / 2 ^ 900"
    by (rule order_trans[OF grid_err]) (use t(2) in \<open>intro add_right_mono divide_right_mono, auto\<close>)
  then have g: "\<bar>of_int s * grid s n - of_int n\<bar> \<le> t / 2 ^ 53 + t / 2 ^ 60"
    using t(1) by simp
  have y: "\<bar>of_int s * y - (A + of_int n)\<bar> \<le> e + (t / 2 ^ 53 + t / 2 ^ 60)"
    using acc g unfolding y_def distrib_left by linarith
  have "t / 2 ^ 53 + t / 2 ^ 60 \<le> t / 2" using t(1) by simp
  then have y3: "\<bar>of_int s * y\<bar> \<le> 3 * t" using y t acc(2) by linarith
  have m: "\<bar>of_int s * z\<bar> = of_int s * \<bar>z\<bar>" for z :: rat using s by (simp add: abs_mult)
  have "\<bar>of_int s * fl y - of_int s * y\<bar> = of_int s * \<bar>fl y - y\<bar>"
    using m[of "fl y - y"] by (simp add: right_diff_distrib)
  also have "\<dots> \<le> of_int s * (\<bar>y\<bar> / 2 ^ 53 + 1 / 2 ^ 1000)"
    using s by (intro mult_left_mono fl_err) auto
  also have "\<dots> = \<bar>of_int s * y\<bar> / 2 ^ 53 + of_int s / 2 ^ 1000"
    by (simp only: m distrib_left) simp
  also have "\<dots> \<le> (3 * t) / 2 ^ 53 + 10000 / 2 ^ 1000"
    using s y3 by (intro add_mono divide_right_mono) auto
  finally have f: "\<bar>of_int s * fl y - of_int s * y\<bar> \<le> (3 * t) / 2 ^ 53 + 10000 / 2 ^ 1000" .
  have "(10000::rat) / 2 ^ 1000 \<le> t / 2 ^ 60" using t(1) by simp
  moreover have "3 * t / 2 ^ 53 + t / 2 ^ 60 + (t / 2 ^ 53 + t / 2 ^ 60) \<le> t / 2 ^ 50" using t(1) by simp
  ultimately show ?thesis using f y unfolding fadd_def y_def[symmetric] t_def[symmetric] by linarith
qed

lemma sum_err:
  assumes "1 \<le> T" "\<bar>acc0\<bar> + (\<Sum>n\<leftarrow>ns. \<bar>n\<bar>) \<le> T" "int (k + length ns) * T \<le> 2 ^ 48"
    and "\<bar>of_int s * acc - of_int acc0\<bar> \<le> of_nat k * (of_int T / 2 ^ 50)"
  shows "\<bar>of_int s * foldl fadd acc (map (grid s) ns) - of_int (acc0 + sum_list ns)\<bar>
           \<le> of_nat (k + length ns) * (of_int T / 2 ^ 50)"
  using assms
proof (induction ns arbitrary: acc acc0 k)
  case Nil
  then show ?case by simp
next
  case (Cons n ns)
  have nT: "\<bar>n\<bar> \<le> T" "\<bar>acc0 + n\<bar> \<le> T" using Cons.prems(2) sum_abs_nonneg[of ns] by auto
  have "int k * T \<le> int (k + length (n # ns)) * T" using Cons.prems(1) by (intro mult_right_mono) auto
  then have "int k * T \<le> 2 ^ 48" using Cons.prems(3) by linarith
  then have "(of_int (int k * T) :: rat) \<le> of_int (2 ^ 48)" by (simp only: of_int_le_iff)
  then have kd: "of_nat k * (of_int T / 2 ^ 50) \<le> (1::rat)" by simp
  have "\<bar>(of_int (acc0 + n) :: rat)\<bar> \<le> of_int T" using nT(2) by (metis of_int_abs of_int_le_iff)
  then have "\<bar>of_int s * fadd acc (grid s n) - (of_int acc0 + of_int n)\<bar>
      \<le> of_nat k * (of_int T / 2 ^ 50) + of_int T / 2 ^ 50"
    using Cons.prems(1,4) nT kd by (intro add_step_err) auto
  then have "\<bar>of_int s * foldl fadd (fadd acc (grid s n)) (map (grid s) ns) - of_int ((acc0 + n) + sum_list ns)\<bar>
      \<le> of_nat (Suc k + length ns) * (of_int T / 2 ^ 50)"
    using Cons.prems by (intro Cons.IH) (auto simp: algebra_simps)
  then show ?case by (simp add: add.assoc)
qed

lemma roundTo_sum:
  assumes "int (length ns) * (1 + (\<Sum>n\<leftarrow>ns. \<bar>n\<bar>)) \<le> 2 ^ 45"
  shows "roundTo s (foldl fadd 0 (map (grid s) ns)) = grid s (sum_list ns)"
proof (cases ns)
  case (Cons a list)
  define T where "T = 1 + (\<Sum>n\<leftarrow>ns. \<bar>n\<bar>)"
  have T: "1 \<le> T" unfolding T_def using sum_abs_nonneg[of ns] by auto
  have "1 * T \<le> int (length ns) * T" using Cons T by (intro mult_right_mono) auto
  then have T2: "T \<le> 2 ^ 45" "int (length ns) * T \<le> 2 ^ 45" using assms unfolding T_def[symmetric] by linarith+
  have "\<bar>of_int s * foldl fadd 0 (map (grid s) ns) - of_int (0 + sum_list ns)\<bar>
      \<le> of_nat (0 + length ns) * (of_int T / 2 ^ 50)"
    using T T2 by (intro sum_err) (auto simp: T_def)
  also have "\<dots> = of_int (int (length ns) * T) / 2 ^ 50" by simp
  also have "\<dots> \<le> of_int (2 ^ 45) / 2 ^ 50" using T2(2) by (intro divide_right_mono) (simp_all only: of_int_le_iff, simp)
  also have "\<dots> \<le> 2/5" by simp
  finally have "\<bar>of_int s * foldl fadd 0 (map (grid s) ns) - of_int (sum_list ns)\<bar> \<le> 2/5" by simp
  moreover have "\<bar>sum_list ns\<bar> \<le> 2 ^ 45" using sum_list_abs[of ns] T2(1) unfolding T_def by linarith
  ultimately show ?thesis by (rule roundTo_near)
qed (use roundTo_near[of 0 0] in simp)

lemma grid_close:
  assumes "\<bar>n\<bar> \<le> 2 ^ 45" shows "\<bar>of_int s * grid s n - of_int n\<bar> \<le> 1 / 100"
proof -
  have "\<bar>of_int n :: rat\<bar> \<le> 2 ^ 45" using assms by (metis of_int_abs of_int_le_iff of_int_numeral of_int_power)
  then have "\<bar>of_int n :: rat\<bar> / 2 ^ 53 \<le> 2 ^ 45 / 2 ^ 53" by (intro divide_right_mono) auto
  also have "\<dots> \<le> 1/200" by simp
  finally have "\<bar>of_int n :: rat\<bar> / 2 ^ 53 \<le> 1/200" .
  moreover have "(1::rat) / 2 ^ 900 \<le> 1/200" by simp
  ultimately show ?thesis using grid_err[of n] by linarith
qed

lemma roundTo_idem [simp]: "\<bar>n\<bar> \<le> 2 ^ 45 \<Longrightarrow> roundTo s (grid s n) = grid s n"
  by (rule roundTo_near) (use grid_close[of n] in auto)

lemma grid_cmp:
  assumes "\<bar>m\<bar> \<le> 2 ^ 49"
  shows "grid s k \<le> grid s m \<longleftrightarrow> k \<le> m" and "grid s m \<le> grid s k \<longleftrightarrow> m \<le> k"
proof -
  have up: "grid s m < grid s (m + 1)" and dn: "grid s (m - 1) < grid s m"
    using assms by (auto intro!: grid_strict_mono)
  show "grid s k \<le> grid s m \<longleftrightarrow> k \<le> m"
    using up grid_mono[of k m] grid_mono[of "m + 1" k] by (cases "k \<le> m") auto
  show "grid s m \<le> grid s k \<longleftrightarrow> m \<le> k"
    using dn grid_mono[of m k] grid_mono[of k "m - 1"] by (cases "m \<le> k") auto
qed

lemma grid_less_cmp:
  assumes "\<bar>m\<bar> \<le> 2 ^ 49"
  shows "grid s k < grid s m \<longleftrightarrow> k < m" and "grid s m < grid s k \<longleftrightarrow> m < k"
  using grid_cmp[OF assms, of k] by (auto simp: not_le[symmetric])

lemma grid_eq_cmp:
  assumes "\<bar>m\<bar> \<le> 2 ^ 49"
  shows "grid s k = grid s m \<longleftrightarrow> k = m"
  using grid_cmp[OF assms, of k] by (auto simp: order_eq_iff)

lemma grid_sign [simp]:
  "grid s n \<le> 0 \<longleftrightarrow> n \<le> 0" "0 \<le> grid s n \<longleftrightarrow> 0 \<le> n" "grid s n < 0 \<longleftrightarrow> n < 0" "0 < grid s n \<longleftrightarrow> 0 < n"
  "grid s n = 0 \<longleftrightarrow> n = 0"
  using grid_cmp[of 0 n] grid_less_cmp[of 0 n] grid_eq_cmp[of 0 n] by simp_all

lemma grid_max: "max (grid s m) (grid s n) = grid s (max m n)"
  using grid_mono[of m n] grid_mono[of n m] by (auto simp: max_def)

lemma grid_min: "min (grid s m) (grid s n) = grid s (min m n)"
  using grid_mono[of m n] grid_mono[of n m] by (auto simp: min_def)

lemma grid_abs: "\<bar>grid s n\<bar> = grid s \<bar>n\<bar>"
  by (cases "0 \<le> n") (simp_all add: grid_minus)

lemma roundTo_add:
  assumes "\<bar>m\<bar> \<le> 2 ^ 44" "\<bar>n\<bar> \<le> 2 ^ 44"
  shows "roundTo s (fadd (grid s m) (grid s n)) = grid s (m + n)"
proof (rule roundTo_near)
  have "\<bar>of_int m :: rat\<bar> \<le> 2 ^ 44" "\<bar>of_int n :: rat\<bar> \<le> 2 ^ 44"
    using assms by (metis of_int_abs of_int_le_iff of_int_numeral of_int_power)+
  then have "\<bar>of_int s * fadd (grid s m) (grid s n) - (of_int m + of_int n)\<bar> \<le> 1/100 + of_int (2 ^ 45) / 2 ^ 50"
    using assms grid_close[of m] by (intro add_step_err) auto
  also have "\<dots> \<le> 2/5" by simp
  finally show "\<bar>of_int s * fadd (grid s m) (grid s n) - of_int (m + n)\<bar> \<le> 2/5" by simp
qed (use assms in auto)

lemma roundTo_sub:
  assumes "\<bar>m\<bar> \<le> 2 ^ 44" "\<bar>n\<bar> \<le> 2 ^ 44"
  shows "roundTo s (fsub (grid s m) (grid s n)) = grid s (m - n)"
  using roundTo_add[of m "- n"] assms by (simp add: grid_minus fsub_def fadd_def)

lemma grid_of_int: "\<bar>k\<bar> \<le> 2 ^ 53 \<Longrightarrow> grid s (s * k) = of_int k"
  using scale_pos by (simp add: grid_def fl_of_int)

lemma roundTo_of_int:
  assumes "\<bar>s * k\<bar> \<le> 2 ^ 45" shows "roundTo s (of_int k) = of_int k"
proof -
  have "1 * \<bar>k\<bar> \<le> s * \<bar>k\<bar>" using scale_pos by (intro mult_right_mono) auto
  then have "\<bar>k\<bar> \<le> 2 ^ 53" using assms scale_pos by (simp add: abs_mult)
  then show ?thesis using roundTo_idem[OF assms] by (simp add: grid_of_int)
qed

lemma floor_grid: "\<bar>n\<bar> \<le> 2 ^ 45 \<Longrightarrow> \<lfloor>of_int s * grid s n + 1/2\<rfloor> = n"
  using grid_close[of n] by (intro floor_unique) linarith+

lemma roundTo_nonneg: "0 \<le> x \<Longrightarrow> 0 \<le> roundTo s x"
  using roundTo_mono[of 0 x] roundTo_idem[of 0] by simp

lemma fsub_close:
  assumes "\<bar>of_int s * a - of_int m\<bar> \<le> 1/20" "\<bar>of_int s * b - of_int n\<bar> \<le> 1/20" "\<bar>m\<bar> \<le> 2 ^ 44" "\<bar>n\<bar> \<le> 2 ^ 44"
  shows "\<bar>of_int s * fsub a b - of_int (m - n)\<bar> \<le> 1/5"
proof -
  have s: "(1::rat) \<le> of_int s" "(of_int s :: rat) \<le> 10000" using scale_pos scale_max by simp_all
  have mn: "\<bar>of_int m :: rat\<bar> \<le> 2 ^ 44" "\<bar>of_int n :: rat\<bar> \<le> 2 ^ 44"
    using assms by (metis of_int_abs of_int_le_iff of_int_numeral of_int_power)+
  have d: "\<bar>of_int s * (a - b) - of_int (m - n)\<bar> \<le> 1/10"
    using assms(1,2) unfolding of_int_diff right_diff_distrib by linarith
  have m: "\<bar>of_int s * z\<bar> = of_int s * \<bar>z\<bar>" for z :: rat using s by (simp add: abs_mult)
  have b: "of_int s * \<bar>a - b\<bar> \<le> 2 ^ 46" 
  proof -
    have "(2::rat) ^ 46 = 4 * 2 ^ 44" "(1::rat) \<le> 2 ^ 44" by simp_all
    then show ?thesis using d mn unfolding m[symmetric] of_int_diff by linarith
  qed
  have "\<bar>of_int s * fl (a - b) - of_int s * (a - b)\<bar> = of_int s * \<bar>fl (a - b) - (a - b)\<bar>"
    using m[of "fl (a - b) - (a - b)"] by (simp add: right_diff_distrib)
  also have "\<dots> \<le> of_int s * (\<bar>a - b\<bar> / 2 ^ 53 + 1 / 2 ^ 1000)"
    using s by (intro mult_left_mono fl_err) auto
  also have "\<dots> = of_int s * \<bar>a - b\<bar> / 2 ^ 53 + of_int s / 2 ^ 1000" by (simp add: ring_distribs(1))
  also have "\<dots> \<le> 2 ^ 46 / 2 ^ 53 + 10000 / 2 ^ 1000" using s b by (intro add_mono divide_right_mono) auto
  also have "\<dots> \<le> 1/10" by simp
  finally show ?thesis using d unfolding fsub_def by linarith
qed

lemma grid_close_44: "\<bar>n\<bar> \<le> 2 ^ 44 \<Longrightarrow> \<bar>of_int s * grid s n - of_int n\<bar> \<le> 1 / 20"
  by (rule order_trans[OF grid_close]) simp_all

lemma fsub_grid_close:
  assumes "\<bar>m\<bar> \<le> 2 ^ 44" "\<bar>n\<bar> \<le> 2 ^ 44" shows "\<bar>of_int s * fsub (grid s m) (grid s n) - of_int (m - n)\<bar> \<le> 1/5"
  using assms by (intro fsub_close grid_close_44)

text \<open>\<open>Math.max(a - b, 0)\<close>, rounded, of two amounts known up to a fraction of the last digit.\<close>

lemma roundTo_open:
  assumes a: "\<bar>of_int s * a - of_int m\<bar> \<le> 1/20" and b: "\<bar>of_int s * b - of_int n\<bar> \<le> 1/20"
    and mn: "0 \<le> n" "n \<le> m" "m \<le> 2 ^ 44"
  shows "roundTo s (max (fsub a b) 0) = grid s (m - n)"
proof (rule roundTo_near)
  have c: "\<bar>of_int s * fsub a b - of_int (m - n)\<bar> \<le> 1/5" using a b mn by (intro fsub_close) auto
  have "0 \<le> (of_int (m - n) :: rat)" using mn by simp
  moreover have "of_int s * max (fsub a b) 0 = max (of_int s * fsub a b) 0"
    using scale_pos by (simp add: max_mult_distrib_left)
  ultimately show "\<bar>of_int s * max (fsub a b) 0 - of_int (m - n)\<bar> \<le> 2/5" using c by (auto simp: max_def)
qed (use mn in auto)

lemma roundTo_open_grid: "0 \<le> n \<Longrightarrow> n \<le> m \<Longrightarrow> m \<le> 2 ^ 44 \<Longrightarrow> roundTo s (max (fsub (grid s m) (grid s n)) 0) = grid s (m - n)"
  by (intro roundTo_open grid_close_44) auto

lemma sum_close:
  assumes "int (length ns) * (1 + (\<Sum>n\<leftarrow>ns. \<bar>n\<bar>)) \<le> 2 ^ 45"
  shows "\<bar>of_int s * foldl fadd 0 (map (grid s) ns) - of_int (sum_list ns)\<bar> \<le> 1/20"
proof (cases ns)
  case (Cons a list)
  define T where "T = 1 + (\<Sum>n\<leftarrow>ns. \<bar>n\<bar>)"
  have T: "1 \<le> T" unfolding T_def using sum_abs_nonneg[of ns] by auto
  have "1 * T \<le> int (length ns) * T" using Cons T by (intro mult_right_mono) auto
  then have T2: "T \<le> 2 ^ 45" "int (length ns) * T \<le> 2 ^ 45" using assms unfolding T_def[symmetric] by linarith+
  have "\<bar>of_int s * foldl fadd 0 (map (grid s) ns) - of_int (0 + sum_list ns)\<bar>
      \<le> of_nat (0 + length ns) * (of_int T / 2 ^ 50)"
    using T T2 by (intro sum_err) (auto simp: T_def)
  also have "\<dots> = of_int (int (length ns) * T) / 2 ^ 50" by simp
  also have "\<dots> \<le> of_int (2 ^ 45) / 2 ^ 50" using T2(2) by (intro divide_right_mono) (simp_all only: of_int_le_iff, simp)
  also have "\<dots> \<le> 1/20" by simp
  finally show ?thesis by simp
qed simp

end

text \<open>\<open>Math.floor(a / b)\<close> on integers below \<open>2\<^sup>5\<^sup>3\<close> is the integer quotient.\<close>

lemma floor_fdiv:
  assumes "\<bar>a\<bar> < 2 ^ 53" "0 < b" "b \<le> 2 ^ 53" shows "\<lfloor>fdiv (of_int a) (of_int b)\<rfloor> = a div b"
proof (rule floor_unique)
  define q where "q = a div b"
  have r: "a = q * b + a mod b" "0 \<le> a mod b" "a mod b < b" using assms by (simp_all add: q_def)
  have bq: "(0::rat) < of_int b" using assms(2) by simp
  have "\<bar>q\<bar> \<le> \<bar>a\<bar>"
  proof (cases "0 \<le> q")
    case True
    then have "q * 1 \<le> q * b" using assms(2) by (intro mult_left_mono) auto
    then show ?thesis using r True by linarith
  next
    case False
    then have "(q + 1) * b \<le> (q + 1) * 1" using assms(2) by (intro mult_left_mono_neg) auto
    then have "a < q + 1" using r by (simp add: distrib_right)
    then show ?thesis using False by linarith
  qed
  then have "fl (of_int q) = of_int q" using assms(1) by (intro fl_of_int) simp
  moreover have "of_int (q * b) \<le> (of_int a :: rat)" using r by (simp only: of_int_le_iff)
  then have "of_int q \<le> (of_int a / of_int b :: rat)" using bq by (simp add: pos_le_divide_eq)
  ultimately show "of_int (a div b) \<le> fdiv (of_int a) (of_int b)"
    unfolding fdiv_def q_def[symmetric] by (metis fl_mono)
  have e: "\<bar>fl (of_int a / of_int b) - of_int a / of_int b\<bar> \<le> \<bar>of_int a / of_int b\<bar> / 2 ^ 53 + 1 / 2 ^ 1000" by (rule fl_err)
  have "of_int (a + 1) \<le> (of_int (q * b + b) :: rat)" using r by (simp only: of_int_le_iff)
  then have u: "of_int a / of_int b + 1 / of_int b \<le> (of_int q + 1 :: rat)" using bq by (simp add: field_simps)
  have a1: "\<bar>of_int a :: rat\<bar> + 1 \<le> 2 ^ 53"

  proof -
    have "\<bar>a\<bar> + 1 \<le> 2 ^ 53" using assms(1) by simp
    then have "(of_int (\<bar>a\<bar> + 1) :: rat) \<le> of_int (2 ^ 53)" by (simp only: of_int_le_iff)
    then show ?thesis by simp
  qed
  have "\<bar>of_int a / of_int b\<bar> / 2 ^ 53 + 1 / 2 ^ 1000 < 1 / (of_int b :: rat)"
  proof -
    have b: "(of_int b :: rat) \<le> 2 ^ 53" using assms(3) by (metis of_int_le_iff of_int_numeral of_int_power)
    have "of_int b * ((1::rat) / 2 ^ 1000) \<le> 2 ^ 53 * (1 / 2 ^ 1000)"
      by (rule mult_right_mono[OF b]) simp
    also have "\<dots> < 1 / 2 ^ 53" by simp
    finally have t: "of_int b * ((1::rat) / 2 ^ 1000) < 1 / 2 ^ 53" .
    define Q where "Q = (1 :: rat) / 2 ^ 1000"
    have "\<bar>of_int a :: rat\<bar> / 2 ^ 53 \<le> (2 ^ 53 - 1) / 2 ^ 53" using a1 by (intro divide_right_mono) auto
    also have "\<dots> = 1 - 1 / 2 ^ 53" by (simp add: diff_divide_distrib)
    finally have "\<bar>of_int a :: rat\<bar> / 2 ^ 53 + of_int b * (1 / 2 ^ 1000) < 1" using t by linarith
    then have "of_int b * (\<bar>of_int a / of_int b\<bar> / 2 ^ 53 + Q) < of_int b * (1 / of_int b)"
      using bq unfolding Q_def[symmetric] by (simp add: distrib_left abs_divide)
    then show ?thesis unfolding Q_def[symmetric] using bq by (simp only: mult_less_cancel_left_pos)
  qed
  then have "fl (of_int a / of_int b) < of_int q + 1" using e u by linarith
  then show "fdiv (of_int a) (of_int b) < of_int (a div b) + 1" unfolding fdiv_def q_def .
qed

section \<open>The three scales of the program\<close>

definition round2 :: "double \<Rightarrow> double" where
  "round2 value = fdiv (mathRound (fmul (fadd value EPSILON) 100)) 100"

definition roundQty :: "double \<Rightarrow> double" where
  "roundQty value = fdiv (mathRound (fmul (fadd value EPSILON) 1000)) 1000"

definition roundUnitCost :: "double \<Rightarrow> double" where
  "roundUnitCost value = fdiv (mathRound (fmul (fadd value EPSILON) 10000)) 10000"

lemma round2_eq: "round2 x = roundTo 100 x"
  by (simp add: round2_def roundTo_def)

lemma roundQty_eq: "roundQty x = roundTo 1000 x"
  by (simp add: roundQty_def roundTo_def)

lemma roundUnitCost_eq: "roundUnitCost x = roundTo 10000 x"
  by (simp add: roundUnitCost_def roundTo_def)

interpretation cent: decimal_scale 100
  by unfold_locales simp_all

interpretation qty: decimal_scale 1000
  by unfold_locales simp_all

interpretation ucost: decimal_scale 10000
  by unfold_locales simp_all

abbreviation cents :: "int \<Rightarrow> double" where "cents \<equiv> grid 100"
abbreviation thousandths :: "int \<Rightarrow> double" where "thousandths \<equiv> grid 1000"
abbreviation tenThousandths :: "int \<Rightarrow> double" where "tenThousandths \<equiv> grid 10000"

text \<open>\<open>toNumber\<close>: null and undefined are 0, a number is itself, and a string or a Prisma decimal
  is the double nearest to the decimal it spells.\<close>

datatype numeric = NullValue | NumberValue double | DecimalValue rat

fun toNumber :: "numeric \<Rightarrow> double" where
  "toNumber NullValue = 0"
| "toNumber (NumberValue x) = x"
| "toNumber (DecimalValue q) = fl q"

text \<open>Reading a \<open>Decimal(18, k)\<close> column whose last digit counts \<open>1 / s\<close>.\<close>

definition column :: "int \<Rightarrow> int \<Rightarrow> numeric" where
  "column s n = DecimalValue (of_int n / of_int s)"

lemma toNumber_column [simp]: "toNumber (column s n) = grid s n"
  by (simp add: column_def grid_def)

text \<open>Writing a number to such a column is Prisma's and PostgreSQL's work, a parameter of the
  handlers: \<open>st s x\<close> is the column value stored for the double \<open>x\<close>. The results rest on two facts:
  the conversion is monotone, and a double which is the nearest one to a decimal of that scale is
  stored as that decimal. \<open>nearestColumn\<close> is one such function.\<close>

type_synonym store = "int \<Rightarrow> double \<Rightarrow> int"

definition exact_store :: "store \<Rightarrow> bool" where
  "exact_store st \<longleftrightarrow> (\<forall>s \<in> {100, 1000, 10000}.
     (\<forall>x y. x \<le> y \<longrightarrow> st s x \<le> st s y) \<and> (\<forall>n. \<bar>n\<bar> \<le> 2 ^ 45 \<longrightarrow> st s (grid s n) = n))"

definition nearestColumn :: store where
  "nearestColumn s x = \<lfloor>of_int s * x + 1/2\<rfloor>"

lemma exact_storeD:
  assumes "exact_store st" "\<bar>n\<bar> \<le> 2 ^ 45"
  shows "st 100 (cents n) = n" "st 1000 (thousandths n) = n" "st 10000 (tenThousandths n) = n"
  using assms by (auto simp: exact_store_def)

lemma exact_store_mono: "exact_store st \<Longrightarrow> x \<le> y \<Longrightarrow> st 100 x \<le> st 100 y"
  by (auto simp: exact_store_def)

text \<open>A stored value that is small was that value already.\<close>

lemma exact_store_small:
  assumes st: "exact_store st" and small: "\<bar>st 100 (cents n)\<bar> < 2 ^ 45"
  shows "st 100 (cents n) = n"
proof (rule exact_storeD(1)[OF st], rule ccontr)
  assume "\<not> \<bar>n\<bar> \<le> 2 ^ 45"
  then consider "2 ^ 45 \<le> n" | "n \<le> - (2 ^ 45)" by linarith
  then show False
  proof cases
    case 1
    then have "st 100 (cents (2 ^ 45)) \<le> st 100 (cents n)" by (intro exact_store_mono st cent.grid_mono)
    then show False using small exact_storeD(1)[OF st, of "2 ^ 45"] by simp
  next
    case 2
    then have "st 100 (cents n) \<le> st 100 (cents (- (2 ^ 45)))" by (intro exact_store_mono st cent.grid_mono)
    then show False using small exact_storeD(1)[OF st, of "- (2 ^ 45)"] by simp
  qed
qed

lemma nearestColumn_exact: "exact_store nearestColumn"
  unfolding exact_store_def nearestColumn_def
  using cent.floor_grid[simplified] qty.floor_grid[simplified] ucost.floor_grid[simplified]
  by (auto intro!: floor_mono)

text \<open>\<open>lines.reduce((sum, line) => sum + f(line), 0)\<close>.\<close>

definition reduceSum :: "double list \<Rightarrow> double" where
  "reduceSum xs = foldl fadd 0 xs"

lemma round2_sum:
  assumes "int (length ns) * (1 + (\<Sum>n\<leftarrow>ns. \<bar>n\<bar>)) \<le> 2 ^ 45"
  shows "round2 (reduceSum (map cents ns)) = cents (sum_list ns)"
  unfolding round2_eq reduceSum_def by (rule cent.roundTo_sum[OF assms])

lemma reduceSum_nonneg: assumes "\<And>x. x \<in> set xs \<Longrightarrow> 0 \<le> x" shows "0 \<le> reduceSum xs"
proof -
  have "0 \<le> a \<Longrightarrow> 0 \<le> foldl fadd a xs" for a
    using assms
  proof (induction xs arbitrary: a)
    case (Cons x xs)
    then show ?case using fl_nonneg[of "a + x"] by (auto simp: fadd_def)
  qed simp
  then show ?thesis by (simp add: reduceSum_def)
qed

lemmas round2_cents [simp] = cent.roundTo_idem[folded round2_eq]
lemmas round2_add = cent.roundTo_add[folded round2_eq]
lemmas round2_sub = cent.roundTo_sub[folded round2_eq]
lemmas round2_mono = cent.roundTo_mono[folded round2_eq]
lemmas round2_nonneg = cent.roundTo_nonneg[folded round2_eq]
lemmas round2_grid = cent.roundTo_grid[folded round2_eq]
lemmas round2_of_int = cent.roundTo_of_int[folded round2_eq]
lemmas round2_open = cent.roundTo_open[folded round2_eq]
lemmas round2_near = cent.roundTo_near[folded round2_eq]
lemmas roundQty_near = qty.roundTo_near[folded roundQty_eq]
lemmas roundQty_grid = qty.roundTo_grid[folded roundQty_eq]
lemmas roundQty_idem [simp] = qty.roundTo_idem[folded roundQty_eq]
lemmas roundQty_add = qty.roundTo_add[folded roundQty_eq]
lemmas roundQty_sub = qty.roundTo_sub[folded roundQty_eq]
lemmas roundQty_open = qty.roundTo_open_grid[folded roundQty_eq]
lemmas roundQty_nonneg = qty.roundTo_nonneg[folded roundQty_eq]
lemmas roundQty_mono = qty.roundTo_mono[folded roundQty_eq]
lemmas roundUnitCost_nonneg = ucost.roundTo_nonneg[folded roundUnitCost_eq]
lemmas roundUnitCost_grid = ucost.roundTo_grid[folded roundUnitCost_eq]
lemmas roundUnitCost_idem [simp] = ucost.roundTo_idem[folded roundUnitCost_eq]

section \<open>Properties\<close>

text \<open>Adding up amounts read from a decimal column and rounding the double sum gives the double of
  the exact sum in cents: the rounding errors of the additions never reach half a cent while the
  number of terms times their total stays below \<open>2\<^sup>4\<^sup>5\<close> cents.\<close>

lemma round2_exact_sum:
  assumes "int (length ns) * (1 + (\<Sum>n\<leftarrow>ns. \<bar>n\<bar>)) \<le> 2 ^ 45"
  shows "round2 (reduceSum (map (\<lambda>n. toNumber (column 100 n)) ns)) = toNumber (column 100 (sum_list ns))"
  using round2_sum[OF assms] by simp

lemma round2_exact_sum_example:
  "round2 (reduceSum [toNumber (column 100 10), toNumber (column 100 20)]) = toNumber (column 100 30)"
  using round2_exact_sum[of "[10, 20]"] by simp

text \<open>\<open>round2\<close> is monotone, leaves alone every amount with two decimals below \<open>2\<^sup>4\<^sup>5\<close> cents,
  and gives the exact result of adding or subtracting two of them.\<close>

lemma round2_cents_arith:
  assumes "\<bar>m\<bar> \<le> 2 ^ 44" "\<bar>n\<bar> \<le> 2 ^ 44"
  shows "round2 (cents n) = cents n \<and> round2 (fadd (cents m) (cents n)) = cents (m + n) \<and>
    round2 (fsub (cents m) (cents n)) = cents (m - n) \<and> (x \<le> y \<longrightarrow> round2 x \<le> round2 y)"
  using assms by (simp add: round2_add round2_sub round2_mono)

lemma round2_cents_arith_example: "round2 (fadd (cents 10) (cents 20)) = cents 30"
  using round2_cents_arith[of 10 20] by simp

end
