(* ===== verification/Text.thy ===== *)
theory Text
  imports Prelude
begin

text \<open>
  The string operations of JavaScript that the components use, on lists of characters (code units
  below 256; the letter operations cover the ASCII letters): decimal digits, \<open>padStart\<close>,
  \<open>String(n)\<close>, \<open>Number.parseInt\<close> on digits, \<open>trim\<close>, \<open>toUpperCase\<close>, \<open>split\<close> on one character,
  and the code-unit order of strings. The lemmas are the round trip of numbers through digits and
  the shape of what \<open>split\<close> and \<open>padStart\<close> return.
\<close>

definition code :: "char \<Rightarrow> nat" where
  "code c = of_char c"

definition isDigit :: "char \<Rightarrow> bool" where
  "isDigit c \<longleftrightarrow> 48 \<le> code c \<and> code c \<le> 57"

definition isUpper :: "char \<Rightarrow> bool" where
  "isUpper c \<longleftrightarrow> 65 \<le> code c \<and> code c \<le> 90"

definition isLower :: "char \<Rightarrow> bool" where
  "isLower c \<longleftrightarrow> 97 \<le> code c \<and> code c \<le> 122"

text \<open>White space as \<open>trim\<close> and \<open>\s\<close> see it: TAB, LF, VT, FF, CR, SP and NBSP.\<close>

definition isSpace :: "char \<Rightarrow> bool" where
  "isSpace c \<longleftrightarrow> code c \<in> {9, 10, 11, 12, 13, 32, 160}"

definition toUpperChar :: "char \<Rightarrow> char" where
  "toUpperChar c = (if isLower c then char_of (code c - 32) else c)"

definition toLowerChar :: "char \<Rightarrow> char" where
  "toLowerChar c = (if isUpper c then char_of (code c + 32) else c)"

definition toUpperCase :: "string \<Rightarrow> string" where
  "toUpperCase s = map toUpperChar s"

definition toLowerCase :: "string \<Rightarrow> string" where
  "toLowerCase s = map toLowerChar s"

definition trimStart :: "string \<Rightarrow> string" where
  "trimStart s = dropWhile isSpace s"

definition trimEnd :: "string \<Rightarrow> string" where
  "trimEnd s = rev (dropWhile isSpace (rev s))"

definition trim :: "string \<Rightarrow> string" where
  "trim s = trimEnd (trimStart s)"

definition startsWith :: "string \<Rightarrow> string \<Rightarrow> bool" where
  "startsWith s p \<longleftrightarrow> take (length p) s = p"

definition endsWith :: "string \<Rightarrow> string \<Rightarrow> bool" where
  "endsWith s p \<longleftrightarrow> length p \<le> length s \<and> drop (length s - length p) s = p"

definition padStart :: "nat \<Rightarrow> char \<Rightarrow> string \<Rightarrow> string" where
  "padStart n c s = replicate (n - length s) c @ s"

fun split :: "char \<Rightarrow> string \<Rightarrow> string list" where
  "split d [] = [[]]"
| "split d (c # s) = (if c = d then [] # split d s
     else case split d s of [] \<Rightarrow> [[c]] | w # ws \<Rightarrow> (c # w) # ws)"

fun join :: "string \<Rightarrow> string list \<Rightarrow> string" where
  "join sep [] = []"
| "join sep [w] = w"
| "join sep (w # v # ws) = w @ sep @ join sep (v # ws)"

text \<open>The order of strings by code units.\<close>

fun stringLess :: "string \<Rightarrow> string \<Rightarrow> bool" where
  "stringLess s [] = False"
| "stringLess [] (c # t) = True"
| "stringLess (b # s) (c # t) = (code b < code c \<or> code b = code c \<and> stringLess s t)"

section \<open>Numbers as digits\<close>

definition digitChar :: "nat \<Rightarrow> char" where
  "digitChar d = char_of (48 + d)"

definition digitVal :: "char \<Rightarrow> nat" where
  "digitVal c = code c - 48"

fun showNat :: "nat \<Rightarrow> string" where
  "showNat n = (if n < 10 then [digitChar n] else showNat (n div 10) @ [digitChar (n mod 10)])"

declare showNat.simps [simp del]

definition showInt :: "int \<Rightarrow> string" where
  "showInt i = (if i < 0 then CHR ''-'' # showNat (nat (- i)) else showNat (nat i))"

definition readNat :: "string \<Rightarrow> nat" where
  "readNat s = foldl (\<lambda>a c. 10 * a + digitVal c) 0 s"

lemma code_digitChar [simp]: "d < 10 \<Longrightarrow> code (digitChar d) = 48 + d"
  by (simp add: code_def digitChar_def)

lemma isDigit_digitChar [simp]: "d < 10 \<Longrightarrow> isDigit (digitChar d)"
  by (simp add: isDigit_def)

lemma digitVal_digitChar [simp]: "d < 10 \<Longrightarrow> digitVal (digitChar d) = d"
  by (simp add: digitVal_def)

lemma digitChar_digitVal: "isDigit c \<Longrightarrow> digitChar (digitVal c) = c"
  by (simp add: digitChar_def digitVal_def isDigit_def code_def)

lemma digitVal_less: "isDigit c \<Longrightarrow> digitVal c < 10"
  unfolding digitVal_def isDigit_def by linarith

lemma code_inj [simp]: "code b = code c \<longleftrightarrow> b = c"
  by (simp add: code_def)

lemma readNat_Nil [simp]: "readNat [] = 0"
  by (simp add: readNat_def)

lemma readNat_snoc [simp]: "readNat (s @ [c]) = 10 * readNat s + digitVal c"
  by (simp add: readNat_def)

lemma readNat_append: "readNat (s @ t) = readNat s * 10 ^ length t + readNat t"
  by (induction t rule: rev_induct) (simp_all add: algebra_simps flip: append_assoc)

lemma readNat_showNat [simp]: "readNat (showNat n) = n"
proof (induction n rule: showNat.induct)
  case (1 n)
  show ?case
  proof (cases "n < 10")
    case True
    then show ?thesis using readNat_snoc[of "[]"] by (simp add: showNat.simps[of n])
  next
    case False
    with 1 show ?thesis by (simp add: showNat.simps[of n])
  qed
qed

lemma showNat_digits: "\<forall>c \<in> set (showNat n). isDigit c"
proof (induction n rule: showNat.induct)
  case (1 n)
  then show ?case by (cases "n < 10") (auto simp: showNat.simps[of n])
qed

lemma showNat_nonempty [simp]: "showNat n \<noteq> []"
  by (simp add: showNat.simps[of n])

lemma readNat_zeros: "set z \<subseteq> {CHR ''0''} \<Longrightarrow> readNat (z @ s) = readNat s"
proof -
  assume z: "set z \<subseteq> {CHR ''0''}"
  have "readNat z = 0" using z by (induction z rule: rev_induct) (simp_all add: digitVal_def code_def)
  then show ?thesis by (simp add: readNat_append)
qed

lemma readNat_padStart [simp]: "readNat (padStart k (CHR ''0'') s) = readNat s"
  unfolding padStart_def by (rule readNat_zeros) auto

lemma length_showNat: "0 < k \<Longrightarrow> length (showNat n) \<le> k \<longleftrightarrow> n < 10 ^ k"
proof (induction k arbitrary: n)
  case (Suc k)
  show ?case
  proof (cases "n < 10")
    case True
    have "(10::nat) \<le> 10 * 10 ^ k" by simp
    with True have "n < 10 * 10 ^ k" by linarith
    with True show ?thesis by (simp add: showNat.simps[of n])
  next
    case False
    then show ?thesis
    proof (cases "k = 0")
      case F: False
      have "n div 10 < 10 ^ k \<longleftrightarrow> n < 10 * 10 ^ k" by (simp add: div_less_iff_less_mult mult.commute)
      then show ?thesis using False F Suc.IH[of "n div 10"] by (simp add: showNat.simps[of n])
    qed (simp add: showNat.simps[of n])
  qed
qed simp

lemma length_showNat_padded: "0 < k \<Longrightarrow> n < 10 ^ k \<Longrightarrow> length (padStart k (CHR ''0'') (showNat n)) = k"
  using length_showNat[of k n] by (simp add: padStart_def)

lemma readNat_bound: "\<forall>c \<in> set s. isDigit c \<Longrightarrow> readNat s < 10 ^ length s"
proof (induction s rule: rev_induct)
  case (snoc c s)
  then have "readNat s < 10 ^ length s" "digitVal c < 10" by (auto intro: digitVal_less)
  then have "10 * readNat s + digitVal c < 10 * 10 ^ length s" by linarith
  then show ?case by simp
qed simp

text \<open>Digit strings of one length are ordered as their numbers.\<close>

lemma readNat_Cons: "readNat (c # s) = digitVal c * 10 ^ length s + readNat s"
  using readNat_append[of "[c]" s] readNat_snoc[of "[]" c] by simp

lemma stringLess_digits:
  assumes "length s = length t" "\<forall>c \<in> set s. isDigit c" "\<forall>c \<in> set t. isDigit c"
  shows "stringLess s t \<longleftrightarrow> readNat s < readNat t"
  using assms
proof (induction s t rule: list_induct2)
  case (Cons x xs y ys)
  let ?p = "10 ^ length ys :: nat"
  have b: "readNat xs < ?p" "readNat ys < ?p" using Cons readNat_bound[of xs] readNat_bound[of ys] by auto
  have v: "code x = digitVal x + 48" "code y = digitVal y + 48" using Cons.prems by (auto simp: digitVal_def isDigit_def)
  consider "digitVal x < digitVal y" | "digitVal x = digitVal y" | "digitVal y < digitVal x" by linarith
  then show ?case
  proof cases
    case 1
    then have "(digitVal x + 1) * ?p \<le> digitVal y * ?p" by (intro mult_right_mono) auto
    then have "readNat (x # xs) < readNat (y # ys)" using b Cons.hyps by (simp add: readNat_Cons)
    then show ?thesis using 1 v by (simp add: readNat_Cons)
  next
    case 2
    then show ?thesis using v Cons by (simp add: readNat_Cons)
  next
    case 3
    then have "(digitVal y + 1) * ?p \<le> digitVal x * ?p" by (intro mult_right_mono) auto
    then have "readNat (y # ys) < readNat (x # xs)" using b Cons.hyps by (simp add: readNat_Cons)
    then show ?thesis using 3 v by (simp add: readNat_Cons)
  qed
qed simp

lemma stringLess_prefix [simp]: "stringLess (p @ s) (p @ t) \<longleftrightarrow> stringLess s t"
  by (induction p) auto

lemma startsWith_append [simp]: "startsWith (p @ s) p"
  by (simp add: startsWith_def)

lemma startsWithE: "startsWith s p \<Longrightarrow> \<exists>t. s = p @ t"
  unfolding startsWith_def by (metis append_take_drop_id)

section \<open>Splitting\<close>

lemma split_nonempty [simp]: "split d s \<noteq> []"
  by (induction s) (auto split: list.splits)

lemma split_no_sep: "d \<notin> set s \<Longrightarrow> split d s = [s]"
  by (induction s) auto

lemma split_append: "d \<notin> set s \<Longrightarrow> split d (s @ d # t) = s # split d t"
  by (induction s) auto

lemma join_split: "join [d] (split d s) = s"
proof (induction s)
  case (Cons c s)
  then show ?case by (cases "split d s"; cases "tl (split d s)") auto
qed simp

end
