(* ===== verification/Dates.thy ===== *)
theory Dates
  imports Text
begin

text \<open>
  Dates. A JavaScript \<open>Date\<close> is its time value, the milliseconds since the epoch (an \<open>int\<close>); the
  calendar functions are those of ECMA-262 (21.4.1): \<open>DayFromYear\<close>, \<open>YearFromTime\<close>, \<open>MonthFromTime\<close>,
  \<open>DateFromTime\<close> and \<open>MakeDay\<close>. On top of them: \<open>currentPeriod\<close> of utils/accounting.ts and
  \<open>parsePeriod\<close>, \<open>periodToDateRange\<close>, \<open>monthDiffUTC\<close> of utils/period.ts. The lemmas show that the
  calendar functions invert \<open>MakeDay\<close>, that a period string round-trips, and that the range of a
  period holds exactly the instants whose \<open>currentPeriod\<close> it is.
\<close>

section \<open>The calendar of ECMA-262\<close>

type_synonym date = int

definition msPerDay :: int where "msPerDay = 86400000"

definition Day :: "date \<Rightarrow> int" where "Day t = t div msPerDay"

definition DayFromYear :: "int \<Rightarrow> int" where
  "DayFromYear y = 365 * (y - 1970) + (y - 1969) div 4 - (y - 1901) div 100 + (y - 1601) div 400"

definition isLeap :: "int \<Rightarrow> bool" where
  "isLeap y \<longleftrightarrow> 4 dvd y \<and> (\<not> 100 dvd y \<or> 400 dvd y)"

definition leapDay :: "int \<Rightarrow> int" where "leapDay y = (if isLeap y then 1 else 0)"

text \<open>The largest year that starts on or before the day: an estimate from the mean Gregorian year,
  corrected by at most one.\<close>

definition YearOfDay :: "int \<Rightarrow> int" where
  "YearOfDay d =
     (let g = 1970 + (400 * d) div 146097 in
      if d < DayFromYear g then g - 1 else if DayFromYear (g + 1) \<le> d then g + 1 else g)"

text \<open>The day within the year on which the month with index \<open>m\<close> (from 0) starts.\<close>

definition monthStart :: "int \<Rightarrow> int \<Rightarrow> int" where
  "monthStart leap m =
     (if m < 1 then 0 else if m < 2 then 31 else
      leap + (if m < 3 then 59 else if m < 4 then 90 else if m < 5 then 120 else if m < 6 then 151
        else if m < 7 then 181 else if m < 8 then 212 else if m < 9 then 243 else if m < 10 then 273
        else if m < 11 then 304 else if m < 12 then 334 else 365))"

definition MonthOfYearDay :: "int \<Rightarrow> int \<Rightarrow> int" where
  "MonthOfYearDay leap d =
     (if d < 31 then 0 else if d < 59 + leap then 1 else if d < 90 + leap then 2
      else if d < 120 + leap then 3 else if d < 151 + leap then 4 else if d < 181 + leap then 5
      else if d < 212 + leap then 6 else if d < 243 + leap then 7 else if d < 273 + leap then 8
      else if d < 304 + leap then 9 else if d < 334 + leap then 10 else 11)"

definition getUTCFullYear :: "date \<Rightarrow> int" where
  "getUTCFullYear t = YearOfDay (Day t)"

definition getUTCMonth :: "date \<Rightarrow> int" where
  "getUTCMonth t = (let y = getUTCFullYear t in MonthOfYearDay (leapDay y) (Day t - DayFromYear y))"

definition getUTCDate :: "date \<Rightarrow> int" where
  "getUTCDate t = (let y = getUTCFullYear t in
     Day t - DayFromYear y - monthStart (leapDay y) (getUTCMonth t) + 1)"

definition MakeDay :: "int \<Rightarrow> int \<Rightarrow> int \<Rightarrow> int" where
  "MakeDay year month dt = (let ym = year + month div 12; mn = month mod 12 in
     DayFromYear ym + monthStart (leapDay ym) mn + dt - 1)"

text \<open>\<open>Date.UTC\<close>: a year from 0 to 99 means 1900 + year.\<close>

definition MakeFullYear :: "int \<Rightarrow> int" where
  "MakeFullYear y = (if 0 \<le> y \<and> y \<le> 99 then 1900 + y else y)"

definition DateUTC :: "int \<Rightarrow> int \<Rightarrow> int \<Rightarrow> int \<Rightarrow> date" where
  "DateUTC year month dt msInDay = MakeDay (MakeFullYear year) month dt * msPerDay + msInDay"

section \<open>Correctness of the calendar\<close>

lemma div_bounds: "0 < (k::int) \<Longrightarrow> k * (x div k) \<le> x" "0 < (k::int) \<Longrightarrow> x < k * (x div k) + k"
proof -
  assume k: "0 < k"
  show "k * (x div k) \<le> x" "x < k * (x div k) + k"
    using pos_mod_sign[OF k, of x] pos_mod_bound[OF k, of x] mult_div_mod_eq[of k x] by linarith+
qed

lemma dvd_diff_mult: "k dvd c \<Longrightarrow> k dvd x - c \<longleftrightarrow> k dvd (x::int)"
  by (metis diff_add_cancel dvd_add_left_iff)

lemma div_next: assumes "0 < (k::int)" shows "(x + 1) div k = x div k + (if k dvd x + 1 then 1 else 0)"
proof (cases "k dvd x + 1")
  case True
  then obtain m where m: "x = k * m - 1" by (auto simp: dvd_def algebra_simps)
  have "x div k = m - 1" using assms by (intro int_div_pos_eq[where r = "k - 1"]) (simp_all add: m algebra_simps)
  then show ?thesis using True assms by (simp add: m)
next
  case False
  have r: "0 \<le> x mod k" "x mod k < k" using assms by simp_all
  moreover have "x mod k \<noteq> k - 1"
    using False by (smt (verit) dvd_diff_left_iff dvd_minus_mod dvd_refl)
  ultimately have "(x + 1) div k = x div k"
    by (intro int_div_pos_eq[where r = "x mod k + 1"]) (simp_all add: algebra_simps)
  then show ?thesis using False by simp
qed

lemma DayFromYear_Suc: "DayFromYear (y + 1) = DayFromYear y + 365 + leapDay y"
proof -
  have "4 dvd y - 1968 \<longleftrightarrow> 4 dvd y" "100 dvd y - 1900 \<longleftrightarrow> 100 dvd y" "400 dvd y - 1600 \<longleftrightarrow> 400 dvd y"
    by (rule dvd_diff_mult, simp)+
  then have d: "(y - 1968) div 4 = (y - 1969) div 4 + (if 4 dvd y then 1 else 0)"
    "(y - 1900) div 100 = (y - 1901) div 100 + (if 100 dvd y then 1 else 0)"
    "(y - 1600) div 400 = (y - 1601) div 400 + (if 400 dvd y then 1 else 0)"
    using div_next[of 4 "y - 1969"] div_next[of 100 "y - 1901"] div_next[of 400 "y - 1601"] by simp_all
  have "400 dvd y \<Longrightarrow> 100 dvd y" "100 dvd y \<Longrightarrow> 4 dvd y"
    by (auto intro: dvd_trans[of 100 400] dvd_trans[of 4 100])
  then have l: "leapDay y = (if 4 dvd y then 1 else 0) - (if 100 dvd y then 1 else 0) + (if 400 dvd y then 1 else 0)"
    unfolding leapDay_def isLeap_def
    by (cases "4 dvd y"; cases "100 dvd y"; cases "400 dvd y") simp_all
  have e: "y + 1 - 1969 = y - 1968" "y + 1 - 1901 = y - 1900" "y + 1 - 1601 = y - 1600" "y + 1 - 1970 = (y - 1970) + 1"
    by simp_all
  show ?thesis unfolding DayFromYear_def e d l distrib_left by (simp only: mult_1_right ac_simps add_diff_eq diff_add_eq)
qed

lemma DayFromYear_bounds:
  "146097 * (y - 1970) - 506 \<le> 400 * DayFromYear y" "400 * DayFromYear y \<le> 146097 * (y - 1970) + 589"
proof -
  define a b c where "a = (y - 1969) div 4" and "b = (y - 1901) div 100" and "c = (y - 1601) div 400"
  have "4 * a \<le> y - 1969" "y - 1969 < 4 * a + 4" "100 * b \<le> y - 1901" "y - 1901 < 100 * b + 100"
    "400 * c \<le> y - 1601" "y - 1601 < 400 * c + 400"
    unfolding a_def b_def c_def by (rule div_bounds, simp)+
  then show "146097 * (y - 1970) - 506 \<le> 400 * DayFromYear y" "400 * DayFromYear y \<le> 146097 * (y - 1970) + 589"
    unfolding DayFromYear_def a_def[symmetric] b_def[symmetric] c_def[symmetric]
    by (simp_all add: algebra_simps)
qed

lemma leapDay_range: "0 \<le> leapDay y" "leapDay y \<le> 1"
  by (simp_all add: leapDay_def)

lemma DayFromYear_mono: "y \<le> z \<Longrightarrow> DayFromYear y \<le> DayFromYear z"
proof (induction z rule: int_ge_induct)
  case (step z)
  then show ?case using DayFromYear_Suc[of z] leapDay_range(1)[of z] by linarith
qed simp

lemma YearOfDay_bounds: "DayFromYear (YearOfDay d) \<le> d" "d < DayFromYear (YearOfDay d + 1)"
proof -
  define g where "g = 1970 + (400 * d) div 146097"
  have b: "146097 * (g - 1970) \<le> 400 * d" "400 * d < 146097 * (g - 1970) + 146097"
    using div_bounds[of 146097 "400 * d"] unfolding g_def by simp_all
  have "DayFromYear (g - 1) \<le> d" "d < DayFromYear (g + 2)"
    using b DayFromYear_bounds[of "g - 1"] DayFromYear_bounds[of "g + 2"] by (simp_all add: algebra_simps)
  then show "DayFromYear (YearOfDay d) \<le> d" "d < DayFromYear (YearOfDay d + 1)"
    unfolding YearOfDay_def Let_def g_def[symmetric] by (auto simp: add.assoc)
qed

lemma YearOfDay_unique: assumes "DayFromYear y \<le> d" "d < DayFromYear (y + 1)" shows "YearOfDay d = y"
proof (rule ccontr)
  assume "YearOfDay d \<noteq> y"
  then consider "YearOfDay d + 1 \<le> y" | "y + 1 \<le> YearOfDay d" by linarith
  then show False using assms YearOfDay_bounds[of d] DayFromYear_mono by cases fastforce+
qed

lemma monthStart_bounds:
  assumes "0 \<le> d" "d < 365 + l" "0 \<le> l" "l \<le> 1"
  shows "monthStart l (MonthOfYearDay l d) \<le> d" "d < monthStart l (MonthOfYearDay l d + 1)"
    "0 \<le> MonthOfYearDay l d" "MonthOfYearDay l d \<le> 11"
  using assms by (simp_all add: MonthOfYearDay_def monthStart_def)

lemma monthStart_mono: "m \<le> n \<Longrightarrow> 0 \<le> l \<Longrightarrow> monthStart l m \<le> monthStart l n"
  by (simp add: monthStart_def)

lemma MonthOfYearDay_unique:
  assumes "monthStart l m \<le> d" "d < monthStart l (m + 1)" "0 \<le> m" "m \<le> 11" "0 \<le> l" "l \<le> 1"
  shows "MonthOfYearDay l d = m"
proof -
  have d: "0 \<le> d" "d < 365 + l"
    using assms monthStart_mono[of 0 m l] monthStart_mono[of "m + 1" 12 l] by (auto simp: monthStart_def)
  show ?thesis
  proof (rule ccontr)
    assume "MonthOfYearDay l d \<noteq> m"
    then consider "MonthOfYearDay l d + 1 \<le> m" | "m + 1 \<le> MonthOfYearDay l d" by linarith
    then show False
      using assms monthStart_bounds[OF d assms(5,6)] monthStart_mono[OF _ assms(5)] by cases fastforce+
  qed
qed

text \<open>The days of a month, and the instants of a day, belong to it.\<close>

definition daysInMonth :: "int \<Rightarrow> int \<Rightarrow> int" where
  "daysInMonth y m = monthStart (leapDay y) (m + 1) - monthStart (leapDay y) m"

lemma day_of_month:
  assumes "0 \<le> m" "m \<le> 11"
    and "DayFromYear y + monthStart (leapDay y) m \<le> Day t"
    and "Day t < DayFromYear y + monthStart (leapDay y) (m + 1)"
  shows "getUTCFullYear t = y" "getUTCMonth t = m"
proof -
  have l: "0 \<le> leapDay y" "leapDay y \<le> 1" by (rule leapDay_range)+
  have "0 \<le> monthStart (leapDay y) m" "monthStart (leapDay y) (m + 1) \<le> 365 + leapDay y"
    using assms(1,2) l by (auto simp: monthStart_def)
  then show y: "getUTCFullYear t = y"
    unfolding getUTCFullYear_def using assms DayFromYear_Suc[of y] by (intro YearOfDay_unique) linarith+
  show "getUTCMonth t = m"
    unfolding getUTCMonth_def Let_def y using assms l by (intro MonthOfYearDay_unique) auto
qed

lemma day_in_month:
  fixes t :: date
  defines "y \<equiv> getUTCFullYear t" and "m \<equiv> getUTCMonth t"
  shows "DayFromYear y + monthStart (leapDay y) m \<le> Day t"
    "Day t < DayFromYear y + monthStart (leapDay y) (m + 1)" "0 \<le> m" "m \<le> 11"
proof -
  have "0 \<le> Day t - DayFromYear y" "Day t - DayFromYear y < 365 + leapDay y"
    using YearOfDay_bounds[of "Day t"] DayFromYear_Suc[of y] by (simp_all add: y_def getUTCFullYear_def)
  from monthStart_bounds[OF this leapDay_range]
  show "DayFromYear y + monthStart (leapDay y) m \<le> Day t"
    "Day t < DayFromYear y + monthStart (leapDay y) (m + 1)" "0 \<le> m" "m \<le> 11"
    by (simp_all add: m_def getUTCMonth_def y_def Let_def)
qed

section \<open>Accounting periods\<close>

text \<open>\<open>currentPeriod\<close> of utils/accounting.ts: \<open>YYYY-MM\<close> of the UTC date.\<close>

definition pad2 :: "int \<Rightarrow> string" where
  "pad2 n = padStart 2 (CHR ''0'') (showInt n)"

definition currentPeriod :: "date \<Rightarrow> string" where
  "currentPeriod t = showInt (getUTCFullYear t) @ ''-'' @ pad2 (getUTCMonth t + 1)"

text \<open>\<open>parsePeriod\<close> of utils/period.ts: the pattern \<open>^(\d{4})-(\d{2})$\<close> and a month from 1 to 12.\<close>

definition matchPeriod :: "string \<Rightarrow> (string \<times> string) option" where
  "matchPeriod p =
     (if length p = 7 \<and> p ! 4 = CHR ''-'' \<and> list_all isDigit (take 4 p) \<and> list_all isDigit (drop 5 p)
      then Some (take 4 p, drop 5 p) else None)"

definition parsePeriod :: "string \<Rightarrow> http_error + (int \<times> int)" where
  "parsePeriod p =
     (case matchPeriod p of
        None \<Rightarrow> Inl (badRequest ''Perioada trebuie sa fie in format YYYY-MM.'')
      | Some (ys, ms) \<Rightarrow>
          (let year = int (readNat ys); month = int (readNat ms) in
           if month < 1 \<or> 12 < month then Inl (badRequest ''Luna din perioada este invalida.'')
           else Inr (year, month)))"

definition periodToDateRange :: "string \<Rightarrow> http_error + (date \<times> date)" where
  "periodToDateRange p =
     bindR (parsePeriod p) (\<lambda>(year, month).
       Inr (DateUTC year (month - 1) 1 0, DateUTC year month 0 (msPerDay - 1)))"

definition monthDiffUTC :: "date \<Rightarrow> date \<Rightarrow> int" where
  "monthDiffUTC start endT =
     (getUTCFullYear endT - getUTCFullYear start) * 12 + (getUTCMonth endT - getUTCMonth start)"

lemma showInt_of_nat: "0 \<le> i \<Longrightarrow> showInt i = showNat (nat i)"
  by (simp add: showInt_def)

lemma pad2_props:
  assumes "0 \<le> m" "m \<le> 99"
  shows "length (pad2 m) = 2" "list_all isDigit (pad2 m)" "readNat (pad2 m) = nat m"
proof -
  show "length (pad2 m) = 2"
    using assms length_showNat_padded[of 2 "nat m"] by (simp add: pad2_def showInt_of_nat)
  show "list_all isDigit (pad2 m)"
    using assms showNat_digits[of "nat m"]
    by (auto simp: pad2_def showInt_of_nat padStart_def list_all_iff isDigit_def code_def)
  show "readNat (pad2 m) = nat m" using assms by (simp add: pad2_def showInt_of_nat)
qed

lemma length_showNat_eq: "0 < k \<Longrightarrow> length (showNat n) = Suc k \<longleftrightarrow> 10 ^ k \<le> n \<and> n < 10 ^ Suc k"
  using length_showNat[of k n] length_showNat[of "Suc k" n] by (auto simp: not_less le_Suc_eq)

text \<open>A four-digit year and a month index make a period that parses back.\<close>

lemma parsePeriod_format:
  assumes "1000 \<le> y" "y \<le> 9999" "1 \<le> m" "m \<le> 12"
  shows "parsePeriod (showInt y @ ''-'' @ pad2 m) = Inr (y, m)"
proof -
  have len: "length (showInt y) = 4"
    using assms length_showNat_eq[of 3 "nat y"] by (simp add: showInt_of_nat le_nat_iff nat_less_iff)
  have d: "list_all isDigit (showInt y)"
    using assms showNat_digits[of "nat y"] by (simp add: showInt_of_nat list_all_iff)
  have "matchPeriod (showInt y @ ''-'' @ pad2 m) = Some (showInt y, pad2 m)"
    using len d pad2_props[of m] assms by (simp add: matchPeriod_def nth_append)
  then show ?thesis
    using assms pad2_props(3)[of m] by (simp add: parsePeriod_def Let_def) (simp add: showInt_of_nat)
qed

lemma getUTCMonth_range: "0 \<le> getUTCMonth t" "getUTCMonth t \<le> 11"
  by (rule day_in_month)+

lemma parse_currentPeriod:
  assumes "1000 \<le> getUTCFullYear t" "getUTCFullYear t \<le> 9999"
  shows "parsePeriod (currentPeriod t) = Inr (getUTCFullYear t, getUTCMonth t + 1)"
  unfolding currentPeriod_def using assms getUTCMonth_range[of t] by (intro parsePeriod_format) auto

lemma parsePeriod_InrD:
  assumes "parsePeriod p = Inr (y, m)" shows "0 \<le> y \<and> y \<le> 9999 \<and> 1 \<le> m \<and> m \<le> 12"
proof -
  obtain ys ms where m: "matchPeriod p = Some (ys, ms)" "y = int (readNat ys)" "1 \<le> m" "m \<le> 12"
    using assms by (auto simp: parsePeriod_def Let_def split: option.splits if_splits)
  then have "length ys = 4" "\<forall>c \<in> set ys. isDigit c"
    by (auto simp: matchPeriod_def list_all_iff split: if_splits)
  then show ?thesis using m readNat_bound[of ys] by simp
qed

text \<open>The two ends of the range, as days: the first day of the month and the last instant of the
  day before the next month. \<open>Date.UTC(year, 12, 0)\<close> rolls over to the next year.\<close>

lemma MakeDay_month:
  assumes "0 \<le> m" "m \<le> 12"
  shows "MakeDay y m d = DayFromYear y + monthStart (leapDay y) m + d - 1"
proof (cases "m = 12")
  case True
  then show ?thesis using DayFromYear_Suc[of y] by (simp add: MakeDay_def Let_def monthStart_def)
next
  case False
  then have "m div 12 = 0" "m mod 12 = m" using assms by simp_all
  then show ?thesis by (simp add: MakeDay_def)
qed

lemma MakeDay_of_date: "MakeDay (getUTCFullYear t) (getUTCMonth t) (getUTCDate t) = Day t"
  using day_in_month(3,4)[of t] MakeDay_month[of "getUTCMonth t" "getUTCFullYear t" "getUTCDate t"]
  by (simp add: getUTCDate_def Let_def)

lemma getUTCDate_range: "1 \<le> getUTCDate t" "getUTCDate t \<le> 31"
proof -
  have "monthStart l (m + 1) - monthStart l m \<le> 31" if "0 \<le> m" "m \<le> 11" "0 \<le> l" "l \<le> 1" for l m
    using that by (simp add: monthStart_def)
  from this[OF day_in_month(3,4)[of t] leapDay_range, of "getUTCFullYear t"]
  show "1 \<le> getUTCDate t" "getUTCDate t \<le> 31"
    using day_in_month(1,2)[of t] unfolding getUTCDate_def Let_def by linarith+
qed

lemma between_days: "a * msPerDay \<le> t \<and> t \<le> b * msPerDay + (msPerDay - 1) \<longleftrightarrow> a \<le> Day t \<and> Day t \<le> b"
proof -
  have "86400000 * Day t \<le> t" "t < 86400000 * Day t + 86400000"
    using div_bounds[of 86400000 t] by (simp_all add: Day_def msPerDay_def)
  then show ?thesis unfolding msPerDay_def by (smt (verit))
qed

text \<open>The range of a period holds exactly the instants of that month (for the years the two-digit
  rule of \<open>Date.UTC\<close> leaves alone).\<close>

lemma periodToDateRange_iff:
  assumes p: "parsePeriod p = Inr (y, m)" and y: "100 \<le> y" and r: "periodToDateRange p = Inr (start, endT)"
  shows "start \<le> t \<and> t \<le> endT \<longleftrightarrow> getUTCFullYear t = y \<and> getUTCMonth t + 1 = m"
proof -
  have m: "1 \<le> m" "m \<le> 12" using parsePeriod_InrD[OF p] by auto
  have se: "start = (DayFromYear y + monthStart (leapDay y) (m - 1)) * msPerDay"
    "endT = (DayFromYear y + monthStart (leapDay y) m - 1) * msPerDay + (msPerDay - 1)"
    using r y m by (auto simp: periodToDateRange_def p DateUTC_def MakeFullYear_def MakeDay_month)
  have "start \<le> t \<and> t \<le> endT \<longleftrightarrow>
      DayFromYear y + monthStart (leapDay y) (m - 1) \<le> Day t \<and> Day t < DayFromYear y + monthStart (leapDay y) m"
    unfolding se between_days by auto
  also have "\<dots> \<longleftrightarrow> getUTCFullYear t = y \<and> getUTCMonth t + 1 = m"
    using day_of_month[of "m - 1" y t] day_in_month[of t] m by auto
  finally show ?thesis .
qed

section \<open>Properties\<close>

text \<open>The date range of a period holds exactly the instants of its month, from the first
  millisecond to the last, leap years and December included.\<close>

lemma period_range:
  assumes "parsePeriod p = Inr (y, m)" "100 \<le> y" "periodToDateRange p = Inr (start, endT)"
  shows "start \<le> t \<and> t \<le> endT \<longleftrightarrow> getUTCFullYear t = y \<and> getUTCMonth t + 1 = m"
  by (rule periodToDateRange_iff[OF assms])

lemma period_range_example:
  "getUTCFullYear 1709251199999 = 2024 \<and> getUTCMonth 1709251199999 + 1 = 2"
  by (rule period_range[of "''2024-02''" _ _ 1706745600000 1709251199999, THEN iffD1]) code_simp+

text \<open>The period of a date (with a four-digit year) parses back to the date's year and month, and
  the date lies in the range of its period.\<close>

lemma period_of_date:
  assumes "1000 \<le> getUTCFullYear t" "getUTCFullYear t \<le> 9999"
  shows "parsePeriod (currentPeriod t) = Inr (getUTCFullYear t, getUTCMonth t + 1) \<and>
    (\<exists>start endT. periodToDateRange (currentPeriod t) = Inr (start, endT) \<and> start \<le> t \<and> t \<le> endT)"
proof -
  note p = parse_currentPeriod[OF assms]
  obtain start endT where r: "periodToDateRange (currentPeriod t) = Inr (start, endT)"
    using p by (auto simp: periodToDateRange_def)
  have "100 \<le> getUTCFullYear t" using assms by simp
  from periodToDateRange_iff[OF p this r, of t] p r show ?thesis by auto
qed

lemma period_of_date_example: "parsePeriod (currentPeriod 1709164800000) = Inr (2024, 2)"
proof -
  have d: "getUTCFullYear 1709164800000 = 2024" "getUTCMonth 1709164800000 = 1" by code_simp+
  from period_of_date[of 1709164800000] show ?thesis by (simp add: d)
qed

end
