(* ===== verification/Access.thy ===== *)
theory Access
  imports Text
begin

text \<open>
  Who may do what: the roles and permissions of lib/rbac.ts, the company a request acts for
  (lib/company-access.ts, middleware/company.ts), the MFA rule of lib/mfa.ts and the middlewares of
  middleware/auth.ts in the order app.ts installs them. The lemmas show that the middleware chain
  lets a request through only with a valid session, a membership of an active company, the
  permissions of the role in that company, a changed password and, for the privileged roles, MFA.
\<close>

section \<open>Roles and permissions\<close>

datatype Role = ADMIN | CHIEF_ACCOUNTANT | ACCOUNTANT | CASHIER | MANAGER | AUDITOR

datatype Permission =
    ACCOUNTS_READ | ACCOUNTS_WRITE | PARTNERS_READ | PARTNERS_WRITE | INVOICES_READ
    | INVOICES_WRITE | PAYMENTS_WRITE | PURCHASES_READ | PURCHASES_WRITE | PURCHASE_APPROVE
    | PURCHASE_DELEGATE | PURCHASE_PAYMENTS_WRITE | STOCKS_READ | STOCKS_WRITE
    | BANK_RECONCILIATION_READ | BANK_RECONCILIATION_WRITE | OPEN_BANKING_READ
    | OPEN_BANKING_WRITE | E_TRANSPORT_READ | E_TRANSPORT_WRITE | JOURNAL_READ | JOURNAL_WRITE
    | EMPLOYEES_READ | EMPLOYEES_WRITE | PAYROLL_READ | PAYROLL_GENERATE | ASSETS_READ
    | ASSETS_WRITE | ASSETS_RUN_DEPRECIATION | REPORTS_READ | REPORTS_EXPORT | EXPORT_JOBS_READ
    | EXPORT_JOBS_WRITE | DASHBOARD_SNAPSHOTS_READ | DASHBOARD_SNAPSHOTS_WRITE | AUDIT_READ
    | PERIODS_READ | PERIODS_MANAGE

text \<open>\<open>ALL_PERMISSIONS\<close>, in the order of the \<open>PERMISSIONS\<close> object.\<close>

definition ALL_PERMISSIONS :: "Permission list" where
  "ALL_PERMISSIONS = [
     ACCOUNTS_READ, ACCOUNTS_WRITE, PARTNERS_READ, PARTNERS_WRITE, INVOICES_READ,
     INVOICES_WRITE, PAYMENTS_WRITE, PURCHASES_READ, PURCHASES_WRITE, PURCHASE_APPROVE,
     PURCHASE_DELEGATE, PURCHASE_PAYMENTS_WRITE, STOCKS_READ, STOCKS_WRITE,
     BANK_RECONCILIATION_READ, BANK_RECONCILIATION_WRITE, OPEN_BANKING_READ,
     OPEN_BANKING_WRITE, E_TRANSPORT_READ, E_TRANSPORT_WRITE, JOURNAL_READ, JOURNAL_WRITE,
     EMPLOYEES_READ, EMPLOYEES_WRITE, PAYROLL_READ, PAYROLL_GENERATE, ASSETS_READ,
     ASSETS_WRITE, ASSETS_RUN_DEPRECIATION, REPORTS_READ, REPORTS_EXPORT, EXPORT_JOBS_READ,
     EXPORT_JOBS_WRITE, DASHBOARD_SNAPSHOTS_READ, DASHBOARD_SNAPSHOTS_WRITE, AUDIT_READ,
     PERIODS_READ, PERIODS_MANAGE]"

fun ROLE_PERMISSION_MAP :: "Role \<Rightarrow> Permission list" where
  "ROLE_PERMISSION_MAP ADMIN = ALL_PERMISSIONS"
| "ROLE_PERMISSION_MAP CHIEF_ACCOUNTANT = [
     ACCOUNTS_READ, ACCOUNTS_WRITE, PARTNERS_READ, PARTNERS_WRITE, INVOICES_READ,
     INVOICES_WRITE, PAYMENTS_WRITE, PURCHASES_READ, PURCHASES_WRITE, PURCHASE_APPROVE,
     PURCHASE_DELEGATE, PURCHASE_PAYMENTS_WRITE, STOCKS_READ, STOCKS_WRITE,
     BANK_RECONCILIATION_READ, BANK_RECONCILIATION_WRITE, OPEN_BANKING_READ,
     OPEN_BANKING_WRITE, E_TRANSPORT_READ, E_TRANSPORT_WRITE, JOURNAL_READ, JOURNAL_WRITE,
     EMPLOYEES_READ, EMPLOYEES_WRITE, PAYROLL_READ, PAYROLL_GENERATE, ASSETS_READ,
     ASSETS_WRITE, ASSETS_RUN_DEPRECIATION, REPORTS_READ, REPORTS_EXPORT, EXPORT_JOBS_READ,
     EXPORT_JOBS_WRITE, DASHBOARD_SNAPSHOTS_READ, DASHBOARD_SNAPSHOTS_WRITE, AUDIT_READ,
     PERIODS_READ, PERIODS_MANAGE]"
| "ROLE_PERMISSION_MAP ACCOUNTANT = [
     ACCOUNTS_READ, ACCOUNTS_WRITE, PARTNERS_READ, PARTNERS_WRITE, INVOICES_READ,
     INVOICES_WRITE, PAYMENTS_WRITE, PURCHASES_READ, PURCHASES_WRITE, PURCHASE_APPROVE,
     PURCHASE_DELEGATE, PURCHASE_PAYMENTS_WRITE, STOCKS_READ, STOCKS_WRITE,
     BANK_RECONCILIATION_READ, BANK_RECONCILIATION_WRITE, OPEN_BANKING_READ,
     OPEN_BANKING_WRITE, E_TRANSPORT_READ, E_TRANSPORT_WRITE, JOURNAL_READ, JOURNAL_WRITE,
     EMPLOYEES_READ, EMPLOYEES_WRITE, PAYROLL_READ, PAYROLL_GENERATE, ASSETS_READ,
     ASSETS_WRITE, ASSETS_RUN_DEPRECIATION, REPORTS_READ, REPORTS_EXPORT, EXPORT_JOBS_READ,
     EXPORT_JOBS_WRITE, DASHBOARD_SNAPSHOTS_READ, DASHBOARD_SNAPSHOTS_WRITE, PERIODS_READ]"
| "ROLE_PERMISSION_MAP CASHIER = [
     INVOICES_READ, PAYMENTS_WRITE, PURCHASES_READ, PURCHASE_PAYMENTS_WRITE, STOCKS_READ,
     BANK_RECONCILIATION_READ, BANK_RECONCILIATION_WRITE, OPEN_BANKING_READ, E_TRANSPORT_READ,
     PARTNERS_READ, REPORTS_READ, EXPORT_JOBS_READ, DASHBOARD_SNAPSHOTS_READ, PERIODS_READ]"
| "ROLE_PERMISSION_MAP MANAGER = [
     ACCOUNTS_READ, PARTNERS_READ, INVOICES_READ, PURCHASES_READ, PURCHASE_APPROVE,
     PURCHASE_DELEGATE, STOCKS_READ, BANK_RECONCILIATION_READ, OPEN_BANKING_READ,
     E_TRANSPORT_READ, E_TRANSPORT_WRITE, JOURNAL_READ, EMPLOYEES_READ, PAYROLL_READ,
     ASSETS_READ, REPORTS_READ, REPORTS_EXPORT, EXPORT_JOBS_READ, DASHBOARD_SNAPSHOTS_READ,
     AUDIT_READ, PERIODS_READ]"
| "ROLE_PERMISSION_MAP AUDITOR = [
     ACCOUNTS_READ, PARTNERS_READ, INVOICES_READ, PURCHASES_READ, STOCKS_READ,
     BANK_RECONCILIATION_READ, OPEN_BANKING_READ, E_TRANSPORT_READ, JOURNAL_READ,
     EMPLOYEES_READ, PAYROLL_READ, ASSETS_READ, REPORTS_READ, REPORTS_EXPORT, EXPORT_JOBS_READ,
     DASHBOARD_SNAPSHOTS_READ, AUDIT_READ, PERIODS_READ]"

definition permissionsForRole :: "Role \<Rightarrow> Permission list" where
  "permissionsForRole role = ROLE_PERMISSION_MAP role"

text \<open>\<open>isMfaRequiredRole\<close> of lib/mfa.ts.\<close>

definition isMfaRequiredRole :: "Role \<Rightarrow> bool" where
  "isMfaRequiredRole role \<longleftrightarrow> role \<in> {ADMIN, CHIEF_ACCOUNTANT}"

section \<open>The company a request acts for\<close>

type_synonym id = string

record membership =
  m_userId :: id
  m_companyId :: id
  m_companyCode :: string
  m_companyName :: string
  m_companyActive :: bool
  m_role :: Role
  m_isDefault :: bool
  m_createdAt :: int

record available_company =
  ac_id :: id
  ac_code :: string
  ac_name :: string
  ac_role :: Role
  ac_isDefault :: bool

record access_context =
  cx_companyId :: id
  cx_companyCode :: string
  cx_companyName :: string
  cx_role :: Role
  cx_permissions :: "Permission list"
  cx_availableCompanies :: "available_company list"

definition normalizeCompanyId :: "string option \<Rightarrow> string option" where
  "normalizeCompanyId v =
     (case v of None \<Rightarrow> None
      | Some s \<Rightarrow> if s = [] then None else if trim s = [] then None else Some (trim s))"

text \<open>The \<open>x-company-id\<close> header (its first value) before the \<open>companyId\<close> query parameter.\<close>

definition readRequestedCompanyId :: "string list \<Rightarrow> string list \<Rightarrow> string option" where
  "readRequestedCompanyId header query =
     normalizeCompanyId (case header of h # _ \<Rightarrow> Some h
       | [] \<Rightarrow> (case query of q # _ \<Rightarrow> Some q | [] \<Rightarrow> None))"

text \<open>\<open>orderBy: [{ isDefault: 'desc' }, { createdAt: 'asc' }]\<close>, a stable sort.\<close>

definition membershipRank :: "membership \<Rightarrow> int" where
  "membershipRank m = (if m_isDefault m then 0 else 1)"

definition userMemberships :: "membership list \<Rightarrow> id \<Rightarrow> membership list" where
  "userMemberships ms userId =
     sort_key membershipRank (sort_key m_createdAt
       (filter (\<lambda>m. m_userId m = userId \<and> m_companyActive m) ms))"

definition toAvailableCompany :: "membership \<Rightarrow> available_company" where
  "toAvailableCompany m = \<lparr> ac_id = m_companyId m, ac_code = m_companyCode m, ac_name = m_companyName m,
     ac_role = m_role m, ac_isDefault = m_isDefault m \<rparr>"

definition resolveUserCompanyAccessContext ::
  "membership list \<Rightarrow> id \<Rightarrow> string option \<Rightarrow> access_context option" where
  "resolveUserCompanyAccessContext ms userId requested =
     (let memberships = userMemberships ms userId in
      if memberships = [] then None else
      case (case requested of
              Some c \<Rightarrow> find (\<lambda>m. m_companyId m = c) memberships
            | None \<Rightarrow> (case find m_isDefault memberships of
                          Some m \<Rightarrow> Some m | None \<Rightarrow> Some (hd memberships))) of
        None \<Rightarrow> None
      | Some m \<Rightarrow> Some \<lparr> cx_companyId = m_companyId m, cx_companyCode = m_companyCode m,
          cx_companyName = m_companyName m, cx_role = m_role m,
          cx_permissions = permissionsForRole (m_role m),
          cx_availableCompanies = map toAvailableCompany memberships \<rparr>)"

section \<open>The middlewares\<close>

text \<open>\<open>req.user\<close>; \<open>authenticate\<close> fills the first fields, \<open>resolveCompanyContext\<close> the rest.\<close>

record req_user =
  u_id :: id
  u_email :: string
  u_role :: Role
  u_sessionId :: string
  u_name :: string
  u_mustChangePassword :: bool
  u_mfaEnabled :: bool
  u_companySelectionRequired :: bool
  u_companyId :: "id option"
  u_companyCode :: "string option"
  u_companyName :: "string option"
  u_companyRole :: "Role option"
  u_permissions :: "Permission list"
  u_availableCompanies :: "available_company list"

text \<open>The claims of a verified access token; a missing optional claim is \<open>None\<close>.\<close>

record token_payload =
  tp_typ :: string
  tp_id :: string
  tp_sid :: string
  tp_email :: string
  tp_role :: Role
  tp_name :: string
  tp_mustChangePassword :: "bool option"
  tp_mfaEnabled :: "bool option"
  tp_companySelectionRequired :: "bool option"
  tp_exp :: "int option"

text \<open>\<open>verifyAccessToken\<close>: \<open>jwt.verify\<close> is the parameter \<open>verify\<close> (\<open>None\<close> when it throws).\<close>

definition verifyAccessToken :: "(string \<Rightarrow> token_payload option) \<Rightarrow> string \<Rightarrow> token_payload option" where
  "verifyAccessToken verify token =
     (case verify token of None \<Rightarrow> None
      | Some p \<Rightarrow> if tp_typ p \<noteq> ''access'' \<or> tp_id p = [] \<or> tp_sid p = [] \<or> tp_exp p = None
                 then None else Some p)"

definition authenticate ::
  "(string \<Rightarrow> token_payload option) \<Rightarrow> (string \<Rightarrow> bool) \<Rightarrow> string option \<Rightarrow> http_error + req_user" where
  "authenticate verify isBlacklisted token =
     (case token of None \<Rightarrow> Inl (unauthorized ''Token lipsa.'')
      | Some t \<Rightarrow> if t = [] then Inl (unauthorized ''Token lipsa.'') else
          (case verifyAccessToken verify t of
             None \<Rightarrow> Inl (unauthorized ''Token invalid sau expirat.'')
           | Some p \<Rightarrow>
               if isBlacklisted (tp_sid p) then Inl (unauthorized ''Token invalid sau revocat.'')
               else Inr \<lparr> u_id = tp_id p, u_email = tp_email p, u_role = tp_role p,
                 u_sessionId = tp_sid p, u_name = tp_name p,
                 u_mustChangePassword = (tp_mustChangePassword p \<noteq> Some False),
                 u_mfaEnabled = (tp_mfaEnabled p = Some True),
                 u_companySelectionRequired = (tp_companySelectionRequired p = Some True),
                 u_companyId = None, u_companyCode = None, u_companyName = None, u_companyRole = None,
                 u_permissions = [], u_availableCompanies = [] \<rparr>))"

definition enforceCompanySelection :: "req_user \<Rightarrow> http_error + req_user" where
  "enforceCompanySelection u =
     (if u_companySelectionRequired u
      then Inl (forbidden ''Selecteaza explicit compania activa inainte de a continua.'')
      else Inr u)"

definition resolveCompanyContext ::
  "membership list \<Rightarrow> string list \<Rightarrow> string list \<Rightarrow> req_user \<Rightarrow> http_error + req_user" where
  "resolveCompanyContext ms header query u =
     (let requested = readRequestedCompanyId header query in
      case resolveUserCompanyAccessContext ms (u_id u) requested of
        None \<Rightarrow> (case requested of
            Some _ \<Rightarrow> Inl (forbidden ''Nu ai acces la compania selectata.'')
          | None \<Rightarrow> Inl (forbidden ''Nu ai nicio companie activa asociata utilizatorului.''))
      | Some cx \<Rightarrow> Inr (u\<lparr> u_companyId := Some (cx_companyId cx), u_companyCode := Some (cx_companyCode cx),
          u_companyName := Some (cx_companyName cx),
          u_companyRole := Some (cx_role cx), u_permissions := cx_permissions cx,
          u_availableCompanies := cx_availableCompanies cx \<rparr>))"

definition enforcePasswordChange :: "req_user \<Rightarrow> http_error + req_user" where
  "enforcePasswordChange u =
     (if u_mustChangePassword u
      then Inl (forbidden ''Trebuie sa iti schimbi parola initiala inainte de a continua.'')
      else Inr u)"

definition activeRole :: "req_user \<Rightarrow> Role" where
  "activeRole u = orElse (u_companyRole u) (u_role u)"

definition enforceMfaEnrollment :: "req_user \<Rightarrow> http_error + req_user" where
  "enforceMfaEnrollment u =
     (if isMfaRequiredRole (activeRole u) \<and> \<not> u_mfaEnabled u
      then Inl (forbidden ''Configurarea MFA (TOTP) este obligatorie pentru rolul curent.'')
      else Inr u)"

definition requireRoles :: "Role list \<Rightarrow> req_user \<Rightarrow> http_error + req_user" where
  "requireRoles roles u =
     (if activeRole u \<in> set roles then Inr u
      else Inl (forbidden ''Nu ai permisiuni pentru aceasta operatiune.''))"

definition requirePermissions :: "Permission list \<Rightarrow> req_user \<Rightarrow> http_error + req_user" where
  "requirePermissions required u =
     (let missing = filter (\<lambda>p. p \<notin> set (u_permissions u)) required in
      if missing \<noteq> [] then Inl (forbidden ''Nu ai permisiuni pentru aceasta operatiune.'')
      else Inr u)"

text \<open>The chain app.ts installs on \<open>/api\<close> before the routes.\<close>

definition apiChain ::
  "(string \<Rightarrow> token_payload option) \<Rightarrow> (string \<Rightarrow> bool) \<Rightarrow> membership list \<Rightarrow>
   string option \<Rightarrow> string list \<Rightarrow> string list \<Rightarrow> http_error + req_user" where
  "apiChain verify isBlacklisted ms token header query =
     bindR (authenticate verify isBlacklisted token) (\<lambda>u.
     bindR (enforceCompanySelection u) (\<lambda>u.
     bindR (resolveCompanyContext ms header query u) (\<lambda>u.
     bindR (enforcePasswordChange u) enforceMfaEnrollment)))"

section \<open>What the chain guarantees\<close>

lemma userMemberships_set:
  "set (userMemberships ms uid) = {m \<in> set ms. m_userId m = uid \<and> m_companyActive m}"
  by (simp add: userMemberships_def)

lemma resolve_SomeD:
  assumes "resolveUserCompanyAccessContext ms uid requested = Some cx"
  shows "\<exists>m \<in> set ms. m_userId m = uid \<and> m_companyActive m \<and> cx_companyId cx = m_companyId m \<and>
    cx_role cx = m_role m \<and> cx_permissions cx = permissionsForRole (m_role m) \<and>
    (\<forall>c. requested = Some c \<longrightarrow> m_companyId m = c)"
proof -
  let ?M = "userMemberships ms uid"
  obtain m where ne: "?M \<noteq> []"
    and sel: "(case requested of Some c \<Rightarrow> find (\<lambda>m. m_companyId m = c) ?M
       | None \<Rightarrow> (case find m_isDefault ?M of Some m \<Rightarrow> Some m | None \<Rightarrow> Some (hd ?M))) = Some m"
    and cx: "cx_companyId cx = m_companyId m" "cx_role cx = m_role m" "cx_permissions cx = permissionsForRole (m_role m)"
    using assms by (auto simp: resolveUserCompanyAccessContext_def Let_def split: if_splits option.splits)
  have "m \<in> set ?M \<and> (\<forall>c. requested = Some c \<longrightarrow> m_companyId m = c)"
    using sel ne by (auto split: option.splits dest!: find_SomeD)
  with cx have "m \<in> set ?M" "\<forall>c. requested = Some c \<longrightarrow> m_companyId m = c"
    "cx_companyId cx = m_companyId m" "cx_role cx = m_role m" "cx_permissions cx = permissionsForRole (m_role m)"
    by auto
  then show ?thesis by (auto simp: userMemberships_set)
qed

lemma authenticate_InrD:
  "authenticate verify isBlacklisted token = Inr u \<Longrightarrow>
     \<exists>t p. token = Some t \<and> verify t = Some p \<and> tp_typ p = ''access'' \<and> u_id u = tp_id p \<and>
       \<not> isBlacklisted (u_sessionId u)"
  by (auto simp: authenticate_def verifyAccessToken_def split: option.splits if_splits)

lemmas chain_defs = enforceCompanySelection_def enforcePasswordChange_def enforceMfaEnrollment_def

lemma resolveCompanyContext_InrD:
  assumes "resolveCompanyContext ms header query u = Inr v"
  shows "\<exists>m \<in> set ms. m_userId m = u_id u \<and> m_companyActive m \<and> u_companyId v = Some (m_companyId m) \<and>
      u_companyRole v = Some (m_role m) \<and> u_permissions v = permissionsForRole (m_role m) \<and>
      (\<forall>c. readRequestedCompanyId header query = Some c \<longrightarrow> m_companyId m = c)"
    and "u_id v = u_id u" "u_sessionId v = u_sessionId u" "u_mustChangePassword v = u_mustChangePassword u"
    "u_mfaEnabled v = u_mfaEnabled u" "u_companySelectionRequired v = u_companySelectionRequired u"
proof -
  obtain cx where cx: "resolveUserCompanyAccessContext ms (u_id u) (readRequestedCompanyId header query) = Some cx"
    and v: "v = u\<lparr> u_companyId := Some (cx_companyId cx), u_companyCode := Some (cx_companyCode cx),
          u_companyName := Some (cx_companyName cx),
          u_companyRole := Some (cx_role cx), u_permissions := cx_permissions cx,
          u_availableCompanies := cx_availableCompanies cx \<rparr>"
    using assms by (auto simp: resolveCompanyContext_def Let_def split: option.splits)
  from resolve_SomeD[OF cx] v
  show "\<exists>m \<in> set ms. m_userId m = u_id u \<and> m_companyActive m \<and> u_companyId v = Some (m_companyId m) \<and>
      u_companyRole v = Some (m_role m) \<and> u_permissions v = permissionsForRole (m_role m) \<and>
      (\<forall>c. readRequestedCompanyId header query = Some c \<longrightarrow> m_companyId m = c)" by auto
  show "u_id v = u_id u" "u_sessionId v = u_sessionId u" "u_mustChangePassword v = u_mustChangePassword u"
    "u_mfaEnabled v = u_mfaEnabled u" "u_companySelectionRequired v = u_companySelectionRequired u"
    by (simp_all add: v)
qed

lemma requirePermissions_Inr:
  "requirePermissions required u = Inr v \<longleftrightarrow> v = u \<and> set required \<subseteq> set (u_permissions u)"
  by (auto simp: requirePermissions_def Let_def filter_empty_conv)

lemma permissionsForRole_ADMIN: "p \<in> set (permissionsForRole ADMIN)"
  by (cases p) (simp_all add: permissionsForRole_def ALL_PERMISSIONS_def)

section \<open>The actor of a route\<close>

text \<open>A route runs its handler for the user and the active company of the request
  (\<open>req.user!.id\<close>, \<open>req.user!.companyId!\<close>) once the required permissions are there.\<close>

record actor =
  act_user :: id
  act_company :: id

definition route :: "Permission list \<Rightarrow> req_user \<Rightarrow> (actor \<Rightarrow> http_error + 'a) \<Rightarrow> http_error + 'a" where
  "route required u h =
     bindR (requirePermissions required u) (\<lambda>u.
       case u_companyId u of
         None \<Rightarrow> Inl (internal ''Eroare interna de server.'')
       | Some c \<Rightarrow> h \<lparr> act_user = u_id u, act_company = c \<rparr>)"

lemma route_InrD:
  assumes "route required u h = Inr x"
  shows "set required \<subseteq> set (u_permissions u) \<and>
    (\<exists>c. u_companyId u = Some c \<and> h \<lparr> act_user = u_id u, act_company = c \<rparr> = Inr x)"
  using assms by (auto simp: route_def bindR_eq_Inr requirePermissions_Inr split: option.splits)

section \<open>Properties\<close>

text \<open>C6: A handler runs only for a request whose token verifies, is an access token and is not
  revoked; its company is one the user is a member of, active, and the one the request names when it
  names one; the role of that membership grants every permission the route requires; the password is
  not to be changed first, and a role that needs MFA has it.\<close>

theorem api_guard:
  assumes "bindR (apiChain verify isBlacklisted ms token header query) (\<lambda>u. route required u h) = Inr x"
  shows "\<exists>m t p. token = Some t \<and> verify t = Some p \<and> tp_typ p = ''access'' \<and> tp_id p = m_userId m \<and>
    \<not> isBlacklisted (tp_sid p) \<and> tp_mustChangePassword p = Some False \<and> tp_companySelectionRequired p \<noteq> Some True \<and>
    m \<in> set ms \<and> m_companyActive m \<and> set required \<subseteq> set (permissionsForRole (m_role m)) \<and>
    (\<forall>c. readRequestedCompanyId header query = Some c \<longrightarrow> m_companyId m = c) \<and>
    (isMfaRequiredRole (m_role m) \<longrightarrow> tp_mfaEnabled p = Some True) \<and>
    h \<lparr> act_user = m_userId m, act_company = m_companyId m \<rparr> = Inr x"
proof -
  obtain u where chain: "apiChain verify isBlacklisted ms token header query = Inr u" and r: "route required u h = Inr x"
    using assms by (auto simp: bindR_eq_Inr)
  obtain v where a: "authenticate verify isBlacklisted token = Inr v" and cs: "\<not> u_companySelectionRequired v"
    and cx: "resolveCompanyContext ms header query v = Inr u" and pc: "\<not> u_mustChangePassword u"
    and mfa: "isMfaRequiredRole (activeRole u) \<longrightarrow> u_mfaEnabled u"
    using chain by (auto simp: apiChain_def bindR_eq_Inr chain_defs split: if_splits)
  obtain t p where t: "token = Some t" "verify t = Some p" "tp_typ p = ''access''" "\<not> isBlacklisted (tp_sid p)"
    and v: "u_id v = tp_id p" "u_mustChangePassword v \<longleftrightarrow> tp_mustChangePassword p \<noteq> Some False"
      "u_mfaEnabled v \<longleftrightarrow> tp_mfaEnabled p = Some True" "u_companySelectionRequired v \<longleftrightarrow> tp_companySelectionRequired p = Some True"
    using a by (auto simp: authenticate_def verifyAccessToken_def split: option.splits if_splits)
  obtain m where m: "m \<in> set ms" "m_userId m = u_id v" "m_companyActive m" "u_companyId u = Some (m_companyId m)"
    "u_companyRole u = Some (m_role m)" "u_permissions u = permissionsForRole (m_role m)"
    "\<forall>c. readRequestedCompanyId header query = Some c \<longrightarrow> m_companyId m = c"
    using resolveCompanyContext_InrD(1)[OF cx] by blast
  note same = resolveCompanyContext_InrD(2-)[OF cx]
  have u: "u_id u = m_userId m" "tp_id p = m_userId m" using m(2) same(1) v(1) by simp_all
  have h: "set required \<subseteq> set (permissionsForRole (m_role m))" "h \<lparr> act_user = m_userId m, act_company = m_companyId m \<rparr> = Inr x"
    using route_InrD[OF r] m(4,6) u(1) by auto
  have f: "tp_mustChangePassword p = Some False" "tp_companySelectionRequired p \<noteq> Some True"
    "isMfaRequiredRole (m_role m) \<longrightarrow> tp_mfaEnabled p = Some True"
    using v same cs pc mfa m(5) by (auto simp: activeRole_def)
  show ?thesis
    by (rule exI[of _ m], rule exI[of _ t], rule exI[of _ p]) (intro conjI t m(1,3,7) u(2) h f)
qed

definition demoToken :: token_payload where
  "demoToken = \<lparr> tp_typ = ''access'', tp_id = ''u'', tp_sid = ''s'', tp_email = ''e'', tp_role = ACCOUNTANT,
     tp_name = ''n'', tp_mustChangePassword = Some False, tp_mfaEnabled = None,
     tp_companySelectionRequired = None, tp_exp = Some 1 \<rparr>"

definition demoMembership :: "bool \<Rightarrow> membership" where
  "demoMembership active = \<lparr> m_userId = ''u'', m_companyId = ''c'', m_companyCode = ''C'', m_companyName = ''N'',
     m_companyActive = active, m_role = ACCOUNTANT, m_isDefault = True, m_createdAt = 0 \<rparr>"

definition demoRequestResult :: "bool \<Rightarrow> http_error + id" where
  "demoRequestResult active =
     bindR (apiChain (\<lambda>_. Some demoToken) (\<lambda>_. False) [demoMembership active] (Some ''t'') [] [])
       (\<lambda>u. route [JOURNAL_WRITE] u (\<lambda>a. Inr (act_company a)))"

lemma demoRequestResult_ok: "demoRequestResult True = Inr ''c''"
  by code_simp

theorem api_guard_witness: "set [JOURNAL_WRITE] \<subseteq> set (permissionsForRole ACCOUNTANT) \<and> demoRequestResult False \<noteq> Inr ''c''"
proof
  show "set [JOURNAL_WRITE] \<subseteq> set (permissionsForRole ACCOUNTANT)"
    using api_guard[OF demoRequestResult_ok[unfolded demoRequestResult_def]] by (auto simp: demoMembership_def)
  show "demoRequestResult False \<noteq> Inr ''c''" by code_simp
qed

text \<open>The administrator holds every permission and so does the chief accountant; every other
  role is refused the management of periods, and the auditor can only read and export.\<close>

lemma role_permissions:
  "set (permissionsForRole ADMIN) = UNIV \<and> set (permissionsForRole CHIEF_ACCOUNTANT) = UNIV \<and>
   (\<forall>r. PERIODS_MANAGE \<in> set (permissionsForRole r) \<longleftrightarrow> isMfaRequiredRole r) \<and>
   set (permissionsForRole AUDITOR) \<subseteq> {ACCOUNTS_READ, PARTNERS_READ, INVOICES_READ, PURCHASES_READ, STOCKS_READ,
     BANK_RECONCILIATION_READ, OPEN_BANKING_READ, E_TRANSPORT_READ, JOURNAL_READ, EMPLOYEES_READ, PAYROLL_READ,
     ASSETS_READ, REPORTS_READ, REPORTS_EXPORT, EXPORT_JOBS_READ, DASHBOARD_SNAPSHOTS_READ, AUDIT_READ, PERIODS_READ}"
proof (intro conjI allI)
  show "set (permissionsForRole ADMIN) = UNIV" using permissionsForRole_ADMIN by blast
  have "p \<in> set (permissionsForRole CHIEF_ACCOUNTANT)" for p by (cases p) (simp_all add: permissionsForRole_def)
  then show "set (permissionsForRole CHIEF_ACCOUNTANT) = UNIV" by blast
  show "PERIODS_MANAGE \<in> set (permissionsForRole r) \<longleftrightarrow> isMfaRequiredRole r" for r
    by (cases r) (simp_all add: permissionsForRole_def isMfaRequiredRole_def ALL_PERMISSIONS_def)
qed (simp add: permissionsForRole_def)

end
