(* ===== verification/Ledger.thy ===== *)
theory Ledger
  imports Numbers Dates Access
begin

text \<open>
  The general ledger: the double-entry check of utils/accounting.ts, the period lock
  (lib/period-lock.ts), the entry numbers (lib/journal-entry-number.ts), the journal routes
  (routes/journal.ts) and the period routes (routes/periods.ts). The tables are one record, in
  insertion order; the records of the other components extend it. Amount columns hold cents.

  Every handler is one function of the environment (clock, row ids, column conversion), the actor,
  the request and the tables. A create checks the primary key and the unique indexes of
  schema.prisma, as the database does; a violation is the 409 of \<open>mapPrismaError\<close>.
\<close>

section \<open>Tables\<close>

datatype AccountType = ASSET | LIABILITY | EQUITY | REVENUE | EXPENSE

record account =
  a_id :: id
  a_companyId :: id
  a_code :: string
  a_isActive :: bool
  a_name :: string
  a_type :: AccountType
  a_currency :: string

datatype PeriodStatus = PERIOD_OPEN | PERIOD_CLOSED

record accounting_period =
  p_id :: id
  p_companyId :: id
  p_period :: string
  p_status :: PeriodStatus
  p_closedAt :: "date option"
  p_closedById :: "id option"
  p_notes :: "string option"

datatype JournalEntryStatus = DRAFT | VALIDATED | CLOSED

record journal_line =
  jl_accountId :: id
  jl_debit :: int
  jl_credit :: int
  jl_explanation :: "string option"

record journal_entry =
  je_id :: id
  je_companyId :: id
  je_number :: "string option"
  je_date :: date
  je_description :: string
  je_period :: string
  je_status :: JournalEntryStatus
  je_posted :: bool
  je_sourceModule :: "string option"
  je_reversalOfEntryId :: "id option"
  je_createdById :: id
  je_lines :: "journal_line list"

record audit_row =
  au_tableName :: string
  au_recordId :: "id option"
  au_action :: string
  au_reason :: "string option"
  au_userId :: id
  au_companyId :: id

text \<open>\<open>fsCache\<close> holds the keys of the cached financial statements (lib/financial-statements-cache.ts).\<close>

record ledger =
  accounts :: "account list"
  periods :: "accounting_period list"
  entries :: "journal_entry list"
  auditLog :: "audit_row list"
  fsCache :: "string list"

text \<open>The environment of one request: \<open>new Date()\<close>, the ids \<open>uuid()\<close> gives in turn, and the
  conversion of a number to a decimal column.\<close>

record env =
  now :: date
  uuid :: "nat \<Rightarrow> id"
  storeDec :: store

definition writeAudit :: "actor \<Rightarrow> string \<Rightarrow> id option \<Rightarrow> string \<Rightarrow> string option \<Rightarrow> 'z ledger_scheme \<Rightarrow> 'z ledger_scheme" where
  "writeAudit u table recordId action reason db =
     db\<lparr>auditLog := auditLog db @ [\<lparr> au_tableName = table, au_recordId = recordId, au_action = action,
          au_reason = reason, au_userId = act_user u, au_companyId = act_company u \<rparr>]\<rparr>"

definition invalidateFinancialStatementsCache :: "'z ledger_scheme \<Rightarrow> 'z ledger_scheme" where
  "invalidateFinancialStatementsCache db = db\<lparr>fsCache := []\<rparr>"

lemma audit_table_simps [simp, table_simps]:
  "accounts (writeAudit u t r a x db) = accounts db" "periods (writeAudit u t r a x db) = periods db"
  "entries (writeAudit u t r a x db) = entries db"
  "accounts (invalidateFinancialStatementsCache db) = accounts db"
  "periods (invalidateFinancialStatementsCache db) = periods db"
  "entries (invalidateFinancialStatementsCache db) = entries db"
  by (simp_all add: writeAudit_def invalidateFinancialStatementsCache_def)

section \<open>The double-entry check\<close>

definition validateDoubleEntry :: "(double \<times> double) list \<Rightarrow> http_error + unit" where
  "validateDoubleEntry ls =
     (if length ls < 2 then Inl (badRequest ''O nota contabila trebuie sa aiba minim 2 linii.'')
      else if list_ex (\<lambda>(d, c). d < 0 \<or> c < 0 \<or> (d = 0 \<and> c = 0)) ls
      then Inl (badRequest ''Fiecare linie trebuie sa contina debit sau credit pozitiv.'')
      else let debitTotal = round2 (reduceSum (map fst ls)); creditTotal = round2 (reduceSum (map snd ls)) in
        if debitTotal \<le> 0 \<or> creditTotal \<le> 0
        then Inl (badRequest ''Totalul debit/credit trebuie sa fie > 0.'')
        else if debitTotal \<noteq> creditTotal then Inl (badRequest ''Nota nu este echilibrata.'')
        else Inr ())"

text \<open>Lines as they are stored, and the reading of them that the routes check.\<close>

definition lineAmounts :: "journal_line \<Rightarrow> double \<times> double" where
  "lineAmounts l = (toNumber (column 100 (jl_debit l)), toNumber (column 100 (jl_credit l)))"

definition debits :: "journal_line list \<Rightarrow> int" where "debits ls = (\<Sum>l\<leftarrow>ls. jl_debit l)"
definition credits :: "journal_line list \<Rightarrow> int" where "credits ls = (\<Sum>l\<leftarrow>ls. jl_credit l)"

text \<open>The size up to which the double sums are exact: the number of lines times the total of their
  absolute amounts in cents, at most \<open>2\<^sup>4\<^sup>5\<close> on each side.\<close>

definition small :: "journal_line list \<Rightarrow> bool" where
  "small ls \<longleftrightarrow> int (length ls) * (1 + (\<Sum>l\<leftarrow>ls. \<bar>jl_debit l\<bar>)) \<le> 2 ^ 45 \<and>
     int (length ls) * (1 + (\<Sum>l\<leftarrow>ls. \<bar>jl_credit l\<bar>)) \<le> 2 ^ 45"

text \<open>The abstract check, on exact integers.\<close>

definition doubleEntry :: "journal_line list \<Rightarrow> bool" where
  "doubleEntry ls \<longleftrightarrow> 2 \<le> length ls \<and>
     (\<forall>l \<in> set ls. 0 \<le> jl_debit l \<and> 0 \<le> jl_credit l \<and> (jl_debit l \<noteq> 0 \<or> jl_credit l \<noteq> 0)) \<and>
     0 < debits ls \<and> debits ls = credits ls"

lemma lineAmounts_cents: "lineAmounts l = (cents (jl_debit l), cents (jl_credit l))"
  by (simp add: lineAmounts_def)

lemma sum_list_abs_bound: "\<bar>sum_list ns\<bar> \<le> (\<Sum>n\<leftarrow>ns. \<bar>n :: int\<bar>)"
  by (induction ns) auto

lemma small_totals:
  assumes "small ls"
  shows "round2 (reduceSum (map (\<lambda>l. cents (jl_debit l)) ls)) = cents (debits ls)"
    "round2 (reduceSum (map (\<lambda>l. cents (jl_credit l)) ls)) = cents (credits ls)"
  using assms round2_sum[of "map jl_debit ls"] round2_sum[of "map jl_credit ls"]
  by (simp_all add: small_def debits_def credits_def comp_def)

lemma small_bounds:
  assumes "small ls" shows "\<bar>debits ls\<bar> \<le> 2 ^ 45" "\<bar>credits ls\<bar> \<le> 2 ^ 45"
proof -
  have gen: "\<bar>sum_list ns\<bar> \<le> 2 ^ 45" if "int (length ns) * (1 + (\<Sum>n\<leftarrow>ns. \<bar>n\<bar>)) \<le> 2 ^ 45" for ns :: "int list"
  proof (cases ns)
    case (Cons a list)
    have nn: "0 \<le> (\<Sum>n\<leftarrow>ns. \<bar>n\<bar>)" by (rule cent.sum_abs_nonneg)
    then have "1 * (1 + (\<Sum>n\<leftarrow>ns. \<bar>n\<bar>)) \<le> int (length ns) * (1 + (\<Sum>n\<leftarrow>ns. \<bar>n\<bar>))"
      using Cons by (intro mult_right_mono) auto
    then show ?thesis using that sum_list_abs_bound[of ns] by simp
  qed simp
  show "\<bar>debits ls\<bar> \<le> 2 ^ 45" "\<bar>credits ls\<bar> \<le> 2 ^ 45"
    using assms gen[of "map jl_debit ls"] gen[of "map jl_credit ls"]
    by (simp_all add: small_def debits_def credits_def comp_def)
qed

lemma validateDoubleEntry_doubleEntry:
  assumes "small ls"
  shows "validateDoubleEntry (map lineAmounts ls) = Inr () \<longleftrightarrow> doubleEntry ls"
proof -
  have fs: "map fst (map lineAmounts ls) = map (\<lambda>l. cents (jl_debit l)) ls"
    "map snd (map lineAmounts ls) = map (\<lambda>l. cents (jl_credit l)) ls"
    by (simp_all add: lineAmounts_cents)
  have eq: "cents (debits ls) = cents (credits ls) \<longleftrightarrow> debits ls = credits ls"
    using small_bounds[OF assms] by (intro cent.grid_eq_cmp) simp
  show ?thesis
    unfolding validateDoubleEntry_def Let_def fs small_totals[OF assms] doubleEntry_def
    by (auto simp: lineAmounts_cents list_ex_iff eq not_less not_le)
qed

section \<open>Period lock and entry numbers\<close>

definition findPeriod :: "id \<Rightarrow> string \<Rightarrow> 'z ledger_scheme \<Rightarrow> accounting_period option" where
  "findPeriod c p db = find (\<lambda>r. p_companyId r = c \<and> p_period r = p) (periods db)"

definition periodClosed :: "id \<Rightarrow> string \<Rightarrow> 'z ledger_scheme \<Rightarrow> bool" where
  "periodClosed c p db \<longleftrightarrow> (case findPeriod c p db of None \<Rightarrow> False | Some r \<Rightarrow> p_status r = PERIOD_CLOSED)"

definition assertPeriodOpen :: "id \<Rightarrow> string \<Rightarrow> 'z ledger_scheme \<Rightarrow> http_error + unit" where
  "assertPeriodOpen c p db =
     (if periodClosed c p db then Inl (conflict ''Perioada este inchisa. Operatiunea este blocata.'')
      else Inr ())"

definition formatJournalEntryNumber :: "int \<Rightarrow> nat \<Rightarrow> string" where
  "formatJournalEntryNumber year seq = ''NC-'' @ showInt year @ ''-'' @ padStart 6 (CHR ''0'') (showNat seq)"

text \<open>\<open>findFirst ... orderBy: { number: 'desc' }\<close>: the greatest string.\<close>

fun maxString :: "string list \<Rightarrow> string option" where
  "maxString [] = None"
| "maxString (s # ss) = (case maxString ss of None \<Rightarrow> Some s | Some t \<Rightarrow> Some (if stringLess s t then t else s))"

text \<open>\<open>Number.parseInt(s, 10)\<close>, \<open>None\<close> for NaN.\<close>

definition parseInt10 :: "string \<Rightarrow> int option" where
  "parseInt10 s =
     (let t = trimStart s;
          (neg, r) = (case t of [] \<Rightarrow> (False, []) | c # u \<Rightarrow>
             if c = CHR ''-'' then (True, u) else if c = CHR ''+'' then (False, u) else (False, t));
          ds = takeWhile isDigit r
      in if ds = [] then None else Some (if neg then - int (readNat ds) else int (readNat ds)))"

definition lastSequence :: "string option \<Rightarrow> nat" where
  "lastSequence lastNumber =
     (case lastNumber of None \<Rightarrow> 0
      | Some number \<Rightarrow> if number = [] then 0 else
          (case split (CHR ''-'') number of
             [_, _, s] \<Rightarrow> (case parseInt10 s of None \<Rightarrow> 0 | Some n \<Rightarrow> if 0 < n then nat n else 0)
           | _ \<Rightarrow> 0))"

definition companyNumbers :: "id \<Rightarrow> 'z ledger_scheme \<Rightarrow> string list" where
  "companyNumbers c db = List.map_filter je_number (filter (\<lambda>e. je_companyId e = c) (entries db))"

definition nextJournalEntryNumber :: "id \<Rightarrow> date \<Rightarrow> 'z ledger_scheme \<Rightarrow> string" where
  "nextJournalEntryNumber c d db =
     (let year = getUTCFullYear d; prefix = ''NC-'' @ showInt year @ ''-'';
          lastNumber = maxString (filter (\<lambda>n. startsWith n prefix) (companyNumbers c db))
      in formatJournalEntryNumber year (lastSequence lastNumber + 1))"

section \<open>Creating an entry row\<close>

definition sameKey :: "'a option \<Rightarrow> 'a option \<Rightarrow> bool" where
  "sameKey x y \<longleftrightarrow> x \<noteq> None \<and> x = y"

text \<open>The primary key and the unique indexes \<open>[companyId, number]\<close> and \<open>[reversalOfEntryId]\<close>;
  nulls never clash.\<close>

definition entryClash :: "journal_entry \<Rightarrow> journal_entry \<Rightarrow> bool" where
  "entryClash e f \<longleftrightarrow> je_id e = je_id f \<or>
     (je_companyId e = je_companyId f \<and> sameKey (je_number e) (je_number f)) \<or>
     sameKey (je_reversalOfEntryId e) (je_reversalOfEntryId f)"

definition insertEntry :: "journal_entry \<Rightarrow> 'z ledger_scheme \<Rightarrow> http_error + 'z ledger_scheme" where
  "insertEntry e db =
     (if list_ex (entryClash e) (entries db) then Inl uniqueViolation
      else Inr (db\<lparr>entries := entries db @ [e]\<rparr>))"

section \<open>Journal routes\<close>

record line_input =
  li_accountId :: id
  li_debit :: double
  li_credit :: double
  li_explanation :: "string option"

record create_entry_req =
  ce_date :: "date option"
  ce_description :: string
  ce_period :: "string option"
  ce_sourceModule :: "string option"
  ce_lines :: "line_input list"
  ce_reason :: "string option"

text \<open>The parts of the zod schema that a typed request can still fail.\<close>

definition createEntrySchema :: "create_entry_req \<Rightarrow> bool" where
  "createEntrySchema r \<longleftrightarrow> 3 \<le> length (ce_description r) \<and> 2 \<le> length (ce_lines r) \<and>
     list_all (\<lambda>l. li_accountId l \<noteq> [] \<and> 0 \<le> li_debit l \<and> 0 \<le> li_credit l) (ce_lines r)"

definition storeLine :: "store \<Rightarrow> id \<Rightarrow> double \<Rightarrow> double \<Rightarrow> string option \<Rightarrow> journal_line" where
  "storeLine st a d c x = \<lparr> jl_accountId = a, jl_debit = st 100 d, jl_credit = st 100 c, jl_explanation = x \<rparr>"

definition createEntry ::
  "env \<Rightarrow> actor \<Rightarrow> create_entry_req \<Rightarrow> 'z ledger_scheme \<Rightarrow> http_error + (journal_entry \<times> 'z ledger_scheme)" where
  "createEntry env u r db =
     (if \<not> createEntrySchema r then Inl (badRequest ''Date invalide pentru nota contabila.'') else
      bindR (validateDoubleEntry (map (\<lambda>l. (li_debit l, li_credit l)) (ce_lines r))) (\<lambda>_.
      let accountIds = remdups (map li_accountId (ce_lines r));
          found = filter (\<lambda>a. a_companyId a = act_company u \<and> a_id a \<in> set accountIds \<and> a_isActive a) (accounts db)
      in if length found \<noteq> length accountIds
         then Inl (badRequest ''Unul sau mai multe conturi sunt invalide/inactive.'') else
      let entryDate = orElse (ce_date r) (now env);
          entryPeriod = orElse (ce_period r) (currentPeriod entryDate)
      in bindR (assertPeriodOpen (act_company u) entryPeriod db) (\<lambda>_.
      let entry = \<lparr> je_id = uuid env 0, je_companyId = act_company u,
            je_number = Some (nextJournalEntryNumber (act_company u) entryDate db),
            je_date = entryDate, je_description = ce_description r, je_period = entryPeriod,
            je_status = DRAFT, je_posted = False, je_sourceModule = ce_sourceModule r,
            je_reversalOfEntryId = None, je_createdById = act_user u,
            je_lines = map (\<lambda>l. storeLine (storeDec env) (li_accountId l) (li_debit l) (li_credit l)
              (li_explanation l)) (ce_lines r) \<rparr>
      in bindR (insertEntry entry db) (\<lambda>db.
         Inr (entry, invalidateFinancialStatementsCache
           (writeAudit u ''journal_entries'' (Some (je_id entry)) ''CREATE'' (ce_reason r) db))))))"

definition findEntry :: "id \<Rightarrow> id \<Rightarrow> 'z ledger_scheme \<Rightarrow> journal_entry option" where
  "findEntry c i db = find (\<lambda>e. je_id e = i \<and> je_companyId e = c) (entries db)"

definition validateEntry ::
  "actor \<Rightarrow> id \<Rightarrow> string option \<Rightarrow> 'z ledger_scheme \<Rightarrow> http_error + (journal_entry \<times> 'z ledger_scheme)" where
  "validateEntry u entryId reason db =
     (case findEntry (act_company u) entryId db of
        None \<Rightarrow> Inl (notFound ''Nota contabila nu a fost gasita.'')
      | Some entry \<Rightarrow>
          if je_status entry \<noteq> DRAFT
          then Inl (conflict ''Doar notele in status DRAFT pot fi validate.'') else
          bindR (validateDoubleEntry (map lineAmounts (je_lines entry))) (\<lambda>_.
          bindR (assertPeriodOpen (act_company u) (je_period entry) db) (\<lambda>_.
          let validated = entry\<lparr>je_status := VALIDATED, je_posted := True\<rparr> in
          Inr (validated, invalidateFinancialStatementsCache
            (writeAudit u ''journal_entries'' (Some (je_id validated)) ''VALIDATE'' reason
              (db\<lparr>entries := updateWhere (\<lambda>e. je_id e = je_id entry)
                   (\<lambda>e. e\<lparr>je_status := VALIDATED, je_posted := True\<rparr>) (entries db)\<rparr>))))))"

record storno_req =
  sr_date :: "date option"
  sr_period :: "string option"
  sr_description :: "string option"
  sr_reason :: "string option"

definition stornoEntrySchema :: "storno_req \<Rightarrow> bool" where
  "stornoEntrySchema r \<longleftrightarrow> (case sr_description r of None \<Rightarrow> True | Some d \<Rightarrow> 3 \<le> length d)"

definition stornoEntry ::
  "env \<Rightarrow> actor \<Rightarrow> id \<Rightarrow> storno_req \<Rightarrow> 'z ledger_scheme \<Rightarrow> http_error + (journal_entry \<times> 'z ledger_scheme)" where
  "stornoEntry env u sourceEntryId r db =
     (if \<not> stornoEntrySchema r then Inl (badRequest ''Date invalide pentru storno.'') else
      let stornoDate = orElse (sr_date r) (now env);
          stornoPeriod = orElse (sr_period r) (currentPeriod stornoDate)
      in case findEntry (act_company u) sourceEntryId db of
        None \<Rightarrow> Inl (notFound ''Nota contabila sursa nu a fost gasita.'')
      | Some source \<Rightarrow>
          if je_status source = DRAFT
          then Inl (conflict ''Storno este permis doar pentru note validate/inchise.'') else
          if je_reversalOfEntryId source \<noteq> None
          then Inl (conflict ''Nu poti genera storno peste o nota care este deja storno.'') else
          if list_ex (\<lambda>e. je_companyId e = act_company u \<and> je_reversalOfEntryId e = Some (je_id source)) (entries db)
          then Inl (conflict ''Exista deja o nota storno asociata acestei note contabile.'') else
          bindR (assertPeriodOpen (act_company u) stornoPeriod db) (\<lambda>_.
          let entry = \<lparr> je_id = uuid env 0, je_companyId = act_company u,
                je_number = Some (nextJournalEntryNumber (act_company u) stornoDate db),
                je_date = stornoDate,
                je_description = orElse (sr_description r) (''Storno '' @ orElse (je_number source) (je_id source)),
                je_period = stornoPeriod, je_status = VALIDATED, je_posted = True,
                je_sourceModule = Some ''GENERAL_LEDGER_STORNO'',
                je_reversalOfEntryId = Some (je_id source), je_createdById = act_user u,
                je_lines = map (\<lambda>l. storeLine (storeDec env) (jl_accountId l)
                  (snd (lineAmounts l)) (fst (lineAmounts l)) (jl_explanation l)) (je_lines source) \<rparr>
          in bindR (insertEntry entry db) (\<lambda>db.
             Inr (entry, invalidateFinancialStatementsCache
               (writeAudit u ''journal_entries'' (Some (je_id entry)) ''STORNO'' (sr_reason r) db)))))"

section \<open>Period routes\<close>

text \<open>\<open>upsert\<close>: an update leaves the field of an undefined value (\<open>notes\<close>) as it was.\<close>

definition upsertPeriod :: "accounting_period \<Rightarrow> 'z ledger_scheme \<Rightarrow> http_error + ('z ledger_scheme)" where
  "upsertPeriod row db =
     (case findPeriod (p_companyId row) (p_period row) db of
        Some old \<Rightarrow> Inr (db\<lparr>periods := updateWhere (\<lambda>r. p_companyId r = p_companyId row \<and> p_period r = p_period row)
             (\<lambda>r. row\<lparr>p_id := p_id r, p_notes := (case p_notes row of None \<Rightarrow> p_notes r | Some n \<Rightarrow> Some n)\<rparr>) (periods db)\<rparr>)
      | None \<Rightarrow> if list_ex (\<lambda>r. p_id r = p_id row) (periods db) then Inl uniqueViolation
               else Inr (db\<lparr>periods := periods db @ [row]\<rparr>))"

definition notesSchema :: "string option \<Rightarrow> bool" where
  "notesSchema notes \<longleftrightarrow> (case notes of None \<Rightarrow> True | Some n \<Rightarrow> length n \<le> 500)"

definition setStatusWhere :: "id \<Rightarrow> string \<Rightarrow> JournalEntryStatus \<Rightarrow> JournalEntryStatus \<Rightarrow> 'z ledger_scheme \<Rightarrow> 'z ledger_scheme" where
  "setStatusWhere c p old new db =
     db\<lparr>entries := updateWhere (\<lambda>e. je_companyId e = c \<and> je_period e = p \<and> je_status e = old)
          (\<lambda>e. e\<lparr>je_status := new\<rparr>) (entries db)\<rparr>"

definition closePeriod ::
  "env \<Rightarrow> actor \<Rightarrow> string \<Rightarrow> string option \<Rightarrow> string option \<Rightarrow> 'z ledger_scheme \<Rightarrow> http_error + 'z ledger_scheme" where
  "closePeriod env u period notes reason db =
     (if \<not> notesSchema notes then Inl (badRequest ''Date invalide pentru inchiderea perioadei.'') else
      bindR (parsePeriod period) (\<lambda>_.
      if list_ex (\<lambda>e. je_companyId e = act_company u \<and> je_period e = period \<and> je_status e = DRAFT) (entries db)
      then Inl (conflict ''Perioada nu poate fi inchisa deoarece exista note in status DRAFT.'') else
      bindR (upsertPeriod \<lparr> p_id = uuid env 0, p_companyId = act_company u, p_period = period,
               p_status = PERIOD_CLOSED, p_closedAt = Some (now env), p_closedById = Some (act_user u),
               p_notes = notes \<rparr> db) (\<lambda>db.
      Inr (writeAudit u ''accounting_periods'' (map_option p_id (findPeriod (act_company u) period db))
        ''CLOSE_PERIOD'' reason (setStatusWhere (act_company u) period VALIDATED CLOSED db)))))"

definition reopenPeriod ::
  "env \<Rightarrow> actor \<Rightarrow> string \<Rightarrow> string option \<Rightarrow> string option \<Rightarrow> 'z ledger_scheme \<Rightarrow> http_error + 'z ledger_scheme" where
  "reopenPeriod env u period notes reason db =
     (if \<not> notesSchema notes then Inl (badRequest ''Date invalide pentru redeschiderea perioadei.'') else
      bindR (parsePeriod period) (\<lambda>_.
      bindR (upsertPeriod \<lparr> p_id = uuid env 0, p_companyId = act_company u, p_period = period,
               p_status = PERIOD_OPEN, p_closedAt = None, p_closedById = None, p_notes = notes \<rparr> db) (\<lambda>db.
      Inr (writeAudit u ''accounting_periods'' (map_option p_id (findPeriod (act_company u) period db))
        ''REOPEN_PERIOD'' reason (setStatusWhere (act_company u) period CLOSED VALIDATED db)))))"

section \<open>Postings of the other components\<close>

text \<open>The sub-ledgers create an entry with the defaults of schema.prisma: status VALIDATED, posted.\<close>

definition autoEntry ::
  "env \<Rightarrow> actor \<Rightarrow> id \<Rightarrow> date \<Rightarrow> string \<Rightarrow> string \<Rightarrow> string \<Rightarrow> (id \<times> double \<times> double \<times> string) list \<Rightarrow>
   'z ledger_scheme \<Rightarrow> journal_entry" where
  "autoEntry env u newId date description period sourceModule ls db =
     \<lparr> je_id = newId, je_companyId = act_company u,
       je_number = Some (nextJournalEntryNumber (act_company u) date db),
       je_date = date, je_description = description, je_period = period,
       je_status = VALIDATED, je_posted = True, je_sourceModule = Some sourceModule,
       je_reversalOfEntryId = None, je_createdById = act_user u,
       je_lines = map (\<lambda>(a, d, c, x). storeLine (storeDec env) a d c (Some x)) ls \<rparr>"

section \<open>The ledger invariant\<close>

definition balanced :: "journal_line list \<Rightarrow> bool" where
  "balanced ls \<longleftrightarrow> (small ls \<longrightarrow> debits ls = credits ls)"

text \<open>An entry that may stand in the tables: it is posted unless it is a draft, it is closed exactly
  when its period is, and a posted entry balances.\<close>

definition entryOk :: "'z ledger_scheme \<Rightarrow> journal_entry \<Rightarrow> bool" where
  "entryOk db e \<longleftrightarrow> (je_posted e \<longleftrightarrow> je_status e \<noteq> DRAFT) \<and>
     (je_status e = CLOSED \<longleftrightarrow> periodClosed (je_companyId e) (je_period e) db) \<and>
     (je_posted e \<longrightarrow> balanced (je_lines e))"

definition ledgerInv :: "'z ledger_scheme \<Rightarrow> bool" where
  "ledgerInv db \<longleftrightarrow> sorted_wrt (\<lambda>e f. \<not> entryClash e f) (entries db) \<and> (\<forall>e \<in> set (entries db). entryOk db e)"

lemma entryClash_sym: "entryClash e f = entryClash f e"
  unfolding entryClash_def sameKey_def by metis

lemma insertEntry_InrD:
  "insertEntry e db = Inr db' \<Longrightarrow>
     db' = db\<lparr>entries := entries db @ [e]\<rparr> \<and> (\<forall>f \<in> set (entries db). \<not> entryClash f e)"
  by (auto simp: insertEntry_def list_ex_iff entryClash_sym split: if_splits)

lemma periodClosed_frame:
  "periods db' = periods db \<Longrightarrow> periodClosed c p db' = periodClosed c p db"
  by (simp add: periodClosed_def findPeriod_def)

lemma ledgerInv_frame:
  "ledgerInv db \<Longrightarrow> entries db' = entries db \<Longrightarrow> periods db' = periods db \<Longrightarrow> ledgerInv db'"
  by (simp add: ledgerInv_def entryOk_def periodClosed_def findPeriod_def)

lemma entryOk_frame: "periods db' = periods db \<Longrightarrow> entryOk db' e = entryOk db e"
  by (simp add: entryOk_def periodClosed_def findPeriod_def)

lemma ledgerInv_insert:
  assumes "ledgerInv db" "insertEntry e db = Inr db'" "entryOk db e"
  shows "ledgerInv db'"
proof -
  have db': "db' = db\<lparr>entries := entries db @ [e]\<rparr>" and nc: "\<forall>f \<in> set (entries db). \<not> entryClash f e"
    using insertEntry_InrD[OF assms(2)] by auto
  have ok: "entryOk db' f = entryOk db f" for f by (rule entryOk_frame) (simp add: db')
  have es: "entries db' = entries db @ [e]" by (simp add: db')
  show ?thesis unfolding ledgerInv_def es ok using assms(1,3) nc by (simp add: ledgerInv_def sorted_wrt_append)
qed

lemma ledgerInv_update:
  assumes inv: "ledgerInv db"
    and keys: "\<And>e. P e \<Longrightarrow> je_id (f e) = je_id e \<and> je_companyId (f e) = je_companyId e \<and>
      je_number (f e) = je_number e \<and> je_reversalOfEntryId (f e) = je_reversalOfEntryId e"
    and db': "entries db' = updateWhere P f (entries db)"
    and ok: "\<And>e. e \<in> set (entries db) \<Longrightarrow> entryOk db e \<Longrightarrow> entryOk db' (if P e then f e else e)"
  shows "ledgerInv db'"
proof -
  have "entryClash (if P a then f a else a) (if P b then f b else b) = entryClash a b" for a b
    using keys[of a] keys[of b] by (auto simp: entryClash_def)
  then have "sorted_wrt (\<lambda>e f. \<not> entryClash e f) (entries db')"
    using inv by (simp add: ledgerInv_def db' updateWhere_def sorted_wrt_map)
  moreover have "entryOk db' (if P e then f e else e)" if "e \<in> set (entries db)" for e
    using inv ok[OF that] that by (simp add: ledgerInv_def)
  then have "\<forall>e \<in> set (entries db'). entryOk db' e"
    unfolding db' updateWhere_set by blast
  ultimately show ?thesis by (simp add: ledgerInv_def)
qed

lemma ledgerInv_ids_unique:
  assumes "ledgerInv db" "e \<in> set (entries db)" "f \<in> set (entries db)" "je_id e = je_id f"
  shows "e = f"
proof (rule ccontr)
  assume "e \<noteq> f"
  then obtain i j where ij: "i < length (entries db)" "j < length (entries db)" "i \<noteq> j"
      "entries db ! i = e" "entries db ! j = f"
    using assms(2,3) by (metis in_set_conv_nth)
  then have "\<not> entryClash (entries db ! min i j) (entries db ! max i j)"
    using assms(1) unfolding ledgerInv_def sorted_wrt_iff_nth_less by (metis linorder_neqE_nat max.strict_order_iff max_def min_def)
  then show False using ij assms(4) by (auto simp: entryClash_def min_def max_def split: if_splits)
qed

lemma findEntry_SomeD:
  "findEntry c i db = Some e \<Longrightarrow> e \<in> set (entries db) \<and> je_id e = i \<and> je_companyId e = c"
  by (auto simp: findEntry_def dest: find_SomeD)

subsection \<open>Storno lines\<close>

definition swapLine :: "journal_line \<Rightarrow> journal_line" where
  "swapLine l = l\<lparr>jl_debit := jl_credit l, jl_credit := jl_debit l\<rparr>"

lemma sum_abs_ge_member: "n \<in> set ns \<Longrightarrow> \<bar>n :: int\<bar> \<le> (\<Sum>m\<leftarrow>ns. \<bar>m\<bar>)"
proof (induction ns)
  case (Cons a ns)
  then show ?case using cent.sum_abs_nonneg[of ns] by auto
qed simp

lemma small_line_bound:
  assumes "small ls" "l \<in> set ls" shows "\<bar>jl_debit l\<bar> < 2 ^ 45" "\<bar>jl_credit l\<bar> < 2 ^ 45"
proof -
  have gen: "\<bar>g l\<bar> < 2 ^ 45" if b: "int (length ls) * (1 + (\<Sum>l\<leftarrow>ls. \<bar>g l\<bar>)) \<le> 2 ^ 45" for g :: "journal_line \<Rightarrow> int"
  proof -
    have m: "\<bar>g l\<bar> \<le> (\<Sum>l\<leftarrow>ls. \<bar>g l\<bar>)" using sum_abs_ge_member[of "g l" "map g ls"] assms(2) by (simp add: comp_def)
    have "ls \<noteq> []" using assms(2) by auto
    then have "1 * (1 + (\<Sum>l\<leftarrow>ls. \<bar>g l\<bar>)) \<le> int (length ls) * (1 + (\<Sum>l\<leftarrow>ls. \<bar>g l\<bar>))"
      using m by (intro mult_right_mono) (auto simp: Suc_le_eq)
    then show ?thesis using b m by simp
  qed
  show "\<bar>jl_debit l\<bar> < 2 ^ 45" "\<bar>jl_credit l\<bar> < 2 ^ 45"
    using assms(1) gen[of jl_debit] gen[of jl_credit] by (simp_all add: small_def)
qed

text \<open>The lines of a storno entry swap the sides of the source, as long as they are small.\<close>

definition stornoLines :: "store \<Rightarrow> journal_line list \<Rightarrow> journal_line list" where
  "stornoLines st ls = map (\<lambda>l. storeLine st (jl_accountId l)
     (snd (lineAmounts l)) (fst (lineAmounts l)) (jl_explanation l)) ls"

lemma stornoLines_swap:
  assumes st: "exact_store st" and small: "small (stornoLines st ls)"
  shows "stornoLines st ls = map swapLine ls"
  unfolding stornoLines_def
proof (rule map_cong[OF refl])
  fix l assume l: "l \<in> set ls"
  let ?s = "storeLine st (jl_accountId l) (snd (lineAmounts l)) (fst (lineAmounts l)) (jl_explanation l)"
  have "?s \<in> set (stornoLines st ls)" using l by (auto simp: stornoLines_def)
  from small_line_bound[OF small this]
  have "\<bar>st 100 (cents (jl_credit l))\<bar> < 2 ^ 45" "\<bar>st 100 (cents (jl_debit l))\<bar> < 2 ^ 45"
    by (simp_all add: storeLine_def lineAmounts_cents)
  then show "?s = swapLine l"
    using exact_store_small[OF st] by (simp add: storeLine_def swapLine_def lineAmounts_cents)
qed

lemma swap_totals:
  "debits (map swapLine ls) = credits ls" "credits (map swapLine ls) = debits ls"
  "small (map swapLine ls) = small ls"
  by (auto simp: debits_def credits_def swapLine_def small_def comp_def)

lemma stornoLines_balanced:
  assumes "exact_store st" "balanced ls" shows "balanced (stornoLines st ls)"
proof (cases "small (stornoLines st ls)")
  case True
  then have eq: "stornoLines st ls = map swapLine ls" by (rule stornoLines_swap[OF assms(1)])
  show ?thesis using assms(2) unfolding eq by (auto simp: balanced_def swap_totals)
qed (simp add: balanced_def)

section \<open>Every route keeps the invariant\<close>

lemma assertPeriodOpen_Inr [simp]: "assertPeriodOpen c p db = Inr x \<longleftrightarrow> \<not> periodClosed c p db"
  by (simp add: assertPeriodOpen_def)

lemma ledgerInv_cong:
  "entries db' = entries db \<Longrightarrow> periods db' = periods db \<Longrightarrow> ledgerInv db' = ledgerInv db"
  by (simp add: ledgerInv_def entryOk_def periodClosed_def findPeriod_def)

lemma audit_inv [simp]:
  "ledgerInv (invalidateFinancialStatementsCache db) = ledgerInv db"
  "ledgerInv (writeAudit u t r a x db) = ledgerInv db"
  by (rule ledgerInv_cong; simp)+

lemma createEntry_InrD:
  assumes "createEntry env u r db = Inr (e, db')"
  shows "createEntrySchema r" "validateDoubleEntry (map (\<lambda>l. (li_debit l, li_credit l)) (ce_lines r)) = Inr ()"
    "je_companyId e = act_company u" "je_status e = DRAFT" "\<not> je_posted e" "je_reversalOfEntryId e = None"
    "\<not> periodClosed (act_company u) (je_period e) db"
    "je_number e = Some (nextJournalEntryNumber (act_company u) (je_date e) db)"
    "\<exists>db1. insertEntry e db = Inr db1 \<and> db' = invalidateFinancialStatementsCache
       (writeAudit u ''journal_entries'' (Some (je_id e)) ''CREATE'' (ce_reason r) db1)"
  using assms by (auto simp: createEntry_def Let_def bindR_eq_Inr split: if_splits)

lemma createEntry_inv:
  assumes "ledgerInv db" "createEntry env u r db = Inr (e, db')" shows "ledgerInv db'"
proof -
  note d = createEntry_InrD[OF assms(2)]
  obtain db1 where db1: "insertEntry e db = Inr db1" "ledgerInv db' = ledgerInv db1" using d(9) by auto
  have "entryOk db e" using d by (simp add: entryOk_def)
  then show ?thesis using ledgerInv_insert[OF assms(1) db1(1)] db1(2) by simp
qed

lemma validateEntry_InrD:
  assumes "validateEntry u i reason db = Inr (e, db')"
  obtains old where "findEntry (act_company u) i db = Some old" "je_status old = DRAFT"
    "validateDoubleEntry (map lineAmounts (je_lines old)) = Inr ()"
    "\<not> periodClosed (act_company u) (je_period old) db"
    "e = old\<lparr>je_status := VALIDATED, je_posted := True\<rparr>"
    "entries db' = updateWhere (\<lambda>f. je_id f = je_id old) (\<lambda>f. f\<lparr>je_status := VALIDATED, je_posted := True\<rparr>) (entries db)"
    "periods db' = periods db"
  using assms by (auto simp: validateEntry_def Let_def bindR_eq_Inr split: if_splits option.splits)

lemma validateEntry_inv:
  assumes inv: "ledgerInv db" and v: "validateEntry u i reason db = Inr (e, db')" shows "ledgerInv db'"
proof -
  obtain old where old: "findEntry (act_company u) i db = Some old" "je_status old = DRAFT"
    "validateDoubleEntry (map lineAmounts (je_lines old)) = Inr ()"
    "\<not> periodClosed (act_company u) (je_period old) db"
    and es: "entries db' = updateWhere (\<lambda>f. je_id f = je_id old) (\<lambda>f. f\<lparr>je_status := VALIDATED, je_posted := True\<rparr>) (entries db)"
    and ps: "periods db' = periods db"
    using v by (rule validateEntry_InrD)
  note mem = findEntry_SomeD[OF old(1)]
  have bal: "balanced (je_lines old)"
    using old(3) validateDoubleEntry_doubleEntry[of "je_lines old"] by (auto simp: balanced_def doubleEntry_def)
  show ?thesis
  proof (rule ledgerInv_update[OF inv _ es])
    fix f assume f: "f \<in> set (entries db)" "entryOk db f"
    have "f = old" if "je_id f = je_id old" using ledgerInv_ids_unique[OF inv f(1)] mem that by auto
    then show "entryOk db' (if je_id f = je_id old then f\<lparr>je_status := VALIDATED, je_posted := True\<rparr> else f)"
      using f(2) old(4) mem bal unfolding entryOk_frame[OF ps] by (auto simp: entryOk_def)
  qed auto
qed

lemma stornoEntry_InrD:
  assumes "stornoEntry env u i r db = Inr (e, db')"
  obtains src where "findEntry (act_company u) i db = Some src" "je_status src \<noteq> DRAFT"
    "je_reversalOfEntryId src = None"
    "\<forall>f \<in> set (entries db). je_companyId f = act_company u \<longrightarrow> je_reversalOfEntryId f \<noteq> Some (je_id src)"
    "\<not> periodClosed (act_company u) (je_period e) db"
    "je_companyId e = act_company u" "je_status e = VALIDATED" "je_posted e"
    "je_reversalOfEntryId e = Some (je_id src)" "je_lines e = stornoLines (storeDec env) (je_lines src)"
    "je_number e = Some (nextJournalEntryNumber (act_company u) (je_date e) db)"
    "\<exists>db1. insertEntry e db = Inr db1 \<and> db' = invalidateFinancialStatementsCache
       (writeAudit u ''journal_entries'' (Some (je_id e)) ''STORNO'' (sr_reason r) db1)"
  using assms by (auto simp: stornoEntry_def Let_def bindR_eq_Inr stornoLines_def list_ex_iff split: if_splits option.splits)

lemma stornoEntry_inv:
  assumes st: "exact_store (storeDec env)" and inv: "ledgerInv db" and s: "stornoEntry env u i r db = Inr (e, db')"
  shows "ledgerInv db'"
proof -
  obtain src db1 where src: "findEntry (act_company u) i db = Some src" "je_status src \<noteq> DRAFT"
    and e: "\<not> periodClosed (act_company u) (je_period e) db" "je_companyId e = act_company u"
      "je_status e = VALIDATED" "je_posted e" "je_lines e = stornoLines (storeDec env) (je_lines src)"
    and db1: "insertEntry e db = Inr db1" "ledgerInv db' = ledgerInv db1"
    using s by (rule stornoEntry_InrD) auto
  have "entryOk db src" using inv findEntry_SomeD[OF src(1)] by (simp add: ledgerInv_def)
  then have "balanced (je_lines src)" using src(2) by (simp add: entryOk_def)
  then have "entryOk db e" using e stornoLines_balanced[OF st] by (simp add: entryOk_def)
  then show ?thesis using ledgerInv_insert[OF inv db1(1)] db1(2) by simp
qed

subsection \<open>Closing and reopening\<close>

lemma find_updateWhere_key:
  assumes "\<And>r. key r = k \<Longrightarrow> key (f r) = k"
  shows "find (\<lambda>r. key r = j) (updateWhere (\<lambda>r. key r = k) f rows) =
    map_option (\<lambda>r. if key r = k then f r else r) (find (\<lambda>r. key r = j) rows)"
  using assms by (induction rows) auto

lemma find_append: "find P (xs @ ys) = (case find P xs of None \<Rightarrow> find P ys | Some x \<Rightarrow> Some x)"
  by (induction xs) auto

lemma upsertPeriod_closed:
  assumes "upsertPeriod row db = Inr db'"
  shows "periodClosed c p db' =
    (if p_companyId row = c \<and> p_period row = p then p_status row = PERIOD_CLOSED else periodClosed c p db)"
    and "entries db' = entries db"
proof -
  let ?key = "\<lambda>r :: accounting_period. (p_companyId r, p_period r)"
  have k: "(\<lambda>r. p_companyId r = a \<and> p_period r = b) = (\<lambda>r. ?key r = (a, b))" for a b
    by auto
  have fp: "findPeriod a b d = find (\<lambda>r. ?key r = (a, b)) (periods d)" for a b and d :: "'a ledger_scheme"
    by (simp only: findPeriod_def k)
  show "periodClosed c p db' =
    (if p_companyId row = c \<and> p_period row = p then p_status row = PERIOD_CLOSED else periodClosed c p db)"
  proof (cases "findPeriod (p_companyId row) (p_period row) db")
    case None
    then have db': "periods db' = periods db @ [row]" using assms by (auto simp: upsertPeriod_def split: if_splits)
    show ?thesis using None unfolding periodClosed_def fp db' find_append by (auto split: option.splits)
  next
    case (Some old)
    define upd where "upd r = row\<lparr>p_id := p_id r, p_notes := (case p_notes row of None \<Rightarrow> p_notes r | Some n \<Rightarrow> Some n)\<rparr>" for r :: accounting_period
    have "periods db' = updateWhere (\<lambda>r. p_companyId r = p_companyId row \<and> p_period r = p_period row) upd (periods db)"
      using assms Some by (auto simp: upsertPeriod_def upd_def[abs_def])
    then have db': "periods db' = updateWhere (\<lambda>r. ?key r = ?key row) upd (periods db)" by (simp only: k)
    have ku: "\<And>r. ?key r = ?key row \<Longrightarrow> ?key (upd r) = ?key row" by (simp add: upd_def)
    have row: "find (\<lambda>r. ?key r = ?key row) (periods db) = Some old" using Some by (simp add: fp)
    have ko: "?key old = ?key row" using find_SomeD[OF row] by simp
    show ?thesis
    proof (cases "?key row = (c, p)")
      case True
      have "find (\<lambda>r. ?key r = (c, p)) (periods db') = Some (upd old)"
        by (simp only: db' True[symmetric] find_updateWhere_key[where key = ?key, OF ku] row option.map ko simp_thms if_True)
      then show ?thesis using True by (simp add: periodClosed_def fp upd_def)
    next
      case False
      have "find (\<lambda>r. ?key r = (c, p)) (periods db') =
          map_option (\<lambda>r. if ?key r = ?key row then upd r else r) (find (\<lambda>r. ?key r = (c, p)) (periods db))"
        by (simp only: db' find_updateWhere_key[where key = ?key, OF ku])
      also have "\<dots> = find (\<lambda>r. ?key r = (c, p)) (periods db)"
        using False by (cases "find (\<lambda>r. ?key r = (c, p)) (periods db)") (auto dest: find_SomeD)
      finally have "periodClosed c p db' = periodClosed c p db" by (simp only: periodClosed_def fp)
      with False show ?thesis by auto
    qed
  qed
  show "entries db' = entries db" using assms by (auto simp: upsertPeriod_def split: option.splits if_splits)
qed

lemma setStatusWhere_tables [simp, table_simps]:
  "periods (setStatusWhere c p old new db) = periods db"
  "entries (setStatusWhere c p old new db) =
     updateWhere (\<lambda>e. je_companyId e = c \<and> je_period e = p \<and> je_status e = old) (\<lambda>e. e\<lparr>je_status := new\<rparr>) (entries db)"
  by (simp_all add: setStatusWhere_def)

lemma closePeriod_InrD:
  assumes "closePeriod env u p notes reason db = Inr db'"
  obtains db1 where "\<forall>e \<in> set (entries db). je_companyId e = act_company u \<and> je_period e = p \<longrightarrow> je_status e \<noteq> DRAFT"
    "upsertPeriod \<lparr> p_id = uuid env 0, p_companyId = act_company u, p_period = p,
               p_status = PERIOD_CLOSED, p_closedAt = Some (now env), p_closedById = Some (act_user u),
               p_notes = notes \<rparr> db = Inr db1"
    "periods db' = periods db1"
    "entries db' = entries (setStatusWhere (act_company u) p VALIDATED CLOSED db1)"
  using assms by (auto simp: closePeriod_def bindR_eq_Inr list_ex_iff split: if_splits)

lemma reopenPeriod_InrD:
  assumes "reopenPeriod env u p notes reason db = Inr db'"
  obtains db1 where
    "upsertPeriod \<lparr> p_id = uuid env 0, p_companyId = act_company u, p_period = p,
               p_status = PERIOD_OPEN, p_closedAt = None, p_closedById = None, p_notes = notes \<rparr> db = Inr db1"
    "periods db' = periods db1"
    "entries db' = entries (setStatusWhere (act_company u) p CLOSED VALIDATED db1)"
  using assms by (auto simp: reopenPeriod_def bindR_eq_Inr split: if_splits)

lemma closePeriod_inv:
  assumes inv: "ledgerInv db" and c: "closePeriod env u p notes reason db = Inr db'" shows "ledgerInv db'"
proof -
  obtain db1 where nd: "\<forall>e \<in> set (entries db). je_companyId e = act_company u \<and> je_period e = p \<longrightarrow> je_status e \<noteq> DRAFT"
    and up: "upsertPeriod \<lparr> p_id = uuid env 0, p_companyId = act_company u, p_period = p,
               p_status = PERIOD_CLOSED, p_closedAt = Some (now env), p_closedById = Some (act_user u),
               p_notes = notes \<rparr> db = Inr db1" (is "upsertPeriod ?row db = _")
    and ps: "periods db' = periods db1" and es: "entries db' = entries (setStatusWhere (act_company u) p VALIDATED CLOSED db1)"
    using c by (rule closePeriod_InrD)
  note pc = upsertPeriod_closed[OF up]
  have es': "entries db' = updateWhere (\<lambda>e. je_companyId e = act_company u \<and> je_period e = p \<and> je_status e = VALIDATED)
      (\<lambda>e. e\<lparr>je_status := CLOSED\<rparr>) (entries db)" using es pc(2) by simp
  have cl: "periodClosed a b db' = (if act_company u = a \<and> p = b then True else periodClosed a b db)" for a b
    using pc(1)[of a b] periodClosed_frame[OF ps, of a b] by simp
  show ?thesis
  proof (rule ledgerInv_update[OF inv _ es'])
    fix e assume e: "e \<in> set (entries db)" "entryOk db e"
    with nd show "entryOk db' (if je_companyId e = act_company u \<and> je_period e = p \<and> je_status e = VALIDATED then e\<lparr>je_status := CLOSED\<rparr> else e)"
      by (cases "je_status e") (auto simp: entryOk_def cl)
  qed auto
qed

lemma reopenPeriod_inv:
  assumes inv: "ledgerInv db" and c: "reopenPeriod env u p notes reason db = Inr db'" shows "ledgerInv db'"
proof -
  obtain db1 where up: "upsertPeriod \<lparr> p_id = uuid env 0, p_companyId = act_company u, p_period = p,
               p_status = PERIOD_OPEN, p_closedAt = None, p_closedById = None, p_notes = notes \<rparr> db = Inr db1"
    and ps: "periods db' = periods db1" and es: "entries db' = entries (setStatusWhere (act_company u) p CLOSED VALIDATED db1)"
    using c by (rule reopenPeriod_InrD)
  note pc = upsertPeriod_closed[OF up]
  have es': "entries db' = updateWhere (\<lambda>e. je_companyId e = act_company u \<and> je_period e = p \<and> je_status e = CLOSED)
      (\<lambda>e. e\<lparr>je_status := VALIDATED\<rparr>) (entries db)" using es pc(2) by simp
  have cl: "periodClosed a b db' = (if act_company u = a \<and> p = b then False else periodClosed a b db)" for a b
    using pc(1)[of a b] periodClosed_frame[OF ps, of a b] by simp
  show ?thesis
  proof (rule ledgerInv_update[OF inv _ es'])
    fix e assume e: "e \<in> set (entries db)" "entryOk db e"
    then show "entryOk db' (if je_companyId e = act_company u \<and> je_period e = p \<and> je_status e = CLOSED then e\<lparr>je_status := VALIDATED\<rparr> else e)"
      by (cases "je_status e") (auto simp: entryOk_def cl)
  qed auto
qed

end
