(* ===== verification/EntryNumbers.thy ===== *)
theory EntryNumbers
  imports Ledger
begin

text \<open>
  The numbers of the journal entries (lib/journal-entry-number.ts). The next number is one more than
  the greatest string with the prefix of the year, and strings order like numbers only while they
  have the same length: the numbers are fresh as long as the sequence fits its six digits, and
  once a seventh digit appears every later create of that year clashes.
\<close>

definition yearPrefix :: "int \<Rightarrow> string" where
  "yearPrefix year = ''NC-'' @ showInt year @ ''-''"

definition padSeq :: "nat \<Rightarrow> string" where
  "padSeq s = padStart 6 (CHR ''0'') (showNat s)"

lemma format_prefix: "formatJournalEntryNumber y s = yearPrefix y @ padSeq s"
  by (simp add: formatJournalEntryNumber_def yearPrefix_def padSeq_def)

lemma padSeq_digits: "\<forall>c \<in> set (padSeq s). isDigit c"
  using showNat_digits[of s] by (auto simp: padSeq_def padStart_def isDigit_def code_def)

lemma padSeq_nonempty [simp]: "padSeq s \<noteq> []"
  by (simp add: padSeq_def padStart_def)

lemma readNat_padSeq [simp]: "readNat (padSeq s) = s"
  by (simp add: padSeq_def)

lemma padSeq_inj [simp]: "padSeq s = padSeq t \<longleftrightarrow> s = t"
  by (metis readNat_padSeq)

lemma format_inj [simp]: "formatJournalEntryNumber y s = formatJournalEntryNumber y t \<longleftrightarrow> s = t"
  by (simp add: format_prefix)

lemma companyNumbers_mem:
  "n \<in> set (companyNumbers c db) \<longleftrightarrow> (\<exists>e \<in> set (entries db). je_companyId e = c \<and> je_number e = Some n)"
  by (force simp: companyNumbers_def map_filter_def)

lemma length_padSeq: "s \<le> 999999 \<Longrightarrow> length (padSeq s) = 6"
  using length_showNat_padded[of 6 s] by (simp add: padSeq_def)

lemma padSeq_less: "s \<le> 999999 \<Longrightarrow> t \<le> 999999 \<Longrightarrow> stringLess (padSeq s) (padSeq t) \<longleftrightarrow> s < t"
  using stringLess_digits[of "padSeq s" "padSeq t"] padSeq_digits by (simp add: length_padSeq)

lemma parseInt10_digits:
  assumes "\<forall>c \<in> set s. isDigit c" "s \<noteq> []" shows "parseInt10 s = Some (int (readNat s))"
proof -
  obtain c u where s: "s = c # u" using assms(2) by (cases s) auto
  have d: "isDigit c" using assms(1) s by simp
  then have "\<not> isSpace c" "c \<noteq> CHR ''-''" "c \<noteq> CHR ''+''" by (auto simp: isDigit_def isSpace_def code_def)
  then have t: "trimStart s = s" by (simp add: trimStart_def s)
  have tw: "takeWhile isDigit u = u" using assms(1) s by (intro takeWhile_eq_all_conv[THEN iffD2]) simp
  show ?thesis using \<open>c \<noteq> CHR ''-''\<close> \<open>c \<noteq> CHR ''+''\<close> d
    unfolding parseInt10_def t by (simp add: s Let_def tw)
qed

lemma digits_no_dash: "\<forall>c \<in> set s. isDigit c \<Longrightarrow> CHR ''-'' \<notin> set s"
  by (auto simp: isDigit_def code_def)

lemma split_format:
  assumes "0 \<le> y"
  shows "split (CHR ''-'') (formatJournalEntryNumber y s) = [''NC'', showInt y, padSeq s]"
proof -
  have y: "CHR ''-'' \<notin> set (showInt y)" using assms digits_no_dash[OF showNat_digits] by (simp add: showInt_def)
  have "formatJournalEntryNumber y s = ''NC'' @ CHR ''-'' # showInt y @ CHR ''-'' # padSeq s"
    by (simp add: format_prefix yearPrefix_def)
  then show ?thesis using y digits_no_dash[OF padSeq_digits] by (simp add: split_append split_no_sep)
qed

lemma lastSequence_format:
  assumes "0 \<le> y" shows "lastSequence (Some (formatJournalEntryNumber y s)) = s"
  unfolding lastSequence_def using split_format[OF assms, of s]
  by (simp add: parseInt10_digits[OF padSeq_digits]) (simp add: format_prefix yearPrefix_def)

section \<open>The greatest string\<close>

lemma stringLess_irrefl [simp]: "\<not> stringLess s s"
  by (induction s) auto

lemma stringLess_trans: "stringLess s t \<Longrightarrow> stringLess t u \<Longrightarrow> stringLess s u"
proof (induction s u arbitrary: t rule: stringLess.induct)
  case (3 b s c u)
  then obtain d t' where t: "t = d # t'" by (cases t) auto
  show ?case using 3 t by auto
next
  case (2 c t) then show ?case by simp
qed auto

lemma stringLess_total: "s = t \<or> stringLess s t \<or> stringLess t s"
proof (induction s t rule: stringLess.induct)
  case (1 s) then show ?case by (cases s) auto
next
  case (3 b s c t)
  consider "code b < code c" | "code c < code b" | "b = c" using code_inj linorder_neqE_nat by blast
  then show ?case using 3 by cases auto
qed auto

lemma maxString_None [simp]: "maxString ss = None \<longleftrightarrow> ss = []"
  by (cases ss) (auto split: option.splits)

lemma maxString_Some:
  "maxString ss = Some m \<Longrightarrow> m \<in> set ss \<and> (\<forall>s \<in> set ss. \<not> stringLess m s)"
proof (induction ss arbitrary: m)
  case (Cons s ss)
  show ?case
  proof (cases "maxString ss")
    case None then show ?thesis using Cons.prems by simp
  next
    case (Some t)
    note t = Cons.IH[OF Some]
    show ?thesis
    proof (cases "stringLess s t")
      case True then show ?thesis using Cons.prems Some t stringLess_trans by fastforce
    next
      case False
      have "\<not> stringLess s u" if "u \<in> set ss" for u
        using False t that stringLess_total[of t u] stringLess_trans[of s u t] by auto
      then show ?thesis using False Cons.prems Some t by simp
    qed
  qed
qed simp

section \<open>Numbers within six digits\<close>

text \<open>Every number of the company with the prefix of the year is one this module gave, in six digits.\<close>

definition wellNumbered :: "id \<Rightarrow> int \<Rightarrow> 'z ledger_scheme \<Rightarrow> bool" where
  "wellNumbered c y db \<longleftrightarrow> (\<forall>n \<in> set (companyNumbers c db). startsWith n (yearPrefix y) \<longrightarrow>
     (\<exists>s. s \<le> 999999 \<and> n = formatJournalEntryNumber y s))"

definition usedNumbers :: "id \<Rightarrow> int \<Rightarrow> 'z ledger_scheme \<Rightarrow> nat set" where
  "usedNumbers c y db = {s. formatJournalEntryNumber y s \<in> set (companyNumbers c db)}"

lemma usedNumbers_finite [simp]: "finite (usedNumbers c y db)"
proof -
  have "inj_on (formatJournalEntryNumber y) (usedNumbers c y db)" by (rule inj_onI) (simp add: format_prefix)
  moreover have "formatJournalEntryNumber y ` usedNumbers c y db \<subseteq> set (companyNumbers c db)"
    by (auto simp: usedNumbers_def)
  ultimately show ?thesis using finite_imageD finite_subset by blast
qed

lemma next_number_max:
  assumes wn: "wellNumbered c (getUTCFullYear d) db" and y: "0 \<le> getUTCFullYear d"
  shows "nextJournalEntryNumber c d db =
    formatJournalEntryNumber (getUTCFullYear d) (Suc (Max (insert 0 (usedNumbers c (getUTCFullYear d) db))))"
proof -
  let ?y = "getUTCFullYear d"
  let ?ns = "filter (\<lambda>n. startsWith n (yearPrefix ?y)) (companyNumbers c db)"
  let ?U = "usedNumbers c ?y db"
  have ns: "set ?ns = formatJournalEntryNumber ?y ` ?U" and small: "\<And>s. s \<in> ?U \<Longrightarrow> s \<le> 999999"
    using wn unfolding wellNumbered_def usedNumbers_def by (auto simp: format_prefix) 
  have "lastSequence (maxString ?ns) = Max (insert 0 ?U)"
  proof (cases "maxString ?ns")
    case None
    then have "?U = {}" using ns by (metis image_is_empty list.set(1) maxString_None)
    then show ?thesis using None by (simp add: lastSequence_def)
  next
    case (Some m)
    then obtain s where s: "m = formatJournalEntryNumber ?y s" "s \<in> ?U" using maxString_Some[OF Some] ns by auto
    have "t \<le> s" if "t \<in> ?U" for t
    proof -
      have "formatJournalEntryNumber ?y t \<in> set ?ns" using that ns by blast
      then have "\<not> stringLess (formatJournalEntryNumber ?y s) (formatJournalEntryNumber ?y t)"
        using maxString_Some[OF Some] s by auto
      then have "\<not> stringLess (padSeq s) (padSeq t)" by (simp add: format_prefix)
      then show ?thesis using padSeq_less[OF small[OF s(2)] small[OF that]] by simp
    qed
    then have "Max (insert 0 ?U) = s" using s(2) by (intro Max_eqI) auto
    then show ?thesis using Some s lastSequence_format[OF y] by simp
  qed
  then show ?thesis by (simp add: nextJournalEntryNumber_def yearPrefix_def Let_def)
qed

lemma next_number_fresh:
  assumes "wellNumbered c (getUTCFullYear d) db" "0 \<le> getUTCFullYear d"
  shows "nextJournalEntryNumber c d db \<notin> set (companyNumbers c db)"
proof
  let ?U = "usedNumbers c (getUTCFullYear d) db"
  assume "nextJournalEntryNumber c d db \<in> set (companyNumbers c db)"
  then have "Suc (Max (insert 0 ?U)) \<in> ?U" using next_number_max[OF assms] by (simp add: usedNumbers_def)
  then have "Suc (Max (insert 0 ?U)) \<le> Max (insert 0 ?U)" by (intro Max_ge) auto
  then show False by simp
qed

section \<open>The seventh digit\<close>

text \<open>Once 999999 and 1000000 are both taken, the greatest string is the first of them for ever.\<close>

lemma next_number_stuck:
  assumes y: "0 \<le> getUTCFullYear d"
    and all: "\<forall>n \<in> set (companyNumbers c db). startsWith n (yearPrefix (getUTCFullYear d)) \<longrightarrow>
       (\<exists>s. s \<le> 1000000 \<and> n = formatJournalEntryNumber (getUTCFullYear d) s)"
    and last: "formatJournalEntryNumber (getUTCFullYear d) 999999 \<in> set (companyNumbers c db)"
  shows "nextJournalEntryNumber c d db = formatJournalEntryNumber (getUTCFullYear d) 1000000"
proof -
  let ?y = "getUTCFullYear d"
  let ?ns = "filter (\<lambda>n. startsWith n (yearPrefix ?y)) (companyNumbers c db)"
  have mem: "formatJournalEntryNumber ?y 999999 \<in> set ?ns" using last by (simp add: format_prefix)
  then obtain m where m: "maxString ?ns = Some m" by (metis list.set(1) empty_iff maxString_None not_None_eq)
  then obtain s where s: "m = formatJournalEntryNumber ?y s" "s \<le> 1000000" using maxString_Some[OF m] all by auto
  have ge: "\<not> stringLess (padSeq s) (padSeq 999999)" using maxString_Some[OF m] mem s by (auto simp: format_prefix)
  have "stringLess (padSeq 1000000) (padSeq 999999)"
    by (simp add: padSeq_def padStart_def showNat.simps code_digitChar del: code_inj)
  then have "s \<noteq> 1000000" using ge by auto
  then have "s \<le> 999999" using s(2) by simp
  then have "s = 999999" using ge padSeq_less[of s 999999] by simp
  then show ?thesis using m s lastSequence_format[OF y, of s]
    by (simp add: nextJournalEntryNumber_def yearPrefix_def Let_def)
qed


section \<open>Properties\<close>

text \<open>While the numbers of a year stay within six digits, the next number of a company is one
  more than the greatest sequence it has used that year, and it is not taken.\<close>

lemma next_number:
  assumes "wellNumbered c (getUTCFullYear d) db" "0 \<le> getUTCFullYear d"
  shows "nextJournalEntryNumber c d db =
      formatJournalEntryNumber (getUTCFullYear d) (Suc (Max (insert 0 (usedNumbers c (getUTCFullYear d) db)))) \<and>
    nextJournalEntryNumber c d db \<notin> set (companyNumbers c db)"
  using next_number_max[OF assms] next_number_fresh[OF assms] by simp

definition numberedLedger :: "nat list \<Rightarrow> ledger" where
  "numberedLedger ns = \<lparr> accounts = [], periods = [], entries = map (\<lambda>n. \<lparr> je_id = showNat n, je_companyId = ''c'', je_number = Some (formatJournalEntryNumber 1970 n),
       je_date = 0, je_description = [], je_period = ''1970-01'', je_status = VALIDATED, je_posted = True,
       je_sourceModule = None, je_reversalOfEntryId = None, je_createdById = ''u'', je_lines = [] \<rparr>) ns,
     auditLog = [], fsCache = [] \<rparr>"

lemma numberedLedger_numbers: "companyNumbers ''c'' (numberedLedger ns) = map (formatJournalEntryNumber 1970) ns"
  by (induction ns) (simp_all add: companyNumbers_def numberedLedger_def map_filter_simps)

lemma year_1970: "getUTCFullYear 0 = 1970"
  by code_simp

lemma next_number_example: "nextJournalEntryNumber ''c'' 0 (numberedLedger [1, 41, 7]) = formatJournalEntryNumber 1970 42"
proof -
  have "wellNumbered ''c'' (getUTCFullYear 0) (numberedLedger [1, 41, 7])"
    by (auto simp: wellNumbered_def numberedLedger_numbers year_1970)
  moreover have "usedNumbers ''c'' (getUTCFullYear 0) (numberedLedger [1, 41, 7]) = {1, 41, 7}"
    by (auto simp: usedNumbers_def numberedLedger_numbers year_1970 format_prefix)
  ultimately show ?thesis using next_number[of "''c''" 0 "numberedLedger [1, 41, 7]"] by (simp add: year_1970)
qed

text \<open>The sequence does not survive its seventh digit. Strings are ordered by their characters, so
  once the numbers 999999 and 1000000 of a year are taken the next number is 1000000 for ever, and
  every later creation of an entry of that year is refused as a duplicate.\<close>

lemma next_number_overflow:
  assumes "0 \<le> getUTCFullYear d"
    and "\<forall>n \<in> set (companyNumbers c db). startsWith n (yearPrefix (getUTCFullYear d)) \<longrightarrow>
       (\<exists>s. s \<le> 1000000 \<and> n = formatJournalEntryNumber (getUTCFullYear d) s)"
    and "formatJournalEntryNumber (getUTCFullYear d) 999999 \<in> set (companyNumbers c db)"
    and "formatJournalEntryNumber (getUTCFullYear d) 1000000 \<in> set (companyNumbers c db)"
    and "je_companyId e = c" "je_number e = Some (nextJournalEntryNumber c d db)"
  shows "insertEntry e db = Inl uniqueViolation"
proof -
  have "je_number e \<in> Some ` set (companyNumbers c db)"
    using next_number_stuck[OF assms(1-3)] assms(4,6) by simp
  then obtain f where "f \<in> set (entries db)" "je_companyId f = c" "je_number f = je_number e"
    by (auto simp: companyNumbers_mem)
  then have "list_ex (entryClash e) (entries db)"
    using assms(5,6) by (auto simp: list_ex_iff entryClash_def sameKey_def intro!: bexI[of _ f])
  then show ?thesis by (simp add: insertEntry_def)
qed

lemma next_number_overflow_example:
  "insertEntry (hd (entries (numberedLedger [1000000]))\<lparr>je_id := ''new'',
      je_number := Some (nextJournalEntryNumber ''c'' 0 (numberedLedger [999999, 1000000]))\<rparr>)
    (numberedLedger [999999, 1000000]) = Inl uniqueViolation"
  by (rule next_number_overflow[where c = "''c''" and d = 0])
    (auto simp: numberedLedger_numbers year_1970 numberedLedger_def[of "[1000000]"])

end
