(* ===== verification/LedgerHistory.thy ===== *)
theory LedgerHistory
  imports EntryNumbers
begin

text \<open>
  The ledger over time: the interface its sub-ledgers post through (a locale, interpreted on the
  ledger's own tables), the step relation of the routes, what a step may change in the entries
  already there, and the trial balance.
\<close>

section \<open>The posting interface\<close>

fun forEachR :: "('i \<Rightarrow> 'd \<Rightarrow> 'x + 'd) \<Rightarrow> 'i list \<Rightarrow> 'd \<Rightarrow> 'x + 'd" where
  "forEachR f [] d = Inr d"
| "forEachR f (i # is) d = bindR (f i d) (forEachR f is)"

definition postable :: "journal_entry \<Rightarrow> bool" where
  "postable e \<longleftrightarrow> je_status e = VALIDATED \<and> je_posted e \<and> balanced (je_lines e)"

locale posting_service =
  fixes inv :: "'d \<Rightarrow> bool"
    and closed :: "id \<Rightarrow> string \<Rightarrow> 'd \<Rightarrow> bool"
    and book :: "'d \<Rightarrow> journal_entry list"
    and post :: "journal_entry \<Rightarrow> 'd \<Rightarrow> http_error + 'd"
  assumes post_inv: "inv d \<Longrightarrow> postable e \<Longrightarrow> \<not> closed (je_companyId e) (je_period e) d \<Longrightarrow> post e d = Inr d' \<Longrightarrow> inv d'"
    and post_book: "post e d = Inr d' \<Longrightarrow> book d' = book d @ [e]"
    and post_closed: "post e d = Inr d' \<Longrightarrow> closed c p d' = closed c p d"
    and post_fresh: "post e d = Inr d' \<Longrightarrow> f \<in> set (book d) \<Longrightarrow> \<not> entryClash f e"
begin

text \<open>A loop of postings in one transaction: all of them stand in the book afterwards, in order.\<close>

lemma posts_book: "forEachR post es d = Inr d' \<Longrightarrow> book d' = book d @ es"
  by (induction es arbitrary: d) (auto simp: bindR_eq_Inr dest: post_book)

lemma posts_inv:
  assumes "inv d" "forEachR post es d = Inr d'" "\<forall>e \<in> set es. postable e \<and> \<not> closed (je_companyId e) (je_period e) d"
  shows "inv d'"
  using assms
proof (induction es arbitrary: d)
  case (Cons e es)
  then obtain d1 where d1: "post e d = Inr d1" "forEachR post es d1 = Inr d'" by (auto simp: bindR_eq_Inr)
  have "inv d1" using Cons.prems(1,3) d1(1) by (auto intro: post_inv)
  then show ?case using Cons.IH[OF _ d1(2)] Cons.prems(3) post_closed[OF d1(1)] by simp
qed simp

lemma posts_distinct:
  "distinct (map je_id (book d)) \<Longrightarrow> forEachR post es d = Inr d' \<Longrightarrow> distinct (map je_id (book d'))"
proof (induction es arbitrary: d)
  case (Cons e es)
  then obtain d1 where d1: "post e d = Inr d1" "forEachR post es d1 = Inr d'" by (auto simp: bindR_eq_Inr)
  have "\<forall>f \<in> set (book d). je_id f \<noteq> je_id e" using post_fresh[OF d1(1)] by (simp add: entryClash_def)
  then have "distinct (map je_id (book d1))" using Cons.prems(1) post_book[OF d1(1)] by force
  then show ?case using Cons.IH d1(2) by simp
qed simp

end

interpretation ledger_posting: posting_service ledgerInv periodClosed entries insertEntry
proof unfold_locales
  fix d d' :: "'z ledger_scheme" and e f c p
  assume i: "insertEntry e d = Inr d'"
  note d' = insertEntry_InrD[OF i]
  show "entries d' = entries d @ [e]" using d' by simp
  show "periodClosed c p d' = periodClosed c p d" using d' by (simp add: periodClosed_def findPeriod_def)
  show "ledgerInv d'" if "ledgerInv d" "postable e" "\<not> periodClosed (je_companyId e) (je_period e) d"
    using that by (intro ledgerInv_insert[OF that(1) i]) (simp add: postable_def entryOk_def)
  show "\<not> entryClash f e" if "f \<in> set (entries d)" using d' that by simp
qed

section \<open>The steps of the ledger\<close>

text \<open>A request of the routes that commits, or the posting of another component: into a period the
  component has checked, with lines that balance once stored.\<close>

inductive ledger_step :: "'z ledger_scheme \<Rightarrow> 'z ledger_scheme \<Rightarrow> bool" where
  create: "createEntry env u r db = Inr (e, db') \<Longrightarrow> ledger_step db db'"
| validate: "validateEntry u i reason db = Inr (e, db') \<Longrightarrow> ledger_step db db'"
| storno: "exact_store (storeDec env) \<Longrightarrow> stornoEntry env u i s db = Inr (e, db') \<Longrightarrow> ledger_step db db'"
| close: "closePeriod env u p notes reason db = Inr db' \<Longrightarrow> ledger_step db db'"
| reopen: "reopenPeriod env u p notes reason db = Inr db' \<Longrightarrow> ledger_step db db'"
| post: "\<not> periodClosed (je_companyId e) (je_period e) db \<Longrightarrow> postable e \<Longrightarrow> insertEntry e db = Inr db' \<Longrightarrow> ledger_step db db'"

inductive_cases ledger_stepE: "ledger_step db db'"

abbreviation ledger_reach :: "'z ledger_scheme \<Rightarrow> 'z ledger_scheme \<Rightarrow> bool" where
  "ledger_reach \<equiv> ledger_step\<^sup>*\<^sup>*"

lemma ledger_step_inv: "ledger_step db db' \<Longrightarrow> ledgerInv db \<Longrightarrow> ledgerInv db'"
  by (erule ledger_stepE) (auto intro: createEntry_inv validateEntry_inv stornoEntry_inv closePeriod_inv
      reopenPeriod_inv ledger_posting.post_inv)

lemma ledger_reach_inv: "ledger_reach db db' \<Longrightarrow> ledgerInv db \<Longrightarrow> ledgerInv db'"
  by (induction rule: rtranclp_induct) (auto intro: ledger_step_inv)

lemma ledgerInv_empty: "entries db = [] \<Longrightarrow> ledgerInv db"
  by (simp add: ledgerInv_def)

section \<open>What a step may change\<close>

text \<open>All of an entry but its status, and a status that never goes back to draft.\<close>

definition frozen :: "journal_entry \<Rightarrow> journal_entry" where
  "frozen e = e\<lparr>je_status := DRAFT, je_posted := False\<rparr>"

definition kept :: "journal_entry \<Rightarrow> journal_entry \<Rightarrow> bool" where
  "kept e e' \<longleftrightarrow> frozen e' = frozen e \<and> (je_status e \<noteq> DRAFT \<longrightarrow> je_status e' \<noteq> DRAFT) \<and> (je_posted e \<longrightarrow> je_posted e')"

definition extends :: "journal_entry list \<Rightarrow> journal_entry list \<Rightarrow> bool" where
  "extends es es' \<longleftrightarrow> (\<exists>old new. es' = old @ new \<and> list_all2 kept es old)"

lemma kept_refl [simp]: "kept e e"
  by (simp add: kept_def)

lemma kept_trans: "kept a b \<Longrightarrow> kept b c \<Longrightarrow> kept a c"
  by (simp add: kept_def)

lemma extends_insert: "extends es (es @ new)"
  unfolding extends_def by (metis kept_refl list.rel_refl)

lemma extends_refl [simp]: "extends es es"
  using extends_insert[of es "[]"] by simp

lemma extends_update: "(\<And>e. P e \<Longrightarrow> kept e (f e)) \<Longrightarrow> extends es (updateWhere P f es)"
  unfolding extends_def updateWhere_def
  by (rule exI[of _ "map (\<lambda>e. if P e then f e else e) es"], rule exI[of _ "[]"])
    (simp add: list_all2_map2 list_all2_same)

lemma extends_trans:
  assumes "extends as bs" "extends bs cs" shows "extends as cs"
proof -
  obtain o1 n1 where 1: "bs = o1 @ n1" "list_all2 kept as o1" using assms(1) by (auto simp: extends_def)
  obtain o2 n2 where 2: "cs = o2 @ n2" "list_all2 kept bs o2" using assms(2) by (auto simp: extends_def)
  obtain p q where "o2 = p @ q" "list_all2 kept o1 p" using 2(2) 1(1) by (auto simp: list_all2_append1)
  then have "cs = p @ (q @ n2)" "list_all2 kept as p"
    using 2(1) list_all2_trans[OF kept_trans 1(2)] by auto
  then show ?thesis unfolding extends_def by blast
qed

lemma insertEntry_extends: "insertEntry e db = Inr db' \<Longrightarrow> extends (entries db) (entries db')"
  using insertEntry_InrD[of e db db'] extends_insert[of "entries db" "[e]"] by simp

lemma ledger_step_extends: "ledger_step db db' \<Longrightarrow> extends (entries db) (entries db')"
proof (erule ledger_stepE)
  fix env u r e assume "createEntry env u r db = Inr (e, db')"
  from createEntry_InrD(9)[OF this] show ?thesis by (auto dest: insertEntry_extends)
next
  fix u i reason e assume "validateEntry u i reason db = Inr (e, db')"
  then show ?thesis by (rule validateEntry_InrD) (auto intro!: extends_update simp: kept_def frozen_def)
next
  fix env u i s e assume "stornoEntry env u i s db = Inr (e, db')"
  then show ?thesis by (rule stornoEntry_InrD) (auto dest: insertEntry_extends)
next
  fix env u p ns reason assume "closePeriod env u p ns reason db = Inr db'"
  then show ?thesis by (rule closePeriod_InrD)
      (auto intro!: extends_update simp: kept_def frozen_def upsertPeriod_closed(2))
next
  fix env u p ns reason assume "reopenPeriod env u p ns reason db = Inr db'"
  then show ?thesis by (rule reopenPeriod_InrD)
      (auto intro!: extends_update simp: kept_def frozen_def upsertPeriod_closed(2))
next
  fix e assume "insertEntry e db = Inr db'"
  then show ?thesis by (rule insertEntry_extends)
qed

lemma ledger_reach_extends: "ledger_reach db db' \<Longrightarrow> extends (entries db) (entries db')"
  by (induction rule: rtranclp_induct) (auto intro: extends_trans ledger_step_extends)

section \<open>A closed period\<close>

definition entriesOf :: "id \<Rightarrow> string \<Rightarrow> 'z ledger_scheme \<Rightarrow> journal_entry list" where
  "entriesOf c p db = filter (\<lambda>e. je_companyId e = c \<and> je_period e = p) (entries db)"

lemma entriesOf_update_id:
  assumes es: "entries db' = updateWhere P f (entries db)"
    and keys: "\<And>e. P e \<Longrightarrow> je_companyId (f e) = je_companyId e \<and> je_period (f e) = je_period e"
    and same: "\<And>e. e \<in> set (entries db) \<Longrightarrow> P e \<Longrightarrow> je_companyId e = c \<Longrightarrow> je_period e = p \<Longrightarrow> f e = e"
  shows "entriesOf c p db' = entriesOf c p db"
proof -
  have "filter (\<lambda>e. je_companyId e = c \<and> je_period e = p) (updateWhere P f es) =
      filter (\<lambda>e. je_companyId e = c \<and> je_period e = p) es" if "set es \<subseteq> set (entries db)" for es
    using that keys same by (induction es) auto
  then show ?thesis by (simp add: entriesOf_def es)
qed

lemma entriesOf_insert:
  assumes "insertEntry e db = Inr db1" "entries db' = entries db1" "\<not> (je_companyId e = c \<and> je_period e = p)"
  shows "entriesOf c p db' = entriesOf c p db"
  using insertEntry_InrD[OF assms(1)] assms(2,3) by (auto simp: entriesOf_def)

lemma closed_period_step:
  assumes inv: "ledgerInv db" and cl: "periodClosed c p db" "periodClosed c p db'" and s: "ledger_step db db'"
  shows "entriesOf c p db' = entriesOf c p db"
  using s
proof (rule ledger_stepE)
  fix env u r e assume "createEntry env u r db = Inr (e, db')"
  note d = createEntry_InrD[OF this]
  obtain db1 where "insertEntry e db = Inr db1" "entries db' = entries db1" using d(9) by auto
  then show ?thesis by (rule entriesOf_insert) (use d(3,7) cl in auto)
next
  fix u i reason e assume "validateEntry u i reason db = Inr (e, db')"
  then obtain old where old: "findEntry (act_company u) i db = Some old" "\<not> periodClosed (act_company u) (je_period old) db"
    and es: "entries db' = updateWhere (\<lambda>f. je_id f = je_id old) (\<lambda>f. f\<lparr>je_status := VALIDATED, je_posted := True\<rparr>) (entries db)"
    by (rule validateEntry_InrD)
  show ?thesis using es
  proof (rule entriesOf_update_id)
    fix f assume "f \<in> set (entries db)" "je_id f = je_id old" "je_companyId f = c" "je_period f = p"
    then have "f = old" using ledgerInv_ids_unique[OF inv] findEntry_SomeD[OF old(1)] by blast
    with old findEntry_SomeD[OF old(1)] cl \<open>je_companyId f = c\<close> \<open>je_period f = p\<close>
    show "f\<lparr>je_status := VALIDATED, je_posted := True\<rparr> = f" by simp
  qed auto
next
  fix env u i s e assume "stornoEntry env u i s db = Inr (e, db')"
  then obtain db1 where "insertEntry e db = Inr db1" "entries db' = entries db1"
    "\<not> periodClosed (act_company u) (je_period e) db" "je_companyId e = act_company u"
    by (rule stornoEntry_InrD) auto
  then show ?thesis using cl by (intro entriesOf_insert) auto
next
  fix env u q ns reason assume "closePeriod env u q ns reason db = Inr db'"
  then have "entries db' = updateWhere (\<lambda>e. je_companyId e = act_company u \<and> je_period e = q \<and> je_status e = VALIDATED)
      (\<lambda>e. e\<lparr>je_status := CLOSED\<rparr>) (entries db)" 
    by (rule closePeriod_InrD) (simp add: upsertPeriod_closed(2))
  then show ?thesis by (rule entriesOf_update_id) (use inv cl in \<open>auto simp: ledgerInv_def entryOk_def\<close>)
next
  fix env u q ns reason assume "reopenPeriod env u q ns reason db = Inr db'"
  then obtain db1 where up: "upsertPeriod \<lparr> p_id = uuid env 0, p_companyId = act_company u, p_period = q,
               p_status = PERIOD_OPEN, p_closedAt = None, p_closedById = None, p_notes = ns \<rparr> db = Inr db1"
    and ps: "periods db' = periods db1" and es: "entries db' = entries (setStatusWhere (act_company u) q CLOSED VALIDATED db1)"
    by (rule reopenPeriod_InrD)
  have other: "\<not> (act_company u = c \<and> q = p)"
    using cl(2) upsertPeriod_closed(1)[OF up, of c p] periodClosed_frame[OF ps, of c p] by auto
  have "entries db' = updateWhere (\<lambda>e. je_companyId e = act_company u \<and> je_period e = q \<and> je_status e = CLOSED)
      (\<lambda>e. e\<lparr>je_status := VALIDATED\<rparr>) (entries db)" using es upsertPeriod_closed(2)[OF up] by simp
  then show ?thesis by (rule entriesOf_update_id) (use other in auto)
next
  fix e assume "\<not> periodClosed (je_companyId e) (je_period e) db" "insertEntry e db = Inr db'"
  then show ?thesis using cl by (intro entriesOf_insert) auto
qed

section \<open>Storno and the trial balance\<close>

definition accountNet :: "id \<Rightarrow> journal_line list \<Rightarrow> int" where
  "accountNet a ls = (\<Sum>l\<leftarrow>filter (\<lambda>l. jl_accountId l = a) ls. jl_debit l - jl_credit l)"

lemma accountNet_append [simp]: "accountNet a (xs @ ys) = accountNet a xs + accountNet a ys"
  by (simp add: accountNet_def)

lemma accountNet_swap: "accountNet a (map swapLine ls) = - accountNet a ls"
  by (induction ls) (auto simp: accountNet_def swapLine_def)

text \<open>The lines of the posted entries, and the two totals of their trial balance.\<close>

definition postedLines :: "id \<Rightarrow> 'z ledger_scheme \<Rightarrow> journal_line list" where
  "postedLines c db = concat (map je_lines (filter (\<lambda>e. je_companyId e = c \<and> je_posted e) (entries db)))"

lemma debits_append [simp]: "debits (xs @ ys) = debits xs + debits ys"
  by (simp add: debits_def)

lemma credits_append [simp]: "credits (xs @ ys) = credits xs + credits ys"
  by (simp add: credits_def)

lemma debits_concat: "\<forall>ls \<in> set lss. debits ls = credits ls \<Longrightarrow> debits (concat lss) = credits (concat lss)"
  by (induction lss) (auto simp: debits_def credits_def)

lemma postedLines_balanced:
  assumes inv: "ledgerInv db" and sm: "\<forall>e \<in> set (entries db). small (je_lines e)"
  shows "debits (postedLines c db) = credits (postedLines c db)"
  unfolding postedLines_def
  by (rule debits_concat) (use inv sm in \<open>auto simp: ledgerInv_def entryOk_def balanced_def\<close>)

lemma sum_accountNet:
  assumes "finite A" "jl_accountId ` set ls \<subseteq> A"
  shows "(\<Sum>a\<in>A. accountNet a ls) = debits ls - credits ls"
  using assms(2)
proof (induction ls)
  case (Cons l ls)
  have net: "accountNet a (l # ls) = (if a = jl_accountId l then jl_debit l - jl_credit l else 0) + accountNet a ls" for a
    by (simp add: accountNet_def)
  have "(\<Sum>a\<in>A. if a = jl_accountId l then jl_debit l - jl_credit l else 0) = jl_debit l - jl_credit l"
    using Cons.prems assms(1) by simp
  then show ?case using Cons by (simp add: net sum.distrib debits_def credits_def)
qed (simp add: accountNet_def debits_def credits_def)

section \<open>A worked example\<close>

text \<open>A company with two accounts, used to show that the hypotheses of the properties can hold.\<close>

definition demoEnv :: "string \<Rightarrow> env" where
  "demoEnv k = \<lparr> now = 1706745600000, uuid = (\<lambda>n. k @ showNat n), storeDec = nearestColumn \<rparr>"

definition demoActor :: actor where
  "demoActor = \<lparr> act_user = ''u'', act_company = ''c'' \<rparr>"

definition demoLedger :: ledger where
  "demoLedger = \<lparr> accounts =
       [\<lparr> a_id = ''A'', a_companyId = ''c'', a_code = ''5121'', a_isActive = True, a_name = [], a_type = ASSET, a_currency = ''RON'' \<rparr>,
        \<lparr> a_id = ''B'', a_companyId = ''c'', a_code = ''4111'', a_isActive = True, a_name = [], a_type = ASSET, a_currency = ''RON'' \<rparr>],
     periods = [], entries = [], auditLog = [], fsCache = [] \<rparr>"

definition demoRequest :: create_entry_req where
  "demoRequest = \<lparr> ce_date = None, ce_description = ''abc'', ce_period = None, ce_sourceModule = None,
     ce_lines = [\<lparr> li_accountId = ''A'', li_debit = cents 10, li_credit = 0, li_explanation = None \<rparr>,
       \<lparr> li_accountId = ''B'', li_debit = 0, li_credit = cents 10, li_explanation = None \<rparr>],
     ce_reason = None \<rparr>"

definition demoStorno :: storno_req where
  "demoStorno = \<lparr> sr_date = None, sr_period = None, sr_description = None, sr_reason = None \<rparr>"

definition demoEntry :: "id \<Rightarrow> string \<Rightarrow> string \<Rightarrow> JournalEntryStatus \<Rightarrow> string option \<Rightarrow> id option \<Rightarrow> int \<Rightarrow> int \<Rightarrow> journal_entry" where
  "demoEntry i num descr st src revOf x y = \<lparr> je_id = i, je_companyId = ''c'', je_number = Some num,
     je_date = 1706745600000, je_description = descr, je_period = ''2024-02'', je_status = st,
     je_posted = (st \<noteq> DRAFT), je_sourceModule = src, je_reversalOfEntryId = revOf, je_createdById = ''u'',
     je_lines = [\<lparr> jl_accountId = ''A'', jl_debit = x, jl_credit = y, jl_explanation = None \<rparr>,
       \<lparr> jl_accountId = ''B'', jl_debit = y, jl_credit = x, jl_explanation = None \<rparr>] \<rparr>"

definition demoAudit :: "(string \<times> id) list \<Rightarrow> audit_row list" where
  "demoAudit as = map (\<lambda>(a, i). \<lparr> au_tableName = ''journal_entries'', au_recordId = Some i, au_action = a,
     au_reason = None, au_userId = ''u'', au_companyId = ''c'' \<rparr>) as"

definition demoCreated :: ledger where
  "demoCreated = demoLedger\<lparr> entries := [demoEntry ''x0'' ''NC-2024-000001'' ''abc'' DRAFT None None 10 0],
     auditLog := demoAudit [(''CREATE'', ''x0'')] \<rparr>"

definition demoValidated :: ledger where
  "demoValidated = demoLedger\<lparr> entries := [demoEntry ''x0'' ''NC-2024-000001'' ''abc'' VALIDATED None None 10 0],
     auditLog := demoAudit [(''CREATE'', ''x0''), (''VALIDATE'', ''x0'')] \<rparr>"

definition demoReversed :: ledger where
  "demoReversed = demoLedger\<lparr> entries := [demoEntry ''x0'' ''NC-2024-000001'' ''abc'' VALIDATED None None 10 0,
      demoEntry ''y0'' ''NC-2024-000002'' ''Storno NC-2024-000001'' VALIDATED (Some ''GENERAL_LEDGER_STORNO'') (Some ''x0'') 0 10],
     auditLog := demoAudit [(''CREATE'', ''x0''), (''VALIDATE'', ''x0''), (''STORNO'', ''y0'')] \<rparr>"

lemma demoEnv_exact [simp]: "exact_store (storeDec (demoEnv k))"
  by (simp add: demoEnv_def nearestColumn_exact)

lemma demo_create: "\<exists>e. createEntry (demoEnv ''x'') demoActor demoRequest demoLedger = Inr (e, demoCreated)"
  by (rule exI[of _ "demoEntry ''x0'' ''NC-2024-000001'' ''abc'' DRAFT None None 10 0"]) code_simp

lemma demo_validate: "\<exists>e. validateEntry demoActor ''x0'' None demoCreated = Inr (e, demoValidated)"
  by (rule exI[of _ "demoEntry ''x0'' ''NC-2024-000001'' ''abc'' VALIDATED None None 10 0"]) code_simp

lemma demo_storno: "\<exists>e. stornoEntry (demoEnv ''y'') demoActor ''x0'' demoStorno demoValidated = Inr (e, demoReversed)"
  by (rule exI[of _ "demoEntry ''y0'' ''NC-2024-000002'' ''Storno NC-2024-000001'' VALIDATED
    (Some ''GENERAL_LEDGER_STORNO'') (Some ''x0'') 0 10"]) code_simp

lemma demo_reach: "ledger_reach demoLedger demoValidated" "ledger_reach demoLedger demoReversed"
proof -
  have 1: "ledger_step demoLedger demoCreated" using demo_create ledger_step.create by blast
  have 2: "ledger_step demoCreated demoValidated" using demo_validate ledger_step.validate by blast
  have 3: "ledger_step demoValidated demoReversed" using demo_storno ledger_step.storno demoEnv_exact by blast
  show "ledger_reach demoLedger demoValidated" using 1 2 by simp
  then show "ledger_reach demoLedger demoReversed" using 3 by (rule rtranclp.rtrancl_into_rtrancl)
qed

section \<open>Properties\<close>







definition demoClosed :: ledger where
  "demoClosed = demoLedger\<lparr> periods := [\<lparr> p_id = ''z0'', p_companyId = ''c'', p_period = ''2024-01'',
     p_status = PERIOD_CLOSED, p_closedAt = Some 0, p_closedById = Some ''u'', p_notes = None \<rparr>] \<rparr>"

definition demoClosedCreated :: ledger where
  "demoClosedCreated = demoClosed\<lparr> entries := [demoEntry ''x0'' ''NC-2024-000001'' ''abc'' DRAFT None None 10 0],
     auditLog := demoAudit [(''CREATE'', ''x0'')] \<rparr>"

lemma demo_closed_step: "ledger_step demoClosed demoClosedCreated"
proof (rule ledger_step.create)
  show "createEntry (demoEnv ''x'') demoActor demoRequest demoClosed =
      Inr (demoEntry ''x0'' ''NC-2024-000001'' ''abc'' DRAFT None None 10 0, demoClosedCreated)" by code_simp
qed


text \<open>Closing a period either answers with an error or leaves every entry of the period CLOSED,
  and it is refused as long as the period holds a draft.\<close>

lemma closePeriod_closes:
  assumes "ledgerInv db" "closePeriod env u p notes reason db = Inr db'"
  shows "periodClosed (act_company u) p db' \<and>
    (\<forall>e \<in> set (entriesOf (act_company u) p db). je_status e \<noteq> DRAFT) \<and>
    entriesOf (act_company u) p db' = map (\<lambda>e. e\<lparr>je_status := CLOSED\<rparr>) (entriesOf (act_company u) p db)"
proof -
  obtain db1 where nd: "\<forall>e \<in> set (entries db). je_companyId e = act_company u \<and> je_period e = p \<longrightarrow> je_status e \<noteq> DRAFT"
    and up: "upsertPeriod \<lparr> p_id = uuid env 0, p_companyId = act_company u, p_period = p,
               p_status = PERIOD_CLOSED, p_closedAt = Some (now env), p_closedById = Some (act_user u),
               p_notes = notes \<rparr> db = Inr db1"
    and ps: "periods db' = periods db1" and es: "entries db' = entries (setStatusWhere (act_company u) p VALIDATED CLOSED db1)"
    using assms(2) by (rule closePeriod_InrD)
  have es': "entries db' = updateWhere (\<lambda>e. je_companyId e = act_company u \<and> je_period e = p \<and> je_status e = VALIDATED)
      (\<lambda>e. e\<lparr>je_status := CLOSED\<rparr>) (entries db)" using es upsertPeriod_closed(2)[OF up] by simp
  have "filter (\<lambda>e. je_companyId e = act_company u \<and> je_period e = p) (updateWhere
      (\<lambda>e. je_companyId e = act_company u \<and> je_period e = p \<and> je_status e = VALIDATED) (\<lambda>e. e\<lparr>je_status := CLOSED\<rparr>) xs)
     = map (\<lambda>e. e\<lparr>je_status := CLOSED\<rparr>) (filter (\<lambda>e. je_companyId e = act_company u \<and> je_period e = p) xs)"
    if "set xs \<subseteq> set (entries db)" for xs
    using that nd
  proof (induction xs)
    case (Cons e xs)
    then show ?case by (cases "je_status e") auto
  qed simp
  then show ?thesis using upsertPeriod_closed(1)[OF up, of "act_company u" p] periodClosed_frame[OF ps] nd
    by (auto simp: entriesOf_def es')
qed

definition demoClosedAfter :: ledger where
  "demoClosedAfter = demoLedger\<lparr> entries := [demoEntry ''x0'' ''NC-2024-000001'' ''abc'' CLOSED None None 10 0],
     periods := [\<lparr> p_id = ''z0'', p_companyId = ''c'', p_period = ''2024-02'',
       p_status = PERIOD_CLOSED, p_closedAt = Some 1706745600000, p_closedById = Some ''u'', p_notes = None \<rparr>],
     auditLog := demoAudit [(''CREATE'', ''x0''), (''VALIDATE'', ''x0'')] @
       [\<lparr> au_tableName = ''accounting_periods'', au_recordId = Some ''z0'', au_action = ''CLOSE_PERIOD'',
          au_reason = None, au_userId = ''u'', au_companyId = ''c'' \<rparr>] \<rparr>"

lemma demo_close: "closePeriod (demoEnv ''z'') demoActor ''2024-02'' None None demoValidated = Inr demoClosedAfter"
  by code_simp

lemma demo_inv: "ledgerInv demoValidated" "ledgerInv demoReversed"
  using demo_reach ledger_reach_inv ledgerInv_empty[of demoLedger] by (simp_all add: demoLedger_def)

lemma closePeriod_closes_example: "periodClosed ''c'' ''2024-02'' demoClosedAfter"
  using closePeriod_closes[OF demo_inv(1) demo_close] by (simp add: demoActor_def)

text \<open>A storno entry swaps debit and credit on every line of its source, so that on every account
  the two cancel, and it is posted into an open period.\<close>

lemma storno_cancels:
  assumes "exact_store (storeDec env)" "stornoEntry env u i s db = Inr (e, db')"
    and "findEntry (act_company u) i db = Some src" "small (stornoLines (storeDec env) (je_lines src))"
  shows "je_lines e = map swapLine (je_lines src) \<and> accountNet a (je_lines src @ je_lines e) = 0 \<and>
    je_posted e \<and> \<not> periodClosed (je_companyId e) (je_period e) db \<and> e \<in> set (entries db')"
proof -
  obtain src' db1 where "findEntry (act_company u) i db = Some src'" "je_lines e = stornoLines (storeDec env) (je_lines src')"
    "je_posted e" "\<not> periodClosed (act_company u) (je_period e) db" "je_companyId e = act_company u"
    "insertEntry e db = Inr db1" "entries db' = entries db1"
    using assms(2) by (rule stornoEntry_InrD) auto
  then show ?thesis using assms(3) stornoLines_swap[OF assms(1,4)] insertEntry_InrD[of e db db1]
    by (simp add: accountNet_swap)
qed

lemma storno_cancels_example: "accountNet ''A'' (je_lines (demoEntry ''x0'' ''NC-2024-000001'' ''abc'' VALIDATED None None 10 0) @
    je_lines (entries demoReversed ! 1)) = 0"
proof -
  obtain e where e: "stornoEntry (demoEnv ''y'') demoActor ''x0'' demoStorno demoValidated = Inr (e, demoReversed)"
    using demo_storno by blast
  let ?src = "demoEntry ''x0'' ''NC-2024-000001'' ''abc'' VALIDATED None None 10 0"
  have src: "findEntry (act_company demoActor) ''x0'' demoValidated = Some ?src" by code_simp
  have "stornoLines (storeDec (demoEnv ''y'')) (je_lines ?src) = map swapLine (je_lines ?src)" by code_simp
  then have sm: "small (stornoLines (storeDec (demoEnv ''y'')) (je_lines ?src))"
    by (simp add: small_def demoEntry_def swapLine_def)
  note s = storno_cancels[OF demoEnv_exact e src sm, of "''A''"]
  have "accountNet ''A'' (je_lines ?src @ je_lines e) = 0" using s by blast
  moreover have "e = entries demoReversed ! 1"
    using s by (auto simp: demoReversed_def demoEntry_def swapLine_def demoLedger_def)
  ultimately show ?thesis by (simp only:)
qed

lemma extends_reversal:
  assumes "extends es es'" "e \<in> set es"
  shows "\<exists>e' \<in> set es'. frozen e' = frozen e"
proof -
  obtain old new where o: "es' = old @ new" "list_all2 kept es old" using assms(1) by (auto simp: extends_def)
  obtain i where i: "i < length es" "e = es ! i" using assms(2) by (auto simp: in_set_conv_nth)
  then have "kept e (old ! i)" "old ! i \<in> set es'"
    using o list_all2_nthD[OF o(2)] by (auto dest: list_all2_lengthD)
  then show ?thesis by (auto simp: kept_def)
qed

text \<open>C5: An entry is reversed at most once: after a storno, every later storno of the same entry is
  refused, whatever was committed in between.\<close>

theorem storno_once:
  assumes "stornoEntry env u i s db = Inr (e, db1)" "ledger_reach db1 db2" "act_company u' = act_company u"
  shows "\<not> is_ok (stornoEntry env' u' i s' db2)"
proof
  assume "is_ok (stornoEntry env' u' i s' db2)"
  then obtain e' db3 where again: "stornoEntry env' u' i s' db2 = Inr (e', db3)"
    by (cases "stornoEntry env' u' i s' db2") auto
  obtain src db0 where src: "findEntry (act_company u) i db = Some src"
    and e: "je_reversalOfEntryId e = Some (je_id src)" "je_companyId e = act_company u"
      "insertEntry e db = Inr db0" "entries db1 = entries db0"
    using assms(1) by (rule stornoEntry_InrD) auto
  have "e \<in> set (entries db1)" using insertEntry_InrD[OF e(3)] e(4) by simp
  then obtain f where f: "f \<in> set (entries db2)" "frozen f = frozen e"
    using extends_reversal[OF ledger_reach_extends[OF assms(2)]] by blast
  from f(2) have fe: "je_reversalOfEntryId f = je_reversalOfEntryId e" "je_companyId f = je_companyId e"
    unfolding frozen_def by (metis journal_entry.select_convs(2,10) journal_entry.surjective journal_entry.update_convs(7,8))+
  obtain src2 where "findEntry (act_company u') i db2 = Some src2"
    "\<forall>f \<in> set (entries db2). je_companyId f = act_company u' \<longrightarrow> je_reversalOfEntryId f \<noteq> Some (je_id src2)"
    using again by (rule stornoEntry_InrD)
  then show False using f(1) fe e(1,2) assms(3) findEntry_SomeD[OF src] findEntry_SomeD by fastforce
qed

theorem storno_once_witness: "\<not> is_ok (stornoEntry (demoEnv ''w'') demoActor ''x0'' demoStorno demoReversed)"
  using demo_storno storno_once[OF _ rtranclp.rtrancl_refl refl] by blast

text \<open>The trial balance of a ledger that satisfies the invariant balances: over the accounts of
  the posted lines of a company, the net amounts add up to zero.\<close>

lemma trial_balance:
  assumes "ledgerInv db" "\<forall>e \<in> set (entries db). small (je_lines e)"
  shows "(\<Sum>a \<in> jl_accountId ` set (postedLines c db). accountNet a (postedLines c db)) = 0"
  using postedLines_balanced[OF assms, of c] by (subst sum_accountNet) auto

lemma trial_balance_example:
  "(\<Sum>a \<in> jl_accountId ` set (postedLines ''c'' demoReversed). accountNet a (postedLines ''c'' demoReversed)) = 0"
  by (rule trial_balance[OF demo_inv(2)]) (simp add: demoReversed_def demoLedger_def demoEntry_def small_def)


text \<open>C2: \<open>validateDoubleEntry\<close>, which adds the amounts as doubles and rounds the two sums, accepts
  the lines read back from the decimal columns exactly when they are a double entry in exact
  arithmetic: at least two lines, no negative amount, no empty line, and equal positive totals.\<close>

theorem validateDoubleEntry_exact:
  assumes "small ls"
  shows "is_ok (validateDoubleEntry (map lineAmounts ls)) \<longleftrightarrow>
    2 \<le> length ls \<and> (\<forall>l \<in> set ls. 0 \<le> jl_debit l \<and> 0 \<le> jl_credit l \<and> (jl_debit l \<noteq> 0 \<or> jl_credit l \<noteq> 0)) \<and>
    0 < debits ls \<and> debits ls = credits ls"
proof -
  have "is_ok r \<longleftrightarrow> r = Inr ()" for r :: "http_error + unit" by (cases r) auto
  then show ?thesis using validateDoubleEntry_doubleEntry[OF assms] by (simp add: doubleEntry_def)
qed

theorem validateDoubleEntry_exact_witness:
  "is_ok (validateDoubleEntry (map lineAmounts (je_lines (demoEntry ''x0'' [] [] DRAFT None None 10 0))))"
  by (subst validateDoubleEntry_exact) (simp_all add: demoEntry_def small_def debits_def credits_def)

text \<open>What the create route accepts: the request passes its schema and the double-entry check,
  every account of its lines is an active account of the company, the period is open, and neither
  the new id nor the new number is taken. Then the entry is a draft at the end of the journal, and
  the cache of the statements is empty; nothing else of the entries or periods changes.\<close>

lemma createEntry_accepts:
  assumes "distinct (map a_id (accounts db))"
  shows "is_ok (createEntry env u r db) \<longleftrightarrow>
    createEntrySchema r \<and> is_ok (validateDoubleEntry (map (\<lambda>l. (li_debit l, li_credit l)) (ce_lines r))) \<and>
    (\<forall>l \<in> set (ce_lines r). \<exists>a \<in> set (accounts db). a_id a = li_accountId l \<and> a_companyId a = act_company u \<and> a_isActive a) \<and>
    \<not> periodClosed (act_company u) (orElse (ce_period r) (currentPeriod (orElse (ce_date r) (now env)))) db \<and>
    uuid env 0 \<notin> je_id ` set (entries db) \<and>
    nextJournalEntryNumber (act_company u) (orElse (ce_date r) (now env)) db \<notin> set (companyNumbers (act_company u) db)"
proof -
  let ?ids = "remdups (map li_accountId (ce_lines r))"
  let ?P = "\<lambda>a. a_companyId a = act_company u \<and> a_id a \<in> li_accountId ` set (ce_lines r) \<and> a_isActive a"
  let ?found = "filter ?P (accounts db)"
  have d: "distinct (map a_id ?found)" using assms by (rule distinct_map_filter)
  then have len: "length ?found = card (a_id ` set ?found)" using distinct_card[OF d] by simp
  have sub: "a_id ` set ?found \<subseteq> set ?ids" by auto
  have acc: "length ?found = length ?ids \<longleftrightarrow> (\<forall>l \<in> set (ce_lines r). \<exists>a \<in> set (accounts db).
      a_id a = li_accountId l \<and> a_companyId a = act_company u \<and> a_isActive a)" (is "_ \<longleftrightarrow> ?all")
  proof -
    have "length ?found = length ?ids \<longleftrightarrow> card (a_id ` set ?found) = card (set ?ids)"
      using len length_remdups_card_conv[of "map li_accountId (ce_lines r)"] by (simp only: set_remdups set_map)
    also have "\<dots> \<longleftrightarrow> a_id ` set ?found = set ?ids" using card_subset_eq[OF _ sub] by auto
    also have "\<dots> \<longleftrightarrow> set ?ids \<subseteq> a_id ` set ?found" using sub by auto
    also have "\<dots> \<longleftrightarrow> (\<forall>l \<in> set (ce_lines r). li_accountId l \<in> a_id ` set ?found)" by auto
    also have "\<dots> \<longleftrightarrow> ?all" by (rule ball_cong) (force simp: image_iff)+
    finally show ?thesis .
  qed
  have ok: "is_ok (bindR x f) \<longleftrightarrow> is_ok x \<and> is_ok (f (projr x))" for x :: "http_error + 'b" and f :: "'b \<Rightarrow> http_error + 'c"
    by (cases x) auto
  have ins: "is_ok (insertEntry e db) \<longleftrightarrow> je_id e \<notin> je_id ` set (entries db) \<and> n \<notin> set (companyNumbers (act_company u) db)"
    if "je_number e = Some n" "je_reversalOfEntryId e = None" "je_companyId e = act_company u" for e n
    using that by (auto simp: insertEntry_def list_ex_iff entryClash_def sameKey_def image_iff companyNumbers_mem)
  show ?thesis
    by (auto simp: createEntry_def Let_def ok ins assertPeriodOpen_def acc)
qed

lemma createEntry_accepts_example:
  "uuid (demoEnv ''x'') 0 \<notin> je_id ` set (entries demoLedger) \<and> createEntrySchema demoRequest"
proof -
  have "is_ok (createEntry (demoEnv ''x'') demoActor demoRequest demoLedger)"
    using demo_create by auto
  moreover have "distinct (map a_id (accounts demoLedger))" by (simp add: demoLedger_def)
  ultimately show ?thesis using createEntry_accepts[of demoLedger] by blast
qed

end
