(* ===== verification/Postings.thy ===== *)
theory Postings
  imports LedgerHistory
begin

text \<open>
  What the sub-ledgers share when they post to the general ledger: the lookup of the accounts of a
  posting by code, and the arithmetic of amounts that were rounded, added and stored (an amount that
  is small once stored was exact all along).
\<close>

section \<open>Accounts of a posting\<close>

text \<open>\<open>account.findFirst({ where: { companyId, code } })\<close>.\<close>

definition findAccount :: "id \<Rightarrow> string \<Rightarrow> 'z ledger_scheme \<Rightarrow> id option" where
  "findAccount c num db = map_option a_id (find (\<lambda>a. a_companyId a = c \<and> a_code a = num) (accounts db))"

text \<open>All accounts of a posting, or the error when one is missing.\<close>

definition accountsOrError :: "http_error \<Rightarrow> id \<Rightarrow> string list \<Rightarrow> 'z ledger_scheme \<Rightarrow> http_error + id list" where
  "accountsOrError err c codes db =
     (let ids = map (\<lambda>num. findAccount c num db) codes in
      if None \<in> set ids then Inl err else Inr (map the ids))"

lemma accountsOrError_length:
  "accountsOrError err c codes db = Inr ids \<Longrightarrow> length ids = length codes"
  by (auto simp: accountsOrError_def Let_def split: if_splits)

lemma accountsOrError_mem:
  "accountsOrError err c codes db = Inr ids \<Longrightarrow> i \<in> set ids \<Longrightarrow> \<exists>a \<in> set (accounts db). a_id a = i \<and> a_companyId a = c"
proof -
  assume a: "accountsOrError err c codes db = Inr ids" "i \<in> set ids"
  then have "\<forall>num \<in> set codes. findAccount c num db \<noteq> None" "ids = map (\<lambda>num. the (findAccount c num db)) codes"
    by (force simp: accountsOrError_def Let_def split: if_splits)+
  then obtain num j where "findAccount c num db = Some j" "i = j" using a(2) by auto
  then show ?thesis by (auto simp: findAccount_def dest: find_SomeD)
qed

section \<open>Unique rows\<close>

lemma sorted_wrt_unique:
  "sorted_wrt (\<lambda>x y. key x \<noteq> key y) rows \<Longrightarrow> x \<in> set rows \<Longrightarrow> y \<in> set rows \<Longrightarrow> key x = key y \<Longrightarrow> x = y"
  by (induction rows) auto

section \<open>Rounded amounts\<close>

lemma exact_store_0 [simp]: "exact_store st \<Longrightarrow> st 100 0 = 0"
  using exact_storeD(1)[of st 0] by simp

lemma round2_0 [simp]: "round2 0 = 0"
  using round2_cents[of 0] by simp

lemma fadd_mono: "a \<le> b \<Longrightarrow> c \<le> d \<Longrightarrow> fadd a c \<le> fadd b d"
  unfolding fadd_def by (intro fl_mono add_mono)

lemma fadd_comm: "fadd a b = fadd b a"
  by (simp add: fadd_def add.commute)

lemma round2_nonneg_cents: assumes "0 \<le> x" obtains n where "0 \<le> n" "round2 x = cents n"
proof -
  obtain n where n: "round2 x = cents n" using round2_grid by blast
  then have "0 \<le> n" using round2_nonneg[OF assms] by simp
  then show thesis using n that by blast
qed

lemma round2_nonpos_cents: assumes "x \<le> 0" obtains n where "0 \<le> n" "round2 x = cents (- n)"
proof -
  obtain n where n: "round2 x = cents n" using round2_grid by blast
  have "round2 x \<le> 0" using round2_mono[OF assms] by simp
  then have "n \<le> 0" using n by simp
  then show thesis using n that[of "- n"] by simp
qed

text \<open>The rounded sum of two non-negative amounts: if what is stored of it is below \<open>2\<^sup>4\<^sup>4\<close> cents,
  every amount and the sum are exact.\<close>

lemma round2_add_ge:
  assumes "2 ^ 44 \<le> a" "0 \<le> b" shows "cents (2 ^ 44) \<le> round2 (fadd (cents a) (cents b))"
proof -
  have "round2 (fadd (cents (2 ^ 44)) (cents 0)) \<le> round2 (fadd (cents a) (cents b))"
    using assms by (intro round2_mono fadd_mono cent.grid_mono)
  then show ?thesis using round2_add[of "2 ^ 44" 0] by simp
qed

lemma round2_sub_ge:
  assumes "2 ^ 44 \<le> a" "0 \<le> b" shows "round2 (fadd (cents (- a)) (cents (- b))) \<le> cents (- (2 ^ 44))"
proof -
  have "round2 (fadd (cents (- a)) (cents (- b))) \<le> round2 (fadd (cents (- (2 ^ 44))) (cents 0))"
    using assms by (intro round2_mono fadd_mono cent.grid_mono) simp_all
  then show ?thesis using round2_add[of "- (2 ^ 44)" 0] by simp
qed

lemma stored_ge: "exact_store st \<Longrightarrow> cents (2 ^ 44) \<le> x \<Longrightarrow> 2 ^ 44 \<le> st 100 x"
  using exact_store_mono[of st "cents (2 ^ 44)" x] exact_storeD(1)[of st "2 ^ 44"] by simp

lemma stored_total:
  assumes st: "exact_store st" and ab: "0 \<le> a" "0 \<le> b"
    and small: "st 100 (round2 (fadd (cents a) (cents b))) < 2 ^ 44"
  shows "round2 (fadd (cents a) (cents b)) = cents (a + b)" "a < 2 ^ 44" "b < 2 ^ 44" "a + b < 2 ^ 44"
proof -
  show a: "a < 2 ^ 44" using stored_ge[OF st round2_add_ge[OF _ ab(2), of a]] small by (force simp: not_less)
  show b: "b < 2 ^ 44" using stored_ge[OF st round2_add_ge[OF _ ab(1), of b]] small by (force simp: not_less fadd_comm)
  show e: "round2 (fadd (cents a) (cents b)) = cents (a + b)" using a b ab by (intro round2_add) auto
  have "st 100 (cents (a + b)) = a + b" using a b ab by (intro exact_storeD(1) st) auto
  then show "a + b < 2 ^ 44" using small e by simp
qed

text \<open>The same for a storno: the amounts are negated, rounded, added, and their absolute values
  rounded again.\<close>

lemma stored_storno_total:
  assumes st: "exact_store st" and ab: "0 \<le> a" "0 \<le> b"
    and small: "st 100 (round2 \<bar>round2 (fadd (cents (- a)) (cents (- b)))\<bar>) < 2 ^ 44"
  shows "round2 \<bar>round2 (fadd (cents (- a)) (cents (- b)))\<bar> = cents (a + b)" "a < 2 ^ 44" "b < 2 ^ 44"
    "round2 (fadd (cents (- a)) (cents (- b))) = cents (- (a + b))"
proof -
  have big: False if "round2 (fadd (cents (- a)) (cents (- b))) \<le> cents (- (2 ^ 44))"
  proof -
    have "cents (2 ^ 44) \<le> \<bar>round2 (fadd (cents (- a)) (cents (- b)))\<bar>" using that by (simp add: cent.grid_minus)
    from round2_mono[OF this] have "cents (2 ^ 44) \<le> round2 \<bar>round2 (fadd (cents (- a)) (cents (- b)))\<bar>" by simp
    from stored_ge[OF st this] show False using small by simp
  qed
  show a: "a < 2 ^ 44" using big round2_sub_ge[OF _ ab(2), of a] by force
  show b: "b < 2 ^ 44" using big round2_sub_ge[OF _ ab(1), of b] by (force simp: fadd_comm)
  show e: "round2 (fadd (cents (- a)) (cents (- b))) = cents (- (a + b))"
    unfolding minus_add_distrib using a b ab by (intro round2_add) auto
  show "round2 \<bar>round2 (fadd (cents (- a)) (cents (- b)))\<bar> = cents (a + b)"
    using a b ab unfolding e by (simp add: cent.grid_abs add.commute)
qed

section \<open>Postings of two and three lines\<close>

text \<open>The bound on one line of a posting whose stored lines are small.\<close>

lemma small_line_44:
  assumes "small ls" "l \<in> set ls" "2 \<le> length ls" shows "\<bar>jl_debit l\<bar> < 2 ^ 44" "\<bar>jl_credit l\<bar> < 2 ^ 44"
proof -
  have gen: "\<bar>g l\<bar> < 2 ^ 44" if b: "int (length ls) * (1 + (\<Sum>l\<leftarrow>ls. \<bar>g l\<bar>)) \<le> 2 ^ 45" for g :: "journal_line \<Rightarrow> int"
  proof -
    have m: "\<bar>g l\<bar> \<le> (\<Sum>l\<leftarrow>ls. \<bar>g l\<bar>)" using sum_abs_ge_member[of "g l" "map g ls"] assms(2) by (simp add: comp_def)
    have "2 * (1 + (\<Sum>l\<leftarrow>ls. \<bar>g l\<bar>)) \<le> int (length ls) * (1 + (\<Sum>l\<leftarrow>ls. \<bar>g l\<bar>))"
      using m assms(3) by (intro mult_right_mono) auto
    then show ?thesis using b m by simp
  qed
  show "\<bar>jl_debit l\<bar> < 2 ^ 44" "\<bar>jl_credit l\<bar> < 2 ^ 44"
    using assms(1) gen[of jl_debit] gen[of jl_credit] by (simp_all add: small_def)
qed

definition storeLines :: "store \<Rightarrow> (id \<times> double \<times> double \<times> string) list \<Rightarrow> journal_line list" where
  "storeLines st ls = map (\<lambda>(a, d, c, x). storeLine st a d c (Some x)) ls"

lemma autoEntry_fields [simp]:
  "je_companyId (autoEntry env u i d desc p src ls db) = act_company u"
  "je_period (autoEntry env u i d desc p src ls db) = p"
  "je_status (autoEntry env u i d desc p src ls db) = VALIDATED"
  "je_posted (autoEntry env u i d desc p src ls db)"
  "je_lines (autoEntry env u i d desc p src ls db) = storeLines (storeDec env) ls"
  "je_id (autoEntry env u i d desc p src ls db) = i"
  "je_reversalOfEntryId (autoEntry env u i d desc p src ls db) = None"
  "je_date (autoEntry env u i d desc p src ls db) = d"
  by (simp_all add: autoEntry_def storeLines_def)

lemma autoEntry_postable: "postable (autoEntry env u i d desc p src ls db) \<longleftrightarrow> balanced (storeLines (storeDec env) ls)"
  by (simp add: postable_def)

text \<open>The same amount on both sides.\<close>

lemma two_lines_balanced:
  "exact_store st \<Longrightarrow> balanced (storeLines st [(a, x, 0, s), (b, 0, x, t)])"
  by (simp add: balanced_def storeLines_def storeLine_def debits_def credits_def)

text \<open>A total against its two parts, and the reverse.\<close>

lemma three_lines_balanced:
  assumes st: "exact_store st" and "0 \<le> m" "0 \<le> n"
  shows "balanced (storeLines st [(a, round2 (fadd (cents m) (cents n)), 0, s), (b, 0, cents m, t), (c, 0, cents n, v)])"
proof -
  let ?ls = "storeLines st [(a, round2 (fadd (cents m) (cents n)), 0, s), (b, 0, cents m, t), (c, 0, cents n, v)]"
  have "debits ?ls = credits ?ls" if sm: "small ?ls"
  proof -
    have "\<bar>jl_debit (hd ?ls)\<bar> < 2 ^ 44" using small_line_44(1)[OF sm, of "hd ?ls"] by (simp add: storeLines_def)
    then have "st 100 (round2 (fadd (cents m) (cents n))) < 2 ^ 44" by (simp add: storeLines_def storeLine_def)
    note t = stored_total[OF st assms(2,3) this]
    then show ?thesis using assms exact_storeD(1)[OF st, of "m + n"] exact_storeD(1)[OF st, of m] exact_storeD(1)[OF st, of n]
      by (simp add: storeLines_def storeLine_def debits_def credits_def)
  qed
  then show ?thesis by (simp add: balanced_def)
qed

lemma three_lines_storno_balanced:
  assumes st: "exact_store st" and "0 \<le> m" "0 \<le> n"
  shows "balanced (storeLines st [(a, 0, round2 \<bar>round2 (fadd (cents (- m)) (cents (- n)))\<bar>, s),
    (b, round2 \<bar>cents (- m)\<bar>, 0, t), (c, round2 \<bar>cents (- n)\<bar>, 0, v)])"
proof -
  let ?ls = "storeLines st [(a, 0, round2 \<bar>round2 (fadd (cents (- m)) (cents (- n)))\<bar>, s),
    (b, round2 \<bar>cents (- m)\<bar>, 0, t), (c, round2 \<bar>cents (- n)\<bar>, 0, v)]"
  have "debits ?ls = credits ?ls" if sm: "small ?ls"
  proof -
    have "\<bar>jl_credit (hd ?ls)\<bar> < 2 ^ 44" using small_line_44(2)[OF sm, of "hd ?ls"] by (simp add: storeLines_def)
    then have "st 100 (round2 \<bar>round2 (fadd (cents (- m)) (cents (- n)))\<bar>) < 2 ^ 44"
      by (simp add: storeLines_def storeLine_def)
    note t = stored_storno_total[OF st assms(2,3) this]
    have "round2 \<bar>cents (- m)\<bar> = cents m" "round2 \<bar>cents (- n)\<bar> = cents n"
      using t assms by (simp_all add: cent.grid_abs)
    then show ?thesis using t assms exact_storeD(1)[OF st, of "m + n"] exact_storeD(1)[OF st, of m] exact_storeD(1)[OF st, of n]
      by (simp add: storeLines_def storeLine_def debits_def credits_def)
  qed
  then show ?thesis by (simp add: balanced_def)
qed

section \<open>Settling a document\<close>

text \<open>A document of \<open>T\<close> cents and the amounts \<open>ns\<close> already paid on it, small enough for the double sums
  to be exact.\<close>

definition fits :: "int list \<Rightarrow> int \<Rightarrow> bool" where
  "fits ns T \<longleftrightarrow> int (length ns) * (1 + sum_list ns) \<le> 2 ^ 45 \<and> T < 2 ^ 44"

lemma sum_abs_id: "\<forall>n \<in> set ns. 0 \<le> n \<Longrightarrow> (\<Sum>n\<leftarrow>ns. \<bar>n\<bar>) = sum_list (ns :: int list)"
  by (induction ns) auto

lemma sum_list_nonneg_int: "\<forall>n \<in> set ns. 0 \<le> n \<Longrightarrow> 0 \<le> sum_list (ns :: int list)"
  by (induction ns) auto

lemma fits_snoc:
  assumes "fits (ns @ [k]) T" "\<forall>n \<in> set ns. 0 \<le> n" "0 \<le> k" shows "fits ns T"
proof -
  have s: "0 \<le> sum_list ns" using assms(2) by (rule sum_list_nonneg_int)
  have "int (length ns) * (1 + sum_list ns) \<le> int (length ns + 1) * (1 + (sum_list ns + k))"
    using s assms(3) by (intro mult_mono) auto
  then show ?thesis using assms(1) by (simp add: fits_def algebra_simps)
qed

lemma fits_sum: "fits ns T \<Longrightarrow> \<forall>n \<in> set ns. 0 \<le> n \<Longrightarrow> round2 (reduceSum (map cents ns)) = cents (sum_list ns)"
  using round2_sum[of ns] by (simp add: fits_def sum_abs_id)

text \<open>The step both kinds of invoices take: the payment is compared with the rounded open amount, and
  the document is fully paid when the rounded new total reaches it.\<close>

lemma settle_step:
  assumes st: "exact_store st" and f: "fits ns T" and nn: "\<forall>n \<in> set ns. 0 \<le> n" and le: "sum_list ns \<le> T" and k: "0 \<le> k"
    and paid: "paid = round2 (reduceSum (map cents ns))"
    and ok: "\<not> round2 (max (fsub (cents T) paid) 0) < cents k"
  shows "sum_list ns + k \<le> T" "st 100 (cents k) = k" "cents T \<le> round2 (fadd paid (cents k)) \<longleftrightarrow> sum_list ns + k = T"
proof -
  have s: "0 \<le> sum_list ns" using nn by (rule sum_list_nonneg_int)
  have T: "T < 2 ^ 44" using f by (simp add: fits_def)
  have p: "paid = cents (sum_list ns)" using fits_sum[OF f nn] paid by simp
  have "0 \<le> fsub (cents T) paid" unfolding fsub_def p using cent.grid_mono[OF le] by (intro fl_nonneg) simp
  then have "max (fsub (cents T) paid) 0 = fsub (cents T) paid" by simp
  then have "round2 (max (fsub (cents T) paid) 0) = cents (T - sum_list ns)"
    using s le T by (simp add: p round2_sub)
  then have "cents k \<le> cents (T - sum_list ns)" using ok by simp
  moreover have "\<bar>T - sum_list ns\<bar> \<le> 2 ^ 49" using s le T by simp
  ultimately show kT: "sum_list ns + k \<le> T" using cent.grid_cmp(1)[of "T - sum_list ns" k] by simp
  show "st 100 (cents k) = k" using st kT s T k by (intro exact_storeD(1)) auto
  have "round2 (fadd paid (cents k)) = cents (sum_list ns + k)" using s kT T k by (simp add: p round2_add)
  moreover have "\<bar>T\<bar> \<le> 2 ^ 49" using T s le by simp
  ultimately show "cents T \<le> round2 (fadd paid (cents k)) \<longleftrightarrow> sum_list ns + k = T"
    using cent.grid_cmp(2)[of T "sum_list ns + k"] kT by auto
qed

end
