(* ===== verification/Invoices.thy ===== *)
theory Invoices
  imports Postings
begin

text \<open>
  Sales (routes/invoices.ts): issuing fiscal, proforma and storno invoices with their automatic
  posting, and collecting payments. The tables extend the ledger's; amounts are cents. The
  invariant relates the payments of an invoice to its total and its status.
\<close>

section \<open>Tables\<close>

datatype InvoiceKind = PROFORMA | FISCAL | STORNO
datatype InvoiceStatus = INVOICE_DRAFT | ISSUED | PARTIALLY_PAID | PAID | CANCELLED
datatype PaymentMethod = BANK_TRANSFER | CASH | CARD | OTHER

datatype PartnerType = CUSTOMER | SUPPLIER | BOTH

record partner =
  pt_id :: id
  pt_companyId :: id
  pt_type :: PartnerType
  pt_name :: string
  pt_cui :: "string option"

record invoice =
  i_id :: id
  i_companyId :: id
  i_number :: string
  i_kind :: InvoiceKind
  i_stornoOfInvoiceId :: "id option"
  i_partnerId :: id
  i_issueDate :: date
  i_dueDate :: date
  i_currency :: string
  i_subtotal :: int
  i_vat :: int
  i_total :: int
  i_status :: InvoiceStatus
  i_description :: "string option"

record payment =
  pay_id :: id
  pay_companyId :: id
  pay_invoiceId :: id
  pay_partnerId :: id
  pay_date :: date
  pay_amount :: int
  pay_method :: PaymentMethod
  pay_reference :: "string option"

text \<open>\<open>invoiceListKeys\<close>: the keys of the cached invoice lists.\<close>

record sales = ledger +
  partners :: "partner list"
  invoices :: "invoice list"
  payments :: "payment list"
  invoiceListKeys :: "string list"

definition invalidateInvoiceListCache :: "'z sales_scheme \<Rightarrow> 'z sales_scheme" where
  "invalidateInvoiceListCache db = db\<lparr>invoiceListKeys := []\<rparr>"

definition findPartner :: "id \<Rightarrow> id \<Rightarrow> 'z sales_scheme \<Rightarrow> partner option" where
  "findPartner c i db = find (\<lambda>p. pt_id p = i \<and> pt_companyId p = c) (partners db)"

definition findInvoice :: "id \<Rightarrow> id \<Rightarrow> 'z sales_scheme \<Rightarrow> invoice option" where
  "findInvoice c i db = find (\<lambda>x. i_id x = i \<and> i_companyId x = c) (invoices db)"

text \<open>The primary key and the unique index \<open>[companyId, number]\<close>.\<close>

definition invoiceClash :: "invoice \<Rightarrow> invoice \<Rightarrow> bool" where
  "invoiceClash x y \<longleftrightarrow> i_id x = i_id y \<or> (i_companyId x = i_companyId y \<and> i_number x = i_number y)"

definition insertInvoice :: "invoice \<Rightarrow> 'z sales_scheme \<Rightarrow> http_error + 'z sales_scheme" where
  "insertInvoice x db =
     (if list_ex (invoiceClash x) (invoices db) then Inl uniqueViolation
      else Inr (db\<lparr>invoices := invoices db @ [x]\<rparr>))"

definition insertPayment :: "payment \<Rightarrow> 'z sales_scheme \<Rightarrow> http_error + 'z sales_scheme" where
  "insertPayment x db =
     (if list_ex (\<lambda>y. pay_id y = pay_id x) (payments db) then Inl uniqueViolation
      else Inr (db\<lparr>payments := payments db @ [x]\<rparr>))"

section \<open>Issuing an invoice\<close>

record create_invoice_req =
  ci_number :: string
  ci_kind :: InvoiceKind
  ci_stornoOfInvoiceId :: "id option"
  ci_partnerId :: "id option"
  ci_issueDate :: "date option"
  ci_dueDate :: "date option"
  ci_currency :: string
  ci_subtotal :: "double option"
  ci_vat :: "double option"
  ci_description :: "string option"
  ci_autoPost :: bool
  ci_revenueAccountCode :: string
  ci_receivableAccountCode :: string
  ci_vatAccountCode :: string
  ci_reason :: "string option"

definition createInvoiceSchema :: "create_invoice_req \<Rightarrow> bool" where
  "createInvoiceSchema r \<longleftrightarrow> ci_number r \<noteq> [] \<and> ci_stornoOfInvoiceId r \<noteq> Some [] \<and> ci_partnerId r \<noteq> Some [] \<and>
     (case ci_subtotal r of None \<Rightarrow> True | Some x \<Rightarrow> 0 < x) \<and> (case ci_vat r of None \<Rightarrow> True | Some x \<Rightarrow> 0 \<le> x)"

definition checkInvoiceRequest :: "date \<Rightarrow> create_invoice_req \<Rightarrow> http_error + unit" where
  "checkInvoiceRequest issueDate r =
     (let isStorno = ci_kind r = STORNO in
      if isStorno \<and> ci_stornoOfInvoiceId r = None
      then Inl (badRequest ''Factura STORNO trebuie sa indice factura sursa (stornoOfInvoiceId).'')
      else if \<not> isStorno \<and> ci_stornoOfInvoiceId r \<noteq> None
      then Inl (badRequest ''Campul stornoOfInvoiceId este permis doar pentru facturile de tip STORNO.'')
      else if isStorno then Inr ()
      else case (ci_partnerId r, ci_dueDate r, ci_subtotal r, ci_vat r) of
        (Some _, Some dueDate, Some _, Some _) \<Rightarrow>
          if dueDate < issueDate
          then Inl (badRequest ''Data scadentei trebuie sa fie mai mare sau egala cu data emiterii.'')
          else Inr ()
      | _ \<Rightarrow> Inl (badRequest ''Facturile FISCAL/PROFORMA necesita partnerId, dueDate, subtotal si vat.''))"

text \<open>What the transaction works out first: the partner, the dates and the rounded amounts.\<close>

record invoice_draft =
  dr_source :: "id option"
  dr_partnerId :: id
  dr_dueDate :: date
  dr_subtotal :: double
  dr_vat :: double
  dr_total :: double
  dr_description :: "string option"

definition resolveStorno ::
  "actor \<Rightarrow> date \<Rightarrow> create_invoice_req \<Rightarrow> 'z sales_scheme \<Rightarrow> http_error + invoice_draft" where
  "resolveStorno u issueDate r db =
     (case findInvoice (act_company u) (orElse (ci_stornoOfInvoiceId r) []) db of
        None \<Rightarrow> Inl (badRequest ''Factura sursa pentru STORNO nu exista in compania activa.'')
      | Some src \<Rightarrow>
          if i_kind src \<noteq> FISCAL then Inl (badRequest ''Se poate face STORNO doar pentru facturi de tip FISCAL.'')
          else if i_status src = CANCELLED
          then Inl (badRequest ''Factura sursa este anulata si nu poate fi stornata.'')
          else
            let subtotal = round2 (- \<bar>toNumber (column 100 (i_subtotal src))\<bar>);
                vat = round2 (- \<bar>toNumber (column 100 (i_vat src))\<bar>)
            in Inr \<lparr> dr_source = Some (i_id src), dr_partnerId = i_partnerId src, dr_dueDate = issueDate,
                 dr_subtotal = subtotal, dr_vat = vat, dr_total = round2 (fadd subtotal vat),
                 dr_description = Some (orElse (ci_description r) (''Storno factura '' @ i_number src)) \<rparr>)"

definition resolvePlain ::
  "actor \<Rightarrow> date \<Rightarrow> create_invoice_req \<Rightarrow> 'z sales_scheme \<Rightarrow> http_error + invoice_draft" where
  "resolvePlain u issueDate r db =
     (let partnerId = orElse (ci_partnerId r) [] in
      case findPartner (act_company u) partnerId db of
        None \<Rightarrow> Inl (badRequest ''Partener inexistent in compania activa.'')
      | Some _ \<Rightarrow>
          let subtotal = round2 (orElse (ci_subtotal r) 0); vat = round2 (orElse (ci_vat r) 0)
          in Inr \<lparr> dr_source = None, dr_partnerId = partnerId, dr_dueDate = orElse (ci_dueDate r) issueDate,
               dr_subtotal = subtotal, dr_vat = vat, dr_total = round2 (fadd subtotal vat),
               dr_description = ci_description r \<rparr>)"

definition resolveInvoice ::
  "actor \<Rightarrow> date \<Rightarrow> create_invoice_req \<Rightarrow> 'z sales_scheme \<Rightarrow> http_error + invoice_draft" where
  "resolveInvoice u issueDate r db =
     (if ci_kind r = STORNO then resolveStorno u issueDate r db else resolvePlain u issueDate r db)"

text \<open>The lines of the automatic posting; \<open>ids\<close> are the receivable, revenue and VAT accounts.\<close>

definition invoiceLines :: "InvoiceKind \<Rightarrow> string \<Rightarrow> invoice_draft \<Rightarrow> id list \<Rightarrow> (id \<times> double \<times> double \<times> string) list" where
  "invoiceLines kind number d ids =
     (if kind = STORNO
      then [(ids ! 0, 0, round2 \<bar>dr_total d\<bar>, ''Storno creanta '' @ number),
            (ids ! 1, round2 \<bar>dr_subtotal d\<bar>, 0, ''Storno venit '' @ number),
            (ids ! 2, round2 \<bar>dr_vat d\<bar>, 0, ''Storno TVA '' @ number)]
      else [(ids ! 0, dr_total d, 0, ''Factura '' @ number),
            (ids ! 1, 0, dr_subtotal d, ''Venit factura '' @ number),
            (ids ! 2, 0, dr_vat d, ''TVA colectata factura '' @ number)])"

definition postInvoice ::
  "env \<Rightarrow> actor \<Rightarrow> create_invoice_req \<Rightarrow> date \<Rightarrow> invoice_draft \<Rightarrow> id list \<Rightarrow> 'z sales_scheme \<Rightarrow> http_error + 'z sales_scheme" where
  "postInvoice env u r issueDate d ids db =
     insertEntry (autoEntry env u (uuid env 1) issueDate
       ((if ci_kind r = STORNO then ''Postare automata storno '' else ''Postare automata factura '') @ ci_number r)
       (currentPeriod issueDate) ''ACCOUNTS_RECEIVABLE'' (invoiceLines (ci_kind r) (ci_number r) d ids) db) db"

definition createInvoice ::
  "env \<Rightarrow> actor \<Rightarrow> create_invoice_req \<Rightarrow> 'z sales_scheme \<Rightarrow> http_error + (invoice \<times> 'z sales_scheme)" where
  "createInvoice env u r db =
     (if \<not> createInvoiceSchema r then Inl (badRequest ''Date invalide pentru factura.'') else
      let issueDate = orElse (ci_issueDate r) (now env) in
      bindR (checkInvoiceRequest issueDate r) (\<lambda>_.
      let shouldAutoPost = ci_autoPost r \<and> ci_kind r \<noteq> PROFORMA in
      bindR (assertPeriodOpen (act_company u) (currentPeriod issueDate) db) (\<lambda>_.
      bindR (resolveInvoice u issueDate r db) (\<lambda>d.
      bindR (if shouldAutoPost
             then accountsOrError (badRequest ''Conturi implicite lipsa pentru postarea automata a facturii.'')
               (act_company u) [ci_receivableAccountCode r, ci_revenueAccountCode r, ci_vatAccountCode r] db
             else Inr []) (\<lambda>ids.
      let invoice = \<lparr> i_id = uuid env 0, i_companyId = act_company u, i_number = ci_number r, i_kind = ci_kind r,
            i_stornoOfInvoiceId = dr_source d, i_partnerId = dr_partnerId d, i_issueDate = issueDate,
            i_dueDate = dr_dueDate d, i_currency = ci_currency r,
            i_subtotal = storeDec env 100 (dr_subtotal d), i_vat = storeDec env 100 (dr_vat d),
            i_total = storeDec env 100 (dr_total d),
            i_status = (if ci_kind r = PROFORMA then INVOICE_DRAFT else ISSUED), i_description = dr_description d \<rparr>
      in bindR (insertInvoice invoice db) (\<lambda>db.
         bindR (if shouldAutoPost then postInvoice env u r issueDate d ids db else Inr db) (\<lambda>db.
         Inr (invoice, invalidateInvoiceListCache (invalidateFinancialStatementsCache
           (writeAudit u ''invoices'' (Some (i_id invoice)) ''CREATE'' (ci_reason r) db))))))))))"

section \<open>Collecting a payment\<close>

record payment_req =
  pr_amount :: double
  pr_method :: PaymentMethod
  pr_date :: "date option"
  pr_reference :: "string option"
  pr_autoPost :: bool
  pr_bankAccountCode :: string
  pr_counterAccountCode :: string
  pr_reason :: "string option"

definition paymentSchema :: "payment_req \<Rightarrow> bool" where
  "paymentSchema r \<longleftrightarrow> 0 < pr_amount r"

definition openInvoiceStatuses :: "InvoiceStatus list" where
  "openInvoiceStatuses = [ISSUED, PARTIALLY_PAID]"

definition paymentsOf :: "id \<Rightarrow> 'z sales_scheme \<Rightarrow> payment list" where
  "paymentsOf i db = filter (\<lambda>p. pay_invoiceId p = i) (payments db)"

definition postPayment ::
  "env \<Rightarrow> actor \<Rightarrow> date \<Rightarrow> double \<Rightarrow> string \<Rightarrow> id list \<Rightarrow> 'z sales_scheme \<Rightarrow> http_error + 'z sales_scheme" where
  "postPayment env u paymentDate amount number ids db =
     insertEntry (autoEntry env u (uuid env 1) paymentDate (''Incasare factura '' @ number)
       (currentPeriod paymentDate) ''TREASURY''
       [(ids ! 0, amount, 0, ''Incasare '' @ number), (ids ! 1, 0, amount, ''Stingere '' @ number)] db) db"

definition payInvoice ::
  "env \<Rightarrow> actor \<Rightarrow> id \<Rightarrow> payment_req \<Rightarrow> 'z sales_scheme \<Rightarrow> http_error + (payment \<times> 'z sales_scheme)" where
  "payInvoice env u invoiceId r db =
     (if \<not> paymentSchema r then Inl (badRequest ''Date invalide pentru plata.'') else
      let paymentDate = orElse (pr_date r) (now env); paymentAmount = round2 (pr_amount r) in
      bindR (assertPeriodOpen (act_company u) (currentPeriod paymentDate) db) (\<lambda>_.
      case findInvoice (act_company u) invoiceId db of
        None \<Rightarrow> Inl (notFound ''Factura nu exista.'')
      | Some invoice \<Rightarrow>
          if i_kind invoice \<noteq> FISCAL
          then Inl (badRequest ''Incasarea este permisa doar pentru facturile de tip FISCAL.'') else
          if i_status invoice \<notin> set openInvoiceStatuses
          then Inl (badRequest ''Factura nu poate fi incasata in statusul curent.'') else
          let paidBefore = round2 (reduceSum (map (\<lambda>p. toNumber (column 100 (pay_amount p))) (paymentsOf (i_id invoice) db)));
              invoiceTotal = toNumber (column 100 (i_total invoice));
              openAmount = round2 (max (fsub invoiceTotal paidBefore) 0)
          in if openAmount < paymentAmount
             then Inl (badRequest ''Suma incasata depaseste soldul deschis al facturii.'') else
             bindR (if pr_autoPost r
                    then accountsOrError (badRequest ''Conturi implicite lipsa pentru postarea automata a platii.'')
                      (act_company u) [pr_bankAccountCode r, pr_counterAccountCode r] db
                    else Inr []) (\<lambda>ids.
             let pay = \<lparr> pay_id = uuid env 0, pay_companyId = act_company u, pay_invoiceId = i_id invoice,
                   pay_partnerId = i_partnerId invoice, pay_date = paymentDate,
                   pay_amount = storeDec env 100 paymentAmount, pay_method = pr_method r,
                   pay_reference = pr_reference r \<rparr>
             in bindR (insertPayment pay db) (\<lambda>db.
                let paidAfter = round2 (fadd paidBefore paymentAmount);
                    nextStatus = (if invoiceTotal \<le> paidAfter then PAID else PARTIALLY_PAID);
                    db = db\<lparr>invoices := updateWhere (\<lambda>x. i_id x = i_id invoice) (\<lambda>x. x\<lparr>i_status := nextStatus\<rparr>) (invoices db)\<rparr>
                in bindR (if pr_autoPost r then postPayment env u paymentDate paymentAmount (i_number invoice) ids db
                          else Inr db) (\<lambda>db.
                   Inr (pay, invalidateInvoiceListCache (invalidateFinancialStatementsCache
                     (writeAudit u ''payments'' (Some (pay_id pay)) ''CREATE'' (pr_reason r) db))))))))"

section \<open>Invariant\<close>

definition invoiceAmounts :: "id \<Rightarrow> 'z sales_scheme \<Rightarrow> int list" where
  "invoiceAmounts i db = map pay_amount (paymentsOf i db)"

text \<open>The payments of an invoice against its total and its status.\<close>

definition invoiceSettled :: "int list \<Rightarrow> invoice \<Rightarrow> bool" where
  "invoiceSettled ns x \<longleftrightarrow> (\<forall>n \<in> set ns. 0 \<le> n) \<and>
     (i_kind x \<noteq> FISCAL \<longrightarrow> ns = [] \<and> i_status x = (if i_kind x = PROFORMA then INVOICE_DRAFT else ISSUED)) \<and>
     (i_kind x = FISCAL \<longrightarrow> 0 \<le> i_total x \<and> i_status x \<in> {ISSUED, PARTIALLY_PAID, PAID} \<and>
        (i_status x = ISSUED \<longleftrightarrow> ns = []) \<and>
        (fits ns (i_total x) \<longrightarrow> sum_list ns \<le> i_total x \<and> (i_status x = PAID \<longleftrightarrow> ns \<noteq> [] \<and> sum_list ns = i_total x)))"

definition invoiceOk :: "'z sales_scheme \<Rightarrow> invoice \<Rightarrow> bool" where
  "invoiceOk db x \<longleftrightarrow> invoiceSettled (invoiceAmounts (i_id x) db) x \<and>
     (\<bar>i_total x\<bar> < 2 ^ 44 \<longrightarrow> i_total x = i_subtotal x + i_vat x)"

definition salesInv :: "'z sales_scheme \<Rightarrow> bool" where
  "salesInv db \<longleftrightarrow> ledgerInv db \<and> sorted_wrt (\<lambda>x y. \<not> invoiceClash x y) (invoices db) \<and>
     (\<forall>p \<in> set (payments db). pay_invoiceId p \<in> i_id ` set (invoices db)) \<and>
     (\<forall>x \<in> set (invoices db). invoiceOk db x)"

lemma invoice_audit_simps [simp, table_simps]:
  "invoices (writeAudit u t r a x db) = invoices db" "payments (writeAudit u t r a x db) = payments db"
  "invoices (invalidateFinancialStatementsCache db) = invoices db"
  "payments (invalidateFinancialStatementsCache db) = payments db"
  "invoices (invalidateInvoiceListCache db) = invoices db" "payments (invalidateInvoiceListCache db) = payments db"
  "entries (invalidateInvoiceListCache db) = entries db" "periods (invalidateInvoiceListCache db) = periods db"
  "accounts (invalidateInvoiceListCache db) = accounts db"
  by (simp_all add: writeAudit_def invalidateFinancialStatementsCache_def invalidateInvoiceListCache_def)

lemma insertEntry_sales: "insertEntry e db = Inr db' \<Longrightarrow> invoices db' = invoices db \<and> payments db' = payments db"
  by (auto simp: insertEntry_def split: if_splits)

lemma salesInv_cong:
  assumes "invoices db' = invoices db" "payments db' = payments db" "ledgerInv db'" "salesInv db"
  shows "salesInv db'"
  using assms by (simp add: salesInv_def invoiceOk_def invoiceAmounts_def paymentsOf_def)

lemma insertInvoice_InrD:
  "insertInvoice x db = Inr db' \<Longrightarrow> db' = db\<lparr>invoices := invoices db @ [x]\<rparr> \<and> (\<forall>y \<in> set (invoices db). \<not> invoiceClash y x)"
  by (auto simp: insertInvoice_def invoiceClash_def list_ex_iff split: if_splits)

lemma insertPayment_InrD:
  "insertPayment x db = Inr db' \<Longrightarrow> db' = db\<lparr>payments := payments db @ [x]\<rparr>"
  by (auto simp: insertPayment_def split: if_splits)

lemma findInvoice_SomeD: "findInvoice c i db = Some x \<Longrightarrow> x \<in> set (invoices db) \<and> i_id x = i \<and> i_companyId x = c"
  by (auto simp: findInvoice_def dest: find_SomeD)

lemma ledgerInv_sales_tables [simp]:
  "ledgerInv (db\<lparr>invoices := x\<rparr>) = ledgerInv db" "ledgerInv (db\<lparr>payments := y\<rparr>) = ledgerInv db"
  "ledgerInv (invalidateInvoiceListCache db) = ledgerInv db"
  by (rule ledgerInv_cong; simp add: invalidateInvoiceListCache_def)+

section \<open>Issuing keeps the invariant\<close>

text \<open>What the draft of an invoice holds: rounded amounts, non-negative or (for a storno) non-positive.\<close>

lemma resolveInvoice_amounts:
  assumes "createInvoiceSchema r" "resolveInvoice u issueDate r db = Inr d"
  obtains m n where "0 \<le> m" "0 \<le> n"
    "if ci_kind r = STORNO then dr_subtotal d = cents (- m) \<and> dr_vat d = cents (- n)
     else dr_subtotal d = cents m \<and> dr_vat d = cents n"
    "dr_total d = round2 (fadd (dr_subtotal d) (dr_vat d))"
proof (cases "ci_kind r = STORNO")
  case True
  then have "\<exists>src :: invoice. dr_subtotal d = round2 (- \<bar>toNumber (column 100 (i_subtotal src))\<bar>) \<and>
      dr_vat d = round2 (- \<bar>toNumber (column 100 (i_vat src))\<bar>) \<and> dr_total d = round2 (fadd (dr_subtotal d) (dr_vat d))"
    using assms(2) by (auto simp: resolveInvoice_def resolveStorno_def Let_def split: option.splits if_splits)
  then obtain src :: invoice where d: "dr_subtotal d = round2 (- \<bar>toNumber (column 100 (i_subtotal src))\<bar>)"
    "dr_vat d = round2 (- \<bar>toNumber (column 100 (i_vat src))\<bar>)" "dr_total d = round2 (fadd (dr_subtotal d) (dr_vat d))"
    by blast
  have np: "- \<bar>toNumber y\<bar> \<le> 0" for y by simp
  obtain m where m: "0 \<le> m" "dr_subtotal d = cents (- m)" unfolding d(1) by (rule round2_nonpos_cents[OF np])
  obtain n where n: "0 \<le> n" "dr_vat d = cents (- n)" unfolding d(2) by (rule round2_nonpos_cents[OF np])
  show ?thesis using that[OF m(1) n(1)] m n d(3) True by simp
next
  case False
  then have d: "dr_subtotal d = round2 (orElse (ci_subtotal r) 0)" "dr_vat d = round2 (orElse (ci_vat r) 0)"
    "dr_total d = round2 (fadd (dr_subtotal d) (dr_vat d))"
    using assms(2) by (auto simp: resolveInvoice_def resolvePlain_def Let_def split: option.splits)
  have nn: "0 \<le> orElse (ci_subtotal r) 0" "0 \<le> orElse (ci_vat r) 0"
    using assms(1) by (auto simp: createInvoiceSchema_def orElse_def split: option.splits)
  obtain m where m: "0 \<le> m" "dr_subtotal d = cents m" unfolding d(1) by (rule round2_nonneg_cents[OF nn(1)])
  obtain n where n: "0 \<le> n" "dr_vat d = cents n" unfolding d(2) by (rule round2_nonneg_cents[OF nn(2)])
  show ?thesis using that[OF m(1) n(1)] m n d(3) False by simp
qed

lemma invoiceLines_balanced:
  assumes st: "exact_store st" and r: "createInvoiceSchema r" "resolveInvoice u issueDate r db = Inr d"
  shows "balanced (storeLines st (invoiceLines (ci_kind r) num d ids))"
proof -
  obtain m n where mn: "0 \<le> m" "0 \<le> n"
    "if ci_kind r = STORNO then dr_subtotal d = cents (- m) \<and> dr_vat d = cents (- n)
     else dr_subtotal d = cents m \<and> dr_vat d = cents n"
    "dr_total d = round2 (fadd (dr_subtotal d) (dr_vat d))"
    using r by (rule resolveInvoice_amounts)
  show ?thesis
  proof (cases "ci_kind r = STORNO")
    case True
    then show ?thesis using mn three_lines_storno_balanced[OF st mn(1,2)] by (simp add: invoiceLines_def)
  next
    case False
    then show ?thesis using mn three_lines_balanced[OF st mn(1,2)] by (simp add: invoiceLines_def)
  qed
qed

lemma draft_total_stored:
  assumes st: "exact_store st" and r: "createInvoiceSchema r" "resolveInvoice u issueDate r db = Inr d"
    and small: "\<bar>st 100 (dr_total d)\<bar> < 2 ^ 44"
  shows "st 100 (dr_total d) = st 100 (dr_subtotal d) + st 100 (dr_vat d)"
proof -
  obtain m n where mn: "0 \<le> m" "0 \<le> n"
    "if ci_kind r = STORNO then dr_subtotal d = cents (- m) \<and> dr_vat d = cents (- n)
     else dr_subtotal d = cents m \<and> dr_vat d = cents n"
    "dr_total d = round2 (fadd (dr_subtotal d) (dr_vat d))"
    using r by (rule resolveInvoice_amounts)
  note ex = exact_storeD(1)[OF st]
  show ?thesis
  proof (cases "ci_kind r = STORNO")
    case False
    then have t: "dr_total d = round2 (fadd (cents m) (cents n))" using mn by simp
    have "st 100 (round2 (fadd (cents m) (cents n))) < 2 ^ 44" using small unfolding t by simp
    note e = stored_total[OF st mn(1,2) this]
    show ?thesis using e mn False ex[of m] ex[of n] ex[of "m + n"] by (simp add: t)
  next
    case True
    then have t: "dr_total d = round2 (fadd (cents (- m)) (cents (- n)))" using mn by simp
    have "\<not> 2 ^ 44 \<le> m" "\<not> 2 ^ 44 \<le> n"
      using round2_sub_ge[OF _ mn(2), of m] round2_sub_ge[OF _ mn(1), of n] small ex[of "- (2 ^ 44)"]
        exact_store_mono[OF st, of "dr_total d" "cents (- (2 ^ 44))"] by (auto simp: t fadd_comm)
    then have "dr_total d = cents (- m + - n)" unfolding t using mn by (intro round2_add) auto
    then show ?thesis using mn True ex[of "- m"] ex[of "- n"] ex[of "- m + - n"] \<open>\<not> 2 ^ 44 \<le> m\<close> \<open>\<not> 2 ^ 44 \<le> n\<close> by simp
  qed
qed

lemma draft_fiscal_nonneg:
  assumes r: "createInvoiceSchema r" "resolveInvoice u issueDate r db = Inr d" and k: "ci_kind r = FISCAL"
  shows "0 \<le> dr_total d"
proof -
  obtain m n where "0 \<le> m" "0 \<le> n" "if ci_kind r = STORNO then dr_subtotal d = cents (- m) \<and> dr_vat d = cents (- n)
      else dr_subtotal d = cents m \<and> dr_vat d = cents n" "dr_total d = round2 (fadd (dr_subtotal d) (dr_vat d))"
    using r by (rule resolveInvoice_amounts)
  then have mn: "0 \<le> m" "0 \<le> n" and t: "dr_total d = round2 (fadd (cents m) (cents n))" using k by auto
  show ?thesis unfolding t using mn by (intro round2_nonneg) (simp add: fadd_def fl_nonneg)
qed

lemma createInvoice_InrD:
  assumes "createInvoice env u r db = Inr (x, db')"
  obtains d ids db1 db2 where "createInvoiceSchema r" "\<not> periodClosed (act_company u) (currentPeriod (i_issueDate x)) db"
    "resolveInvoice u (i_issueDate x) r db = Inr d"
    "i_companyId x = act_company u" "i_kind x = ci_kind r" "i_number x = ci_number r"
    "i_subtotal x = storeDec env 100 (dr_subtotal d)" "i_vat x = storeDec env 100 (dr_vat d)"
    "i_total x = storeDec env 100 (dr_total d)"
    "i_status x = (if ci_kind r = PROFORMA then INVOICE_DRAFT else ISSUED)"
    "insertInvoice x db = Inr db1"
    "if ci_autoPost r \<and> ci_kind r \<noteq> PROFORMA then postInvoice env u r (i_issueDate x) d ids db1 = Inr db2 else db2 = db1"
    "db' = invalidateInvoiceListCache (invalidateFinancialStatementsCache
           (writeAudit u ''invoices'' (Some (i_id x)) ''CREATE'' (ci_reason r) db2))"
  using assms that
  by (auto simp: createInvoice_def Let_def bindR_eq_Inr split: if_splits)

lemma createInvoice_inv:
  assumes st: "exact_store (storeDec env)" and inv: "salesInv db" and c: "createInvoice env u r db = Inr (x, db')"
  shows "salesInv db'"
proof -
  obtain d ids db1 db2 where r: "createInvoiceSchema r" "resolveInvoice u (i_issueDate x) r db = Inr d"
    and op: "\<not> periodClosed (act_company u) (currentPeriod (i_issueDate x)) db"
    and x: "i_kind x = ci_kind r" "i_subtotal x = storeDec env 100 (dr_subtotal d)" "i_vat x = storeDec env 100 (dr_vat d)"
      "i_total x = storeDec env 100 (dr_total d)" "i_status x = (if ci_kind r = PROFORMA then INVOICE_DRAFT else ISSUED)"
    and ins: "insertInvoice x db = Inr db1"
    and post: "if ci_autoPost r \<and> ci_kind r \<noteq> PROFORMA then postInvoice env u r (i_issueDate x) d ids db1 = Inr db2 else db2 = db1"
    and db': "db' = invalidateInvoiceListCache (invalidateFinancialStatementsCache
           (writeAudit u ''invoices'' (Some (i_id x)) ''CREATE'' (ci_reason r) db2))"
    using c by (rule createInvoice_InrD)
  note i = insertInvoice_InrD[OF ins]
  have fresh: "i_id x \<notin> i_id ` set (invoices db)" using i by (auto simp: invoiceClash_def)
  then have "\<forall>p \<in> set (payments db). pay_invoiceId p \<noteq> i_id x" using inv unfolding salesInv_def by metis
  then have nopay: "invoiceAmounts (i_id x) db = []"
    by (simp add: invoiceAmounts_def paymentsOf_def filter_empty_conv)
  have "0 \<le> i_total x" if "i_kind x = FISCAL"
    using that draft_fiscal_nonneg[OF r] exact_store_mono[OF st, of 0 "dr_total d"] x st by simp
  then have ok: "invoiceOk db x"
    using draft_total_stored[OF st r] x nopay by (auto simp: invoiceOk_def invoiceSettled_def)
  have inv1: "salesInv db1"
    using inv i ok by (auto simp: salesInv_def invoiceOk_def invoiceAmounts_def paymentsOf_def sorted_wrt_append)
  have "ledgerInv db2 \<and> invoices db2 = invoices db1 \<and> payments db2 = payments db1"
  proof (cases "ci_autoPost r \<and> ci_kind r \<noteq> PROFORMA")
    case True
    then have p: "postInvoice env u r (i_issueDate x) d ids db1 = Inr db2" using post by simp
    have pc: "periodClosed c p db1 = periodClosed c p db" for c p using i by (intro periodClosed_frame) simp
    have li: "ledgerInv db1" using inv1 by (simp add: salesInv_def)
    have "ledgerInv db2"
      by (rule ledger_posting.post_inv[OF li _ _ p[unfolded postInvoice_def]])
        (simp_all add: autoEntry_postable invoiceLines_balanced[OF st r] pc op)
    then show ?thesis using insertEntry_sales p unfolding postInvoice_def by blast
  next
    case False then show ?thesis using post inv1 unfolding salesInv_def by auto
  qed
  then show ?thesis by (intro salesInv_cong[OF _ _ _ inv1]) (simp_all add: db')
qed

section \<open>Payments keep the invariant\<close>

lemma payInvoice_InrD:
  assumes "payInvoice env u i r db = Inr (pay, db')"
  obtains x ids db1 db2 db3 paid newStatus where "0 < pr_amount r" "\<not> periodClosed (act_company u) (currentPeriod (pay_date pay)) db"
    "findInvoice (act_company u) i db = Some x" "i_kind x = FISCAL" "i_status x \<in> {ISSUED, PARTIALLY_PAID}"
    "paid = round2 (reduceSum (map cents (invoiceAmounts (i_id x) db)))"
    "\<not> round2 (max (fsub (cents (i_total x)) paid) 0) < round2 (pr_amount r)"
    "pay_invoiceId pay = i_id x" "pay_amount pay = storeDec env 100 (round2 (pr_amount r))"
    "insertPayment pay db = Inr db1"
    "newStatus = (if cents (i_total x) \<le> round2 (fadd paid (round2 (pr_amount r))) then PAID else PARTIALLY_PAID)"
    "db2 = db1\<lparr>invoices := updateWhere (\<lambda>y. i_id y = i_id x) (\<lambda>y. y\<lparr>i_status := newStatus\<rparr>) (invoices db1)\<rparr>"
    "if pr_autoPost r then postPayment env u (pay_date pay) (round2 (pr_amount r)) (i_number x) ids db2 = Inr db3 else db3 = db2"
    "db' = invalidateInvoiceListCache (invalidateFinancialStatementsCache
           (writeAudit u ''payments'' (Some (pay_id pay)) ''CREATE'' (pr_reason r) db3))"
  using assms that
  by (auto simp: payInvoice_def Let_def bindR_eq_Inr paymentSchema_def openInvoiceStatuses_def invoiceAmounts_def comp_def
      split: if_splits option.splits)

text \<open>The pure step: one more payment on an open fiscal invoice.\<close>

lemma invoiceSettled_pay:
  assumes st: "exact_store st" and ok: "invoiceSettled ns x" and x: "i_kind x = FISCAL" "i_status x \<in> {ISSUED, PARTIALLY_PAID}"
    and k: "0 \<le> amount" "amount = round2 a"
    and paid: "paid = round2 (reduceSum (map cents ns))"
    and le: "\<not> round2 (max (fsub (cents (i_total x)) paid) 0) < amount"
  shows "invoiceSettled (ns @ [st 100 amount])
     (x\<lparr>i_status := (if cents (i_total x) \<le> round2 (fadd paid amount) then PAID else PARTIALLY_PAID)\<rparr>)"
proof -
  have nn: "\<forall>n \<in> set ns. 0 \<le> n" using ok by (simp add: invoiceSettled_def)
  obtain k where k0: "amount = cents k" using round2_grid k(2) by blast
  then have kn: "0 \<le> k" using k(1) by simp
  have s0: "0 \<le> st 100 amount" using exact_store_mono[OF st k(1)] st by simp
  have step: "sum_list ns + k \<le> i_total x \<and> st 100 amount = k \<and>
      (cents (i_total x) \<le> round2 (fadd paid amount) \<longleftrightarrow> sum_list ns + k = i_total x)"
    if f: "fits (ns @ [st 100 amount]) (i_total x)"
  proof -
    have f0: "fits ns (i_total x)" using f nn s0 by (rule fits_snoc)
    then have "sum_list ns \<le> i_total x" using ok x(1) by (simp add: invoiceSettled_def)
    from settle_step[OF st f0 nn this kn paid] le show ?thesis unfolding k0 by simp
  qed
  show ?thesis using ok x nn s0 step by (auto simp: invoiceSettled_def)
qed

lemma invoiceAmounts_insert:
  "payments db' = payments db @ [pay] \<Longrightarrow>
   invoiceAmounts i db' = invoiceAmounts i db @ (if pay_invoiceId pay = i then [pay_amount pay] else [])"
  by (simp add: invoiceAmounts_def paymentsOf_def)

lemma salesInv_unique:
  assumes "salesInv db" "x \<in> set (invoices db)" "y \<in> set (invoices db)" "i_id x = i_id y" shows "x = y"
proof -
  have "sorted_wrt (\<lambda>x y. i_id x \<noteq> i_id y) (invoices db)"
    using assms(1) by (auto simp: salesInv_def invoiceClash_def elim: sorted_wrt_mono_rel[rotated])
  then show ?thesis using assms(2-4) by (rule sorted_wrt_unique)
qed

lemma payInvoice_inv:
  assumes st: "exact_store (storeDec env)" and inv: "salesInv db" and c: "payInvoice env u i r db = Inr (pay, db')"
  shows "salesInv db'"
proof -
  obtain x ids db1 db2 db3 paid newStatus where a: "0 < pr_amount r" "\<not> periodClosed (act_company u) (currentPeriod (pay_date pay)) db"
    and x: "findInvoice (act_company u) i db = Some x" "i_kind x = FISCAL" "i_status x \<in> {ISSUED, PARTIALLY_PAID}"
    and paid: "paid = round2 (reduceSum (map cents (invoiceAmounts (i_id x) db)))"
    and le: "\<not> round2 (max (fsub (cents (i_total x)) paid) 0) < round2 (pr_amount r)"
    and pay: "pay_invoiceId pay = i_id x" "pay_amount pay = storeDec env 100 (round2 (pr_amount r))"
    and ins: "insertPayment pay db = Inr db1"
    and nx: "newStatus = (if cents (i_total x) \<le> round2 (fadd paid (round2 (pr_amount r))) then PAID else PARTIALLY_PAID)"
    and db2: "db2 = db1\<lparr>invoices := updateWhere (\<lambda>y. i_id y = i_id x) (\<lambda>y. y\<lparr>i_status := newStatus\<rparr>) (invoices db1)\<rparr>"
    and post: "if pr_autoPost r then postPayment env u (pay_date pay) (round2 (pr_amount r)) (i_number x) ids db2 = Inr db3 else db3 = db2"
    and db': "db' = invalidateInvoiceListCache (invalidateFinancialStatementsCache
           (writeAudit u ''payments'' (Some (pay_id pay)) ''CREATE'' (pr_reason r) db3))"
    using c by (rule payInvoice_InrD)
  note xm = findInvoice_SomeD[OF x(1)]
  have d1: "db1 = db\<lparr>payments := payments db @ [pay]\<rparr>" by (rule insertPayment_InrD[OF ins])
  have p2: "payments db2 = payments db @ [pay]" and i2: "invoices db2 = updateWhere (\<lambda>y. i_id y = i_id x) (\<lambda>y. y\<lparr>i_status := newStatus\<rparr>) (invoices db)"
    by (simp_all add: db2 d1)
  have "0 \<le> round2 (pr_amount r)" using a(1) by (intro round2_nonneg) simp
  from invoiceSettled_pay[OF st _ x(2,3) this refl paid le]
  have okx: "invoiceOk db2 (x\<lparr>i_status := newStatus\<rparr>)"
    using inv xm pay by (auto simp: salesInv_def invoiceOk_def invoiceAmounts_insert[OF p2] nx)
  have ok: "invoiceOk db2 (if i_id y = i_id x then y\<lparr>i_status := newStatus\<rparr> else y)" if "y \<in> set (invoices db)" for y
    using okx salesInv_unique[OF inv that, of x] xm inv that pay(1)
    by (auto simp: salesInv_def invoiceOk_def invoiceAmounts_insert[OF p2])
  have clash: "invoiceClash (if i_id a = i_id x then a\<lparr>i_status := newStatus\<rparr> else a) (if i_id b = i_id x then b\<lparr>i_status := newStatus\<rparr> else b) = invoiceClash a b" for a b
    by (simp add: invoiceClash_def)
  have ids: "i_id ` set (invoices db2) = i_id ` set (invoices db)" 
  proof -
    have "map i_id (invoices db2) = map i_id (invoices db)" unfolding i2 by (rule map_updateWhere) simp
    then show ?thesis by (metis list.set_map)
  qed
  have li2: "ledgerInv db2" using inv by (simp add: db2 d1 salesInv_def)
  have so: "sorted_wrt (\<lambda>a b. \<not> invoiceClash a b) (invoices db2)"
    using inv clash by (simp add: salesInv_def i2 updateWhere_def sorted_wrt_map)
  have "i_id x \<in> i_id ` set (invoices db)" using xm by blast
  then have pays: "\<forall>p \<in> set (payments db2). pay_invoiceId p \<in> i_id ` set (invoices db2)"
    unfolding ids p2 using inv by (simp add: salesInv_def pay(1))
  have oks: "\<forall>y \<in> set (invoices db2). invoiceOk db2 y" unfolding i2 updateWhere_set using ok by blast
  from li2 so pays oks have inv2: "salesInv db2" by (simp add: salesInv_def)
  have "ledgerInv db3 \<and> invoices db3 = invoices db2 \<and> payments db3 = payments db2"
  proof (cases "pr_autoPost r")
    case True
    then have p: "postPayment env u (pay_date pay) (round2 (pr_amount r)) (i_number x) ids db2 = Inr db3" using post by simp
    have pc: "periodClosed c p db2 = periodClosed c p db" for c p by (intro periodClosed_frame) (simp add: db2 d1)
    have "ledgerInv db3"
      by (rule ledger_posting.post_inv[OF li2 _ _ p[unfolded postPayment_def]])
        (simp_all add: autoEntry_postable two_lines_balanced[OF st] pc a)
    then show ?thesis using insertEntry_sales p unfolding postPayment_def by blast
  next
    case False then show ?thesis using post inv2 by (simp add: salesInv_def)
  qed
  then show ?thesis by (intro salesInv_cong[OF _ _ _ inv2]) (simp_all add: db')
qed

section \<open>The steps of the sales component\<close>

inductive sales_step :: "'z sales_scheme \<Rightarrow> 'z sales_scheme \<Rightarrow> bool" where
  issue: "exact_store (storeDec env) \<Longrightarrow> createInvoice env u r db = Inr (x, db') \<Longrightarrow> sales_step db db'"
| pay: "exact_store (storeDec env) \<Longrightarrow> payInvoice env u i p db = Inr (y, db') \<Longrightarrow> sales_step db db'"

inductive_cases sales_stepE: "sales_step db db'"

lemma sales_step_inv: "sales_step db db' \<Longrightarrow> salesInv db \<Longrightarrow> salesInv db'"
  by (erule sales_stepE) (auto intro: createInvoice_inv payInvoice_inv)

lemma sales_reach_inv: "sales_step\<^sup>*\<^sup>* db db' \<Longrightarrow> salesInv db \<Longrightarrow> salesInv db'"
  by (induction rule: rtranclp_induct) (auto intro: sales_step_inv)

section \<open>A worked example\<close>

definition demoSales :: sales where
  "demoSales = \<lparr> accounts =
       [\<lparr> a_id = ''R'', a_companyId = ''c'', a_code = ''4111'', a_isActive = True, a_name = [], a_type = ASSET, a_currency = ''RON'' \<rparr>,
        \<lparr> a_id = ''V'', a_companyId = ''c'', a_code = ''707'', a_isActive = True, a_name = [], a_type = ASSET, a_currency = ''RON'' \<rparr>,
        \<lparr> a_id = ''T'', a_companyId = ''c'', a_code = ''4427'', a_isActive = True, a_name = [], a_type = ASSET, a_currency = ''RON'' \<rparr>,
        \<lparr> a_id = ''B'', a_companyId = ''c'', a_code = ''5121'', a_isActive = True, a_name = [], a_type = ASSET, a_currency = ''RON'' \<rparr>],
     periods = [], entries = [], auditLog = [], fsCache = [],
     partners = [\<lparr> pt_id = ''p'', pt_companyId = ''c'', pt_type = BOTH, pt_name = ''P'', pt_cui = None \<rparr>],
     invoices = [], payments = [], invoiceListKeys = [] \<rparr>"

definition demoInvoiceRequest :: create_invoice_req where
  "demoInvoiceRequest = \<lparr> ci_number = ''F1'', ci_kind = FISCAL, ci_stornoOfInvoiceId = None, ci_partnerId = Some ''p'',
     ci_issueDate = None, ci_dueDate = Some 1706745600000, ci_currency = ''RON'', ci_subtotal = Some (cents 10010),
     ci_vat = Some (cents 1902), ci_description = None, ci_autoPost = True, ci_revenueAccountCode = ''707'',
     ci_receivableAccountCode = ''4111'', ci_vatAccountCode = ''4427'', ci_reason = None \<rparr>"

definition demoStornoRequest :: "string \<Rightarrow> create_invoice_req" where
  "demoStornoRequest num = demoInvoiceRequest\<lparr> ci_number := num, ci_kind := STORNO, ci_stornoOfInvoiceId := Some ''i0'' \<rparr>"

definition demoPayment :: "double \<Rightarrow> payment_req" where
  "demoPayment x = \<lparr> pr_amount = x, pr_method = CASH, pr_date = None, pr_reference = None, pr_autoPost = False,
     pr_bankAccountCode = ''5121'', pr_counterAccountCode = ''4111'', pr_reason = None \<rparr>"

definition demoInvoice :: "InvoiceStatus \<Rightarrow> invoice" where
  "demoInvoice st = \<lparr> i_id = ''i0'', i_companyId = ''c'', i_number = ''F1'', i_kind = FISCAL, i_stornoOfInvoiceId = None,
     i_partnerId = ''p'', i_issueDate = 1706745600000, i_dueDate = 1706745600000, i_currency = ''RON'',
     i_subtotal = 10010, i_vat = 1902, i_total = 11912, i_status = st, i_description = None \<rparr>"

definition demoInvoiceEntry :: journal_entry where
  "demoInvoiceEntry = \<lparr> je_id = ''i1'', je_companyId = ''c'', je_number = Some ''NC-2024-000001'', je_date = 1706745600000,
     je_description = ''Postare automata factura F1'', je_period = ''2024-02'', je_status = VALIDATED, je_posted = True,
     je_sourceModule = Some ''ACCOUNTS_RECEIVABLE'', je_reversalOfEntryId = None, je_createdById = ''u'',
     je_lines = [\<lparr> jl_accountId = ''R'', jl_debit = 11912, jl_credit = 0, jl_explanation = Some ''Factura F1'' \<rparr>,
       \<lparr> jl_accountId = ''V'', jl_debit = 0, jl_credit = 10010, jl_explanation = Some ''Venit factura F1'' \<rparr>,
       \<lparr> jl_accountId = ''T'', jl_debit = 0, jl_credit = 1902, jl_explanation = Some ''TVA colectata factura F1'' \<rparr>] \<rparr>"

definition demoAuditRow :: "string \<Rightarrow> id \<Rightarrow> audit_row" where
  "demoAuditRow t i = \<lparr> au_tableName = t, au_recordId = Some i, au_action = ''CREATE'', au_reason = None,
     au_userId = ''u'', au_companyId = ''c'' \<rparr>"

definition demoInvoiced :: sales where
  "demoInvoiced = demoSales\<lparr> entries := [demoInvoiceEntry], auditLog := [demoAuditRow ''invoices'' ''i0''],
     invoices := [demoInvoice ISSUED] \<rparr>"

definition demoPaymentRow :: "id \<Rightarrow> int \<Rightarrow> payment" where
  "demoPaymentRow i n = \<lparr> pay_id = i, pay_companyId = ''c'', pay_invoiceId = ''i0'', pay_partnerId = ''p'',
     pay_date = 1706745600000, pay_amount = n, pay_method = CASH, pay_reference = None \<rparr>"

definition demoPaid :: "int \<Rightarrow> InvoiceStatus \<Rightarrow> sales" where
  "demoPaid n st = demoSales\<lparr> entries := [demoInvoiceEntry],
     auditLog := [demoAuditRow ''invoices'' ''i0'', demoAuditRow ''payments'' ''q0''],
     invoices := [demoInvoice st], payments := [demoPaymentRow ''q0'' n] \<rparr>"

lemma demo_issue: "createInvoice (demoEnv ''i'') demoActor demoInvoiceRequest demoSales = Inr (demoInvoice ISSUED, demoInvoiced)"
  by code_simp

lemma demo_pay: "payInvoice (demoEnv ''q'') demoActor ''i0'' (demoPayment (cents 11912)) demoInvoiced =
    Inr (demoPaymentRow ''q0'' 11912, demoPaid 11912 PAID)"
  by code_simp

lemma demo_pay_zero: "payInvoice (demoEnv ''q'') demoActor ''i0'' (demoPayment (1 / 1024)) demoInvoiced =
    Inr (demoPaymentRow ''q0'' 0, demoPaid 0 PARTIALLY_PAID)"
  by code_simp

lemma demo_sales_inv: "salesInv demoSales"
  by (simp add: salesInv_def demoSales_def ledgerInv_empty)

lemma demo_sales_reach: "sales_step\<^sup>*\<^sup>* demoSales (demoPaid 11912 PAID)"
proof -
  have "sales_step demoSales demoInvoiced" by (rule sales_step.issue[OF demoEnv_exact demo_issue])
  moreover have "sales_step demoInvoiced (demoPaid 11912 PAID)" by (rule sales_step.pay[OF demoEnv_exact demo_pay])
  ultimately show ?thesis by simp
qed

lemma salesInv_reach_ok:
  assumes "sales_step\<^sup>*\<^sup>* db db'" "salesInv db" "x \<in> set (invoices db')"
  shows "invoiceSettled (invoiceAmounts (i_id x) db') x" "\<bar>i_total x\<bar> < 2 ^ 44 \<longrightarrow> i_total x = i_subtotal x + i_vat x"
  using sales_reach_inv[OF assms(1,2)] assms(3) by (auto simp: salesInv_def invoiceOk_def)

section \<open>Properties\<close>

text \<open>C7: In every state the sales routes reach, the payments of a fiscal invoice never exceed its total;
  it is paid exactly when they reach it, and issued exactly when there is none; a storno or proforma
  invoice has none; and the total is the subtotal plus the VAT (for the sizes where double sums are
  exact).\<close>

theorem invoices_settled:
  assumes "sales_step\<^sup>*\<^sup>* db db'" "salesInv db" "x \<in> set (invoices db')"
  shows "(i_kind x = FISCAL \<and> fits (invoiceAmounts (i_id x) db') (i_total x) \<longrightarrow>
      sum_list (invoiceAmounts (i_id x) db') \<le> i_total x \<and>
      (i_status x = PAID \<longleftrightarrow> invoiceAmounts (i_id x) db' \<noteq> [] \<and> sum_list (invoiceAmounts (i_id x) db') = i_total x)) \<and>
    (i_kind x = FISCAL \<longrightarrow> (i_status x = ISSUED \<longleftrightarrow> invoiceAmounts (i_id x) db' = [])) \<and>
    (i_kind x \<noteq> FISCAL \<longrightarrow> invoiceAmounts (i_id x) db' = []) \<and>
    (\<bar>i_total x\<bar> < 2 ^ 44 \<longrightarrow> i_total x = i_subtotal x + i_vat x)"
  using salesInv_reach_ok[OF assms] by (simp add: invoiceSettled_def)

theorem invoices_settled_witness:
  "sum_list (invoiceAmounts ''i0'' (demoPaid 11912 PAID)) = i_total (demoInvoice PAID)"
proof -
  have m: "demoInvoice PAID \<in> set (invoices (demoPaid 11912 PAID))" by (simp add: demoPaid_def)
  have f: "fits (invoiceAmounts ''i0'' (demoPaid 11912 PAID)) 11912" by code_simp
  have p: "i_id (demoInvoice PAID) = ''i0''" "i_kind (demoInvoice PAID) = FISCAL" "i_status (demoInvoice PAID) = PAID"
    "i_total (demoInvoice PAID) = 11912"
    by (simp_all add: demoInvoice_def)
  show ?thesis using invoices_settled[OF demo_sales_reach demo_sales_inv m] unfolding p using f by simp
qed

text \<open>C8: An invoice issued with automatic posting adds exactly one journal entry: posted, into the
  open period of its issue date, with equal debits and credits. A fiscal invoice debits the receivable
  with its stored total and credits revenue and VAT.\<close>

theorem invoice_posting:
  assumes "exact_store (storeDec env)" "createInvoice env u r db = Inr (x, db')" "ci_autoPost r" "ci_kind r \<noteq> PROFORMA"
  shows "\<exists>e. entries db' = entries db @ [e] \<and> je_posted e \<and> je_companyId e = act_company u \<and>
    je_period e = currentPeriod (i_issueDate x) \<and> \<not> periodClosed (act_company u) (je_period e) db \<and>
    (small (je_lines e) \<longrightarrow> debits (je_lines e) = credits (je_lines e)) \<and>
    (ci_kind r = FISCAL \<longrightarrow> map (\<lambda>l. (jl_debit l, jl_credit l)) (je_lines e) = [(i_total x, 0), (0, i_subtotal x), (0, i_vat x)])"
proof -
  obtain d ids db1 db2 where r: "createInvoiceSchema r" "resolveInvoice u (i_issueDate x) r db = Inr d"
    and op: "\<not> periodClosed (act_company u) (currentPeriod (i_issueDate x)) db"
    and x: "i_subtotal x = storeDec env 100 (dr_subtotal d)" "i_vat x = storeDec env 100 (dr_vat d)"
      "i_total x = storeDec env 100 (dr_total d)"
    and ins: "insertInvoice x db = Inr db1"
    and post: "if ci_autoPost r \<and> ci_kind r \<noteq> PROFORMA then postInvoice env u r (i_issueDate x) d ids db1 = Inr db2 else db2 = db1"
    and db': "db' = invalidateInvoiceListCache (invalidateFinancialStatementsCache
           (writeAudit u ''invoices'' (Some (i_id x)) ''CREATE'' (ci_reason r) db2))"
    using assms(2) by (rule createInvoice_InrD)
  define e where "e = autoEntry env u (uuid env 1) (i_issueDate x)
       ((if ci_kind r = STORNO then ''Postare automata storno '' else ''Postare automata factura '') @ ci_number r)
       (currentPeriod (i_issueDate x)) ''ACCOUNTS_RECEIVABLE'' (invoiceLines (ci_kind r) (ci_number r) d ids) db1"
  have "insertEntry e db1 = Inr db2" using post assms(3,4) by (simp add: postInvoice_def e_def)
  then have "entries db' = entries db @ [e]"
    using insertEntry_InrD[of e db1 db2] insertInvoice_InrD[OF ins] by (simp add: db')
  moreover have "balanced (je_lines e)" using invoiceLines_balanced[OF assms(1) r] by (simp add: e_def)
  moreover have "map (\<lambda>l. (jl_debit l, jl_credit l)) (je_lines e) = [(i_total x, 0), (0, i_subtotal x), (0, i_vat x)]"
    if "ci_kind r = FISCAL"
    using that assms(1) by (simp add: e_def invoiceLines_def storeLines_def storeLine_def x)
  ultimately show ?thesis using op by (intro exI[of _ e]) (auto simp: e_def balanced_def)
qed

theorem invoice_posting_witness: "debits (je_lines demoInvoiceEntry) = credits (je_lines demoInvoiceEntry)"
proof -
  have "ci_autoPost demoInvoiceRequest" "ci_kind demoInvoiceRequest \<noteq> PROFORMA" by (simp_all add: demoInvoiceRequest_def)
  from invoice_posting[OF demoEnv_exact demo_issue this]
  have "small (je_lines demoInvoiceEntry) \<longrightarrow> debits (je_lines demoInvoiceEntry) = credits (je_lines demoInvoiceEntry)"
    by (auto simp: demoInvoiced_def demoSales_def)
  moreover have "small (je_lines demoInvoiceEntry)" by (simp add: demoInvoiceEntry_def small_def)
  ultimately show ?thesis by simp
qed

text \<open>The storno of a fiscal invoice books the same amounts on the opposite sides: receivable
  credited with the source's total, revenue and VAT debited with its subtotal and VAT.\<close>

lemma invoice_storno_swaps:
  assumes "exact_store st" "resolveStorno u issueDate r db = Inr d" "findInvoice (act_company u) (orElse (ci_stornoOfInvoiceId r) []) db = Some src"
    and "0 \<le> i_subtotal src" "0 \<le> i_vat src" "i_total src = i_subtotal src + i_vat src" "i_total src < 2 ^ 44"
  shows "map (\<lambda>l. (jl_debit l, jl_credit l)) (storeLines st (invoiceLines STORNO num d ids)) =
      [(0, i_total src), (i_subtotal src, 0), (i_vat src, 0)] \<and>
    st 100 (dr_total d) = - i_total src"
proof -
  note ex = exact_storeD(1)[OF assms(1)]
  have d: "dr_subtotal d = round2 (- \<bar>cents (i_subtotal src)\<bar>)" "dr_vat d = round2 (- \<bar>cents (i_vat src)\<bar>)"
    "dr_total d = round2 (fadd (dr_subtotal d) (dr_vat d))"
    using assms(2,3) by (auto simp: resolveStorno_def Let_def split: if_splits)
  have sub: "dr_subtotal d = cents (- i_subtotal src)" and vat: "dr_vat d = cents (- i_vat src)"
    using assms(4-7) round2_cents[of "- i_subtotal src"] round2_cents[of "- i_vat src"]
    by (simp_all add: d cent.grid_abs cent.grid_minus)
  have "dr_total d = cents (- i_subtotal src + - i_vat src)"
    unfolding d(3) sub vat using assms(4-7) by (intro round2_add) auto
  then have tot: "dr_total d = cents (- i_total src)" using assms(6) by simp
  have ab: "round2 \<bar>cents (- n)\<bar> = cents n" if "0 \<le> n" "n < 2 ^ 44" for n
    using that by (simp add: cent.grid_abs)
  have bounds: "i_subtotal src < 2 ^ 44" "i_vat src < 2 ^ 44" "0 \<le> i_total src" using assms(4-7) by auto
  have "st 100 (round2 \<bar>dr_total d\<bar>) = i_total src" "st 100 (round2 \<bar>dr_subtotal d\<bar>) = i_subtotal src"
    "st 100 (round2 \<bar>dr_vat d\<bar>) = i_vat src" "st 100 (dr_total d) = - i_total src"
    using assms(4-7) bounds by (simp_all only: tot sub vat ab) (simp_all add: ex)
  then show ?thesis using assms(1) by (simp add: invoiceLines_def storeLines_def storeLine_def)
qed

lemma invoice_storno_swaps_example:
  "map (\<lambda>l. (jl_debit l, jl_credit l)) (storeLines nearestColumn (invoiceLines STORNO ''S1''
     (projr (resolveStorno demoActor 0 (demoStornoRequest ''S1'') demoInvoiced)) [''R'', ''V'', ''T''])) =
   [(0, 11912), (10010, 0), (1902, 0)]"
proof -
  have f: "findInvoice (act_company demoActor) (orElse (ci_stornoOfInvoiceId (demoStornoRequest ''S1'')) []) demoInvoiced =
      Some (demoInvoice ISSUED)"
    by code_simp
  then obtain d where d: "resolveStorno demoActor 0 (demoStornoRequest ''S1'') demoInvoiced = Inr d"
    by (auto simp: resolveStorno_def demoInvoice_def Let_def)
  note s = invoice_storno_swaps[OF nearestColumn_exact d f, of "''S1''" "[''R'', ''V'', ''T'']"]
  show ?thesis using s by (simp add: d) (simp add: demoInvoice_def)
qed

text \<open>A payment is refused exactly when its rounded amount exceeds what is still open: on an open
  fiscal invoice, with the period open and a free row id, the route accepts \<open>k\<close> cents if and only if
  the payments so far and \<open>k\<close> together do not exceed the total.\<close>

lemma payment_accepted:
  assumes "salesInv db" "findInvoice (act_company u) i db = Some x" "i_kind x = FISCAL" "i_status x \<noteq> PAID"
    and "fits (invoiceAmounts (i_id x) db) (i_total x)" "0 < pr_amount r" "round2 (pr_amount r) = cents k"
    and "\<not> pr_autoPost r" "\<not> periodClosed (act_company u) (currentPeriod (orElse (pr_date r) (now env))) db"
    and "uuid env 0 \<notin> pay_id ` set (payments db)"
  shows "is_ok (payInvoice env u i r db) \<longleftrightarrow> sum_list (invoiceAmounts (i_id x) db) + k \<le> i_total x"
proof -
  let ?ns = "invoiceAmounts (i_id x) db"
  have ok: "invoiceSettled ?ns x" using assms(1) findInvoice_SomeD[OF assms(2)] by (auto simp: salesInv_def invoiceOk_def)
  have nn: "\<forall>n \<in> set ?ns. 0 \<le> n" and le: "sum_list ?ns \<le> i_total x" and st: "i_status x \<in> set openInvoiceStatuses"
    using ok assms(3-5) by (auto simp: invoiceSettled_def openInvoiceStatuses_def)
  have s: "0 \<le> sum_list ?ns" using nn by (rule sum_list_nonneg_int)
  have T: "i_total x < 2 ^ 44" using assms(5) by (simp add: fits_def)
  have paid: "round2 (reduceSum (map (\<lambda>p. toNumber (column 100 (pay_amount p))) (paymentsOf (i_id x) db))) = cents (sum_list ?ns)"
    using fits_sum[OF assms(5) nn] by (simp add: invoiceAmounts_def comp_def)
  have "0 \<le> fsub (cents (i_total x)) (cents (sum_list ?ns))"
    unfolding fsub_def using cent.grid_mono[OF le] by (intro fl_nonneg) simp
  then have "round2 (max (fsub (cents (i_total x)) (cents (sum_list ?ns))) 0) = cents (i_total x - sum_list ?ns)"
    using s le T by (simp add: max_absorb1 round2_sub)
  moreover have "cents (i_total x - sum_list ?ns) < cents k \<longleftrightarrow> i_total x - sum_list ?ns < k"
    using s le T by (intro cent.grid_less_cmp) simp
  ultimately have "is_ok (payInvoice env u i r db) \<longleftrightarrow> \<not> i_total x - sum_list ?ns < k"
    using assms(2,3,6-10) st paid
    by (auto simp: payInvoice_def Let_def paymentSchema_def insertPayment_def list_ex_iff image_iff assertPeriodOpen_def)
  then show ?thesis by auto
qed

lemma payment_accepted_example:
  "\<not> is_ok (payInvoice (demoEnv ''q'') demoActor ''i0'' (demoPayment (cents 11913)) demoInvoiced)"
proof -
  have inv: "salesInv demoInvoiced" using sales_step_inv[OF sales_step.issue[OF demoEnv_exact demo_issue] demo_sales_inv] .
  have f: "findInvoice (act_company demoActor) ''i0'' demoInvoiced = Some (demoInvoice ISSUED)" by code_simp
  have ns: "invoiceAmounts (i_id (demoInvoice ISSUED)) demoInvoiced = []" by code_simp
  have fit: "fits (invoiceAmounts (i_id (demoInvoice ISSUED)) demoInvoiced) (i_total (demoInvoice ISSUED))"
    unfolding ns by (simp add: fits_def demoInvoice_def)
  have r: "round2 (pr_amount (demoPayment (cents 11913))) = cents 11913"
    unfolding demoPayment_def payment_req.simps by (rule round2_cents) simp
  have pos: "0 < pr_amount (demoPayment (cents 11913))" "\<not> pr_autoPost (demoPayment (cents 11913))"
    by (simp_all add: demoPayment_def)
  have open_period: "\<not> periodClosed (act_company demoActor) p demoInvoiced" for p
    by (simp add: periodClosed_def findPeriod_def demoInvoiced_def demoSales_def)
  have fresh: "uuid (demoEnv ''q'') 0 \<notin> pay_id ` set (payments demoInvoiced)"
    by (simp add: demoInvoiced_def demoSales_def)
  have kind: "i_kind (demoInvoice ISSUED) = FISCAL" "i_status (demoInvoice ISSUED) \<noteq> PAID" by (simp_all add: demoInvoice_def)
  note w = payment_accepted[OF inv f kind fit pos(1) r pos(2) open_period fresh]
  show ?thesis unfolding w ns by (simp add: demoInvoice_def)
qed

text \<open>A positive payment of less than half a cent passes the schema and the open-amount check,
  is stored as zero, and moves an issued invoice to partially paid.\<close>

lemma zero_payment:
  assumes "exact_store (storeDec env)" "payInvoice env u i r db = Inr (p, db')" "pr_amount r \<le> 1 / 250"
    and "findInvoice (act_company u) i db = Some x" "i_status x = ISSUED" "0 < i_total x" "invoiceAmounts (i_id x) db = []"
    and "\<bar>i_total x\<bar> \<le> 2 ^ 44"
  shows "pay_amount p = 0 \<and> (\<exists>y \<in> set (invoices db'). i_id y = i_id x \<and> i_status y = PARTIALLY_PAID)"
proof -
  obtain y ids db1 db2 db3 paid newStatus where a: "0 < pr_amount r"
    and x: "findInvoice (act_company u) i db = Some y"
    and paid: "paid = round2 (reduceSum (map cents (invoiceAmounts (i_id y) db)))"
    and pay: "pay_amount p = storeDec env 100 (round2 (pr_amount r))"
    and ins: "insertPayment p db = Inr db1"
    and nx: "newStatus = (if cents (i_total y) \<le> round2 (fadd paid (round2 (pr_amount r))) then PAID else PARTIALLY_PAID)"
    and db2: "db2 = db1\<lparr>invoices := updateWhere (\<lambda>z. i_id z = i_id y) (\<lambda>z. z\<lparr>i_status := newStatus\<rparr>) (invoices db1)\<rparr>"
    and post: "if pr_autoPost r then postPayment env u (pay_date p) (round2 (pr_amount r)) (i_number y) ids db2 = Inr db3 else db3 = db2"
    and db': "db' = invalidateInvoiceListCache (invalidateFinancialStatementsCache
           (writeAudit u ''payments'' (Some (pay_id p)) ''CREATE'' (pr_reason r) db3))"
    using assms(2) by (rule payInvoice_InrD)
  have y: "y = x" using x assms(4) by simp
  have z: "round2 (pr_amount r) = 0"
    using cent.roundTo_near[of "pr_amount r" 0] a assms(3) by (simp add: round2_eq)
  have "newStatus = PARTIALLY_PAID" using nx assms(6,7) by (simp add: y paid z reduceSum_def fadd_def not_le)
  moreover have "invoices db' = invoices db2"
    using post insertEntry_sales unfolding db' postPayment_def by (auto split: if_splits)
  moreover have "x \<in> set (invoices db1)" using findInvoice_SomeD[OF assms(4)] insertPayment_InrD[OF ins] by simp
  ultimately have "x\<lparr>i_status := PARTIALLY_PAID\<rparr> \<in> set (invoices db')"
    by (auto simp: db2 updateWhere_set y image_iff)
  then show ?thesis using pay z assms(1) by (auto intro!: bexI[of _ "x\<lparr>i_status := PARTIALLY_PAID\<rparr>"])
qed

lemma zero_payment_example: "pay_amount (demoPaymentRow ''q0'' 0) = 0 \<and> invoices (demoPaid 0 PARTIALLY_PAID) \<noteq> invoices demoInvoiced"
proof
  have f: "findInvoice (act_company demoActor) ''i0'' demoInvoiced = Some (demoInvoice ISSUED)" by code_simp
  have ns: "invoiceAmounts ''i0'' demoInvoiced = []" by code_simp
  have "pay_amount (demoPaymentRow ''q0'' 0) = 0 \<and>
      (\<exists>y \<in> set (invoices (demoPaid 0 PARTIALLY_PAID)). i_id y = i_id (demoInvoice ISSUED) \<and> i_status y = PARTIALLY_PAID)"
    by (rule zero_payment[OF demoEnv_exact demo_pay_zero _ f]) (simp_all add: demoPayment_def demoInvoice_def ns)
  then show "pay_amount (demoPaymentRow ''q0'' 0) = 0" "invoices (demoPaid 0 PARTIALLY_PAID) \<noteq> invoices demoInvoiced"
    by (auto simp: demoPaid_def demoInvoiced_def demoInvoice_def)
qed

end
