(* ===== verification/Purchases.thy ===== *)
theory Purchases
  imports Invoices
begin

text \<open>
  Purchases (routes/purchases.ts): supplier invoices, their approval in three or four levels by role
  or by delegation, rejection, payment of approved invoices, and the aging report. The invariant
  relates the recorded approvals to the level of an invoice and its payments to its total.
\<close>

section \<open>Tables\<close>

datatype SupplierInvoiceStatus = SI_DRAFT | RECEIVED | SI_PARTIALLY_PAID | SI_PAID | SI_CANCELLED
datatype ApprovalStatus = PENDING_LEVEL_1 | PENDING_LEVEL_2 | PENDING_LEVEL_3 | PENDING_LEVEL_4 | APPROVED | REJECTED
datatype ApprovalAction = APPROVE | REJECT
datatype ApprovalChannel = WEB | MOBILE

record supplier_invoice =
  si_id :: id
  si_companyId :: id
  si_number :: string
  si_supplierId :: id
  si_receivedDate :: date
  si_dueDate :: date
  si_currency :: string
  si_subtotal :: int
  si_vat :: int
  si_total :: int
  si_status :: SupplierInvoiceStatus
  si_approvalStatus :: ApprovalStatus
  si_approvalCurrentLevel :: int
  si_approvalRequiredLevel :: int
  si_approvalRequestedAt :: "date option"
  si_approvalFinalizedAt :: "date option"
  si_approvalFinalizedById :: "id option"
  si_approvalRejectedReason :: "string option"
  si_description :: "string option"

record approval =
  ap_id :: id
  ap_companyId :: id
  ap_supplierInvoiceId :: id
  ap_level :: int
  ap_action :: ApprovalAction
  ap_channel :: ApprovalChannel
  ap_note :: "string option"
  ap_approvedById :: id
  ap_delegatedFromUserId :: "id option"

record delegation =
  dg_id :: id
  dg_companyId :: id
  dg_fromUserId :: id
  dg_toUserId :: id
  dg_startsAt :: date
  dg_endsAt :: date
  dg_isActive :: bool
  dg_reason :: "string option"
  dg_createdAt :: date

record supplier_payment =
  sp_id :: id
  sp_companyId :: id
  sp_supplierInvoiceId :: id
  sp_supplierId :: id
  sp_date :: date
  sp_amount :: int
  sp_method :: PaymentMethod
  sp_reference :: "string option"

record purchasing = sales +
  memberships :: "membership list"
  supplierInvoices :: "supplier_invoice list"
  approvals :: "approval list"
  delegations :: "delegation list"
  supplierPayments :: "supplier_payment list"

section \<open>Levels and roles\<close>

definition LEVEL_4_APPROVAL_THRESHOLD_RON :: double where
  "LEVEL_4_APPROVAL_THRESHOLD_RON = 50000"

definition requiredRolesByLevel :: "int \<Rightarrow> Role list" where
  "requiredRolesByLevel level =
     (if level = 1 then [ADMIN, CHIEF_ACCOUNTANT, ACCOUNTANT]
      else if level = 2 then [ADMIN, CHIEF_ACCOUNTANT, MANAGER]
      else if level = 3 \<or> level = 4 then [ADMIN, CHIEF_ACCOUNTANT] else [])"

definition resolveRequiredApprovalLevel :: "double \<Rightarrow> int" where
  "resolveRequiredApprovalLevel invTotal = (if LEVEL_4_APPROVAL_THRESHOLD_RON \<le> invTotal then 4 else 3)"

definition isRoleAllowedForLevel :: "Role \<Rightarrow> int \<Rightarrow> bool" where
  "isRoleAllowedForLevel role level \<longleftrightarrow> role \<in> set (requiredRolesByLevel level)"

definition levelToPendingStatus :: "int \<Rightarrow> ApprovalStatus" where
  "levelToPendingStatus level =
     (if level = 1 then PENDING_LEVEL_1 else if level = 2 then PENDING_LEVEL_2
      else if level = 3 then PENDING_LEVEL_3 else PENDING_LEVEL_4)"

definition companyRoleOf :: "id \<Rightarrow> id \<Rightarrow> 'z purchasing_scheme \<Rightarrow> Role option" where
  "companyRoleOf c uid db = map_option m_role (find (\<lambda>m. m_companyId m = c \<and> m_userId m = uid) (memberships db))"

text \<open>\<open>findFirst\<close> over the active delegations to the user, the latest start first.\<close>

definition activeDelegation :: "id \<Rightarrow> id \<Rightarrow> date \<Rightarrow> 'z purchasing_scheme \<Rightarrow> delegation option" where
  "activeDelegation c uid t db =
     (case sort_key (\<lambda>d. - dg_startsAt d) (sort_key (\<lambda>d. - dg_createdAt d)
        (filter (\<lambda>d. dg_companyId d = c \<and> dg_toUserId d = uid \<and> dg_isActive d \<and> dg_startsAt d \<le> t \<and> t \<le> dg_endsAt d)
          (delegations db))) of
        [] \<Rightarrow> None | d # _ \<Rightarrow> Some d)"

definition resolveApprovalActor ::
  "actor \<Rightarrow> Role \<Rightarrow> int \<Rightarrow> date \<Rightarrow> 'z purchasing_scheme \<Rightarrow> http_error + (id \<times> id option)" where
  "resolveApprovalActor u actingRole level t db =
     (if isRoleAllowedForLevel actingRole level then Inr (act_user u, None)
      else case activeDelegation (act_company u) (act_user u) t db of
        None \<Rightarrow> Inl (forbidden ''Nu ai drept de aprobare pentru nivelul curent.'')
      | Some d \<Rightarrow> (case companyRoleOf (act_company u) (dg_fromUserId d) db of
            None \<Rightarrow> Inl (forbidden ''Nu ai drept de aprobare pentru nivelul curent.'')
          | Some fromRole \<Rightarrow>
              if isRoleAllowedForLevel fromRole level then Inr (act_user u, Some (dg_fromUserId d))
              else Inl (forbidden ''Nu ai drept de aprobare pentru nivelul curent.'')))"

lemma resolveApprovalActor_InrD:
  assumes "resolveApprovalActor u role c t db = Inr (a, fromId)"
  shows "a = act_user u" "isRoleAllowedForLevel role c \<or>
     (\<exists>d \<in> set (delegations db). dg_companyId d = act_company u \<and> dg_toUserId d = act_user u \<and> dg_isActive d \<and>
        dg_startsAt d \<le> t \<and> t \<le> dg_endsAt d \<and> fromId = Some (dg_fromUserId d) \<and>
        (\<exists>m \<in> set (memberships db). m_companyId m = act_company u \<and> m_userId m = dg_fromUserId d \<and> isRoleAllowedForLevel (m_role m) c))"
proof -
  have dl: "d \<in> set (delegations db) \<and> dg_companyId d = act_company u \<and> dg_toUserId d = act_user u \<and> dg_isActive d \<and>
      dg_startsAt d \<le> t \<and> t \<le> dg_endsAt d" if "activeDelegation (act_company u) (act_user u) t db = Some d" for d
  proof -
    have "d \<in> set (sort_key (\<lambda>d. - dg_startsAt d) (sort_key (\<lambda>d. - dg_createdAt d)
        (filter (\<lambda>d. dg_companyId d = act_company u \<and> dg_toUserId d = act_user u \<and> dg_isActive d \<and> dg_startsAt d \<le> t \<and> t \<le> dg_endsAt d)
          (delegations db))))"
      using that by (auto simp: activeDelegation_def simp del: set_sort split: list.splits)
    then show ?thesis by simp
  qed
  have ro: "\<exists>m \<in> set (memberships db). m_companyId m = c' \<and> m_userId m = i \<and> m_role m = ro" if "companyRoleOf c' i db = Some ro" for c' i ro
    using that by (auto simp: companyRoleOf_def dest!: find_SomeD)
  show "a = act_user u" using assms by (auto simp: resolveApprovalActor_def split: if_splits option.splits)
  show "isRoleAllowedForLevel role c \<or>
     (\<exists>d \<in> set (delegations db). dg_companyId d = act_company u \<and> dg_toUserId d = act_user u \<and> dg_isActive d \<and>
        dg_startsAt d \<le> t \<and> t \<le> dg_endsAt d \<and> fromId = Some (dg_fromUserId d) \<and>
        (\<exists>m \<in> set (memberships db). m_companyId m = act_company u \<and> m_userId m = dg_fromUserId d \<and> isRoleAllowedForLevel (m_role m) c))"
    using assms dl ro by (fastforce simp: resolveApprovalActor_def split: if_splits option.splits)
qed

section \<open>Registering a supplier invoice\<close>

record supplier_invoice_req =
  cs_number :: string
  cs_supplierId :: id
  cs_receivedDate :: "date option"
  cs_dueDate :: date
  cs_currency :: string
  cs_subtotal :: double
  cs_vat :: double
  cs_description :: "string option"
  cs_autoPost :: bool
  cs_expenseAccountCode :: string
  cs_deductibleVatAccountCode :: string
  cs_payableAccountCode :: string
  cs_reason :: "string option"

definition createSupplierInvoiceSchema :: "supplier_invoice_req \<Rightarrow> bool" where
  "createSupplierInvoiceSchema r \<longleftrightarrow> cs_number r \<noteq> [] \<and> cs_supplierId r \<noteq> [] \<and> 0 < cs_subtotal r \<and> 0 \<le> cs_vat r"

definition supplierInvoiceClash :: "supplier_invoice \<Rightarrow> supplier_invoice \<Rightarrow> bool" where
  "supplierInvoiceClash x y \<longleftrightarrow> si_id x = si_id y \<or> (si_companyId x = si_companyId y \<and> si_number x = si_number y)"

definition insertSupplierInvoice :: "supplier_invoice \<Rightarrow> 'z purchasing_scheme \<Rightarrow> http_error + 'z purchasing_scheme" where
  "insertSupplierInvoice x db =
     (if list_ex (supplierInvoiceClash x) (supplierInvoices db) then Inl uniqueViolation
      else Inr (db\<lparr>supplierInvoices := supplierInvoices db @ [x]\<rparr>))"

text \<open>The lines of the posting; \<open>ids\<close> are the expense, VAT and payable accounts. The amounts of the
  request go to the lines as they are, only the total is rounded.\<close>

definition supplierInvoiceLines :: "supplier_invoice_req \<Rightarrow> double \<Rightarrow> id list \<Rightarrow> (id \<times> double \<times> double \<times> string) list" where
  "supplierInvoiceLines r invTotal ids =
     [(ids ! 0, cs_subtotal r, 0, ''Cheltuiala factura furnizor '' @ cs_number r)] @
     (if 0 < cs_vat r then [(ids ! 1, cs_vat r, 0, ''TVA deductibil '' @ cs_number r)] else []) @
     [(ids ! 2, 0, invTotal, ''Datorie furnizor '' @ cs_number r)]"

definition createSupplierInvoice ::
  "env \<Rightarrow> actor \<Rightarrow> supplier_invoice_req \<Rightarrow> 'z purchasing_scheme \<Rightarrow> http_error + (supplier_invoice \<times> 'z purchasing_scheme)" where
  "createSupplierInvoice env u r db =
     (if \<not> createSupplierInvoiceSchema r then Inl (badRequest ''Date invalide pentru factura de furnizor.'') else
      let receivedDate = orElse (cs_receivedDate r) (now env) in
      if cs_dueDate r < receivedDate
      then Inl (badRequest ''Data scadentei trebuie sa fie mai mare sau egala cu data receptiei.'') else
      let invTotal = round2 (fadd (cs_subtotal r) (cs_vat r)); period = currentPeriod receivedDate in
      bindR (assertPeriodOpen (act_company u) period db) (\<lambda>_.
      case find (\<lambda>p. pt_id p = cs_supplierId r \<and> pt_companyId p = act_company u \<and> pt_type p \<in> {SUPPLIER, BOTH}) (partners db) of
        None \<Rightarrow> Inl (badRequest ''Furnizor inexistent in compania activa sau tip invalid.'')
      | Some _ \<Rightarrow>
      bindR (if cs_autoPost r
             then accountsOrError (badRequest ''Conturi implicite lipsa pentru postarea automata a facturii de furnizor.'')
               (act_company u) [cs_expenseAccountCode r, cs_deductibleVatAccountCode r, cs_payableAccountCode r] db
             else Inr []) (\<lambda>ids.
      let created = \<lparr> si_id = uuid env 0, si_companyId = act_company u, si_number = cs_number r,
            si_supplierId = cs_supplierId r, si_receivedDate = receivedDate, si_dueDate = cs_dueDate r,
            si_currency = cs_currency r, si_subtotal = storeDec env 100 (cs_subtotal r),
            si_vat = storeDec env 100 (cs_vat r), si_total = storeDec env 100 invTotal,
            si_status = RECEIVED, si_approvalStatus = PENDING_LEVEL_1, si_approvalCurrentLevel = 1,
            si_approvalRequiredLevel = resolveRequiredApprovalLevel invTotal, si_approvalRequestedAt = Some (now env),
            si_approvalFinalizedAt = None, si_approvalFinalizedById = None, si_approvalRejectedReason = None,
            si_description = cs_description r \<rparr>
      in bindR (insertSupplierInvoice created db) (\<lambda>db.
         bindR (if cs_autoPost r
                then insertEntry (autoEntry env u (uuid env 1) receivedDate
                  (''Postare automata factura furnizor '' @ cs_number r) period ''ACCOUNTS_PAYABLE''
                  (supplierInvoiceLines r invTotal ids) db) db
                else Inr db) (\<lambda>db.
         Inr (created, invalidateFinancialStatementsCache
           (writeAudit u ''supplier_invoices'' (Some (si_id created)) ''CREATE'' (cs_reason r) db)))))))"

section \<open>Delegation, approval and rejection\<close>

record delegation_req =
  dr_fromUserId :: "id option"
  dr_toUserId :: id
  dr_startsAt :: "date option"
  dr_endsAt :: date
  dr_reason :: "string option"

definition approvalDelegationSchema :: "date \<Rightarrow> delegation_req \<Rightarrow> bool" where
  "approvalDelegationSchema t r \<longleftrightarrow> dr_fromUserId r \<noteq> Some [] \<and> dr_toUserId r \<noteq> [] \<and>
     (case dr_reason r of None \<Rightarrow> True | Some s \<Rightarrow> length s \<le> 500) \<and> orElse (dr_startsAt r) t < dr_endsAt r"

definition insertDelegation :: "delegation \<Rightarrow> 'z purchasing_scheme \<Rightarrow> http_error + 'z purchasing_scheme" where
  "insertDelegation d db =
     (if list_ex (\<lambda>e. dg_id e = dg_id d \<or> (dg_companyId e = dg_companyId d \<and> dg_fromUserId e = dg_fromUserId d \<and>
          dg_toUserId e = dg_toUserId d \<and> dg_startsAt e = dg_startsAt d)) (delegations db)
      then Inl uniqueViolation else Inr (db\<lparr>delegations := delegations db @ [d]\<rparr>))"

definition createDelegation ::
  "env \<Rightarrow> actor \<Rightarrow> Role \<Rightarrow> delegation_req \<Rightarrow> 'z purchasing_scheme \<Rightarrow> http_error + (delegation \<times> 'z purchasing_scheme)" where
  "createDelegation env u actingRole r db =
     (if \<not> approvalDelegationSchema (now env) r then Inl (badRequest ''Date invalide pentru delegarea aprobarii.'') else
      let startsAt = orElse (dr_startsAt r) (now env);
          fromTrimmed = (case dr_fromUserId r of None \<Rightarrow> [] | Some f \<Rightarrow> trim f);
          fromUserId = (if fromTrimmed = [] then act_user u else fromTrimmed);
          toUserId = trim (dr_toUserId r)
      in if toUserId = fromUserId
         then Inl (badRequest ''Utilizatorul delegat trebuie sa fie diferit de delegator.'') else
         if fromUserId \<noteq> act_user u \<and> actingRole \<noteq> ADMIN
         then Inl (forbidden ''Poti crea delegari doar pentru contul tau (exceptand ADMIN).'') else
         (case (companyRoleOf (act_company u) fromUserId db, companyRoleOf (act_company u) toUserId db) of
            (Some fromRole, Some _) \<Rightarrow>
              if \<not> list_ex (\<lambda>level. fromRole \<in> set (requiredRolesByLevel level)) [1, 2, 3, 4]
              then Inl (badRequest ''Delegatorul selectat nu are drepturi de aprobare AP.'') else
              let created = \<lparr> dg_id = uuid env 0, dg_companyId = act_company u, dg_fromUserId = fromUserId,
                    dg_toUserId = toUserId, dg_startsAt = startsAt, dg_endsAt = dr_endsAt r, dg_isActive = True,
                    dg_reason = dr_reason r, dg_createdAt = now env \<rparr>
              in bindR (insertDelegation created db) (\<lambda>db.
                 Inr (created, writeAudit u ''approval_delegations'' (Some (dg_id created)) ''CREATE''
                   (Some (orElse (dr_reason r) ''purchase-approval-delegation'')) db))
          | _ \<Rightarrow> Inl (badRequest ''Delegarea necesita utilizatori care apartin companiei active.'')))"

definition findSupplierInvoice :: "id \<Rightarrow> id \<Rightarrow> 'z purchasing_scheme \<Rightarrow> supplier_invoice option" where
  "findSupplierInvoice c i db = find (\<lambda>x. si_id x = i \<and> si_companyId x = c) (supplierInvoices db)"

definition supplierPaymentsOf :: "id \<Rightarrow> 'z purchasing_scheme \<Rightarrow> supplier_payment list" where
  "supplierPaymentsOf i db = filter (\<lambda>p. sp_supplierInvoiceId p = i) (supplierPayments db)"

definition insertApproval :: "approval \<Rightarrow> 'z purchasing_scheme \<Rightarrow> http_error + 'z purchasing_scheme" where
  "insertApproval a db =
     (if list_ex (\<lambda>b. ap_id b = ap_id a) (approvals db) then Inl uniqueViolation
      else Inr (db\<lparr>approvals := approvals db @ [a]\<rparr>))"

definition updateSupplierInvoice :: "id \<Rightarrow> (supplier_invoice \<Rightarrow> supplier_invoice) \<Rightarrow> 'z purchasing_scheme \<Rightarrow> 'z purchasing_scheme" where
  "updateSupplierInvoice i f db = db\<lparr>supplierInvoices := updateWhere (\<lambda>x. si_id x = i) f (supplierInvoices db)\<rparr>"

record approval_req =
  aq_note :: "string option"
  aq_reason :: "string option"

definition shortText :: "nat \<Rightarrow> string option \<Rightarrow> bool" where
  "shortText n s \<longleftrightarrow> (case s of None \<Rightarrow> True | Some t \<Rightarrow> length t \<le> n)"

definition clampLevel :: "int \<Rightarrow> int" where
  "clampLevel n = min (max n 1) 4"

text \<open>\<open>invoice.approvalRequiredLevel || 1\<close>.\<close>

definition orOne :: "int \<Rightarrow> int" where
  "orOne n = (if n = 0 then 1 else n)"

definition approvedData :: "int \<Rightarrow> int \<Rightarrow> date \<Rightarrow> id \<Rightarrow> supplier_invoice \<Rightarrow> supplier_invoice" where
  "approvedData currentLevel requiredLevel t approvedById x =
     (if requiredLevel \<le> currentLevel
      then x\<lparr> si_approvalStatus := APPROVED, si_approvalCurrentLevel := requiredLevel,
        si_approvalRequiredLevel := requiredLevel, si_approvalFinalizedAt := Some t,
        si_approvalFinalizedById := Some approvedById, si_approvalRejectedReason := None \<rparr>
      else let nextLevel = min (currentLevel + 1) 4 in
        x\<lparr> si_approvalStatus := levelToPendingStatus nextLevel, si_approvalCurrentLevel := nextLevel,
          si_approvalRequiredLevel := requiredLevel, si_approvalFinalizedAt := None,
          si_approvalFinalizedById := None, si_approvalRejectedReason := None \<rparr>)"

definition approveSupplierInvoice ::
  "env \<Rightarrow> actor \<Rightarrow> Role \<Rightarrow> ApprovalChannel \<Rightarrow> id \<Rightarrow> approval_req \<Rightarrow> 'z purchasing_scheme \<Rightarrow> http_error + 'z purchasing_scheme" where
  "approveSupplierInvoice env u actingRole channel invoiceId r db =
     (if \<not> shortText 500 (aq_note r) then Inl (badRequest ''Date invalide pentru aprobarea facturii.'') else
      case findSupplierInvoice (act_company u) invoiceId db of
        None \<Rightarrow> Inl (notFound ''Factura de furnizor nu exista.'')
      | Some x \<Rightarrow>
          if si_status x = SI_CANCELLED \<or> si_status x = SI_PAID
          then Inl (badRequest ''Factura nu poate fi aprobata in statusul curent.'') else
          if si_approvalStatus x = APPROVED then Inl (conflict ''Factura este deja aprobata complet.'') else
          if si_approvalStatus x = REJECTED
          then Inl (badRequest ''Factura a fost respinsa. Este necesara corectia si retrimiterea in flux.'') else
          let currentLevel = clampLevel (si_approvalCurrentLevel x);
              requiredLevel = clampLevel (orOne (si_approvalRequiredLevel x))
          in bindR (resolveApprovalActor u actingRole currentLevel (now env) db) (\<lambda>(approvedById, delegatedFrom).
             bindR (insertApproval \<lparr> ap_id = uuid env 0, ap_companyId = act_company u, ap_supplierInvoiceId = si_id x,
               ap_level = currentLevel, ap_action = APPROVE, ap_channel = channel, ap_note = aq_note r,
               ap_approvedById = approvedById, ap_delegatedFromUserId = delegatedFrom \<rparr> db) (\<lambda>db.
             Inr (writeAudit u ''supplier_invoices'' (Some (si_id x))
               (if channel = MOBILE then ''SUPPLIER_INVOICE_APPROVE_MOBILE'' else ''SUPPLIER_INVOICE_APPROVE'') (aq_reason r)
               (updateSupplierInvoice (si_id x) (approvedData currentLevel requiredLevel (now env) approvedById) db)))))"

definition rejectSupplierInvoice ::
  "env \<Rightarrow> actor \<Rightarrow> Role \<Rightarrow> id \<Rightarrow> string \<Rightarrow> string option \<Rightarrow> 'z purchasing_scheme \<Rightarrow> http_error + 'z purchasing_scheme" where
  "rejectSupplierInvoice env u actingRole invoiceId reason note db =
     (if length reason < 5 \<or> 500 < length reason \<or> \<not> shortText 500 note
      then Inl (badRequest ''Date invalide pentru respingerea facturii.'') else
      case findSupplierInvoice (act_company u) invoiceId db of
        None \<Rightarrow> Inl (notFound ''Factura de furnizor nu exista.'')
      | Some x \<Rightarrow>
          if si_status x = SI_CANCELLED \<or> si_status x = SI_PAID
          then Inl (badRequest ''Factura nu poate fi respinsa in statusul curent.'') else
          if si_approvalStatus x = APPROVED \<and> supplierPaymentsOf (si_id x) db \<noteq> []
          then Inl (badRequest ''Factura deja aprobata si partial platita nu mai poate fi respinsa.'') else
          if si_approvalStatus x = REJECTED then Inl (conflict ''Factura este deja respinsa.'') else
          let currentLevel = clampLevel (si_approvalCurrentLevel x) in
          bindR (resolveApprovalActor u actingRole currentLevel (now env) db) (\<lambda>(approvedById, delegatedFrom).
          bindR (insertApproval \<lparr> ap_id = uuid env 0, ap_companyId = act_company u, ap_supplierInvoiceId = si_id x,
            ap_level = currentLevel, ap_action = REJECT, ap_channel = WEB, ap_note = note,
            ap_approvedById = approvedById, ap_delegatedFromUserId = delegatedFrom \<rparr> db) (\<lambda>db.
          Inr (writeAudit u ''supplier_invoices'' (Some (si_id x)) ''SUPPLIER_INVOICE_REJECT'' (Some reason)
            (updateSupplierInvoice (si_id x) (\<lambda>y. y\<lparr> si_approvalStatus := REJECTED, si_approvalFinalizedAt := Some (now env),
               si_approvalFinalizedById := Some approvedById, si_approvalRejectedReason := Some reason \<rparr>) db)))))"

section \<open>Payment\<close>

definition openSupplierInvoiceStatuses :: "SupplierInvoiceStatus list" where
  "openSupplierInvoiceStatuses = [RECEIVED, SI_PARTIALLY_PAID]"

definition insertSupplierPayment :: "supplier_payment \<Rightarrow> 'z purchasing_scheme \<Rightarrow> http_error + 'z purchasing_scheme" where
  "insertSupplierPayment p db =
     (if list_ex (\<lambda>q. sp_id q = sp_id p) (supplierPayments db) then Inl uniqueViolation
      else Inr (db\<lparr>supplierPayments := supplierPayments db @ [p]\<rparr>))"

definition paySupplierInvoice ::
  "env \<Rightarrow> actor \<Rightarrow> id \<Rightarrow> payment_req \<Rightarrow> 'z purchasing_scheme \<Rightarrow> http_error + (supplier_payment \<times> 'z purchasing_scheme)" where
  "paySupplierInvoice env u invoiceId r db =
     (if \<not> paymentSchema r then Inl (badRequest ''Date invalide pentru plata furnizor.'') else
      let paymentDate = orElse (pr_date r) (now env); paymentAmount = round2 (pr_amount r) in
      bindR (assertPeriodOpen (act_company u) (currentPeriod paymentDate) db) (\<lambda>_.
      case findSupplierInvoice (act_company u) invoiceId db of
        None \<Rightarrow> Inl (notFound ''Factura de furnizor nu exista.'')
      | Some x \<Rightarrow>
          if si_status x \<notin> set openSupplierInvoiceStatuses
          then Inl (badRequest ''Factura de furnizor nu poate fi platita in statusul curent.'') else
          if si_approvalStatus x \<noteq> APPROVED
          then Inl (badRequest ''Factura de furnizor nu poate fi platita inainte de aprobarea completa.'') else
          let paidBefore = round2 (reduceSum (map (\<lambda>p. toNumber (column 100 (sp_amount p))) (supplierPaymentsOf (si_id x) db)));
              invoiceTotal = toNumber (column 100 (si_total x));
              openAmount = round2 (max (fsub invoiceTotal paidBefore) 0)
          in if openAmount < paymentAmount
             then Inl (badRequest ''Suma platita depaseste soldul deschis al facturii de furnizor.'') else
             bindR (if pr_autoPost r
                    then accountsOrError (badRequest ''Conturi implicite lipsa pentru postarea automata a platii furnizor.'')
                      (act_company u) [pr_bankAccountCode r, pr_counterAccountCode r] db
                    else Inr []) (\<lambda>ids.
             let pay = \<lparr> sp_id = uuid env 0, sp_companyId = act_company u, sp_supplierInvoiceId = si_id x,
                   sp_supplierId = si_supplierId x, sp_date = paymentDate,
                   sp_amount = storeDec env 100 paymentAmount, sp_method = pr_method r, sp_reference = pr_reference r \<rparr>
             in bindR (insertSupplierPayment pay db) (\<lambda>db.
                let paidAfter = round2 (fadd paidBefore paymentAmount);
                    nextStatus = (if invoiceTotal \<le> paidAfter then SI_PAID else SI_PARTIALLY_PAID);
                    db = updateSupplierInvoice (si_id x) (\<lambda>y. y\<lparr>si_status := nextStatus\<rparr>) db
                in bindR (if pr_autoPost r
                          then insertEntry (autoEntry env u (uuid env 1) paymentDate (''Plata furnizor '' @ si_number x)
                            (currentPeriod paymentDate) ''TREASURY''
                            [(ids ! 1, paymentAmount, 0, ''Stingere datorie '' @ si_number x),
                             (ids ! 0, 0, paymentAmount, ''Plata '' @ si_number x)] db) db
                          else Inr db) (\<lambda>db.
                   Inr (pay, invalidateFinancialStatementsCache
                     (writeAudit u ''supplier_payments'' (Some (sp_id pay)) ''CREATE'' (pr_reason r) db)))))))"

section \<open>Invariant\<close>

definition approvedLevels :: "id \<Rightarrow> 'z purchasing_scheme \<Rightarrow> int list" where
  "approvedLevels i db = map ap_level (filter (\<lambda>a. ap_supplierInvoiceId a = i \<and> ap_action a = APPROVE) (approvals db))"

definition supplierAmounts :: "id \<Rightarrow> 'z purchasing_scheme \<Rightarrow> int list" where
  "supplierAmounts i db = map sp_amount (supplierPaymentsOf i db)"

text \<open>The recorded approvals of an invoice against its level and its approval status.\<close>

definition approvalFlow :: "int list \<Rightarrow> supplier_invoice \<Rightarrow> bool" where
  "approvalFlow ls x \<longleftrightarrow> si_approvalRequiredLevel x \<in> {3, 4} \<and>
     1 \<le> si_approvalCurrentLevel x \<and> si_approvalCurrentLevel x \<le> si_approvalRequiredLevel x \<and>
     (case si_approvalStatus x of
        APPROVED \<Rightarrow> ls = [1..si_approvalRequiredLevel x] \<and> si_approvalCurrentLevel x = si_approvalRequiredLevel x
      | REJECTED \<Rightarrow> ls = [1..si_approvalCurrentLevel x - 1] \<or> ls = [1..si_approvalRequiredLevel x]
      | st \<Rightarrow> ls = [1..si_approvalCurrentLevel x - 1] \<and> st = levelToPendingStatus (si_approvalCurrentLevel x))"

definition supplierSettled :: "int list \<Rightarrow> supplier_invoice \<Rightarrow> bool" where
  "supplierSettled ns x \<longleftrightarrow> (\<forall>n \<in> set ns. 0 \<le> n) \<and> 0 \<le> si_total x \<and>
     si_status x \<in> {RECEIVED, SI_PARTIALLY_PAID, SI_PAID} \<and> (si_status x = RECEIVED \<longleftrightarrow> ns = []) \<and>
     (ns \<noteq> [] \<longrightarrow> si_approvalStatus x = APPROVED) \<and>
     (fits ns (si_total x) \<longrightarrow> sum_list ns \<le> si_total x \<and> (si_status x = SI_PAID \<longleftrightarrow> ns \<noteq> [] \<and> sum_list ns = si_total x))"

definition purchaseOk :: "'z purchasing_scheme \<Rightarrow> supplier_invoice \<Rightarrow> bool" where
  "purchaseOk db x \<longleftrightarrow> approvalFlow (approvedLevels (si_id x) db) x \<and> supplierSettled (supplierAmounts (si_id x) db) x \<and>
     (si_approvalRequiredLevel x = 4 \<longleftrightarrow> 5000000 \<le> si_total x)"

definition purchaseInv :: "'z purchasing_scheme \<Rightarrow> bool" where
  "purchaseInv db \<longleftrightarrow> sorted_wrt (\<lambda>x y. \<not> supplierInvoiceClash x y) (supplierInvoices db) \<and>
     (\<forall>a \<in> set (approvals db). ap_supplierInvoiceId a \<in> si_id ` set (supplierInvoices db)) \<and>
     (\<forall>p \<in> set (supplierPayments db). sp_supplierInvoiceId p \<in> si_id ` set (supplierInvoices db)) \<and>
     (\<forall>x \<in> set (supplierInvoices db). purchaseOk db x)"

lemma purchase_table_simps [simp, table_simps]:
  "supplierInvoices (writeAudit u t r a x db) = supplierInvoices db" "approvals (writeAudit u t r a x db) = approvals db"
  "supplierPayments (writeAudit u t r a x db) = supplierPayments db"
  "supplierInvoices (invalidateFinancialStatementsCache db) = supplierInvoices db"
  "approvals (invalidateFinancialStatementsCache db) = approvals db"
  "supplierPayments (invalidateFinancialStatementsCache db) = supplierPayments db"
  by (simp_all add: writeAudit_def invalidateFinancialStatementsCache_def)

lemma insertEntry_purchases: "insertEntry e db = Inr db' \<Longrightarrow> supplierInvoices db' = supplierInvoices db \<and>
    approvals db' = approvals db \<and> supplierPayments db' = supplierPayments db"
  by (auto simp: insertEntry_def split: if_splits)

lemma purchaseInv_cong:
  assumes "supplierInvoices db' = supplierInvoices db" "approvals db' = approvals db" "supplierPayments db' = supplierPayments db"
  shows "purchaseInv db' = purchaseInv db"
  using assms by (simp add: purchaseInv_def purchaseOk_def approvedLevels_def supplierAmounts_def supplierPaymentsOf_def)

lemma purchaseInv_insertEntry: "insertEntry e db = Inr db' \<Longrightarrow> purchaseInv db' = purchaseInv db"
  using insertEntry_purchases[of e db db'] by (intro purchaseInv_cong) auto

lemma purchaseInv_audit [simp]:
  "purchaseInv (writeAudit u t r a x db) = purchaseInv db"
  "purchaseInv (invalidateFinancialStatementsCache db) = purchaseInv db"
  by (rule purchaseInv_cong; simp)+

lemma findSupplierInvoice_SomeD:
  "findSupplierInvoice c i db = Some x \<Longrightarrow> x \<in> set (supplierInvoices db) \<and> si_id x = i \<and> si_companyId x = c"
  by (auto simp: findSupplierInvoice_def dest: find_SomeD)

text \<open>A change of one invoice, with new approvals and payments of that invoice only.\<close>

lemma purchaseInv_update:
  assumes inv: "purchaseInv db" and x: "x \<in> set (supplierInvoices db)"
    and keys: "\<And>y. si_id (f y) = si_id y \<and> si_companyId (f y) = si_companyId y \<and> si_number (f y) = si_number y"
    and si: "supplierInvoices db' = updateWhere (\<lambda>y. si_id y = si_id x) f (supplierInvoices db)"
    and ap: "approvals db' = approvals db @ as" "\<forall>a \<in> set as. ap_supplierInvoiceId a = si_id x"
    and sp: "supplierPayments db' = supplierPayments db @ ps" "\<forall>p \<in> set ps. sp_supplierInvoiceId p = si_id x"
    and ok: "purchaseOk db' (f x)"
  shows "purchaseInv db'"
proof -
  have so: "sorted_wrt (\<lambda>x y. \<not> supplierInvoiceClash x y) (supplierInvoices db)" using inv by (simp add: purchaseInv_def)
  have ids: "si_id ` set (supplierInvoices db') = si_id ` set (supplierInvoices db)"
  proof -
    have "map si_id (supplierInvoices db') = map si_id (supplierInvoices db)"
      unfolding si by (rule map_updateWhere) (simp add: keys)
    then show ?thesis by (metis list.set_map)
  qed
  have clash: "supplierInvoiceClash (if si_id a = k then f a else a) (if si_id b = k then f b else b) = supplierInvoiceClash a b" for a b k
    by (simp add: supplierInvoiceClash_def keys)
  have so': "sorted_wrt (\<lambda>x y. \<not> supplierInvoiceClash x y) (supplierInvoices db')"
    using so by (simp add: si updateWhere_def sorted_wrt_map clash)
  have "sorted_wrt (\<lambda>x y. si_id x \<noteq> si_id y) (supplierInvoices db)"
    using so by (auto simp: supplierInvoiceClash_def elim: sorted_wrt_mono_rel[rotated])
  then have uniq: "y = x" if "y \<in> set (supplierInvoices db)" "si_id y = si_id x" for y
    using that x by (metis sorted_wrt_unique)
  have oks: "purchaseOk db' (if si_id y = si_id x then f y else y)" if y: "y \<in> set (supplierInvoices db)" for y
  proof (cases "si_id y = si_id x")
    case True then show ?thesis using uniq[OF y] ok by simp
  next
    case False
    have "filter (\<lambda>a. ap_supplierInvoiceId a = si_id y \<and> ap_action a = APPROVE) as = []"
      "filter (\<lambda>p. sp_supplierInvoiceId p = si_id y) ps = []"
      using False ap(2) sp(2) by (auto simp: filter_empty_conv)
    then have "approvedLevels (si_id y) db' = approvedLevels (si_id y) db" "supplierAmounts (si_id y) db' = supplierAmounts (si_id y) db"
      by (simp_all add: approvedLevels_def supplierAmounts_def supplierPaymentsOf_def ap sp)
    moreover have "purchaseOk db y" using inv y by (simp add: purchaseInv_def)
    ultimately show ?thesis using False by (simp add: purchaseOk_def)
  qed
  have "\<forall>y \<in> set (supplierInvoices db'). purchaseOk db' y" unfolding si updateWhere_set using oks by blast
  moreover have xm: "si_id x \<in> si_id ` set (supplierInvoices db)" using x by blast
  moreover have "\<forall>a \<in> set (approvals db'). ap_supplierInvoiceId a \<in> si_id ` set (supplierInvoices db')"
    unfolding ids using inv ap xm by (auto simp: purchaseInv_def)
  moreover have "\<forall>p \<in> set (supplierPayments db'). sp_supplierInvoiceId p \<in> si_id ` set (supplierInvoices db')"
    unfolding ids using inv sp xm by (auto simp: purchaseInv_def)
  ultimately show ?thesis using so' by (simp add: purchaseInv_def)
qed

section \<open>Approval, rejection and payment keep the invariant\<close>

lemma clamp_id: "1 \<le> n \<Longrightarrow> n \<le> 4 \<Longrightarrow> clampLevel n = n"
  by (simp add: clampLevel_def)

lemma upto_snoc_int: "1 \<le> (n :: int) \<Longrightarrow> [1..n - 1] @ [n] = [1..n]"
  by (simp add: upto_rec2)

lemma levelToPendingStatus_pending [simp]: "levelToPendingStatus n \<noteq> APPROVED" "levelToPendingStatus n \<noteq> REJECTED"
  by (simp_all add: levelToPendingStatus_def)

lemma approvalFlow_pending:
  assumes "approvalFlow ls x" "si_approvalStatus x \<noteq> APPROVED" "si_approvalStatus x \<noteq> REJECTED"
  shows "ls = [1..si_approvalCurrentLevel x - 1]" "si_approvalStatus x = levelToPendingStatus (si_approvalCurrentLevel x)"
    "1 \<le> si_approvalCurrentLevel x" "si_approvalCurrentLevel x \<le> si_approvalRequiredLevel x" "si_approvalRequiredLevel x \<in> {3, 4}"
  using assms by (auto simp: approvalFlow_def split: ApprovalStatus.splits)

lemma approvalFlow_approve:
  assumes "approvalFlow ls x" "si_approvalStatus x \<noteq> APPROVED" "si_approvalStatus x \<noteq> REJECTED"
  defines "c \<equiv> clampLevel (si_approvalCurrentLevel x)" and "q \<equiv> clampLevel (orOne (si_approvalRequiredLevel x))"
  shows "approvalFlow (ls @ [c]) (approvedData c q t i x)" "q = si_approvalRequiredLevel x" "c = si_approvalCurrentLevel x"
proof -
  note p = approvalFlow_pending[OF assms(1-3)]
  show c: "c = si_approvalCurrentLevel x" and q: "q = si_approvalRequiredLevel x"
    using p by (auto simp: c_def q_def clampLevel_def orOne_def)
  have ls: "ls @ [c] = [1..c]" using p upto_snoc_int[of c] by (simp add: c)
  show "approvalFlow (ls @ [c]) (approvedData c q t i x)"
  proof (cases "q \<le> c")
    case True
    then have "c = q" using p by (simp add: c q)
    then show ?thesis using p True unfolding ls by (auto simp: approvedData_def approvalFlow_def q)
  next
    case False
    then have "min (c + 1) 4 = c + 1" using p by (auto simp: c q)
    then show ?thesis using p False unfolding ls
      by (auto simp: approvedData_def approvalFlow_def q c Let_def levelToPendingStatus_def split: if_splits)
  qed
qed

lemma approvedData_keys [simp]:
  "si_id (approvedData c q t i y) = si_id y" "si_companyId (approvedData c q t i y) = si_companyId y"
  "si_number (approvedData c q t i y) = si_number y" "si_status (approvedData c q t i y) = si_status y"
  "si_total (approvedData c q t i y) = si_total y" "si_approvalRequiredLevel (approvedData c q t i y) = q"
  by (simp_all add: approvedData_def Let_def)

lemma approve_InrD:
  assumes "approveSupplierInvoice env u role ch i r db = Inr db'"
  obtains x approver fromId db1 c q where "findSupplierInvoice (act_company u) i db = Some x" "si_status x \<noteq> SI_PAID"
    "si_approvalStatus x \<noteq> APPROVED" "si_approvalStatus x \<noteq> REJECTED"
    "c = clampLevel (si_approvalCurrentLevel x)" "q = clampLevel (orOne (si_approvalRequiredLevel x))"
    "resolveApprovalActor u role c (now env) db = Inr (approver, fromId)"
    "insertApproval \<lparr> ap_id = uuid env 0, ap_companyId = act_company u, ap_supplierInvoiceId = si_id x,
       ap_level = c, ap_action = APPROVE, ap_channel = ch, ap_note = aq_note r,
       ap_approvedById = approver, ap_delegatedFromUserId = fromId \<rparr> db = Inr db1"
    "supplierInvoices db' = updateWhere (\<lambda>y. si_id y = si_id x) (approvedData c q (now env) approver) (supplierInvoices db1)"
    "approvals db' = approvals db1" "supplierPayments db' = supplierPayments db1"
  using assms that
  by (auto simp: approveSupplierInvoice_def Let_def bindR_eq_Inr updateSupplierInvoice_def split: if_splits option.splits)

lemma insertApproval_InrD: "insertApproval a db = Inr db' \<Longrightarrow> db' = db\<lparr>approvals := approvals db @ [a]\<rparr>"
  by (auto simp: insertApproval_def split: if_splits)

lemma approve_inv:
  assumes inv: "purchaseInv db" and s: "approveSupplierInvoice env u role ch i r db = Inr db'" shows "purchaseInv db'"
proof -
  obtain x approver fromId db1 c q where x: "findSupplierInvoice (act_company u) i db = Some x"
    and st: "si_approvalStatus x \<noteq> APPROVED" "si_approvalStatus x \<noteq> REJECTED"
    and c: "c = clampLevel (si_approvalCurrentLevel x)" "q = clampLevel (orOne (si_approvalRequiredLevel x))"
    and ins: "insertApproval \<lparr> ap_id = uuid env 0, ap_companyId = act_company u, ap_supplierInvoiceId = si_id x,
       ap_level = c, ap_action = APPROVE, ap_channel = ch, ap_note = aq_note r,
       ap_approvedById = approver, ap_delegatedFromUserId = fromId \<rparr> db = Inr db1" (is "insertApproval ?a db = _")
    and db': "supplierInvoices db' = updateWhere (\<lambda>y. si_id y = si_id x) (approvedData c q (now env) approver) (supplierInvoices db1)"
      "approvals db' = approvals db1" "supplierPayments db' = supplierPayments db1"
    using s by (rule approve_InrD)
  have d1: "db1 = db\<lparr>approvals := approvals db @ [?a]\<rparr>" by (rule insertApproval_InrD[OF ins])
  have xm: "x \<in> set (supplierInvoices db)" using findSupplierInvoice_SomeD[OF x] by simp
  then have ok: "purchaseOk db x" using inv by (simp add: purchaseInv_def)
  then have fl: "approvalFlow (approvedLevels (si_id x) db) x" by (simp add: purchaseOk_def)
  note f = approvalFlow_approve(1)[OF fl st, of "now env" approver] approvalFlow_approve(2,3)[OF fl st]
  have "supplierAmounts (si_id x) db = []" using ok st by (auto simp: purchaseOk_def supplierSettled_def)
  then have "purchaseOk db' (approvedData c q (now env) approver x)"
    using f ok unfolding c[symmetric]
    by (auto simp: purchaseOk_def approvedLevels_def db' d1 supplierAmounts_def supplierPaymentsOf_def supplierSettled_def)
  then show ?thesis
    by (intro purchaseInv_update[OF inv xm, where f = "approvedData c q (now env) approver" and as = "[?a]" and ps = "[]"])
      (simp_all add: db' d1)
qed

lemma reject_InrD:
  assumes "rejectSupplierInvoice env u role i reason note db = Inr db'"
  obtains x approver fromId db1 c where "findSupplierInvoice (act_company u) i db = Some x" "si_status x \<noteq> SI_PAID"
    "si_approvalStatus x = APPROVED \<longrightarrow> supplierPaymentsOf (si_id x) db = []" "si_approvalStatus x \<noteq> REJECTED"
    "resolveApprovalActor u role c (now env) db = Inr (approver, fromId)"
    "insertApproval \<lparr> ap_id = uuid env 0, ap_companyId = act_company u, ap_supplierInvoiceId = si_id x,
            ap_level = c, ap_action = REJECT, ap_channel = WEB, ap_note = note,
            ap_approvedById = approver, ap_delegatedFromUserId = fromId \<rparr> db = Inr db1"
    "supplierInvoices db' = updateWhere (\<lambda>y. si_id y = si_id x) (\<lambda>y. y\<lparr> si_approvalStatus := REJECTED,
       si_approvalFinalizedAt := Some (now env), si_approvalFinalizedById := Some approver,
       si_approvalRejectedReason := Some reason \<rparr>) (supplierInvoices db1)"
    "approvals db' = approvals db1" "supplierPayments db' = supplierPayments db1"
  using assms that
  by (auto simp: rejectSupplierInvoice_def Let_def bindR_eq_Inr updateSupplierInvoice_def split: if_splits option.splits)

lemma reject_inv:
  assumes inv: "purchaseInv db" and s: "rejectSupplierInvoice env u role i reason note db = Inr db'" shows "purchaseInv db'"
proof -
  obtain x approver fromId db1 c where x: "findSupplierInvoice (act_company u) i db = Some x"
    and st: "si_approvalStatus x = APPROVED \<longrightarrow> supplierPaymentsOf (si_id x) db = []" "si_approvalStatus x \<noteq> REJECTED"
    and ins: "insertApproval \<lparr> ap_id = uuid env 0, ap_companyId = act_company u, ap_supplierInvoiceId = si_id x,
            ap_level = c, ap_action = REJECT, ap_channel = WEB, ap_note = note,
            ap_approvedById = approver, ap_delegatedFromUserId = fromId \<rparr> db = Inr db1" (is "insertApproval ?a db = _")
    and db': "supplierInvoices db' = updateWhere (\<lambda>y. si_id y = si_id x) (\<lambda>y. y\<lparr> si_approvalStatus := REJECTED,
       si_approvalFinalizedAt := Some (now env), si_approvalFinalizedById := Some approver,
       si_approvalRejectedReason := Some reason \<rparr>) (supplierInvoices db1)" (is "_ = updateWhere _ ?f _")
      "approvals db' = approvals db1" "supplierPayments db' = supplierPayments db1"
    using s by (rule reject_InrD)
  have d1: "db1 = db\<lparr>approvals := approvals db @ [?a]\<rparr>" by (rule insertApproval_InrD[OF ins])
  have xm: "x \<in> set (supplierInvoices db)" using findSupplierInvoice_SomeD[OF x] by simp
  then have ok: "purchaseOk db x" using inv by (simp add: purchaseInv_def)
  have ls: "approvedLevels (si_id x) db' = approvedLevels (si_id x) db" by (simp add: approvedLevels_def db' d1)
  have ns: "supplierAmounts (si_id x) db' = []" "supplierAmounts (si_id x) db = []"
    using ok st by (auto simp: supplierAmounts_def supplierPaymentsOf_def db' d1 purchaseOk_def supplierSettled_def)
  have "approvalFlow (approvedLevels (si_id x) db) (?f x)"
    using ok st(2) by (auto simp: purchaseOk_def approvalFlow_def split: ApprovalStatus.splits)
  then have "purchaseOk db' (?f x)" using ok ls ns by (simp add: purchaseOk_def supplierSettled_def)
  then show ?thesis
    by (intro purchaseInv_update[OF inv xm, where f = ?f and as = "[?a]" and ps = "[]"]) (simp_all add: db' d1)
qed

lemma paySupplier_InrD:
  assumes "paySupplierInvoice env u i r db = Inr (pay, db')"
  obtains x ids db1 db2 db3 paid newStatus where "0 < pr_amount r" "\<not> periodClosed (act_company u) (currentPeriod (sp_date pay)) db"
    "findSupplierInvoice (act_company u) i db = Some x" "si_status x \<in> {RECEIVED, SI_PARTIALLY_PAID}"
    "si_approvalStatus x = APPROVED"
    "paid = round2 (reduceSum (map cents (supplierAmounts (si_id x) db)))"
    "\<not> round2 (max (fsub (cents (si_total x)) paid) 0) < round2 (pr_amount r)"
    "sp_supplierInvoiceId pay = si_id x" "sp_amount pay = storeDec env 100 (round2 (pr_amount r))"
    "db1 = db\<lparr>supplierPayments := supplierPayments db @ [pay]\<rparr>"
    "newStatus = (if cents (si_total x) \<le> round2 (fadd paid (round2 (pr_amount r))) then SI_PAID else SI_PARTIALLY_PAID)"
    "db2 = updateSupplierInvoice (si_id x) (\<lambda>y. y\<lparr>si_status := newStatus\<rparr>) db1"
    "if pr_autoPost r then insertEntry (autoEntry env u (uuid env 1) (sp_date pay) (''Plata furnizor '' @ si_number x)
        (currentPeriod (sp_date pay)) ''TREASURY''
        [(ids ! 1, round2 (pr_amount r), 0, ''Stingere datorie '' @ si_number x),
         (ids ! 0, 0, round2 (pr_amount r), ''Plata '' @ si_number x)] db2) db2 = Inr db3 else db3 = db2"
    "db' = invalidateFinancialStatementsCache (writeAudit u ''supplier_payments'' (Some (sp_id pay)) ''CREATE'' (pr_reason r) db3)"
  using assms that
  by (auto simp: paySupplierInvoice_def Let_def bindR_eq_Inr paymentSchema_def openSupplierInvoiceStatuses_def
      supplierAmounts_def comp_def insertSupplierPayment_def split: if_splits option.splits)

lemma paySupplier_inv:
  assumes st: "exact_store (storeDec env)" and inv: "purchaseInv db" and s: "paySupplierInvoice env u i r db = Inr (pay, db')"
  shows "purchaseInv db'"
proof -
  obtain x ids db1 db2 db3 paid newStatus where a: "0 < pr_amount r"
    and x: "findSupplierInvoice (act_company u) i db = Some x" "si_status x \<in> {RECEIVED, SI_PARTIALLY_PAID}"
      "si_approvalStatus x = APPROVED"
    and paid: "paid = round2 (reduceSum (map cents (supplierAmounts (si_id x) db)))"
    and le: "\<not> round2 (max (fsub (cents (si_total x)) paid) 0) < round2 (pr_amount r)"
    and pay: "sp_supplierInvoiceId pay = si_id x" "sp_amount pay = storeDec env 100 (round2 (pr_amount r))"
    and d1: "db1 = db\<lparr>supplierPayments := supplierPayments db @ [pay]\<rparr>"
    and nx: "newStatus = (if cents (si_total x) \<le> round2 (fadd paid (round2 (pr_amount r))) then SI_PAID else SI_PARTIALLY_PAID)"
    and d2: "db2 = updateSupplierInvoice (si_id x) (\<lambda>y. y\<lparr>si_status := newStatus\<rparr>) db1"
    and post: "if pr_autoPost r then insertEntry (autoEntry env u (uuid env 1) (sp_date pay) (''Plata furnizor '' @ si_number x)
        (currentPeriod (sp_date pay)) ''TREASURY''
        [(ids ! 1, round2 (pr_amount r), 0, ''Stingere datorie '' @ si_number x),
         (ids ! 0, 0, round2 (pr_amount r), ''Plata '' @ si_number x)] db2) db2 = Inr db3 else db3 = db2"
    and db': "db' = invalidateFinancialStatementsCache (writeAudit u ''supplier_payments'' (Some (sp_id pay)) ''CREATE'' (pr_reason r) db3)"
    using s by (rule paySupplier_InrD)
  have xm: "x \<in> set (supplierInvoices db)" using findSupplierInvoice_SomeD[OF x(1)] by simp
  then have ok: "purchaseOk db x" using inv by (simp add: purchaseInv_def)
  let ?ns = "supplierAmounts (si_id x) db" and ?m = "storeDec env 100 (round2 (pr_amount r))"
  have nn: "\<forall>n \<in> set ?ns. 0 \<le> n" using ok by (simp add: purchaseOk_def supplierSettled_def)
  have pos: "0 \<le> round2 (pr_amount r)" using a by (intro round2_nonneg) simp
  have m0: "0 \<le> ?m" using exact_store_mono[OF st pos] st by simp
  obtain k where k: "round2 (pr_amount r) = cents k" using round2_grid by blast
  have step: "sum_list ?ns + ?m \<le> si_total x \<and> (newStatus = SI_PAID \<longleftrightarrow> sum_list ?ns + ?m = si_total x)"
    if f: "fits (?ns @ [?m]) (si_total x)"
  proof -
    have f0: "fits ?ns (si_total x)" using f nn m0 by (rule fits_snoc)
    then have "sum_list ?ns \<le> si_total x" using ok by (simp add: purchaseOk_def supplierSettled_def)
    moreover have "0 \<le> k" using pos k by simp
    ultimately show ?thesis using settle_step[OF st f0 nn _ _ paid, of k] le unfolding k nx by simp
  qed
  have "purchaseOk db2 (x\<lparr>si_status := newStatus\<rparr>)"
    using ok x step nn m0 nx
    by (auto simp: purchaseOk_def approvedLevels_def supplierAmounts_def supplierPaymentsOf_def d1 d2 updateSupplierInvoice_def
        pay supplierSettled_def approvalFlow_def)
  then have "purchaseInv db2"
    by (intro purchaseInv_update[OF inv xm, where f = "\<lambda>y. y\<lparr>si_status := newStatus\<rparr>" and as = "[]" and ps = "[pay]"])
      (simp_all add: d1 d2 updateSupplierInvoice_def pay)
  then show ?thesis using post purchaseInv_insertEntry unfolding db' by (auto split: if_splits)
qed

section \<open>Registering keeps the invariant\<close>

lemma createSupplier_InrD:
  assumes "createSupplierInvoice env u r db = Inr (x, db')"
  obtains ids db1 db2 T where "createSupplierInvoiceSchema r" "T = round2 (fadd (cs_subtotal r) (cs_vat r))"
    "\<not> periodClosed (act_company u) (currentPeriod (si_receivedDate x)) db"
    "insertSupplierInvoice x db = Inr db1" "si_status x = RECEIVED" "si_approvalStatus x = PENDING_LEVEL_1"
    "si_approvalCurrentLevel x = 1" "si_approvalRequiredLevel x = resolveRequiredApprovalLevel T"
    "si_total x = storeDec env 100 T" "si_companyId x = act_company u"
    "if cs_autoPost r then insertEntry (autoEntry env u (uuid env 1) (si_receivedDate x)
        (''Postare automata factura furnizor '' @ cs_number r) (currentPeriod (si_receivedDate x)) ''ACCOUNTS_PAYABLE''
        (supplierInvoiceLines r T ids) db1) db1 = Inr db2 else db2 = db1"
    "db' = invalidateFinancialStatementsCache (writeAudit u ''supplier_invoices'' (Some (si_id x)) ''CREATE'' (cs_reason r) db2)"
  using assms that
  by (auto simp: createSupplierInvoice_def Let_def bindR_eq_Inr split: if_splits option.splits)

lemma required_level:
  assumes st: "exact_store st" shows "resolveRequiredApprovalLevel (round2 y) = 4 \<longleftrightarrow> 5000000 \<le> st 100 (round2 y)"
proof -
  obtain n where n: "round2 y = cents n" using round2_grid by blast
  have t: "LEVEL_4_APPROVAL_THRESHOLD_RON = cents 5000000"
    using cent.grid_of_int[of 50000] by (simp add: LEVEL_4_APPROVAL_THRESHOLD_RON_def)
  have "LEVEL_4_APPROVAL_THRESHOLD_RON \<le> round2 y \<longleftrightarrow> 5000000 \<le> n"
    unfolding n t by (rule cent.grid_cmp) simp
  also have "\<dots> \<longleftrightarrow> 5000000 \<le> st 100 (cents n)"
  proof (cases "\<bar>n\<bar> \<le> 2 ^ 45")
    case True then show ?thesis using exact_storeD(1)[OF st] by simp
  next
    case False
    show ?thesis
    proof (cases "0 \<le> n")
      case True
      then have "st 100 (cents (2 ^ 45)) \<le> st 100 (cents n)" using False by (intro exact_store_mono st cent.grid_mono) simp
      then show ?thesis using exact_storeD(1)[OF st, of "2 ^ 45"] False True by simp
    next
      case neg: False
      then have "st 100 (cents n) \<le> st 100 (cents 0)" by (intro exact_store_mono st cent.grid_mono) simp
      then show ?thesis using st neg by simp
    qed
  qed
  finally show ?thesis by (simp add: resolveRequiredApprovalLevel_def n)
qed

lemma createSupplier_inv:
  assumes st: "exact_store (storeDec env)" and inv: "purchaseInv db" and s: "createSupplierInvoice env u r db = Inr (x, db')"
  shows "purchaseInv db'"
proof -
  obtain ids db1 db2 T where sc: "createSupplierInvoiceSchema r" and T: "T = round2 (fadd (cs_subtotal r) (cs_vat r))"
    and ins: "insertSupplierInvoice x db = Inr db1" and x: "si_status x = RECEIVED" "si_approvalStatus x = PENDING_LEVEL_1"
      "si_approvalCurrentLevel x = 1" "si_approvalRequiredLevel x = resolveRequiredApprovalLevel T" "si_total x = storeDec env 100 T"
    and post: "if cs_autoPost r then insertEntry (autoEntry env u (uuid env 1) (si_receivedDate x)
        (''Postare automata factura furnizor '' @ cs_number r) (currentPeriod (si_receivedDate x)) ''ACCOUNTS_PAYABLE''
        (supplierInvoiceLines r T ids) db1) db1 = Inr db2 else db2 = db1"
    and db': "db' = invalidateFinancialStatementsCache (writeAudit u ''supplier_invoices'' (Some (si_id x)) ''CREATE'' (cs_reason r) db2)"
    using s by (rule createSupplier_InrD)
  have d1: "db1 = db\<lparr>supplierInvoices := supplierInvoices db @ [x]\<rparr>" and nc: "\<forall>y \<in> set (supplierInvoices db). \<not> supplierInvoiceClash y x"
    using ins by (auto simp: insertSupplierInvoice_def supplierInvoiceClash_def list_ex_iff split: if_splits)
  have fresh: "si_id x \<notin> si_id ` set (supplierInvoices db)" using nc by (auto simp: supplierInvoiceClash_def)
  then have "\<forall>a \<in> set (approvals db). ap_supplierInvoiceId a \<noteq> si_id x" "\<forall>p \<in> set (supplierPayments db). sp_supplierInvoiceId p \<noteq> si_id x"
    using inv unfolding purchaseInv_def by metis+
  then have none: "approvedLevels (si_id x) db = []" "supplierAmounts (si_id x) db = []"
    by (simp_all add: approvedLevels_def supplierAmounts_def supplierPaymentsOf_def filter_empty_conv)
  have "0 \<le> T" unfolding T using sc by (intro round2_nonneg) (simp add: createSupplierInvoiceSchema_def fadd_def fl_nonneg)
  then have t0: "0 \<le> si_total x" using exact_store_mono[OF st, of 0 T] st by (simp add: x)
  have "resolveRequiredApprovalLevel T \<in> {3, 4}" by (simp add: resolveRequiredApprovalLevel_def)
  then have ok: "purchaseOk db x"
    using none t0 x required_level[OF st, of "fadd (cs_subtotal r) (cs_vat r)"]
    by (auto simp: purchaseOk_def approvalFlow_def supplierSettled_def levelToPendingStatus_def T[symmetric])
  have "purchaseInv db1"
    using inv nc ok by (auto simp: d1 purchaseInv_def sorted_wrt_append purchaseOk_def approvedLevels_def supplierAmounts_def supplierPaymentsOf_def)
  then show ?thesis using post purchaseInv_insertEntry unfolding db' by (auto split: if_splits)
qed

lemma createDelegation_inv:
  "purchaseInv db \<Longrightarrow> createDelegation env u role r db = Inr (d, db') \<Longrightarrow> purchaseInv db'"
proof -
  assume inv: "purchaseInv db" and c: "createDelegation env u role r db = Inr (d, db')"
  have "supplierInvoices db' = supplierInvoices db \<and> approvals db' = approvals db \<and> supplierPayments db' = supplierPayments db"
    using c by (auto simp: createDelegation_def Let_def bindR_eq_Inr insertDelegation_def split: if_splits option.splits)
  then show ?thesis using inv purchaseInv_cong[of db' db] by simp
qed

section \<open>The steps of the purchases component\<close>

inductive purchase_step :: "'z purchasing_scheme \<Rightarrow> 'z purchasing_scheme \<Rightarrow> bool" where
  register: "exact_store (storeDec env) \<Longrightarrow> createSupplierInvoice env u r db = Inr (x, db') \<Longrightarrow> purchase_step db db'"
| delegate: "createDelegation env u role dr db = Inr (d, db') \<Longrightarrow> purchase_step db db'"
| approve: "approveSupplierInvoice env u role ch i aq db = Inr db' \<Longrightarrow> purchase_step db db'"
| reject: "rejectSupplierInvoice env u role i reason note db = Inr db' \<Longrightarrow> purchase_step db db'"
| pay: "exact_store (storeDec env) \<Longrightarrow> paySupplierInvoice env u i pq db = Inr (p, db') \<Longrightarrow> purchase_step db db'"

inductive_cases purchase_stepE: "purchase_step db db'"

lemma purchase_step_inv: "purchase_step db db' \<Longrightarrow> purchaseInv db \<Longrightarrow> purchaseInv db'"
  by (erule purchase_stepE) (auto intro: createSupplier_inv createDelegation_inv approve_inv reject_inv paySupplier_inv)

lemma purchase_reach_inv: "purchase_step\<^sup>*\<^sup>* db db' \<Longrightarrow> purchaseInv db \<Longrightarrow> purchaseInv db'"
  by (induction rule: rtranclp_induct) (auto intro: purchase_step_inv)

end
