(* ===== verification/PurchaseReports.thy ===== *)
theory PurchaseReports
  imports Purchases
begin

text \<open>
  What the purchases component promises: the properties of the approval flow and of the payments,
  the balance of the automatic posting, and the aging report with its five buckets.
\<close>

section \<open>A worked example\<close>

definition demoMember :: "id \<Rightarrow> Role \<Rightarrow> membership" where
  "demoMember uid role = \<lparr> m_userId = uid, m_companyId = ''c'', m_companyCode = ''C'', m_companyName = ''N'',
     m_companyActive = True, m_role = role, m_isDefault = True, m_createdAt = 0 \<rparr>"

definition demoPurchasing :: purchasing where
  "demoPurchasing = \<lparr> accounts =
       [\<lparr> a_id = ''E'', a_companyId = ''c'', a_code = ''601'', a_isActive = True, a_name = [], a_type = ASSET, a_currency = ''RON'' \<rparr>,
        \<lparr> a_id = ''T'', a_companyId = ''c'', a_code = ''4426'', a_isActive = True, a_name = [], a_type = ASSET, a_currency = ''RON'' \<rparr>,
        \<lparr> a_id = ''F'', a_companyId = ''c'', a_code = ''401'', a_isActive = True, a_name = [], a_type = ASSET, a_currency = ''RON'' \<rparr>],
     periods = [], entries = [], auditLog = [], fsCache = [],
     partners = [\<lparr> pt_id = ''p'', pt_companyId = ''c'', pt_type = BOTH, pt_name = ''P'', pt_cui = None \<rparr>],
     invoices = [], payments = [], invoiceListKeys = [],
     memberships = [demoMember ''u'' CHIEF_ACCOUNTANT, demoMember ''m'' MANAGER],
     supplierInvoices = [], approvals = [], delegations = [], supplierPayments = [] \<rparr>"

definition demoSupplierRequest :: "double \<Rightarrow> double \<Rightarrow> bool \<Rightarrow> supplier_invoice_req" where
  "demoSupplierRequest sub vat post = \<lparr> cs_number = ''S1'', cs_supplierId = ''p'', cs_receivedDate = None,
     cs_dueDate = 1706745600000, cs_currency = ''RON'', cs_subtotal = sub, cs_vat = vat, cs_description = None,
     cs_autoPost = post, cs_expenseAccountCode = ''601'', cs_deductibleVatAccountCode = ''4426'',
     cs_payableAccountCode = ''401'', cs_reason = None \<rparr>"

definition demoSupplierInvoice :: "ApprovalStatus \<Rightarrow> int \<Rightarrow> SupplierInvoiceStatus \<Rightarrow> supplier_invoice" where
  "demoSupplierInvoice ast level st = \<lparr> si_id = ''s0'', si_companyId = ''c'', si_number = ''S1'', si_supplierId = ''p'',
     si_receivedDate = 1706745600000, si_dueDate = 1706745600000, si_currency = ''RON'', si_subtotal = 10010,
     si_vat = 1902, si_total = 11912, si_status = st, si_approvalStatus = ast, si_approvalCurrentLevel = level,
     si_approvalRequiredLevel = 3, si_approvalRequestedAt = Some 1706745600000,
     si_approvalFinalizedAt = (if ast = APPROVED then Some 1706745600000 else None),
     si_approvalFinalizedById = (if ast = APPROVED then Some ''u'' else None), si_approvalRejectedReason = None,
     si_description = None \<rparr>"

definition demoApproval :: "id \<Rightarrow> int \<Rightarrow> approval" where
  "demoApproval i level = \<lparr> ap_id = i, ap_companyId = ''c'', ap_supplierInvoiceId = ''s0'', ap_level = level,
     ap_action = APPROVE, ap_channel = WEB, ap_note = None, ap_approvedById = ''u'', ap_delegatedFromUserId = None \<rparr>"

definition demoApproved :: "approval list \<Rightarrow> ApprovalStatus \<Rightarrow> int \<Rightarrow> purchasing" where
  "demoApproved as ast level = demoPurchasing\<lparr>
     auditLog := demoAuditRow ''supplier_invoices'' ''s0'' #
       map (\<lambda>_. (demoAuditRow ''supplier_invoices'' ''s0'')\<lparr> au_action := ''SUPPLIER_INVOICE_APPROVE'' \<rparr>) as,
     supplierInvoices := [demoSupplierInvoice ast level RECEIVED], approvals := as \<rparr>"

definition demoSupplierPaid :: purchasing where
  "demoSupplierPaid = (demoApproved [demoApproval ''a0'' 1, demoApproval ''b0'' 2, demoApproval ''d0'' 3] APPROVED 3)\<lparr>
     auditLog := auditLog (demoApproved [demoApproval ''a0'' 1, demoApproval ''b0'' 2, demoApproval ''d0'' 3] APPROVED 3) @
       [demoAuditRow ''supplier_payments'' ''q0''],
     supplierInvoices := [demoSupplierInvoice APPROVED 3 SI_PAID],
     supplierPayments := [\<lparr> sp_id = ''q0'', sp_companyId = ''c'', sp_supplierInvoiceId = ''s0'', sp_supplierId = ''p'',
       sp_date = 1706745600000, sp_amount = 11912, sp_method = CASH, sp_reference = None \<rparr>] \<rparr>"

lemma demo_register:
  "createSupplierInvoice (demoEnv ''s'') demoActor (demoSupplierRequest (cents 10010) (cents 1902) False) demoPurchasing =
    Inr (demoSupplierInvoice PENDING_LEVEL_1 1 RECEIVED, demoApproved [] PENDING_LEVEL_1 1)"
  by code_simp

definition demoApprove :: "id \<Rightarrow> purchasing \<Rightarrow> http_error + purchasing" where
  "demoApprove k db = approveSupplierInvoice (demoEnv k) demoActor CHIEF_ACCOUNTANT WEB ''s0'' \<lparr> aq_note = None, aq_reason = None \<rparr> db"

lemma demo_approve:
  "demoApprove ''a'' (demoApproved [] PENDING_LEVEL_1 1) = Inr (demoApproved [demoApproval ''a0'' 1] PENDING_LEVEL_2 2)"
  "demoApprove ''b'' (demoApproved [demoApproval ''a0'' 1] PENDING_LEVEL_2 2) =
     Inr (demoApproved [demoApproval ''a0'' 1, demoApproval ''b0'' 2] PENDING_LEVEL_3 3)"
  "demoApprove ''d'' (demoApproved [demoApproval ''a0'' 1, demoApproval ''b0'' 2] PENDING_LEVEL_3 3) =
     Inr (demoApproved [demoApproval ''a0'' 1, demoApproval ''b0'' 2, demoApproval ''d0'' 3] APPROVED 3)"
  by code_simp+

lemma demo_supplier_pay:
  "\<exists>p. paySupplierInvoice (demoEnv ''q'') demoActor ''s0'' (demoPayment (cents 11912))
     (demoApproved [demoApproval ''a0'' 1, demoApproval ''b0'' 2, demoApproval ''d0'' 3] APPROVED 3) = Inr (p, demoSupplierPaid)"
  by (rule exI[of _ "hd (supplierPayments demoSupplierPaid)"]) code_simp

lemma demo_purchase_inv: "purchaseInv demoPurchasing"
  by (simp add: purchaseInv_def demoPurchasing_def)

lemma demo_purchase_reach: "purchase_step\<^sup>*\<^sup>* demoPurchasing demoSupplierPaid"
proof -
  obtain p where p: "paySupplierInvoice (demoEnv ''q'') demoActor ''s0'' (demoPayment (cents 11912))
     (demoApproved [demoApproval ''a0'' 1, demoApproval ''b0'' 2, demoApproval ''d0'' 3] APPROVED 3) = Inr (p, demoSupplierPaid)"
    using demo_supplier_pay by blast
  note steps = purchase_step.register[OF demoEnv_exact demo_register]
    purchase_step.approve[OF demo_approve(1)[unfolded demoApprove_def]]
    purchase_step.approve[OF demo_approve(2)[unfolded demoApprove_def]]
    purchase_step.approve[OF demo_approve(3)[unfolded demoApprove_def]]
    purchase_step.pay[OF demoEnv_exact p]
  show ?thesis using steps by (meson converse_rtranclp_into_rtranclp rtranclp.rtrancl_refl)
qed

section \<open>The posting of a supplier invoice\<close>

lemma two_lines_stored_balanced:
  assumes st: "exact_store st" and "0 \<le> m"
  shows "balanced (storeLines st [(a, cents m, 0, s), (b, 0, round2 (fadd (cents m) (cents 0)), t)])"
proof -
  let ?ls = "storeLines st [(a, cents m, 0, s), (b, 0, round2 (fadd (cents m) (cents 0)), t)]"
  have "debits ?ls = credits ?ls" if sm: "small ?ls"
  proof -
    have "\<bar>jl_credit (last ?ls)\<bar> < 2 ^ 44" using small_line_44(2)[OF sm, of "last ?ls"] by (simp add: storeLines_def)
    then have "st 100 (round2 (fadd (cents m) (cents 0))) < 2 ^ 44" by (simp add: storeLines_def storeLine_def)
    note t = stored_total(1,2)[OF st assms(2) order_refl this]
    have "round2 (fadd (cents m) 0) = cents m" using t(1) by simp
    then show ?thesis using st by (simp add: storeLines_def storeLine_def debits_def credits_def)
  qed
  then show ?thesis by (simp add: balanced_def)
qed

lemma three_lines_payable_balanced:
  assumes st: "exact_store st" and mn: "0 \<le> m" "0 \<le> n"
  shows "balanced (storeLines st [(a, cents m, 0, s), (b, cents n, 0, t), (c, 0, round2 (fadd (cents m) (cents n)), v)])"
proof -
  let ?ls = "storeLines st [(a, cents m, 0, s), (b, cents n, 0, t), (c, 0, round2 (fadd (cents m) (cents n)), v)]"
  have "debits ?ls = credits ?ls" if sm: "small ?ls"
  proof -
    have "\<bar>jl_credit (last ?ls)\<bar> < 2 ^ 44" using small_line_44(2)[OF sm, of "last ?ls"] by (simp add: storeLines_def)
    then have "st 100 (round2 (fadd (cents m) (cents n))) < 2 ^ 44" by (simp add: storeLines_def storeLine_def)
    note t = stored_total[OF st mn this]
    then show ?thesis using mn exact_storeD(1)[OF st, of "m + n"] exact_storeD(1)[OF st, of m] exact_storeD(1)[OF st, of n] st
      by (simp add: storeLines_def storeLine_def debits_def credits_def)
  qed
  then show ?thesis by (simp add: balanced_def)
qed

lemma supplierInvoiceLines_balanced:
  assumes "exact_store st" "0 \<le> m" "0 \<le> n" "cs_subtotal r = cents m" "cs_vat r = cents n"
  shows "balanced (storeLines st (supplierInvoiceLines r (round2 (fadd (cs_subtotal r) (cs_vat r))) ids))"
proof (cases "0 < cs_vat r")
  case True
  then show ?thesis using three_lines_payable_balanced[OF assms(1-3)] by (simp add: supplierInvoiceLines_def assms(4,5))
next
  case False
  then have "n = 0" using assms(3,5) by simp
  then show ?thesis using two_lines_stored_balanced[OF assms(1,2)] by (simp add: supplierInvoiceLines_def assms(4,5))
qed

lemma createSupplier_entry:
  fixes db db' :: "'a purchasing_scheme"
  assumes "createSupplierInvoice env u r db = Inr (x, db')" "cs_autoPost r"
  obtains e ids and db1 db2 :: "'a purchasing_scheme" where "entries db' = entries db @ [e]" "je_posted e" "je_companyId e = act_company u" "je_status e = VALIDATED"
    "\<not> periodClosed (je_companyId e) (je_period e) db" "periods db' = periods db"
    "je_lines e = storeLines (storeDec env) (supplierInvoiceLines r (round2 (fadd (cs_subtotal r) (cs_vat r))) ids)"
    "entries db1 = entries db" "periods db1 = periods db" "insertEntry e db1 = Inr db2"
    "entries db' = entries db2" "periods db' = periods db2"
proof -
  obtain ids T and db1 db2 :: "'a purchasing_scheme" where T: "T = round2 (fadd (cs_subtotal r) (cs_vat r))"
    and op: "\<not> periodClosed (act_company u) (currentPeriod (si_receivedDate x)) db"
    and ins: "insertSupplierInvoice x db = Inr db1"
    and post: "if cs_autoPost r then insertEntry (autoEntry env u (uuid env 1) (si_receivedDate x)
        (''Postare automata factura furnizor '' @ cs_number r) (currentPeriod (si_receivedDate x)) ''ACCOUNTS_PAYABLE''
        (supplierInvoiceLines r T ids) db1) db1 = Inr db2 else db2 = db1"
    and db': "db' = invalidateFinancialStatementsCache (writeAudit u ''supplier_invoices'' (Some (si_id x)) ''CREATE'' (cs_reason r) db2)"
    using assms(1) by (rule createSupplier_InrD)
  have d1: "entries db1 = entries db" "periods db1 = periods db" using ins by (auto simp: insertSupplierInvoice_def split: if_splits)
  define e where "e = autoEntry env u (uuid env 1) (si_receivedDate x) (''Postare automata factura furnizor '' @ cs_number r)
     (currentPeriod (si_receivedDate x)) ''ACCOUNTS_PAYABLE'' (supplierInvoiceLines r T ids) db1"
  have i: "insertEntry e db1 = Inr db2" using post assms(2) by (simp add: e_def)
  have d2: "entries db2 = entries db1 @ [e]" "periods db2 = periods db1" using insertEntry_InrD[OF i] by auto
  have e: "je_posted e" "je_companyId e = act_company u" "je_status e = VALIDATED"
    "je_lines e = storeLines (storeDec env) (supplierInvoiceLines r (round2 (fadd (cs_subtotal r) (cs_vat r))) ids)"
    "\<not> periodClosed (je_companyId e) (je_period e) db"
    using op by (simp_all add: e_def T)
  have "entries db' = entries db2" "periods db' = periods db2" by (simp_all add: db')
  then show ?thesis using that[of e ids db1 db2] i d1 d2 e by simp
qed

section \<open>The aging report\<close>

record aging_buckets =
  ab_current :: double
  ab_d1_30 :: double
  ab_d31_60 :: double
  ab_d61_90 :: double
  ab_d90_plus :: double

record aging_row =
  ar_supplierInvoiceId :: id
  ar_number :: string
  ar_supplier :: string
  ar_dueDate :: date
  ar_openAmount :: double
  ar_overdueDays :: int
  ar_status :: SupplierInvoiceStatus

definition agingInvoices :: "id \<Rightarrow> 'z purchasing_scheme \<Rightarrow> supplier_invoice list" where
  "agingInvoices c db = sort_key si_dueDate (sort_key si_receivedDate
     (filter (\<lambda>x. si_companyId x = c \<and> si_status x \<in> set openSupplierInvoiceStatuses) (supplierInvoices db)))"

definition agingOpenAmount :: "'z purchasing_scheme \<Rightarrow> supplier_invoice \<Rightarrow> double" where
  "agingOpenAmount db x = round2 (max (fsub (toNumber (column 100 (si_total x)))
     (reduceSum (map (\<lambda>p. toNumber (column 100 (sp_amount p))) (supplierPaymentsOf (si_id x) db)))) 0)"

definition agingDiffDays :: "date \<Rightarrow> supplier_invoice \<Rightarrow> int" where
  "agingDiffDays asOf x = \<lfloor>fdiv (of_int (asOf - si_dueDate x)) (of_int (1000 * 60 * 60 * 24))\<rfloor>"

definition addToBucket :: "int \<Rightarrow> double \<Rightarrow> aging_buckets \<Rightarrow> aging_buckets" where
  "addToBucket diffDays openAmount b =
     (if diffDays \<le> 0 then b\<lparr>ab_current := round2 (fadd (ab_current b) openAmount)\<rparr>
      else if diffDays \<le> 30 then b\<lparr>ab_d1_30 := round2 (fadd (ab_d1_30 b) openAmount)\<rparr>
      else if diffDays \<le> 60 then b\<lparr>ab_d31_60 := round2 (fadd (ab_d31_60 b) openAmount)\<rparr>
      else if diffDays \<le> 90 then b\<lparr>ab_d61_90 := round2 (fadd (ab_d61_90 b) openAmount)\<rparr>
      else b\<lparr>ab_d90_plus := round2 (fadd (ab_d90_plus b) openAmount)\<rparr>)"

definition agingReport :: "id \<Rightarrow> date \<Rightarrow> 'z purchasing_scheme \<Rightarrow> aging_buckets \<times> aging_row list" where
  "agingReport c asOf db =
     (foldl (\<lambda>b x. addToBucket (agingDiffDays asOf x) (agingOpenAmount db x) b)
        \<lparr> ab_current = 0, ab_d1_30 = 0, ab_d31_60 = 0, ab_d61_90 = 0, ab_d90_plus = 0 \<rparr> (agingInvoices c db),
      map (\<lambda>x. \<lparr> ar_supplierInvoiceId = si_id x, ar_number = si_number x,
             ar_supplier = (case find (\<lambda>p. pt_id p = si_supplierId x) (partners db) of Some p \<Rightarrow> pt_name p | None \<Rightarrow> []),
             ar_dueDate = si_dueDate x, ar_openAmount = agingOpenAmount db x,
             ar_overdueDays = max (agingDiffDays asOf x) 0, ar_status = si_status x \<rparr>) (agingInvoices c db))"

text \<open>What is open on an invoice, in cents, and the days it is overdue, as exact integers.\<close>

definition openCents :: "'z purchasing_scheme \<Rightarrow> supplier_invoice \<Rightarrow> int" where
  "openCents db x = si_total x - sum_list (supplierAmounts (si_id x) db)"

definition daysLate :: "date \<Rightarrow> supplier_invoice \<Rightarrow> int" where
  "daysLate asOf x = (asOf - si_dueDate x) div 86400000"

definition openIn :: "(int \<Rightarrow> bool) \<Rightarrow> date \<Rightarrow> 'z purchasing_scheme \<Rightarrow> supplier_invoice list \<Rightarrow> int" where
  "openIn P asOf db xs = (\<Sum>x\<leftarrow>filter (\<lambda>x. P (daysLate asOf x)) xs. openCents db x)"

definition bucketsOf :: "int \<Rightarrow> int \<Rightarrow> int \<Rightarrow> int \<Rightarrow> int \<Rightarrow> aging_buckets" where
  "bucketsOf a b c d e = \<lparr> ab_current = cents a, ab_d1_30 = cents b, ab_d31_60 = cents c, ab_d61_90 = cents d, ab_d90_plus = cents e \<rparr>"

lemma agingDiffDays_eq: "\<bar>asOf - si_dueDate x\<bar> < 2 ^ 53 \<Longrightarrow> agingDiffDays asOf x = daysLate asOf x"
  unfolding agingDiffDays_def daysLate_def by (subst floor_fdiv) simp_all

lemma agingOpenAmount_eq:
  assumes "supplierSettled (supplierAmounts (si_id x) db) x" "fits (supplierAmounts (si_id x) db) (si_total x)"
  shows "agingOpenAmount db x = cents (openCents db x)" "0 \<le> openCents db x"
proof -
  let ?ns = "supplierAmounts (si_id x) db"
  have nn: "\<forall>n \<in> set ?ns. 0 \<le> n" and le: "sum_list ?ns \<le> si_total x" using assms by (auto simp: supplierSettled_def)
  have s: "0 \<le> sum_list ?ns" and T: "si_total x < 2 ^ 44" "0 \<le> si_total x"
    using assms nn by (auto intro: sum_list_nonneg_int simp: fits_def supplierSettled_def)
  show "0 \<le> openCents db x" using le by (simp add: openCents_def)
  have "\<bar>of_int 100 * foldl fadd 0 (map cents ?ns) - of_int (sum_list ?ns)\<bar> \<le> 1/20"
    using assms(2) nn by (intro cent.sum_close) (simp add: sum_abs_id fits_def)
  moreover have "\<bar>of_int 100 * cents (si_total x) - of_int (si_total x)\<bar> \<le> 1/20"
    using T by (intro cent.grid_close_44) simp
  ultimately have "round2 (max (fsub (cents (si_total x)) (foldl fadd 0 (map cents ?ns))) 0) = cents (si_total x - sum_list ?ns)"
    using s le T by (intro round2_open) auto
  then show "agingOpenAmount db x = cents (openCents db x)"
    by (simp add: agingOpenAmount_def openCents_def reduceSum_def supplierAmounts_def comp_def)
qed

lemma openIn_Cons [simp]: "openIn P asOf db (x # xs) = (if P (daysLate asOf x) then openCents db x else 0) + openIn P asOf db xs"
  by (simp add: openIn_def)

lemma openIn_Nil [simp]: "openIn P asOf db [] = 0"
  by (simp add: openIn_def)

lemma aging_fold:
  assumes "\<forall>x \<in> set xs. agingOpenAmount db x = cents (openCents db x) \<and> 0 \<le> openCents db x \<and> agingDiffDays asOf x = daysLate asOf x"
    and "0 \<le> a" "0 \<le> b" "0 \<le> c" "0 \<le> d" "0 \<le> e" "a + b + c + d + e + openIn (\<lambda>_. True) asOf db xs \<le> 2 ^ 44"
  shows "foldl (\<lambda>b x. addToBucket (agingDiffDays asOf x) (agingOpenAmount db x) b) (bucketsOf a b c d e) xs =
    bucketsOf (a + openIn (\<lambda>n. n \<le> 0) asOf db xs) (b + openIn (\<lambda>n. 1 \<le> n \<and> n \<le> 30) asOf db xs)
      (c + openIn (\<lambda>n. 31 \<le> n \<and> n \<le> 60) asOf db xs) (d + openIn (\<lambda>n. 61 \<le> n \<and> n \<le> 90) asOf db xs)
      (e + openIn (\<lambda>n. 91 \<le> n) asOf db xs)"
  using assms
proof (induction xs arbitrary: a b c d e)
  case (Cons x xs)
  let ?k = "openCents db x" and ?n = "daysLate asOf x"
  have x: "agingOpenAmount db x = cents ?k" "0 \<le> ?k" "agingDiffDays asOf x = ?n" using Cons.prems(1) by auto
  have "0 \<le> openIn (\<lambda>_. True) asOf db xs"
    unfolding openIn_def using Cons.prems(1) by (auto intro!: sum_list_nonneg)
  then have bd: "a + ?k \<le> 2 ^ 44" "b + ?k \<le> 2 ^ 44" "c + ?k \<le> 2 ^ 44" "d + ?k \<le> 2 ^ 44" "e + ?k \<le> 2 ^ 44"
    using Cons.prems x by auto
  have add: "round2 (fadd (cents m) (cents ?k)) = cents (m + ?k)" if "0 \<le> m" "m + ?k \<le> 2 ^ 44" for m
    using that x(2) by (intro round2_add) auto
  have step: "addToBucket (agingDiffDays asOf x) (agingOpenAmount db x) (bucketsOf a b c d e) =
     bucketsOf (a + (if ?n \<le> 0 then ?k else 0)) (b + (if 1 \<le> ?n \<and> ?n \<le> 30 then ?k else 0))
       (c + (if 31 \<le> ?n \<and> ?n \<le> 60 then ?k else 0)) (d + (if 61 \<le> ?n \<and> ?n \<le> 90 then ?k else 0)) (e + (if 91 \<le> ?n then ?k else 0))"
    using bd Cons.prems by (auto simp: addToBucket_def x bucketsOf_def add)
  show ?case unfolding foldl_Cons step using Cons.prems x by (subst Cons.IH) (auto simp: ac_simps)
qed simp

section \<open>Properties\<close>

lemma purchase_reach_ok:
  assumes "purchase_step\<^sup>*\<^sup>* db db'" "purchaseInv db" "x \<in> set (supplierInvoices db')"
  shows "approvalFlow (approvedLevels (si_id x) db') x" "supplierSettled (supplierAmounts (si_id x) db') x"
    "si_approvalRequiredLevel x = 4 \<longleftrightarrow> 5000000 \<le> si_total x"
  using purchase_reach_inv[OF assms(1,2)] assms(3) by (auto simp: purchaseInv_def purchaseOk_def)



text \<open>C10: An approval is accepted only from a member whose role is allowed for the current level of
  the invoice, or from one to whom such a member delegated the approval for the current time, and it
  is recorded under the user who gave it.\<close>

theorem approval_authority:
  assumes "approveSupplierInvoice env u role ch i r db = Inr db'"
  shows "\<exists>x a. findSupplierInvoice (act_company u) i db = Some x \<and> si_approvalStatus x \<noteq> APPROVED \<and>
    si_approvalStatus x \<noteq> REJECTED \<and> approvals db' = approvals db @ [a] \<and> ap_supplierInvoiceId a = i \<and>
    ap_level a = clampLevel (si_approvalCurrentLevel x) \<and> ap_approvedById a = act_user u \<and>
    (isRoleAllowedForLevel role (ap_level a) \<or>
     (\<exists>d \<in> set (delegations db). dg_companyId d = act_company u \<and> dg_toUserId d = act_user u \<and> dg_isActive d \<and>
        dg_startsAt d \<le> now env \<and> now env \<le> dg_endsAt d \<and> ap_delegatedFromUserId a = Some (dg_fromUserId d) \<and>
        (\<exists>m \<in> set (memberships db). m_companyId m = act_company u \<and> m_userId m = dg_fromUserId d \<and>
          isRoleAllowedForLevel (m_role m) (ap_level a))))"
proof -
  obtain x approver fromId db1 c q where x: "findSupplierInvoice (act_company u) i db = Some x"
    "si_approvalStatus x \<noteq> APPROVED" "si_approvalStatus x \<noteq> REJECTED"
    and c: "c = clampLevel (si_approvalCurrentLevel x)"
    and ra: "resolveApprovalActor u role c (now env) db = Inr (approver, fromId)"
    and ins: "insertApproval \<lparr> ap_id = uuid env 0, ap_companyId = act_company u, ap_supplierInvoiceId = si_id x,
       ap_level = c, ap_action = APPROVE, ap_channel = ch, ap_note = aq_note r,
       ap_approvedById = approver, ap_delegatedFromUserId = fromId \<rparr> db = Inr db1" (is "insertApproval ?a db = _")
    and ap: "approvals db' = approvals db1"
    using assms by (rule approve_InrD)
  have a: "approvals db' = approvals db @ [?a]" unfolding ap insertApproval_InrD[OF ins] by simp
  have id: "si_id x = i" using findSupplierInvoice_SomeD[OF x(1)] by simp
  have auth: "isRoleAllowedForLevel role c \<or>
     (\<exists>d \<in> set (delegations db). dg_companyId d = act_company u \<and> dg_toUserId d = act_user u \<and> dg_isActive d \<and>
        dg_startsAt d \<le> now env \<and> now env \<le> dg_endsAt d \<and> fromId = Some (dg_fromUserId d) \<and>
        (\<exists>m \<in> set (memberships db). m_companyId m = act_company u \<and> m_userId m = dg_fromUserId d \<and> isRoleAllowedForLevel (m_role m) c))"
    and me: "approver = act_user u"
    using resolveApprovalActor_InrD[OF ra] by auto
  show ?thesis
    by (rule exI[of _ x], rule exI[of _ ?a]) (use x a id c auth me in simp)
qed

theorem approval_authority_witness: "isRoleAllowedForLevel CHIEF_ACCOUNTANT 1"
proof -
  have d: "delegations (demoApproved [] PENDING_LEVEL_1 1) = []" by (simp add: demoApproved_def demoPurchasing_def)
  have f: "findSupplierInvoice (act_company demoActor) ''s0'' (demoApproved [] PENDING_LEVEL_1 1) =
      Some (demoSupplierInvoice PENDING_LEVEL_1 1 RECEIVED)" by code_simp
  have l: "clampLevel (si_approvalCurrentLevel (demoSupplierInvoice PENDING_LEVEL_1 1 RECEIVED)) = 1" by code_simp
  from approval_authority[OF demo_approve(1)[unfolded demoApprove_def]] show ?thesis using d f l by auto
qed

text \<open>A supplier invoice of amounts with two decimals, registered with automatic posting, adds
  exactly one journal entry: posted, into the open period of its date, with equal debits and credits.\<close>

lemma supplier_posting:
  assumes "exact_store (storeDec env)" "createSupplierInvoice env u r db = Inr (x, db')" "cs_autoPost r"
    and "cs_subtotal r = cents m" "cs_vat r = cents n"
  shows "\<exists>e. entries db' = entries db @ [e] \<and> je_posted e \<and> je_companyId e = act_company u \<and>
    \<not> periodClosed (je_companyId e) (je_period e) db \<and> (small (je_lines e) \<longrightarrow> debits (je_lines e) = credits (je_lines e))"
proof -
  obtain e ids where e: "entries db' = entries db @ [e]" "je_posted e" "je_companyId e = act_company u"
    "\<not> periodClosed (je_companyId e) (je_period e) db"
    "je_lines e = storeLines (storeDec env) (supplierInvoiceLines r (round2 (fadd (cs_subtotal r) (cs_vat r))) ids)"
    using assms(2,3) by (rule createSupplier_entry)
  have "createSupplierInvoiceSchema r" using assms(2) by (simp add: createSupplierInvoice_def split: if_splits)
  then have "0 \<le> m" "0 \<le> n" using assms(4,5) by (simp_all add: createSupplierInvoiceSchema_def)
  then have "balanced (je_lines e)" unfolding e(5) using assms by (intro supplierInvoiceLines_balanced)
  then show ?thesis using e by (auto simp: balanced_def)
qed

lemma demo_supplier_post:
  "is_ok (createSupplierInvoice (demoEnv ''s'') demoActor (demoSupplierRequest (cents 10010) (cents 1902) True) demoPurchasing)"
  "is_ok (createSupplierInvoice (demoEnv ''s'') demoActor (demoSupplierRequest (5 / 1024) (5 / 1024) True) demoPurchasing)"
  by code_simp+

lemma supplier_posting_example:
  "\<exists>x db' e. createSupplierInvoice (demoEnv ''s'') demoActor (demoSupplierRequest (cents 10010) (cents 1902) True) demoPurchasing = Inr (x, db') \<and>
     entries db' = [e] \<and> je_posted e"
proof -
  obtain x db' where c: "createSupplierInvoice (demoEnv ''s'') demoActor (demoSupplierRequest (cents 10010) (cents 1902) True) demoPurchasing = Inr (x, db')"
    using demo_supplier_post(1) by (auto simp: is_ok_iff)
  have r: "cs_autoPost (demoSupplierRequest (cents 10010) (cents 1902) True)"
    "cs_subtotal (demoSupplierRequest (cents 10010) (cents 1902) True) = cents 10010"
    "cs_vat (demoSupplierRequest (cents 10010) (cents 1902) True) = cents 1902" by (simp_all add: demoSupplierRequest_def)
  have "entries demoPurchasing = []" by (simp add: demoPurchasing_def)
  with supplier_posting[OF demoEnv_exact c r] c show ?thesis by auto
qed

text \<open>The lines of a supplier posting are the unrounded amounts of the request while its payable
  line is the rounded total: two amounts of about half a cent give a posted entry whose debits and
  credits differ, however the column rounds.\<close>

lemma supplier_posting_unbalanced:
  assumes "exact_store (storeDec env)" "createSupplierInvoice env u r db = Inr (x, db')" "cs_autoPost r"
    and "cs_subtotal r = a" "cs_vat r = a" "1 / 250 \<le> a" "a \<le> 3 / 500"
  shows "\<exists>e. entries db' = entries db @ [e] \<and> je_posted e \<and> debits (je_lines e) \<noteq> credits (je_lines e)"
proof -
  obtain e ids where e: "entries db' = entries db @ [e]" "je_posted e"
    "je_lines e = storeLines (storeDec env) (supplierInvoiceLines r (round2 (fadd (cs_subtotal r) (cs_vat r))) ids)"
    using assms(2,3) by (rule createSupplier_entry)
  have "\<bar>fl (a + a) - (a + a)\<bar> \<le> \<bar>a + a\<bar> / 2 ^ 53 + 1 / 2 ^ 1000" by (rule fl_err)
  also have "\<dots> \<le> 1 / 2 ^ 53 + 1 / 2 ^ 1000" using assms(6,7) by (intro add_right_mono divide_right_mono) auto
  also have "\<dots> \<le> 1 / 1000" by simp
  finally have "\<bar>fl (a + a) - (a + a)\<bar> \<le> 1 / 1000" .
  then have "\<bar>of_int 100 * fadd a a - of_int 1\<bar> \<le> 2/5" 
  proof -
    have "(0::rat) \<le> a * 250 - 1" "(0::rat) \<le> 3 - a * 500" using assms(6,7) by simp_all
    moreover have "\<bar>fl (a + a) - (a + a)\<bar> \<le> 1 / 1000" by fact
    ultimately show ?thesis unfolding fadd_def of_int_numeral of_int_1 by linarith
  qed
  then have "round2 (fadd a a) = cents 1" by (rule round2_near) simp
  then have ls: "je_lines e = storeLines (storeDec env) [(ids ! 0, a, 0, ''Cheltuiala factura furnizor '' @ cs_number r),
      (ids ! 1, a, 0, ''TVA deductibil '' @ cs_number r), (ids ! 2, 0, cents 1, ''Datorie furnizor '' @ cs_number r)]"
    using assms(4-6) by (simp add: e(3) supplierInvoiceLines_def)
  have "debits (je_lines e) = 2 * storeDec env 100 a" "credits (je_lines e) = 1"
    using assms(1) exact_storeD(1)[OF assms(1), of 1] by (simp_all add: ls storeLines_def storeLine_def debits_def credits_def)
  then have "debits (je_lines e) \<noteq> credits (je_lines e)" by presburger
  then show ?thesis using e by blast
qed

lemma supplier_posting_unbalanced_example:
  "\<exists>x db' e. createSupplierInvoice (demoEnv ''s'') demoActor (demoSupplierRequest (5 / 1024) (5 / 1024) True) demoPurchasing = Inr (x, db') \<and>
     entries db' = [e] \<and> je_posted e \<and> debits (je_lines e) \<noteq> credits (je_lines e)"
proof -
  obtain x db' where c: "createSupplierInvoice (demoEnv ''s'') demoActor (demoSupplierRequest (5 / 1024) (5 / 1024) True) demoPurchasing = Inr (x, db')"
    using demo_supplier_post(2) by (auto simp: is_ok_iff)
  have r: "cs_autoPost (demoSupplierRequest (5 / 1024) (5 / 1024) True)"
    "cs_subtotal (demoSupplierRequest (5 / 1024) (5 / 1024) True) = 5 / 1024"
    "cs_vat (demoSupplierRequest (5 / 1024) (5 / 1024) True) = 5 / 1024" by (simp_all add: demoSupplierRequest_def)
  have "entries demoPurchasing = []" by (simp add: demoPurchasing_def)
  with supplier_posting_unbalanced[OF demoEnv_exact c r] c show ?thesis by auto
qed

text \<open>The aging report puts the open amount of every open invoice, exact to the cent, into the
  bucket of the whole days it is late: the five buckets are the exact sums of the open amounts late
  by at most 0, 1 to 30, 31 to 60, 61 to 90 and more days, and together the sum of all.\<close>

lemma aging_report:
  assumes "purchaseInv db" "\<And>x. x \<in> set (agingInvoices c db) \<Longrightarrow> fits (supplierAmounts (si_id x) db) (si_total x)"
    and "\<And>x. x \<in> set (agingInvoices c db) \<Longrightarrow> \<bar>asOf - si_dueDate x\<bar> < 2 ^ 53"
    and "openIn (\<lambda>_. True) asOf db (agingInvoices c db) \<le> 2 ^ 44"
  shows "\<exists>s0 s30 s60 s90 more. fst (agingReport c asOf db) = bucketsOf s0 s30 s60 s90 more \<and>
    s0 = openIn (\<lambda>n. n \<le> 0) asOf db (agingInvoices c db) \<and> s30 = openIn (\<lambda>n. 1 \<le> n \<and> n \<le> 30) asOf db (agingInvoices c db) \<and>
    s60 = openIn (\<lambda>n. 31 \<le> n \<and> n \<le> 60) asOf db (agingInvoices c db) \<and>
    s90 = openIn (\<lambda>n. 61 \<le> n \<and> n \<le> 90) asOf db (agingInvoices c db) \<and>
    more = openIn (\<lambda>n. 91 \<le> n) asOf db (agingInvoices c db) \<and>
    s0 + s30 + s60 + s90 + more = (\<Sum>x\<leftarrow>agingInvoices c db. openCents db x) \<and>
    map ar_openAmount (snd (agingReport c asOf db)) = map (\<lambda>x. cents (openCents db x)) (agingInvoices c db)"
proof -
  let ?xs = "agingInvoices c db"
  have ok: "agingOpenAmount db x = cents (openCents db x) \<and> 0 \<le> openCents db x \<and> agingDiffDays asOf x = daysLate asOf x"
    if x: "x \<in> set ?xs" for x
  proof -
    have "x \<in> set (supplierInvoices db)" using x by (simp add: agingInvoices_def)
    then have "supplierSettled (supplierAmounts (si_id x) db) x" using assms(1) by (simp add: purchaseInv_def purchaseOk_def)
    then show ?thesis using agingOpenAmount_eq assms(2,3)[OF x] agingDiffDays_eq by blast
  qed
  have start: "\<lparr> ab_current = 0, ab_d1_30 = 0, ab_d31_60 = 0, ab_d61_90 = 0, ab_d90_plus = 0 \<rparr> = bucketsOf 0 0 0 0 0"
    by (simp add: bucketsOf_def)
  have "openIn (\<lambda>n. n \<le> 0) asOf db xs + openIn (\<lambda>n. 1 \<le> n \<and> n \<le> 30) asOf db xs + openIn (\<lambda>n. 31 \<le> n \<and> n \<le> 60) asOf db xs +
      openIn (\<lambda>n. 61 \<le> n \<and> n \<le> 90) asOf db xs + openIn (\<lambda>n. 91 \<le> n) asOf db xs = (\<Sum>x\<leftarrow>xs. openCents db x)" for xs
    by (induction xs) auto
  moreover have "fst (agingReport c asOf db) = bucketsOf (openIn (\<lambda>n. n \<le> 0) asOf db ?xs) (openIn (\<lambda>n. 1 \<le> n \<and> n \<le> 30) asOf db ?xs)
      (openIn (\<lambda>n. 31 \<le> n \<and> n \<le> 60) asOf db ?xs) (openIn (\<lambda>n. 61 \<le> n \<and> n \<le> 90) asOf db ?xs) (openIn (\<lambda>n. 91 \<le> n) asOf db ?xs)"
    unfolding agingReport_def fst_conv start using ok assms(4) by (subst aging_fold) auto
  moreover have "map ar_openAmount (snd (agingReport c asOf db)) = map (\<lambda>x. cents (openCents db x)) ?xs"
    using ok by (simp add: agingReport_def)
  ultimately show ?thesis by blast
qed

lemma aging_report_example:
  "\<exists>b. fst (agingReport ''c'' 1710000000000 (demoApproved [] PENDING_LEVEL_1 1)) = b \<and> b = bucketsOf 0 0 11912 0 0"
proof -
  let ?db = "demoApproved [] PENDING_LEVEL_1 1" and ?x = "demoSupplierInvoice PENDING_LEVEL_1 1 RECEIVED"
  have inv: "purchaseInv ?db" using purchase_step_inv[OF purchase_step.register[OF demoEnv_exact demo_register] demo_purchase_inv] .
  have xs: "agingInvoices ''c'' ?db = [?x]" by code_simp
  have ns: "supplierAmounts (si_id ?x) ?db = []" by code_simp
  have x: "openCents ?db ?x = 11912" "daysLate 1710000000000 ?x = 37" "si_total ?x = 11912" "si_dueDate ?x = 1706745600000" by code_simp+
  have "\<exists>s0 s30 s60 s90 more. fst (agingReport ''c'' 1710000000000 ?db) = bucketsOf s0 s30 s60 s90 more \<and>
    s0 = openIn (\<lambda>n. n \<le> 0) 1710000000000 ?db (agingInvoices ''c'' ?db) \<and> s30 = openIn (\<lambda>n. 1 \<le> n \<and> n \<le> 30) 1710000000000 ?db (agingInvoices ''c'' ?db) \<and>
    s60 = openIn (\<lambda>n. 31 \<le> n \<and> n \<le> 60) 1710000000000 ?db (agingInvoices ''c'' ?db) \<and>
    s90 = openIn (\<lambda>n. 61 \<le> n \<and> n \<le> 90) 1710000000000 ?db (agingInvoices ''c'' ?db) \<and>
    more = openIn (\<lambda>n. 91 \<le> n) 1710000000000 ?db (agingInvoices ''c'' ?db) \<and>
    s0 + s30 + s60 + s90 + more = (\<Sum>x\<leftarrow>agingInvoices ''c'' ?db. openCents ?db x) \<and>
    map ar_openAmount (snd (agingReport ''c'' 1710000000000 ?db)) = map (\<lambda>x. cents (openCents ?db x)) (agingInvoices ''c'' ?db)"
    by (rule aging_report[OF inv]) (auto simp: xs ns x fits_def)
  then show ?thesis by (auto simp: xs x)
qed

end
