(* ===== verification/Stocks.thy ===== *)
theory Stocks
  imports Purchases
begin

text \<open>
  Stocks (routes/stocks.ts): items valued by FIFO or by weighted average cost, goods receipts (NIR),
  consumptions and inventory reconciliation. Quantities are columns of three decimals, unit costs of
  four, totals of two; every movement is a row and a FIFO receipt a lot. The routes run inside one
  transaction, line by line, and every line reads the item again.
\<close>

section \<open>Tables\<close>

datatype StockValuationMethod = FIFO | CMP
datatype StockMovementType = NIR | CONSUMPTION | INVENTORY_PLUS | INVENTORY_MINUS

record stock_item =
  it_id :: id
  it_companyId :: id
  it_code :: string
  it_name :: string
  it_unit :: string
  it_valuationMethod :: StockValuationMethod
  it_minStockQty :: int
  it_quantityOnHand :: int
  it_avgUnitCost :: int
  it_isActive :: bool

record stock_movement =
  mv_id :: id
  mv_companyId :: id
  mv_itemId :: id
  mv_type :: StockMovementType
  mv_movementDate :: date
  mv_quantity :: int
  mv_unitCost :: int
  mv_totalCost :: int
  mv_resultingQuantity :: int
  mv_documentNumber :: "string option"
  mv_note :: "string option"
  mv_sourceLots :: "(id \<times> double \<times> double) list"

record stock_lot =
  lot_id :: id
  lot_companyId :: id
  lot_itemId :: id
  lot_sourceMovementId :: id
  lot_receivedAt :: date
  lot_unitCost :: int
  lot_initialQuantity :: int
  lot_remainingQuantity :: int
  lot_createdAt :: date

record stocking = purchasing +
  stockItems :: "stock_item list"
  stockMovements :: "stock_movement list"
  stockLots :: "stock_lot list"

section \<open>Requests\<close>

record create_item_req =
  it_req_code :: string
  it_req_name :: string
  it_req_unit :: string
  it_req_valuationMethod :: StockValuationMethod
  it_req_minStockQty :: double
  it_req_initialQuantity :: double
  it_req_initialUnitCost :: "double option"
  it_req_reason :: "string option"

record nir_line =
  nl_itemId :: id
  nl_quantity :: double
  nl_unitCost :: double
  nl_note :: "string option"

record consumption_line =
  cl_itemId :: id
  cl_quantity :: double
  cl_note :: "string option"

record inventory_line =
  il_itemId :: id
  il_countedQuantity :: double
  il_unitCost :: "double option"
  il_note :: "string option"

record 'l stock_req =
  sr_date :: "date option"
  sr_documentNumber :: "string option"
  sr_reason :: "string option"
  sr_lines :: "'l list"

definition createItemSchema :: "create_item_req \<Rightarrow> bool" where
  "createItemSchema r \<longleftrightarrow> it_req_code r \<noteq> [] \<and> length (it_req_code r) \<le> 40 \<and> 2 \<le> length (it_req_name r) \<and>
     length (it_req_name r) \<le> 200 \<and> it_req_unit r \<noteq> [] \<and> length (it_req_unit r) \<le> 20 \<and>
     0 \<le> it_req_minStockQty r \<and> 0 \<le> it_req_initialQuantity r \<and>
     (case it_req_initialUnitCost r of None \<Rightarrow> True | Some c \<Rightarrow> 0 \<le> c) \<and> shortText 300 (it_req_reason r)"

definition stockReqSchema :: "('l \<Rightarrow> bool) \<Rightarrow> 'l stock_req \<Rightarrow> bool" where
  "stockReqSchema lineSchema r \<longleftrightarrow> shortText 64 (sr_documentNumber r) \<and> shortText 300 (sr_reason r) \<and>
     sr_lines r \<noteq> [] \<and> list_all lineSchema (sr_lines r)"

definition nirLineSchema :: "nir_line \<Rightarrow> bool" where
  "nirLineSchema l \<longleftrightarrow> nl_itemId l \<noteq> [] \<and> 0 < nl_quantity l \<and> 0 \<le> nl_unitCost l \<and> shortText 300 (nl_note l)"

definition consumptionLineSchema :: "consumption_line \<Rightarrow> bool" where
  "consumptionLineSchema l \<longleftrightarrow> cl_itemId l \<noteq> [] \<and> 0 < cl_quantity l \<and> shortText 300 (cl_note l)"

definition inventoryLineSchema :: "inventory_line \<Rightarrow> bool" where
  "inventoryLineSchema l \<longleftrightarrow> il_itemId l \<noteq> [] \<and> 0 \<le> il_countedQuantity l \<and>
     (case il_unitCost l of None \<Rightarrow> True | Some c \<Rightarrow> 0 \<le> c) \<and> shortText 300 (il_note l)"

section \<open>Movements\<close>

definition QUANTITY_EPS :: double where
  "QUANTITY_EPS = fl (5 / 10000)"

definition getCompanyStockItem :: "id \<Rightarrow> id \<Rightarrow> 'z stocking_scheme \<Rightarrow> http_error + stock_item" where
  "getCompanyStockItem c itemId db =
     (case find (\<lambda>x. it_id x = itemId \<and> it_companyId x = c \<and> it_isActive x) (stockItems db) of
        None \<Rightarrow> Inl (notFound ''Articolul de stoc nu exista in compania activa.'')
      | Some x \<Rightarrow> Inr x)"

text \<open>The loop body of \<open>computeFifoAverageCost\<close>: the quantity and the value so far.\<close>

fun addLotValue :: "double \<times> double \<Rightarrow> stock_lot \<Rightarrow> double \<times> double" where
  "addLotValue (q, v) l =
     (let lotQty = toNumber (column 1000 (lot_remainingQuantity l)) in
      if lotQty \<le> QUANTITY_EPS then (q, v)
      else (fadd q lotQty, fadd v (fmul lotQty (toNumber (column 10000 (lot_unitCost l))))))"

definition computeFifoAverageCost :: "id \<Rightarrow> stock_lot list \<Rightarrow> double" where
  "computeFifoAverageCost itemId table =
     (case foldl addLotValue (0, 0) (filter (\<lambda>l. lot_itemId l = itemId \<and> 0 < lot_remainingQuantity l) table) of
        (q, v) \<Rightarrow> if q \<le> QUANTITY_EPS then 0 else roundUnitCost (fdiv v q))"

definition updateItem :: "id \<Rightarrow> (stock_item \<Rightarrow> stock_item) \<Rightarrow> 'z stocking_scheme \<Rightarrow> 'z stocking_scheme" where
  "updateItem i f db = db\<lparr>stockItems := updateWhere (\<lambda>x. it_id x = i) f (stockItems db)\<rparr>"

definition insertMovement :: "stock_movement \<Rightarrow> 'z stocking_scheme \<Rightarrow> http_error + 'z stocking_scheme" where
  "insertMovement m db =
     (if list_ex (\<lambda>n. mv_id n = mv_id m) (stockMovements db) then Inl uniqueViolation
      else Inr (db\<lparr>stockMovements := stockMovements db @ [m]\<rparr>))"

definition insertLot :: "stock_lot \<Rightarrow> 'z stocking_scheme \<Rightarrow> http_error + 'z stocking_scheme" where
  "insertLot l db =
     (if list_ex (\<lambda>k. lot_id k = lot_id l) (stockLots db) then Inl uniqueViolation
      else Inr (db\<lparr>stockLots := stockLots db @ [l]\<rparr>))"

text \<open>The arguments the two movement functions share; the ids of the new rows are \<open>mvId\<close> and \<open>lotId\<close>.\<close>

record movement_params =
  mp_env :: env
  mp_companyId :: id
  mp_movementDate :: date
  mp_type :: StockMovementType
  mp_documentNumber :: "string option"
  mp_note :: "string option"
  mp_mvId :: id
  mp_lotId :: id

text \<open>The rows that \<open>stockMovement.create\<close> and \<open>stockLot.create\<close> write.\<close>

definition movementRow ::
  "movement_params \<Rightarrow> id \<Rightarrow> double \<Rightarrow> double \<Rightarrow> double \<Rightarrow> double \<Rightarrow> (id \<times> double \<times> double) list \<Rightarrow> stock_movement" where
  "movementRow pr itemId quantity unitCost totalCost resultingQuantity sourceLots =
     (let st = storeDec (mp_env pr) in
      \<lparr> mv_id = mp_mvId pr, mv_companyId = mp_companyId pr, mv_itemId = itemId, mv_type = mp_type pr,
        mv_movementDate = mp_movementDate pr, mv_quantity = st 1000 quantity, mv_unitCost = st 10000 unitCost,
        mv_totalCost = st 100 totalCost, mv_resultingQuantity = st 1000 resultingQuantity,
        mv_documentNumber = mp_documentNumber pr, mv_note = mp_note pr, mv_sourceLots = sourceLots \<rparr>)"

definition lotRow :: "movement_params \<Rightarrow> id \<Rightarrow> double \<Rightarrow> double \<Rightarrow> stock_lot" where
  "lotRow pr itemId quantity cost =
     (let st = storeDec (mp_env pr) in
      \<lparr> lot_id = mp_lotId pr, lot_companyId = mp_companyId pr, lot_itemId = itemId,
        lot_sourceMovementId = mp_mvId pr, lot_receivedAt = mp_movementDate pr, lot_unitCost = st 10000 cost,
        lot_initialQuantity = st 1000 quantity, lot_remainingQuantity = st 1000 quantity,
        lot_createdAt = now (mp_env pr) \<rparr>)"

definition setStock :: "double \<Rightarrow> double \<Rightarrow> store \<Rightarrow> stock_item \<Rightarrow> stock_item" where
  "setStock nextQty nextAvg st x = x\<lparr> it_quantityOnHand := st 1000 nextQty, it_avgUnitCost := st 10000 nextAvg \<rparr>"

definition applyInboundMovement ::
  "movement_params \<Rightarrow> stock_item \<Rightarrow> double \<Rightarrow> double \<Rightarrow> 'z stocking_scheme \<Rightarrow> http_error + ((id \<times> double) \<times> 'z stocking_scheme)" where
  "applyInboundMovement pr item quantity unitCost db =
     (let st = storeDec (mp_env pr); qty = roundQty quantity; cost = roundUnitCost unitCost in
      if qty \<le> 0 then Inl (badRequest ''Cantitatea trebuie sa fie pozitiva.'') else
      if cost < 0 then Inl (badRequest ''Costul unitar nu poate fi negativ.'') else
      let previousQty = toNumber (column 1000 (it_quantityOnHand item));
          previousAvg = toNumber (column 10000 (it_avgUnitCost item));
          nextQty = roundQty (fadd previousQty qty);
          previousValue = fmul previousQty previousAvg;
          nextAvg = (if QUANTITY_EPS < nextQty then roundUnitCost (fdiv (fadd previousValue (fmul qty cost)) nextQty) else 0);
          movementTotal = round2 (fmul qty cost);
          db = updateItem (it_id item) (setStock nextQty nextAvg st) db
      in bindR (insertMovement (movementRow pr (it_id item) qty cost movementTotal nextQty []) db) (\<lambda>db.
         bindR (if it_valuationMethod item = FIFO then insertLot (lotRow pr (it_id item) qty cost) db else Inr db) (\<lambda>db.
         Inr ((mp_mvId pr, nextQty), db))))"

text \<open>The loop over the lots: what is still to be taken, the cost so far, the lots taken from, and
  the table of the lots.\<close>

type_synonym fifo_state = "double \<times> double \<times> (id \<times> double \<times> double) list \<times> stock_lot list"

fun consumeLots :: "store \<Rightarrow> stock_lot list \<Rightarrow> fifo_state \<Rightarrow> fifo_state" where
  "consumeLots st [] s = s"
| "consumeLots st (lot # lots) (remaining, movementTotalAbs, sourceLots, table) =
     (if remaining \<le> QUANTITY_EPS then (remaining, movementTotalAbs, sourceLots, table) else
      let lotRemaining = toNumber (column 1000 (lot_remainingQuantity lot)) in
      if lotRemaining \<le> QUANTITY_EPS then consumeLots st lots (remaining, movementTotalAbs, sourceLots, table) else
      let takeQty = roundQty (min lotRemaining remaining) in
      if takeQty \<le> QUANTITY_EPS then consumeLots st lots (remaining, movementTotalAbs, sourceLots, table) else
      let lotUnitCost = roundUnitCost (toNumber (column 10000 (lot_unitCost lot)));
          lotRemainingAfter = roundQty (max (fsub lotRemaining takeQty) 0)
      in consumeLots st lots
        (roundQty (max (fsub remaining takeQty) 0), round2 (fadd movementTotalAbs (fmul takeQty lotUnitCost)),
         sourceLots @ [(lot_id lot, takeQty, lotUnitCost)],
         updateWhere (\<lambda>l. lot_id l = lot_id lot) (\<lambda>l. l\<lparr>lot_remainingQuantity := st 1000 lotRemainingAfter\<rparr>) table))"

definition openLots :: "id \<Rightarrow> id \<Rightarrow> stock_lot list \<Rightarrow> stock_lot list" where
  "openLots c itemId table = sort_key lot_receivedAt (sort_key lot_createdAt
     (filter (\<lambda>l. lot_itemId l = itemId \<and> lot_companyId l = c \<and> 0 < lot_remainingQuantity l) table))"

text \<open>The cost of an issue: the unit cost, the total, the next average cost, the lots taken from and the
  table of the lots after it. For CMP it is the average of the item; for FIFO what the loop gives, an
  error when the lots ran out.\<close>

type_synonym issue_cost = "double \<times> double \<times> double \<times> (id \<times> double \<times> double) list \<times> stock_lot list"

definition cmpCost :: "stock_item \<Rightarrow> double \<Rightarrow> double \<Rightarrow> stock_lot list \<Rightarrow> issue_cost" where
  "cmpCost item qty nextQty table =
     (let movementUnitCost = roundUnitCost (toNumber (column 10000 (it_avgUnitCost item))) in
      (movementUnitCost, round2 (fmul qty movementUnitCost), if QUANTITY_EPS < nextQty then movementUnitCost else 0, [], table))"

fun fifoCost :: "stock_item \<Rightarrow> double \<Rightarrow> double \<Rightarrow> fifo_state \<Rightarrow> http_error + issue_cost" where
  "fifoCost item qty nextQty (remaining, movementTotalAbs, sourceLots, table) =
     (if QUANTITY_EPS < remaining then Inl (badRequest ''Stoc insuficient.'')
      else Inr (if QUANTITY_EPS < qty then roundUnitCost (fdiv movementTotalAbs qty) else 0, movementTotalAbs,
        if QUANTITY_EPS < nextQty then computeFifoAverageCost (it_id item) table else 0, sourceLots, table))"

fun recordIssue :: "movement_params \<Rightarrow> stock_item \<Rightarrow> double \<Rightarrow> double \<Rightarrow> 'z stocking_scheme \<Rightarrow> issue_cost \<Rightarrow>
    http_error + ((id \<times> double) \<times> 'z stocking_scheme)" where
  "recordIssue pr item qty nextQty db (movementUnitCost, movementTotalAbs, nextAvg, sourceLots, table) =
     bindR (insertMovement (movementRow pr (it_id item) (- qty) movementUnitCost (- movementTotalAbs) nextQty sourceLots)
        (updateItem (it_id item) (setStock nextQty nextAvg (storeDec (mp_env pr))) (db\<lparr>stockLots := table\<rparr>)))
       (\<lambda>db. Inr ((mp_mvId pr, nextQty), db))"

definition applyOutboundMovement ::
  "movement_params \<Rightarrow> stock_item \<Rightarrow> double \<Rightarrow> 'z stocking_scheme \<Rightarrow> http_error + ((id \<times> double) \<times> 'z stocking_scheme)" where
  "applyOutboundMovement pr item quantity db =
     (let qty = roundQty quantity in
      if qty \<le> 0 then Inl (badRequest ''Cantitatea de iesire trebuie sa fie pozitiva.'') else
      let previousQty = toNumber (column 1000 (it_quantityOnHand item)) in
      if QUANTITY_EPS < fsub qty previousQty then Inl (badRequest ''Stoc insuficient.'') else
      let nextQty = roundQty (max (fsub previousQty qty) 0) in
      bindR (if it_valuationMethod item = CMP then Inr (cmpCost item qty nextQty (stockLots db))
             else fifoCost item qty nextQty (consumeLots (storeDec (mp_env pr))
               (openLots (mp_companyId pr) (it_id item) (stockLots db)) (qty, 0, [], stockLots db)))
        (recordIssue pr item qty nextQty db))"

section \<open>Routes\<close>

definition stockItemClash :: "stock_item \<Rightarrow> stock_item \<Rightarrow> bool" where
  "stockItemClash x y \<longleftrightarrow> it_id x = it_id y \<or> (it_companyId x = it_companyId y \<and> it_code x = it_code y)"

definition createItem :: "env \<Rightarrow> actor \<Rightarrow> create_item_req \<Rightarrow> 'z stocking_scheme \<Rightarrow> http_error + 'z stocking_scheme" where
  "createItem env u r db =
     (if \<not> createItemSchema r then Inl (badRequest ''Date invalide pentru articolul de stoc.'') else
      let initialQty = roundQty (it_req_initialQuantity r); initialCost = map_option roundUnitCost (it_req_initialUnitCost r) in
      if QUANTITY_EPS < initialQty \<and> (case initialCost of None \<Rightarrow> True | Some c \<Rightarrow> c < 0)
      then Inl (badRequest ''Costul unitar initial este obligatoriu cand se seteaza stoc initial.'') else
      bindR (assertPeriodOpen (act_company u) (currentPeriod (now env)) db) (\<lambda>_.
      let item = \<lparr> it_id = uuid env 0, it_companyId = act_company u, it_code = toUpperCase (trim (it_req_code r)),
            it_name = trim (it_req_name r), it_unit = toUpperCase (trim (it_req_unit r)),
            it_valuationMethod = it_req_valuationMethod r, it_minStockQty = storeDec env 1000 (roundQty (it_req_minStockQty r)),
            it_quantityOnHand = 0, it_avgUnitCost = 0, it_isActive = True \<rparr>
      in bindR (if list_ex (stockItemClash item) (stockItems db) then Inl uniqueViolation
                else Inr (db\<lparr>stockItems := stockItems db @ [item]\<rparr>)) (\<lambda>db.
         bindR (if QUANTITY_EPS < initialQty
                then bindR (applyInboundMovement \<lparr> mp_env = env, mp_companyId = act_company u, mp_movementDate = now env,
                    mp_type = NIR, mp_documentNumber = Some ''INITIAL-STOCK'', mp_note = Some ''Sold initial'',
                    mp_mvId = uuid env 1, mp_lotId = uuid env 2 \<rparr> item initialQty (orElse initialCost 0) db) (\<lambda>(_, db). Inr db)
                else Inr db) (\<lambda>db.
         Inr (writeAudit u ''stock_items'' (Some (it_id item)) ''CREATE'' (it_req_reason r) db)))))"

text \<open>The parameters of the \<open>k\<close>-th line of a request.\<close>

definition lineParams :: "env \<Rightarrow> actor \<Rightarrow> date \<Rightarrow> string option \<Rightarrow> StockMovementType \<Rightarrow> string option \<Rightarrow> nat \<Rightarrow> movement_params" where
  "lineParams env u d doc ty note k = \<lparr> mp_env = env, mp_companyId = act_company u, mp_movementDate = d, mp_type = ty,
     mp_documentNumber = doc, mp_note = note, mp_mvId = uuid env (2 * k), mp_lotId = uuid env (2 * k + 1) \<rparr>"

text \<open>A loop with \<open>await\<close> over the lines: the ids collected so far and the tables.\<close>

fun forLines :: "(nat \<Rightarrow> 'l \<Rightarrow> 'd \<Rightarrow> 'e + (id option \<times> 'd)) \<Rightarrow> nat \<Rightarrow> 'l list \<Rightarrow> id list \<Rightarrow> 'd \<Rightarrow> 'e + (id list \<times> 'd)" where
  "forLines f k [] ids d = Inr (ids, d)"
| "forLines f k (l # ls) ids d =
     bindR (f k l d) (\<lambda>(i, d). forLines f (k + 1) ls (ids @ (case i of None \<Rightarrow> [] | Some j \<Rightarrow> [j])) d)"

definition nirLine :: "env \<Rightarrow> actor \<Rightarrow> date \<Rightarrow> string option \<Rightarrow> nat \<Rightarrow> nir_line \<Rightarrow> 'z stocking_scheme \<Rightarrow> http_error + (id option \<times> 'z stocking_scheme)" where
  "nirLine env u d doc k l db =
     bindR (getCompanyStockItem (act_company u) (nl_itemId l) db) (\<lambda>item.
     bindR (applyInboundMovement (lineParams env u d doc NIR (nl_note l) k) item (nl_quantity l) (nl_unitCost l) db)
       (\<lambda>((i, _), db). Inr (Some i, db)))"

definition createNir :: "env \<Rightarrow> actor \<Rightarrow> nir_line stock_req \<Rightarrow> 'z stocking_scheme \<Rightarrow> http_error + (id list \<times> 'z stocking_scheme)" where
  "createNir env u r db =
     (if \<not> stockReqSchema nirLineSchema r then Inl (badRequest ''Date invalide pentru NIR.'') else
      let movementDate = orElse (sr_date r) (now env) in
      bindR (assertPeriodOpen (act_company u) (currentPeriod movementDate) db) (\<lambda>_.
      bindR (forLines (nirLine env u movementDate (sr_documentNumber r)) 0 (sr_lines r) [] db) (\<lambda>(ids, db).
      Inr (ids, writeAudit u ''stock_movements'' (Some (hd ids)) ''STOCK_NIR'' (sr_reason r) db))))"

definition consumptionLine ::
  "env \<Rightarrow> actor \<Rightarrow> date \<Rightarrow> string option \<Rightarrow> nat \<Rightarrow> consumption_line \<Rightarrow> 'z stocking_scheme \<Rightarrow> http_error + (id option \<times> 'z stocking_scheme)" where
  "consumptionLine env u d doc k l db =
     bindR (getCompanyStockItem (act_company u) (cl_itemId l) db) (\<lambda>item.
     bindR (applyOutboundMovement (lineParams env u d doc CONSUMPTION (cl_note l) k) item (cl_quantity l) db)
       (\<lambda>((i, _), db). Inr (Some i, db)))"

definition createConsumption :: "env \<Rightarrow> actor \<Rightarrow> consumption_line stock_req \<Rightarrow> 'z stocking_scheme \<Rightarrow> http_error + (id list \<times> 'z stocking_scheme)" where
  "createConsumption env u r db =
     (if \<not> stockReqSchema consumptionLineSchema r then Inl (badRequest ''Date invalide pentru consum.'') else
      let movementDate = orElse (sr_date r) (now env) in
      bindR (assertPeriodOpen (act_company u) (currentPeriod movementDate) db) (\<lambda>_.
      bindR (forLines (consumptionLine env u movementDate (sr_documentNumber r)) 0 (sr_lines r) [] db) (\<lambda>(ids, db).
      Inr (ids, writeAudit u ''stock_movements'' (Some (hd ids)) ''STOCK_CONSUMPTION'' (sr_reason r) db))))"

definition inventoryLine ::
  "env \<Rightarrow> actor \<Rightarrow> date \<Rightarrow> string option \<Rightarrow> nat \<Rightarrow> inventory_line \<Rightarrow> 'z stocking_scheme \<Rightarrow> http_error + (id option \<times> 'z stocking_scheme)" where
  "inventoryLine env u d doc k l db =
     bindR (getCompanyStockItem (act_company u) (il_itemId l) db) (\<lambda>item.
     let systemQty = roundQty (toNumber (column 1000 (it_quantityOnHand item)));
         countedQty = roundQty (il_countedQuantity l);
         difference = roundQty (fsub countedQty systemQty)
     in if \<bar>difference\<bar> \<le> QUANTITY_EPS then Inr (None, db) else
        if 0 < difference then
          let resolvedUnitCost = (case il_unitCost l of Some c \<Rightarrow> roundUnitCost c
                | None \<Rightarrow> roundUnitCost (toNumber (column 10000 (it_avgUnitCost item))))
          in if resolvedUnitCost \<le> 0 then Inl (badRequest ''Pentru plus inventar este necesar unitCost (> 0).'') else
             bindR (applyInboundMovement (lineParams env u d doc INVENTORY_PLUS (Some (orElse (il_note l) ''Regularizare inventar (+)'')) k)
               item difference resolvedUnitCost db) (\<lambda>(_, db). Inr (Some (it_id item), db))
        else
          bindR (applyOutboundMovement (lineParams env u d doc INVENTORY_MINUS (Some (orElse (il_note l) ''Regularizare inventar (-)'')) k)
            item \<bar>difference\<bar> db) (\<lambda>(_, db). Inr (Some (it_id item), db)))"

definition reconcileInventory :: "env \<Rightarrow> actor \<Rightarrow> inventory_line stock_req \<Rightarrow> 'z stocking_scheme \<Rightarrow> http_error + (id list \<times> 'z stocking_scheme)" where
  "reconcileInventory env u r db =
     (if \<not> stockReqSchema inventoryLineSchema r then Inl (badRequest ''Date invalide pentru inventar.'') else
      let movementDate = orElse (sr_date r) (now env) in
      bindR (assertPeriodOpen (act_company u) (currentPeriod movementDate) db) (\<lambda>_.
      bindR (forLines (inventoryLine env u movementDate (sr_documentNumber r)) 0 (sr_lines r) [] db) (\<lambda>(adjusted, db).
      Inr (adjusted, writeAudit u ''stock_items'' (case adjusted of [] \<Rightarrow> None | i # _ \<Rightarrow> Some i)
        ''STOCK_INVENTORY_RECONCILIATION'' (sr_reason r) db))))"

end
