(* ===== verification/StockLevels.thy ===== *)
theory StockLevels
  imports Stocks "HOL-Library.Multiset"
begin

text \<open>
  What the stock routes keep: the quantity of an item is the sum of its movements and, for FIFO items,
  of what remains in its lots; a consumption takes the lots oldest first. The loop over the lots is
  refined by a function on exact integers.
\<close>

section \<open>Quantities as integers\<close>

lemma eps_bounds: "49 / 100000 < QUANTITY_EPS" "QUANTITY_EPS < 51 / 100000"
  by code_simp+

lemma eps_le [simp]: "thousandths n \<le> QUANTITY_EPS \<longleftrightarrow> n \<le> 0" "QUANTITY_EPS < thousandths n \<longleftrightarrow> 0 < n"
proof -
  have one: "QUANTITY_EPS < thousandths 1" by code_simp
  show le: "thousandths n \<le> QUANTITY_EPS \<longleftrightarrow> n \<le> 0"
  proof (cases "n \<le> 0")
    case True
    then have "thousandths n \<le> 0" by simp
    then have "thousandths n \<le> QUANTITY_EPS" using eps_bounds(1) by linarith
    then show ?thesis using True by simp
  next
    case False
    then show ?thesis using one qty.grid_mono[of 1 n] by auto
  qed
  then show "QUANTITY_EPS < thousandths n \<longleftrightarrow> 0 < n" by (auto simp: not_le[symmetric])
qed

lemma eps_nonneg [simp]: "0 \<le> QUANTITY_EPS" "\<not> QUANTITY_EPS < 0"
  using eps_bounds(1) by linarith+

text \<open>The guard of an outbound movement.\<close>

lemma eps_fsub:
  assumes p: "0 \<le> p" "p < 2 ^ 44" and k: "0 \<le> k"
  shows "QUANTITY_EPS < fsub (thousandths k) (thousandths p) \<longleftrightarrow> p < k"
proof
  assume gt: "QUANTITY_EPS < fsub (thousandths k) (thousandths p)"
  show "p < k"
  proof (rule ccontr)
    assume "\<not> p < k"
    then have "fsub (thousandths k) (thousandths p) \<le> fl 0" unfolding fsub_def by (intro fl_mono) (simp add: qty.grid_mono)
    then show False using gt eps_bounds(1) by simp
  qed
next
  assume "p < k"
  then have m: "fsub (thousandths (p + 1)) (thousandths p) \<le> fsub (thousandths k) (thousandths p)"
    unfolding fsub_def by (intro fl_mono diff_right_mono qty.grid_mono) simp
  have "\<bar>of_int 1000 * fsub (thousandths (p + 1)) (thousandths p) - of_int (p + 1 - p)\<bar> \<le> 1/5"
    using p by (intro qty.fsub_grid_close) auto
  then have "\<bar>1000 * fsub (thousandths (p + 1)) (thousandths p) - 1\<bar> \<le> 1/5" by simp
  then have "4/5 \<le> 1000 * fsub (thousandths (p + 1)) (thousandths p)" by linarith
  then show "QUANTITY_EPS < fsub (thousandths k) (thousandths p)" using m eps_bounds(2) by linarith
qed

lemma roundQty_pos:
  assumes "\<not> roundQty x \<le> 0" obtains k where "0 < k" "roundQty x = thousandths k"
proof -
  obtain k where k: "roundQty x = thousandths k" using roundQty_grid by blast
  then show thesis using that assms by (simp add: not_le)
qed

lemma stored_qty_small:
  assumes st: "exact_store st" and n: "0 \<le> n" and small: "st 1000 (thousandths n) < 2 ^ 44"
  shows "n < 2 ^ 44" "st 1000 (thousandths n) = n"
proof -
  have mono: "st 1000 (thousandths (2 ^ 44)) \<le> st 1000 (thousandths n)" if "2 ^ 44 \<le> n"
    using st qty.grid_mono[OF that] unfolding exact_store_def by blast
  show n2: "n < 2 ^ 44" using mono small exact_storeD(2)[OF st, of "2 ^ 44"] by (cases "n < 2 ^ 44") auto
  show "st 1000 (thousandths n) = n" using n n2 by (intro exact_storeD(2) st) simp
qed

section \<open>First in, first out, on integers\<close>

fun takeFifo :: "int \<Rightarrow> int list \<Rightarrow> int list" where
  "takeFifo k [] = []"
| "takeFifo k (r # rs) = min r k # takeFifo (k - min r k) rs"

lemma takeFifo_length [simp]: "length (takeFifo k rs) = length rs"
  by (induction k rs rule: takeFifo.induct) auto

lemma takeFifo_0: "\<forall>r \<in> set rs. 0 \<le> r \<Longrightarrow> takeFifo 0 rs = replicate (length rs) 0"
  by (induction rs) (auto simp: min_def)

lemma takeFifo_sum: "0 \<le> k \<Longrightarrow> \<forall>r \<in> set rs. 0 \<le> r \<Longrightarrow> sum_list (takeFifo k rs) = min k (sum_list rs)"
proof (induction k rs rule: takeFifo.induct)
  case (2 k r rs)
  have "0 \<le> sum_list rs" using 2(3) by (auto intro!: sum_list_nonneg)
  then show ?case using 2 by (auto simp: min_def)
qed simp

lemma takeFifo_between:
  "0 \<le> k \<Longrightarrow> \<forall>r \<in> set rs. 0 \<le> r \<Longrightarrow> i < length rs \<Longrightarrow> 0 \<le> takeFifo k rs ! i \<and> takeFifo k rs ! i \<le> rs ! i"
proof (induction k rs arbitrary: i rule: takeFifo.induct)
  case (2 k r rs)
  then show ?case by (cases i) (auto simp: min_def split: if_splits)
qed simp

text \<open>A later lot is touched only when every earlier one is used up.\<close>

lemma takeFifo_oldest_first:
  "0 \<le> k \<Longrightarrow> \<forall>r \<in> set rs. 0 \<le> r \<Longrightarrow> i < j \<Longrightarrow> j < length rs \<Longrightarrow> 0 < takeFifo k rs ! j \<Longrightarrow> takeFifo k rs ! i = rs ! i"
proof (induction k rs arbitrary: i j rule: takeFifo.induct)
  case (2 k r rs)
  show ?case
  proof (cases i)
    case 0
    have "r \<le> k"
    proof (rule ccontr)
      assume "\<not> r \<le> k"
      then have "takeFifo (k - min r k) rs = replicate (length rs) 0" using 2(3) by (simp add: takeFifo_0)
      then show False using 2(4-6) 0 by (cases j) auto
    qed
    then show ?thesis using 0 by simp
  next
    case (Suc i')
    then show ?thesis using 2 by (cases j) (auto simp: min_def)
  qed
qed simp

section \<open>The loop over the lots\<close>

definition takes :: "int \<Rightarrow> stock_lot list \<Rightarrow> int list" where
  "takes k lots = takeFifo k (map lot_remainingQuantity lots)"

definition takenFrom :: "int \<Rightarrow> stock_lot list \<Rightarrow> id \<Rightarrow> int" where
  "takenFrom k lots i = orElse (map_of (zip (map lot_id lots) (takes k lots)) i) 0"

text \<open>The table after the lots gave what they had to, and the record of it.\<close>

definition drawLots :: "int \<Rightarrow> stock_lot list \<Rightarrow> stock_lot list \<Rightarrow> stock_lot list" where
  "drawLots k lots table = map (\<lambda>l. l\<lparr>lot_remainingQuantity := lot_remainingQuantity l - takenFrom k lots (lot_id l)\<rparr>) table"

definition drawnLots :: "int \<Rightarrow> stock_lot list \<Rightarrow> (id \<times> double \<times> double) list" where
  "drawnLots k lots = map (\<lambda>(l, t). (lot_id l, thousandths t, roundUnitCost (tenThousandths (lot_unitCost l))))
     (filter (\<lambda>(l, t). 0 < t) (zip lots (takes k lots)))"

definition drawnCost :: "double \<Rightarrow> (id \<times> double \<times> double) list \<Rightarrow> double" where
  "drawnCost v src = foldl (\<lambda>v (_, q, c). round2 (fadd v (fmul q c))) v src"

lemma takenFrom_Cons:
  "takenFrom k (l # ls) i = (if i = lot_id l then min (lot_remainingQuantity l) k
     else takenFrom (k - min (lot_remainingQuantity l) k) ls i)"
  by (simp add: takenFrom_def takes_def)

lemma takenFrom_other: "i \<notin> lot_id ` set lots \<Longrightarrow> takenFrom k lots i = 0"
  by (simp add: takenFrom_def takes_def map_of_zip_is_None[THEN iffD2])

lemma takenFrom_0: "\<forall>l \<in> set lots. 0 \<le> lot_remainingQuantity l \<Longrightarrow> takenFrom 0 lots i = 0"
  by (induction lots) (auto simp: takenFrom_Cons takenFrom_other min_def)

lemma drawnLots_Cons:
  "drawnLots k (l # ls) = (let t = min (lot_remainingQuantity l) k in
     (if 0 < t then [(lot_id l, thousandths t, roundUnitCost (tenThousandths (lot_unitCost l)))] else []) @ drawnLots (k - t) ls)"
  by (simp add: drawnLots_def takes_def Let_def)

lemma drawnLots_0: "\<forall>l \<in> set lots. 0 \<le> lot_remainingQuantity l \<Longrightarrow> drawnLots 0 lots = []"
  by (induction lots) (auto simp: drawnLots_Cons Let_def min_def drawnLots_def takes_def)

lemma consumeLots_draws:
  assumes st: "exact_store st" and "distinct (map lot_id lots)"
    and "\<forall>l \<in> set lots. 0 \<le> lot_remainingQuantity l \<and> lot_remainingQuantity l \<le> 2 ^ 44" "0 \<le> k" "k \<le> 2 ^ 44"
    and "\<forall>l \<in> set lots. \<forall>m \<in> set table. lot_id m = lot_id l \<longrightarrow> lot_remainingQuantity m = lot_remainingQuantity l"
  shows "consumeLots st lots (thousandths k, v, src, table) =
    (thousandths (k - sum_list (takes k lots)), drawnCost v (drawnLots k lots), src @ drawnLots k lots, drawLots k lots table)"
  using assms(2-)
proof (induction lots arbitrary: k v src table)
  case Nil
  then show ?case by (simp add: takes_def drawnLots_def drawnCost_def drawLots_def takenFrom_def)
next
  case (Cons lot lots)
  let ?r = "lot_remainingQuantity lot"
  define t where "t = min ?r k"
  have r: "0 \<le> ?r" "?r \<le> 2 ^ 44" and nn: "\<forall>l \<in> set lots. 0 \<le> lot_remainingQuantity l" and notin: "lot_id lot \<notin> lot_id ` set lots"
    using Cons.prems(1,2) by auto
  have ds: "distinct (map lot_id lots)" "\<forall>l \<in> set lots. 0 \<le> lot_remainingQuantity l \<and> lot_remainingQuantity l \<le> 2 ^ 44"
    using Cons.prems(1,2) by simp_all
  have agree0: "\<forall>l \<in> set lots. \<forall>m \<in> set table. lot_id m = lot_id l \<longrightarrow> lot_remainingQuantity m = lot_remainingQuantity l"
    using Cons.prems(5) by (meson list.set_intros(2))
  have sum: "sum_list (takes k (lot # lots)) = t + sum_list (takes (k - t) lots)" by (simp add: takes_def t_def)
  show ?case
  proof (cases "k = 0")
    case True
    have "takes 0 (lot # lots) = replicate (length (lot # lots)) 0"
      unfolding takes_def using r nn by (subst takeFifo_0) auto
    moreover have "drawLots 0 (lot # lots) table = table"
      unfolding drawLots_def using r nn by (subst takenFrom_0) auto
    ultimately show ?thesis using True r nn by (simp add: drawnLots_0 drawnCost_def sum_list_replicate)
  next
    case False
    then have k: "0 < k" using Cons.prems(3) by simp
    show ?thesis
    proof (cases "?r = 0")
      case z: True
      then have t: "t = 0" using k by (simp add: t_def)
      have d: "drawLots k (lot # lots) table = drawLots k lots table"
        unfolding drawLots_def using notin t by (auto simp: takenFrom_Cons takenFrom_other t_def[symmetric])
      have "consumeLots st (lot # lots) (thousandths k, v, src, table) = consumeLots st lots (thousandths k, v, src, table)"
        using k z by simp
      also have "\<dots> = (thousandths (k - sum_list (takes k lots)), drawnCost v (drawnLots k lots), src @ drawnLots k lots, drawLots k lots table)"
        by (rule Cons.IH[OF ds Cons.prems(3,4) agree0])
      finally show ?thesis using t d sum by (simp add: drawnLots_Cons t_def[symmetric] Let_def)
    next
      case False
      then have t: "0 < t" "t \<le> ?r" "t \<le> k" "t \<le> 2 ^ 44" using k r by (auto simp: t_def)
      let ?c = "roundUnitCost (tenThousandths (lot_unitCost lot))"
      define table1 where "table1 = updateWhere (\<lambda>l. lot_id l = lot_id lot) (\<lambda>l. l\<lparr>lot_remainingQuantity := ?r - t\<rparr>) table"
      have q: "roundQty (min (thousandths ?r) (thousandths k)) = thousandths t"
        using t r by (simp add: qty.grid_min t_def)
      have af: "roundQty (max (fsub (thousandths ?r) (thousandths t)) 0) = thousandths (?r - t)"
        "roundQty (max (fsub (thousandths k) (thousandths t)) 0) = thousandths (k - t)"
        using t r Cons.prems(4) by (auto intro!: roundQty_open)
      have s: "st 1000 (thousandths (?r - t)) = ?r - t" using t r by (intro exact_storeD(2) st) auto
      have agree: "\<forall>l \<in> set lots. \<forall>m \<in> set table1. lot_id m = lot_id l \<longrightarrow> lot_remainingQuantity m = lot_remainingQuantity l"
        using Cons.prems(5) notin by (fastforce simp: table1_def updateWhere_set)
      have d: "drawLots (k - t) lots table1 = drawLots k (lot # lots) table"
        using Cons.prems(5) notin by (auto simp: drawLots_def table1_def updateWhere_def takenFrom_Cons takenFrom_other t_def[symmetric])
      have "consumeLots st (lot # lots) (thousandths k, v, src, table) =
          consumeLots st lots (thousandths (k - t), round2 (fadd v (fmul (thousandths t) ?c)), src @ [(lot_id lot, thousandths t, ?c)], table1)"
        using k t r False by (simp add: q af s Let_def table1_def)
      also have "\<dots> = (thousandths (k - t - sum_list (takes (k - t) lots)),
          drawnCost (round2 (fadd v (fmul (thousandths t) ?c))) (drawnLots (k - t) lots),
          (src @ [(lot_id lot, thousandths t, ?c)]) @ drawnLots (k - t) lots, drawLots (k - t) lots table1)"
        by (rule Cons.IH[OF ds _ _ agree]) (use t Cons.prems(3,4) in simp_all)
      finally show ?thesis using t by (simp add: d sum drawnLots_Cons t_def[symmetric] Let_def drawnCost_def diff_diff_eq)
    qed
  qed
qed

section \<open>Invariant\<close>

definition lotSum :: "id \<Rightarrow> stock_lot list \<Rightarrow> int" where
  "lotSum i table = (\<Sum>l\<leftarrow>filter (\<lambda>l. lot_itemId l = i) table. lot_remainingQuantity l)"

definition moved :: "id \<Rightarrow> stock_movement list \<Rightarrow> int" where
  "moved i ms = (\<Sum>m\<leftarrow>filter (\<lambda>m. mv_itemId m = i) ms. mv_quantity m)"

definition inflow :: "id \<Rightarrow> stock_movement list \<Rightarrow> int" where
  "inflow i ms = (\<Sum>m\<leftarrow>filter (\<lambda>m. mv_itemId m = i) ms. max (mv_quantity m) 0)"

text \<open>The size up to which the double arithmetic is exact: less than \<open>2\<^sup>4\<^sup>4\<close> thousandths received in
  all, seventeen billion units.\<close>

definition itemOk :: "stock_movement list \<Rightarrow> stock_lot list \<Rightarrow> stock_item \<Rightarrow> bool" where
  "itemOk ms table x \<longleftrightarrow> (inflow (it_id x) ms < 2 ^ 44 \<longrightarrow>
     0 \<le> it_quantityOnHand x \<and> it_quantityOnHand x = moved (it_id x) ms \<and>
     (it_valuationMethod x = FIFO \<longrightarrow> lotSum (it_id x) table = it_quantityOnHand x \<and>
        (\<forall>l \<in> set table. lot_itemId l = it_id x \<longrightarrow> 0 \<le> lot_remainingQuantity l)))"

definition lotKey :: "stock_lot \<Rightarrow> id \<times> id \<times> id \<times> id" where
  "lotKey l = (lot_id l, lot_companyId l, lot_itemId l, lot_sourceMovementId l)"

lemma fst_lotKey [simp]: "fst (lotKey l) = lot_id l" "fst \<circ> lotKey = lot_id"
  by (auto simp: lotKey_def)

text \<open>The tables are well formed: unique keys, and every reference resolves within the company.\<close>

definition movementTyped :: "stock_item list \<Rightarrow> stock_movement \<Rightarrow> bool" where
  "movementTyped its m \<longleftrightarrow> (\<exists>x \<in> set its. it_id x = mv_itemId m \<and> it_companyId x = mv_companyId m)"

definition lotTyped :: "stock_item list \<Rightarrow> stock_movement list \<Rightarrow> id \<times> id \<times> id \<times> id \<Rightarrow> bool" where
  "lotTyped its ms = (\<lambda>(_, c, i, src). (\<exists>x \<in> set its. it_id x = i \<and> it_companyId x = c \<and> it_valuationMethod x = FIFO) \<and>
     (\<exists>m \<in> set ms. mv_id m = src \<and> mv_itemId m = i))"

definition stockTyped :: "'z stocking_scheme \<Rightarrow> bool" where
  "stockTyped db \<longleftrightarrow> sorted_wrt (\<lambda>x y. \<not> stockItemClash x y) (stockItems db) \<and> distinct (map mv_id (stockMovements db)) \<and>
     distinct (map fst (map lotKey (stockLots db))) \<and>
     (\<forall>m \<in> set (stockMovements db). movementTyped (stockItems db) m) \<and>
     (\<forall>k \<in> set (map lotKey (stockLots db)). lotTyped (stockItems db) (stockMovements db) k)"

definition stockInv :: "'z stocking_scheme \<Rightarrow> bool" where
  "stockInv db \<longleftrightarrow> stockTyped db \<and> (\<forall>x \<in> set (stockItems db). itemOk (stockMovements db) (stockLots db) x)"

lemma moved_snoc [simp]: "moved i (ms @ [m]) = moved i ms + (if mv_itemId m = i then mv_quantity m else 0)"
  by (simp add: moved_def)

lemma inflow_snoc [simp]: "inflow i (ms @ [m]) = inflow i ms + (if mv_itemId m = i then max (mv_quantity m) 0 else 0)"
  by (simp add: inflow_def)

lemma moved_le_inflow: "moved i ms \<le> inflow i ms"
  unfolding moved_def inflow_def by (rule sum_list_mono) simp

lemma inflow_nonneg: "0 \<le> inflow i ms"
  unfolding inflow_def by (rule sum_list_nonneg) auto

lemma distinct_lot_ids: "distinct (map fst (map lotKey ls)) = distinct (map lot_id ls)"
  by (simp add: lotKey_def comp_def)

lemma stock_item_unique:
  assumes "stockTyped db" "x \<in> set (stockItems db)" "y \<in> set (stockItems db)" "it_id x = it_id y" shows "x = y"
proof -
  have "sorted_wrt (\<lambda>x y. it_id x \<noteq> it_id y) (stockItems db)"
    using assms(1) by (auto simp: stockTyped_def stockItemClash_def elim: sorted_wrt_mono_rel[rotated])
  then show ?thesis using assms(2-4) by (metis sorted_wrt_unique)
qed

text \<open>A movement of one item: its row changes, one movement is added, and only its lots change.\<close>

lemma stockInv_move:
  assumes inv: "stockInv db" and item: "item \<in> set (stockItems db)"
    and keys: "\<And>y. it_id (f y) = it_id y \<and> it_companyId (f y) = it_companyId y \<and> it_code (f y) = it_code y \<and>
        it_valuationMethod (f y) = it_valuationMethod y"
    and its: "stockItems db' = updateWhere (\<lambda>y. it_id y = it_id item) f (stockItems db)"
    and mv: "stockMovements db' = stockMovements db @ [m]" "mv_id m \<notin> mv_id ` set (stockMovements db)"
      "mv_itemId m = it_id item" "mv_companyId m = it_companyId item"
    and lots: "map lotKey (stockLots db') = map lotKey (stockLots db) @ ks" "distinct (map fst (map lotKey (stockLots db) @ ks))"
      "\<forall>k \<in> set ks. lotTyped (stockItems db) [m] k"
      "\<And>j. j \<noteq> it_id item \<Longrightarrow> filter (\<lambda>l. lot_itemId l = j) (stockLots db') = filter (\<lambda>l. lot_itemId l = j) (stockLots db)"
    and ok: "itemOk (stockMovements db') (stockLots db') (f item)"
  shows "stockInv db'"
proof -
  note ty = inv[unfolded stockInv_def stockTyped_def, THEN conjunct1]
  have clash: "stockItemClash (if it_id a = k then f a else a) (if it_id b = k then f b else b) = stockItemClash a b" for a b k
    by (simp add: stockItemClash_def keys)
  have so: "sorted_wrt (\<lambda>x y. \<not> stockItemClash x y) (stockItems db')"
    using ty by (simp add: its updateWhere_def sorted_wrt_map clash)
  have ex: "(\<exists>x \<in> set (stockItems db'). P (it_id x) (it_companyId x) (it_valuationMethod x)) =
      (\<exists>x \<in> set (stockItems db). P (it_id x) (it_companyId x) (it_valuationMethod x))" for P
  proof -
    have "P (it_id (if it_id x = k then f x else x)) (it_companyId (if it_id x = k then f x else x))
        (it_valuationMethod (if it_id x = k then f x else x)) = P (it_id x) (it_companyId x) (it_valuationMethod x)" for x k
      by (simp add: keys)
    then show ?thesis by (simp only: its updateWhere_set bex_simps)
  qed
  have "\<forall>n \<in> set (stockMovements db'). movementTyped (stockItems db') n"
    
  proof
    fix n assume "n \<in> set (stockMovements db')"
    then have "movementTyped (stockItems db) n" using ty mv item by (auto simp: movementTyped_def)
    then show "movementTyped (stockItems db') n"
      using ex[of "\<lambda>i c _. i = mv_itemId n \<and> c = mv_companyId n"] by (simp add: movementTyped_def)
  qed
  moreover have "\<forall>k \<in> set (map lotKey (stockLots db')). lotTyped (stockItems db') (stockMovements db') k"
    unfolding lots(1)
  proof
    fix k assume "k \<in> set (map lotKey (stockLots db) @ ks)"
    then have "lotTyped (stockItems db) (stockMovements db) k \<or> lotTyped (stockItems db) [m] k" using ty lots(3) by auto
    then show "lotTyped (stockItems db') (stockMovements db') k"
      using ex[of "\<lambda>i c v. i = fst (snd (snd k)) \<and> c = fst (snd k) \<and> v = FIFO"] by (cases k) (auto simp: lotTyped_def mv(1))
  qed
  moreover have "distinct (map mv_id (stockMovements db'))" using ty mv by simp
  moreover have "distinct (map fst (map lotKey (stockLots db')))" unfolding lots(1) by (rule lots(2))
  ultimately have "stockTyped db'" using so by (simp add: stockTyped_def)
  moreover have "itemOk (stockMovements db') (stockLots db') (if it_id y = it_id item then f y else y)" if y: "y \<in> set (stockItems db)" for y
  proof (cases "it_id y = it_id item")
    case True
    then have "y = item" using stock_item_unique[of db] inv item y by (auto simp: stockInv_def)
    then show ?thesis using ok by simp
  next
    case False
    have l: "lotSum (it_id y) (stockLots db') = lotSum (it_id y) (stockLots db)" using lots(4)[OF False] by (simp add: lotSum_def)
    have s: "l \<in> set (stockLots db') \<and> lot_itemId l = it_id y \<longleftrightarrow> l \<in> set (stockLots db) \<and> lot_itemId l = it_id y" for l
      using arg_cong[OF lots(4)[OF False], of set] by auto
    have "itemOk (stockMovements db) (stockLots db) y" using inv y by (simp add: stockInv_def)
    moreover have "itemOk (stockMovements db') (stockLots db') y = itemOk (stockMovements db) (stockLots db) y"
    proof -
    have "(\<forall>l \<in> set (stockLots db'). lot_itemId l = it_id y \<longrightarrow> 0 \<le> lot_remainingQuantity l) =
        (\<forall>l \<in> set (stockLots db). lot_itemId l = it_id y \<longrightarrow> 0 \<le> lot_remainingQuantity l)" using s by blast
    then show ?thesis using False mv(3) unfolding itemOk_def mv(1) l by simp
    qed
    ultimately show ?thesis using False by simp
  qed
  ultimately show ?thesis unfolding stockInv_def its updateWhere_set ball_simps by blast
qed

section \<open>Receipts keep the invariant\<close>

lemma insertMovement_InrD: "insertMovement m db = Inr db' \<Longrightarrow>
    db' = db\<lparr>stockMovements := stockMovements db @ [m]\<rparr> \<and> mv_id m \<notin> mv_id ` set (stockMovements db)"
  by (auto simp: insertMovement_def list_ex_iff split: if_splits)

lemma insertLot_InrD: "insertLot l db = Inr db' \<Longrightarrow>
    db' = db\<lparr>stockLots := stockLots db @ [l]\<rparr> \<and> lot_id l \<notin> lot_id ` set (stockLots db)"
  by (auto simp: insertLot_def list_ex_iff split: if_splits)

lemma getCompanyStockItem_InrD:
  "getCompanyStockItem c i db = Inr x \<Longrightarrow> x \<in> set (stockItems db) \<and> it_id x = i \<and> it_companyId x = c"
  by (auto simp: getCompanyStockItem_def split: option.splits dest: find_SomeD)

lemma movementRow_fields [simp]:
  "mv_id (movementRow pr i q c t n src) = mp_mvId pr" "mv_itemId (movementRow pr i q c t n src) = i"
  "mv_companyId (movementRow pr i q c t n src) = mp_companyId pr" "mv_quantity (movementRow pr i q c t n src) = storeDec (mp_env pr) 1000 q"
  "mv_sourceLots (movementRow pr i q c t n src) = src" "mv_totalCost (movementRow pr i q c t n src) = storeDec (mp_env pr) 100 t"
  by (simp_all add: movementRow_def Let_def)

lemma lotRow_fields [simp]:
  "lot_id (lotRow pr i q c) = mp_lotId pr" "lot_itemId (lotRow pr i q c) = i" "lot_remainingQuantity (lotRow pr i q c) = storeDec (mp_env pr) 1000 q"
  "lotKey (lotRow pr i q c) = (mp_lotId pr, mp_companyId pr, i, mp_mvId pr)"
  by (simp_all add: lotRow_def lotKey_def Let_def)

lemma setStock_fields [simp]:
  "it_id (setStock n a st x) = it_id x" "it_companyId (setStock n a st x) = it_companyId x" "it_code (setStock n a st x) = it_code x"
  "it_valuationMethod (setStock n a st x) = it_valuationMethod x" "it_quantityOnHand (setStock n a st x) = st 1000 n"
  by (simp_all add: setStock_def)

lemma inbound_InrD:
  assumes "applyInboundMovement pr item q c db = Inr (r, db')"
  obtains n avg m where "\<not> roundQty q \<le> 0" "n = roundQty (fadd (thousandths (it_quantityOnHand item)) (roundQty q))"
    "m = movementRow pr (it_id item) (roundQty q) (roundUnitCost c) (round2 (fmul (roundQty q) (roundUnitCost c))) n []"
    "stockItems db' = updateWhere (\<lambda>x. it_id x = it_id item) (setStock n avg (storeDec (mp_env pr))) (stockItems db)"
    "stockMovements db' = stockMovements db @ [m]" "mp_mvId pr \<notin> mv_id ` set (stockMovements db)"
    "stockLots db' = stockLots db @ (if it_valuationMethod item = FIFO then [lotRow pr (it_id item) (roundQty q) (roundUnitCost c)] else [])"
    "it_valuationMethod item = FIFO \<longrightarrow> mp_lotId pr \<notin> lot_id ` set (stockLots db)"
    "r = (mp_mvId pr, n)"
proof -
  define n where "n = roundQty (fadd (thousandths (it_quantityOnHand item)) (roundQty q))"
  define m where "m = movementRow pr (it_id item) (roundQty q) (roundUnitCost c) (round2 (fmul (roundQty q) (roundUnitCost c))) n []"
  obtain avg db1 where a: "\<not> roundQty q \<le> 0"
    "insertMovement m (updateItem (it_id item) (setStock n avg (storeDec (mp_env pr))) db) = Inr db1"
    "(if it_valuationMethod item = FIFO then insertLot (lotRow pr (it_id item) (roundQty q) (roundUnitCost c)) db1 else Inr db1) = Inr db'"
    "r = (mp_mvId pr, n)"
    using assms unfolding applyInboundMovement_def Let_def by (auto simp: bindR_eq_Inr n_def m_def split: if_splits)
  note m = insertMovement_InrD[OF a(2)]
  show thesis
    by (rule that[OF a(1) n_def m_def, of avg])
      (use m a(3,4) in \<open>auto simp: updateItem_def m_def split: if_splits dest!: insertLot_InrD\<close>)
qed

lemma inbound_inv:
  assumes st: "exact_store (storeDec (mp_env pr))" and inv: "stockInv db" and item: "item \<in> set (stockItems db)"
    and c: "mp_companyId pr = it_companyId item" and s: "applyInboundMovement pr item q cost db = Inr (r, db')"
  shows "stockInv db'"
proof -
  obtain n avg m where d: "\<not> roundQty q \<le> 0" "n = roundQty (fadd (thousandths (it_quantityOnHand item)) (roundQty q))"
    and m: "m = movementRow pr (it_id item) (roundQty q) (roundUnitCost cost) (round2 (fmul (roundQty q) (roundUnitCost cost))) n []"
    and its: "stockItems db' = updateWhere (\<lambda>x. it_id x = it_id item) (setStock n avg (storeDec (mp_env pr))) (stockItems db)"
    and mv: "stockMovements db' = stockMovements db @ [m]" "mp_mvId pr \<notin> mv_id ` set (stockMovements db)"
    and lots: "stockLots db' = stockLots db @ (if it_valuationMethod item = FIFO then [lotRow pr (it_id item) (roundQty q) (roundUnitCost cost)] else [])"
      "it_valuationMethod item = FIFO \<longrightarrow> mp_lotId pr \<notin> lot_id ` set (stockLots db)"
    using s by (rule inbound_InrD)
  let ?f = "setStock n avg (storeDec (mp_env pr))" and ?p = "it_quantityOnHand item" and ?st = "storeDec (mp_env pr)"
  let ?l = "lotRow pr (it_id item) (roundQty q) (roundUnitCost cost)"
  have old: "itemOk (stockMovements db) (stockLots db) item" using inv item by (simp add: stockInv_def)
  have "itemOk (stockMovements db') (stockLots db') (?f item)"
  proof (unfold itemOk_def, intro impI)
    assume "inflow (it_id (?f item)) (stockMovements db') < 2 ^ 44"
    then have sm: "inflow (it_id item) (stockMovements db) + max (mv_quantity m) 0 < 2 ^ 44" by (simp add: mv m)
    then have "inflow (it_id item) (stockMovements db) < 2 ^ 44" by simp
    then have p: "0 \<le> ?p" "?p = moved (it_id item) (stockMovements db)"
      "it_valuationMethod item = FIFO \<Longrightarrow> lotSum (it_id item) (stockLots db) = ?p"
      "it_valuationMethod item = FIFO \<Longrightarrow> \<forall>l \<in> set (stockLots db). lot_itemId l = it_id item \<longrightarrow> 0 \<le> lot_remainingQuantity l"
      using old by (auto simp: itemOk_def)
    obtain k where k: "0 < k" "roundQty q = thousandths k" using roundQty_pos[OF d(1)] .
    have "mv_quantity m < 2 ^ 44" using sm inflow_nonneg[of "it_id item" "stockMovements db"] by simp
    then have kk: "k < 2 ^ 44" "mv_quantity m = k" using stored_qty_small[OF st, of k] k m by auto
    have "?p \<le> inflow (it_id item) (stockMovements db)" using p(2) moved_le_inflow by simp
    then have pk: "?p + k < 2 ^ 44" using sm kk k by simp
    have "roundQty (fadd (thousandths ?p) (thousandths k)) = thousandths (?p + k)" using p(1) k pk by (intro roundQty_add) auto
    moreover have "?st 1000 (thousandths (?p + k)) = ?p + k" using p(1) k pk by (intro exact_storeD(2) st) auto
    ultimately have n: "?st 1000 n = ?p + k" using d(2) k by simp
    have kq: "?st 1000 (roundQty q) = k" using kk m by simp
    show "0 \<le> it_quantityOnHand (?f item) \<and> it_quantityOnHand (?f item) = moved (it_id (?f item)) (stockMovements db') \<and>
      (it_valuationMethod (?f item) = FIFO \<longrightarrow> lotSum (it_id (?f item)) (stockLots db') = it_quantityOnHand (?f item) \<and>
        (\<forall>l \<in> set (stockLots db'). lot_itemId l = it_id (?f item) \<longrightarrow> 0 \<le> lot_remainingQuantity l))"
      using p k kk n kq by (auto simp: mv lots lotSum_def m)
  qed
  then show ?thesis
    by (intro stockInv_move[OF inv item, where f = ?f and m = m and ks = "if it_valuationMethod item = FIFO then [lotKey ?l] else []"])
      (use its mv lots c item inv in \<open>auto simp: lotTyped_def stockInv_def stockTyped_def distinct_lot_ids m\<close>)
qed

section \<open>Issues keep the invariant\<close>

lemma filter_updateWhere_other:
  "(\<And>x. x \<in> set xs \<Longrightarrow> p x \<Longrightarrow> \<not> P x \<and> \<not> P (f x)) \<Longrightarrow> filter P (updateWhere p f xs) = filter P xs"
  by (induction xs) auto

lemma consumeLots_table:
  assumes "\<forall>l \<in> set lots. \<forall>m \<in> set table. lot_id m = lot_id l \<longrightarrow> lot_itemId m = i"
    and "consumeLots st lots (rem, v, src, table) = (rem', v', src', table')"
  shows "map lotKey table' = map lotKey table \<and> (\<forall>j. j \<noteq> i \<longrightarrow>
    filter (\<lambda>l. lot_itemId l = j) table' = filter (\<lambda>l. lot_itemId l = j) table)"
  using assms
proof (induction lots arbitrary: rem v src table)
  case (Cons lot lots)
  have pr: "\<forall>l \<in> set lots. \<forall>m \<in> set table. lot_id m = lot_id l \<longrightarrow> lot_itemId m = i" using Cons.prems(1) by simp
  note skip = Cons.IH[OF pr]
  show ?case
  proof (cases "rem \<le> QUANTITY_EPS \<or> thousandths (lot_remainingQuantity lot) \<le> QUANTITY_EPS \<or>
      roundQty (min (thousandths (lot_remainingQuantity lot)) rem) \<le> QUANTITY_EPS")
    case True
    then have "table' = table \<or> consumeLots st lots (rem, v, src, table) = (rem', v', src', table')"
      using Cons.prems(2) by (auto simp del: eps_le simp: Let_def split: if_splits)
    then show ?thesis using skip by blast
  next
    case False
    define w where "w = st 1000 (roundQty (max (fsub (thousandths (lot_remainingQuantity lot))
      (roundQty (min (thousandths (lot_remainingQuantity lot)) rem))) 0))"
    define table1 where "table1 = updateWhere (\<lambda>l. lot_id l = lot_id lot) (\<lambda>l. l\<lparr>lot_remainingQuantity := w\<rparr>) table"
    have k: "map lotKey table1 = map lotKey table" unfolding table1_def by (rule map_updateWhere) (simp add: lotKey_def)
    have "\<forall>l \<in> set lots. \<forall>m \<in> set table1. lot_id m = lot_id l \<longrightarrow> lot_itemId m = i"
      using pr by (auto simp: table1_def updateWhere_set split: if_splits)
    moreover obtain rem1 v1 src1 where "consumeLots st lots (rem1, v1, src1, table1) = (rem', v', src', table')"
      using Cons.prems(2) False by (auto simp del: eps_le simp: Let_def table1_def w_def)
    ultimately have "map lotKey table' = map lotKey table1 \<and> (\<forall>j. j \<noteq> i \<longrightarrow>
        filter (\<lambda>l. lot_itemId l = j) table' = filter (\<lambda>l. lot_itemId l = j) table1)" by (rule Cons.IH)
    moreover have "filter (\<lambda>l. lot_itemId l = j) table1 = filter (\<lambda>l. lot_itemId l = j) table" if "j \<noteq> i" for j
      unfolding table1_def using Cons.prems(1) that by (intro filter_updateWhere_other) auto
    ultimately show ?thesis using k by simp
  qed
qed simp

lemma takenFrom_sum: "distinct (map lot_id lots) \<Longrightarrow> (\<Sum>l\<leftarrow>lots. takenFrom k lots (lot_id l)) = sum_list (takes k lots)"
proof (induction lots arbitrary: k)
  case (Cons l ls)
  let ?t = "min (lot_remainingQuantity l) k"
  have e: "map (\<lambda>x. takenFrom k (l # ls) (lot_id x)) ls = map (\<lambda>x. takenFrom (k - ?t) ls (lot_id x)) ls"
    using Cons.prems by (intro map_cong) (auto simp: takenFrom_Cons image_iff)
  then have "(\<Sum>x\<leftarrow>ls. takenFrom k (l # ls) (lot_id x)) = sum_list (takes (k - ?t) ls)"
    unfolding e using Cons.prems by (intro Cons.IH) simp
  then show ?case by (simp add: takenFrom_Cons[of k l ls "lot_id l"]) (simp add: takes_def)
qed (simp add: takes_def)

lemma openLots_set: "set (openLots c i table) = {l \<in> set table. lot_itemId l = i \<and> lot_companyId l = c \<and> 0 < lot_remainingQuantity l}"
  by (simp add: openLots_def)

lemma openLots_sum: "(\<Sum>l\<leftarrow>openLots c i table. (g l :: int)) =
    (\<Sum>l\<leftarrow>filter (\<lambda>l. lot_itemId l = i \<and> lot_companyId l = c \<and> 0 < lot_remainingQuantity l) table. g l)"
proof -
  have "mset (openLots c i table) = mset (filter (\<lambda>l. lot_itemId l = i \<and> lot_companyId l = c \<and> 0 < lot_remainingQuantity l) table)"
    by (simp add: openLots_def)
  moreover have "(\<Sum>l\<leftarrow>xs. g l) = sum_mset (image_mset g (mset xs))" for xs
    by (simp only: mset_map[symmetric] sum_mset_sum_list)
  ultimately show ?thesis by simp
qed

lemma openLots_distinct: "distinct (map lot_id table) \<Longrightarrow> distinct (map lot_id (openLots c i table))"
proof -
  assume "distinct (map lot_id table)"
  then have d: "distinct (filter P table) \<and> inj_on lot_id (set (filter P table))" for P
    by (auto simp: distinct_map intro: inj_on_subset)
  show ?thesis unfolding openLots_def using d by (simp add: distinct_map)
qed

lemma drawLots_lotSum:
  assumes d: "distinct (map lot_id table)"
    and l: "\<And>l. l \<in> set table \<Longrightarrow> lot_itemId l = i \<Longrightarrow> lot_companyId l = c \<and> 0 \<le> lot_remainingQuantity l"
  shows "lotSum i (drawLots k (openLots c i table) table) = lotSum i table - sum_list (takes k (openLots c i table))"
    "lotSum i table = sum_list (map lot_remainingQuantity (openLots c i table))"
proof -
  let ?xs = "openLots c i table" and ?F = "filter (\<lambda>l. lot_itemId l = i) table"
  have fl: "filter (\<lambda>l. lot_itemId l = i) (drawLots k ?xs table) =
      map (\<lambda>l. l\<lparr>lot_remainingQuantity := lot_remainingQuantity l - takenFrom k ?xs (lot_id l)\<rparr>) ?F"
    by (simp add: drawLots_def filter_map comp_def)
  have part: "(\<Sum>l\<leftarrow>?F. g l) = (\<Sum>l\<leftarrow>?xs. g l)" if z: "\<And>l. l \<in> set ?F \<Longrightarrow> lot_remainingQuantity l = 0 \<Longrightarrow> g l = 0" for g :: "stock_lot \<Rightarrow> int"
  proof -
    have "(\<Sum>l\<leftarrow>?xs. g l) = (\<Sum>l\<leftarrow>filter (\<lambda>l. lot_companyId l = c \<and> 0 < lot_remainingQuantity l) ?F. g l)"
      unfolding openLots_sum filter_filter by (simp add: conj_commute conj_left_commute)
    also have "\<dots> = (\<Sum>l\<leftarrow>?F. g l)"
    proof (rule sum_list_map_filter)
      fix x assume x: "x \<in> set ?F" "\<not> (lot_companyId x = c \<and> 0 < lot_remainingQuantity x)"
      then have "lot_remainingQuantity x = 0" using l[of x] by auto
      then show "g x = 0" using z x(1) by blast
    qed
    finally show ?thesis by simp
  qed
  have zero: "takenFrom k ?xs (lot_id l) = 0" if "l \<in> set ?F" "lot_remainingQuantity l = 0" for l
  proof (rule takenFrom_other)
    show "lot_id l \<notin> lot_id ` set ?xs"
    proof
      assume "lot_id l \<in> lot_id ` set ?xs"
      then obtain y where "y \<in> set table" "lot_id y = lot_id l" "0 < lot_remainingQuantity y" by (auto simp: openLots_set)
      then have "y = l" using d that(1) by (auto simp: distinct_map inj_on_def)
      then show False using \<open>0 < lot_remainingQuantity y\<close> that(2) by simp
    qed
  qed
  show "lotSum i table = sum_list (map lot_remainingQuantity ?xs)" unfolding lotSum_def by (rule part) simp
  have "(\<Sum>l\<leftarrow>?F. takenFrom k ?xs (lot_id l)) = sum_list (takes k ?xs)"
    using part[OF zero] takenFrom_sum[OF openLots_distinct[OF d]] by simp
  then show "lotSum i (drawLots k ?xs table) = lotSum i table - sum_list (takes k ?xs)"
    by (simp add: lotSum_def fl comp_def sum_list_subtractf)
qed

lemma takenFrom_le:
  assumes "0 \<le> k" "\<forall>l \<in> set lots. 0 \<le> lot_remainingQuantity l" "distinct (map lot_id lots)" "l \<in> set lots"
  shows "0 \<le> takenFrom k lots (lot_id l) \<and> takenFrom k lots (lot_id l) \<le> lot_remainingQuantity l"
  using assms by (induction lots arbitrary: k) (auto simp: takenFrom_Cons min_def image_iff)

lemma outbound_InrD:
  assumes "applyOutboundMovement pr item q db = Inr (r, db')"
  obtains n avg m c tot src table where "\<not> roundQty q \<le> 0"
    "\<not> QUANTITY_EPS < fsub (roundQty q) (thousandths (it_quantityOnHand item))"
    "n = roundQty (max (fsub (thousandths (it_quantityOnHand item)) (roundQty q)) 0)"
    "m = movementRow pr (it_id item) (- roundQty q) c (- tot) n src"
    "stockItems db' = updateWhere (\<lambda>x. it_id x = it_id item) (setStock n avg (storeDec (mp_env pr))) (stockItems db)"
    "stockMovements db' = stockMovements db @ [m]" "mp_mvId pr \<notin> mv_id ` set (stockMovements db)"
    "stockLots db' = table"
    "if it_valuationMethod item = CMP then table = stockLots db \<and> src = []
     else (\<exists>rem. consumeLots (storeDec (mp_env pr)) (openLots (mp_companyId pr) (it_id item) (stockLots db)) (roundQty q, 0, [], stockLots db) =
        (rem, tot, src, table) \<and> \<not> QUANTITY_EPS < rem)"
    "r = (mp_mvId pr, n)"
proof -
  define n where "n = roundQty (max (fsub (thousandths (it_quantityOnHand item)) (roundQty q)) 0)"
  obtain avg c tot src table where a: "\<not> roundQty q \<le> 0"
    "\<not> QUANTITY_EPS < fsub (roundQty q) (thousandths (it_quantityOnHand item))"
    "if it_valuationMethod item = CMP then table = stockLots db \<and> src = []
     else (\<exists>rem. consumeLots (storeDec (mp_env pr)) (openLots (mp_companyId pr) (it_id item) (stockLots db)) (roundQty q, 0, [], stockLots db) =
        (rem, tot, src, table) \<and> \<not> QUANTITY_EPS < rem)"
    "insertMovement (movementRow pr (it_id item) (- roundQty q) c (- tot) n src)
       (updateItem (it_id item) (setStock n avg (storeDec (mp_env pr))) (db\<lparr>stockLots := table\<rparr>)) = Inr db'"
    "r = (mp_mvId pr, n)"
  proof (cases "it_valuationMethod item = CMP")
    case True
    then show thesis using assms that unfolding applyOutboundMovement_def Let_def cmpCost_def
      by (auto simp: bindR_eq_Inr n_def split: if_splits)
  next
    case False
    obtain rem tot src table where "consumeLots (storeDec (mp_env pr)) (openLots (mp_companyId pr) (it_id item) (stockLots db))
        (roundQty q, 0, [], stockLots db) = (rem, tot, src, table)" by (metis surj_pair)
    then show thesis using assms that False unfolding applyOutboundMovement_def Let_def
      by (auto simp: bindR_eq_Inr n_def split: if_splits)
  qed
  note m = insertMovement_InrD[OF a(4)]
  show thesis
    by (rule that[OF a(1,2) n_def refl, where c = c and tot = tot and src = src and avg = avg and table = table])
      (use m a in \<open>auto simp: updateItem_def\<close>)
qed

lemma onHand_bounds:
  assumes "stockInv db" "item \<in> set (stockItems db)" "inflow (it_id item) (stockMovements db) < 2 ^ 44"
  shows "0 \<le> it_quantityOnHand item" "it_quantityOnHand item < 2 ^ 44"
  using assms moved_le_inflow[of "it_id item" "stockMovements db"] by (auto simp: stockInv_def itemOk_def)

lemma lot_company:
  assumes "stockInv db" "item \<in> set (stockItems db)" "l \<in> set (stockLots db)" "lot_itemId l = it_id item"
  shows "lot_companyId l = it_companyId item"
proof -
  have ty: "stockTyped db" using assms(1) by (simp add: stockInv_def)
  then have "lotTyped (stockItems db) (stockMovements db) (lotKey l)" using assms(3) by (auto simp: stockTyped_def)
  then obtain x where "x \<in> set (stockItems db)" "it_id x = it_id item" "it_companyId x = lot_companyId l"
    using assms(4) by (auto simp: lotTyped_def lotKey_def)
  then show ?thesis using stock_item_unique[OF ty _ assms(2)] by metis
qed

text \<open>The open lots of a FIFO item hold together what is on hand, and the loop over them may rely on
  their being distinct rows of the table with exact quantities.\<close>

lemma openLots_total:
  assumes "stockInv db" "item \<in> set (stockItems db)" "it_valuationMethod item = FIFO" "inflow (it_id item) (stockMovements db) < 2 ^ 44"
  shows "sum_list (map lot_remainingQuantity (openLots (it_companyId item) (it_id item) (stockLots db))) = it_quantityOnHand item"
proof -
  have d: "distinct (map lot_id (stockLots db))" using assms(1) by (simp add: stockInv_def stockTyped_def)
  have ok: "lotSum (it_id item) (stockLots db) = it_quantityOnHand item"
    "\<forall>l \<in> set (stockLots db). lot_itemId l = it_id item \<longrightarrow> 0 \<le> lot_remainingQuantity l"
    using assms by (auto simp: stockInv_def itemOk_def)
  have "lotSum (it_id item) (stockLots db) = sum_list (map lot_remainingQuantity (openLots (it_companyId item) (it_id item) (stockLots db)))"
    by (rule drawLots_lotSum(2)[OF d]) (use ok(2) lot_company[OF assms(1,2)] in auto)
  then show ?thesis using ok by simp
qed

lemma openLots_facts:
  assumes "stockInv db" "item \<in> set (stockItems db)" "it_valuationMethod item = FIFO" "inflow (it_id item) (stockMovements db) < 2 ^ 44"
  defines "xs \<equiv> openLots (it_companyId item) (it_id item) (stockLots db)"
  shows "distinct (map lot_id xs)" "\<forall>l \<in> set xs. 0 \<le> lot_remainingQuantity l \<and> lot_remainingQuantity l \<le> 2 ^ 44"
    "\<forall>l \<in> set xs. \<forall>m \<in> set (stockLots db). lot_id m = lot_id l \<longrightarrow> lot_remainingQuantity m = lot_remainingQuantity l"
proof -
  have d: "distinct (map lot_id (stockLots db))" using assms(1) by (simp add: stockInv_def stockTyped_def)
  show "distinct (map lot_id xs)" unfolding xs_def by (rule openLots_distinct[OF d])
  show "\<forall>l \<in> set xs. \<forall>m \<in> set (stockLots db). lot_id m = lot_id l \<longrightarrow> lot_remainingQuantity m = lot_remainingQuantity l"
    using d by (auto simp: xs_def openLots_set distinct_map dest!: inj_onD)
  show "\<forall>l \<in> set xs. 0 \<le> lot_remainingQuantity l \<and> lot_remainingQuantity l \<le> 2 ^ 44"
  proof
    fix l assume l: "l \<in> set xs"
    have "lot_remainingQuantity l \<le> sum_list (map lot_remainingQuantity xs)"
      using l by (intro member_le_sum_list) (auto simp: xs_def openLots_set)
    then show "0 \<le> lot_remainingQuantity l \<and> lot_remainingQuantity l \<le> 2 ^ 44"
      using l openLots_total[OF assms(1-4)] onHand_bounds[OF assms(1,2,4)] by (simp add: xs_def openLots_set)
  qed
qed

text \<open>What one issue does to an item whose quantities are exact: \<open>k\<close> thousandths leave it, and a FIFO
  item gives them from its lots, oldest first.\<close>

lemma outbound_exact:
  assumes st: "exact_store (storeDec (mp_env pr))" and inv: "stockInv db" and item: "item \<in> set (stockItems db)"
    and c: "mp_companyId pr = it_companyId item" and s: "applyOutboundMovement pr item q db = Inr (r, db')"
    and sm: "inflow (it_id item) (stockMovements db) < 2 ^ 44"
  obtains k where "0 < k" "k \<le> it_quantityOnHand item" "roundQty q = thousandths k"
    "storeDec (mp_env pr) 1000 (snd r) = it_quantityOnHand item - k" "snd r = thousandths (it_quantityOnHand item - k)"
    "it_valuationMethod item = FIFO \<Longrightarrow> stockLots db' = drawLots k (openLots (it_companyId item) (it_id item) (stockLots db)) (stockLots db)"
    "it_valuationMethod item = FIFO \<Longrightarrow> mv_sourceLots (last (stockMovements db')) = drawnLots k (openLots (it_companyId item) (it_id item) (stockLots db))"
proof -
  obtain n avg m cst tot src table where d: "\<not> roundQty q \<le> 0"
    "\<not> QUANTITY_EPS < fsub (roundQty q) (thousandths (it_quantityOnHand item))"
    "n = roundQty (max (fsub (thousandths (it_quantityOnHand item)) (roundQty q)) 0)"
    and m: "m = movementRow pr (it_id item) (- roundQty q) cst (- tot) n src"
    and mv: "stockMovements db' = stockMovements db @ [m]"
    and lots: "stockLots db' = table"
    and br: "if it_valuationMethod item = CMP then table = stockLots db \<and> src = []
     else (\<exists>rem. consumeLots (storeDec (mp_env pr)) (openLots (mp_companyId pr) (it_id item) (stockLots db)) (roundQty q, 0, [], stockLots db) =
        (rem, tot, src, table) \<and> \<not> QUANTITY_EPS < rem)"
    and r: "r = (mp_mvId pr, n)"
    using s by (rule outbound_InrD)
  let ?p = "it_quantityOnHand item" and ?xs = "openLots (it_companyId item) (it_id item) (stockLots db)"
  have ok: "itemOk (stockMovements db) (stockLots db) item" and ty: "stockTyped db" using inv item by (simp_all add: stockInv_def)
  then have p: "0 \<le> ?p" "?p = moved (it_id item) (stockMovements db)" using sm by (auto simp: itemOk_def)
  then have p44: "?p < 2 ^ 44" using moved_le_inflow[of "it_id item" "stockMovements db"] sm by simp
  obtain k where k: "0 < k" "roundQty q = thousandths k" using roundQty_pos[OF d(1)] .
  have kp: "k \<le> ?p" using d(2) k eps_fsub[OF p(1) p44, of k] by simp
  have n: "n = thousandths (?p - k)" using d(3) k kp p44 by (simp add: roundQty_open)
  have sn: "storeDec (mp_env pr) 1000 n = ?p - k" unfolding n using k kp p44 by (intro exact_storeD(2) st) auto
  have fifo: "stockLots db' = drawLots k ?xs (stockLots db) \<and> src = drawnLots k ?xs" if F: "it_valuationMethod item = FIFO"
  proof -
    have cons: "consumeLots (storeDec (mp_env pr)) ?xs (thousandths k, 0, [], stockLots db) =
        (thousandths (k - sum_list (takes k ?xs)), drawnCost 0 (drawnLots k ?xs), [] @ drawnLots k ?xs, drawLots k ?xs (stockLots db))"
      by (rule consumeLots_draws[OF st]) (use openLots_facts[OF inv item F sm] k kp p44 in auto)
    from br F c k cons show ?thesis by (simp add: lots)
  qed
  show thesis
    by (rule that[OF k(1) kp k(2)]) (use sn n r fifo m mv in auto)
qed

lemma outbound_inv:
  assumes st: "exact_store (storeDec (mp_env pr))" and inv: "stockInv db" and item: "item \<in> set (stockItems db)"
    and c: "mp_companyId pr = it_companyId item" and s: "applyOutboundMovement pr item q db = Inr (r, db')"
  shows "stockInv db'"
proof -
  obtain n avg m cst tot src table where d: "\<not> roundQty q \<le> 0"
    and m: "m = movementRow pr (it_id item) (- roundQty q) cst (- tot) n src"
    and its: "stockItems db' = updateWhere (\<lambda>x. it_id x = it_id item) (setStock n avg (storeDec (mp_env pr))) (stockItems db)"
    and mv: "stockMovements db' = stockMovements db @ [m]" "mp_mvId pr \<notin> mv_id ` set (stockMovements db)"
    and lots: "stockLots db' = table"
    and br: "if it_valuationMethod item = CMP then table = stockLots db \<and> src = []
     else (\<exists>rem. consumeLots (storeDec (mp_env pr)) (openLots (mp_companyId pr) (it_id item) (stockLots db)) (roundQty q, 0, [], stockLots db) =
        (rem, tot, src, table) \<and> \<not> QUANTITY_EPS < rem)"
    and r: "r = (mp_mvId pr, n)"
    using s by (rule outbound_InrD)
  let ?f = "setStock n avg (storeDec (mp_env pr))" and ?p = "it_quantityOnHand item" and ?i = "it_id item"
  have ty: "stockTyped db" and old: "itemOk (stockMovements db) (stockLots db) item" using inv item by (simp_all add: stockInv_def)
  have dl: "distinct (map lot_id (stockLots db))" using ty by (simp add: stockTyped_def)
  have same: "\<forall>l \<in> set (openLots (mp_companyId pr) ?i (stockLots db)). \<forall>m \<in> set (stockLots db). lot_id m = lot_id l \<longrightarrow> lot_itemId m = ?i"
    using dl by (auto simp: openLots_set distinct_map dest!: inj_onD)
  have tb: "map lotKey table = map lotKey (stockLots db) \<and> (\<forall>j. j \<noteq> ?i \<longrightarrow>
      filter (\<lambda>l. lot_itemId l = j) table = filter (\<lambda>l. lot_itemId l = j) (stockLots db))"
    using br consumeLots_table[OF same] by (auto split: if_splits)
  note co = lot_company[OF inv item]
  have "itemOk (stockMovements db') (stockLots db') (?f item)"
  proof (unfold itemOk_def, intro impI)
    assume "inflow (it_id (?f item)) (stockMovements db') < 2 ^ 44"
    then have sm: "inflow ?i (stockMovements db) < 2 ^ 44" by (simp add: mv m)
    obtain k where k: "0 < k" "k \<le> ?p" "roundQty q = thousandths k" "storeDec (mp_env pr) 1000 (snd r) = ?p - k"
      and F: "it_valuationMethod item = FIFO \<Longrightarrow> stockLots db' = drawLots k (openLots (it_companyId item) ?i (stockLots db)) (stockLots db)"
      using outbound_exact[OF st inv item c s sm] by metis
    have p: "0 \<le> ?p" "?p = moved ?i (stockMovements db)" "it_valuationMethod item = FIFO \<Longrightarrow> lotSum ?i (stockLots db) = ?p"
      "it_valuationMethod item = FIFO \<Longrightarrow> \<forall>l \<in> set (stockLots db). lot_itemId l = ?i \<longrightarrow> 0 \<le> lot_remainingQuantity l"
      using old sm by (auto simp: itemOk_def)
    have p44: "?p < 2 ^ 44" using moved_le_inflow[of ?i "stockMovements db"] sm p by simp
    have "storeDec (mp_env pr) 1000 (- thousandths k) = - k"
      unfolding qty.grid_minus[symmetric] using k p44 by (intro exact_storeD(2) st) auto
    then have mq: "mv_quantity m = - k" using k by (simp add: m)
    have fifo: "lotSum ?i (stockLots db') = ?p - k \<and> (\<forall>l \<in> set (stockLots db'). lot_itemId l = ?i \<longrightarrow> 0 \<le> lot_remainingQuantity l)"
      if v: "it_valuationMethod item = FIFO"
    proof -
      let ?xs = "openLots (it_companyId item) ?i (stockLots db)"
      have nn: "\<forall>l \<in> set ?xs. 0 \<le> lot_remainingQuantity l" by (simp add: openLots_set)
      have ls: "lotSum ?i (stockLots db') = lotSum ?i (stockLots db) - sum_list (takes k ?xs)"
        "lotSum ?i (stockLots db) = sum_list (map lot_remainingQuantity ?xs)"
        unfolding F[OF v] using p(4)[OF v] co by (intro drawLots_lotSum[OF dl]; auto)+
      have "sum_list (takes k ?xs) = min k (sum_list (map lot_remainingQuantity ?xs))"
        unfolding takes_def using k nn by (intro takeFifo_sum) auto
      then have su: "lotSum ?i (stockLots db') = ?p - k" using ls p(3)[OF v] k by simp
      have "0 \<le> lot_remainingQuantity l - takenFrom k ?xs (lot_id l)" if l: "l \<in> set (stockLots db)" "lot_itemId l = ?i" for l
      proof (cases "l \<in> set ?xs")
        case True
        then show ?thesis using takenFrom_le[of k ?xs l] k nn openLots_distinct[OF dl] by simp
      next
        case False
        then have z: "lot_remainingQuantity l = 0" using l co[OF l] p(4)[OF v] by (force simp: openLots_set)
        have "lot_id l \<notin> lot_id ` set ?xs"
        proof
          assume "lot_id l \<in> lot_id ` set ?xs"
          then obtain y where "y \<in> set ?xs" "lot_id y = lot_id l" by auto
          then have "y = l" using dl l(1) by (auto simp: distinct_map inj_on_def openLots_set)
          then show False using False \<open>y \<in> set ?xs\<close> by simp
        qed
        then show ?thesis using z by (simp add: takenFrom_other)
      qed
      then show ?thesis using su unfolding F[OF v] by (auto simp: drawLots_def)
    qed
    show "0 \<le> it_quantityOnHand (?f item) \<and> it_quantityOnHand (?f item) = moved (it_id (?f item)) (stockMovements db') \<and>
      (it_valuationMethod (?f item) = FIFO \<longrightarrow> lotSum (it_id (?f item)) (stockLots db') = it_quantityOnHand (?f item) \<and>
        (\<forall>l \<in> set (stockLots db'). lot_itemId l = it_id (?f item) \<longrightarrow> 0 \<le> lot_remainingQuantity l))"
      using k p mq fifo r by (auto simp: mv m)
  qed
  moreover have "distinct (map fst (map lotKey (stockLots db) @ []))" using ty by (simp add: stockTyped_def)
  ultimately show ?thesis
    by (intro stockInv_move[OF inv item, where f = ?f and m = m and ks = "[]"]) (use its mv lots c tb in \<open>auto simp: m\<close>)
qed

section \<open>The routes keep the invariant\<close>

text \<open>What a loop over the lines of a request needs from its handler.\<close>

locale line_handler =
  fixes inv :: "'d \<Rightarrow> bool" and handle :: "nat \<Rightarrow> 'l \<Rightarrow> 'd \<Rightarrow> 'e + (id option \<times> 'd)"
  assumes keeps: "inv d \<Longrightarrow> handle k l d = Inr (i, d') \<Longrightarrow> inv d'"
begin

lemma lines_keep: "inv d \<Longrightarrow> forLines handle k ls ids d = Inr (r, d') \<Longrightarrow> inv d'"
  by (induction ls arbitrary: k ids d) (auto simp: bindR_eq_Inr dest!: keeps[rotated])

end

definition stockRun :: "env \<Rightarrow> 'z stocking_scheme \<Rightarrow> bool" where
  "stockRun env db \<longleftrightarrow> exact_store (storeDec env) \<and> stockInv db"

lemma lineParams_fields [simp]: "mp_env (lineParams env u d doc ty note k) = env" "mp_companyId (lineParams env u d doc ty note k) = act_company u"
  "mp_mvId (lineParams env u d doc ty note k) = uuid env (2 * k)"
  by (simp_all add: lineParams_def)

interpretation nir: line_handler "stockRun env" "nirLine env u d doc" for env u d doc
  by unfold_locales (auto simp: stockRun_def nirLine_def bindR_eq_Inr dest!: getCompanyStockItem_InrD intro: inbound_inv[rotated 4])

interpretation consumption: line_handler "stockRun env" "consumptionLine env u d doc" for env u d doc
  by unfold_locales (auto simp: stockRun_def consumptionLine_def bindR_eq_Inr dest!: getCompanyStockItem_InrD intro: outbound_inv[rotated 4])

interpretation inventory: line_handler "stockRun env" "inventoryLine env u d doc" for env u d doc
  by unfold_locales (auto simp: stockRun_def inventoryLine_def bindR_eq_Inr Let_def split: if_splits option.splits
      dest!: getCompanyStockItem_InrD intro: inbound_inv[rotated 4] outbound_inv[rotated 4])

lemma stockInv_cong:
  "stockItems db' = stockItems db \<Longrightarrow> stockMovements db' = stockMovements db \<Longrightarrow> stockLots db' = stockLots db \<Longrightarrow> stockInv db' = stockInv db"
  by (simp add: stockInv_def stockTyped_def)

lemma stockInv_audit [simp]: "stockInv (writeAudit u t r a x db) = stockInv db"
  by (rule stockInv_cong) (simp_all add: writeAudit_def)

lemma stockInv_new_item:
  assumes inv: "stockInv db" and new: "\<not> list_ex (stockItemClash item) (stockItems db)" and z: "it_quantityOnHand item = 0"
  shows "stockInv (db\<lparr>stockItems := stockItems db @ [item]\<rparr>)"
proof -
  note ty = inv[unfolded stockInv_def stockTyped_def, THEN conjunct1]
  have fresh: "it_id x \<noteq> it_id item" "\<not> stockItemClash x item" if "x \<in> set (stockItems db)" for x
    using new that by (auto simp: list_ex_iff stockItemClash_def)
  have mv: "mv_itemId m \<noteq> it_id item" if "m \<in> set (stockMovements db)" for m
    using ty that fresh by (force simp: movementTyped_def)
  have lt: "lot_itemId l \<noteq> it_id item" if "l \<in> set (stockLots db)" for l
    using ty that fresh by (force simp: lotTyped_def lotKey_def)
  have "filter (\<lambda>m. mv_itemId m = it_id item) (stockMovements db) = []" "filter (\<lambda>l. lot_itemId l = it_id item) (stockLots db) = []"
    using mv lt by (auto simp: filter_empty_conv)
  then have "itemOk (stockMovements db) (stockLots db) item" using z lt by (simp add: itemOk_def moved_def lotSum_def)
  moreover have "stockTyped (db\<lparr>stockItems := stockItems db @ [item]\<rparr>)"
  proof -
    have "lotTyped its ms k \<Longrightarrow> lotTyped (its @ [item]) ms k" "movementTyped its m \<Longrightarrow> movementTyped (its @ [item]) m" for its ms k m
      by (cases k, auto simp: lotTyped_def) (auto simp: movementTyped_def)
    moreover have "sorted_wrt (\<lambda>x y. \<not> stockItemClash x y) (stockItems db @ [item])"
      using ty fresh by (auto simp: sorted_wrt_append)
    ultimately show ?thesis unfolding stockTyped_def using ty by simp
  qed
  ultimately show ?thesis using inv by (auto simp: stockInv_def)
qed

lemma createItem_inv:
  assumes st: "exact_store (storeDec env)" and inv: "stockInv db" and s: "createItem env u r db = Inr db'" shows "stockInv db'"
proof -
  define item where "item = \<lparr> it_id = uuid env 0, it_companyId = act_company u, it_code = toUpperCase (trim (it_req_code r)),
            it_name = trim (it_req_name r), it_unit = toUpperCase (trim (it_req_unit r)),
            it_valuationMethod = it_req_valuationMethod r, it_minStockQty = storeDec env 1000 (roundQty (it_req_minStockQty r)),
            it_quantityOnHand = 0, it_avgUnitCost = 0, it_isActive = True \<rparr>"
  let ?db1 = "db\<lparr>stockItems := stockItems db @ [item]\<rparr>"
  obtain db2 where new: "\<not> list_ex (stockItemClash item) (stockItems db)"
    and db2: "db2 = ?db1 \<or> (\<exists>pr x q c. applyInboundMovement pr item q c ?db1 = Inr (x, db2) \<and> mp_env pr = env \<and> mp_companyId pr = act_company u)"
    and db': "db' = writeAudit u ''stock_items'' (Some (it_id item)) ''CREATE'' (it_req_reason r) db2"
    using s unfolding createItem_def Let_def item_def by (auto simp: bindR_eq_Inr split: if_splits prod.splits) (metis movement_params.select_convs(1,2))
  have i1: "stockInv ?db1" by (rule stockInv_new_item[OF inv new]) (simp add: item_def)
  have "item \<in> set (stockItems ?db1)" "it_companyId item = act_company u" by (simp_all add: item_def)
  then have "stockInv db2" using db2 i1 st by (auto intro: inbound_inv[where item = item])
  then show ?thesis by (simp add: db')
qed

lemma createNir_inv: "exact_store (storeDec env) \<Longrightarrow> stockInv db \<Longrightarrow> createNir env u r db = Inr (ids, db') \<Longrightarrow> stockInv db'"
  using nir.lines_keep by (fastforce simp: createNir_def bindR_eq_Inr Let_def stockRun_def split: if_splits)

lemma createConsumption_inv:
  "exact_store (storeDec env) \<Longrightarrow> stockInv db \<Longrightarrow> createConsumption env u cr db = Inr (ids, db') \<Longrightarrow> stockInv db'"
  using consumption.lines_keep by (fastforce simp: createConsumption_def bindR_eq_Inr Let_def stockRun_def split: if_splits)

lemma reconcileInventory_inv:
  "exact_store (storeDec env) \<Longrightarrow> stockInv db \<Longrightarrow> reconcileInventory env u ir db = Inr (ids, db') \<Longrightarrow> stockInv db'"
  using inventory.lines_keep by (fastforce simp: reconcileInventory_def bindR_eq_Inr Let_def stockRun_def split: if_splits)

inductive stock_step :: "'z stocking_scheme \<Rightarrow> 'z stocking_scheme \<Rightarrow> bool" where
  item: "exact_store (storeDec env) \<Longrightarrow> createItem env u r db = Inr db' \<Longrightarrow> stock_step db db'"
| nir: "exact_store (storeDec env) \<Longrightarrow> createNir env u nr db = Inr (ids, db') \<Longrightarrow> stock_step db db'"
| consumption: "exact_store (storeDec env) \<Longrightarrow> createConsumption env u cr db = Inr (ids, db') \<Longrightarrow> stock_step db db'"
| inventory: "exact_store (storeDec env) \<Longrightarrow> reconcileInventory env u ir db = Inr (ids, db') \<Longrightarrow> stock_step db db'"

inductive_cases stock_stepE: "stock_step db db'"

lemma stock_step_inv: "stock_step db db' \<Longrightarrow> stockInv db \<Longrightarrow> stockInv db'"
  by (erule stock_stepE) (auto intro: createItem_inv createNir_inv createConsumption_inv reconcileInventory_inv)

lemma stock_reach_inv: "stock_step\<^sup>*\<^sup>* db db' \<Longrightarrow> stockInv db \<Longrightarrow> stockInv db'"
  by (induction rule: rtranclp_induct) (auto intro: stock_step_inv)

section \<open>A worked example\<close>

text \<open>An item received twice, 10 units at 2 and 5 units at 3, and then a consumption of 12 units.\<close>

definition demoItem :: "int \<Rightarrow> int \<Rightarrow> stock_item" where
  "demoItem q avg = \<lparr> it_id = ''i0'', it_companyId = ''c'', it_code = ''A1'', it_name = ''Item'', it_unit = ''BUC'',
     it_valuationMethod = FIFO, it_minStockQty = 0, it_quantityOnHand = q, it_avgUnitCost = avg, it_isActive = True \<rparr>"

definition demoMove :: "id \<Rightarrow> StockMovementType \<Rightarrow> int \<Rightarrow> int \<Rightarrow> int \<Rightarrow> int \<Rightarrow> (id \<times> double \<times> double) list \<Rightarrow> stock_movement" where
  "demoMove i ty q cost tot res src = \<lparr> mv_id = i, mv_companyId = ''c'', mv_itemId = ''i0'', mv_type = ty,
     mv_movementDate = 1706745600000, mv_quantity = q, mv_unitCost = cost, mv_totalCost = tot, mv_resultingQuantity = res,
     mv_documentNumber = None, mv_note = None, mv_sourceLots = src \<rparr>"

definition demoLot :: "id \<Rightarrow> id \<Rightarrow> int \<Rightarrow> int \<Rightarrow> int \<Rightarrow> stock_lot" where
  "demoLot i src cost ini rest = \<lparr> lot_id = i, lot_companyId = ''c'', lot_itemId = ''i0'', lot_sourceMovementId = src,
     lot_receivedAt = 1706745600000, lot_unitCost = cost, lot_initialQuantity = ini, lot_remainingQuantity = rest,
     lot_createdAt = 1706745600000 \<rparr>"

definition demoStock :: "audit_row list \<Rightarrow> stock_item \<Rightarrow> stock_movement list \<Rightarrow> stock_lot list \<Rightarrow> stocking" where
  "demoStock au x ms ls = \<lparr> accounts = [], periods = [], entries = [], auditLog = au, fsCache = [], partners = [], invoices = [],
     payments = [], invoiceListKeys = [], memberships = [], supplierInvoices = [], approvals = [], delegations = [],
     supplierPayments = [], stockItems = [x], stockMovements = ms, stockLots = ls \<rparr>"

definition demoReceived :: stocking where
  "demoReceived = demoStock [] (demoItem 15000 23333) [demoMove ''i1'' NIR 10000 20000 2000 10000 [], demoMove ''n0'' NIR 5000 30000 1500 15000 []]
     [demoLot ''i2'' ''i1'' 20000 10000 10000, demoLot ''n1'' ''n0'' 30000 5000 5000]"

definition demoConsumed :: stocking where
  "demoConsumed = demoStock [\<lparr> au_tableName = ''stock_movements'', au_recordId = Some ''k0'', au_action = ''STOCK_CONSUMPTION'', au_reason = None,
       au_userId = ''u'', au_companyId = ''c'' \<rparr>] (demoItem 3000 30000)
     [demoMove ''i1'' NIR 10000 20000 2000 10000 [], demoMove ''n0'' NIR 5000 30000 1500 15000 [],
      demoMove ''k0'' CONSUMPTION (- 12000) 21667 (- 2600) 3000 [(''i2'', 10, 2), (''n1'', 2, 3)]]
     [demoLot ''i2'' ''i1'' 20000 10000 0, demoLot ''n1'' ''n0'' 30000 5000 3000]"

definition demoConsumption :: "consumption_line stock_req" where
  "demoConsumption = \<lparr> sr_date = None, sr_documentNumber = None, sr_reason = None,
     sr_lines = [\<lparr> cl_itemId = ''i0'', cl_quantity = 12, cl_note = None \<rparr>] \<rparr>"

definition demoParams :: movement_params where
  "demoParams = lineParams (demoEnv ''k'') demoActor 1706745600000 None CONSUMPTION None 0"

lemma demo_consume: "createConsumption (demoEnv ''k'') demoActor demoConsumption demoReceived = Inr ([''k0''], demoConsumed)"
  by code_simp

lemma demo_outbound: "is_ok (applyOutboundMovement demoParams (demoItem 15000 23333) 12 demoReceived)"
  by code_simp

lemma demo_stock_inv: "stockInv demoReceived"
  by (simp add: stockInv_def stockTyped_def demoReceived_def demoStock_def demoItem_def demoMove_def demoLot_def itemOk_def
      moved_def lotSum_def movementTyped_def lotTyped_def lotKey_def)

lemma demo_stock_reach: "stock_step\<^sup>*\<^sup>* demoReceived demoConsumed"
  using stock_step.consumption[OF demoEnv_exact demo_consume] by blast

section \<open>Properties\<close>

text \<open>C11: In every state the stock routes reach, the quantity of an item is never negative and equals
  the sum of its movements; for a FIFO item it also equals what remains in its lots, none of which is
  negative (up to seventeen billion units received).\<close>

theorem stock_levels:
  assumes "stock_step\<^sup>*\<^sup>* db db'" "stockInv db" "x \<in> set (stockItems db')" "inflow (it_id x) (stockMovements db') < 2 ^ 44"
  shows "0 \<le> it_quantityOnHand x \<and> it_quantityOnHand x = moved (it_id x) (stockMovements db') \<and>
    (it_valuationMethod x = FIFO \<longrightarrow> lotSum (it_id x) (stockLots db') = it_quantityOnHand x \<and>
      (\<forall>l \<in> set (stockLots db'). lot_itemId l = it_id x \<longrightarrow> 0 \<le> lot_remainingQuantity l))"
  using stock_reach_inv[OF assms(1,2)] assms(3,4) unfolding stockInv_def itemOk_def by blast

theorem stock_levels_witness: "moved ''i0'' (stockMovements demoConsumed) = 3000 \<and> lotSum ''i0'' (stockLots demoConsumed) = 3000"
proof -
  have m: "demoItem 3000 30000 \<in> set (stockItems demoConsumed)" by (simp add: demoConsumed_def demoStock_def)
  have f: "inflow (it_id (demoItem 3000 30000)) (stockMovements demoConsumed) < 2 ^ 44" by code_simp
  have p: "it_id (demoItem 3000 30000) = ''i0''" "it_quantityOnHand (demoItem 3000 30000) = 3000" "it_valuationMethod (demoItem 3000 30000) = FIFO"
    by (simp_all add: demoItem_def)
  show ?thesis using stock_levels[OF demo_stock_reach demo_stock_inv m f] unfolding p by simp
qed

text \<open>The stock tables stay well typed: ids and the codes of a company are unique, every movement
  belongs to an item of its company, and every lot to a FIFO item of its company and to a movement of
  that item.\<close>

lemma stock_tables:
  assumes "stock_step\<^sup>*\<^sup>* db db'" "stockInv db"
  shows "sorted_wrt (\<lambda>x y. \<not> stockItemClash x y) (stockItems db') \<and> distinct (map mv_id (stockMovements db')) \<and>
    distinct (map lot_id (stockLots db')) \<and> (\<forall>m \<in> set (stockMovements db'). movementTyped (stockItems db') m) \<and>
    (\<forall>l \<in> set (stockLots db'). lotTyped (stockItems db') (stockMovements db') (lotKey l))"
  using stock_reach_inv[OF assms] by (simp add: stockInv_def stockTyped_def)

lemma stock_tables_example: "distinct (map lot_id (stockLots demoConsumed)) \<and> length (stockLots demoConsumed) = 2"
  using stock_tables[OF demo_stock_reach demo_stock_inv] by (simp add: demoConsumed_def demoStock_def)


lemma demoParams_fields: "mp_env demoParams = demoEnv ''k''" "mp_companyId demoParams = it_companyId (demoItem q a)" "mp_mvId demoParams = ''k0''"
  by (simp add: demoParams_def) (simp add: demoParams_def demoItem_def demoActor_def, code_simp)

lemma demo_item_received: "demoItem 15000 23333 \<in> set (stockItems demoReceived)" "it_valuationMethod (demoItem 15000 23333) = FIFO"
    "inflow (it_id (demoItem 15000 23333)) (stockMovements demoReceived) < 2 ^ 44"
  by (simp_all add: demoReceived_def demoStock_def demoItem_def demoMove_def inflow_def)


text \<open>An issue is accepted exactly when it does not exceed the stock: on an item of the company,
  for \<open>k\<close> positive thousandths and a free movement id, the function succeeds if and only if \<open>k\<close> is at
  most the quantity on hand; in particular the lots of a FIFO item never run out first.\<close>

lemma outbound_accepted:
  assumes "exact_store (storeDec (mp_env pr))" "stockInv db" "item \<in> set (stockItems db)" "mp_companyId pr = it_companyId item"
    and "inflow (it_id item) (stockMovements db) < 2 ^ 44" "roundQty q = thousandths k" "0 < k"
    and "mp_mvId pr \<notin> mv_id ` set (stockMovements db)"
  shows "is_ok (applyOutboundMovement pr item q db) \<longleftrightarrow> k \<le> it_quantityOnHand item"
proof
  assume "is_ok (applyOutboundMovement pr item q db)"
  then obtain r db' where a: "applyOutboundMovement pr item q db = Inr (r, db')" by (auto simp: is_ok_iff)
  obtain n avg m c tot src table where "\<not> QUANTITY_EPS < fsub (roundQty q) (thousandths (it_quantityOnHand item))"
    using a by (rule outbound_InrD)
  then show "k \<le> it_quantityOnHand item" using eps_fsub[of "it_quantityOnHand item" k] onHand_bounds[OF assms(2,3,5)] assms(6,7) by simp
next
  let ?xs = "openLots (it_companyId item) (it_id item) (stockLots db)" and ?p = "it_quantityOnHand item"
  assume le: "k \<le> ?p"
  note p = onHand_bounds[OF assms(2,3,5)]
  have g: "\<not> roundQty q \<le> 0" "\<not> QUANTITY_EPS < fsub (roundQty q) (thousandths ?p)"
    using le eps_fsub[of ?p k] p assms(6,7) by simp_all
  have ins: "\<not> list_ex (\<lambda>n. mv_id n = mp_mvId pr) (stockMovements db)" using assms(8) unfolding list_ex_iff by (metis imageI)
  have fifo: "\<exists>v src table. consumeLots (storeDec (mp_env pr)) ?xs (roundQty q, 0, [], stockLots db) = (thousandths 0, v, src, table)"
    if v: "it_valuationMethod item = FIFO"
  proof -
    have su: "sum_list (map lot_remainingQuantity ?xs) = ?p" using openLots_total[OF assms(2,3) v assms(5)] by simp
    have nn: "\<forall>r \<in> set (map lot_remainingQuantity ?xs). 0 \<le> r" by (simp add: openLots_set)
    have t: "sum_list (takes k ?xs) = k" unfolding takes_def using nn su le assms(7) by (simp add: takeFifo_sum)
    have k44: "k \<le> 2 ^ 44" using le p by simp
    have "consumeLots (storeDec (mp_env pr)) ?xs (thousandths k, 0, [], stockLots db) =
        (thousandths (k - sum_list (takes k ?xs)), drawnCost 0 (drawnLots k ?xs), [] @ drawnLots k ?xs, drawLots k ?xs (stockLots db))"
      by (rule consumeLots_draws[OF assms(1) _ _ _ k44]) (use openLots_facts[OF assms(2,3) v assms(5)] assms(7) in auto)
    then show ?thesis using t assms(6) by simp
  qed
  show "is_ok (applyOutboundMovement pr item q db)"
  proof (cases "it_valuationMethod item")
    case FIFO
    then obtain v src table where "consumeLots (storeDec (mp_env pr)) ?xs (roundQty q, 0, [], stockLots db) = (thousandths 0, v, src, table)"
      using fifo by blast
    then show ?thesis using g ins FIFO assms(4)
      by (simp add: applyOutboundMovement_def Let_def insertMovement_def updateItem_def)
  next
    case CMP
    then show ?thesis using g ins by (simp add: applyOutboundMovement_def cmpCost_def Let_def insertMovement_def updateItem_def)
  qed
qed

lemma outbound_accepted_example: "\<not> is_ok (applyOutboundMovement demoParams (demoItem 15000 23333) 16 demoReceived)"
proof -
  have e: "exact_store (storeDec (mp_env demoParams))" unfolding demoParams_fields by (rule demoEnv_exact)
  have q: "roundQty 16 = thousandths 16000" by code_simp
  have f: "mp_mvId demoParams \<notin> mv_id ` set (stockMovements demoReceived)"
    by (simp add: demoParams_fields demoReceived_def demoStock_def demoMove_def)
  show ?thesis using outbound_accepted[OF e demo_stock_inv demo_item_received(1) demoParams_fields(2) demo_item_received(3) q _ f]
    by (simp add: demoItem_def)
qed

end
