(* ===== verification/StatementsCache.thy ===== *)
theory StatementsCache
  imports Prelude
begin

text \<open>
  The cache of the financial statements (lib/financial-statements-cache.ts): entries with a time to
  live, and a map of the computations in flight so that requests for the same key share one. The
  computation is asynchronous, so requests, reads of the data, completions, writes and invalidations
  interleave; the step relation has one rule per event. \<open>compute d k\<close> is what computing the
  statements of the key \<open>k\<close> from the data \<open>d\<close> gives; a running computation reads the data once.
\<close>

section \<open>State\<close>

record 'v cache_entry =
  ce_value :: 'v
  ce_expiresAt :: int

text \<open>A running computation: its key, the time to live of its entry, and the value once it has read
  the data.\<close>

record 'v cache_job =
  cj_key :: string
  cj_ttlMs :: int
  cj_value :: "'v option"

record ('d, 'v) cache_state =
  cs_data :: 'd
  cs_now :: int
  cs_cache :: "string \<Rightarrow> 'v cache_entry option"
  cs_inFlight :: "string \<Rightarrow> nat option"
  cs_jobs :: "nat \<Rightarrow> 'v cache_job option"
  cs_nextJob :: nat

datatype 'v cache_answer = Ready 'v | Waits nat

section \<open>Operations\<close>

definition cleanupExpired :: "int \<Rightarrow> (string \<Rightarrow> 'v cache_entry option) \<Rightarrow> string \<Rightarrow> 'v cache_entry option" where
  "cleanupExpired t cache k = (case cache k of None \<Rightarrow> None | Some e \<Rightarrow> if ce_expiresAt e \<le> t then None else Some e)"

definition getCachedFinancialStatements ::
  "string \<Rightarrow> int \<Rightarrow> ('d, 'v) cache_state \<Rightarrow> 'v cache_answer \<times> ('d, 'v) cache_state" where
  "getCachedFinancialStatements key ttlMs s =
     (let s = s\<lparr>cs_cache := cleanupExpired (cs_now s) (cs_cache s)\<rparr> in
      case (case cs_cache s key of None \<Rightarrow> None | Some e \<Rightarrow> if cs_now s < ce_expiresAt e then Some (ce_value e) else None) of
        Some v \<Rightarrow> (Ready v, s)
      | None \<Rightarrow> (case cs_inFlight s key of
            Some j \<Rightarrow> (Waits j, s)
          | None \<Rightarrow> (Waits (cs_nextJob s),
              s\<lparr> cs_inFlight := (cs_inFlight s)(key \<mapsto> cs_nextJob s),
                 cs_jobs := (cs_jobs s)(cs_nextJob s \<mapsto> \<lparr> cj_key = key, cj_ttlMs = ttlMs, cj_value = None \<rparr>),
                 cs_nextJob := cs_nextJob s + 1 \<rparr>)))"

text \<open>\<open>.then\<close> and \<open>.finally\<close> of a computation that has its value, and \<open>.finally\<close> of one that failed.\<close>

definition finishJob :: "nat \<Rightarrow> ('d, 'v) cache_state \<Rightarrow> ('d, 'v) cache_state option" where
  "finishJob j s = (case cs_jobs s j of None \<Rightarrow> None
     | Some job \<Rightarrow> (case cj_value job of None \<Rightarrow> None
         | Some v \<Rightarrow> Some (s\<lparr> cs_cache := (cs_cache s)(cj_key job \<mapsto> \<lparr> ce_value = v, ce_expiresAt = cs_now s + cj_ttlMs job \<rparr>),
             cs_inFlight := (cs_inFlight s)(cj_key job := None), cs_jobs := (cs_jobs s)(j := None) \<rparr>)))"

definition failJob :: "nat \<Rightarrow> ('d, 'v) cache_state \<Rightarrow> ('d, 'v) cache_state option" where
  "failJob j s = (case cs_jobs s j of None \<Rightarrow> None
     | Some job \<Rightarrow> Some (s\<lparr> cs_inFlight := (cs_inFlight s)(cj_key job := None), cs_jobs := (cs_jobs s)(j := None) \<rparr>))"

definition readData :: "('d \<Rightarrow> string \<Rightarrow> 'v) \<Rightarrow> nat \<Rightarrow> ('d, 'v) cache_state \<Rightarrow> ('d, 'v) cache_state option" where
  "readData compute j s = (case cs_jobs s j of None \<Rightarrow> None
     | Some job \<Rightarrow> if cj_value job = None
         then Some (s\<lparr>cs_jobs := (cs_jobs s)(j \<mapsto> job\<lparr>cj_value := Some (compute (cs_data s) (cj_key job))\<rparr>)\<rparr>) else None)"

definition invalidateCache :: "('d, 'v) cache_state \<Rightarrow> ('d, 'v) cache_state" where
  "invalidateCache s = s\<lparr> cs_cache := (\<lambda>_. None), cs_inFlight := (\<lambda>_. None) \<rparr>"

text \<open>The events: a request, the read, the end or the failure of a computation, time, the
  invalidation. A write commits new data (and is followed by an invalidation, a separate event).\<close>

inductive cache_step :: "('d \<Rightarrow> string \<Rightarrow> 'v) \<Rightarrow> ('d, 'v) cache_state \<Rightarrow> ('d, 'v) cache_state \<Rightarrow> bool" for compute where
  request: "getCachedFinancialStatements key ttl s = (a, s') \<Longrightarrow> cache_step compute s s'"
| read: "readData compute j s = Some s' \<Longrightarrow> cache_step compute s s'"
| finish: "finishJob j s = Some s' \<Longrightarrow> cache_step compute s s'"
| fail: "failJob j s = Some s' \<Longrightarrow> cache_step compute s s'"
| time: "cs_now s \<le> t \<Longrightarrow> cache_step compute s (s\<lparr>cs_now := t\<rparr>)"
| invalidate: "cache_step compute s (invalidateCache s)"

inductive write_step :: "('d, 'v) cache_state \<Rightarrow> ('d, 'v) cache_state \<Rightarrow> bool" where
  commit: "write_step s (s\<lparr>cs_data := d\<rparr>)"

inductive_cases cache_stepE: "cache_step compute s s'"

definition emptyCache :: "'d \<Rightarrow> int \<Rightarrow> ('d, 'v) cache_state" where
  "emptyCache d t = \<lparr> cs_data = d, cs_now = t, cs_cache = (\<lambda>_. None), cs_inFlight = (\<lambda>_. None), cs_jobs = (\<lambda>_. None), cs_nextJob = 0 \<rparr>"

section \<open>Invariants\<close>

text \<open>Every computation in flight is running and has the key it is filed under.\<close>

definition flightOk :: "('d, 'v) cache_state \<Rightarrow> bool" where
  "flightOk s \<longleftrightarrow> (\<forall>k j. cs_inFlight s k = Some j \<longrightarrow> (\<exists>job. cs_jobs s j = Some job \<and> cj_key job = k)) \<and>
     (\<forall>j. cs_nextJob s \<le> j \<longrightarrow> cs_jobs s j = None)"

text \<open>Without a write in between, everything computed or cached is what the data gives.\<close>

definition currentOk :: "('d \<Rightarrow> string \<Rightarrow> 'v) \<Rightarrow> ('d, 'v) cache_state \<Rightarrow> bool" where
  "currentOk compute s \<longleftrightarrow> (\<forall>k e. cs_cache s k = Some e \<longrightarrow> ce_value e = compute (cs_data s) k) \<and>
     (\<forall>j job v. cs_jobs s j = Some job \<longrightarrow> cj_value job = Some v \<longrightarrow> v = compute (cs_data s) (cj_key job))"

lemma cleanup_Some: "cleanupExpired t c k = Some e \<longleftrightarrow> c k = Some e \<and> t < ce_expiresAt e"
  by (auto simp: cleanupExpired_def split: option.splits)

lemma flight_fresh: "flightOk s \<Longrightarrow> cs_inFlight s k \<noteq> Some (cs_nextJob s)"
  by (force simp: flightOk_def)

lemma cache_get_flight:
  assumes "flightOk s" "getCachedFinancialStatements key ttl s = (a, s')"
  shows "flightOk s'" "a = Waits j \<Longrightarrow> \<exists>job. cs_jobs s' j = Some job \<and> cj_key job = key"
  using assms flight_fresh[OF assms(1)] by (auto simp: getCachedFinancialStatements_def flightOk_def Let_def split: option.splits if_splits)

lemma flight_step: "cache_step compute s s' \<Longrightarrow> flightOk s \<Longrightarrow> flightOk s'"
proof (induction rule: cache_step.induct)
  case request then show ?case by (rule cache_get_flight(1)[rotated])
next
  case read then show ?case by (fastforce simp: readData_def flightOk_def split: option.splits if_splits)
next
  case finish then show ?case by (fastforce simp: finishJob_def flightOk_def split: option.splits if_splits)
next
  case fail then show ?case by (fastforce simp: failJob_def flightOk_def split: option.splits if_splits)
qed (simp_all add: flightOk_def invalidateCache_def)

lemma write_step_data: "write_step s s' \<Longrightarrow> flightOk s \<Longrightarrow> flightOk s'"
  by (induction rule: write_step.induct) (simp add: flightOk_def)

lemma current_step: "cache_step compute s s' \<Longrightarrow> currentOk compute s \<Longrightarrow> currentOk compute s' \<and> cs_data s' = cs_data s"
proof (induction rule: cache_step.induct)
  case (request key ttl s a s')
  then show ?case
    by (fastforce simp: getCachedFinancialStatements_def currentOk_def Let_def cleanup_Some split: option.splits if_splits)
next
  case read then show ?case by (fastforce simp: readData_def currentOk_def split: option.splits if_splits)
next
  case finish then show ?case by (fastforce simp: finishJob_def currentOk_def split: option.splits if_splits)
next
  case fail then show ?case by (fastforce simp: failJob_def currentOk_def split: option.splits if_splits)
qed (simp_all add: currentOk_def invalidateCache_def)

lemma cache_reach_inv:
  "(cache_step compute)\<^sup>*\<^sup>* (emptyCache d t) s \<Longrightarrow> flightOk s \<and> currentOk compute s \<and> cs_data s = d"
proof (induction rule: rtranclp_induct)
  case base
  show ?case by (simp add: flightOk_def currentOk_def emptyCache_def)
next
  case (step s1 s2)
  then show ?case using flight_step current_step by metis
qed

lemma getCached_cases:
  "getCachedFinancialStatements key ttl s = (Ready v, s') \<Longrightarrow> \<exists>e. cs_cache s key = Some e \<and> ce_value e = v \<and> cs_now s < ce_expiresAt e"
  by (auto simp: getCachedFinancialStatements_def Let_def cleanup_Some split: option.splits if_splits)

section \<open>Properties\<close>



text \<open>C14: The cache is not transparent across a write: a computation that read the old data and ends
  after the commit and its invalidation puts the old statements into the cache, and they are served
  until they expire.\<close>

theorem statements_stale:
  fixes compute :: "'d \<Rightarrow> string \<Rightarrow> 'v"
  assumes "compute d k \<noteq> compute d' k" "0 < ttl"
  shows "\<exists>s1 s2 s3. (cache_step compute)\<^sup>*\<^sup>* (emptyCache d t) s1 \<and>
    (cache_step compute)\<^sup>*\<^sup>* (invalidateCache (s1\<lparr>cs_data := d'\<rparr>)) s2 \<and> cs_data s2 = d' \<and>
    getCachedFinancialStatements k ttl s2 = (Ready (compute d k), s3) \<and> compute d k \<noteq> compute (cs_data s2) k"
proof -
  let ?job = "\<lambda>v. \<lparr> cj_key = k, cj_ttlMs = ttl, cj_value = v \<rparr> :: 'v cache_job"
  define sa :: "('d, 'v) cache_state" where "sa = (emptyCache d t)\<lparr> cs_inFlight := [k \<mapsto> 0], cs_jobs := [0 \<mapsto> ?job None], cs_nextJob := 1 \<rparr>"
  define sb where "sb = sa\<lparr>cs_jobs := [0 \<mapsto> ?job (Some (compute d k))]\<rparr>"
  define sc where "sc = invalidateCache (sb\<lparr>cs_data := d'\<rparr>)"
  define sf where "sf = sc\<lparr> cs_cache := [k \<mapsto> \<lparr> ce_value = compute d k, ce_expiresAt = t + ttl \<rparr>], cs_jobs := (\<lambda>_. None) \<rparr>"
  have "getCachedFinancialStatements k ttl (emptyCache d t) = (Waits 0, sa)"
    by (simp add: sa_def getCachedFinancialStatements_def emptyCache_def Let_def cleanupExpired_def fun_eq_iff)
  then have 1: "cache_step compute (emptyCache d t) sa" by (rule cache_step.request)
  have "readData compute 0 sa = Some sb" by (simp add: readData_def sa_def sb_def emptyCache_def fun_eq_iff)
  then have 2: "cache_step compute sa sb" by (rule cache_step.read)
  have "finishJob 0 sc = Some sf" by (simp add: finishJob_def sa_def sb_def sc_def sf_def emptyCache_def invalidateCache_def fun_eq_iff)
  then have 3: "cache_step compute sc sf" by (rule cache_step.finish)
  have 4: "getCachedFinancialStatements k ttl sf = (Ready (compute d k), sf)"
    using assms(2) by (simp add: getCachedFinancialStatements_def sa_def sb_def sc_def sf_def emptyCache_def invalidateCache_def Let_def cleanupExpired_def fun_eq_iff)
  have 5: "(cache_step compute)\<^sup>*\<^sup>* (emptyCache d t) sb" using 1 2 by (meson rtranclp.simps)
  have 6: "(cache_step compute)\<^sup>*\<^sup>* (invalidateCache (sb\<lparr>cs_data := d'\<rparr>)) sf" using 3 unfolding sc_def by (rule r_into_rtranclp)
  have 7: "cs_data sf = d'" by (simp add: sa_def sb_def sc_def sf_def emptyCache_def invalidateCache_def)
  show ?thesis using 4 5 6 7 assms(1) by blast
qed

theorem statements_stale_witness:
  "\<exists>s2 s3. cs_data s2 = (1::nat) \<and> getCachedFinancialStatements ''k'' 5 s2 = (Ready (0::nat), s3)"
  using statements_stale[of "\<lambda>d _. d" 0 "''k''" 1 5 0] by (metis zero_neq_one zero_less_numeral)

text \<open>A request that waits can always be answered: its computation is running, it can read the
  data if it has not, it can end, and then every request for the key within the time to live is
  answered with what it computed. This holds in every state the events and the writes reach.\<close>

lemma statements_answered:
  assumes "(\<lambda>x y. cache_step compute x y \<or> write_step x y)\<^sup>*\<^sup>* (emptyCache d t) s"
    and "getCachedFinancialStatements key ttl s = (Waits j, s1)" "\<forall>i job. cs_jobs s i = Some job \<longrightarrow> 0 < cj_ttlMs job" "0 < ttl"
  shows "\<exists>s2 s3 v. (s2 = s1 \<or> readData compute j s1 = Some s2) \<and> finishJob j s2 = Some s3 \<and>
    fst (getCachedFinancialStatements key ttl' s3) = Ready v \<and> (s2 \<noteq> s1 \<longrightarrow> v = compute (cs_data s1) key)"
proof -
  have fl: "flightOk s" using assms(1)
  proof (induction rule: rtranclp_induct)
    case base show ?case by (simp add: flightOk_def emptyCache_def)
  next
    case step then show ?case using flight_step write_step_data by blast
  qed
  obtain job where job: "cs_jobs s1 j = Some job" "cj_key job = key" using cache_get_flight(2)[OF fl assms(2)] by auto
  have ttl: "0 < cj_ttlMs job" using assms(2-4) job(1)
    by (auto simp: getCachedFinancialStatements_def Let_def split: option.splits if_splits)
  show ?thesis
  proof (cases "cj_value job")
    case None
    let ?v = "compute (cs_data s1) key"
    let ?s2 = "s1\<lparr>cs_jobs := (cs_jobs s1)(j \<mapsto> job\<lparr>cj_value := Some ?v\<rparr>)\<rparr>"
    have r: "readData compute j s1 = Some ?s2" using job None by (simp add: readData_def)
    obtain s3 where f: "finishJob j ?s2 = Some s3" by (simp add: finishJob_def)
    then have "fst (getCachedFinancialStatements key ttl' s3) = Ready ?v"
      using job ttl by (auto simp: finishJob_def getCachedFinancialStatements_def Let_def cleanupExpired_def)
    then show ?thesis using r f by blast
  next
    case (Some v)
    obtain s3 where f: "finishJob j s1 = Some s3" using job Some by (simp add: finishJob_def)
    then have "fst (getCachedFinancialStatements key ttl' s3) = Ready v"
      using job ttl Some by (auto simp: finishJob_def getCachedFinancialStatements_def Let_def cleanupExpired_def)
    then show ?thesis using f by blast
  qed
qed

lemma statements_answered_example:
  "\<exists>s2 s3 v. finishJob 0 (s2 :: (nat, nat) cache_state) = Some s3 \<and> fst (getCachedFinancialStatements ''k'' 5 s3) = Ready v"
proof -
  let ?g = "getCachedFinancialStatements ''k'' 5 (emptyCache (0::nat) 0 :: (nat, nat) cache_state)"
  have g: "?g = (Waits 0, snd ?g)" by (simp add: getCachedFinancialStatements_def emptyCache_def Let_def cleanupExpired_def)
  have "\<exists>s2 s3 v. (s2 = snd ?g \<or> readData (\<lambda>d _. d) 0 (snd ?g) = Some s2) \<and> finishJob 0 s2 = Some s3 \<and>
    fst (getCachedFinancialStatements ''k'' 5 s3) = Ready v \<and> (s2 \<noteq> snd ?g \<longrightarrow> v = cs_data (snd ?g))"
    by (rule statements_answered[OF rtranclp.rtrancl_refl g]) (simp_all add: emptyCache_def)
  then show ?thesis by blast
qed

end
