(* ===== verification/ExportQueue.thy ===== *)
theory ExportQueue
  imports EntryNumbers LedgerHistory
begin

text \<open>
  Export jobs: the routes that create and download them (routes/export-jobs.ts) and the queue that
  runs them (lib/export-job-queue.ts), by polling or through BullMQ with several workers. Producing
  the document (services/export-jobs-service.ts and the report builders) is the parameter \<open>exec\<close>: an
  error message or the result. A worker's run has three database steps (find, claim, complete), and
  the steps of different workers interleave; the
  process of a worker may also stop between two of them.
\<close>

section \<open>Tables\<close>

datatype ExportJobStatus = QUEUED | PROCESSING | DONE | FAILED
datatype ExportJobKind = FINANCIAL_PDF | FINANCIAL_EXCEL | FINANCIAL_XML | ANAF_D300 | ANAF_D394 | ANAF_D112 | ANAF_D406

record export_job =
  ej_id :: id
  ej_companyId :: id
  ej_createdById :: id
  ej_kind :: ExportJobKind
  ej_status :: ExportJobStatus
  ej_attempts :: int
  ej_maxAttempts :: int
  ej_errorMessage :: "string option"
  ej_resultMimeType :: "string option"
  ej_resultFilename :: "string option"
  ej_resultSizeBytes :: "nat option"
  ej_resultStorageUrl :: "string option"
  ej_resultSignedUrl :: "string option"
  ej_resultSignedUrlExpiresAt :: "date option"
  ej_createdAt :: date
  ej_startedAt :: "date option"
  ej_finishedAt :: "date option"

record exporting = ledger +
  exportJobs :: "export_job list"

record export_result =
  er_mimeType :: string
  er_filename :: string
  er_size :: nat

section \<open>Routes\<close>

record export_job_req =
  xj_kind :: ExportJobKind
  xj_period :: "string option"
  xj_maxAttempts :: int

definition isAnafKind :: "ExportJobKind \<Rightarrow> bool" where
  "isAnafKind k \<longleftrightarrow> k \<in> {ANAF_D300, ANAF_D394, ANAF_D112, ANAF_D406}"

definition createExportJobSchema :: "export_job_req \<Rightarrow> bool" where
  "createExportJobSchema r \<longleftrightarrow> 1 \<le> xj_maxAttempts r \<and> xj_maxAttempts r \<le> 10 \<and>
     (case xj_period r of None \<Rightarrow> \<not> isAnafKind (xj_kind r) | Some p \<Rightarrow> matchPeriod p \<noteq> None)"

definition createExportJob :: "env \<Rightarrow> actor \<Rightarrow> export_job_req \<Rightarrow> 'z exporting_scheme \<Rightarrow> http_error + (export_job \<times> 'z exporting_scheme)" where
  "createExportJob env u r db =
     (if \<not> createExportJobSchema r then Inl (badRequest ''Date invalide pentru crearea job-ului de export.'') else
      let job = \<lparr> ej_id = uuid env 0, ej_companyId = act_company u, ej_createdById = act_user u, ej_kind = xj_kind r,
            ej_status = QUEUED, ej_attempts = 0, ej_maxAttempts = xj_maxAttempts r, ej_errorMessage = None,
            ej_resultMimeType = None, ej_resultFilename = None, ej_resultSizeBytes = None, ej_resultStorageUrl = None,
            ej_resultSignedUrl = None, ej_resultSignedUrlExpiresAt = None, ej_createdAt = now env, ej_startedAt = None,
            ej_finishedAt = None \<rparr>
      in if list_ex (\<lambda>x. ej_id x = ej_id job) (exportJobs db) then Inl uniqueViolation else
         Inr (job, writeAudit u ''export_jobs'' (Some (ej_id job)) ''CREATE'' (Some ''queue-export'')
           (db\<lparr>exportJobs := exportJobs db @ [job]\<rparr>)))"

text \<open>\<open>GET /:id/download\<close>: the address the client is redirected to.\<close>

definition downloadExport :: "env \<Rightarrow> actor \<Rightarrow> id \<Rightarrow> 'z exporting_scheme \<Rightarrow> http_error + string" where
  "downloadExport env u i db =
     (case find (\<lambda>x. ej_id x = i \<and> ej_companyId x = act_company u) (exportJobs db) of
        None \<Rightarrow> Inl (notFound ''Job-ul de export nu exista.'')
      | Some job \<Rightarrow>
          if ej_status job \<noteq> DONE then Inl (conflict ''Rezultatul job-ului nu este inca disponibil pentru descarcare.'') else
          let signedUrlExpired = (case ej_resultSignedUrlExpiresAt job of None \<Rightarrow> False | Some t \<Rightarrow> t \<le> now env + 30000)
          in case ej_resultSignedUrl job of
               Some url \<Rightarrow> if url \<noteq> [] \<and> \<not> signedUrlExpired then Inr url
                 else if ej_resultStorageUrl job \<noteq> None then Inl (conflict ''URL-ul de descarcare a expirat.'')
                 else Inl (conflict ''Rezultatul exportului nu este disponibil pentru descarcare in acest mediu.'')
             | None \<Rightarrow> if ej_resultStorageUrl job \<noteq> None then Inl (conflict ''URL-ul de descarcare a expirat.'')
                 else Inl (conflict ''Rezultatul exportului nu este disponibil pentru descarcare in acest mediu.''))"

section \<open>One run of a worker\<close>

text \<open>\<open>findFirst\<close>: the job asked for, or the oldest queued one.\<close>

definition findQueuedJob :: "id option \<Rightarrow> 'z exporting_scheme \<Rightarrow> export_job option" where
  "findQueuedJob forced db =
     (case forced of
        Some i \<Rightarrow> find (\<lambda>x. ej_id x = i \<and> ej_status x = QUEUED) (exportJobs db)
      | None \<Rightarrow> (case sort_key ej_createdAt (filter (\<lambda>x. ej_status x = QUEUED) (exportJobs db)) of
            [] \<Rightarrow> None | x # _ \<Rightarrow> Some x))"

definition claimData :: "date \<Rightarrow> export_job \<Rightarrow> export_job" where
  "claimData t x = x\<lparr> ej_status := PROCESSING, ej_startedAt := Some t, ej_finishedAt := None, ej_errorMessage := None,
     ej_resultMimeType := None, ej_resultFilename := None, ej_resultSizeBytes := None, ej_resultStorageUrl := None,
     ej_resultSignedUrl := None, ej_resultSignedUrlExpiresAt := None, ej_attempts := ej_attempts x + 1 \<rparr>"

text \<open>\<open>updateMany\<close> on the queued job, and then \<open>findUnique\<close>: \<open>None\<close> when another worker was faster.\<close>

definition claimJob :: "id \<Rightarrow> date \<Rightarrow> 'z exporting_scheme \<Rightarrow> export_job option \<times> 'z exporting_scheme" where
  "claimJob i t db =
     (if list_ex (\<lambda>x. ej_id x = i \<and> ej_status x = QUEUED) (exportJobs db)
      then let db' = db\<lparr>exportJobs := updateWhere (\<lambda>x. ej_id x = i \<and> ej_status x = QUEUED) (claimData t) (exportJobs db)\<rparr>
        in (find (\<lambda>x. ej_id x = i) (exportJobs db'), db')
      else (None, db))"

definition shouldRetry :: "export_job \<Rightarrow> bool" where
  "shouldRetry job \<longleftrightarrow> ej_attempts job < ej_maxAttempts job"

text \<open>The update after the run, and the retry through the queue; \<open>add\<close> is \<open>exportQueue.add\<close> (\<open>None\<close>
  in polling mode).\<close>

definition retryDelayMs :: "int \<Rightarrow> int" where
  "retryDelayMs attempts = min 30000 (3000 * max attempts 1)"

definition completeData :: "export_job \<Rightarrow> string + export_result \<Rightarrow> date \<Rightarrow> export_job \<Rightarrow> export_job" where
  "completeData job outcome t x =
     (case outcome of
        Inr r \<Rightarrow> x\<lparr> ej_status := DONE, ej_resultMimeType := Some (er_mimeType r), ej_resultFilename := Some (er_filename r),
          ej_resultSizeBytes := Some (er_size r), ej_resultStorageUrl := None, ej_resultSignedUrl := None,
          ej_resultSignedUrlExpiresAt := None, ej_errorMessage := None, ej_finishedAt := Some t \<rparr>
      | Inl msg \<Rightarrow> x\<lparr> ej_status := (if shouldRetry job then QUEUED else FAILED), ej_errorMessage := Some (take 400 msg),
          ej_startedAt := (if shouldRetry job then None else ej_startedAt job),
          ej_finishedAt := (if shouldRetry job then None else Some t) \<rparr>)"

definition completeJob :: "export_job \<Rightarrow> string + export_result \<Rightarrow> date \<Rightarrow> 'z exporting_scheme \<Rightarrow> 'z exporting_scheme" where
  "completeJob job outcome t db =
     db\<lparr>exportJobs := updateWhere (\<lambda>x. ej_id x = ej_id job) (completeData job outcome t) (exportJobs db)\<rparr>"

definition enqueueRetry :: "(id \<Rightarrow> int \<Rightarrow> 'q \<Rightarrow> 'q) option \<Rightarrow> export_job \<Rightarrow> string + export_result \<Rightarrow> 'q \<Rightarrow> 'q" where
  "enqueueRetry add job outcome q =
     (case (add, outcome) of (Some f, Inl _) \<Rightarrow> if shouldRetry job then f (ej_id job) (retryDelayMs (ej_attempts job)) q else q | _ \<Rightarrow> q)"

definition processSingleQueuedJob ::
  "(export_job \<Rightarrow> string + export_result) \<Rightarrow> (id \<Rightarrow> int \<Rightarrow> 'q \<Rightarrow> 'q) option \<Rightarrow> id option \<Rightarrow> date \<Rightarrow>
   'z exporting_scheme \<Rightarrow> 'q \<Rightarrow> 'z exporting_scheme \<times> 'q" where
  "processSingleQueuedJob exec add forced t db q =
     (case findQueuedJob forced db of None \<Rightarrow> (db, q)
      | Some queued \<Rightarrow> (case claimJob (ej_id queued) t db of
            (None, db) \<Rightarrow> (db, q)
          | (Some job, db) \<Rightarrow> (completeJob job (exec job) t db, enqueueRetry add job (exec job) q)))"

text \<open>The polling worker: \<open>n\<close> ticks, the \<open>i\<close>-th at the time \<open>clock i\<close> with the outcomes \<open>exec i\<close>.\<close>

fun pollTicks :: "(nat \<Rightarrow> export_job \<Rightarrow> string + export_result) \<Rightarrow> (nat \<Rightarrow> date) \<Rightarrow> nat \<Rightarrow> nat \<Rightarrow> 'z exporting_scheme \<Rightarrow> 'z exporting_scheme" where
  "pollTicks exec clock i 0 db = db"
| "pollTicks exec clock i (Suc n) db =
     pollTicks exec clock (Suc i) n (fst (processSingleQueuedJob (exec i) None None (clock i) db ()))"

section \<open>Interleaved workers\<close>

datatype worker = Idle | Found id | Running export_job

record 'z export_system =
  es_db :: "'z exporting_scheme"
  es_workers :: "nat \<Rightarrow> worker"

inductive export_step :: "'z export_system \<Rightarrow> 'z export_system \<Rightarrow> bool" where
  create: "createExportJob env u r (es_db s) = Inr (job, db) \<Longrightarrow> export_step s (s\<lparr>es_db := db\<rparr>)"
| find: "es_workers s w = Idle \<Longrightarrow> findQueuedJob forced (es_db s) = Some job \<Longrightarrow>
     export_step s (s\<lparr>es_workers := (es_workers s)(w := Found (ej_id job))\<rparr>)"
| claim: "es_workers s w = Found i \<Longrightarrow> claimJob i t (es_db s) = (Some job, db) \<Longrightarrow>
     export_step s (s\<lparr> es_db := db, es_workers := (es_workers s)(w := Running job) \<rparr>)"
| lose: "es_workers s w = Found i \<Longrightarrow> claimJob i t (es_db s) = (None, db) \<Longrightarrow>
     export_step s (s\<lparr> es_db := db, es_workers := (es_workers s)(w := Idle) \<rparr>)"
| complete: "es_workers s w = Running job \<Longrightarrow>
     export_step s (s\<lparr> es_db := completeJob job outcome t (es_db s), es_workers := (es_workers s)(w := Idle) \<rparr>)"
| crash: "export_step s (s\<lparr>es_workers := (es_workers s)(w := Idle)\<rparr>)"

inductive_cases export_stepE: "export_step s s'"

section \<open>Invariant\<close>

definition jobOk :: "export_job \<Rightarrow> bool" where
  "jobOk x \<longleftrightarrow> ej_resultStorageUrl x = None \<and> ej_resultSignedUrl x = None \<and> 0 \<le> ej_attempts x \<and>
     ej_attempts x \<le> ej_maxAttempts x \<and> 1 \<le> ej_maxAttempts x \<and> (ej_status x = QUEUED \<longrightarrow> ej_attempts x < ej_maxAttempts x) \<and>
     (ej_status x \<noteq> QUEUED \<longrightarrow> 1 \<le> ej_attempts x) \<and> (ej_status x = FAILED \<longrightarrow> ej_attempts x = ej_maxAttempts x)"

definition jobsOk :: "export_job list \<Rightarrow> bool" where
  "jobsOk xs \<longleftrightarrow> distinct (map ej_id xs) \<and> (\<forall>x \<in> set xs. jobOk x)"

definition exportInv :: "'z export_system \<Rightarrow> bool" where
  "exportInv s \<longleftrightarrow> jobsOk (exportJobs (es_db s)) \<and>
     (\<forall>w job. es_workers s w = Running job \<longrightarrow> job \<in> set (exportJobs (es_db s)) \<and> ej_status job = PROCESSING) \<and>
     (\<forall>w w' job job'. es_workers s w = Running job \<and> es_workers s w' = Running job' \<and> w \<noteq> w' \<longrightarrow> ej_id job \<noteq> ej_id job')"

lemma jobsOk_update:
  assumes "jobsOk xs" "\<And>x. ej_id (f x) = ej_id x" "\<And>x. x \<in> set xs \<Longrightarrow> p x \<Longrightarrow> jobOk (f x)"
  shows "jobsOk (updateWhere p f xs)"
proof -
  have "map ej_id (updateWhere p f xs) = map ej_id xs" by (rule map_updateWhere) (simp add: assms(2))
  then show ?thesis using assms by (auto simp: jobsOk_def updateWhere_set)
qed

lemma jobsOk_unique: "jobsOk xs \<Longrightarrow> x \<in> set xs \<Longrightarrow> y \<in> set xs \<Longrightarrow> ej_id x = ej_id y \<Longrightarrow> x = y"
  by (auto simp: jobsOk_def distinct_map inj_on_def)

lemma claimJob_SomeD:
  assumes "claimJob i t db = (Some job, db')" "jobsOk (exportJobs db)"
  obtains x where "x \<in> set (exportJobs db)" "ej_id x = i" "ej_status x = QUEUED" "job = claimData t x"
    "exportJobs db' = updateWhere (\<lambda>y. ej_id y = i \<and> ej_status y = QUEUED) (claimData t) (exportJobs db)"
    "db' = db\<lparr>exportJobs := exportJobs db'\<rparr>"
proof -
  let ?u = "updateWhere (\<lambda>y. ej_id y = i \<and> ej_status y = QUEUED) (claimData t) (exportJobs db)"
  obtain x where x: "x \<in> set (exportJobs db)" "ej_id x = i" "ej_status x = QUEUED"
    and d: "db' = db\<lparr>exportJobs := ?u\<rparr>" "find (\<lambda>x. ej_id x = i) ?u = Some job"
    using assms(1) by (auto simp: claimJob_def Let_def list_ex_iff split: if_splits)
  have "job \<in> set ?u" "ej_id job = i" using find_SomeD[OF d(2)] by auto
  then obtain y where y: "y \<in> set (exportJobs db)" "job = (if ej_id y = i \<and> ej_status y = QUEUED then claimData t y else y)"
    by (auto simp: updateWhere_set)
  then have "ej_id y = i" using \<open>ej_id job = i\<close> by (auto simp: claimData_def split: if_splits)
  then have "y = x" using jobsOk_unique[OF assms(2) y(1) x(1)] x(2) by simp
  then have "job = claimData t x" using y x by simp
  then show thesis using that x d(1) by simp
qed

lemma claimData_ok: "jobOk x \<Longrightarrow> ej_status x = QUEUED \<Longrightarrow> jobOk (claimData t x) \<and> ej_status (claimData t x) = PROCESSING"
  by (auto simp: jobOk_def claimData_def)

lemma claimData_id [simp]: "ej_id (claimData t x) = ej_id x" "ej_attempts (claimData t x) = ej_attempts x + 1"
  "ej_maxAttempts (claimData t x) = ej_maxAttempts x" "ej_status (claimData t x) = PROCESSING"
  by (simp_all add: claimData_def)

lemma completeData_fields [simp]: "ej_id (completeData job outcome t x) = ej_id x"
    "ej_attempts (completeData job outcome t x) = ej_attempts x" "ej_maxAttempts (completeData job outcome t x) = ej_maxAttempts x"
    "ej_status (completeData job outcome t x) = (case outcome of Inr r \<Rightarrow> DONE | Inl _ \<Rightarrow> if shouldRetry job then QUEUED else FAILED)"
  by (simp_all add: completeData_def split: sum.splits)

lemma completeData_ok: "jobOk job \<Longrightarrow> ej_status job = PROCESSING \<Longrightarrow> jobOk (completeData job outcome t job)"
  by (auto simp: jobOk_def completeData_def shouldRetry_def split: sum.splits)

lemma jobsOk_claim:
  assumes "jobsOk (exportJobs db)" "claimJob i t db = (Some job, db')"
  shows "jobsOk (exportJobs db')" "job \<in> set (exportJobs db')" "ej_status job = PROCESSING"
proof -
  obtain x where x: "x \<in> set (exportJobs db)" "ej_id x = i" "ej_status x = QUEUED" "job = claimData t x"
    and u: "exportJobs db' = updateWhere (\<lambda>y. ej_id y = i \<and> ej_status y = QUEUED) (claimData t) (exportJobs db)"
    using assms(2,1) by (rule claimJob_SomeD)
  show "jobsOk (exportJobs db')" unfolding u
    using assms(1) claimData_ok by (intro jobsOk_update) (auto simp: jobsOk_def)
  show "job \<in> set (exportJobs db')" "ej_status job = PROCESSING" using x by (force simp: u updateWhere_set)+
qed

lemma jobsOk_complete:
  assumes "jobsOk (exportJobs db)" "job \<in> set (exportJobs db)" "ej_status job = PROCESSING"
  shows "jobsOk (exportJobs (completeJob job outcome t db))"
proof -
  have "jobOk (completeData job outcome t x)" if "x \<in> set (exportJobs db)" "ej_id x = ej_id job" for x
    using jobsOk_unique[OF assms(1) that(1) assms(2) that(2)] assms completeData_ok by (simp add: jobsOk_def)
  then have "jobsOk (updateWhere (\<lambda>x. ej_id x = ej_id job) (completeData job outcome t) (exportJobs db))"
    using assms(1) by (intro jobsOk_update) simp_all
  then show ?thesis by (simp add: completeJob_def)
qed

lemma createExportJob_InrD:
  assumes "createExportJob env u r db = Inr (job, db')"
  shows "exportJobs db' = exportJobs db @ [job]" "\<forall>x \<in> set (exportJobs db). ej_id x \<noteq> ej_id job" "jobOk job"
    "ej_status job = QUEUED"
  using assms by (auto simp: createExportJob_def createExportJobSchema_def Let_def jobOk_def writeAudit_def list_ex_iff
      split: if_splits)

lemma createExportJob_ok:
  assumes "createExportJob env u r db = Inr (job, db')" "jobsOk (exportJobs db)"
  shows "jobsOk (exportJobs db')" "set (exportJobs db) \<subseteq> set (exportJobs db')"
  using createExportJob_InrD[OF assms(1)] assms(2) by (fastforce simp: jobsOk_def)+

lemma export_step_inv: "export_step s s' \<Longrightarrow> exportInv s \<Longrightarrow> exportInv s'"
proof (induction rule: export_step.induct)
  case (create env u r s job db)
  then show ?case using createExportJob_ok[OF create(1)] by (auto simp: exportInv_def)
next
  case (find s w forced job)
  then show ?case by (auto simp: exportInv_def)
next
  case (claim s w i t job db)
  obtain x where x: "x \<in> set (exportJobs (es_db s))" "ej_id x = i" "ej_status x = QUEUED" "job = claimData t x"
    and u: "exportJobs db = updateWhere (\<lambda>y. ej_id y = i \<and> ej_status y = QUEUED) (claimData t) (exportJobs (es_db s))"
    using claim by (auto simp: exportInv_def elim: claimJob_SomeD)
  have ok: "jobsOk (exportJobs (es_db s))" using claim by (simp add: exportInv_def)
  note c = jobsOk_claim[OF ok claim(2)]
  have other: "j \<in> set (exportJobs db) \<and> ej_id j \<noteq> i" if j: "es_workers s v = Running j" for v j
  proof -
    have "j \<in> set (exportJobs (es_db s))" "ej_status j = PROCESSING" using claim(3) j by (auto simp: exportInv_def)
    moreover have "ej_id j \<noteq> i" using jobsOk_unique[OF ok] x calculation by fastforce
    ultimately show ?thesis by (force simp: u updateWhere_set)
  qed
  have "ej_id job = i" using x by simp
  then show ?case using claim(3) c other unfolding exportInv_def by (auto split: if_splits) metis+
next
  case (lose s w i t db)
  then have "db = es_db s" by (auto simp: claimJob_def Let_def find_None_iff updateWhere_set list_ex_iff claimData_def split: if_splits)
  then show ?case using lose by (auto simp: exportInv_def)
next
  case (complete s w job outcome t)
  have ok: "jobsOk (exportJobs (es_db s))" "job \<in> set (exportJobs (es_db s))" "ej_status job = PROCESSING"
    using complete by (auto simp: exportInv_def)
  have other: "j \<in> set (exportJobs (completeJob job outcome t (es_db s)))" if j: "es_workers s v = Running j" "v \<noteq> w" for v j
  proof -
    have "j \<in> set (exportJobs (es_db s))" "ej_id j \<noteq> ej_id job" using complete j by (auto simp: exportInv_def)
    then show ?thesis by (force simp: completeJob_def updateWhere_set)
  qed
  show ?case using complete jobsOk_complete[OF ok] other unfolding exportInv_def by (auto split: if_splits)
next
  case (crash s w)
  then show ?case by (auto simp: exportInv_def split: if_splits)
qed

lemma export_reach_inv: "export_step\<^sup>*\<^sup>* s s' \<Longrightarrow> exportInv s \<Longrightarrow> exportInv s'"
  by (induction rule: rtranclp_induct) (auto intro: export_step_inv)

lemma export_reach_empty:
  "export_step\<^sup>*\<^sup>* s0 s \<Longrightarrow> exportJobs (es_db s0) = [] \<Longrightarrow> (\<And>w. es_workers s0 w = Idle) \<Longrightarrow> exportInv s"
  by (erule export_reach_inv) (simp add: exportInv_def jobsOk_def)

text \<open>C15: Whatever the interleaving of requests, of any number of workers and of stops of their
  processes, starting from an empty table: two workers never run the same job, a job that is running
  is marked as in progress, and no job is attempted more than its maximum (a failed job used all
  its attempts).\<close>

theorem export_exclusive:
  assumes "exportJobs (es_db s0) = []" "\<And>w. es_workers s0 w = Idle" "export_step\<^sup>*\<^sup>* s0 s"
  shows "(\<forall>w w' job job'. es_workers s w = Running job \<and> es_workers s w' = Running job' \<and> ej_id job = ej_id job' \<longrightarrow> w = w') \<and>
    (\<forall>w job. es_workers s w = Running job \<longrightarrow> job \<in> set (exportJobs (es_db s)) \<and> ej_status job = PROCESSING) \<and>
    (\<forall>x \<in> set (exportJobs (es_db s)). ej_attempts x \<le> ej_maxAttempts x \<and>
       (ej_status x = FAILED \<longrightarrow> ej_attempts x = ej_maxAttempts x))"
proof -
  have i: "exportInv s" using export_reach_empty assms by blast
  have "\<forall>x \<in> set (exportJobs (es_db s)). jobOk x" using i by (simp add: exportInv_def jobsOk_def)
  then show ?thesis using i unfolding exportInv_def jobOk_def by blast
qed

text \<open>No client can ever download an export: the worker clears both the address of the result
  and its signed address, and nothing else sets them, so from an empty table every download answers
  with an error, also for a job that is done.\<close>

lemma export_never_downloads:
  assumes "exportJobs (es_db s0) = []" "\<And>w. es_workers s0 w = Idle" "export_step\<^sup>*\<^sup>* s0 s"
  shows "\<exists>e. downloadExport env u i (es_db s) = Inl e"
proof (cases "find (\<lambda>x. ej_id x = i \<and> ej_companyId x = act_company u) (exportJobs (es_db s))")
  case None
  then show ?thesis by (simp add: downloadExport_def)
next
  case (Some job)
  have "exportInv s" using export_reach_empty assms by blast
  moreover have "job \<in> set (exportJobs (es_db s))" using find_SomeD[OF Some] by simp
  ultimately have "jobOk job" by (simp add: exportInv_def jobsOk_def)
  then show ?thesis using Some by (simp add: downloadExport_def jobOk_def Let_def)
qed

section \<open>The polling worker\<close>

text \<open>The attempts left to the queued jobs.\<close>

fun attemptsLeft :: "export_job list \<Rightarrow> int" where
  "attemptsLeft [] = 0"
| "attemptsLeft (x # xs) = (if ej_status x = QUEUED then ej_maxAttempts x - ej_attempts x else 0) + attemptsLeft xs"

lemma attemptsLeft_nonneg: "\<forall>x \<in> set xs. jobOk x \<Longrightarrow> 0 \<le> attemptsLeft xs"
  by (induction xs) (auto simp: jobOk_def)

lemma attemptsLeft_zero: "\<forall>x \<in> set xs. jobOk x \<Longrightarrow> attemptsLeft xs \<le> 0 \<Longrightarrow> x \<in> set xs \<Longrightarrow> ej_status x \<noteq> QUEUED"
proof (induction xs)
  case (Cons y ys)
  have "0 \<le> attemptsLeft ys" using Cons.prems attemptsLeft_nonneg by simp
  then show ?case using Cons by (auto simp: jobOk_def split: if_splits)
qed simp

lemma attemptsLeft_replace_notin: "q \<notin> set xs \<Longrightarrow> map (\<lambda>x. if x = q then y else x) xs = xs"
  by (induction xs) auto

lemma attemptsLeft_replace:
  assumes "q \<in> set xs" "distinct xs" "ej_status q = QUEUED" "ej_attempts y = ej_attempts q + 1"
    "ej_maxAttempts y = ej_maxAttempts q" "ej_attempts q < ej_maxAttempts q"
  shows "attemptsLeft (map (\<lambda>x. if x = q then y else x) xs) < attemptsLeft xs"
  using assms(1,2)
proof (induction xs)
  case (Cons x xs)
  show ?case
  proof (cases "x = q")
    case True
    then show ?thesis using Cons.prems assms(3-6) by (simp add: attemptsLeft_replace_notin)
  next
    case False
    then show ?thesis using Cons by simp
  qed
qed simp

definition retried :: "date \<Rightarrow> string + export_result \<Rightarrow> export_job \<Rightarrow> export_job" where
  "retried t outcome q = completeData (claimData t q) outcome t (claimData t q)"

lemma retried_fields [simp]: "ej_id (retried t o1 q) = ej_id q" "ej_attempts (retried t o1 q) = ej_attempts q + 1"
  "ej_maxAttempts (retried t o1 q) = ej_maxAttempts q" "ej_status (retried t o1 q) \<in> {QUEUED, DONE, FAILED}"
  by (simp_all add: retried_def split: sum.splits)

lemma retried_ok: "jobOk q \<Longrightarrow> ej_status q = QUEUED \<Longrightarrow> jobOk (retried t o1 q)"
  unfolding retried_def by (intro completeData_ok) (simp_all add: claimData_ok)

text \<open>What a tick does to the table: nothing when no job is queued, or it completes one queued job.\<close>

lemma tick_cases:
  assumes "jobsOk (exportJobs db)"
  obtains "\<forall>x \<in> set (exportJobs db). ej_status x \<noteq> QUEUED" "fst (processSingleQueuedJob exec None None t db ()) = db"
  | q where "q \<in> set (exportJobs db)" "ej_status q = QUEUED"
    "exportJobs (fst (processSingleQueuedJob exec None None t db ())) =
       map (\<lambda>x. if x = q then retried t (exec (claimData t q)) q else x) (exportJobs db)"
proof (cases "findQueuedJob None db")
  case None
  then have "sort_key ej_createdAt (filter (\<lambda>x. ej_status x = QUEUED) (exportJobs db)) = []"
    by (simp add: findQueuedJob_def split: list.splits)
  then have "filter (\<lambda>x. ej_status x = QUEUED) (exportJobs db) = []"
    by (metis length_0_conv length_sort)
  then have "\<forall>x \<in> set (exportJobs db). ej_status x \<noteq> QUEUED" by (auto simp: filter_empty_conv)
  then show thesis using that(1) None by (simp add: processSingleQueuedJob_def)
next
  case (Some j)
  then obtain ys where e: "sort_key ej_createdAt (filter (\<lambda>x. ej_status x = QUEUED) (exportJobs db)) = j # ys"
    by (auto simp: findQueuedJob_def split: list.splits)
  have "j \<in> set (sort_key ej_createdAt (filter (\<lambda>x. ej_status x = QUEUED) (exportJobs db)))" unfolding e by simp
  then have j: "j \<in> set (exportJobs db)" "ej_status j = QUEUED" by auto
  have "claimJob (ej_id j) t db \<noteq> (None, db')" for db'
    using j by (auto simp: claimJob_def list_ex_iff Let_def find_None_iff updateWhere_set)
  then obtain job db' where c: "claimJob (ej_id j) t db = (Some job, db')"
    by (metis option.exhaust surj_pair)
  obtain x where x: "x \<in> set (exportJobs db)" "ej_id x = ej_id j" "job = claimData t x"
    and u: "exportJobs db' = updateWhere (\<lambda>y. ej_id y = ej_id j \<and> ej_status y = QUEUED) (claimData t) (exportJobs db)"
    using c assms by (rule claimJob_SomeD)
  have xj: "x = j" using jobsOk_unique[OF assms x(1) j(1) x(2)] .
  have id: "ej_id y = ej_id j \<longleftrightarrow> y = j" if "y \<in> set (exportJobs db)" for y
    using jobsOk_unique[OF assms that j(1)] by auto
  have "exportJobs (completeJob job (exec job) t db') =
      map (\<lambda>x. if x = j then retried t (exec (claimData t j)) j else x) (exportJobs db)"
    using j(2) id x(3) xj by (auto simp: completeJob_def u updateWhere_def retried_def)
  then show thesis using that(2) j Some c by (simp add: processSingleQueuedJob_def)
qed

definition drained :: "ExportJobStatus set \<Rightarrow> export_job \<Rightarrow> export_job \<Rightarrow> bool" where
  "drained S x y \<longleftrightarrow> ej_id y = ej_id x \<and> (ej_status x \<noteq> QUEUED \<longrightarrow> y = x) \<and> (ej_status x = QUEUED \<longrightarrow> ej_status y \<in> S)"

lemma drained_trans: "drained {QUEUED, DONE, FAILED} x y \<Longrightarrow> drained {QUEUED, DONE, FAILED} y z \<Longrightarrow> drained {QUEUED, DONE, FAILED} x z"
  unfolding drained_def by (cases "ej_status y = QUEUED") auto

lemma tick_step:
  assumes "jobsOk (exportJobs db)" "db' = fst (processSingleQueuedJob exec None None t db ())"
  shows "jobsOk (exportJobs db')" "attemptsLeft (exportJobs db') \<le> max 0 (attemptsLeft (exportJobs db) - 1)"
    "list_all2 (drained {QUEUED, DONE, FAILED}) (exportJobs db) (exportJobs db')"
proof -
  have "jobsOk (exportJobs db') \<and> attemptsLeft (exportJobs db') \<le> max 0 (attemptsLeft (exportJobs db) - 1) \<and>
    list_all2 (drained {QUEUED, DONE, FAILED}) (exportJobs db) (exportJobs db')"
  proof (rule tick_cases[OF assms(1), where exec = exec and t = t])
    assume n: "\<forall>x \<in> set (exportJobs db). ej_status x \<noteq> QUEUED" "fst (processSingleQueuedJob exec None None t db ()) = db"
    have "attemptsLeft xs = 0" if "\<forall>x \<in> set xs. ej_status x \<noteq> QUEUED" for xs using that by (induction xs) auto
    then show ?thesis using assms n by (simp add: list.rel_refl drained_def)
  next
    fix q assume q: "q \<in> set (exportJobs db)" "ej_status q = QUEUED"
      "exportJobs (fst (processSingleQueuedJob exec None None t db ())) =
         map (\<lambda>x. if x = q then retried t (exec (claimData t q)) q else x) (exportJobs db)"
    let ?r = "retried t (exec (claimData t q)) q"
    let ?m = "map (\<lambda>x. if x = q then ?r else x) (exportJobs db)"
    have ok: "jobOk q" "distinct (map ej_id (exportJobs db))" using assms(1) q by (auto simp: jobsOk_def)
    have ids: "map ej_id ?m = map ej_id (exportJobs db)" by (auto simp: retried_fields(1))
    have "jobsOk ?m" using assms(1) retried_ok[OF ok(1) q(2)] unfolding jobsOk_def ids by auto
    moreover have "attemptsLeft ?m < attemptsLeft (exportJobs db)"
      using q ok by (intro attemptsLeft_replace) (auto simp: distinct_map jobOk_def)
    moreover have "list_all2 (drained {QUEUED, DONE, FAILED}) (exportJobs db) ?m"
      using q(2) retried_fields(4)[of t "exec (claimData t q)" q] by (auto simp: list_all2_conv_all_nth drained_def)
    ultimately show ?thesis using q(3) assms(2) by simp
  qed
  then show "jobsOk (exportJobs db')" "attemptsLeft (exportJobs db') \<le> max 0 (attemptsLeft (exportJobs db) - 1)"
    "list_all2 (drained {QUEUED, DONE, FAILED}) (exportJobs db) (exportJobs db')" by simp_all
qed

lemma pollTicks_drains:
  "jobsOk (exportJobs db) \<Longrightarrow> jobsOk (exportJobs (pollTicks exec clock i n db)) \<and>
   attemptsLeft (exportJobs (pollTicks exec clock i n db)) \<le> max 0 (attemptsLeft (exportJobs db) - int n) \<and>
   list_all2 (drained {QUEUED, DONE, FAILED}) (exportJobs db) (exportJobs (pollTicks exec clock i n db))"
proof (induction n arbitrary: i db)
  case 0
  then show ?case by (auto simp: drained_def list_all2_conv_all_nth)
next
  case (Suc n)
  let ?db = "fst (processSingleQueuedJob (exec i) None None (clock i) db ())"
  note t = tick_step[OF Suc.prems refl, where exec = "exec i" and t = "clock i"]
  note r = Suc.IH[OF t(1), of "Suc i"]
  have "list_all2 (drained {QUEUED, DONE, FAILED}) (exportJobs db) (exportJobs (pollTicks exec clock (Suc i) n ?db))"
    using list_all2_trans[where as = "exportJobs db" and bs = "exportJobs ?db", OF _ t(3)] drained_trans r by metis
  moreover have "attemptsLeft (exportJobs (pollTicks exec clock (Suc i) n ?db)) \<le> max 0 (attemptsLeft (exportJobs ?db) - int n)"
    using r by simp
  then have "attemptsLeft (exportJobs (pollTicks exec clock (Suc i) n ?db)) \<le> max 0 (attemptsLeft (exportJobs db) - int (Suc n))"
    using t(2) by linarith
  ultimately show ?case using r by simp
qed

text \<open>C16: The polling worker empties the queue, whatever the builders of the documents do: after as
  many ticks as the queued jobs have attempts left, every job that was queued is done or has
  definitively failed, and the jobs that were not queued are untouched.\<close>

theorem export_queue_drains:
  assumes "distinct (map ej_id (exportJobs db))" "\<And>x. x \<in> set (exportJobs db) \<Longrightarrow> jobOk x" "attemptsLeft (exportJobs db) \<le> int n"
  shows "list_all2 (\<lambda>x y. ej_id y = ej_id x \<and> (if ej_status x = QUEUED then ej_status y = DONE \<or> ej_status y = FAILED else y = x))
    (exportJobs db) (exportJobs (pollTicks exec clock i n db))"
proof -
  let ?ys = "exportJobs (pollTicks exec clock i n db)"
  have ok: "jobsOk (exportJobs db)" using assms by (simp add: jobsOk_def)
  note d = pollTicks_drains[OF ok, of exec clock i n]
  then have z: "\<forall>y \<in> set ?ys. ej_status y \<noteq> QUEUED"
    using attemptsLeft_zero[of ?ys] assms(3) by (auto simp: jobsOk_def)
  have "list_all2 (drained {QUEUED, DONE, FAILED}) (exportJobs db) ?ys" using d by simp
  then show ?thesis using z by (auto simp: list_all2_conv_all_nth drained_def)
qed

section \<open>Witnesses\<close>

definition demoExports :: "export_job list \<Rightarrow> exporting" where
  "demoExports js = \<lparr> accounts = [], periods = [], entries = [],
     auditLog = map (\<lambda>x. \<lparr> au_tableName = ''export_jobs'', au_recordId = Some (ej_id x), au_action = ''CREATE'',
       au_reason = Some ''queue-export'', au_userId = ''u'', au_companyId = ''c'' \<rparr>) js, fsCache = [], exportJobs = js \<rparr>"

definition demoJob :: "ExportJobStatus \<Rightarrow> int \<Rightarrow> export_job" where
  "demoJob st n = \<lparr> ej_id = ''x0'', ej_companyId = ''c'', ej_createdById = ''u'', ej_kind = FINANCIAL_PDF,
     ej_status = st, ej_attempts = n, ej_maxAttempts = 3, ej_errorMessage = None,
     ej_resultMimeType = (if st = DONE then Some ''application/pdf'' else None),
     ej_resultFilename = (if st = DONE then Some ''a.pdf'' else None), ej_resultSizeBytes = (if st = DONE then Some 9 else None),
     ej_resultStorageUrl = None, ej_resultSignedUrl = None, ej_resultSignedUrlExpiresAt = None,
     ej_createdAt = 1706745600000, ej_startedAt = (if st = QUEUED then None else Some 5),
     ej_finishedAt = (if st = DONE then Some 7 else None) \<rparr>"

definition demoExportRequest :: export_job_req where
  "demoExportRequest = \<lparr> xj_kind = FINANCIAL_PDF, xj_period = None, xj_maxAttempts = 3 \<rparr>"

definition demoResult :: export_result where
  "demoResult = \<lparr> er_mimeType = ''application/pdf'', er_filename = ''a.pdf'', er_size = 9 \<rparr>"

definition demoSystem :: "export_job list \<Rightarrow> worker \<Rightarrow> worker \<Rightarrow> unit export_system" where
  "demoSystem js w0 w1 = \<lparr> es_db = demoExports js, es_workers = (\<lambda>_. Idle)(0 := w0, 1 := w1) \<rparr>"

lemma demo_create_export: "createExportJob (demoEnv ''x'') demoActor demoExportRequest (demoExports []) =
    Inr (demoJob QUEUED 0, demoExports [demoJob QUEUED 0])"
  by code_simp

lemma demo_find: "findQueuedJob None (demoExports [demoJob QUEUED 0]) = Some (demoJob QUEUED 0)"
  by code_simp

lemma demo_claim: "claimJob ''x0'' 5 (demoExports [demoJob QUEUED 0]) = (Some (demoJob PROCESSING 1), demoExports [demoJob PROCESSING 1])"
  by code_simp

lemma demo_complete: "completeJob (demoJob PROCESSING 1) (Inr demoResult) 7 (demoExports [demoJob PROCESSING 1]) = demoExports [demoJob DONE 1]"
  by code_simp

text \<open>Two workers find the same queued job, one claims it, and completes it.\<close>

lemma demo_export_reach:
  "export_step\<^sup>*\<^sup>* (demoSystem [] Idle Idle) (demoSystem [demoJob PROCESSING 1] (Running (demoJob PROCESSING 1)) (Found ''x0''))"
  "export_step\<^sup>*\<^sup>* (demoSystem [] Idle Idle) (demoSystem [demoJob DONE 1] Idle (Found ''x0''))"
proof -
  let ?q = "demoJob QUEUED 0" and ?p = "demoJob PROCESSING 1"
  have id: "ej_id ?q = ''x0''" by (simp add: demoJob_def)
  have 1: "export_step (demoSystem [] Idle Idle) (demoSystem [?q] Idle Idle)"
    using export_step.create[where s = "demoSystem [] Idle Idle" and db = "demoExports [?q]" and job = ?q] demo_create_export
    by (simp add: demoSystem_def)
  have 2: "export_step (demoSystem [?q] Idle Idle) (demoSystem [?q] (Found ''x0'') Idle)"
    using export_step.find[of "demoSystem [?q] Idle Idle" 0 None ?q] demo_find by (simp add: demoSystem_def id fun_upd_twist)
  have 3: "export_step (demoSystem [?q] (Found ''x0'') Idle) (demoSystem [?q] (Found ''x0'') (Found ''x0''))"
    using export_step.find[of "demoSystem [?q] (Found ''x0'') Idle" 1 None ?q] demo_find by (simp add: demoSystem_def id)
  have 4: "export_step (demoSystem [?q] (Found ''x0'') (Found ''x0'')) (demoSystem [?p] (Running ?p) (Found ''x0''))"
    using export_step.claim[of "demoSystem [?q] (Found ''x0'') (Found ''x0'')" 0 "''x0''" 5 ?p] demo_claim
    by (simp add: demoSystem_def fun_upd_twist)
  have 5: "export_step (demoSystem [?p] (Running ?p) (Found ''x0'')) (demoSystem [demoJob DONE 1] Idle (Found ''x0''))"
    using export_step.complete[of "demoSystem [?p] (Running ?p) (Found ''x0'')" 0 ?p "Inr demoResult" 7] demo_complete
    by (simp add: demoSystem_def fun_upd_twist)
  show r: "export_step\<^sup>*\<^sup>* (demoSystem [] Idle Idle) (demoSystem [?p] (Running ?p) (Found ''x0''))"
    by (rule converse_rtranclp_into_rtranclp[OF 1 converse_rtranclp_into_rtranclp[OF 2
          converse_rtranclp_into_rtranclp[where r = export_step, OF 3 r_into_rtranclp[where r = export_step, OF 4]]]])
  show "export_step\<^sup>*\<^sup>* (demoSystem [] Idle Idle) (demoSystem [demoJob DONE 1] Idle (Found ''x0''))"
    using r 5 by (rule rtranclp.rtrancl_into_rtrancl)
qed

lemma demo_empty: "exportJobs (es_db (demoSystem [] Idle Idle)) = []" "es_workers (demoSystem [] Idle Idle) w = Idle"
  by (simp_all add: demoSystem_def demoExports_def)

theorem export_exclusive_witness:
  "es_workers (demoSystem [demoJob PROCESSING 1] (Running (demoJob PROCESSING 1)) (Found ''x0'')) 0 = Running (demoJob PROCESSING 1) \<and>
   ej_status (demoJob PROCESSING 1) = PROCESSING"
proof -
  have "es_workers (demoSystem [demoJob PROCESSING 1] (Running (demoJob PROCESSING 1)) (Found ''x0'')) 0 = Running (demoJob PROCESSING 1)"
    by (simp add: demoSystem_def)
  then show ?thesis using export_exclusive[OF demo_empty demo_export_reach(1)] by blast
qed

lemma export_never_downloads_example:
  "ej_status (demoJob DONE 1) = DONE \<and>
   (\<exists>e. downloadExport (demoEnv ''d'') demoActor ''x0'' (es_db (demoSystem [demoJob DONE 1] Idle (Found ''x0''))) = Inl e)"
  using export_never_downloads[OF demo_empty demo_export_reach(2)] by (auto simp: demoJob_def)

text \<open>A job that fails twice and then succeeds.\<close>

definition demoExec :: "nat \<Rightarrow> export_job \<Rightarrow> string + export_result" where
  "demoExec i j = (if i < 2 then Inl ''eroare'' else Inr demoResult)"

theorem export_queue_drains_witness:
  "map ej_status (exportJobs (pollTicks demoExec (\<lambda>i. int i) 0 3 (demoExports [demoJob QUEUED 0]))) = [DONE]"
proof -
  let ?ys = "exportJobs (pollTicks demoExec (\<lambda>i. int i) 0 3 (demoExports [demoJob QUEUED 0]))"
  have "list_all2 (\<lambda>x y. ej_id y = ej_id x \<and> (if ej_status x = QUEUED then ej_status y = DONE \<or> ej_status y = FAILED else y = x))
    (exportJobs (demoExports [demoJob QUEUED 0])) ?ys"
    by (rule export_queue_drains) (simp_all add: demoExports_def demoJob_def jobOk_def)
  then have "length ?ys = 1" using list_all2_lengthD by (fastforce simp: demoExports_def)
  moreover have "map ej_status ?ys = [DONE]" by code_simp
  ultimately show ?thesis by simp
qed

end
