(* ===== verification/Sessions.thy ===== *)
theory Sessions
  imports Ledger
begin

text \<open>
  Users, companies, memberships and refresh sessions, with the tokens and sessions of
  lib/auth-session.ts, the token checks of middleware/auth.ts and the revocation list of
  lib/auth-token-blacklist.ts. The JWT and bcrypt packages, SHA-256, TOTP, the email check of zod and
  the configured lifetimes are the record \<open>auth_lib\<close>, a parameter of every operation. The browser's
  address and name, kept for information only, are left out of the session rows.

  A handler answers an error or a value; some of them write before they fail, so the result comes
  with the tables in both cases.
\<close>

section \<open>Tables\<close>

record user =
  us_id :: id
  us_email :: string
  us_name :: string
  us_passwordHash :: string
  us_mustChangePassword :: bool
  us_mfaEnabled :: bool
  us_mfaSecret :: "string option"
  us_mfaPendingSecret :: "string option"
  us_role :: Role
  us_createdAt :: date

record refresh_session =
  rs_id :: id
  rs_userId :: id
  rs_tokenHash :: string
  rs_expiresAt :: date
  rs_revokedAt :: "date option"
  rs_replacedBySessionId :: "id option"

record company_contact =
  ct_cui :: "string option"
  ct_registrationNumber :: "string option"
  ct_address :: "string option"
  ct_city :: "string option"
  ct_county :: "string option"
  ct_country :: "string option"
  ct_bankName :: "string option"
  ct_iban :: "string option"
  ct_email :: "string option"
  ct_phone :: "string option"

record company =
  co_id :: id
  co_code :: string
  co_name :: string
  co_contact :: company_contact
  co_isActive :: bool
  co_createdAt :: date

record company_member =
  cm_id :: id
  cm_userId :: id
  cm_companyId :: id
  cm_role :: Role
  cm_isDefault :: bool
  cm_createdAt :: date

record identity_audit =
  ia_tableName :: string
  ia_recordId :: "id option"
  ia_action :: string
  ia_reason :: "string option"
  ia_userId :: "id option"
  ia_companyId :: "id option"

text \<open>The revocation list in memory: the expiry of each session id in milliseconds, and the time of
  the last pruning.\<close>

record blacklist =
  bl_map :: "string \<Rightarrow> int option"
  bl_lastMemoryPruneAt :: int

record identity =
  users :: "user list"
  companies :: "company list"
  members :: "company_member list"
  refreshSessions :: "refresh_session list"
  identityAudit :: "identity_audit list"
  revoked :: blacklist
  bootstrapTokenConsumed :: bool

section \<open>Libraries and configuration\<close>

record refresh_payload =
  rt_typ :: string
  rt_sub :: string
  rt_sid :: string
  rt_companySelectionRequired :: "bool option"
  rt_exp :: "int option"

record auth_lib =
  al_signAccess :: "token_payload \<Rightarrow> string"
  al_verifyAccess :: "date \<Rightarrow> string \<Rightarrow> token_payload option"
  al_signRefresh :: "refresh_payload \<Rightarrow> string"
  al_verifyRefresh :: "date \<Rightarrow> string \<Rightarrow> refresh_payload option"
  al_sha256 :: "string \<Rightarrow> string"
  al_bcryptHash :: "string \<Rightarrow> string"
  al_bcryptCompare :: "string \<Rightarrow> string \<Rightarrow> bool"
  al_totp :: "date \<Rightarrow> string \<Rightarrow> string \<Rightarrow> bool"
  al_isEmail :: "string \<Rightarrow> bool"
  al_accessTtlMinutes :: int
  al_refreshTtlHours :: int
  al_production :: bool
  al_bootstrapEnabled :: bool
  al_bootstrapToken :: "string option"

text \<open>How the Redis client, when one is configured, behaves in a call: \<open>None\<close> when there is none or it
  fails, and else what it answers.\<close>

type_synonym redis_set = bool
type_synonym redis_exists = "bool option"

section \<open>The revocation list\<close>

definition MEMORY_PRUNE_INTERVAL_MS :: int where
  "MEMORY_PRUNE_INTERVAL_MS = 30000"

definition nowEpochSeconds :: "date \<Rightarrow> int" where
  "nowEpochSeconds t = t div 1000"

definition pruneMemoryBlacklist :: "int \<Rightarrow> blacklist \<Rightarrow> blacklist" where
  "pruneMemoryBlacklist nowMs b =
     (if nowMs - bl_lastMemoryPruneAt b < MEMORY_PRUNE_INTERVAL_MS then b
      else \<lparr> bl_map = (\<lambda>k. case bl_map b k of None \<Rightarrow> None | Some e \<Rightarrow> if e \<le> nowMs then None else Some e),
             bl_lastMemoryPruneAt = nowMs \<rparr>)"

definition blacklistInMemory :: "int \<Rightarrow> string \<Rightarrow> int \<Rightarrow> blacklist \<Rightarrow> blacklist" where
  "blacklistInMemory nowMs sid expSeconds b =
     (let expiresAtMs = expSeconds * 1000 in
      if expiresAtMs \<le> nowMs then b\<lparr>bl_map := (bl_map b)(sid := None)\<rparr>
      else pruneMemoryBlacklist nowMs (b\<lparr>bl_map := (bl_map b)(sid \<mapsto> expiresAtMs)\<rparr>))"

definition isBlacklistedInMemory :: "int \<Rightarrow> string \<Rightarrow> blacklist \<Rightarrow> bool \<times> blacklist" where
  "isBlacklistedInMemory nowMs sid b =
     (let b = pruneMemoryBlacklist nowMs b in
      case bl_map b sid of None \<Rightarrow> (False, b)
      | Some e \<Rightarrow> if e = 0 then (False, b)
          else if e \<le> nowMs then (False, b\<lparr>bl_map := (bl_map b)(sid := None)\<rparr>) else (True, b))"

definition blacklistSessionId :: "redis_set \<Rightarrow> date \<Rightarrow> string \<Rightarrow> int \<Rightarrow> blacklist \<Rightarrow> blacklist" where
  "blacklistSessionId redis t sessionId expSeconds b =
     (let sid = trim sessionId in
      if sid = [] then b
      else if expSeconds \<le> nowEpochSeconds t then b\<lparr>bl_map := (bl_map b)(sid := None)\<rparr>
      else if redis then b
      else blacklistInMemory t sid expSeconds b)"

definition isSessionIdBlacklisted :: "redis_exists \<Rightarrow> date \<Rightarrow> string \<Rightarrow> blacklist \<Rightarrow> bool \<times> blacklist" where
  "isSessionIdBlacklisted redis t sessionId b =
     (let sid = trim sessionId in
      if sid = [] then (False, b)
      else if redis = Some True then (True, b)
      else isBlacklistedInMemory t sid b)"

section \<open>Tokens\<close>

record public_user =
  pu_id :: id
  pu_email :: string
  pu_name :: string
  pu_role :: Role
  pu_mustChangePassword :: bool
  pu_mfaEnabled :: bool
  pu_companySelectionRequired :: bool

definition toPublicUser :: "user \<Rightarrow> bool \<Rightarrow> public_user" where
  "toPublicUser u sel = \<lparr> pu_id = us_id u, pu_email = us_email u, pu_name = us_name u, pu_role = us_role u,
     pu_mustChangePassword = us_mustChangePassword u, pu_mfaEnabled = us_mfaEnabled u, pu_companySelectionRequired = sel \<rparr>"

text \<open>\<open>signAccessToken\<close> and \<open>signRefreshToken\<close>; \<open>jwt.sign\<close> adds the expiry in seconds.\<close>

definition accessClaims :: "auth_lib \<Rightarrow> date \<Rightarrow> user \<Rightarrow> id \<Rightarrow> bool \<Rightarrow> token_payload" where
  "accessClaims lib t u sid sel = \<lparr> tp_typ = ''access'', tp_id = us_id u, tp_sid = sid, tp_email = us_email u, tp_role = us_role u,
     tp_name = us_name u, tp_mustChangePassword = Some (us_mustChangePassword u), tp_mfaEnabled = Some (us_mfaEnabled u),
     tp_companySelectionRequired = Some sel, tp_exp = Some (nowEpochSeconds t + al_accessTtlMinutes lib * 60) \<rparr>"

definition refreshClaims :: "auth_lib \<Rightarrow> date \<Rightarrow> id \<Rightarrow> id \<Rightarrow> bool \<Rightarrow> refresh_payload" where
  "refreshClaims lib t userId sid sel = \<lparr> rt_typ = ''refresh'', rt_sub = userId, rt_sid = sid,
     rt_companySelectionRequired = Some sel, rt_exp = Some (nowEpochSeconds t + al_refreshTtlHours lib * 3600) \<rparr>"

record auth_tokens =
  at_accessToken :: string
  at_refreshToken :: string
  at_sessionId :: id

definition buildTokens :: "auth_lib \<Rightarrow> date \<Rightarrow> user \<Rightarrow> id \<Rightarrow> bool \<Rightarrow> auth_tokens" where
  "buildTokens lib t u sid sel = \<lparr> at_accessToken = al_signAccess lib (accessClaims lib t u sid sel),
     at_refreshToken = al_signRefresh lib (refreshClaims lib t (us_id u) sid sel), at_sessionId = sid \<rparr>"

definition verifyRefreshToken :: "auth_lib \<Rightarrow> date \<Rightarrow> string \<Rightarrow> refresh_payload option" where
  "verifyRefreshToken lib t token =
     (case al_verifyRefresh lib t token of None \<Rightarrow> None
      | Some p \<Rightarrow> if rt_typ p \<noteq> ''refresh'' \<or> rt_sub p = [] \<or> rt_sid p = [] \<or> rt_exp p = None then None
          else Some (p\<lparr>rt_companySelectionRequired := Some (rt_companySelectionRequired p = Some True)\<rparr>))"

section \<open>Refresh sessions\<close>

text \<open>The answers of \<open>mapPrismaError\<close> to P2025 and P2003.\<close>

definition recordMissing :: http_error where
  "recordMissing = notFound ''Resursa solicitata nu exista.''"

definition referenceViolation :: http_error where
  "referenceViolation = conflict ''Operatiunea incalca constrangeri de integritate a datelor.''"

text \<open>\<open>refreshSession.create\<close>: the id and the token hash are unique, the user exists.\<close>

definition insertSession :: "refresh_session \<Rightarrow> 'z identity_scheme \<Rightarrow> http_error + 'z identity_scheme" where
  "insertSession s db =
     (if list_ex (\<lambda>x. rs_id x = rs_id s \<or> rs_tokenHash x = rs_tokenHash s) (refreshSessions db) then Inl uniqueViolation
      else if \<not> list_ex (\<lambda>u. us_id u = rs_userId s) (users db) then Inl referenceViolation
      else Inr (db\<lparr>refreshSessions := refreshSessions db @ [s]\<rparr>))"

definition createRefreshSession :: "auth_lib \<Rightarrow> env \<Rightarrow> id \<Rightarrow> id \<Rightarrow> string \<Rightarrow> 'z identity_scheme \<Rightarrow> http_error + 'z identity_scheme" where
  "createRefreshSession lib env userId sid token db =
     insertSession \<lparr> rs_id = sid, rs_userId = userId, rs_tokenHash = al_sha256 lib token,
       rs_expiresAt = now env + al_refreshTtlHours lib * 3600000, rs_revokedAt = None, rs_replacedBySessionId = None \<rparr> db"

text \<open>What a session hands to the browser: the public user and the two cookies.\<close>

type_synonym session_result = "public_user \<times> auth_tokens"

definition issueLoginSession ::
  "auth_lib \<Rightarrow> env \<Rightarrow> nat \<Rightarrow> user \<Rightarrow> bool \<Rightarrow> 'z identity_scheme \<Rightarrow> (http_error + session_result) \<times> 'z identity_scheme" where
  "issueLoginSession lib env k u sel db =
     (let tokens = buildTokens lib (now env) u (uuid env k) sel in
      case createRefreshSession lib env (us_id u) (uuid env k) (at_refreshToken tokens) db of
        Inl e \<Rightarrow> (Inl e, db)
      | Inr db \<Rightarrow> (Inr (toPublicUser u sel, tokens), db))"

text \<open>The first half of \<open>rotateRefreshSession\<close>, up to the transaction: refuse, revoke the family of a
  token that does not match the stored one, or go on with the session and its user.\<close>

datatype rotate_check = Refuse | RevokeFamily id | Rotate refresh_session user bool

definition rotateCheck ::
  "auth_lib \<Rightarrow> env \<Rightarrow> redis_exists \<Rightarrow> string \<Rightarrow> 'z identity_scheme \<Rightarrow> rotate_check \<times> 'z identity_scheme" where
  "rotateCheck lib env redis token db =
     (case verifyRefreshToken lib (now env) token of None \<Rightarrow> (Refuse, db)
      | Some payload \<Rightarrow>
          let hit = fst (isSessionIdBlacklisted redis (now env) (rt_sid payload) (revoked db));
              db = db\<lparr>revoked := snd (isSessionIdBlacklisted redis (now env) (rt_sid payload) (revoked db))\<rparr>
          in (if hit then Refuse else
             (case find (\<lambda>s. rs_id s = rt_sid payload) (refreshSessions db) of None \<Rightarrow> Refuse
              | Some s \<Rightarrow> (case find (\<lambda>u. us_id u = rs_userId s) (users db) of None \<Rightarrow> Refuse
                 | Some u \<Rightarrow>
                     if rs_userId s \<noteq> rt_sub payload then Refuse
                     else if rs_revokedAt s \<noteq> None \<or> rs_expiresAt s \<le> now env then Refuse
                     else if rs_tokenHash s \<noteq> al_sha256 lib token then RevokeFamily (rs_userId s)
                     else Rotate s u (rt_companySelectionRequired payload = Some True))), db))"

definition revokeAllActiveRefreshSessions :: "date \<Rightarrow> id \<Rightarrow> 'z identity_scheme \<Rightarrow> 'z identity_scheme" where
  "revokeAllActiveRefreshSessions t userId db =
     db\<lparr>refreshSessions := updateWhere (\<lambda>s. rs_userId s = userId \<and> rs_revokedAt s = None) (\<lambda>s. s\<lparr>rs_revokedAt := Some t\<rparr>)
       (refreshSessions db)\<rparr>"

text \<open>The transaction: \<open>update\<close> by id alone, and the new session.\<close>

definition rotateCommit ::
  "auth_lib \<Rightarrow> env \<Rightarrow> refresh_session \<Rightarrow> user \<Rightarrow> bool \<Rightarrow> 'z identity_scheme \<Rightarrow> (http_error + session_result) \<times> 'z identity_scheme" where
  "rotateCommit lib env s u sel db =
     (let sid = uuid env 0; tokens = buildTokens lib (now env) u sid sel in
      if \<not> list_ex (\<lambda>x. rs_id x = rs_id s) (refreshSessions db) then (Inl recordMissing, db) else
      case createRefreshSession lib env (rs_userId s) sid (at_refreshToken tokens)
          (db\<lparr>refreshSessions := updateWhere (\<lambda>x. rs_id x = rs_id s)
             (\<lambda>x. x\<lparr> rs_revokedAt := Some (now env), rs_replacedBySessionId := Some sid \<rparr>) (refreshSessions db)\<rparr>) of
        Inl e \<Rightarrow> (Inl e, db)
      | Inr db' \<Rightarrow> (Inr (toPublicUser u sel, tokens), db'))"

definition rotateRefreshSession ::
  "auth_lib \<Rightarrow> env \<Rightarrow> redis_exists \<Rightarrow> string \<Rightarrow> 'z identity_scheme \<Rightarrow> (http_error + session_result option) \<times> 'z identity_scheme" where
  "rotateRefreshSession lib env redis token db =
     (case rotateCheck lib env redis token db of
        (Refuse, db) \<Rightarrow> (Inr None, db)
      | (RevokeFamily userId, db) \<Rightarrow> (Inr None, revokeAllActiveRefreshSessions (now env) userId db)
      | (Rotate s u sel, db) \<Rightarrow> (case rotateCommit lib env s u sel db of
            (Inl e, db) \<Rightarrow> (Inl e, db)
          | (Inr x, db) \<Rightarrow> (Inr (Some x), db)))"

text \<open>\<open>updateMany\<close> of one session and its id on the revocation list.\<close>

definition revokeSession :: "redis_set \<Rightarrow> date \<Rightarrow> id \<Rightarrow> id \<Rightarrow> int \<Rightarrow> 'z identity_scheme \<Rightarrow> 'z identity_scheme" where
  "revokeSession redis t sid userId expSeconds db =
     db\<lparr> refreshSessions := updateWhere (\<lambda>s. rs_id s = sid \<and> rs_userId s = userId \<and> rs_revokedAt s = None)
           (\<lambda>s. s\<lparr>rs_revokedAt := Some t\<rparr>) (refreshSessions db),
         revoked := blacklistSessionId redis t sid expSeconds (revoked db) \<rparr>"

definition revokeRefreshSessionByToken :: "auth_lib \<Rightarrow> redis_set \<Rightarrow> date \<Rightarrow> string \<Rightarrow> 'z identity_scheme \<Rightarrow> 'z identity_scheme" where
  "revokeRefreshSessionByToken lib redis t token db =
     (case verifyRefreshToken lib t token of None \<Rightarrow> db
      | Some p \<Rightarrow> revokeSession redis t (rt_sid p) (rt_sub p) (orElse (rt_exp p) 0) db)"

definition revokeSessionByAccessToken :: "auth_lib \<Rightarrow> redis_set \<Rightarrow> date \<Rightarrow> string \<Rightarrow> 'z identity_scheme \<Rightarrow> 'z identity_scheme" where
  "revokeSessionByAccessToken lib redis t token db =
     (case verifyAccessToken (al_verifyAccess lib t) token of None \<Rightarrow> db
      | Some p \<Rightarrow> revokeSession redis t (tp_sid p) (tp_id p) (orElse (tp_exp p) 0) db)"

end
