(* ===== verification/AuthRoutes.thy ===== *)
theory AuthRoutes
  imports Sessions
begin

text \<open>
  The routes of routes/auth.ts: login, registration, MFA enrolment, the companies a user creates or
  switches to, the first administrator, the password, refresh and logout. An authenticated route
  takes \<open>req.user\<close> as its argument. Prisma's answers to a violated constraint are written out.
\<close>

section \<open>Shared parts\<close>

definition writeIdentityAudit ::
  "req_user option \<Rightarrow> string \<Rightarrow> id option \<Rightarrow> string \<Rightarrow> string option \<Rightarrow> id option \<Rightarrow> id option \<Rightarrow>
   'z identity_scheme \<Rightarrow> 'z identity_scheme" where
  "writeIdentityAudit me table recordId action reason userId companyId db =
     db\<lparr>identityAudit := identityAudit db @ [\<lparr> ia_tableName = table, ia_recordId = recordId, ia_action = action,
       ia_reason = reason, ia_userId = (case userId of Some i \<Rightarrow> Some i | None \<Rightarrow> map_option u_id me),
       ia_companyId = (case companyId of Some i \<Rightarrow> Some i
         | None \<Rightarrow> (case me of None \<Rightarrow> None | Some m \<Rightarrow> u_companyId m)) \<rparr>]\<rparr>"

definition normalizeEmail :: "string \<Rightarrow> string" where
  "normalizeEmail email = toLowerCase (trim email)"

definition normalizeOptionalString :: "string option \<Rightarrow> string option" where
  "normalizeOptionalString v = (case v of None \<Rightarrow> None | Some s \<Rightarrow> if trim s = [] then None else Some (trim s))"

definition normalizeCompanyCode :: "string \<Rightarrow> string" where
  "normalizeCompanyCode s = toUpperCase (trim s)"

definition lengthIn :: "nat \<Rightarrow> nat \<Rightarrow> string \<Rightarrow> bool" where
  "lengthIn lo hi s \<longleftrightarrow> lo \<le> length s \<and> length s \<le> hi"

definition normalizeTotpCode :: "string \<Rightarrow> string" where
  "normalizeTotpCode s = filter (\<lambda>c. \<not> isSpace c) (trim s)"

definition verifyTotpCode :: "auth_lib \<Rightarrow> date \<Rightarrow> string \<Rightarrow> string \<Rightarrow> bool" where
  "verifyTotpCode lib t c secret = al_totp lib t (normalizeTotpCode c) secret"

definition mfaVerifySchema :: "string \<Rightarrow> bool" where
  "mfaVerifySchema c \<longleftrightarrow> lengthIn 6 12 c"

definition findUser :: "id \<Rightarrow> 'z identity_scheme \<Rightarrow> user option" where
  "findUser i db = find (\<lambda>u. us_id u = i) (users db)"

definition updateUser :: "id \<Rightarrow> (user \<Rightarrow> user) \<Rightarrow> 'z identity_scheme \<Rightarrow> 'z identity_scheme" where
  "updateUser i f db = db\<lparr>users := updateWhere (\<lambda>u. us_id u = i) f (users db)\<rparr>"

definition insertUser :: "user \<Rightarrow> 'z identity_scheme \<Rightarrow> http_error + 'z identity_scheme" where
  "insertUser u db =
     (if list_ex (\<lambda>x. us_id x = us_id u \<or> us_email x = us_email u) (users db) then Inl uniqueViolation
      else Inr (db\<lparr>users := users db @ [u]\<rparr>))"

definition insertCompany :: "company \<Rightarrow> 'z identity_scheme \<Rightarrow> http_error + 'z identity_scheme" where
  "insertCompany c db =
     (if list_ex (\<lambda>x. co_id x = co_id c \<or> co_code x = co_code c) (companies db) then Inl uniqueViolation
      else Inr (db\<lparr>companies := companies db @ [c]\<rparr>))"

definition insertMember :: "company_member \<Rightarrow> 'z identity_scheme \<Rightarrow> http_error + 'z identity_scheme" where
  "insertMember m db =
     (if list_ex (\<lambda>x. cm_id x = cm_id m \<or> (cm_userId x = cm_userId m \<and> cm_companyId x = cm_companyId m)) (members db)
      then Inl uniqueViolation
      else if \<not> list_ex (\<lambda>u. us_id u = cm_userId m) (users db) \<or> \<not> list_ex (\<lambda>c. co_id c = cm_companyId m) (companies db)
      then Inl referenceViolation
      else Inr (db\<lparr>members := members db @ [m]\<rparr>))"

text \<open>\<open>updateMany({ userId, isDefault: true }, { isDefault: false })\<close>.\<close>

definition clearDefault :: "id \<Rightarrow> 'z identity_scheme \<Rightarrow> 'z identity_scheme" where
  "clearDefault userId db =
     db\<lparr>members := updateWhere (\<lambda>m. cm_userId m = userId \<and> cm_isDefault m) (\<lambda>m. m\<lparr>cm_isDefault := False\<rparr>) (members db)\<rparr>"

text \<open>The memberships joined with their companies, as \<open>resolveUserCompanyAccessContext\<close> queries them.\<close>

definition joinedMemberships :: "'z identity_scheme \<Rightarrow> membership list" where
  "joinedMemberships db = List.map_filter (\<lambda>m. case find (\<lambda>c. co_id c = cm_companyId m) (companies db) of None \<Rightarrow> None
     | Some c \<Rightarrow> Some \<lparr> m_userId = cm_userId m, m_companyId = cm_companyId m, m_companyCode = co_code c, m_companyName = co_name c,
         m_companyActive = co_isActive c, m_role = cm_role m, m_isDefault = cm_isDefault m, m_createdAt = cm_createdAt m \<rparr>)
     (members db)"

record user_payload =
  up_user :: public_user
  up_companyId :: "id option"
  up_companyCode :: "string option"
  up_companyName :: "string option"
  up_companyRole :: "Role option"
  up_permissions :: "Permission list"
  up_availableCompanies :: "available_company list"
  up_companyOnboardingRequired :: bool

text \<open>\<open>buildUserAuthContext\<close>, with the company of the request or its override.\<close>

definition buildUserAuthContext :: "'z identity_scheme \<Rightarrow> public_user \<Rightarrow> string option \<Rightarrow> user_payload" where
  "buildUserAuthContext db pu requested =
     (let first = resolveUserCompanyAccessContext (joinedMemberships db) (pu_id pu) requested;
          access = (if first = None \<and> requested \<noteq> None
            then resolveUserCompanyAccessContext (joinedMemberships db) (pu_id pu) None else first)
      in if pu_companySelectionRequired pu then
           \<lparr> up_user = pu, up_companyId = None, up_companyCode = None, up_companyName = None, up_companyRole = None, up_permissions = [],
             up_availableCompanies = (case access of None \<Rightarrow> [] | Some a \<Rightarrow> cx_availableCompanies a), up_companyOnboardingRequired = True \<rparr>
         else case access of
           None \<Rightarrow> \<lparr> up_user = pu, up_companyId = None, up_companyCode = None, up_companyName = None, up_companyRole = None, up_permissions = [],
             up_availableCompanies = [], up_companyOnboardingRequired = True \<rparr>
         | Some a \<Rightarrow> \<lparr> up_user = pu, up_companyId = Some (cx_companyId a), up_companyCode = Some (cx_companyCode a),
             up_companyName = Some (cx_companyName a), up_companyRole = Some (cx_role a), up_permissions = cx_permissions a,
             up_availableCompanies = cx_availableCompanies a, up_companyOnboardingRequired = False \<rparr>)"

text \<open>The end of most routes: a new session, and the user with the context.\<close>

type_synonym auth_answer = "user_payload \<times> auth_tokens"

definition answerWithSession ::
  "auth_lib \<Rightarrow> env \<Rightarrow> nat \<Rightarrow> user \<Rightarrow> bool \<Rightarrow> string option \<Rightarrow> 'z identity_scheme \<Rightarrow> (http_error + auth_answer) \<times> 'z identity_scheme" where
  "answerWithSession lib env k u sel requested db =
     (case issueLoginSession lib env k u sel db of
        (Inl e, db) \<Rightarrow> (Inl e, db)
      | (Inr (pu, tokens), db) \<Rightarrow> (Inr (buildUserAuthContext db pu requested, tokens), db))"

section \<open>Login and registration\<close>

record login_req =
  lr_email :: string
  lr_password :: string
  lr_mfaCode :: "string option"

definition loginSchema :: "auth_lib \<Rightarrow> login_req \<Rightarrow> bool" where
  "loginSchema lib r \<longleftrightarrow> al_isEmail lib (lr_email r) \<and> lr_password r \<noteq> [] \<and>
     (case lr_mfaCode r of None \<Rightarrow> True | Some c \<Rightarrow> lengthIn 6 12 c)"

definition login ::
  "auth_lib \<Rightarrow> env \<Rightarrow> login_req \<Rightarrow> string option \<Rightarrow> 'z identity_scheme \<Rightarrow> (http_error + auth_answer) \<times> 'z identity_scheme" where
  "login lib env r requested db =
     (if \<not> loginSchema lib r then (Inl (badRequest ''Date invalide la autentificare.''), db) else
      case find (\<lambda>u. us_email u = normalizeEmail (lr_email r)) (users db) of
        None \<Rightarrow> (Inl (unauthorized ''Email sau parola incorecta.''), db)
      | Some u \<Rightarrow>
          if \<not> al_bcryptCompare lib (lr_password r) (us_passwordHash u)
          then (Inl (unauthorized ''Email sau parola incorecta.''), db)
          else if isMfaRequiredRole (us_role u) \<and> us_mfaEnabled u then
            (case us_mfaSecret u of
               None \<Rightarrow> (Inl (conflict ''Configuratia MFA este invalida. Reconfigureaza MFA din profil.''), db)
             | Some secret \<Rightarrow>
                 if secret = [] then (Inl (conflict ''Configuratia MFA este invalida. Reconfigureaza MFA din profil.''), db)
                 else let mfaCode = trim (orElse (lr_mfaCode r) []) in
                   if mfaCode = [] then (Inl (unauthorized ''Codul MFA este obligatoriu pentru acest cont.''), db)
                   else if \<not> verifyTotpCode lib (now env) mfaCode secret then (Inl (unauthorized ''Cod MFA invalid.''), db)
                   else answerWithSession lib env 0 u True requested db)
          else answerWithSession lib env 0 u True requested db)"

record register_req =
  gr_email :: string
  gr_name :: string
  gr_password :: string

definition registerSchema :: "auth_lib \<Rightarrow> register_req \<Rightarrow> bool" where
  "registerSchema lib r \<longleftrightarrow> al_isEmail lib (gr_email r) \<and> lengthIn 2 160 (gr_name r) \<and> lengthIn 12 128 (gr_password r)"

text \<open>A uniqueness violation of the user or of the session has the same answer; after the first
  insert the user stays.\<close>

definition register ::
  "auth_lib \<Rightarrow> env \<Rightarrow> register_req \<Rightarrow> string option \<Rightarrow> 'z identity_scheme \<Rightarrow> (http_error + auth_answer) \<times> 'z identity_scheme" where
  "register lib env r requested db =
     (if \<not> registerSchema lib r then (Inl (badRequest ''Date invalide pentru crearea contului.''), db) else
      let u = \<lparr> us_id = uuid env 0, us_email = normalizeEmail (gr_email r), us_name = trim (gr_name r),
            us_passwordHash = al_bcryptHash lib (gr_password r), us_mustChangePassword = False, us_mfaEnabled = False,
            us_mfaSecret = None, us_mfaPendingSecret = None, us_role = ACCOUNTANT, us_createdAt = now env \<rparr>;
          duplicate = conflict ''Exista deja un cont cu acest email.''
      in case insertUser u db of
           Inl e \<Rightarrow> (Inl duplicate, db)
         | Inr db \<Rightarrow> (case answerWithSession lib env 1 u True requested
               (writeIdentityAudit None ''users'' (Some (us_id u)) ''REGISTER'' (Some ''self-signup'') (Some (us_id u)) None db) of
               (Inl e, db) \<Rightarrow> (Inl (if e = uniqueViolation then duplicate else e), db)
             | (Inr a, db) \<Rightarrow> (Inr a, db)))"

section \<open>MFA\<close>

definition noUser :: http_error where
  "noUser = notFound ''Utilizator inexistent.''"

text \<open>\<open>generateTotpSecret()\<close> is the argument \<open>secret\<close>.\<close>

definition mfaSetup :: "req_user \<Rightarrow> string \<Rightarrow> 'z identity_scheme \<Rightarrow> (http_error + string) \<times> 'z identity_scheme" where
  "mfaSetup me secret db =
     (case findUser (u_id me) db of
        None \<Rightarrow> (Inl recordMissing, db)
      | Some u \<Rightarrow> (Inr secret, writeIdentityAudit (Some me) ''users'' (Some (us_id u)) ''MFA_SETUP_INIT'' (Some ''mfa-setup'') None None
          (updateUser (us_id u) (\<lambda>u. u\<lparr>us_mfaPendingSecret := Some secret\<rparr>) db)))"

definition mfaVerify ::
  "auth_lib \<Rightarrow> env \<Rightarrow> req_user \<Rightarrow> string \<Rightarrow> string option \<Rightarrow> 'z identity_scheme \<Rightarrow> (http_error + auth_answer) \<times> 'z identity_scheme" where
  "mfaVerify lib env me c requested db =
     (if \<not> mfaVerifySchema c then (Inl (badRequest ''Codul MFA este invalid.''), db) else
      case findUser (u_id me) db of None \<Rightarrow> (Inl noUser, db)
      | Some u \<Rightarrow> (case us_mfaPendingSecret u of
            None \<Rightarrow> (Inl (conflict ''Nu exista o configurare MFA in curs de verificare.''), db)
          | Some secret \<Rightarrow>
              if secret = [] then (Inl (conflict ''Nu exista o configurare MFA in curs de verificare.''), db)
              else if \<not> verifyTotpCode lib (now env) c secret then (Inl (unauthorized ''Cod MFA invalid.''), db)
              else let u' = u\<lparr> us_mfaEnabled := True, us_mfaSecret := Some secret, us_mfaPendingSecret := None \<rparr>;
                  db = writeIdentityAudit (Some me) ''users'' (Some (us_id u)) ''MFA_ENABLED'' (Some ''mfa-verify'') None None
                    (updateUser (us_id u) (\<lambda>_. u') db)
                in answerWithSession lib env 0 u' (u_companySelectionRequired me) requested
                     (revokeAllActiveRefreshSessions (now env) (us_id u) db)))"

definition mfaDisable ::
  "auth_lib \<Rightarrow> env \<Rightarrow> req_user \<Rightarrow> string \<Rightarrow> string option \<Rightarrow> 'z identity_scheme \<Rightarrow> (http_error + auth_answer) \<times> 'z identity_scheme" where
  "mfaDisable lib env me c requested db =
     (if isMfaRequiredRole (activeRole me)
      then (Inl (forbidden ''Rolul curent necesita MFA activ. Dezactivarea nu este permisa.''), db)
      else if \<not> mfaVerifySchema c then (Inl (badRequest ''Codul MFA este invalid.''), db) else
      case findUser (u_id me) db of None \<Rightarrow> (Inl noUser, db)
      | Some u \<Rightarrow>
          let secret = orElse (us_mfaSecret u) [] in
          if \<not> us_mfaEnabled u \<or> secret = [] then (Inl (conflict ''MFA nu este activ pentru acest cont.''), db)
          else if \<not> verifyTotpCode lib (now env) c secret then (Inl (unauthorized ''Cod MFA invalid.''), db)
          else let u' = u\<lparr> us_mfaEnabled := False, us_mfaSecret := None, us_mfaPendingSecret := None \<rparr>;
              db = writeIdentityAudit (Some me) ''users'' (Some (us_id u)) ''MFA_DISABLED'' (Some ''mfa-disable'') None None
                (updateUser (us_id u) (\<lambda>_. u') db)
            in answerWithSession lib env 0 u' (u_companySelectionRequired me) requested
                 (revokeAllActiveRefreshSessions (now env) (us_id u) db))"

section \<open>Companies\<close>

record create_company_req =
  cr_code :: string
  cr_name :: string
  cr_contact :: company_contact
  cr_isActive :: "bool option"
  cr_reason :: "string option"

definition companyCodePattern :: "string \<Rightarrow> bool" where
  "companyCodePattern s \<longleftrightarrow> s \<noteq> [] \<and> list_all (\<lambda>c. isUpper c \<or> isLower c \<or> isDigit c \<or> c \<in> {CHR ''.'', CHR ''_'', CHR ''-''}) s"

definition maxLength :: "nat \<Rightarrow> string option \<Rightarrow> bool" where
  "maxLength n v \<longleftrightarrow> (case v of None \<Rightarrow> True | Some s \<Rightarrow> length s \<le> n)"

definition contactSchema :: "company_contact \<Rightarrow> bool" where
  "contactSchema c \<longleftrightarrow> maxLength 64 (ct_cui c) \<and> maxLength 64 (ct_registrationNumber c) \<and> maxLength 255 (ct_address c) \<and>
     maxLength 80 (ct_city c) \<and> maxLength 80 (ct_county c) \<and> maxLength 80 (ct_country c) \<and> maxLength 120 (ct_bankName c) \<and>
     maxLength 64 (ct_iban c) \<and> maxLength 160 (ct_email c) \<and> maxLength 40 (ct_phone c)"

definition companyCreateSchema :: "create_company_req \<Rightarrow> bool" where
  "companyCreateSchema r \<longleftrightarrow> lengthIn 2 32 (cr_code r) \<and> companyCodePattern (cr_code r) \<and> lengthIn 2 180 (cr_name r) \<and>
     contactSchema (cr_contact r) \<and> maxLength 256 (cr_reason r)"

definition contactRow :: "company_contact \<Rightarrow> company_contact" where
  "contactRow c = \<lparr> ct_cui = normalizeOptionalString (ct_cui c), ct_registrationNumber = normalizeOptionalString (ct_registrationNumber c),
     ct_address = normalizeOptionalString (ct_address c), ct_city = normalizeOptionalString (ct_city c),
     ct_county = normalizeOptionalString (ct_county c),
     ct_country = Some (orElse (normalizeOptionalString (ct_country c)) ''RO''),
     ct_bankName = normalizeOptionalString (ct_bankName c), ct_iban = normalizeOptionalString (ct_iban c),
     ct_email = normalizeOptionalString (ct_email c), ct_phone = normalizeOptionalString (ct_phone c) \<rparr>"

definition createOwnCompany ::
  "auth_lib \<Rightarrow> env \<Rightarrow> req_user \<Rightarrow> create_company_req \<Rightarrow> 'z identity_scheme \<Rightarrow> (http_error + auth_answer) \<times> 'z identity_scheme" where
  "createOwnCompany lib env me r db =
     (if \<not> companyCreateSchema r then (Inl (badRequest ''Date invalide pentru crearea companiei.''), db) else
      case findUser (u_id me) db of None \<Rightarrow> (Inl noUser, db)
      | Some u \<Rightarrow>
          let c = \<lparr> co_id = uuid env 0, co_code = normalizeCompanyCode (cr_code r), co_name = trim (cr_name r),
                co_contact = contactRow (cr_contact r), co_isActive = True, co_createdAt = now env \<rparr>;
              m = \<lparr> cm_id = uuid env 1, cm_userId = us_id u, cm_companyId = co_id c, cm_role = us_role u, cm_isDefault = True,
                cm_createdAt = now env \<rparr>;
              reason = Some (orElse (cr_reason r) ''self-company-create'');
              duplicate = (\<lambda>e. if e = uniqueViolation then conflict ''Codul companiei exista deja.'' else e)
          in case bindR (insertCompany c db) (\<lambda>db. insertMember m (clearDefault (us_id u) db)) of
               Inl e \<Rightarrow> (Inl (duplicate e), db)
             | Inr db \<Rightarrow>
                 let db = writeIdentityAudit (Some me) ''user_company_memberships'' (Some (cm_id m)) ''CREATE'' reason None (Some (co_id c))
                    (writeIdentityAudit (Some me) ''companies'' (Some (co_id c)) ''CREATE'' reason None (Some (co_id c)) db)
                 in (case answerWithSession lib env 2 u False (Some (co_id c)) db of
                       (Inl e, db) \<Rightarrow> (Inl (duplicate e), db)
                     | (Inr a, db) \<Rightarrow> (Inr a, db)))"

record switch_req =
  sw_companyId :: string
  sw_makeDefault :: bool
  sw_reason :: "string option"

definition switchCompany ::
  "auth_lib \<Rightarrow> env \<Rightarrow> req_user \<Rightarrow> switch_req \<Rightarrow> 'z identity_scheme \<Rightarrow> (http_error + auth_answer) \<times> 'z identity_scheme" where
  "switchCompany lib env me r db =
     (let requested = trim (sw_companyId r) in
      if sw_companyId r = [] then (Inl (badRequest ''Date invalide pentru schimbarea companiei active.''), db)
      else if requested = [] then (Inl (badRequest ''Compania selectata este invalida.''), db) else
      case findUser (u_id me) db of None \<Rightarrow> (Inl noUser, db)
      | Some u \<Rightarrow>
         (case resolveUserCompanyAccessContext (joinedMemberships db) (us_id u) (Some requested) of
            None \<Rightarrow> (Inl (forbidden ''Nu ai acces la compania selectata.''), db)
          | Some cx \<Rightarrow>
              if cx_companyId cx \<noteq> requested then (Inl (forbidden ''Nu ai acces la compania selectata.''), db) else
              let finish = (\<lambda>db. answerWithSession lib env 0 u False (Some requested) db) in
              if sw_makeDefault r then
                (case find (\<lambda>m. cm_userId m = us_id u \<and> cm_companyId m = requested \<and>
                     list_ex (\<lambda>c. co_id c = cm_companyId m \<and> co_isActive c) (companies db)) (members db) of
                   None \<Rightarrow> (Inl (forbidden ''Nu ai acces la compania selectata.''), db)
                 | Some m \<Rightarrow>
                     let db = clearDefault (us_id u) db;
                         db = db\<lparr>members := updateWhere (\<lambda>x. cm_id x = cm_id m) (\<lambda>x. x\<lparr>cm_isDefault := True\<rparr>) (members db)\<rparr>
                     in finish (writeIdentityAudit (Some me) ''user_company_memberships'' (Some (cm_id m)) ''SWITCH_COMPANY_CONTEXT''
                          (Some (orElse (sw_reason r) ''switch-company-default'')) None (Some requested) db))
              else finish (writeIdentityAudit (Some me) ''user_company_memberships'' None ''SWITCH_COMPANY_CONTEXT''
                     (Some (orElse (sw_reason r) ''switch-company-session-only'')) None (Some requested) db)))"

section \<open>The first administrator\<close>

text \<open>\<open>readBootstrapToken\<close> of the \<open>x-bootstrap-token\<close> header.\<close>

definition readBootstrapToken :: "string option \<Rightarrow> string option" where
  "readBootstrapToken header = (case header of None \<Rightarrow> None | Some h \<Rightarrow> if trim h = [] then None else Some (trim h))"

definition validateBootstrapAdminAccess :: "auth_lib \<Rightarrow> string option \<Rightarrow> 'z identity_scheme \<Rightarrow> http_error option" where
  "validateBootstrapAdminAccess lib header db =
     (if al_production lib then Some (forbidden ''Bootstrap admin este dezactivat in productie.'')
      else if \<not> al_bootstrapEnabled lib then Some (forbidden ''Bootstrap admin este dezactivat.'')
      else if bootstrapTokenConsumed db then Some (conflict ''Token-ul de bootstrap a fost deja folosit.'')
      else case (al_bootstrapToken lib, readBootstrapToken header) of
          (Some expected, Some provided) \<Rightarrow>
            if expected = [] \<or> expected \<noteq> provided then Some (unauthorized ''Token bootstrap invalid.'') else None
        | _ \<Rightarrow> Some (unauthorized ''Token bootstrap invalid.''))"

definition bootstrapSchema :: "auth_lib \<Rightarrow> register_req \<Rightarrow> bool" where
  "bootstrapSchema lib r \<longleftrightarrow> al_isEmail lib (gr_email r) \<and> 2 \<le> length (gr_name r) \<and> 12 \<le> length (gr_password r)"

definition emptyContact :: company_contact where
  "emptyContact = \<lparr> ct_cui = None, ct_registrationNumber = None, ct_address = None, ct_city = None, ct_county = None,
     ct_country = Some ''RO'', ct_bankName = None, ct_iban = None, ct_email = None, ct_phone = None \<rparr>"

text \<open>The oldest active company, or the default one, created or renamed and activated.\<close>

definition fallbackCompany :: "env \<Rightarrow> 'z identity_scheme \<Rightarrow> http_error + (company \<times> 'z identity_scheme)" where
  "fallbackCompany env db =
     (case sort_key co_createdAt (filter co_isActive (companies db)) of
        c # _ \<Rightarrow> Inr (c, db)
      | [] \<Rightarrow> (case find (\<lambda>c. co_code c = ''default'') (companies db) of
            Some c \<Rightarrow> let c' = c\<lparr> co_name := ''Compania implicita'', co_isActive := True \<rparr>
              in Inr (c', db\<lparr>companies := updateWhere (\<lambda>x. co_code x = ''default'') (\<lambda>_. c') (companies db)\<rparr>)
          | None \<Rightarrow> let c = \<lparr> co_id = uuid env 1, co_code = ''default'', co_name = ''Compania implicita'', co_contact = emptyContact,
                co_isActive = True, co_createdAt = now env \<rparr>
              in bindR (insertCompany c db) (\<lambda>db. Inr (c, db))))"

definition createBootstrapAdminUser :: "auth_lib \<Rightarrow> env \<Rightarrow> register_req \<Rightarrow> 'z identity_scheme \<Rightarrow> http_error + (user \<times> 'z identity_scheme)" where
  "createBootstrapAdminUser lib env r db =
     (if users db \<noteq> [] then Inl (conflict ''Bootstrap dezactivat: exista deja utilizatori.'') else
      let u = \<lparr> us_id = uuid env 0, us_email = normalizeEmail (gr_email r), us_name = gr_name r,
            us_passwordHash = al_bcryptHash lib (gr_password r), us_mustChangePassword = True, us_mfaEnabled = False,
            us_mfaSecret = None, us_mfaPendingSecret = None, us_role = ADMIN, us_createdAt = now env \<rparr>
      in bindR (insertUser u db) (\<lambda>db. bindR (fallbackCompany env db) (\<lambda>(c, db).
         bindR (insertMember \<lparr> cm_id = uuid env 2, cm_userId = us_id u, cm_companyId = co_id c, cm_role = ADMIN,
             cm_isDefault = True, cm_createdAt = now env \<rparr> db) (\<lambda>db.
         Inr (u, writeIdentityAudit None ''users'' (Some (us_id u)) ''CREATE'' (Some ''bootstrap-admin'') (Some (us_id u)) None db)))))"

definition bootstrapAdmin ::
  "auth_lib \<Rightarrow> env \<Rightarrow> string option \<Rightarrow> register_req \<Rightarrow> 'z identity_scheme \<Rightarrow> (http_error + user) \<times> 'z identity_scheme" where
  "bootstrapAdmin lib env header r db =
     (case validateBootstrapAdminAccess lib header db of
        Some e \<Rightarrow> (Inl e, db)
      | None \<Rightarrow> if \<not> bootstrapSchema lib r then (Inl (badRequest ''Date invalide.''), db) else
          (case createBootstrapAdminUser lib env r db of
             Inl e \<Rightarrow> (Inl e, db)
           | Inr (u, db) \<Rightarrow> (Inr u, db\<lparr>bootstrapTokenConsumed := True\<rparr>)))"

section \<open>Password, refresh, logout\<close>

record password_req =
  pw_currentPassword :: string
  pw_newPassword :: string

definition changePassword ::
  "auth_lib \<Rightarrow> env \<Rightarrow> req_user \<Rightarrow> password_req \<Rightarrow> string option \<Rightarrow> 'z identity_scheme \<Rightarrow> (http_error + auth_answer) \<times> 'z identity_scheme" where
  "changePassword lib env me r requested db =
     (if pw_currentPassword r = [] \<or> length (pw_newPassword r) < 12
      then (Inl (badRequest ''Date invalide pentru schimbare parola.''), db) else
      case findUser (u_id me) db of None \<Rightarrow> (Inl noUser, db)
      | Some u \<Rightarrow>
          if \<not> al_bcryptCompare lib (pw_currentPassword r) (us_passwordHash u)
          then (Inl (unauthorized ''Parola curenta este incorecta.''), db)
          else if al_bcryptCompare lib (pw_newPassword r) (us_passwordHash u)
          then (Inl (badRequest ''Noua parola trebuie sa fie diferita de parola curenta.''), db)
          else let u' = u\<lparr> us_passwordHash := al_bcryptHash lib (pw_newPassword r), us_mustChangePassword := False \<rparr>;
              reason = (if us_mustChangePassword u then ''mandatory-initial-password-change'' else ''user-password-change'');
              db = writeIdentityAudit (Some me) ''users'' (Some (us_id u)) ''UPDATE_PASSWORD'' (Some reason) None None
                (updateUser (us_id u) (\<lambda>_. u') db)
            in answerWithSession lib env 0 u' (u_companySelectionRequired me) requested
                 (revokeAllActiveRefreshSessions (now env) (us_id u) db))"

definition refresh ::
  "auth_lib \<Rightarrow> env \<Rightarrow> redis_exists \<Rightarrow> string option \<Rightarrow> string option \<Rightarrow> 'z identity_scheme \<Rightarrow> (http_error + auth_answer) \<times> 'z identity_scheme" where
  "refresh lib env redis token requested db =
     (case token of None \<Rightarrow> (Inl (unauthorized ''Sesiune expirata. Reautentificare necesara.''), db)
      | Some t \<Rightarrow> (case rotateRefreshSession lib env redis t db of
            (Inl e, db) \<Rightarrow> (Inl e, db)
          | (Inr None, db) \<Rightarrow> (Inl (unauthorized ''Refresh token invalid sau expirat.''), db)
          | (Inr (Some (pu, tokens)), db) \<Rightarrow> (Inr (buildUserAuthContext db pu requested, tokens), db)))"

definition getMe :: "req_user \<Rightarrow> string option \<Rightarrow> 'z identity_scheme \<Rightarrow> http_error + user_payload" where
  "getMe me requested db =
     (case findUser (u_id me) db of None \<Rightarrow> Inl noUser
      | Some u \<Rightarrow> Inr (buildUserAuthContext db (toPublicUser u (u_companySelectionRequired me)) requested))"

definition logout :: "auth_lib \<Rightarrow> redis_set \<Rightarrow> redis_set \<Rightarrow> date \<Rightarrow> string option \<Rightarrow> string option \<Rightarrow> 'z identity_scheme \<Rightarrow> 'z identity_scheme" where
  "logout lib redisA redisR t access refreshToken db =
     (let db = (case access of None \<Rightarrow> db | Some a \<Rightarrow> revokeSessionByAccessToken lib redisA t a db)
      in case refreshToken of None \<Rightarrow> db | Some r \<Rightarrow> revokeRefreshSessionByToken lib redisR t r db)"

text \<open>\<open>authenticate\<close> on this state; a lookup may also prune the list.\<close>

definition authenticateSession :: "auth_lib \<Rightarrow> redis_exists \<Rightarrow> date \<Rightarrow> string option \<Rightarrow> 'z identity_scheme \<Rightarrow> http_error + req_user" where
  "authenticateSession lib redis t token db =
     authenticate (al_verifyAccess lib t) (\<lambda>sid. fst (isSessionIdBlacklisted redis t sid (revoked db))) token"

definition pruneRevoked :: "redis_exists \<Rightarrow> date \<Rightarrow> string \<Rightarrow> 'z identity_scheme \<Rightarrow> 'z identity_scheme" where
  "pruneRevoked redis t sid db = db\<lparr>revoked := snd (isSessionIdBlacklisted redis t sid (revoked db))\<rparr>"

end
