(* ===== verification/AdminRoutes.thy ===== *)
theory AdminRoutes
  imports AuthRoutes
begin

text \<open>
  The routes of routes/admin.ts, for global administrators: companies, users and memberships, with
  the cascades schema.prisma declares for them. Every route is one transaction, so an error leaves
  the tables as they were. That a row of another component still refers to a user
  (\<open>onDelete: Restrict\<close>) is the argument \<open>referenced\<close>; no relation to a company restricts.
\<close>

definition requireGlobalAdmin :: "req_user \<Rightarrow> http_error option" where
  "requireGlobalAdmin me =
     (if u_role me \<noteq> ADMIN then Some (forbidden ''Doar administratorii globali pot accesa acest modul.'') else None)"

definition adminRoute :: "req_user \<Rightarrow> http_error + 'a \<Rightarrow> http_error + 'a" where
  "adminRoute me r = (case requireGlobalAdmin me of Some e \<Rightarrow> Inl e | None \<Rightarrow> r)"

text \<open>What the handlers answer when Prisma reports P2002.\<close>

definition onDuplicate :: "string \<Rightarrow> http_error + 'a \<Rightarrow> http_error + 'a" where
  "onDuplicate msg r = (case r of Inl e \<Rightarrow> Inl (if e = uniqueViolation then conflict msg else e) | Inr x \<Rightarrow> Inr x)"

section \<open>Companies\<close>

definition adminCreateCompany ::
  "env \<Rightarrow> req_user \<Rightarrow> create_company_req \<Rightarrow> 'z identity_scheme \<Rightarrow> http_error + (company \<times> 'z identity_scheme)" where
  "adminCreateCompany env me r db =
     (if \<not> companyCreateSchema r then Inl (badRequest ''Date invalide pentru crearea companiei.'') else
      let c = \<lparr> co_id = uuid env 0, co_code = normalizeCompanyCode (cr_code r), co_name = trim (cr_name r),
            co_contact = contactRow (cr_contact r), co_isActive = orElse (cr_isActive r) True, co_createdAt = now env \<rparr>
      in onDuplicate ''Codul companiei exista deja.'' (bindR (insertCompany c db) (\<lambda>db.
           Inr (c, writeIdentityAudit (Some me) ''Company'' (Some (co_id c)) ''ADMIN_COMPANY_CREATE'' (cr_reason r) None (Some (co_id c)) db))))"

text \<open>An absent field (\<open>None\<close>) stays, a null or a text is stored normalised.\<close>

record company_patch =
  cp_name :: "string option"
  cp_cui :: "string option option"
  cp_registrationNumber :: "string option option"
  cp_address :: "string option option"
  cp_city :: "string option option"
  cp_county :: "string option option"
  cp_country :: "string option option"
  cp_bankName :: "string option option"
  cp_iban :: "string option option"
  cp_email :: "string option option"
  cp_phone :: "string option option"
  cp_isActive :: "bool option"
  cp_reason :: "string option"

definition contactFields :: "company_patch \<Rightarrow> (string option option \<times> nat) list" where
  "contactFields p = [(cp_cui p, 64), (cp_registrationNumber p, 64), (cp_address p, 255), (cp_city p, 80), (cp_county p, 80),
     (cp_country p, 80), (cp_bankName p, 120), (cp_iban p, 64), (cp_email p, 160), (cp_phone p, 40)]"

definition companyUpdateSchema :: "company_patch \<Rightarrow> bool" where
  "companyUpdateSchema p \<longleftrightarrow>
     (case cp_name p of None \<Rightarrow> True | Some n \<Rightarrow> lengthIn 2 180 n) \<and>
     list_all (\<lambda>(v, n). case v of Some (Some s) \<Rightarrow> length s \<le> n | _ \<Rightarrow> True) (contactFields p) \<and> maxLength 256 (cp_reason p) \<and>
     (cp_name p \<noteq> None \<or> list_ex (\<lambda>(v, _). v \<noteq> None) (contactFields p) \<or> cp_isActive p \<noteq> None)"

definition patchText :: "string option option \<Rightarrow> string option \<Rightarrow> string option" where
  "patchText p old = (case p of None \<Rightarrow> old | Some v \<Rightarrow> normalizeOptionalString v)"

definition patchContact :: "company_patch \<Rightarrow> company_contact \<Rightarrow> company_contact" where
  "patchContact p c = \<lparr> ct_cui = patchText (cp_cui p) (ct_cui c),
     ct_registrationNumber = patchText (cp_registrationNumber p) (ct_registrationNumber c),
     ct_address = patchText (cp_address p) (ct_address c), ct_city = patchText (cp_city p) (ct_city c),
     ct_county = patchText (cp_county p) (ct_county c), ct_country = patchText (cp_country p) (ct_country c),
     ct_bankName = patchText (cp_bankName p) (ct_bankName c), ct_iban = patchText (cp_iban p) (ct_iban c),
     ct_email = patchText (cp_email p) (ct_email c), ct_phone = patchText (cp_phone p) (ct_phone c) \<rparr>"

definition adminUpdateCompany ::
  "req_user \<Rightarrow> id \<Rightarrow> company_patch \<Rightarrow> 'z identity_scheme \<Rightarrow> http_error + (company \<times> 'z identity_scheme)" where
  "adminUpdateCompany me i p db =
     (if \<not> companyUpdateSchema p then Inl (badRequest ''Date invalide pentru actualizarea companiei.'') else
      case find (\<lambda>c. co_id c = i) (companies db) of
        None \<Rightarrow> Inl (notFound ''Compania nu exista.'')
      | Some c \<Rightarrow>
          let c' = c\<lparr> co_name := (case cp_name p of None \<Rightarrow> co_name c | Some n \<Rightarrow> trim n), co_contact := patchContact p (co_contact c),
                co_isActive := orElse (cp_isActive p) (co_isActive c) \<rparr>
          in Inr (c', writeIdentityAudit (Some me) ''Company'' (Some i) ''ADMIN_COMPANY_UPDATE'' (cp_reason p) None (Some i)
               (db\<lparr>companies := updateWhere (\<lambda>x. co_id x = i) (\<lambda>_. c') (companies db)\<rparr>)))"

text \<open>Deleting a company cascades to its memberships and clears it in the audit rows.\<close>

definition deleteCompany :: "id \<Rightarrow> 'z identity_scheme \<Rightarrow> 'z identity_scheme" where
  "deleteCompany i db =
     db\<lparr> companies := filter (\<lambda>c. co_id c \<noteq> i) (companies db), members := filter (\<lambda>m. cm_companyId m \<noteq> i) (members db),
         identityAudit := updateWhere (\<lambda>a. ia_companyId a = Some i) (\<lambda>a. a\<lparr>ia_companyId := None\<rparr>) (identityAudit db) \<rparr>"

definition adminDeleteCompany :: "req_user \<Rightarrow> id \<Rightarrow> 'z identity_scheme \<Rightarrow> http_error + 'z identity_scheme" where
  "adminDeleteCompany me i db =
     (case find (\<lambda>c. co_id c = i) (companies db) of
        None \<Rightarrow> Inl (notFound ''Compania nu exista.'')
      | Some c \<Rightarrow> Inr (deleteCompany i
          (writeIdentityAudit (Some me) ''Company'' (Some i) ''ADMIN_COMPANY_DELETE'' None None (Some i) db)))"

section \<open>Users\<close>

record membership_input =
  mi_companyId :: id
  mi_role :: Role
  mi_isDefault :: "bool option"

record create_user_req =
  cu_email :: string
  cu_name :: string
  cu_password :: string
  cu_role :: Role
  cu_mfaEnabled :: "bool option"
  cu_mustChangePassword :: "bool option"
  cu_memberships :: "membership_input list"
  cu_reason :: "string option"

definition userCreateSchema :: "auth_lib \<Rightarrow> create_user_req \<Rightarrow> bool" where
  "userCreateSchema lib r \<longleftrightarrow> al_isEmail lib (cu_email r) \<and> lengthIn 2 160 (cu_name r) \<and> lengthIn 12 128 (cu_password r) \<and>
     cu_memberships r \<noteq> [] \<and> maxLength 256 (cu_reason r)"

text \<open>\<open>findIndex\<close> of the first membership asked to be the default; else the first one is.\<close>

fun defaultMembershipIndex :: "membership_input list \<Rightarrow> nat option" where
  "defaultMembershipIndex [] = None"
| "defaultMembershipIndex (m # ms) =
     (if mi_isDefault m = Some True then Some 0 else map_option Suc (defaultMembershipIndex ms))"

definition membershipsToCreate :: "env \<Rightarrow> id \<Rightarrow> membership_input list \<Rightarrow> company_member list" where
  "membershipsToCreate env userId ms =
     (let d = orElse (defaultMembershipIndex ms) 0 in
      map (\<lambda>(i, m). \<lparr> cm_id = uuid env (Suc i), cm_userId = userId, cm_companyId = mi_companyId m, cm_role = mi_role m,
        cm_isDefault = (i = d), cm_createdAt = now env \<rparr>) (enumerate 0 ms))"

fun insertMembers :: "company_member list \<Rightarrow> 'z identity_scheme \<Rightarrow> http_error + 'z identity_scheme" where
  "insertMembers [] db = Inr db"
| "insertMembers (m # ms) db = bindR (insertMember m db) (insertMembers ms)"

definition adminCreateUser ::
  "auth_lib \<Rightarrow> env \<Rightarrow> req_user \<Rightarrow> create_user_req \<Rightarrow> 'z identity_scheme \<Rightarrow> http_error + (user \<times> 'z identity_scheme)" where
  "adminCreateUser lib env me r db =
     (if \<not> userCreateSchema lib r then Inl (badRequest ''Date invalide pentru crearea utilizatorului.'') else
      let ids = remdups (map mi_companyId (cu_memberships r)) in
      if length (filter (\<lambda>c. co_id c \<in> set ids \<and> co_isActive c) (companies db)) \<noteq> length ids
      then Inl (notFound ''Una sau mai multe companii din memberships nu exista sau sunt inactive.'') else
      let u = \<lparr> us_id = uuid env 0, us_email = normalizeEmail (cu_email r), us_name = trim (cu_name r),
            us_passwordHash = al_bcryptHash lib (cu_password r), us_mustChangePassword = orElse (cu_mustChangePassword r) True,
            us_mfaEnabled = orElse (cu_mfaEnabled r) False, us_mfaSecret = None, us_mfaPendingSecret = None,
            us_role = cu_role r, us_createdAt = now env \<rparr>
      in onDuplicate ''Email-ul utilizatorului exista deja.'' (bindR (insertUser u db) (\<lambda>db.
         bindR (insertMembers (membershipsToCreate env (us_id u) (cu_memberships r)) db) (\<lambda>db.
         Inr (u, writeIdentityAudit (Some me) ''User'' (Some (us_id u)) ''ADMIN_USER_CREATE'' (cu_reason r) None None db)))))"

record user_patch =
  up_name :: "string option"
  up_role :: "Role option"
  up_mfaEnabled :: "bool option"
  up_mustChangePassword :: "bool option"
  up_reason :: "string option"

definition userUpdateSchema :: "user_patch \<Rightarrow> bool" where
  "userUpdateSchema p \<longleftrightarrow> (case up_name p of None \<Rightarrow> True | Some n \<Rightarrow> lengthIn 2 160 n) \<and> maxLength 256 (up_reason p) \<and>
     (up_name p \<noteq> None \<or> up_role p \<noteq> None \<or> up_mfaEnabled p \<noteq> None \<or> up_mustChangePassword p \<noteq> None)"

definition adminUpdateUser :: "req_user \<Rightarrow> id \<Rightarrow> user_patch \<Rightarrow> 'z identity_scheme \<Rightarrow> http_error + (user \<times> 'z identity_scheme)" where
  "adminUpdateUser me i p db =
     (if \<not> userUpdateSchema p then Inl (badRequest ''Date invalide pentru actualizarea utilizatorului.'') else
      case findUser i db of
        None \<Rightarrow> Inl (notFound ''Utilizatorul nu exista.'')
      | Some u \<Rightarrow>
          let u' = u\<lparr> us_name := (case up_name p of None \<Rightarrow> us_name u | Some n \<Rightarrow> trim n), us_role := orElse (up_role p) (us_role u),
                us_mfaEnabled := orElse (up_mfaEnabled p) (us_mfaEnabled u),
                us_mustChangePassword := orElse (up_mustChangePassword p) (us_mustChangePassword u) \<rparr>
          in Inr (u', writeIdentityAudit (Some me) ''User'' (Some i) ''ADMIN_USER_UPDATE'' (up_reason p) None None
               (updateUser i (\<lambda>_. u') db)))"

definition adminResetPassword ::
  "auth_lib \<Rightarrow> env \<Rightarrow> req_user \<Rightarrow> id \<Rightarrow> string \<Rightarrow> string option \<Rightarrow> 'z identity_scheme \<Rightarrow> http_error + (nat \<times> 'z identity_scheme)" where
  "adminResetPassword lib env me i newPassword reason db =
     (if \<not> lengthIn 12 128 newPassword \<or> \<not> maxLength 256 reason then Inl (badRequest ''Date invalide pentru resetarea parolei.'') else
      case findUser i db of
        None \<Rightarrow> Inl (notFound ''Utilizatorul nu exista.'')
      | Some u \<Rightarrow>
          let revokedSessions = length (filter (\<lambda>s. rs_userId s = i \<and> rs_revokedAt s = None) (refreshSessions db));
              db = updateUser i (\<lambda>u. u\<lparr> us_passwordHash := al_bcryptHash lib newPassword, us_mustChangePassword := True \<rparr>) db
          in Inr (revokedSessions, writeIdentityAudit (Some me) ''User'' (Some i) ''ADMIN_USER_RESET_PASSWORD'' reason None None
               (revokeAllActiveRefreshSessions (now env) i db)))"

definition deleteUser :: "id \<Rightarrow> 'z identity_scheme \<Rightarrow> 'z identity_scheme" where
  "deleteUser i db =
     db\<lparr> users := filter (\<lambda>u. us_id u \<noteq> i) (users db), members := filter (\<lambda>m. cm_userId m \<noteq> i) (members db),
         refreshSessions := filter (\<lambda>s. rs_userId s \<noteq> i) (refreshSessions db),
         identityAudit := updateWhere (\<lambda>a. ia_userId a = Some i) (\<lambda>a. a\<lparr>ia_userId := None\<rparr>) (identityAudit db) \<rparr>"

definition adminDeleteUser :: "(id \<Rightarrow> bool) \<Rightarrow> req_user \<Rightarrow> id \<Rightarrow> 'z identity_scheme \<Rightarrow> http_error + 'z identity_scheme" where
  "adminDeleteUser referenced me i db =
     (if u_id me = i then Inl (conflict ''Administratorul curent nu isi poate sterge propriul cont.'') else
      case findUser i db of
        None \<Rightarrow> Inl (notFound ''Utilizatorul nu exista.'')
      | Some u \<Rightarrow> if referenced i then Inl (conflict ''Utilizatorul nu poate fi sters deoarece exista referinte active.'')
          else Inr (writeIdentityAudit (Some me) ''User'' (Some i) ''ADMIN_USER_DELETE'' None None None (deleteUser i db)))"

section \<open>Memberships\<close>

record create_membership_req =
  ms_userId :: id
  ms_companyId :: id
  ms_role :: Role
  ms_isDefault :: "bool option"
  ms_reason :: "string option"

definition adminCreateMembership ::
  "env \<Rightarrow> req_user \<Rightarrow> create_membership_req \<Rightarrow> 'z identity_scheme \<Rightarrow> http_error + (company_member \<times> 'z identity_scheme)" where
  "adminCreateMembership env me r db =
     (if \<not> maxLength 256 (ms_reason r) then Inl (badRequest ''Date invalide pentru crearea membership-ului.'')
      else if findUser (ms_userId r) db = None then Inl (notFound ''Utilizatorul pentru membership nu exista.'')
      else if \<not> list_ex (\<lambda>c. co_id c = ms_companyId r \<and> co_isActive c) (companies db)
      then Inl (notFound ''Compania pentru membership nu exista sau este inactiva.'')
      else
      let db = (if ms_isDefault r = Some True then clearDefault (ms_userId r) db else db);
          m = \<lparr> cm_id = uuid env 0, cm_userId = ms_userId r, cm_companyId = ms_companyId r, cm_role = ms_role r,
            cm_isDefault = orElse (ms_isDefault r) False, cm_createdAt = now env \<rparr>
      in onDuplicate ''Membership-ul pentru aceasta pereche user-companie exista deja.'' (bindR (insertMember m db) (\<lambda>db.
           Inr (m, writeIdentityAudit (Some me) ''UserCompanyMembership'' (Some (cm_id m)) ''ADMIN_MEMBERSHIP_CREATE'' (ms_reason r)
             None (Some (cm_companyId m)) db))))"

record membership_patch =
  mp_role :: "Role option"
  mp_isDefault :: "bool option"
  mp_reason :: "string option"

definition adminUpdateMembership ::
  "req_user \<Rightarrow> id \<Rightarrow> membership_patch \<Rightarrow> 'z identity_scheme \<Rightarrow> http_error + (company_member \<times> 'z identity_scheme)" where
  "adminUpdateMembership me i p db =
     (if \<not> maxLength 256 (mp_reason p) \<or> (mp_role p = None \<and> mp_isDefault p = None)
      then Inl (badRequest ''Date invalide pentru actualizarea membership-ului.'') else
      case find (\<lambda>m. cm_id m = i) (members db) of
        None \<Rightarrow> Inl (notFound ''Membership-ul nu exista.'')
      | Some m \<Rightarrow>
          let db = (if mp_isDefault p = Some True then clearDefault (cm_userId m) db else db);
              m' = m\<lparr> cm_role := orElse (mp_role p) (cm_role m), cm_isDefault := orElse (mp_isDefault p) (cm_isDefault m) \<rparr>
          in Inr (m', writeIdentityAudit (Some me) ''UserCompanyMembership'' (Some i) ''ADMIN_MEMBERSHIP_UPDATE'' (mp_reason p)
               None (Some (cm_companyId m)) (db\<lparr>members := updateWhere (\<lambda>x. cm_id x = i) (\<lambda>_. m') (members db)\<rparr>)))"

definition adminDeleteMembership :: "req_user \<Rightarrow> id \<Rightarrow> 'z identity_scheme \<Rightarrow> http_error + 'z identity_scheme" where
  "adminDeleteMembership me i db =
     (case find (\<lambda>m. cm_id m = i) (members db) of
        None \<Rightarrow> Inl (notFound ''Membership-ul nu exista.'')
      | Some m \<Rightarrow> Inr (writeIdentityAudit (Some me) ''UserCompanyMembership'' (Some i) ''ADMIN_MEMBERSHIP_DELETE'' None None
          (Some (cm_companyId m)) (db\<lparr>members := filter (\<lambda>x. cm_id x \<noteq> i) (members db)\<rparr>)))"

end
