(* ===== verification/Identity.thy ===== *)
theory Identity
  imports AdminRoutes
begin

text \<open>
  The identity tables under every route of routes/auth.ts and routes/admin.ts: what the routes keep
  of them, that a refresh token rotates once, that two concurrent rotations both succeed, that a
  logged out session stays refused, and what the MFA check at login misses.

  \<open>identity_step lib X T\<close> relates the tables before and after one request; \<open>X\<close> are ids that
  \<open>randomUUID\<close> does not produce again, and no request is later than \<open>T\<close>.
\<close>

section \<open>Requests\<close>

definition freshEnv :: "id set \<Rightarrow> date \<Rightarrow> env \<Rightarrow> bool" where
  "freshEnv X T env \<longleftrightarrow> (\<forall>k. uuid env k \<notin> X) \<and> now env \<le> T"

inductive identity_step :: "auth_lib \<Rightarrow> id set \<Rightarrow> date \<Rightarrow> 'z identity_scheme \<Rightarrow> 'z identity_scheme \<Rightarrow> bool" for lib X T where
  login: "freshEnv X T env \<Longrightarrow> identity_step lib X T db (snd (login lib env r c db))"
| register: "freshEnv X T env \<Longrightarrow> identity_step lib X T db (snd (register lib env gr c db))"
| mfa_setup: "identity_step lib X T db (snd (mfaSetup me secret db))"
| mfa_verify: "freshEnv X T env \<Longrightarrow> identity_step lib X T db (snd (mfaVerify lib env me k c db))"
| mfa_disable: "freshEnv X T env \<Longrightarrow> identity_step lib X T db (snd (mfaDisable lib env me k c db))"
| own_company: "freshEnv X T env \<Longrightarrow> identity_step lib X T db (snd (createOwnCompany lib env me cr db))"
| switch: "freshEnv X T env \<Longrightarrow> identity_step lib X T db (snd (switchCompany lib env me sw db))"
| bootstrap: "freshEnv X T env \<Longrightarrow> identity_step lib X T db (snd (bootstrapAdmin lib env h gr db))"
| password: "freshEnv X T env \<Longrightarrow> identity_step lib X T db (snd (changePassword lib env me pw c db))"
| refresh: "freshEnv X T env \<Longrightarrow> identity_step lib X T db (snd (refresh lib env rx tok c db))"
| logout: "t \<le> T \<Longrightarrow> identity_step lib X T db (logout lib ra rr t acc tok db)"
| prune: "t \<le> T \<Longrightarrow> identity_step lib X T db (pruneRevoked rx t sid db)"
| create_company: "freshEnv X T env \<Longrightarrow> adminRoute me (adminCreateCompany env me cr db) = Inr (co, db') \<Longrightarrow> identity_step lib X T db db'"
| update_company: "adminRoute me (adminUpdateCompany me i cp db) = Inr (co, db') \<Longrightarrow> identity_step lib X T db db'"
| delete_company: "adminRoute me (adminDeleteCompany me i db) = Inr db' \<Longrightarrow> identity_step lib X T db db'"
| create_user: "freshEnv X T env \<Longrightarrow> adminRoute me (adminCreateUser lib env me ur db) = Inr (u, db') \<Longrightarrow> identity_step lib X T db db'"
| update_user: "adminRoute me (adminUpdateUser me i up db) = Inr (u, db') \<Longrightarrow> identity_step lib X T db db'"
| reset_password: "freshEnv X T env \<Longrightarrow> adminRoute me (adminResetPassword lib env me i p reason db) = Inr (n, db') \<Longrightarrow> identity_step lib X T db db'"
| delete_user: "adminRoute me (adminDeleteUser referenced me i db) = Inr db' \<Longrightarrow> identity_step lib X T db db'"
| create_membership: "freshEnv X T env \<Longrightarrow> adminRoute me (adminCreateMembership env me mr db) = Inr (m, db') \<Longrightarrow> identity_step lib X T db db'"
| update_membership: "adminRoute me (adminUpdateMembership me i mp db) = Inr (m, db') \<Longrightarrow> identity_step lib X T db db'"
| delete_membership: "adminRoute me (adminDeleteMembership me i db) = Inr db' \<Longrightarrow> identity_step lib X T db db'"

lemma adminRoute_Inr: "adminRoute me r = Inr x \<longleftrightarrow> u_role me = ADMIN \<and> r = Inr x"
  by (auto simp: adminRoute_def requireGlobalAdmin_def)

lemma onDuplicate_Inr: "onDuplicate msg r = Inr x \<longleftrightarrow> r = Inr x"
  by (cases r) (auto simp: onDuplicate_def)

section \<open>Writes\<close>

text \<open>Every route is a sequence of these writes, so a property they all keep is kept by every route.\<close>

definition tokenExpiry :: "auth_lib \<Rightarrow> date \<Rightarrow> string \<Rightarrow> int \<Rightarrow> bool" where
  "tokenExpiry lib t sid e \<longleftrightarrow>
     (\<exists>tok q. verifyAccessToken (al_verifyAccess lib t) tok = Some q \<and> tp_sid q = sid \<and> orElse (tp_exp q) 0 = e) \<or>
     (\<exists>tok q. verifyRefreshToken lib t tok = Some q \<and> rt_sid q = sid \<and> orElse (rt_exp q) 0 = e)"

inductive identity_write :: "auth_lib \<Rightarrow> id set \<Rightarrow> date \<Rightarrow> 'z identity_scheme \<Rightarrow> 'z identity_scheme \<Rightarrow> bool" for lib X T where
  user: "insertUser u db = Inr db' \<Longrightarrow> identity_write lib X T db db'"
| company: "insertCompany c db = Inr db' \<Longrightarrow> identity_write lib X T db db'"
| member: "insertMember m db = Inr db' \<Longrightarrow> (cm_isDefault m \<Longrightarrow> \<forall>x \<in> set (members db). cm_userId x = cm_userId m \<longrightarrow> \<not> cm_isDefault x) \<Longrightarrow>
    identity_write lib X T db db'"
| session: "insertSession s db = Inr db' \<Longrightarrow> rs_id s \<notin> X \<Longrightarrow> identity_write lib X T db db'"
| audit: "identity_write lib X T db (writeIdentityAudit me table recordId action reason userId companyId db)"
| update_user: "(\<And>u. us_id (f u) = us_id u \<and> us_email (f u) = us_email u) \<Longrightarrow> identity_write lib X T db (updateUser i f db)"
| replace_user: "findUser i db = Some u \<Longrightarrow> us_id u' = us_id u \<Longrightarrow> us_email u' = us_email u \<Longrightarrow> identity_write lib X T db (updateUser i (\<lambda>_. u') db)"
| update_company: "find p (companies db) = Some c \<Longrightarrow> co_id c' = co_id c \<Longrightarrow> co_code c' = co_code c \<Longrightarrow>
    (\<And>x. p x \<longleftrightarrow> g x = g c) \<Longrightarrow> g = co_id \<or> g = co_code \<Longrightarrow>
    identity_write lib X T db (db\<lparr>companies := updateWhere p (\<lambda>_. c') (companies db)\<rparr>)"
| clear: "identity_write lib X T db (clearDefault u db)"
| update_member: "m \<in> set (members db) \<Longrightarrow>
    cm_id (f m) = cm_id m \<Longrightarrow> cm_userId (f m) = cm_userId m \<Longrightarrow> cm_companyId (f m) = cm_companyId m \<Longrightarrow>
    (cm_isDefault (f m) \<Longrightarrow> cm_isDefault m \<or> (\<forall>x \<in> set (members db). cm_userId x = cm_userId m \<longrightarrow> \<not> cm_isDefault x)) \<Longrightarrow>
    identity_write lib X T db (db\<lparr>members := updateWhere (\<lambda>x. cm_id x = cm_id m) f (members db)\<rparr>)"
| revoke: "(\<And>s. rs_id (f s) = rs_id s \<and> rs_userId (f s) = rs_userId s \<and> rs_tokenHash (f s) = rs_tokenHash s \<and> rs_revokedAt (f s) \<noteq> None) \<Longrightarrow>
    identity_write lib X T db (db\<lparr>refreshSessions := updateWhere p f (refreshSessions db)\<rparr>)"
| blacklist: "t \<le> T \<Longrightarrow> tokenExpiry lib t sid e \<Longrightarrow> identity_write lib X T db (db\<lparr>revoked := blacklistSessionId r t sid e (revoked db)\<rparr>)"
| prune: "t \<le> T \<Longrightarrow> identity_write lib X T db (pruneRevoked rx t sid db)"
| consume: "identity_write lib X T db (db\<lparr>bootstrapTokenConsumed := True\<rparr>)"
| drop_company: "identity_write lib X T db (deleteCompany i db)"
| drop_user: "identity_write lib X T db (deleteUser i db)"
| drop_member: "identity_write lib X T db (db\<lparr>members := filter (\<lambda>x. cm_id x \<noteq> i) (members db)\<rparr>)"

abbreviation identity_writes :: "auth_lib \<Rightarrow> id set \<Rightarrow> date \<Rightarrow> 'z identity_scheme \<Rightarrow> 'z identity_scheme \<Rightarrow> bool" where
  "identity_writes lib X T \<equiv> (identity_write lib X T)\<^sup>*\<^sup>*"

named_theorems writes \<open>closure of the writes under the operations the routes use\<close>

lemma writes_then: "identity_writes lib X T a b \<Longrightarrow> identity_write lib X T b c \<Longrightarrow> identity_writes lib X T a c"
  by (rule rtranclp.rtrancl_into_rtrancl)

lemma writes_refl [writes]: "identity_writes lib X T a a" by simp

lemmas writes_audit [writes] = writes_then[OF _ identity_write.audit]
lemmas writes_user = writes_then[OF _ identity_write.user]
lemmas writes_company = writes_then[OF _ identity_write.company]
lemmas writes_clear [writes] = writes_then[OF _ identity_write.clear]
lemmas writes_consume [writes] = writes_then[OF _ identity_write.consume]
lemmas writes_prune [writes] = writes_then[OF _ identity_write.prune]
lemmas writes_drop [writes] = writes_then[OF _ identity_write.drop_company] writes_then[OF _ identity_write.drop_user]
  writes_then[OF _ identity_write.drop_member]

lemma writes_revokeAll [writes]:
  "identity_writes lib X T a b \<Longrightarrow> identity_writes lib X T a (revokeAllActiveRefreshSessions t i b)"
  unfolding revokeAllActiveRefreshSessions_def by (erule writes_then) (rule identity_write.revoke, simp)

lemma writes_session:
  "identity_writes lib X T a b \<Longrightarrow> createRefreshSession lib env i sid tok b = Inr d \<Longrightarrow> sid \<notin> X \<Longrightarrow> identity_writes lib X T a d"
  unfolding createRefreshSession_def by (erule writes_then, erule identity_write.session) simp

lemma writes_issue [writes]:
  "identity_writes lib X T a b \<Longrightarrow> freshEnv X T env \<Longrightarrow> identity_writes lib X T a (snd (issueLoginSession lib env k u sel b))"
  by (auto simp: issueLoginSession_def Let_def freshEnv_def split: sum.splits intro: writes_session)

lemma writes_answer [writes]:
  "identity_writes lib X T a b \<Longrightarrow> freshEnv X T env \<Longrightarrow> identity_writes lib X T a (snd (answerWithSession lib env k u sel c b))"
  using writes_issue[of lib X T a b env k u sel]
  by (auto simp: answerWithSession_def split: prod.splits sum.splits)

lemma writes_revokeSession [writes]:
  assumes "identity_writes lib X T a b" "t \<le> T" "tokenExpiry lib t sid e"
  shows "identity_writes lib X T a (revokeSession redis t sid u e b)"
proof -
  let ?d = "b\<lparr>refreshSessions := updateWhere (\<lambda>s. rs_id s = sid \<and> rs_userId s = u \<and> rs_revokedAt s = None)
    (\<lambda>s. s\<lparr>rs_revokedAt := Some t\<rparr>) (refreshSessions b)\<rparr>"
  have "identity_write lib X T b ?d" by (rule identity_write.revoke) simp
  moreover have "identity_write lib X T ?d (?d\<lparr>revoked := blacklistSessionId redis t sid e (revoked ?d)\<rparr>)"
    using assms(2,3) by (rule identity_write.blacklist)
  moreover have "?d\<lparr>revoked := blacklistSessionId redis t sid e (revoked ?d)\<rparr> = revokeSession redis t sid u e b"
    by (simp add: revokeSession_def)
  ultimately have "identity_write lib X T ?d (revokeSession redis t sid u e b)" by simp
  then show ?thesis using writes_then[OF writes_then[OF assms(1) \<open>identity_write lib X T b ?d\<close>]] by simp
qed

lemma tokenExpiryI:
  "verifyAccessToken (al_verifyAccess lib t) tok = Some q \<Longrightarrow> tokenExpiry lib t (tp_sid q) (orElse (tp_exp q) 0)"
  "verifyRefreshToken lib t tok = Some r \<Longrightarrow> tokenExpiry lib t (rt_sid r) (orElse (rt_exp r) 0)"
  by (auto simp: tokenExpiry_def)

lemma writes_revokeToken [writes]:
  "identity_writes lib X T a b \<Longrightarrow> t \<le> T \<Longrightarrow> identity_writes lib X T a (revokeRefreshSessionByToken lib redis t tok b)"
  "identity_writes lib X T a b \<Longrightarrow> t \<le> T \<Longrightarrow> identity_writes lib X T a (revokeSessionByAccessToken lib redis t tok b)"
  by (auto simp: revokeRefreshSessionByToken_def revokeSessionByAccessToken_def split: option.splits intro!: writes intro: tokenExpiryI)

lemma findUser_id: "findUser i db = Some u \<Longrightarrow> us_id u = i"
  by (auto simp: findUser_def dest: find_SomeD)

lemma writes_replace [writes]:
  "findUser j db = Some u \<Longrightarrow> us_id u' = us_id u \<Longrightarrow> us_email u' = us_email u \<Longrightarrow>
     identity_writes lib X T db (updateUser (us_id u) (\<lambda>_. u') db)"
  using findUser_id[of j db u] by (auto intro!: r_into_rtranclp identity_write.replace_user)

lemma writes_update:
  "(\<And>u. us_id (f u) = us_id u \<and> us_email (f u) = us_email u) \<Longrightarrow> identity_writes lib X T db (updateUser i f db)"
  by (rule r_into_rtranclp, rule identity_write.update_user)

lemma updateWhere_mem: "x \<in> set (updateWhere p f xs) \<longleftrightarrow> (\<exists>r \<in> set xs. x = (if p r then f r else r))"
  by (auto simp: updateWhere_set)

lemma clearDefault_none: "\<forall>x \<in> set (members (clearDefault u db)). cm_userId x = u \<longrightarrow> \<not> cm_isDefault x"
proof (intro ballI impI)
  fix x assume x: "x \<in> set (members (clearDefault u db))" "cm_userId x = u"
  obtain m where m: "x = (if cm_userId m = u \<and> cm_isDefault m then m\<lparr>cm_isDefault := False\<rparr> else m)"
    using x(1) by (auto simp: clearDefault_def updateWhere_mem)
  then show "\<not> cm_isDefault x" using x(2) by (cases "cm_userId m = u \<and> cm_isDefault m") auto
qed

text \<open>A handler that passes the tables of its last call on, whatever its answer.\<close>

lemma snd_case_answer [simp]: "snd (case p of (Inl e, d) \<Rightarrow> (f e, d) | (Inr a, d) \<Rightarrow> (g a, d)) = snd p"
  by (cases p; cases "fst p") auto

section \<open>Routes are sequences of writes\<close>

lemma login_writes: "freshEnv X T env \<Longrightarrow> identity_writes lib X T db (snd (login lib env r c db))"
  by (auto simp: login_def Let_def split: option.splits intro: writes)

lemma register_writes: "freshEnv X T env \<Longrightarrow> identity_writes lib X T db (snd (register lib env r c db))"
  by (auto simp: register_def Let_def split: sum.split intro!: writes intro: writes_user)

lemma mfa_writes:
  "identity_writes lib X T db (snd (mfaSetup me secret db))"
  "freshEnv X T env \<Longrightarrow> identity_writes lib X T db (snd (mfaVerify lib env me k c db))"
  "freshEnv X T env \<Longrightarrow> identity_writes lib X T db (snd (mfaDisable lib env me k c db))"
  by (auto simp: mfaSetup_def mfaVerify_def mfaDisable_def Let_def split: option.splits
      intro!: writes intro: writes_update)

lemma clearDefault_keeps [simp]: "companies (clearDefault u db) = companies db" "users (clearDefault u db) = users db"
  by (simp_all add: clearDefault_def)

lemma insert_keeps:
  "insertUser w db = Inr db' \<Longrightarrow> members db' = members db \<and> companies db' = companies db"
  "insertCompany c db = Inr db' \<Longrightarrow> members db' = members db \<and> users db' = users db"
  by (auto simp: insertUser_def insertCompany_def split: if_splits)

lemma own_company_writes: "freshEnv X T env \<Longrightarrow> identity_writes lib X T db (snd (createOwnCompany lib env me r db))"
proof -
  assume f: "freshEnv X T env"
  have m: "identity_writes lib X T db d2"
    if "insertCompany c db = Inr d1" "insertMember m (clearDefault u d1) = Inr d2" "cm_userId m = u" for c d1 m u d2
  proof -
    have "identity_writes lib X T db (clearDefault u d1)" by (rule writes_clear[OF writes_company[OF writes_refl that(1)]])
    moreover have "identity_write lib X T (clearDefault u d1) d2"
      using identity_write.member[OF that(2)] clearDefault_none that(3) by blast
    ultimately show ?thesis by (rule writes_then)
  qed
  have a: "identity_writes lib X T db d" if b: "bindR (insertCompany c db) (\<lambda>d. insertMember w (clearDefault (cm_userId w) d)) = Inr d" for c w d
  proof -
    obtain d1 where "insertCompany c db = Inr d1" "insertMember w (clearDefault (cm_userId w) d1) = Inr d"
      using b by (auto simp: bindR_eq_Inr)
    then show ?thesis by (rule m[OF _ _ refl])
  qed
  show ?thesis
  proof (cases "findUser (u_id me) db")
    case (Some u)
    then show ?thesis using f a[where w = "\<lparr> cm_id = uuid env 1, cm_userId = us_id u, cm_companyId = uuid env 0, cm_role = us_role u,
        cm_isDefault = True, cm_createdAt = now env \<rparr>"]
      by (auto simp: createOwnCompany_def Let_def split: sum.split intro!: writes)
  qed (auto simp: createOwnCompany_def)
qed

lemma default_write:
  assumes "m \<in> set (members db)" "cm_userId m = u"
  shows "identity_writes lib X T db ((clearDefault u db)\<lparr>members := updateWhere (\<lambda>x. cm_id x = cm_id m)
    (\<lambda>x. x\<lparr>cm_isDefault := True\<rparr>) (members (clearDefault u db))\<rparr>)"
proof -
  define m' where "m' = (if cm_userId m = u \<and> cm_isDefault m then m\<lparr>cm_isDefault := False\<rparr> else m)"
  have m': "m' \<in> set (members (clearDefault u db))" "cm_id m' = cm_id m" "cm_userId m' = u"
    using assms by (auto simp: m'_def clearDefault_def updateWhere_set)
  have "identity_write lib X T (clearDefault u db) ((clearDefault u db)\<lparr>members := updateWhere (\<lambda>x. cm_id x = cm_id m')
    (\<lambda>x. x\<lparr>cm_isDefault := True\<rparr>) (members (clearDefault u db))\<rparr>)"
    using m'(1) by (rule identity_write.update_member) (use m'(3) clearDefault_none in auto)
  then show ?thesis using writes_then[OF writes_clear[OF writes_refl]] m'(2) by simp
qed

lemma switch_writes: "freshEnv X T env \<Longrightarrow> identity_writes lib X T db (snd (switchCompany lib env me r db))"
  by (auto simp: switchCompany_def Let_def split: option.split dest: find_SomeD intro!: writes default_write)

lemma password_writes: "freshEnv X T env \<Longrightarrow> identity_writes lib X T db (snd (changePassword lib env me r c db))"
  by (auto simp: changePassword_def Let_def split: option.split intro!: writes)

lemma logout_writes: "t \<le> T \<Longrightarrow> identity_writes lib X T db (logout lib ra rr t acc tok db)"
  by (auto simp: logout_def Let_def split: option.split intro!: writes)

lemma writes_member:
  "insertMember m db = Inr d \<Longrightarrow> (cm_isDefault m \<Longrightarrow> \<forall>x \<in> set (members db). cm_userId x = cm_userId m \<longrightarrow> \<not> cm_isDefault x) \<Longrightarrow>
     identity_writes lib X T db d"
  by (rule r_into_rtranclp) (erule identity_write.member)

text \<open>A user that is new has no memberships; this is the only place where the writes of a route need
  the references to resolve.\<close>

definition membersResolve :: "'z identity_scheme \<Rightarrow> bool" where
  "membersResolve db \<longleftrightarrow> (\<forall>m \<in> set (members db). (\<exists>u \<in> set (users db). us_id u = cm_userId m) \<and> (\<exists>c \<in> set (companies db). co_id c = cm_companyId m))"

lemma newUser_no_members:
  assumes "insertUser u db = Inr d" "membersResolve db"
  shows "\<forall>x \<in> set (members d). cm_userId x \<noteq> us_id u"
  using assms by (force simp: insertUser_def membersResolve_def list_ex_iff split: if_splits)

lemma fallback_writes:
  assumes "fallbackCompany env db = Inr (c, d)"
  shows "identity_writes lib X T db d" "members d = members db"
proof -
  have "identity_writes lib X T db d \<and> members d = members db"
  proof (cases "sort_key co_createdAt (filter co_isActive (companies db))")
    case Cons
    then show ?thesis using assms by (auto simp: fallbackCompany_def)
  next
    case Nil
    show ?thesis
    proof (cases "find (\<lambda>c. co_code c = ''default'') (companies db)")
      case None
      then show ?thesis using Nil assms writes_company[OF writes_refl]
        by (auto simp: fallbackCompany_def bindR_eq_Inr Let_def dest: insert_keeps(2))
    next
      case (Some c0)
      have "co_code c0 = ''default''" using find_SomeD[OF Some] by simp
      then have "identity_write lib X T db (db\<lparr>companies := updateWhere (\<lambda>c. co_code c = ''default'')
          (\<lambda>_. c0\<lparr> co_name := ''Compania implicita'', co_isActive := True \<rparr>) (companies db)\<rparr>)"
        by (intro identity_write.update_company[OF Some, where g = co_code]) auto
      then show ?thesis using Some Nil assms by (auto simp: fallbackCompany_def Let_def)
    qed
  qed
  then show "identity_writes lib X T db d" "members d = members db" by simp_all
qed

lemma bootstrap_user_writes:
  assumes "createBootstrapAdminUser lib env r db = Inr (u, d)" "membersResolve db"
  shows "identity_writes lib X T db d"
proof -
  obtain w d1 c d2 m d3 where 1: "insertUser w db = Inr d1" and 2: "fallbackCompany env d1 = Inr (c, d2)"
    and 3: "insertMember m d2 = Inr d3" "cm_userId m = us_id w"
    and d: "d = writeIdentityAudit None ''users'' (Some (us_id w)) ''CREATE'' (Some ''bootstrap-admin'') (Some (us_id w)) None d3"
    using assms(1) by (auto simp: createBootstrapAdminUser_def Let_def bindR_eq_Inr split: if_splits)
  note f = fallback_writes[OF 2]
  have "\<forall>x \<in> set (members d2). cm_userId x \<noteq> us_id w" using newUser_no_members[OF 1 assms(2)] f(2) by simp
  then have "identity_writes lib X T d2 d3" using 3 by (intro writes_member) auto
  moreover have "identity_writes lib X T db d2" using writes_user[OF writes_refl 1] f(1) by (rule rtranclp_trans)
  ultimately show ?thesis unfolding d by (intro writes_audit) (rule rtranclp_trans)
qed

lemma bootstrap_writes: "membersResolve db \<Longrightarrow> identity_writes lib X T db (snd (bootstrapAdmin lib env h r db))"
  using bootstrap_user_writes by (auto simp: bootstrapAdmin_def split: option.split sum.split intro!: writes_consume)

lemma admin_company_writes:
  "adminCreateCompany env me r db = Inr (c, d) \<Longrightarrow> identity_writes lib X T db d"
  "adminUpdateCompany me i p db = Inr (c, d) \<Longrightarrow> identity_writes lib X T db d"
  "adminDeleteCompany me i db = Inr d \<Longrightarrow> identity_writes lib X T db d"
proof -
  show "adminCreateCompany env me r db = Inr (c, d) \<Longrightarrow> identity_writes lib X T db d"
    using writes_audit[OF writes_company[OF writes_refl]]
    by (auto simp: adminCreateCompany_def onDuplicate_Inr bindR_eq_Inr Let_def split: if_splits)
  show "adminDeleteCompany me i db = Inr d \<Longrightarrow> identity_writes lib X T db d"
    by (auto simp: adminDeleteCompany_def split: option.splits intro!: writes)
  assume u: "adminUpdateCompany me i p db = Inr (c, d)"
  then obtain c0 where c0: "find (\<lambda>c. co_id c = i) (companies db) = Some c0"
    by (auto simp: adminUpdateCompany_def split: if_splits option.splits)
  then have i: "co_id c0 = i" using find_SomeD[OF c0] by simp
  have w: "identity_writes lib X T db (db\<lparr>companies := updateWhere (\<lambda>c. co_id c = i) (\<lambda>_. c') (companies db)\<rparr>)"
    if "co_id c' = co_id c0" "co_code c' = co_code c0" for c'
    using that i by (intro r_into_rtranclp[where r = "identity_write lib X T"] identity_write.update_company[OF c0, where g = co_id]) auto
  show "identity_writes lib X T db d"
    using u c0 writes_audit[OF w]
    by (auto simp: adminUpdateCompany_def Let_def split: if_splits)
qed

lemma insertMembers_writes:
  "insertMembers ms db = Inr d \<Longrightarrow> distinct (filter cm_isDefault ms) \<Longrightarrow> \<forall>m \<in> set ms. cm_userId m = u \<Longrightarrow>
   length (filter cm_isDefault ms) \<le> 1 \<Longrightarrow> (\<forall>x \<in> set (members db). cm_userId x = u \<longrightarrow> cm_isDefault x \<longrightarrow> filter cm_isDefault ms = []) \<Longrightarrow>
   identity_writes lib X T db d"
proof (induction ms arbitrary: db)
  case (Cons m ms)
  obtain d1 where 1: "insertMember m db = Inr d1" "insertMembers ms d1 = Inr d" using Cons.prems(1) by (auto simp: bindR_eq_Inr)
  have d1: "members d1 = members db @ [m]" using 1(1) by (auto simp: insertMember_def split: if_splits)
  have "identity_writes lib X T db d1" using Cons.prems by (intro writes_member[OF 1(1)]) auto
  moreover have "identity_writes lib X T d1 d"
    using Cons.prems d1 by (intro Cons.IH[OF 1(2)]) (auto split: if_splits)
  ultimately show ?case by (rule rtranclp_trans)
qed simp

lemma filter_index: "filter (\<lambda>(i, m). i = k) (enumerate n xs) = (if n \<le> k \<and> k < n + length xs then [(k, xs ! (k - n))] else [])"
proof (induction xs arbitrary: n)
  case (Cons x xs)
  then show ?case by (cases "k = n") (auto simp: nth_Cons' Suc_diff_le split: if_splits)
qed simp

lemma membershipsToCreate_default:
  "\<forall>m \<in> set (membershipsToCreate env u ms). cm_userId m = u" "length (filter cm_isDefault (membershipsToCreate env u ms)) \<le> 1"
proof -
  show "\<forall>m \<in> set (membershipsToCreate env u ms). cm_userId m = u" by (auto simp: membershipsToCreate_def Let_def)
  define k where "k = orElse (defaultMembershipIndex ms) 0"
  have "filter (cm_isDefault \<circ> (\<lambda>(i, m). \<lparr> cm_id = uuid env (Suc i), cm_userId = u, cm_companyId = mi_companyId m, cm_role = mi_role m,
        cm_isDefault = (i = k), cm_createdAt = now env \<rparr>)) (enumerate 0 ms) = filter (\<lambda>(i, m). i = k) (enumerate 0 ms)"
    by (rule filter_cong) auto
  then show "length (filter cm_isDefault (membershipsToCreate env u ms)) \<le> 1"
    by (simp add: membershipsToCreate_def Let_def k_def[symmetric] filter_map filter_index)
qed

lemma distinct_short: "length xs \<le> 1 \<Longrightarrow> distinct xs"
  by (cases xs) auto

lemma create_user_writes:
  assumes "adminCreateUser lib env me r db = Inr (u, d)" "membersResolve db"
  shows "identity_writes lib X T db d"
proof -
  obtain w d1 d2 where 1: "insertUser w db = Inr d1" "insertMembers (membershipsToCreate env (us_id w) (cu_memberships r)) d1 = Inr d2"
    and d: "d = writeIdentityAudit (Some me) ''User'' (Some (us_id w)) ''ADMIN_USER_CREATE'' (cu_reason r) None None d2"
    using assms(1) by (auto simp: adminCreateUser_def Let_def onDuplicate_Inr bindR_eq_Inr split: if_splits)
  note m = membershipsToCreate_default[of env "us_id w" "cu_memberships r"]
  have "identity_writes lib X T d1 d2"
    using insertMembers_writes[OF 1(2) distinct_short[OF m(2)] m] newUser_no_members[OF 1(1) assms(2)] by blast
  then have "identity_writes lib X T db d2" using rtranclp_trans[OF writes_user[OF writes_refl 1(1)]] by blast
  then show ?thesis unfolding d by (rule writes_audit)
qed

lemma admin_user_writes:
  "adminUpdateUser me i p db = Inr (u, d) \<Longrightarrow> identity_writes lib X T db d"
  "adminResetPassword lib env me i pw reason db = Inr (n, d) \<Longrightarrow> identity_writes lib X T db d"
  "adminDeleteUser referenced me i db = Inr d \<Longrightarrow> identity_writes lib X T db d"
proof -
  assume u: "adminUpdateUser me i p db = Inr (u, d)"
  then obtain u0 where u0: "findUser i db = Some u0" by (auto simp: adminUpdateUser_def split: if_splits option.splits)
  then have i: "i = us_id u0" using findUser_id by blast
  show "identity_writes lib X T db d"
    using u u0 writes_audit[OF writes_replace[OF u0]] by (auto simp: adminUpdateUser_def Let_def i split: if_splits)
next
  show "adminResetPassword lib env me i pw reason db = Inr (n, d) \<Longrightarrow> identity_writes lib X T db d"
    by (auto simp: adminResetPassword_def Let_def split: if_splits option.splits intro!: writes intro: writes_update)
  show "adminDeleteUser referenced me i db = Inr d \<Longrightarrow> identity_writes lib X T db d"
    by (auto simp: adminDeleteUser_def split: if_splits option.splits intro!: writes)
qed

lemma create_membership_writes:
  assumes "adminCreateMembership env me r db = Inr (m, d)"
  shows "identity_writes lib X T db d"
proof -
  let ?d0 = "if ms_isDefault r = Some True then clearDefault (ms_userId r) db else db"
  obtain w d1 where 1: "insertMember w ?d0 = Inr d1" "cm_userId w = ms_userId r" "cm_isDefault w = orElse (ms_isDefault r) False"
    and d: "d = writeIdentityAudit (Some me) ''UserCompanyMembership'' (Some (cm_id w)) ''ADMIN_MEMBERSHIP_CREATE'' (ms_reason r)
             None (Some (cm_companyId w)) d1"
    using assms by (auto simp: adminCreateMembership_def Let_def onDuplicate_Inr bindR_eq_Inr split: if_splits)
  have "identity_writes lib X T ?d0 d1"
    using 1(2,3) clearDefault_none[of "ms_userId r" db] by (intro writes_member[OF 1(1)]) (auto simp: orElse_def split: option.splits)
  moreover have "identity_writes lib X T db ?d0" by (auto intro: writes)
  ultimately show ?thesis unfolding d by (intro writes_audit) (rule rtranclp_trans)
qed

lemma update_membership_writes:
  assumes "adminUpdateMembership me i p db = Inr (m, d)"
  shows "identity_writes lib X T db d"
proof -
  let ?d0 = "\<lambda>m0. if mp_isDefault p = Some True then clearDefault (cm_userId m0) db else db"
  let ?m = "\<lambda>m0. m0\<lparr> cm_role := orElse (mp_role p) (cm_role m0), cm_isDefault := orElse (mp_isDefault p) (cm_isDefault m0) \<rparr>"
  obtain m0 where m0: "find (\<lambda>m. cm_id m = i) (members db) = Some m0"
    and d: "d = writeIdentityAudit (Some me) ''UserCompanyMembership'' (Some i) ''ADMIN_MEMBERSHIP_UPDATE'' (mp_reason p) None
      (Some (cm_companyId m0)) ((?d0 m0)\<lparr>members := updateWhere (\<lambda>x. cm_id x = i) (\<lambda>_. ?m m0) (members (?d0 m0))\<rparr>)"
    using assms by (auto simp: adminUpdateMembership_def Let_def split: if_splits option.splits)
  have f: "m0 \<in> set (members db)" "cm_id m0 = i" using find_SomeD[OF m0] by auto
  define m1 where "m1 = (if mp_isDefault p = Some True \<and> cm_isDefault m0 then m0\<lparr>cm_isDefault := False\<rparr> else m0)"
  have m1: "m1 \<in> set (members (?d0 m0))" "cm_id m1 = i" "cm_userId m1 = cm_userId m0" "cm_companyId m1 = cm_companyId m0"
    "mp_isDefault p \<noteq> Some True \<Longrightarrow> cm_isDefault m1 = cm_isDefault m0"
    using f by (auto simp: m1_def clearDefault_def updateWhere_mem)
  have "identity_write lib X T (?d0 m0) ((?d0 m0)\<lparr>members := updateWhere (\<lambda>x. cm_id x = cm_id m1) (\<lambda>_. ?m m0) (members (?d0 m0))\<rparr>)"
    using m1(1)
  proof (rule identity_write.update_member)
    show "cm_isDefault m1 \<or> (\<forall>x \<in> set (members (?d0 m0)). cm_userId x = cm_userId m1 \<longrightarrow> \<not> cm_isDefault x)" if "cm_isDefault (?m m0)"
      using that m1(3,5) clearDefault_none[of "cm_userId m0" db]
      by (cases "mp_isDefault p = Some True") (auto simp: orElse_def split: option.splits)
  qed (use f m1 in simp_all)
  moreover have "identity_writes lib X T db (?d0 m0)" by (auto intro: writes)
  ultimately show ?thesis unfolding d m1(2) by (intro writes_audit) (rule writes_then)
qed

lemma delete_membership_writes: "adminDeleteMembership me i db = Inr d \<Longrightarrow> identity_writes lib X T db d"
  by (auto simp: adminDeleteMembership_def split: option.splits intro!: writes)

text \<open>Rotation.\<close>

lemma rotateCheck_tables:
  "snd (rotateCheck lib env rx tok db) = db \<or> (\<exists>sid. snd (rotateCheck lib env rx tok db) = pruneRevoked rx (now env) sid db)"
  by (auto simp: rotateCheck_def Let_def pruneRevoked_def split: option.splits)

lemma rotateCommit_writes:
  assumes "freshEnv X T env"
  shows "identity_writes lib X T db (snd (rotateCommit lib env s u sel db))"
proof -
  let ?d = "db\<lparr>refreshSessions := updateWhere (\<lambda>x. rs_id x = rs_id s)
     (\<lambda>x. x\<lparr> rs_revokedAt := Some (now env), rs_replacedBySessionId := Some (uuid env 0) \<rparr>) (refreshSessions db)\<rparr>"
  have "identity_writes lib X T db ?d" by (intro r_into_rtranclp[where r = "identity_write lib X T"] identity_write.revoke) simp
  then show ?thesis using assms writes_session[where b = ?d]
    by (auto simp: rotateCommit_def Let_def freshEnv_def split: sum.split)
qed

lemma refresh_writes:
  assumes "freshEnv X T env"
  shows "identity_writes lib X T db (snd (refresh lib env rx tok c db))"
proof -
  have c: "identity_writes lib X T db d" if "rotateCheck lib env rx t db = (k, d)" for t k d
    using rotateCheck_tables[of lib env rx t db] assms that by (auto simp: freshEnv_def intro: writes)
  have "identity_writes lib X T db (snd (rotateRefreshSession lib env rx t db))" for t
  proof (cases "rotateCheck lib env rx t db")
    case (Pair k d)
    have w: "identity_writes lib X T db d" using c Pair by blast
    show ?thesis
    proof (cases k)
      case (Rotate s u sel)
      have "identity_writes lib X T db (snd (rotateCommit lib env s u sel d))"
        using w rotateCommit_writes[OF assms] by (rule rtranclp_trans)
      then show ?thesis using Pair Rotate by (auto simp: rotateRefreshSession_def split: prod.split sum.split)
    qed (use Pair w in \<open>auto simp: rotateRefreshSession_def intro: writes\<close>)
  qed
  moreover have "snd (refresh lib env rx tok c db) = (case tok of None \<Rightarrow> db | Some t \<Rightarrow> snd (rotateRefreshSession lib env rx t db))"
    by (auto simp: refresh_def split: option.split prod.split sum.split)
  ultimately show ?thesis by (auto split: option.split)
qed

lemma identity_step_writes: "identity_step lib X T db db' \<Longrightarrow> membersResolve db \<Longrightarrow> identity_writes lib X T db db'"
proof (induction rule: identity_step.induct)
  case (prune t rx sid db)
  then show ?case by (intro writes_prune writes_refl)
qed (auto simp: adminRoute_Inr intro: login_writes register_writes mfa_writes own_company_writes switch_writes password_writes
    logout_writes bootstrap_writes admin_company_writes create_user_writes admin_user_writes create_membership_writes
    update_membership_writes delete_membership_writes refresh_writes)

section \<open>The tables\<close>

definition keysOk :: "'z identity_scheme \<Rightarrow> bool" where
  "keysOk db \<longleftrightarrow> distinct (map us_id (users db)) \<and> distinct (map us_email (users db)) \<and> distinct (map co_id (companies db)) \<and>
     distinct (map co_code (companies db)) \<and> distinct (map cm_id (members db)) \<and>
     distinct (map (\<lambda>m. (cm_userId m, cm_companyId m)) (members db)) \<and> distinct (map rs_id (refreshSessions db)) \<and>
     distinct (map rs_tokenHash (refreshSessions db))"

definition sessionsResolve :: "'z identity_scheme \<Rightarrow> bool" where
  "sessionsResolve db \<longleftrightarrow> (\<forall>s \<in> set (refreshSessions db). \<exists>u \<in> set (users db). us_id u = rs_userId s)"

definition oneDefault :: "'z identity_scheme \<Rightarrow> bool" where
  "oneDefault db \<longleftrightarrow> (\<forall>m \<in> set (members db). \<forall>n \<in> set (members db).
     cm_isDefault m \<longrightarrow> cm_isDefault n \<longrightarrow> cm_userId m = cm_userId n \<longrightarrow> m = n)"

lemma replace_row:
  assumes "distinct (map g xs)" "c \<in> set xs" "\<And>x. x \<in> set xs \<Longrightarrow> p x \<longleftrightarrow> g x = g c"
  shows "updateWhere p f xs = map (\<lambda>x. if x = c then f c else x) xs"
proof -
  have "p x \<longleftrightarrow> x = c" if "x \<in> set xs" for x
    using assms that by (auto simp: distinct_map inj_on_def)
  then show ?thesis by (auto simp: updateWhere_def)
qed

lemma map_replace: "h y = h c \<Longrightarrow> map h (map (\<lambda>x. if x = c then y else x) xs) = map h xs"
  by auto

lemma updateUser_maps:
  assumes "\<And>u. us_id (f u) = us_id u \<and> us_email (f u) = us_email u"
  shows "map us_id (users (updateUser i f db)) = map us_id (users db)" "map us_email (users (updateUser i f db)) = map us_email (users db)"
  using assms by (simp_all add: updateUser_def map_updateWhere)

text \<open>That a reference resolves depends on the keys alone.\<close>

lemma resolve_keys: "(\<exists>u \<in> set us. k u = i) \<longleftrightarrow> i \<in> set (map k us)"
  by auto

lemma resolve_def2: "membersResolve db \<longleftrightarrow> cm_userId ` set (members db) \<subseteq> set (map us_id (users db)) \<and>
    cm_companyId ` set (members db) \<subseteq> set (map co_id (companies db))"
  "sessionsResolve db \<longleftrightarrow> rs_userId ` set (refreshSessions db) \<subseteq> set (map us_id (users db))"
  by (auto simp: membersResolve_def sessionsResolve_def resolve_keys)

definition tablesOk :: "'z identity_scheme \<Rightarrow> bool" where
  "tablesOk db \<longleftrightarrow> keysOk db \<and> membersResolve db \<and> sessionsResolve db \<and> oneDefault db"

lemmas tables_defs = tablesOk_def keysOk_def resolve_def2 oneDefault_def

text \<open>Tables that agree on the keys.\<close>

lemma tablesOk_users:
  assumes "map us_id us = map us_id (users db)" "map us_email us = map us_email (users db)" "tablesOk db"
  shows "tablesOk (db\<lparr>users := us\<rparr>)"
  using assms(3) unfolding tables_defs by (simp add: assms(1,2) del: set_map list.set_map)

lemma tablesOk_companies:
  assumes "map co_id cs = map co_id (companies db)" "map co_code cs = map co_code (companies db)" "tablesOk db"
  shows "tablesOk (db\<lparr>companies := cs\<rparr>)"
  using assms(3) unfolding tables_defs by (simp add: assms(1,2) del: set_map list.set_map)

lemma tablesOk_sessions:
  assumes "map rs_id ss = map rs_id (refreshSessions db)" "map rs_tokenHash ss = map rs_tokenHash (refreshSessions db)"
    "map rs_userId ss = map rs_userId (refreshSessions db)" "tablesOk db"
  shows "tablesOk (db\<lparr>refreshSessions := ss\<rparr>)"
proof -
  have "rs_userId ` set ss = rs_userId ` set (refreshSessions db)" using arg_cong[OF assms(3), of set] by simp
  then show ?thesis using assms(4) unfolding tables_defs by (simp add: assms(1,2))
qed

lemma tablesOk_members:
  assumes "map cm_id ms = map cm_id (members db)" "map cm_userId ms = map cm_userId (members db)"
    "map cm_companyId ms = map cm_companyId (members db)" "tablesOk db" "oneDefault (db\<lparr>members := ms\<rparr>)"
  shows "tablesOk (db\<lparr>members := ms\<rparr>)"
proof -
  have p: "map (\<lambda>m. (cm_userId m, cm_companyId m)) xs = zip (map cm_userId xs) (map cm_companyId xs)" for xs by (induction xs) auto
  have s: "cm_userId ` set ms = cm_userId ` set (members db)" "cm_companyId ` set ms = cm_companyId ` set (members db)"
    using arg_cong[OF assms(2), of set] arg_cong[OF assms(3), of set] by simp_all
  show ?thesis using assms(4,5) s unfolding tablesOk_def keysOk_def resolve_def2 p by (simp add: assms(1-3))
qed

lemma distinct_map_filterI: "distinct (map f xs) \<Longrightarrow> distinct (map f (filter P xs))"
  by (simp add: distinct_map_filter)

lemma map_fst_same: "distinct (map cm_id ms) \<Longrightarrow> x \<in> set ms \<Longrightarrow> y \<in> set ms \<Longrightarrow> cm_id x = cm_id y \<Longrightarrow> x = y"
  by (auto simp: distinct_map inj_on_def)

lemma tables_update_member:
  assumes ok: "tablesOk db" and m: "m \<in> set (members db)" and k: "cm_id (f m) = cm_id m" "cm_userId (f m) = cm_userId m"
    "cm_companyId (f m) = cm_companyId m"
    and d: "cm_isDefault (f m) \<Longrightarrow> cm_isDefault m \<or> (\<forall>x \<in> set (members db). cm_userId x = cm_userId m \<longrightarrow> \<not> cm_isDefault x)"
  shows "tablesOk (db\<lparr>members := updateWhere (\<lambda>x. cm_id x = cm_id m) f (members db)\<rparr>)"
proof -
  have u: "updateWhere (\<lambda>x. cm_id x = cm_id m) f (members db) = map (\<lambda>x. if x = m then f m else x) (members db)"
    using ok m by (intro replace_row[where g = cm_id]) (auto simp: tablesOk_def keysOk_def)
  have one: "cm_isDefault x \<Longrightarrow> cm_isDefault y \<Longrightarrow> cm_userId x = cm_userId y \<Longrightarrow> x = y"
    if "x \<in> set (members db)" "y \<in> set (members db)" for x y
    using ok that by (auto simp: tablesOk_def oneDefault_def)
  have new: "x = m" if "x \<in> set (members db)" "cm_isDefault x" "cm_userId x = cm_userId m" "cm_isDefault (f m)" for x
    using d[OF that(4)] one[OF that(1) m] that by auto
  have "oneDefault (db\<lparr>members := map (\<lambda>x. if x = m then f m else x) (members db)\<rparr>)"
    using one new k(2) unfolding oneDefault_def by auto
  then show ?thesis unfolding u using ok k by (intro tablesOk_members) (simp_all only: map_replace)
qed

lemma tables_clearDefault: "tablesOk db \<Longrightarrow> tablesOk (clearDefault u db)"
  unfolding clearDefault_def by (intro tablesOk_members) (auto simp: map_updateWhere tablesOk_def oneDefault_def updateWhere_mem)

lemma tables_insertUser:
  assumes "insertUser u db = Inr d" "tablesOk db"
  shows "tablesOk d"
proof -
  have d: "d = db\<lparr>users := users db @ [u]\<rparr>" "\<forall>x \<in> set (users db). us_id x \<noteq> us_id u \<and> us_email x \<noteq> us_email u"
    using assms(1) by (auto simp: insertUser_def list_ex_iff split: if_splits)
  have "keysOk d" using assms(2) d by (auto simp: tablesOk_def keysOk_def)
  moreover have "membersResolve d" "sessionsResolve d" "oneDefault d"
    using assms(2) by (auto simp: d(1) tablesOk_def resolve_def2 oneDefault_def)
  ultimately show ?thesis by (simp add: tablesOk_def)
qed

lemma tables_insertCompany:
  assumes "insertCompany c db = Inr d" "tablesOk db"
  shows "tablesOk d"
proof -
  have d: "d = db\<lparr>companies := companies db @ [c]\<rparr>" "\<forall>x \<in> set (companies db). co_id x \<noteq> co_id c \<and> co_code x \<noteq> co_code c"
    using assms(1) by (auto simp: insertCompany_def list_ex_iff split: if_splits)
  have "keysOk d" using assms(2) d by (auto simp: tablesOk_def keysOk_def)
  moreover have "membersResolve d" "sessionsResolve d" "oneDefault d"
    using assms(2) by (auto simp: d(1) tablesOk_def resolve_def2 oneDefault_def)
  ultimately show ?thesis by (simp add: tablesOk_def)
qed

lemma tables_insertSession:
  assumes "insertSession s db = Inr d" "tablesOk db"
  shows "tablesOk d"
proof -
  have d: "d = db\<lparr>refreshSessions := refreshSessions db @ [s]\<rparr>"
    "\<forall>x \<in> set (refreshSessions db). rs_id x \<noteq> rs_id s \<and> rs_tokenHash x \<noteq> rs_tokenHash s" "\<exists>u \<in> set (users db). us_id u = rs_userId s"
    using assms(1) by (auto simp: insertSession_def list_ex_iff split: if_splits)
  have "keysOk d" using assms(2) d(1,2) by (auto simp: tablesOk_def keysOk_def)
  moreover have "sessionsResolve d" using assms(2) d(3) by (auto simp: d(1) tablesOk_def sessionsResolve_def)
  moreover have "membersResolve d" "oneDefault d" using assms(2) by (auto simp: d(1) tablesOk_def resolve_def2 oneDefault_def)
  ultimately show ?thesis by (simp add: tablesOk_def)
qed

lemma tables_insertMember:
  assumes "insertMember m db = Inr d" "cm_isDefault m \<Longrightarrow> \<forall>x \<in> set (members db). cm_userId x = cm_userId m \<longrightarrow> \<not> cm_isDefault x"
    "tablesOk db"
  shows "tablesOk d"
proof -
  have m: "d = db\<lparr>members := members db @ [m]\<rparr>" "\<forall>x \<in> set (members db). cm_id x \<noteq> cm_id m \<and> (cm_userId x, cm_companyId x) \<noteq> (cm_userId m, cm_companyId m)"
    "\<exists>u \<in> set (users db). us_id u = cm_userId m" "\<exists>c \<in> set (companies db). co_id c = cm_companyId m"
    using assms(1) by (auto simp: insertMember_def list_ex_iff split: if_splits)
  have "keysOk d" using assms(3) m(1,2) by (auto simp: tablesOk_def keysOk_def)
  moreover have "oneDefault d" using assms(2,3) by (auto simp: m(1) tablesOk_def oneDefault_def)
  moreover have "membersResolve d" using assms(3) m(3,4) by (auto simp: m(1) tablesOk_def membersResolve_def)
  moreover have "sessionsResolve d" using assms(3) by (auto simp: m(1) tablesOk_def resolve_def2)
  ultimately show ?thesis by (simp add: tablesOk_def)
qed

lemma keysOk_drop:
  "keysOk db \<Longrightarrow> keysOk (deleteCompany i db)" "keysOk db \<Longrightarrow> keysOk (deleteUser i db)"
  "keysOk db \<Longrightarrow> keysOk (db\<lparr>members := filter p (members db)\<rparr>)"
  by (simp_all add: keysOk_def deleteCompany_def deleteUser_def distinct_map_filterI)

lemma resolve_drop:
  "membersResolve db \<Longrightarrow> membersResolve (deleteCompany i db)" "membersResolve db \<Longrightarrow> membersResolve (deleteUser i db)"
  "membersResolve db \<Longrightarrow> membersResolve (db\<lparr>members := filter p (members db)\<rparr>)"
  "sessionsResolve db \<Longrightarrow> sessionsResolve (deleteCompany i db)" "sessionsResolve db \<Longrightarrow> sessionsResolve (deleteUser i db)"
  "sessionsResolve db \<Longrightarrow> sessionsResolve (db\<lparr>members := filter p (members db)\<rparr>)"
  by (force simp: membersResolve_def sessionsResolve_def deleteCompany_def deleteUser_def)+

lemma oneDefault_drop:
  "oneDefault db \<Longrightarrow> oneDefault (deleteCompany i db)" "oneDefault db \<Longrightarrow> oneDefault (deleteUser i db)"
  "oneDefault db \<Longrightarrow> oneDefault (db\<lparr>members := filter p (members db)\<rparr>)"
  by (simp_all add: oneDefault_def deleteCompany_def deleteUser_def)

lemma tables_same:
  "users d = users db \<Longrightarrow> companies d = companies db \<Longrightarrow> members d = members db \<Longrightarrow> refreshSessions d = refreshSessions db \<Longrightarrow>
   tablesOk db \<Longrightarrow> tablesOk d"
  by (simp add: tablesOk_def keysOk_def membersResolve_def sessionsResolve_def oneDefault_def)

lemma tables_update_company:
  assumes "tablesOk db" "find p (companies db) = Some c" "co_id c' = co_id c" "co_code c' = co_code c"
    "\<And>x. p x \<longleftrightarrow> g x = g c" "g = co_id \<or> g = co_code"
  shows "tablesOk (db\<lparr>companies := updateWhere p (\<lambda>_. c') (companies db)\<rparr>)"
proof -
  have "updateWhere p (\<lambda>_. c') (companies db) = map (\<lambda>x. if x = c then c' else x) (companies db)"
    using assms find_SomeD[OF assms(2)] by (intro replace_row[where g = g]) (auto simp: tablesOk_def keysOk_def)
  then show ?thesis using assms(1,3,4) by (simp add: tablesOk_companies map_replace del: map_map)
qed

lemma tables_replace_user:
  assumes "tablesOk db" "findUser i db = Some u" "us_id u' = us_id u" "us_email u' = us_email u"
  shows "tablesOk (updateUser i (\<lambda>_. u') db)"
proof -
  have u: "u \<in> set (users db)" "us_id u = i" using assms(2) find_SomeD unfolding findUser_def by fastforce+
  then have "updateWhere (\<lambda>u. us_id u = i) (\<lambda>_. u') (users db) = map (\<lambda>x. if x = u then u' else x) (users db)"
    using assms(1) by (intro replace_row[where g = us_id]) (auto simp: tablesOk_def keysOk_def)
  then show ?thesis unfolding updateUser_def using assms by (simp add: tablesOk_users map_replace del: map_map)
qed

lemma tables_write: "identity_write lib X T db db' \<Longrightarrow> tablesOk db \<Longrightarrow> tablesOk db'"
proof (induction rule: identity_write.induct)
  case (member m db db')
  then show ?case using tables_insertMember by blast
next
  case (update_user f db i)
  then show ?case using updateUser_maps[of f i db] unfolding updateUser_def by (intro tablesOk_users) simp_all
next
  case (replace_user i db u u')
  then show ?case by (intro tables_replace_user)
next
  case (update_company p db c c' g)
  then show ?case by (intro tables_update_company)
next
  case (update_member m db f)
  then show ?case by (intro tables_update_member)
next
  case (revoke f db p)
  then show ?case by (intro tablesOk_sessions) (simp_all add: map_updateWhere)
next
  case (drop_company i db)
  then show ?case by (simp add: tablesOk_def keysOk_drop resolve_drop oneDefault_drop)
next
  case (drop_user i db)
  then show ?case by (simp add: tablesOk_def keysOk_drop resolve_drop oneDefault_drop)
next
  case (drop_member db i)
  then show ?case by (simp add: tablesOk_def keysOk_drop resolve_drop oneDefault_drop)
qed (auto simp: writeIdentityAudit_def pruneRevoked_def intro: tables_insertUser tables_insertCompany tables_insertSession
    tables_clearDefault tables_same)

lemma tables_writes: "identity_writes lib X T db db' \<Longrightarrow> tablesOk db \<Longrightarrow> tablesOk db'"
  by (induction rule: rtranclp_induct) (auto intro: tables_write)

lemma tables_reach: "(identity_step lib X T)\<^sup>*\<^sup>* db db' \<Longrightarrow> tablesOk db \<Longrightarrow> tablesOk db' \<and> identity_writes lib X T db db'"
proof (induction rule: rtranclp_induct)
  case (step d e)
  then have "identity_writes lib X T d e" by (intro identity_step_writes) (simp_all add: tablesOk_def)
  then show ?case using step tables_writes rtranclp_trans by metis
qed simp

end
