(* ===== verification/Authentication.thy ===== *)
theory Authentication
  imports Identity
begin

text \<open>
  The properties of the identity tables and the sessions: keys and references, single use of a
  refresh token and its race, logout, and what the MFA check at login covers.
\<close>

section \<open>Refresh tokens\<close>

definition noActive :: "id \<Rightarrow> 'z identity_scheme \<Rightarrow> bool" where
  "noActive sid db \<longleftrightarrow> (\<forall>s \<in> set (refreshSessions db). rs_id s = sid \<longrightarrow> rs_revokedAt s \<noteq> None)"

lemma noActive_write: "identity_write lib X T db db' \<Longrightarrow> sid \<in> X \<Longrightarrow> noActive sid db \<Longrightarrow> noActive sid db'"
proof (induction rule: identity_write.induct)
  case (revoke f db p)
  then show ?case by (auto simp: noActive_def updateWhere_mem)
qed (auto simp: noActive_def insertUser_def insertCompany_def insertMember_def insertSession_def writeIdentityAudit_def
    updateUser_def clearDefault_def pruneRevoked_def deleteCompany_def deleteUser_def split: if_splits)

lemma noActive_writes: "identity_writes lib X T db db' \<Longrightarrow> sid \<in> X \<Longrightarrow> noActive sid db \<Longrightarrow> noActive sid db'"
  by (induction rule: rtranclp_induct) (auto intro: noActive_write)

lemma rotateCheck_Rotate:
  assumes "rotateCheck lib env rx tok db = (Rotate s u sel, d)"
  shows "\<exists>q. verifyRefreshToken lib (now env) tok = Some q \<and> rs_id s = rt_sid q \<and> rs_revokedAt s = None"
    "s \<in> set (refreshSessions db)" "\<exists>x \<in> set (users db). us_id x = rs_userId s"
    "refreshSessions d = refreshSessions db" "users d = users db"
  using assms by (auto simp: rotateCheck_def Let_def split: option.splits if_splits dest!: find_SomeD)

lemma rotateCommit_Inr:
  assumes "rotateCommit lib env s u sel db = (Inr x, d)"
  shows "noActive (rs_id s) d" "uuid env 0 \<noteq> rs_id s"
proof -
  let ?us = "updateWhere (\<lambda>x. rs_id x = rs_id s) (\<lambda>x. x\<lparr> rs_revokedAt := Some (now env), rs_replacedBySessionId := Some (uuid env 0) \<rparr>)
    (refreshSessions db)"
  let ?tok = "at_refreshToken (buildTokens lib (now env) u (uuid env 0) sel)"
  obtain d0 where e: "list_ex (\<lambda>x. rs_id x = rs_id s) (refreshSessions db)"
    and c: "createRefreshSession lib env (rs_userId s) (uuid env 0) ?tok (db\<lparr>refreshSessions := ?us\<rparr>) = Inr d0" "d = d0"
    using assms by (auto simp: rotateCommit_def Let_def split: if_splits sum.splits)
  obtain n where n: "refreshSessions d = ?us @ [n]" "rs_id n = uuid env 0" "\<forall>y \<in> set ?us. rs_id y \<noteq> uuid env 0"
    using c by (auto simp: createRefreshSession_def insertSession_def list_ex_iff split: if_splits)
  have "map rs_id ?us = map rs_id (refreshSessions db)" by (rule map_updateWhere) simp
  then have "rs_id s \<in> rs_id ` set ?us" using e by (metis (mono_tags, lifting) image_eqI list.set_map list_ex_iff)
  then show ne: "uuid env 0 \<noteq> rs_id s" using n(3) by auto
  show "noActive (rs_id s) d" using n(1,2) ne by (auto simp: noActive_def updateWhere_mem)
qed

lemma rotateCommit_ok:
  assumes "\<exists>y \<in> set (refreshSessions db). rs_id y = rs_id s" "\<exists>x \<in> set (users db). us_id x = rs_userId s"
    "\<And>x. x \<in> set (refreshSessions db) \<Longrightarrow> rs_id x \<noteq> uuid env 0 \<and> rs_tokenHash x \<noteq>
       al_sha256 lib (at_refreshToken (buildTokens lib (now env) u (uuid env 0) sel))"
  shows "\<exists>x n. rotateCommit lib env s u sel db = (Inr x, db\<lparr>refreshSessions :=
      updateWhere (\<lambda>x. rs_id x = rs_id s) (\<lambda>x. x\<lparr> rs_revokedAt := Some (now env), rs_replacedBySessionId := Some (uuid env 0) \<rparr>)
        (refreshSessions db) @ [n]\<rparr>) \<and> rs_id n = uuid env 0 \<and> rs_revokedAt n = None \<and> rs_tokenHash n =
       al_sha256 lib (at_refreshToken (buildTokens lib (now env) u (uuid env 0) sel))"
  using assms by (auto simp: rotateCommit_def Let_def createRefreshSession_def insertSession_def list_ex_iff updateWhere_mem split: if_splits)

lemma rotate_Some:
  assumes "rotateRefreshSession lib env rx tok db = (Inr (Some x), d)"
  obtains s u sel d0 where "rotateCheck lib env rx tok db = (Rotate s u sel, d0)" "rotateCommit lib env s u sel d0 = (Inr x, d)"
  using assms by (auto simp: rotateRefreshSession_def split: prod.splits rotate_check.splits sum.splits)

lemma rotate_noActive:
  assumes "\<And>q. verifyRefreshToken lib (now env) tok = Some q \<Longrightarrow> noActive (rt_sid q) db"
  shows "fst (rotateRefreshSession lib env rx tok db) = Inr None"
proof (cases "rotateCheck lib env rx tok db")
  case (Pair k d)
  have "k \<noteq> Rotate s u sel" for s u sel
  proof
    assume "k = Rotate s u sel"
    then obtain q' where q': "verifyRefreshToken lib (now env) tok = Some q'" "rs_id s = rt_sid q'" "rs_revokedAt s = None"
      "s \<in> set (refreshSessions db)" using rotateCheck_Rotate(1,2) Pair by blast
    then show False using assms[OF q'(1)] by (auto simp: noActive_def)
  qed
  then show ?thesis using Pair by (cases k) (auto simp: rotateRefreshSession_def)
qed

text \<open>C18: A refresh token works once: after a successful rotation, whatever requests follow, in any
  order, the same token never gives a session again. Ids are not drawn twice, and what a token says
  does not change between two verifications.\<close>

theorem refresh_single_use:
  assumes "rotateRefreshSession lib env rx tok db = (Inr (Some x), db1)" "verifyRefreshToken lib (now env) tok = Some q"
    "(identity_step lib {rt_sid q} T)\<^sup>*\<^sup>* db1 db2" "tablesOk db1"
    "\<And>t q'. verifyRefreshToken lib t tok = Some q' \<Longrightarrow> rt_sid q' = rt_sid q"
  shows "fst (rotateRefreshSession lib env' rx' tok db2) = Inr None"
proof -
  obtain s u sel d0 where c: "rotateCheck lib env rx tok db = (Rotate s u sel, d0)" and r: "rotateCommit lib env s u sel d0 = (Inr x, db1)"
    using assms(1) by (rule rotate_Some)
  have "rs_id s = rt_sid q" using rotateCheck_Rotate(1)[OF c] assms(2) by auto
  then have "noActive (rt_sid q) db1" using rotateCommit_Inr(1)[OF r] by simp
  then have "noActive (rt_sid q) db2" using noActive_writes tables_reach[OF assms(3,4)] by blast
  then show ?thesis using rotate_noActive assms(5) by metis
qed

text \<open>Two requests with the same refresh token that both read the session before either commits
  both get a new session: the update of the transaction does not ask that the session is still
  active. So the rotation is not single use under concurrent requests.\<close>

lemma refresh_race:
  assumes "rotateCheck lib env1 rx1 tok db = (Rotate s u sel, db1)" "rotateCheck lib env2 rx2 tok db1 = (Rotate s' u' sel', db2)"
    "uuid env1 0 \<noteq> uuid env2 0"
    "at_refreshToken (buildTokens lib (now env1) u (uuid env1 0) sel) = t1" "at_refreshToken (buildTokens lib (now env2) u' (uuid env2 0) sel') = t2"
    "al_sha256 lib t1 \<noteq> al_sha256 lib t2"
    "\<And>x. x \<in> set (refreshSessions db) \<Longrightarrow> rs_id x \<notin> {uuid env1 0, uuid env2 0} \<and> rs_tokenHash x \<notin> {al_sha256 lib t1, al_sha256 lib t2}"
  shows "\<exists>x1 x2 db3 db4 a b. rotateCommit lib env1 s u sel db2 = (Inr x1, db3) \<and> rotateCommit lib env2 s' u' sel' db3 = (Inr x2, db4) \<and>
    a \<in> set (refreshSessions db4) \<and> rs_id a = uuid env1 0 \<and> rs_revokedAt a = None \<and>
    b \<in> set (refreshSessions db4) \<and> rs_id b = uuid env2 0 \<and> rs_revokedAt b = None"
proof -
  note c1 = rotateCheck_Rotate[OF assms(1)] and c2 = rotateCheck_Rotate[OF assms(2)]
  have s: "s \<in> set (refreshSessions db)" "s' \<in> set (refreshSessions db)" "\<exists>x \<in> set (users db). us_id x = rs_userId s"
    "\<exists>x \<in> set (users db). us_id x = rs_userId s'" using c1(2,3) c2(2,3) unfolding c1(4,5) by simp_all
  have t: "x \<in> set (refreshSessions db) \<Longrightarrow> rs_id x \<noteq> uuid env1 0 \<and> rs_id x \<noteq> uuid env2 0 \<and> rs_tokenHash x \<noteq> al_sha256 lib t1 \<and>
    rs_tokenHash x \<noteq> al_sha256 lib t2" for x using assms(7)[of x] by auto
  have same: "refreshSessions db2 = refreshSessions db" "users db2 = users db" using c1(4,5) c2(4,5) by simp_all
  let ?f1 = "\<lambda>x. x\<lparr> rs_revokedAt := Some (now env1), rs_replacedBySessionId := Some (uuid env1 0) \<rparr>"
  let ?f2 = "\<lambda>x. x\<lparr> rs_revokedAt := Some (now env2), rs_replacedBySessionId := Some (uuid env2 0) \<rparr>"
  obtain x1 a where 1: "rotateCommit lib env1 s u sel db2 = (Inr x1, db2\<lparr>refreshSessions := updateWhere (\<lambda>x. rs_id x = rs_id s) ?f1 (refreshSessions db2) @ [a]\<rparr>)"
    "rs_id a = uuid env1 0" "rs_revokedAt a = None" "rs_tokenHash a = al_sha256 lib t1"
    using rotateCommit_ok[of db2 s env1 lib u sel] s(1,3) t assms(4) same by auto
  define db3 where "db3 = db2\<lparr>refreshSessions := updateWhere (\<lambda>x. rs_id x = rs_id s) ?f1 (refreshSessions db2) @ [a]\<rparr>"
  have r3: "refreshSessions db3 = updateWhere (\<lambda>x. rs_id x = rs_id s) ?f1 (refreshSessions db) @ [a]" "users db3 = users db"
    by (simp_all add: db3_def same)
  let ?y = "if rs_id s' = rs_id s then ?f1 s' else s'"
  have "?y \<in> set (updateWhere (\<lambda>x. rs_id x = rs_id s) ?f1 (refreshSessions db))" unfolding updateWhere_mem using s(2) by blast
  then have "?y \<in> set (refreshSessions db3)" by (simp add: r3)
  then have ex: "\<exists>y \<in> set (refreshSessions db3). rs_id y = rs_id s'" by (rule bexI[rotated]) simp
  have fr: "rs_id x \<noteq> uuid env2 0 \<and> rs_tokenHash x \<noteq> al_sha256 lib t2" if "x \<in> set (refreshSessions db3)" for x
    using that t assms(3,6) 1(2,4) by (auto simp: r3 updateWhere_mem split: if_splits)
  obtain x2 b where 2: "rotateCommit lib env2 s' u' sel' db3 = (Inr x2, db3\<lparr>refreshSessions := updateWhere (\<lambda>x. rs_id x = rs_id s') ?f2 (refreshSessions db3) @ [b]\<rparr>)"
    "rs_id b = uuid env2 0" "rs_revokedAt b = None"
    using rotateCommit_ok[of db3 s' env2 lib u' sel'] ex s(4) fr assms(5) r3(2) by auto
  have "a \<in> set (refreshSessions db3)" "rs_id a \<noteq> rs_id s'" using 1(2) t[OF s(2)] by (auto simp: r3)
  then have "a \<in> set (updateWhere (\<lambda>x. rs_id x = rs_id s') ?f2 (refreshSessions db3))"
    unfolding updateWhere_mem by (intro bexI[of _ a]) simp_all
  then have m: "a \<in> set (updateWhere (\<lambda>x. rs_id x = rs_id s') ?f2 (refreshSessions db3) @ [b])" by simp
  show ?thesis
    by (rule exI[of _ x1], rule exI[of _ x2], rule exI, rule exI, rule exI[of _ a], rule exI[of _ b])
      (intro conjI, rule 1(1)[folded db3_def], rule 2(1), use m 1 2 in simp_all)
qed

section \<open>Logout\<close>

text \<open>Every token of the session \<open>sid\<close> that verifies at some time expires later than that time, and
  not before \<open>e\<close>: \<open>jwt.verify\<close> refuses an expired token, and the refresh token of a session
  outlives its access token.\<close>

definition sessionExpiry :: "auth_lib \<Rightarrow> string \<Rightarrow> int \<Rightarrow> bool" where
  "sessionExpiry lib sid e \<longleftrightarrow> (\<forall>t s x. tokenExpiry lib t s x \<longrightarrow> trim s = sid \<longrightarrow> e \<le> x \<and> t div 1000 < x)"

definition stillRevoked :: "string \<Rightarrow> int \<Rightarrow> blacklist \<Rightarrow> bool" where
  "stillRevoked sid e b \<longleftrightarrow> (\<exists>v. bl_map b sid = Some v \<and> e * 1000 \<le> v)"

lemma prune_still: "stillRevoked sid e b \<Longrightarrow> t < e * 1000 \<Longrightarrow> stillRevoked sid e (pruneMemoryBlacklist t b)"
  by (auto simp: stillRevoked_def pruneMemoryBlacklist_def)

lemma lookup_still:
  assumes "stillRevoked sid e b" "t < e * 1000"
  shows "stillRevoked sid e (snd (isSessionIdBlacklisted r t s b))"
proof -
  note p = prune_still[OF assms]
  then have "stillRevoked sid e (snd (isBlacklistedInMemory t k b))" for k
    using assms(2) by (auto simp: isBlacklistedInMemory_def Let_def stillRevoked_def split: option.split)
  then show ?thesis using assms(1) by (auto simp: isSessionIdBlacklisted_def Let_def)
qed

lemma blacklist_still:
  assumes "stillRevoked sid e b" "t < e * 1000" "trim s = sid \<longrightarrow> e \<le> x \<and> t div 1000 < x"
  shows "stillRevoked sid e (blacklistSessionId r t s x b)"
proof -
  have "stillRevoked sid e (b\<lparr>bl_map := (bl_map b)(trim s \<mapsto> x * 1000)\<rparr>)" using assms(1,3) by (auto simp: stillRevoked_def)
  note p = prune_still[OF this assms(2)]
  have "\<not> x * 1000 \<le> t" if "t div 1000 < x" using that by linarith
  then have n: "trim s = sid \<longrightarrow> \<not> x \<le> nowEpochSeconds t \<and> \<not> x * 1000 \<le> t" using assms(3) by (auto simp: nowEpochSeconds_def)
  have k: "stillRevoked sid e (b\<lparr>bl_map := (bl_map b)(trim s := None)\<rparr>)" if "trim s \<noteq> sid" using assms(1) that by (auto simp: stillRevoked_def)
  show ?thesis using p k n assms(1) by (auto simp: blacklistSessionId_def blacklistInMemory_def Let_def)
qed

lemma write_still:
  "identity_write lib X T db db' \<Longrightarrow> sessionExpiry lib sid e \<Longrightarrow> T < e * 1000 \<Longrightarrow> stillRevoked sid e (revoked db) \<Longrightarrow> stillRevoked sid e (revoked db')"
proof (induction rule: identity_write.induct)
  case (blacklist t s x db r)
  then show ?case by (auto simp: sessionExpiry_def intro!: blacklist_still)
next
  case (prune t rx s db)
  then show ?case by (auto simp: pruneRevoked_def intro!: lookup_still)
qed (auto simp: insertUser_def insertCompany_def insertMember_def insertSession_def writeIdentityAudit_def
    updateUser_def clearDefault_def deleteCompany_def deleteUser_def split: if_splits)

lemma writes_still:
  "identity_writes lib X T db db' \<Longrightarrow> sessionExpiry lib sid e \<Longrightarrow> T < e * 1000 \<Longrightarrow> stillRevoked sid e (revoked db) \<Longrightarrow> stillRevoked sid e (revoked db')"
  by (induction rule: rtranclp_induct) (auto intro: write_still)

lemma logout_revoked:
  assumes "verifyAccessToken (al_verifyAccess lib t) tok = Some p" "tp_exp p = Some e" "trim (tp_sid p) \<noteq> []"
    "sessionExpiry lib (trim (tp_sid p)) e"
  shows "stillRevoked (trim (tp_sid p)) e (revoked (logout lib False rr t (Some tok) rtok db))"
proof -
  have e: "t div 1000 < e" using assms(4) tokenExpiryI(1)[OF assms(1)] assms(2) by (auto simp: sessionExpiry_def)
  then have t: "t < e * 1000" by linarith
  have r: "stillRevoked (trim (tp_sid p)) e (revoked (revokeSessionByAccessToken lib False t tok db))"
  proof -
    have "stillRevoked (trim (tp_sid p)) e (b\<lparr>bl_map := (bl_map b)(trim (tp_sid p) \<mapsto> e * 1000)\<rparr>)" for b
      by (simp add: stillRevoked_def)
    then have "stillRevoked (trim (tp_sid p)) e (blacklistSessionId False t (tp_sid p) e b)" for b
      using prune_still[OF _ t] e t assms(3) by (auto simp: blacklistSessionId_def blacklistInMemory_def nowEpochSeconds_def Let_def)
    then show ?thesis using assms(1,2) by (simp add: revokeSessionByAccessToken_def revokeSession_def)
  qed
  show ?thesis
  proof (cases rtok)
    case (Some x)
    show ?thesis
    proof (cases "verifyRefreshToken lib t x")
      case (Some q)
      have "trim (rt_sid q) = trim (tp_sid p) \<longrightarrow> e \<le> orElse (rt_exp q) 0 \<and> t div 1000 < orElse (rt_exp q) 0"
        using assms(4) tokenExpiryI(2)[OF Some] by (auto simp: sessionExpiry_def)
      then show ?thesis using blacklist_still[OF r t] Some \<open>rtok = Some x\<close>
        by (simp add: logout_def Let_def revokeRefreshSessionByToken_def revokeSession_def)
    qed (use r Some in \<open>simp add: logout_def revokeRefreshSessionByToken_def\<close>)
  qed (use r in \<open>simp add: logout_def\<close>)
qed


section \<open>MFA\<close>


text \<open>A privileged user an administrator creates with MFA already enabled can never log in:
  there is no secret to check a code against, and the answer (reconfigure MFA from the profile)
  needs a login.\<close>

lemma mfa_lockout:
  assumes "adminCreateUser lib env me r db = Inr (u, db')" "cu_mfaEnabled r = Some True" "isMfaRequiredRole (cu_role r)"
    "normalizeEmail (lr_email q) = us_email u"
  shows "\<exists>e. login lib env' q c db' = (Inl e, db')"
proof -
  obtain d1 d2 where u: "insertUser u db = Inr d1" "insertMembers (membershipsToCreate env (us_id u) (cu_memberships r)) d1 = Inr d2"
    "users db' = users d2" "us_mfaEnabled u" "us_mfaSecret u = None" "us_role u = cu_role r"
    using assms(1,2) by (auto simp: adminCreateUser_def Let_def onDuplicate_Inr bindR_eq_Inr writeIdentityAudit_def split: if_splits)
  have "users d = users b" if "insertMembers ms b = Inr d" for ms and b d :: "'a identity_scheme"
    using that
  proof (induction ms arbitrary: b)
    case (Cons m ms)
    then show ?case by (fastforce simp: bindR_eq_Inr insertMember_def split: if_splits)
  qed simp
  then have "users db' = users db @ [u]" "\<forall>x \<in> set (users db). us_email x \<noteq> us_email u"
    using u(1-3) by (auto simp: insertUser_def list_ex_iff split: if_splits)
  then have "find (\<lambda>x. us_email x = normalizeEmail (lr_email q)) (users db') = Some u"
    using assms(4) find_None_iff[of "\<lambda>x. us_email x = us_email u" "users db"] by (auto simp: find_append split: option.split)
  then show ?thesis using u(4-6) assms(3) by (auto simp: login_def)
qed

text \<open>C17: Starting from empty tables, every state the identity routes reach is well formed: ids,
  emails, company codes, token hashes and the pairs of user and company are unique, every membership
  and session refers to existing rows, and a user has at most one default company.\<close>

theorem identity_tables:
  assumes "(identity_step lib X T)\<^sup>*\<^sup>* db0 db" "users db0 = []" "companies db0 = []" "members db0 = []" "refreshSessions db0 = []"
  shows "distinct (map us_id (users db)) \<and> distinct (map us_email (users db)) \<and> distinct (map co_id (companies db)) \<and>
    distinct (map co_code (companies db)) \<and> distinct (map (\<lambda>m. (cm_userId m, cm_companyId m)) (members db)) \<and>
    distinct (map rs_id (refreshSessions db)) \<and> distinct (map rs_tokenHash (refreshSessions db)) \<and>
    (\<forall>m \<in> set (members db). (\<exists>u \<in> set (users db). us_id u = cm_userId m) \<and> (\<exists>c \<in> set (companies db). co_id c = cm_companyId m)) \<and>
    (\<forall>s \<in> set (refreshSessions db). \<exists>u \<in> set (users db). us_id u = rs_userId s) \<and>
    (\<forall>m \<in> set (members db). \<forall>n \<in> set (members db). cm_isDefault m \<longrightarrow> cm_isDefault n \<longrightarrow> cm_userId m = cm_userId n \<longrightarrow> m = n)"
proof -
  have "tablesOk db0" using assms(2-5) by (simp add: tablesOk_def keysOk_def membersResolve_def sessionsResolve_def oneDefault_def)
  then have "tablesOk db" using tables_reach[OF assms(1)] by simp
  then show ?thesis unfolding tablesOk_def keysOk_def membersResolve_def sessionsResolve_def oneDefault_def by blast
qed

section \<open>Witnesses\<close>

text \<open>Tokens as texts with separators, signed by nobody, and refused once expired.\<close>

definition demoFlag :: "bool \<Rightarrow> string" where
  "demoFlag b = (if b then ''1'' else ''0'')"

definition demoLib :: auth_lib where
  "demoLib = \<lparr> al_signAccess = (\<lambda>p. join ''|'' [tp_id p, tp_sid p, showInt (orElse (tp_exp p) 0), demoFlag (tp_mfaEnabled p = Some True),
       demoFlag (tp_companySelectionRequired p = Some True)]),
     al_verifyAccess = (\<lambda>t tok. case split (CHR ''|'') tok of
         [i, s, e, m, c] \<Rightarrow> if t div 1000 < int (readNat e) then Some \<lparr> tp_typ = ''access'', tp_id = i, tp_sid = s, tp_email = [],
           tp_role = ACCOUNTANT, tp_name = [], tp_mustChangePassword = Some False, tp_mfaEnabled = Some (m = ''1''),
           tp_companySelectionRequired = Some (c = ''1''), tp_exp = Some (int (readNat e)) \<rparr> else None
       | _ \<Rightarrow> None),
     al_signRefresh = (\<lambda>p. join ''|'' [rt_sub p, rt_sid p, showInt (orElse (rt_exp p) 0), demoFlag (rt_companySelectionRequired p = Some True)]),
     al_verifyRefresh = (\<lambda>t tok. case split (CHR ''|'') tok of
         [u, s, e, c] \<Rightarrow> if t div 1000 < int (readNat e) then Some \<lparr> rt_typ = ''refresh'', rt_sub = u, rt_sid = s,
           rt_companySelectionRequired = Some (c = ''1''), rt_exp = Some (int (readNat e)) \<rparr> else None
       | _ \<Rightarrow> None),
     al_sha256 = (\<lambda>s. s), al_bcryptHash = (\<lambda>s. s), al_bcryptCompare = (\<lambda>p h. p = h), al_totp = (\<lambda>_ c s. c = s),
     al_isEmail = (\<lambda>s. CHR ''@'' \<in> set s), al_accessTtlMinutes = 15, al_refreshTtlHours = 168, al_production = False,
     al_bootstrapEnabled = True, al_bootstrapToken = Some ''boot'' \<rparr>"

definition demoUser :: "Role \<Rightarrow> bool \<Rightarrow> user" where
  "demoUser role mfa = \<lparr> us_id = ''u'', us_email = ''a@b.ro'', us_name = ''Ana'', us_passwordHash = ''parola-lunga-1'',
     us_mustChangePassword = False, us_mfaEnabled = mfa, us_mfaSecret = Some ''123456'', us_mfaPendingSecret = None, us_role = role,
     us_createdAt = 0 \<rparr>"

definition demoIdentity :: "user list \<Rightarrow> company list \<Rightarrow> refresh_session list \<Rightarrow> identity" where
  "demoIdentity us cs ss = \<lparr> users = us, companies = cs, members = [], refreshSessions = ss, identityAudit = [],
     revoked = \<lparr> bl_map = (\<lambda>_. None), bl_lastMemoryPruneAt = 0 \<rparr>, bootstrapTokenConsumed = False \<rparr>"

definition demoIdEnv :: "string \<Rightarrow> date \<Rightarrow> env" where
  "demoIdEnv k t = \<lparr> now = t, uuid = (\<lambda>n. k @ showNat n), storeDec = nearestColumn \<rparr>"

definition demoLogin :: login_req where
  "demoLogin = \<lparr> lr_email = ''A@b.ro'', lr_password = ''parola-lunga-1'', lr_mfaCode = None \<rparr>"

definition demoSession :: "id \<Rightarrow> date \<Rightarrow> date option \<Rightarrow> id option \<Rightarrow> refresh_session" where
  "demoSession i t rv nx = \<lparr> rs_id = i, rs_userId = ''u'', rs_tokenHash = ''u|'' @ i @ ''|'' @ showInt (t div 1000 + 604800) @ ''|1'',
     rs_expiresAt = t + 604800000, rs_revokedAt = rv, rs_replacedBySessionId = nx \<rparr>"

definition demoBefore :: identity where
  "demoBefore = demoIdentity [demoUser ACCOUNTANT False] [] [demoSession ''x0'' 1000 None None]"

definition demoAfter :: identity where
  "demoAfter = snd (rotateRefreshSession demoLib (demoIdEnv ''y'' 5000) None ''u|x0|604801|1'' demoBefore)"

definition demoAnswer :: "id \<Rightarrow> string \<Rightarrow> string \<Rightarrow> session_result" where
  "demoAnswer sid a r = (\<lparr> pu_id = ''u'', pu_email = ''a@b.ro'', pu_name = ''Ana'', pu_role = ACCOUNTANT, pu_mustChangePassword = False,
     pu_mfaEnabled = False, pu_companySelectionRequired = True \<rparr>, \<lparr> at_accessToken = a, at_refreshToken = r, at_sessionId = sid \<rparr>)"

lemma demo_rotate: "rotateRefreshSession demoLib (demoIdEnv ''y'' 5000) None ''u|x0|604801|1'' demoBefore =
    (Inr (Some (demoAnswer ''y0'' ''u|y0|905|0|1'' ''u|y0|604805|1'')), demoAfter)"
proof -
  have "fst (rotateRefreshSession demoLib (demoIdEnv ''y'' 5000) None ''u|x0|604801|1'' demoBefore) =
    Inr (Some (demoAnswer ''y0'' ''u|y0|905|0|1'' ''u|y0|604805|1''))" by code_simp
  then show ?thesis by (simp add: prod_eq_iff demoAfter_def)
qed

lemma demo_verify: "verifyRefreshToken demoLib t ''u|x0|604801|1'' = Some q \<Longrightarrow> rt_sid q = ''x0''"
  by (auto simp: verifyRefreshToken_def demoLib_def split: if_splits)

lemma demo_tables: "tablesOk demoBefore" "tablesOk demoAfter"
  unfolding tablesOk_def keysOk_def membersResolve_def sessionsResolve_def oneDefault_def by code_simp+

lemma demo_fresh: "t \<le> T \<Longrightarrow> freshEnv {''x0''} T (demoIdEnv ''z'' t)" "t \<le> T \<Longrightarrow> freshEnv {} T (demoIdEnv k t)"
  by (simp_all add: freshEnv_def demoIdEnv_def)

theorem refresh_single_use_witness:
  "fst (rotateRefreshSession demoLib (demoIdEnv ''w'' 7000) None ''u|x0|604801|1''
     (snd (login demoLib (demoIdEnv ''z'' 6000) demoLogin None demoAfter))) = Inr None"
proof -
  have "verifyRefreshToken demoLib (now (demoIdEnv ''y'' 5000)) ''u|x0|604801|1'' \<noteq> None" by code_simp
  then obtain q where q: "verifyRefreshToken demoLib (now (demoIdEnv ''y'' 5000)) ''u|x0|604801|1'' = Some q" "rt_sid q = ''x0''"
    using demo_verify by blast
  have s: "(identity_step demoLib {rt_sid q} 9000)\<^sup>*\<^sup>* demoAfter (snd (login demoLib (demoIdEnv ''z'' 6000) demoLogin None demoAfter))"
    unfolding q(2) by (rule r_into_rtranclp, rule identity_step.login, rule demo_fresh(1)) simp
  show ?thesis by (rule refresh_single_use[OF demo_rotate q(1) s demo_tables(2)]) (simp add: demo_verify q(2))
qed

definition demoChecked :: identity where
  "demoChecked = snd (rotateCheck demoLib (demoIdEnv ''y'' 5000) None ''u|x0|604801|1'' demoBefore)"

definition demoCheckedTwice :: identity where
  "demoCheckedTwice = snd (rotateCheck demoLib (demoIdEnv ''z'' 5001) None ''u|x0|604801|1'' demoChecked)"

lemma demo_checks:
  "rotateCheck demoLib (demoIdEnv ''y'' 5000) None ''u|x0|604801|1'' demoBefore =
     (Rotate (demoSession ''x0'' 1000 None None) (demoUser ACCOUNTANT False) True, demoChecked)"
  "rotateCheck demoLib (demoIdEnv ''z'' 5001) None ''u|x0|604801|1'' demoChecked =
     (Rotate (demoSession ''x0'' 1000 None None) (demoUser ACCOUNTANT False) True, demoCheckedTwice)"
proof -
  have "fst (rotateCheck demoLib (demoIdEnv ''y'' 5000) None ''u|x0|604801|1'' demoBefore) =
     Rotate (demoSession ''x0'' 1000 None None) (demoUser ACCOUNTANT False) True"
    "fst (rotateCheck demoLib (demoIdEnv ''z'' 5001) None ''u|x0|604801|1'' demoChecked) =
     Rotate (demoSession ''x0'' 1000 None None) (demoUser ACCOUNTANT False) True" by code_simp+
  then show "rotateCheck demoLib (demoIdEnv ''y'' 5000) None ''u|x0|604801|1'' demoBefore =
     (Rotate (demoSession ''x0'' 1000 None None) (demoUser ACCOUNTANT False) True, demoChecked)"
    "rotateCheck demoLib (demoIdEnv ''z'' 5001) None ''u|x0|604801|1'' demoChecked =
     (Rotate (demoSession ''x0'' 1000 None None) (demoUser ACCOUNTANT False) True, demoCheckedTwice)"
    by (simp_all add: prod_eq_iff demoChecked_def demoCheckedTwice_def)
qed

lemma refresh_race_example:
  "\<exists>x1 x2 db3 db4. rotateCommit demoLib (demoIdEnv ''y'' 5000) (demoSession ''x0'' 1000 None None) (demoUser ACCOUNTANT False) True demoCheckedTwice = (Inr x1, db3) \<and>
     rotateCommit demoLib (demoIdEnv ''z'' 5001) (demoSession ''x0'' 1000 None None) (demoUser ACCOUNTANT False) True db3 = (Inr x2, db4)"
proof -
  have u: "uuid (demoIdEnv ''y'' 5000) 0 \<noteq> uuid (demoIdEnv ''z'' 5001) 0" by code_simp
  have t: "at_refreshToken (buildTokens demoLib (now (demoIdEnv ''y'' 5000)) (demoUser ACCOUNTANT False) (uuid (demoIdEnv ''y'' 5000) 0) True) = ''u|y0|604805|1''"
    "at_refreshToken (buildTokens demoLib (now (demoIdEnv ''z'' 5001)) (demoUser ACCOUNTANT False) (uuid (demoIdEnv ''z'' 5001) 0) True) = ''u|z0|604805|1''"
    by code_simp+
  have h: "al_sha256 demoLib ''u|y0|604805|1'' \<noteq> al_sha256 demoLib ''u|z0|604805|1''" by (simp add: demoLib_def)
  have f: "rs_id x \<notin> {uuid (demoIdEnv ''y'' 5000) 0, uuid (demoIdEnv ''z'' 5001) 0} \<and>
      rs_tokenHash x \<notin> {al_sha256 demoLib ''u|y0|604805|1'', al_sha256 demoLib ''u|z0|604805|1''}" if "x \<in> set (refreshSessions demoBefore)" for x
    using that by (simp add: demoBefore_def demoIdentity_def demoSession_def demoIdEnv_def demoLib_def showInt_def)
  show ?thesis using refresh_race[OF demo_checks u t h f] by blast
qed

definition demoPayload :: token_payload where
  "demoPayload = \<lparr> tp_typ = ''access'', tp_id = ''u'', tp_sid = ''x0'', tp_email = [], tp_role = ACCOUNTANT, tp_name = [],
     tp_mustChangePassword = Some False, tp_mfaEnabled = Some False, tp_companySelectionRequired = Some False, tp_exp = Some 901 \<rparr>"

definition demoLogoutLib :: auth_lib where
  "demoLogoutLib = demoLib\<lparr> al_verifyAccess := (\<lambda>t tok. if tok = ''T'' \<and> t div 1000 < 901 then Some demoPayload else None),
     al_verifyRefresh := (\<lambda>_ _. None) \<rparr>"

lemma demo_access: "verifyAccessToken (al_verifyAccess demoLogoutLib t) tok = Some q \<longleftrightarrow> tok = ''T'' \<and> t div 1000 < 901 \<and> q = demoPayload"
  "verifyRefreshToken demoLogoutLib t tok = None"
  by (auto simp: verifyAccessToken_def verifyRefreshToken_def demoLogoutLib_def demoPayload_def)


definition demoMembership2 :: membership where
  "demoMembership2 = \<lparr> m_userId = ''u'', m_companyId = ''c'', m_companyCode = ''C'', m_companyName = ''Firma'', m_companyActive = True,
     m_role = ADMIN, m_isDefault = True, m_createdAt = 0 \<rparr>"

definition demoMfa :: identity where
  "demoMfa = demoIdentity [demoUser ACCOUNTANT True] [] []"


definition demoAdmin :: req_user where
  "demoAdmin = \<lparr> u_id = ''root'', u_email = [], u_role = ADMIN, u_sessionId = ''s'', u_name = [], u_mustChangePassword = False,
     u_mfaEnabled = True, u_companySelectionRequired = False, u_companyId = Some ''c'', u_companyCode = None, u_companyName = None,
     u_companyRole = Some ADMIN, u_permissions = [], u_availableCompanies = [] \<rparr>"

definition demoUserRequest :: create_user_req where
  "demoUserRequest = \<lparr> cu_email = ''sef@b.ro'', cu_name = ''Sef'', cu_password = ''parola-lunga-2'', cu_role = CHIEF_ACCOUNTANT,
     cu_mfaEnabled = Some True, cu_mustChangePassword = None,
     cu_memberships = [\<lparr> mi_companyId = ''c'', mi_role = CHIEF_ACCOUNTANT, mi_isDefault = None \<rparr>], cu_reason = None \<rparr>"

definition demoCompanies :: identity where
  "demoCompanies = demoIdentity [demoUser ACCOUNTANT True]
     [\<lparr> co_id = ''c'', co_code = ''C'', co_name = ''Firma'', co_contact = emptyContact, co_isActive = True, co_createdAt = 0 \<rparr>] []"

lemma mfa_lockout_example:
  "\<exists>u db'. adminCreateUser demoLib (demoIdEnv ''n'' 1) demoAdmin demoUserRequest demoCompanies = Inr (u, db') \<and>
     (\<exists>e. login demoLib (demoIdEnv ''m'' 2) (demoLogin\<lparr>lr_email := ''sef@b.ro''\<rparr>) None db' = (Inl e, db'))"
proof -
  have "is_ok (adminCreateUser demoLib (demoIdEnv ''n'' 1) demoAdmin demoUserRequest demoCompanies)" by code_simp
  then obtain u db' where a: "adminCreateUser demoLib (demoIdEnv ''n'' 1) demoAdmin demoUserRequest demoCompanies = Inr (u, db')"
    by (auto simp: is_ok_iff)
  have e: "us_email u = normalizeEmail (cu_email demoUserRequest)"
    using a by (auto simp: adminCreateUser_def Let_def onDuplicate_Inr bindR_eq_Inr split: if_splits)
  have "normalizeEmail (lr_email (demoLogin\<lparr>lr_email := ''sef@b.ro''\<rparr>)) = us_email u" unfolding e by code_simp
  moreover have "cu_mfaEnabled demoUserRequest = Some True" "isMfaRequiredRole (cu_role demoUserRequest)" by code_simp+
  ultimately show ?thesis using mfa_lockout[OF a] a by blast
qed

theorem identity_tables_witness:
  "distinct (map us_email (users (snd (bootstrapAdmin demoLib (demoIdEnv ''n'' 1) (Some ''boot'')
     \<lparr> gr_email = ''a@b.ro'', gr_name = ''Ana'', gr_password = ''parola-lunga-1'' \<rparr> (demoIdentity [] [] [])))))"
proof -
  have s: "(identity_step demoLib {} 9)\<^sup>*\<^sup>* (demoIdentity [] [] []) (snd (bootstrapAdmin demoLib (demoIdEnv ''n'' 1) (Some ''boot'')
     \<lparr> gr_email = ''a@b.ro'', gr_name = ''Ana'', gr_password = ''parola-lunga-1'' \<rparr> (demoIdentity [] [] [])))"
    by (rule r_into_rtranclp, rule identity_step.bootstrap, rule demo_fresh(2)) simp
  show ?thesis using identity_tables[OF s] by (simp add: demoIdentity_def)
qed

end
