(* ===== verification/Rounding.thy ===== *)
theory Rounding
  imports Numbers
begin

text \<open>
  Rounded shares and chains of amounts: how far \<open>round2\<close> of a product with a rate is from the exact
  share, and that subtracting several amounts before rounding is exact. Used by payroll and by the
  depreciation of assets.
\<close>

lemma int_bound: "\<bar>n\<bar> \<le> b \<Longrightarrow> \<bar>of_int n :: rat\<bar> \<le> of_int b"
  by (metis of_int_abs of_int_le_iff)

text \<open>\<open>round2\<close> is within half a cent, up to a thousandth of a cent.\<close>

lemma round2_err:
  assumes x: "\<bar>100 * x\<bar> \<le> 2 ^ 40"
  obtains k where "round2 x = cents k" "\<bar>of_int k - 100 * x\<bar> \<le> 1/2 + 1/2000"
proof -
  define a where "a = fl (x + EPSILON)"
  define b where "b = fl (a * 100)"
  define e where "e = (1 :: rat) / 2 ^ 1000"
  have e: "0 \<le> e" "e \<le> 1 / 100000000" by (simp_all add: e_def)
  have E: "0 \<le> EPSILON" "100 * EPSILON \<le> 1 / 1000000" by (simp_all add: EPSILON_def)
  have x1: "\<bar>x + EPSILON\<bar> \<le> 2 ^ 34" using x E by (auto simp: abs_if split: if_splits)
  have "\<bar>a - (x + EPSILON)\<bar> \<le> \<bar>x + EPSILON\<bar> / 2 ^ 53 + e" unfolding a_def e_def by (rule fl_err)
  also have "\<dots> \<le> 2 ^ 34 / 2 ^ 53 + e" using x1 by (intro add_right_mono divide_right_mono) simp_all
  also have "\<dots> = 1 / 524288 + e" by simp
  finally have a: "\<bar>a - (x + EPSILON)\<bar> \<le> 1 / 524288 + e" .
  then have ax: "\<bar>a * 100 - 100 * x\<bar> \<le> 100 / 524288 + 100 * e + 1 / 1000000" using E unfolding abs_le_iff by linarith
  then have ab: "\<bar>a * 100\<bar> \<le> 2 ^ 41" using x e by simp
  have "\<bar>b - a * 100\<bar> \<le> \<bar>a * 100\<bar> / 2 ^ 53 + e" unfolding b_def e_def by (rule fl_err)
  also have "\<dots> \<le> 2 ^ 41 / 2 ^ 53 + e" using ab by (intro add_right_mono divide_right_mono) simp_all
  finally have b: "\<bar>b - a * 100\<bar> \<le> 1 / 4096 + e" by simp
  define k where "k = \<lfloor>b + 1/2\<rfloor>"
  have "\<bar>of_int k - b\<bar> \<le> 1/2" using floor_correct[of "b + 1/2"] unfolding k_def abs_le_iff by linarith
  then have "\<bar>of_int k - 100 * x\<bar> \<le> 1/2 + 1/2000" using ax b e by linarith
  moreover have "round2 x = cents k"
    by (simp add: round2_def fdiv_def fmul_def fadd_def a_def[symmetric] b_def[symmetric] mathRound_def k_def grid_def)
  ultimately show thesis by (rule that[rotated])
qed

text \<open>A share of an amount: the product with a rate.\<close>

lemma round2_share:
  assumes n: "0 \<le> n" "n \<le> 2 ^ 39" and p: "0 \<le> p" "p \<le> 1"
  obtains k where "round2 (fmul (cents n) p) = cents k" "\<bar>of_int k - of_int n * p\<bar> \<le> 1/2 + 1/1000"
proof -
  define c where "c = cents n"
  define N where "N = (of_int n :: rat)"
  define x where "x = fl (c * p)"
  define e where "e = (1 :: rat) / 2 ^ 900"
  have e: "0 \<le> e" "e \<le> 1 / 100000000" "1 / 2 ^ 1000 \<le> e" by (simp_all add: e_def)
  have N: "0 \<le> N" "N \<le> 2 ^ 39" using int_bound[of n "2 ^ 39"] n by (simp_all add: N_def)
  have "\<bar>100 * c - N\<bar> \<le> \<bar>N\<bar> / 2 ^ 53 + e" using cent.grid_err[of n] by (simp add: c_def N_def e_def)
  also have "\<dots> \<le> 2 ^ 39 / 2 ^ 53 + e" using N by (intro add_right_mono divide_right_mono) simp_all
  finally have c: "\<bar>100 * c - N\<bar> \<le> 1 / 16384 + e" by simp
  have "100 * (c * p) - N * p = (100 * c - N) * p" by (simp add: algebra_simps)
  then have "\<bar>100 * (c * p) - N * p\<bar> = \<bar>100 * c - N\<bar> * p" using p by (simp add: abs_mult)
  also have "\<dots> \<le> (1 / 16384 + e) * 1" using c p e by (intro mult_mono) auto
  finally have cp: "\<bar>100 * (c * p) - N * p\<bar> \<le> 1 / 16384 + e" by simp
  have Np: "0 \<le> N * p" "N * p \<le> 2 ^ 39" using N p mult_mono[of N "2 ^ 39" p 1] by simp_all
  have "\<bar>x - c * p\<bar> \<le> \<bar>c * p\<bar> / 2 ^ 53 + 1 / 2 ^ 1000" unfolding x_def by (rule fl_err)
  also have "\<dots> \<le> 2 ^ 33 / 2 ^ 53 + e"
    using cp Np e by (intro add_mono divide_right_mono) (simp_all add: abs_le_iff)
  finally have "\<bar>x - c * p\<bar> \<le> 1 / 1048576 + e" by simp
  then have xx: "\<bar>100 * x - N * p\<bar> \<le> 1/2000" using cp e by linarith
  moreover have "(2 :: rat) ^ 39 + 1 \<le> 2 ^ 40" by simp
  ultimately have "\<bar>100 * x\<bar> \<le> 2 ^ 40" using Np by linarith
  then obtain k where k: "round2 x = cents k" "\<bar>of_int k - 100 * x\<bar> \<le> 1/2 + 1/2000" by (rule round2_err)
  then have "\<bar>of_int k - N * p\<bar> \<le> 1/2 + 1/1000" using xx by linarith
  then show thesis using k(1) by (intro that) (simp_all add: fmul_def c_def N_def x_def)
qed

text \<open>Amounts added one after the other, from a first amount.\<close>

lemma round2_chain:
  assumes "(int (length ns) + 1) * (1 + \<bar>m\<bar> + (\<Sum>n\<leftarrow>ns. \<bar>n\<bar>)) \<le> 2 ^ 44"
  shows "round2 (foldl fadd (cents m) (map cents ns)) = cents (m + sum_list ns)"
proof (rule round2_near)
  define T where "T = 1 + \<bar>m\<bar> + (\<Sum>n\<leftarrow>ns. \<bar>n\<bar>)"
  have nn: "0 \<le> (\<Sum>n\<leftarrow>ns. \<bar>n\<bar>)" by (rule cent.sum_abs_nonneg)
  have T: "1 \<le> T" unfolding T_def using nn by simp
  have le: "int (1 + length ns) * T \<le> 2 ^ 44" using assms unfolding T_def by (simp add: add.commute)
  have "1 * T \<le> int (1 + length ns) * T" using T by (intro mult_right_mono) auto
  then have T44: "T \<le> 2 ^ 44" using le by linarith
  have "\<bar>100 * cents m - of_int m\<bar> \<le> \<bar>of_int m\<bar> / 2 ^ 53 + 1 / 2 ^ 900" using cent.grid_err[of m] by simp
  also have "\<dots> \<le> of_int T / 2 ^ 53 + of_int T / 2 ^ 60"
  proof (intro add_mono)
    show "\<bar>of_int m :: rat\<bar> / 2 ^ 53 \<le> of_int T / 2 ^ 53" using nn int_bound[of m T] by (intro divide_right_mono) (auto simp: T_def)
    show "(1 :: rat) / 2 ^ 900 \<le> of_int T / 2 ^ 60" using T by (simp add: field_simps)
  qed
  also have "\<dots> \<le> of_nat 1 * (of_int T / 2 ^ 50)" using T by simp
  finally have "\<bar>of_int 100 * foldl fadd (cents m) (map cents ns) - of_int (m + sum_list ns)\<bar>
      \<le> of_nat (1 + length ns) * (of_int T / 2 ^ 50)"
    using T le by (intro cent.sum_err) (auto simp: T_def)
  also have "\<dots> = of_int (int (1 + length ns) * T) / 2 ^ 50" by simp
  also have "\<dots> \<le> of_int (2 ^ 44) / 2 ^ 50" using le by (intro divide_right_mono) (simp_all only: of_int_le_iff, simp)
  also have "\<dots> \<le> 2/5" by simp
  finally show "\<bar>of_int 100 * foldl fadd (cents m) (map cents ns) - of_int (m + sum_list ns)\<bar> \<le> 2/5" .
  show "\<bar>m + sum_list ns\<bar> \<le> 2 ^ 45" using T44 sum_list_abs[of ns] abs_triangle_ineq[of m "sum_list ns"] unfolding T_def by simp
qed

lemma fsub_cents: "fsub a (cents n) = fadd a (cents (- n))"
  by (simp add: fsub_def fadd_def cent.grid_minus)

text \<open>A running total that is rounded after every addition.\<close>

lemma running_total:
  assumes "\<forall>n \<in> set ns. 0 \<le> n" "0 \<le> a" "a + sum_list ns \<le> 2 ^ 44"
  shows "foldl (\<lambda>acc x. round2 (fadd acc x)) (cents a) (map cents ns) = cents (a + sum_list ns)"
  using assms
proof (induction ns arbitrary: a)
  case (Cons n ns)
  have s: "0 \<le> sum_list ns" using Cons.prems(1) by (induction ns) auto
  then have "round2 (fadd (cents a) (cents n)) = cents (a + n)" using Cons.prems by (intro round2_add) auto
  then show ?case using Cons.IH[of "a + n"] Cons.prems by (simp add: add.assoc)
qed simp

text \<open>Rounding a double changes nothing.\<close>

lemma fl_idem [simp]: "fl (fl x) = fl x"
proof (cases "x = 0")
  case False
  let ?u = "ulpExp x"
  have pos: "0 < \<bar>x\<bar>" using False by simp
  have "ilog2 \<bar>x\<bar> - 52 \<le> ?u" by (simp add: ulpExp_def)
  then have "2 powi (ilog2 \<bar>x\<bar> + 1) \<le> (2 :: rat) powi (?u + 53)" by simp
  then have "\<bar>x\<bar> \<le> 2 powi (?u + 53)" using ilog2_bounds(2)[OF pos] by linarith
  then have "\<bar>x\<bar> / 2 powi ?u \<le> 2 powi (?u + 53) / 2 powi ?u" by (intro divide_right_mono) simp_all
  also have "\<dots> = of_int (2 ^ 53)" by (simp add: power_int_add)
  finally have b: "\<bar>x\<bar> / 2 powi ?u \<le> of_int (2 ^ 53)" .
  have "x / 2 powi ?u \<le> \<bar>x\<bar> / 2 powi ?u" "- (\<bar>x\<bar> / 2 powi ?u) \<le> x / 2 powi ?u"
    by (simp_all add: divide_right_mono flip: divide_minus_left)
  then have "x / 2 powi ?u \<le> of_int (2 ^ 53)" "of_int (- (2 ^ 53)) \<le> x / 2 powi ?u" using b by simp_all
  then have "rne (x / 2 powi ?u) \<le> 2 ^ 53" "- (2 ^ 53) \<le> rne (x / 2 powi ?u)"
    using rne_mono[of "x / 2 powi ?u" "of_int (2 ^ 53)"] rne_mono[of "of_int (- (2 ^ 53))" "x / 2 powi ?u"] by (simp_all only: rne_of_int)
  then have "\<bar>rne (x / 2 powi ?u)\<bar> \<le> 2 ^ 53" by simp
  moreover have "- 1074 \<le> ?u" by (simp add: ulpExp_def)
  ultimately show ?thesis using fl_exact False by (simp add: fl_def[of x])
qed simp

lemma fl_cents [simp]: "fl (cents n) = cents n"
  by (simp add: grid_def)

end
