(* ===== verification/Payroll.thy ===== *)
theory Payroll
  imports Postings Rounding "HOL-Library.List_Lexorder" "HOL-Library.Char_ord"
begin

text \<open>
  Employees and payroll (routes/employees.ts, routes/payroll.ts): hiring and changing employees, and
  generating the payroll run of a month: one line per active employee with the contributions and the
  tax, the totals, and the journal entry. The tables extend the ledger's; amounts are cents.
\<close>

section \<open>Tables\<close>

datatype PayrollStatus = PAYROLL_DRAFT | PAYROLL_POSTED

record employee =
  em_id :: id
  em_companyId :: id
  em_cnp :: string
  em_name :: string
  em_contractType :: string
  em_personalDeduction :: int
  em_grossSalary :: int
  em_isActive :: bool
  em_hiredAt :: date

record payroll_line =
  pl_employeeId :: id
  pl_grossSalary :: int
  pl_personalDeduction :: int
  pl_cas :: int
  pl_cass :: int
  pl_incomeTax :: int
  pl_cam :: int
  pl_netSalary :: int

record payroll_run =
  run_id :: id
  run_companyId :: id
  run_period :: string
  run_payDate :: date
  run_status :: PayrollStatus
  run_totalGross :: int
  run_totalNet :: int
  run_totalCas :: int
  run_totalCass :: int
  run_totalTax :: int
  run_totalCam :: int
  run_createdById :: id
  run_journalEntryId :: "id option"
  run_lines :: "payroll_line list"

record payrolling = ledger +
  employees :: "employee list"
  payrollRuns :: "payroll_run list"

text \<open>The primary key and the unique index \<open>[companyId, cnp]\<close>.\<close>

definition employeeClash :: "employee \<Rightarrow> employee \<Rightarrow> bool" where
  "employeeClash x y \<longleftrightarrow> em_id x = em_id y \<or> (em_companyId x = em_companyId y \<and> em_cnp x = em_cnp y)"

definition insertEmployee :: "employee \<Rightarrow> 'z payrolling_scheme \<Rightarrow> http_error + 'z payrolling_scheme" where
  "insertEmployee x db =
     (if list_ex (employeeClash x) (employees db) then Inl uniqueViolation
      else Inr (db\<lparr>employees := employees db @ [x]\<rparr>))"

text \<open>The primary key and the unique indexes \<open>[companyId, period]\<close> and \<open>[journalEntryId]\<close>.\<close>

definition runClash :: "payroll_run \<Rightarrow> payroll_run \<Rightarrow> bool" where
  "runClash x y \<longleftrightarrow> run_id x = run_id y \<or> (run_companyId x = run_companyId y \<and> run_period x = run_period y) \<or>
     sameKey (run_journalEntryId x) (run_journalEntryId y)"

definition insertRun :: "payroll_run \<Rightarrow> 'z payrolling_scheme \<Rightarrow> http_error + 'z payrolling_scheme" where
  "insertRun x db =
     (if list_ex (runClash x) (payrollRuns db) then Inl uniqueViolation
      else Inr (db\<lparr>payrollRuns := payrollRuns db @ [x]\<rparr>))"

section \<open>Employees\<close>

record employee_req =
  er_cnp :: string
  er_name :: string
  er_contractType :: string
  er_grossSalary :: double
  er_personalDeduction :: double
  er_hiredAt :: "date option"
  er_reason :: "string option"

definition createEmployeeSchema :: "employee_req \<Rightarrow> bool" where
  "createEmployeeSchema r \<longleftrightarrow> 8 \<le> length (er_cnp r) \<and> 2 \<le> length (er_name r) \<and> 0 < er_grossSalary r \<and> 0 \<le> er_personalDeduction r"

definition createEmployee ::
  "env \<Rightarrow> actor \<Rightarrow> employee_req \<Rightarrow> 'z payrolling_scheme \<Rightarrow> http_error + (employee \<times> 'z payrolling_scheme)" where
  "createEmployee env u r db =
     (if \<not> createEmployeeSchema r then Inl (badRequest ''Date invalide pentru angajat.'') else
      let x = \<lparr> em_id = uuid env 0, em_companyId = act_company u, em_cnp = er_cnp r, em_name = er_name r,
            em_contractType = er_contractType r, em_personalDeduction = storeDec env 100 (er_personalDeduction r),
            em_grossSalary = storeDec env 100 (er_grossSalary r), em_isActive = True,
            em_hiredAt = orElse (er_hiredAt r) (now env) \<rparr>
      in bindR (insertEmployee x db) (\<lambda>db.
         Inr (x, invalidateFinancialStatementsCache (writeAudit u ''employees'' (Some (em_id x)) ''CREATE'' (er_reason r) db))))"

record employee_patch =
  ep_name :: "string option"
  ep_contractType :: "string option"
  ep_grossSalary :: "double option"
  ep_personalDeduction :: "double option"
  ep_isActive :: "bool option"
  ep_reason :: string

definition updateEmployeeSchema :: "employee_patch \<Rightarrow> bool" where
  "updateEmployeeSchema r \<longleftrightarrow> (case ep_name r of None \<Rightarrow> True | Some s \<Rightarrow> 2 \<le> length s) \<and>
     (case ep_contractType r of None \<Rightarrow> True | Some s \<Rightarrow> 2 \<le> length s) \<and>
     (case ep_grossSalary r of None \<Rightarrow> True | Some x \<Rightarrow> 0 < x) \<and>
     (case ep_personalDeduction r of None \<Rightarrow> True | Some x \<Rightarrow> 0 \<le> x) \<and> 3 \<le> length (ep_reason r)"

definition patchEmployee :: "env \<Rightarrow> employee_patch \<Rightarrow> employee \<Rightarrow> employee" where
  "patchEmployee env r x = x\<lparr> em_name := orElse (ep_name r) (em_name x),
     em_contractType := orElse (ep_contractType r) (em_contractType x),
     em_grossSalary := orElse (map_option (storeDec env 100) (ep_grossSalary r)) (em_grossSalary x),
     em_personalDeduction := orElse (map_option (storeDec env 100) (ep_personalDeduction r)) (em_personalDeduction x),
     em_isActive := orElse (ep_isActive r) (em_isActive x) \<rparr>"

definition updateEmployee ::
  "env \<Rightarrow> actor \<Rightarrow> id \<Rightarrow> employee_patch \<Rightarrow> 'z payrolling_scheme \<Rightarrow> http_error + (employee \<times> 'z payrolling_scheme)" where
  "updateEmployee env u employeeId r db =
     (if \<not> updateEmployeeSchema r then Inl (badRequest ''Date invalide pentru actualizare angajat.'') else
      case find (\<lambda>x. em_id x = employeeId \<and> em_companyId x = act_company u) (employees db) of
        None \<Rightarrow> Inl (notFound ''Angajat inexistent.'')
      | Some existing \<Rightarrow> Inr (patchEmployee env r existing, invalidateFinancialStatementsCache
          (writeAudit u ''employees'' (Some (em_id existing)) ''UPDATE'' (Some (ep_reason r))
            (db\<lparr>employees := updateWhere (\<lambda>x. em_id x = employeeId) (patchEmployee env r) (employees db)\<rparr>))))"

section \<open>One line of a run\<close>

record pay_amounts =
  pa_employeeId :: id
  pa_grossSalary :: double
  pa_personalDeduction :: double
  pa_cas :: double
  pa_cass :: double
  pa_incomeTax :: double
  pa_cam :: double
  pa_netSalary :: double

definition payrollAmounts :: "employee \<Rightarrow> pay_amounts" where
  "payrollAmounts e =
     (let grossSalary = round2 (toNumber (column 100 (em_grossSalary e)));
          personalDeduction = round2 (toNumber (column 100 (em_personalDeduction e)));
          cas = round2 (fmul grossSalary (fl (25 / 100)));
          cass = round2 (fmul grossSalary (fl (1 / 10)));
          taxableBase = max (round2 (fsub (fsub (fsub grossSalary cas) cass) personalDeduction)) 0;
          incomeTax = round2 (fmul taxableBase (fl (1 / 10)));
          cam = round2 (fmul grossSalary (fl (225 / 10000)));
          netSalary = round2 (fsub (fsub (fsub grossSalary cas) cass) incomeTax)
      in \<lparr> pa_employeeId = em_id e, pa_grossSalary = grossSalary, pa_personalDeduction = personalDeduction,
           pa_cas = cas, pa_cass = cass, pa_incomeTax = incomeTax, pa_cam = cam, pa_netSalary = netSalary \<rparr>)"

definition storedLine :: "store \<Rightarrow> pay_amounts \<Rightarrow> payroll_line" where
  "storedLine st a = \<lparr> pl_employeeId = pa_employeeId a, pl_grossSalary = st 100 (pa_grossSalary a),
     pl_personalDeduction = st 100 (pa_personalDeduction a), pl_cas = st 100 (pa_cas a), pl_cass = st 100 (pa_cass a),
     pl_incomeTax = st 100 (pa_incomeTax a), pl_cam = st 100 (pa_cam a), pl_netSalary = st 100 (pa_netSalary a) \<rparr>"

text \<open>One of the six running totals of \<open>lines.reduce\<close>.\<close>

definition runningTotal :: "(pay_amounts \<Rightarrow> double) \<Rightarrow> pay_amounts list \<Rightarrow> double" where
  "runningTotal f ls = foldl (\<lambda>acc x. round2 (fadd acc x)) 0 (map f ls)"

section \<open>Generating a run\<close>

record payroll_req =
  gr_period :: string
  gr_payDate :: "date option"
  gr_autoPost :: bool
  gr_salaryExpenseAccountCode :: string
  gr_camExpenseAccountCode :: string
  gr_salaryPayableAccountCode :: string
  gr_casAccountCode :: string
  gr_cassAccountCode :: string
  gr_camAccountCode :: string
  gr_taxAccountCode :: string
  gr_reason :: "string option"

text \<open>The journal lines; \<open>ids\<close> are the accounts in the order of the request, \<open>ls\<close> the computed lines.\<close>

definition payrollLines :: "string \<Rightarrow> pay_amounts list \<Rightarrow> id list \<Rightarrow> (id \<times> double \<times> double \<times> string) list" where
  "payrollLines period ls ids =
     [(ids ! 0, runningTotal pa_grossSalary ls, 0, ''Cheltuiala salarii '' @ period),
      (ids ! 1, runningTotal pa_cam ls, 0, ''Cheltuiala CAM '' @ period),
      (ids ! 2, 0, runningTotal pa_netSalary ls, ''Datorii salarii nete '' @ period),
      (ids ! 3, 0, runningTotal pa_cas ls, ''Contributie CAS '' @ period),
      (ids ! 4, 0, runningTotal pa_cass ls, ''Contributie CASS '' @ period),
      (ids ! 5, 0, runningTotal pa_cam ls, ''Contributie asiguratorie munca (CAM) '' @ period)] @
     (if 0 < runningTotal pa_incomeTax ls
      then [(ids ! 6, 0, runningTotal pa_incomeTax ls, ''Impozit salarii '' @ period)] else [])"

definition activeEmployees :: "id \<Rightarrow> 'z payrolling_scheme \<Rightarrow> employee list" where
  "activeEmployees c db = sort_key em_name (filter (\<lambda>e. em_companyId e = c \<and> em_isActive e) (employees db))"

definition generatePayroll ::
  "env \<Rightarrow> actor \<Rightarrow> payroll_req \<Rightarrow> 'z payrolling_scheme \<Rightarrow> http_error + (payroll_run \<times> 'z payrolling_scheme)" where
  "generatePayroll env u r db =
     (if matchPeriod (gr_period r) = None then Inl (badRequest ''Date invalide pentru generarea salariilor.'') else
      bindR (parsePeriod (gr_period r)) (\<lambda>_.
      bindR (assertPeriodOpen (act_company u) (gr_period r) db) (\<lambda>_.
      if list_ex (\<lambda>x. run_companyId x = act_company u \<and> run_period x = gr_period r) (payrollRuns db)
      then Inl (conflict ''Exista deja un stat de salarii pentru perioada.'') else
      let es = activeEmployees (act_company u) db in
      if es = [] then Inl (badRequest ''Nu exista angajati activi pentru calcul salarii.'') else
      let payDate = orElse (gr_payDate r) (now env); ls = map payrollAmounts es in
      bindR (if gr_autoPost r
             then bindR (accountsOrError (badRequest ''Conturile pentru postare salarii nu sunt configurate corect.'') (act_company u)
                 [gr_salaryExpenseAccountCode r, gr_camExpenseAccountCode r, gr_salaryPayableAccountCode r,
                  gr_casAccountCode r, gr_cassAccountCode r, gr_camAccountCode r, gr_taxAccountCode r] db) (\<lambda>ids.
               bindR (insertEntry (autoEntry env u (uuid env 1) payDate (''Stat salarii '' @ gr_period r) (gr_period r) ''PAYROLL''
                 (payrollLines (gr_period r) ls ids) db) db) (\<lambda>db. Inr (Some (uuid env 1), db)))
             else Inr (None, db)) (\<lambda>(journalEntryId, db).
      let st = storeDec env 100; x = \<lparr> run_id = uuid env 0, run_companyId = act_company u, run_period = gr_period r,
            run_payDate = payDate, run_status = (if gr_autoPost r then PAYROLL_POSTED else PAYROLL_DRAFT),
            run_totalGross = st (runningTotal pa_grossSalary ls), run_totalNet = st (runningTotal pa_netSalary ls),
            run_totalCas = st (runningTotal pa_cas ls), run_totalCass = st (runningTotal pa_cass ls),
            run_totalTax = st (runningTotal pa_incomeTax ls), run_totalCam = st (runningTotal pa_cam ls),
            run_createdById = act_user u, run_journalEntryId = journalEntryId,
            run_lines = map (storedLine (storeDec env)) ls \<rparr>
      in bindR (insertRun x db) (\<lambda>db.
         Inr (x, invalidateFinancialStatementsCache (writeAudit u ''payroll_runs'' (Some (run_id x)) ''CREATE'' (gr_reason r) db)))))))"

end
