(* ===== verification/PayrollRuns.thy ===== *)
theory PayrollRuns
  imports Payroll LedgerHistory
begin

text \<open>
  What a payroll run holds: every line splits the gross salary exactly into the net salary, the two
  contributions and the tax, each within half a cent of its rate; the totals are the sums of the
  lines; the journal entry balances; and a company has at most one run per month.
\<close>

section \<open>The amounts of one line\<close>

text \<open>A line of a run, in cents: the rates 25 \<open>%\<close>, 10 \<open>%\<close>, 10 \<open>%\<close> of the taxable base and 2.25 \<open>%\<close>, each
  rounded to the nearest cent.\<close>

definition payLine :: "payroll_line \<Rightarrow> bool" where
  "payLine l \<longleftrightarrow> \<bar>4 * pl_cas l - pl_grossSalary l\<bar> \<le> 2 \<and> \<bar>10 * pl_cass l - pl_grossSalary l\<bar> \<le> 5 \<and>
     \<bar>10 * pl_incomeTax l - max (pl_grossSalary l - pl_cas l - pl_cass l - pl_personalDeduction l) 0\<bar> \<le> 5 \<and>
     \<bar>400 * pl_cam l - 9 * pl_grossSalary l\<bar> \<le> 200 \<and>
     pl_netSalary l = pl_grossSalary l - pl_cas l - pl_cass l - pl_incomeTax l \<and>
     0 \<le> pl_cas l \<and> 0 \<le> pl_cass l \<and> 0 \<le> pl_incomeTax l \<and> 0 \<le> pl_cam l"

lemma share_bound:
  assumes n: "0 \<le> n" "n \<le> 2 ^ 39" and p: "0 \<le> p" "p \<le> 1"
    and q: "0 < q" "q \<le> 500" "even q" "\<bar>p - of_int r / of_int q\<bar> \<le> 1 / 2 ^ 50"
  obtains k where "round2 (fmul (cents n) p) = cents k" "2 * \<bar>q * k - r * n\<bar> \<le> q"
proof -
  obtain k where k: "round2 (fmul (cents n) p) = cents k" "\<bar>of_int k - of_int n * p\<bar> \<le> 1/2 + 1/1000"
    using n p by (rule round2_share)
  define N Q R K where d: "N = (of_int n :: rat)" "Q = (of_int q :: rat)" "R = (of_int r :: rat)" "K = (of_int k :: rat)"
  have Q: "1 \<le> Q" "Q \<le> 500" using q by (simp_all add: d)
  have N: "0 \<le> N" "N \<le> 2 ^ 39" using int_bound[of n "2 ^ 39"] n by (simp_all add: d)
  have "N * p - N * (R / Q) = N * (p - R / Q)" by (simp add: right_diff_distrib)
  then have "\<bar>N * p - N * (R / Q)\<bar> = N * \<bar>p - R / Q\<bar>" using N by (simp only: abs_mult abs_of_nonneg)
  also have "\<dots> \<le> 2 ^ 39 * (1 / 2 ^ 50)" using N q(4) by (intro mult_mono) (simp_all add: d)
  finally have np: "\<bar>N * p - N * (R / Q)\<bar> \<le> 1 / 2048" by simp
  have "\<bar>K - N * (R / Q)\<bar> \<le> 1/2 + 1/600" using k(2) np unfolding d(1,4)[symmetric] by linarith
  then have "Q * \<bar>K - N * (R / Q)\<bar> \<le> Q * (1/2 + 1/600)" using Q by (intro mult_left_mono) auto
  moreover have "Q * (K - N * (R / Q)) = Q * K - R * N" using Q by (simp add: field_simps)
  then have "Q * \<bar>K - N * (R / Q)\<bar> = \<bar>Q * K - R * N\<bar>" using Q by (metis abs_mult abs_of_nonneg order_trans zero_le_one)
  ultimately have "2 * \<bar>Q * K - R * N\<bar> < Q + 2" using Q by (simp add: field_simps)
  then have "of_int (2 * \<bar>q * k - r * n\<bar>) < (of_int (q + 2) :: rat)" by (simp add: d)
  then have "2 * \<bar>q * k - r * n\<bar> < q + 2" by (simp only: of_int_less_iff)
  then have "2 * \<bar>q * k - r * n\<bar> \<le> q" using q(3) by presburger
  then show thesis using k(1) by (rule that[rotated])
qed

lemma rates:
  "fl (1 / 4) = 1 / 4" "\<bar>fl (1 / 10) - of_int 1 / of_int 10\<bar> \<le> 1 / 2 ^ 50" "\<bar>fl (9 / 400) - of_int 9 / of_int 400\<bar> \<le> 1 / 2 ^ 50"
  "0 \<le> fl (1 / 10)" "fl (1 / 10) \<le> 1" "0 \<le> fl (9 / 400)" "fl (9 / 400) \<le> 1"
proof -
  show "fl (1 / 4) = 1 / 4" by code_simp
  have t: "\<bar>fl (1 / 10) - 1 / 10\<bar> \<le> 1 / 2 ^ 50" by (rule order_trans[OF fl_err]) simp
  have m: "\<bar>fl (9 / 400) - 9 / 400\<bar> \<le> 1 / 2 ^ 50" by (rule order_trans[OF fl_err]) simp
  show "\<bar>fl (1 / 10) - of_int 1 / of_int 10\<bar> \<le> 1 / 2 ^ 50" "\<bar>fl (9 / 400) - of_int 9 / of_int 400\<bar> \<le> 1 / 2 ^ 50"
    using t m by simp_all
  show "0 \<le> fl (1 / 10)" "fl (1 / 10) \<le> 1" "0 \<le> fl (9 / 400)" "fl (9 / 400) \<le> 1"
    using fl_mono[of "1 / 10" 1] fl_mono[of "9 / 400" 1] fl_of_int[of 1] by (simp_all add: fl_nonneg)
qed

lemma three_subtractions:
  assumes "0 \<le> m" "m \<le> 2 ^ 39" "0 \<le> a" "a \<le> 2 ^ 39" "0 \<le> b" "b \<le> 2 ^ 39" "0 \<le> c" "c \<le> 2 ^ 39"
  shows "round2 (fsub (fsub (fsub (cents m) (cents a)) (cents b)) (cents c)) = cents (m - a - b - c)"
  using round2_chain[of "[- a, - b, - c]" m] assms by (simp add: fsub_cents algebra_simps)

lemma payrollAmounts_line:
  assumes st: "exact_store st" and g: "0 \<le> em_grossSalary e" "em_grossSalary e \<le> 2 ^ 39"
    and d: "0 \<le> em_personalDeduction e" "em_personalDeduction e \<le> 2 ^ 39"
  shows "payLine (storedLine st (payrollAmounts e))" "pl_grossSalary (storedLine st (payrollAmounts e)) = em_grossSalary e"
    "pa_grossSalary (payrollAmounts e) = cents (pl_grossSalary (storedLine st (payrollAmounts e)))"
    "pa_netSalary (payrollAmounts e) = cents (pl_netSalary (storedLine st (payrollAmounts e)))"
    "pa_cas (payrollAmounts e) = cents (pl_cas (storedLine st (payrollAmounts e)))"
    "pa_cass (payrollAmounts e) = cents (pl_cass (storedLine st (payrollAmounts e)))"
    "pa_incomeTax (payrollAmounts e) = cents (pl_incomeTax (storedLine st (payrollAmounts e)))"
    "pa_cam (payrollAmounts e) = cents (pl_cam (storedLine st (payrollAmounts e)))"
proof -
  define G where "G = em_grossSalary e"
  define D where "D = em_personalDeduction e"
  have GD: "0 \<le> G" "G \<le> 2 ^ 39" "0 \<le> D" "D \<le> 2 ^ 39" using g d by (simp_all add: G_def D_def)
  obtain a where a: "round2 (fmul (cents G) (fl (1 / 4))) = cents a" "2 * \<bar>4 * a - 1 * G\<bar> \<le> 4"
    using share_bound[OF GD(1,2), of "fl (1 / 4)" 4 1] rates by auto
  obtain b where b: "round2 (fmul (cents G) (fl (1 / 10))) = cents b" "2 * \<bar>10 * b - 1 * G\<bar> \<le> 10"
    using share_bound[OF GD(1,2), of "fl (1 / 10)" 10 1] rates by auto
  obtain m where m: "round2 (fmul (cents G) (fl (9 / 400))) = cents m" "2 * \<bar>400 * m - 9 * G\<bar> \<le> 400"
    using share_bound[OF GD(1,2), of "fl (9 / 400)" 400 9] rates by auto
  define B where "B = max (G - a - b - D) 0"
  have ab: "0 \<le> a" "a \<le> G" "0 \<le> b" "b \<le> G" "0 \<le> m" "m \<le> G + 1" using a b m GD by (auto simp: abs_le_iff)
  have B: "0 \<le> B" "B \<le> 2 ^ 39" using ab GD by (auto simp: B_def)
  have base: "max (round2 (fsub (fsub (fsub (cents G) (cents a)) (cents b)) (cents D))) 0 = cents B"
    using three_subtractions[of G a b D] ab GD cent.grid_max[of "G - a - b - D" 0] by (simp add: B_def)
  obtain t where t: "round2 (fmul (cents B) (fl (1 / 10))) = cents t" "2 * \<bar>10 * t - 1 * B\<bar> \<le> 10"
    using share_bound[OF B, of "fl (1 / 10)" 10 1] rates by auto
  have tb: "0 \<le> t" "t \<le> 2 ^ 39" using t B by (auto simp: abs_le_iff)
  have net: "round2 (fsub (fsub (fsub (cents G) (cents a)) (cents b)) (cents t)) = cents (G - a - b - t)"
    using three_subtractions[of G a b t] ab GD tb by simp
  have e: "payrollAmounts e = \<lparr> pa_employeeId = em_id e, pa_grossSalary = cents G, pa_personalDeduction = cents D, pa_cas = cents a,
      pa_cass = cents b, pa_incomeTax = cents t, pa_cam = cents m, pa_netSalary = cents (G - a - b - t) \<rparr>"
    using GD by (simp add: payrollAmounts_def Let_def G_def[symmetric] D_def[symmetric] a(1) b(1) m(1) base t(1) net)
  note ex = exact_storeD(1)[OF st]
  have s: "storedLine st (payrollAmounts e) = \<lparr> pl_employeeId = em_id e, pl_grossSalary = G, pl_personalDeduction = D, pl_cas = a,
      pl_cass = b, pl_incomeTax = t, pl_cam = m, pl_netSalary = G - a - b - t \<rparr>"
    using GD ab tb by (simp add: e storedLine_def ex)
  show "payLine (storedLine st (payrollAmounts e))" using a b m t ab tb by (simp add: payLine_def s B_def)
  show "pl_grossSalary (storedLine st (payrollAmounts e)) = em_grossSalary e" by (simp add: s G_def)
  show "pa_grossSalary (payrollAmounts e) = cents (pl_grossSalary (storedLine st (payrollAmounts e)))"
    "pa_netSalary (payrollAmounts e) = cents (pl_netSalary (storedLine st (payrollAmounts e)))"
    "pa_cas (payrollAmounts e) = cents (pl_cas (storedLine st (payrollAmounts e)))"
    "pa_cass (payrollAmounts e) = cents (pl_cass (storedLine st (payrollAmounts e)))"
    "pa_incomeTax (payrollAmounts e) = cents (pl_incomeTax (storedLine st (payrollAmounts e)))"
    "pa_cam (payrollAmounts e) = cents (pl_cam (storedLine st (payrollAmounts e)))"
    unfolding s by (simp_all add: e)
qed

text \<open>Every part of a line lies between zero and the gross salary.\<close>

lemma payLine_parts:
  assumes "payLine l" "0 \<le> pl_grossSalary l" "0 \<le> pl_personalDeduction l"
  shows "pl_cas l \<le> pl_grossSalary l" "pl_cass l \<le> pl_grossSalary l" "pl_cam l \<le> pl_grossSalary l"
    "pl_incomeTax l \<le> pl_grossSalary l" "0 \<le> pl_netSalary l" "pl_netSalary l \<le> pl_grossSalary l"
proof -
  define g a b d t m where v: "g = pl_grossSalary l" "a = pl_cas l" "b = pl_cass l" "d = pl_personalDeduction l" "t = pl_incomeTax l" "m = pl_cam l"
  define B where "B = max (g - a - b - d) 0"
  have h: "4 * a \<le> g + 2" "10 * b \<le> g + 5" "10 * t \<le> B + 5" "400 * m \<le> 9 * g + 200" "0 \<le> g" "0 \<le> a" "0 \<le> b" "0 \<le> t" "0 \<le> d"
    and n: "pl_netSalary l = g - a - b - t"
    using assms unfolding payLine_def abs_le_iff v B_def by auto
  have B: "B = 0 \<and> g - a - b < d \<or> B = g - a - b - d \<and> d \<le> g - a - b" by (auto simp: B_def)
  have "a + b \<le> g" proof (cases "g = 0")
    case True
    then have "a = 0" "b = 0" using h by presburger+
    then show ?thesis using True by simp
  qed (use h in auto)
  then have "t \<le> g - a - b" using B h(3,9) by (elim disjE conjE) auto
  then show "0 \<le> pl_netSalary l" "pl_netSalary l \<le> pl_grossSalary l" using h unfolding n by (auto simp: v(1)[symmetric])
  show "pl_cas l \<le> pl_grossSalary l" "pl_cass l \<le> pl_grossSalary l" "pl_cam l \<le> pl_grossSalary l" "pl_incomeTax l \<le> pl_grossSalary l"
    using h B unfolding v[symmetric] by auto
qed

section \<open>Totals\<close>

definition total :: "(payroll_line \<Rightarrow> int) \<Rightarrow> payroll_line list \<Rightarrow> int" where
  "total f ls = (\<Sum>l\<leftarrow>ls. f l)"

text \<open>The size of a run for which its sums are exact: \<open>2\<^sup>3\<^sup>9\<close> cents, about 5.5 billion.\<close>

definition runFits :: "payroll_line list \<Rightarrow> bool" where
  "runFits ls \<longleftrightarrow> (\<forall>l \<in> set ls. 0 \<le> pl_grossSalary l \<and> 0 \<le> pl_personalDeduction l \<and> pl_personalDeduction l \<le> 2 ^ 39) \<and>
     total pl_grossSalary ls \<le> 2 ^ 39"

lemma runFits_gross: "runFits ls \<Longrightarrow> l \<in> set ls \<Longrightarrow> pl_grossSalary l \<le> 2 ^ 39"
proof -
  assume f: "runFits ls" "l \<in> set ls"
  then have "pl_grossSalary l \<le> total pl_grossSalary ls"
    unfolding total_def by (intro member_le_sum_list) (auto simp: runFits_def)
  then show ?thesis using f by (simp add: runFits_def)
qed

text \<open>A stored amount inside the bound was that amount before it was stored.\<close>

lemma stored_small:
  assumes st: "exact_store st" and b: "0 \<le> st 100 (round2 (cents g))" "st 100 (round2 (cents g)) \<le> 2 ^ 39"
  shows "st 100 (round2 (cents g)) = g"
proof -
  note ex = exact_storeD(1)[OF st]
  have "\<not> 2 ^ 45 \<le> g"
  proof
    assume "2 ^ 45 \<le> g"
    then have "round2 (cents (2 ^ 45)) \<le> round2 (cents g)" by (intro round2_mono cent.grid_mono)
    then have "st 100 (cents (2 ^ 45)) \<le> st 100 (round2 (cents g))" by (intro exact_store_mono[OF st]) simp
    then show False using b(2) ex[of "2 ^ 45"] by simp
  qed
  moreover have "\<not> g \<le> - (2 ^ 45)"
  proof
    assume "g \<le> - (2 ^ 45)"
    then have "round2 (cents g) \<le> round2 (cents (- (2 ^ 45)))" by (intro round2_mono cent.grid_mono)
    then have "st 100 (round2 (cents g)) \<le> st 100 (cents (- (2 ^ 45)))" by (intro exact_store_mono[OF st]) simp
    then show False using b(1) ex[of "- (2 ^ 45)"] by simp
  qed
  ultimately have "\<bar>g\<bar> \<le> 2 ^ 45" by auto
  then show ?thesis using ex[of g] by simp
qed

lemma runningTotal_sum:
  assumes "\<forall>a \<in> set as. f a = cents (F (h a)) \<and> 0 \<le> F (h a)" "total F (map h as) \<le> 2 ^ 39"
  shows "runningTotal f as = cents (total F (map h as))"
proof -
  have m: "map f as = map cents (map (\<lambda>a. F (h a)) as)" using assms(1) by simp
  have t: "total F (map h as) = sum_list (map (\<lambda>a. F (h a)) as)" by (simp add: total_def comp_def)
  show ?thesis unfolding runningTotal_def m t
    using running_total[of "map (\<lambda>a. F (h a)) as" 0] assms t by simp
qed

lemma total_le:
  assumes "\<forall>l \<in> set ls. F l \<le> G l" shows "total F ls \<le> total G ls"
  using assms unfolding total_def by (intro sum_list_mono) simp

lemma run_totals:
  assumes st: "exact_store st" and f: "runFits (map (\<lambda>e. storedLine st (payrollAmounts e)) es)"
  defines "as \<equiv> map payrollAmounts es" and "ls \<equiv> map (\<lambda>e. storedLine st (payrollAmounts e)) es"
  shows "\<forall>l \<in> set ls. payLine l" "map pl_grossSalary ls = map em_grossSalary es"
    "runningTotal pa_grossSalary as = cents (total pl_grossSalary ls)" "runningTotal pa_netSalary as = cents (total pl_netSalary ls)"
    "runningTotal pa_cas as = cents (total pl_cas ls)" "runningTotal pa_cass as = cents (total pl_cass ls)"
    "runningTotal pa_incomeTax as = cents (total pl_incomeTax ls)" "runningTotal pa_cam as = cents (total pl_cam ls)"
    "F \<in> {pl_grossSalary, pl_netSalary, pl_cas, pl_cass, pl_incomeTax, pl_cam} \<Longrightarrow> 0 \<le> total F ls \<and> total F ls \<le> 2 ^ 39"
proof -
  have fits: "runFits ls" using f by (simp add: ls_def)
  have e: "0 \<le> em_grossSalary e \<and> em_grossSalary e \<le> 2 ^ 39 \<and> 0 \<le> em_personalDeduction e \<and> em_personalDeduction e \<le> 2 ^ 39"
    if "e \<in> set es" for e
  proof -
    have m: "storedLine st (payrollAmounts e) \<in> set ls" using that by (auto simp: ls_def)
    note b = runFits_gross[OF fits m] fits[unfolded runFits_def, THEN conjunct1, rule_format, OF m]
    have g: "pl_grossSalary (storedLine st (payrollAmounts e)) = st 100 (round2 (cents (em_grossSalary e)))"
      "pl_personalDeduction (storedLine st (payrollAmounts e)) = st 100 (round2 (cents (em_personalDeduction e)))"
      by (simp_all add: storedLine_def payrollAmounts_def Let_def)
    show ?thesis using stored_small[OF st, of "em_grossSalary e"] stored_small[OF st, of "em_personalDeduction e"] b unfolding g by simp
  qed
  note pl = payrollAmounts_line[OF st]
  show ok: "\<forall>l \<in> set ls. payLine l" using pl(1) e by (auto simp: ls_def)
  show "map pl_grossSalary ls = map em_grossSalary es" using pl(2) e by (simp add: ls_def)
  have lp: "(0 \<le> pl_cas l \<and> pl_cas l \<le> pl_grossSalary l) \<and> (0 \<le> pl_cass l \<and> pl_cass l \<le> pl_grossSalary l) \<and>
      (0 \<le> pl_cam l \<and> pl_cam l \<le> pl_grossSalary l) \<and> (0 \<le> pl_incomeTax l \<and> pl_incomeTax l \<le> pl_grossSalary l) \<and>
      (0 \<le> pl_netSalary l \<and> pl_netSalary l \<le> pl_grossSalary l) \<and> 0 \<le> pl_grossSalary l" if "l \<in> set ls" for l
  proof -
    have o: "payLine l" and g: "0 \<le> pl_grossSalary l" "0 \<le> pl_personalDeduction l" using ok fits that by (auto simp: runFits_def)
    show ?thesis using payLine_parts[OF o g] g o unfolding payLine_def by blast
  qed
  have parts: "\<forall>l \<in> set ls. 0 \<le> F l \<and> F l \<le> pl_grossSalary l"
    if "F \<in> {pl_grossSalary, pl_netSalary, pl_cas, pl_cass, pl_incomeTax, pl_cam}" for F
    using that by (elim insertE emptyE; hypsubst) (use lp in simp_all)
  show tot: "0 \<le> total F ls \<and> total F ls \<le> 2 ^ 39"
    if "F \<in> {pl_grossSalary, pl_netSalary, pl_cas, pl_cass, pl_incomeTax, pl_cam}" for F
    using parts[OF that] total_le[of ls F pl_grossSalary] fits
    by (auto simp: runFits_def total_def intro!: sum_list_nonneg)
  have sum: "runningTotal g as = cents (total F ls)"
    if F: "F \<in> {pl_grossSalary, pl_netSalary, pl_cas, pl_cass, pl_incomeTax, pl_cam}"
      and g: "\<And>e. e \<in> set es \<Longrightarrow> g (payrollAmounts e) = cents (F (storedLine st (payrollAmounts e)))" for F g
  proof -
    have lm: "map (storedLine st) as = ls" by (simp add: as_def ls_def)
    have "\<forall>a \<in> set as. g a = cents (F (storedLine st a)) \<and> 0 \<le> F (storedLine st a)"
      using g parts[OF F] by (auto simp: as_def ls_def)
    then show ?thesis using runningTotal_sum[of as g F "storedLine st"] tot[OF F] unfolding lm by simp
  qed
  show "runningTotal pa_grossSalary as = cents (total pl_grossSalary ls)" by (rule sum) (use pl(3) e in simp_all)
  show "runningTotal pa_netSalary as = cents (total pl_netSalary ls)" by (rule sum) (use pl(4) e in simp_all)
  show "runningTotal pa_cas as = cents (total pl_cas ls)" by (rule sum) (use pl(5) e in simp_all)
  show "runningTotal pa_cass as = cents (total pl_cass ls)" by (rule sum) (use pl(6) e in simp_all)
  show "runningTotal pa_incomeTax as = cents (total pl_incomeTax ls)" by (rule sum) (use pl(7) e in simp_all)
  show "runningTotal pa_cam as = cents (total pl_cam ls)" by (rule sum) (use pl(8) e in simp_all)
qed

section \<open>Invariant\<close>

definition runOk :: "payroll_run \<Rightarrow> bool" where
  "runOk x \<longleftrightarrow> (runFits (run_lines x) \<longrightarrow> (\<forall>l \<in> set (run_lines x). payLine l) \<and>
     run_totalGross x = total pl_grossSalary (run_lines x) \<and> run_totalNet x = total pl_netSalary (run_lines x) \<and>
     run_totalCas x = total pl_cas (run_lines x) \<and> run_totalCass x = total pl_cass (run_lines x) \<and>
     run_totalTax x = total pl_incomeTax (run_lines x) \<and> run_totalCam x = total pl_cam (run_lines x))"

definition payrollInv :: "'z payrolling_scheme \<Rightarrow> bool" where
  "payrollInv db \<longleftrightarrow> sorted_wrt (\<lambda>x y. \<not> employeeClash x y) (employees db) \<and> sorted_wrt (\<lambda>x y. \<not> runClash x y) (payrollRuns db) \<and>
     (\<forall>x \<in> set (payrollRuns db). runOk x)"

lemma payroll_table_simps [simp, table_simps]:
  "employees (writeAudit u t r a x db) = employees db" "payrollRuns (writeAudit u t r a x db) = payrollRuns db"
  "employees (invalidateFinancialStatementsCache db) = employees db"
  "payrollRuns (invalidateFinancialStatementsCache db) = payrollRuns db"
  by (simp_all add: writeAudit_def invalidateFinancialStatementsCache_def)

lemma insertEntry_payroll: "insertEntry e db = Inr db' \<Longrightarrow> employees db' = employees db \<and> payrollRuns db' = payrollRuns db"
  by (auto simp: insertEntry_def split: if_splits)

lemma createEmployee_InrD:
  "createEmployee env u r db = Inr (x, db') \<Longrightarrow> employees db' = employees db @ [x] \<and> payrollRuns db' = payrollRuns db \<and>
     (\<forall>y \<in> set (employees db). \<not> employeeClash y x)"
  by (auto simp: createEmployee_def Let_def bindR_eq_Inr insertEmployee_def employeeClash_def list_ex_iff split: if_splits)

lemma updateEmployee_InrD:
  "updateEmployee env u i r db = Inr (x, db') \<Longrightarrow> employees db' = updateWhere (\<lambda>x. em_id x = i) (patchEmployee env r) (employees db) \<and>
     payrollRuns db' = payrollRuns db"
  by (auto simp: updateEmployee_def split: if_splits option.splits)

lemma patchEmployee_keys [simp]:
  "em_id (patchEmployee env r x) = em_id x" "em_companyId (patchEmployee env r x) = em_companyId x"
  "em_cnp (patchEmployee env r x) = em_cnp x"
  by (simp_all add: patchEmployee_def)

lemma generatePayroll_InrD:
  assumes "generatePayroll env u r db = Inr (x, db')"
  obtains as ids db1 db2 where "\<not> periodClosed (act_company u) (gr_period r) db"
    "as = map payrollAmounts (activeEmployees (act_company u) db)" "activeEmployees (act_company u) db \<noteq> []"
    "if gr_autoPost r then insertEntry (autoEntry env u (uuid env 1) (run_payDate x) (''Stat salarii '' @ gr_period r) (gr_period r) ''PAYROLL''
        (payrollLines (gr_period r) as ids) db) db = Inr db1 else db1 = db"
    "insertRun x db1 = Inr db2" "run_companyId x = act_company u" "run_period x = gr_period r"
    "run_lines x = map (storedLine (storeDec env)) as"
    "run_totalGross x = storeDec env 100 (runningTotal pa_grossSalary as)" "run_totalNet x = storeDec env 100 (runningTotal pa_netSalary as)"
    "run_totalCas x = storeDec env 100 (runningTotal pa_cas as)" "run_totalCass x = storeDec env 100 (runningTotal pa_cass as)"
    "run_totalTax x = storeDec env 100 (runningTotal pa_incomeTax as)" "run_totalCam x = storeDec env 100 (runningTotal pa_cam as)"
    "db' = invalidateFinancialStatementsCache (writeAudit u ''payroll_runs'' (Some (run_id x)) ''CREATE'' (gr_reason r) db2)"
  using assms that
  by (auto simp: generatePayroll_def Let_def bindR_eq_Inr assertPeriodOpen_def split: if_splits)

lemma generate_runOk:
  assumes st: "exact_store (storeDec env)" and g: "generatePayroll env u r db = Inr (x, db')" shows "runOk x"
  using g
proof (rule generatePayroll_InrD)
  fix as
  assume as: "as = map payrollAmounts (activeEmployees (act_company u) db)" and ls: "run_lines x = map (storedLine (storeDec env)) as"
    and t: "run_totalGross x = storeDec env 100 (runningTotal pa_grossSalary as)" "run_totalNet x = storeDec env 100 (runningTotal pa_netSalary as)"
    "run_totalCas x = storeDec env 100 (runningTotal pa_cas as)" "run_totalCass x = storeDec env 100 (runningTotal pa_cass as)"
    "run_totalTax x = storeDec env 100 (runningTotal pa_incomeTax as)" "run_totalCam x = storeDec env 100 (runningTotal pa_cam as)"
  have ls': "run_lines x = map (\<lambda>e. storedLine (storeDec env) (payrollAmounts e)) (activeEmployees (act_company u) db)"
    by (simp add: ls as comp_def)
  show "runOk x"
  proof (cases "runFits (run_lines x)")
    case True
    note T = run_totals[OF st True[unfolded ls'], folded as ls']
    have st': "storeDec env 100 (cents (total F (run_lines x))) = total F (run_lines x)"
      if "F \<in> {pl_grossSalary, pl_netSalary, pl_cas, pl_cass, pl_incomeTax, pl_cam}" for F
      using T(9)[OF that] exact_storeD(1)[OF st] by simp
    show ?thesis unfolding runOk_def t T(3-8) using T(1) st' by simp
  qed (simp add: runOk_def)
qed

inductive payroll_step :: "'z payrolling_scheme \<Rightarrow> 'z payrolling_scheme \<Rightarrow> bool" where
  hire: "createEmployee env u r db = Inr (x, db') \<Longrightarrow> payroll_step db db'"
| change: "updateEmployee env u i q db = Inr (x, db') \<Longrightarrow> payroll_step db db'"
| generate: "exact_store (storeDec env) \<Longrightarrow> generatePayroll env u g db = Inr (y, db') \<Longrightarrow> payroll_step db db'"

inductive_cases payroll_stepE: "payroll_step db db'"

lemma payroll_step_inv:
  assumes "payroll_step db db'" and inv: "payrollInv db"
  shows "payrollInv db' \<and> (\<exists>new. payrollRuns db' = payrollRuns db @ new)"
  using assms(1)
proof (rule payroll_stepE)
  fix env u r x assume c: "createEmployee env u r db = Inr (x, db')"
  show ?thesis using createEmployee_InrD[OF c] inv by (simp add: payrollInv_def sorted_wrt_append)
next
  fix env u i q x assume c: "updateEmployee env u i q db = Inr (x, db')"
  have cl: "employeeClash (if em_id a = i then patchEmployee env q a else a) (if em_id b = i then patchEmployee env q b else b) = employeeClash a b" for a b
    by (simp add: employeeClash_def)
  show ?thesis using updateEmployee_InrD[OF c] inv by (simp add: payrollInv_def updateWhere_def sorted_wrt_map cl)
next
  fix env u g y assume st: "exact_store (storeDec env)" and g: "generatePayroll env u g db = Inr (y, db')"
  show ?thesis using g
  proof (rule generatePayroll_InrD)
    fix as ids db1 db2
    assume p: "if gr_autoPost g then insertEntry (autoEntry env u (uuid env 1) (run_payDate y) (''Stat salarii '' @ gr_period g) (gr_period g) ''PAYROLL''
        (payrollLines (gr_period g) as ids) db) db = Inr db1 else db1 = db" and i: "insertRun y db1 = Inr db2"
      and db': "db' = invalidateFinancialStatementsCache (writeAudit u ''payroll_runs'' (Some (run_id y)) ''CREATE'' (gr_reason g) db2)"
    have d1: "employees db1 = employees db" "payrollRuns db1 = payrollRuns db" using p insertEntry_payroll by (auto split: if_splits)
    have d2: "payrollRuns db' = payrollRuns db @ [y]" "employees db' = employees db" "\<forall>x \<in> set (payrollRuns db). \<not> runClash x y"
      using i d1 by (auto simp: db' insertRun_def list_ex_iff runClash_def sameKey_def split: if_splits)
    show ?thesis using inv d2 generate_runOk[OF st g] by (simp add: payrollInv_def sorted_wrt_append)
  qed
qed

lemma payroll_reach_inv:
  "payroll_step\<^sup>*\<^sup>* db db' \<Longrightarrow> payrollInv db \<Longrightarrow> payrollInv db' \<and> (\<exists>new. payrollRuns db' = payrollRuns db @ new)"
proof (induction rule: rtranclp_induct)
  case (step a b) then show ?case using payroll_step_inv[of a b] by fastforce
qed simp

section \<open>The journal entry\<close>

lemma payroll_entry:
  assumes st: "exact_store (storeDec env)" and g: "generatePayroll env u r db = Inr (x, db')" and post: "gr_autoPost r"
    and f: "runFits (run_lines x)"
  obtains e where "entries db' = entries db @ [e]" "je_posted e" "je_companyId e = act_company u" "je_period e = gr_period r"
    "\<not> periodClosed (act_company u) (gr_period r) db" "debits (je_lines e) = run_totalGross x + run_totalCam x"
    "debits (je_lines e) = credits (je_lines e)" "ledgerInv db \<Longrightarrow> ledgerInv db'"
  using g
proof (rule generatePayroll_InrD)
  fix as ids db1 db2
  assume op: "\<not> periodClosed (act_company u) (gr_period r) db" and as: "as = map payrollAmounts (activeEmployees (act_company u) db)"
    and p: "if gr_autoPost r then insertEntry (autoEntry env u (uuid env 1) (run_payDate x) (''Stat salarii '' @ gr_period r) (gr_period r) ''PAYROLL''
        (payrollLines (gr_period r) as ids) db) db = Inr db1 else db1 = db" and i: "insertRun x db1 = Inr db2"
    and ls: "run_lines x = map (storedLine (storeDec env)) as"
    and db': "db' = invalidateFinancialStatementsCache (writeAudit u ''payroll_runs'' (Some (run_id x)) ''CREATE'' (gr_reason r) db2)"
  define L where "L = run_lines x"
  have ls': "run_lines x = map (\<lambda>e. storedLine (storeDec env) (payrollAmounts e)) (activeEmployees (act_company u) db)"
    by (simp add: ls as comp_def)
  note T = run_totals[OF st f[unfolded ls'], folded as ls', folded L_def]
  define e where "e = autoEntry env u (uuid env 1) (run_payDate x) (''Stat salarii '' @ gr_period r) (gr_period r) ''PAYROLL''
        (payrollLines (gr_period r) as ids) db"
  have ins: "insertEntry e db = Inr db1" using p post by (simp add: e_def)
  have en: "entries db' = entries db @ [e]" "periods db' = periods db"
    using insertEntry_InrD[OF ins] i by (auto simp: db' insertRun_def split: if_splits)
  have stt: "storeDec env 100 (cents (total F L)) = total F L"
    if "F \<in> {pl_grossSalary, pl_netSalary, pl_cas, pl_cass, pl_incomeTax, pl_cam}" for F
    using T(9)[OF that] exact_storeD(1)[OF st] by simp
  have s0: "storeDec env 100 0 = 0" using st by simp
  have tax0: "0 \<le> total pl_incomeTax L" using T(9)[of pl_incomeTax] by simp
  have net: "total pl_grossSalary L = total pl_netSalary L + total pl_cas L + total pl_cass L + total pl_incomeTax L"
    using T(1) unfolding total_def by (induction L) (auto simp: payLine_def)
  have dc: "debits (je_lines e) = total pl_grossSalary L + total pl_cam L"
    "credits (je_lines e) = total pl_netSalary L + total pl_cas L + total pl_cass L + total pl_cam L + total pl_incomeTax L"
    using tax0 by (simp_all add: e_def storeLines_def payrollLines_def storeLine_def T(3-8) stt s0 debits_def credits_def)
  have "runOk x" by (rule generate_runOk[OF st g])
  then have x: "run_totalGross x = total pl_grossSalary L" "run_totalCam x = total pl_cam L" using f by (simp_all add: runOk_def L_def)
  have "postable e" using dc net by (simp add: postable_def balanced_def) (simp add: e_def)
  then have "ledgerInv db1" if "ledgerInv db"
    using ledger_posting.post_inv[OF that _ _ ins] op by (simp add: e_def)
  moreover have "entries db' = entries db1" "periods db' = periods db1" using i by (auto simp: db' insertRun_def split: if_splits)
  ultimately have li: "ledgerInv db'" if "ledgerInv db" using that ledgerInv_cong[of db' db1] by simp
  show thesis using that[OF en(1)] op dc net x li by (simp add: e_def)
qed

section \<open>A worked example\<close>

definition demoEmployee :: employee where
  "demoEmployee = \<lparr> em_id = ''e'', em_companyId = ''c'', em_cnp = ''12345678'', em_name = ''Ana'', em_contractType = ''CIM'',
     em_personalDeduction = 30000, em_grossSalary = 500003, em_isActive = True, em_hiredAt = 1800000000000 \<rparr>"

definition demoPayroll :: payrolling where
  "demoPayroll = \<lparr> accounts = map (\<lambda>c. \<lparr> a_id = c, a_companyId = ''c'', a_code = c, a_isActive = True, a_name = [], a_type = ASSET, a_currency = ''RON'' \<rparr>)
       [''641'', ''646'', ''421'', ''4315'', ''4316'', ''4317'', ''444''],
     periods = [], entries = [], auditLog = [], fsCache = [], employees = [demoEmployee], payrollRuns = [] \<rparr>"

definition demoPayrollRequest :: payroll_req where
  "demoPayrollRequest = \<lparr> gr_period = ''2024-02'', gr_payDate = None, gr_autoPost = True, gr_salaryExpenseAccountCode = ''641'',
     gr_camExpenseAccountCode = ''646'', gr_salaryPayableAccountCode = ''421'', gr_casAccountCode = ''4315'',
     gr_cassAccountCode = ''4316'', gr_camAccountCode = ''4317'', gr_taxAccountCode = ''444'', gr_reason = None \<rparr>"

definition demoGenerated :: "payroll_run \<times> payrolling" where
  "demoGenerated = projr (generatePayroll (demoEnv ''g'') demoActor demoPayrollRequest demoPayroll)"

lemma demo_amounts: "storedLine nearestColumn (payrollAmounts demoEmployee) =
   \<lparr> pl_employeeId = ''e'', pl_grossSalary = 500003, pl_personalDeduction = 30000, pl_cas = 125001,
     pl_cass = 50000, pl_incomeTax = 29500, pl_cam = 11250, pl_netSalary = 295502 \<rparr>"
  by code_simp

lemma demo_active: "activeEmployees (act_company demoActor) demoPayroll = [demoEmployee]"
  by code_simp

lemma demo_payroll_checks: "matchPeriod ''2024-02'' \<noteq> None" "parsePeriod ''2024-02'' = Inr (2024, 2)"
  "accountsOrError err (act_company demoActor) [''641'', ''646'', ''421'', ''4315'', ''4316'', ''4317'', ''444''] demoPayroll =
     Inr [''641'', ''646'', ''421'', ''4315'', ''4316'', ''4317'', ''444'']"
  by code_simp+

lemma demo_generate: "generatePayroll (demoEnv ''g'') demoActor demoPayrollRequest demoPayroll = Inr demoGenerated"
proof -
  have "is_ok (generatePayroll (demoEnv ''g'') demoActor demoPayrollRequest demoPayroll)"
    unfolding generatePayroll_def Let_def demo_active
    using demo_payroll_checks by (simp add: demoPayrollRequest_def assertPeriodOpen_def periodClosed_def findPeriod_def)
      (simp add: demoPayroll_def insertEntry_def insertRun_def)
  then show ?thesis by (auto simp: demoGenerated_def is_ok_iff)
qed

lemma demo_run: "run_lines (fst demoGenerated) = [storedLine nearestColumn (payrollAmounts demoEmployee)]"
  "payrollRuns (snd demoGenerated) = [fst demoGenerated]"
proof -
  have g: "generatePayroll (demoEnv ''g'') demoActor demoPayrollRequest demoPayroll = Inr (fst demoGenerated, snd demoGenerated)"
    using demo_generate by simp
  show "run_lines (fst demoGenerated) = [storedLine nearestColumn (payrollAmounts demoEmployee)]"
    using g by (rule generatePayroll_InrD) (simp add: demo_active, simp add: demoEnv_def)
  show "payrollRuns (snd demoGenerated) = [fst demoGenerated]"
    using g by (rule generatePayroll_InrD)
      (auto simp: insertRun_def demoPayroll_def demoPayrollRequest_def dest!: insertEntry_payroll split: if_splits)
qed

section \<open>Properties\<close>


lemma demo_fits: "runFits (run_lines (fst demoGenerated))"
  by (simp add: demo_run demo_amounts runFits_def total_def)


text \<open>A run generated with automatic posting has one line for every active employee of the company,
  whenever hired, and adds exactly one journal entry: posted, into the month of the run, which is
  open, with total debits, the gross salaries and the insurance contribution, equal to its credits.\<close>

lemma payroll_posting:
  assumes "exact_store (storeDec env)" "generatePayroll env u r db = Inr (x, db')" "gr_autoPost r" "runFits (run_lines x)" "ledgerInv db"
  shows "map pl_employeeId (run_lines x) = map em_id (activeEmployees (act_company u) db) \<and>
    (\<exists>e. entries db' = entries db @ [e] \<and> je_posted e \<and> je_period e = gr_period r \<and>
      \<not> periodClosed (act_company u) (gr_period r) db \<and>
      debits (je_lines e) = run_totalGross x + run_totalCam x \<and> debits (je_lines e) = credits (je_lines e)) \<and> ledgerInv db'"
proof -
  have "map pl_employeeId (run_lines x) = map em_id (activeEmployees (act_company u) db)"
    using assms(2) by (rule generatePayroll_InrD) (simp add: storedLine_def payrollAmounts_def Let_def comp_def)
  then show ?thesis using payroll_entry[OF assms(1-4)] assms(5) by metis
qed

lemma payroll_posting_example:
  "\<exists>e. entries (snd demoGenerated) = [e] \<and> debits (je_lines e) = credits (je_lines e)"
proof -
  have g: "generatePayroll (demoEnv ''g'') demoActor demoPayrollRequest demoPayroll = Inr (fst demoGenerated, snd demoGenerated)"
    using demo_generate by simp
  have a: "gr_autoPost demoPayrollRequest" by (simp add: demoPayrollRequest_def)
  have i: "ledgerInv demoPayroll" by (simp add: ledgerInv_empty demoPayroll_def)
  have "entries demoPayroll = []" by (simp add: demoPayroll_def)
  then show ?thesis using payroll_posting[OF demoEnv_exact g a demo_fits i] by auto
qed

end
