(* ===== verification/Assets.thy ===== *)
theory Assets
  imports Postings Rounding "HOL-Library.List_Lexorder" "HOL-Library.Char_ord"
begin

text \<open>
  Fixed assets (routes/assets.ts): registering an asset and running the depreciation of a month by
  the linear, degressive or accelerated method, with its journal entry. The tables extend the
  ledger's; amounts are cents.
\<close>

section \<open>Tables\<close>

datatype DepreciationMethod = LINEAR | DEGRESSIVE | ACCELERATED

record asset =
  as_id :: id
  as_companyId :: id
  as_code :: "string option"
  as_name :: string
  as_value :: int
  as_residualValue :: int
  as_depreciationMethod :: DepreciationMethod
  as_startDate :: date
  as_usefulLifeMonths :: int
  as_isActive :: bool

record depreciation =
  ad_id :: id
  ad_assetId :: id
  ad_period :: string
  ad_depreciationDate :: date
  ad_depreciationAmount :: int
  ad_accumulatedAmount :: int
  ad_bookValue :: int
  ad_journalEntryId :: "id option"

record fixed_assets = ledger +
  assets :: "asset list"
  depreciations :: "depreciation list"

text \<open>The primary key and the unique index \<open>[companyId, code]\<close>.\<close>

definition assetClash :: "asset \<Rightarrow> asset \<Rightarrow> bool" where
  "assetClash x y \<longleftrightarrow> as_id x = as_id y \<or> (as_companyId x = as_companyId y \<and> sameKey (as_code x) (as_code y))"

definition insertAsset :: "asset \<Rightarrow> 'z fixed_assets_scheme \<Rightarrow> http_error + 'z fixed_assets_scheme" where
  "insertAsset x db =
     (if list_ex (assetClash x) (assets db) then Inl uniqueViolation
      else Inr (db\<lparr>assets := assets db @ [x]\<rparr>))"

text \<open>The primary key and the unique index \<open>[assetId, period]\<close>.\<close>

definition depreciationClash :: "depreciation \<Rightarrow> depreciation \<Rightarrow> bool" where
  "depreciationClash x y \<longleftrightarrow> ad_id x = ad_id y \<or> (ad_assetId x = ad_assetId y \<and> ad_period x = ad_period y)"

fun insertDepreciations :: "depreciation list \<Rightarrow> 'z fixed_assets_scheme \<Rightarrow> http_error + 'z fixed_assets_scheme" where
  "insertDepreciations [] db = Inr db"
| "insertDepreciations (x # xs) db =
     (if list_ex (depreciationClash x) (depreciations db) then Inl uniqueViolation
      else insertDepreciations xs (db\<lparr>depreciations := depreciations db @ [x]\<rparr>))"

definition depreciationsOf :: "id \<Rightarrow> 'z fixed_assets_scheme \<Rightarrow> depreciation list" where
  "depreciationsOf i db = filter (\<lambda>d. ad_assetId d = i) (depreciations db)"

section \<open>Registering an asset\<close>

record asset_req =
  ar_code :: "string option"
  ar_name :: string
  ar_value :: double
  ar_residualValue :: double
  ar_depreciationMethod :: DepreciationMethod
  ar_startDate :: date
  ar_usefulLifeMonths :: int
  ar_reason :: "string option"

definition createAssetSchema :: "asset_req \<Rightarrow> bool" where
  "createAssetSchema r \<longleftrightarrow> 2 \<le> length (ar_name r) \<and> 0 < ar_value r \<and> 0 \<le> ar_residualValue r \<and> 0 < ar_usefulLifeMonths r"

definition createAsset ::
  "env \<Rightarrow> actor \<Rightarrow> asset_req \<Rightarrow> 'z fixed_assets_scheme \<Rightarrow> http_error + (asset \<times> 'z fixed_assets_scheme)" where
  "createAsset env u r db =
     (if \<not> createAssetSchema r then Inl (badRequest ''Date invalide pentru mijloc fix.'') else
      if ar_value r \<le> ar_residualValue r
      then Inl (badRequest ''Valoarea reziduala trebuie sa fie mai mica decat valoarea de intrare.'') else
      let x = \<lparr> as_id = uuid env 0, as_companyId = act_company u, as_code = ar_code r, as_name = ar_name r,
            as_value = storeDec env 100 (ar_value r), as_residualValue = storeDec env 100 (ar_residualValue r),
            as_depreciationMethod = ar_depreciationMethod r, as_startDate = ar_startDate r,
            as_usefulLifeMonths = ar_usefulLifeMonths r, as_isActive = True \<rparr>
      in bindR (insertAsset x db) (\<lambda>db.
         Inr (x, invalidateFinancialStatementsCache (writeAudit u ''assets'' (Some (as_id x)) ''CREATE'' (ar_reason r) db))))"

section \<open>The depreciation of one month\<close>

definition computeDepreciation :: "double \<Rightarrow> double \<Rightarrow> int \<Rightarrow> DepreciationMethod \<Rightarrow> int \<Rightarrow> double \<Rightarrow> double" where
  "computeDepreciation val residualValue usefulLifeMonths depMethod monthIndex accumulatedBefore =
     (let depreciable = round2 (fsub val residualValue);
          remaining = round2 (fsub depreciable accumulatedBefore)
      in if remaining \<le> 0 \<or> monthIndex < 0 \<or> usefulLifeMonths \<le> monthIndex then 0 else
      let remainingMonths = max (usefulLifeMonths - monthIndex) 1;
          amount = (case depMethod of
              LINEAR \<Rightarrow> round2 (fdiv depreciable (of_int usefulLifeMonths))
            | DEGRESSIVE \<Rightarrow> round2 (fmul (fdiv remaining (of_int remainingMonths)) (125 / 100))
            | ACCELERATED \<Rightarrow> if monthIndex = 0 then round2 (fmul depreciable (1 / 2))
                else round2 (fdiv remaining (of_int remainingMonths)))
      in round2 (min (max amount 0) remaining))"

section \<open>Running a month\<close>

record planned_record =
  pn_assetId :: id
  pn_depreciationAmount :: double
  pn_accumulatedAmount :: double
  pn_bookValue :: double

definition accumulatedBefore :: "id \<Rightarrow> 'z fixed_assets_scheme \<Rightarrow> double" where
  "accumulatedBefore i db = round2 (reduceSum (map (\<lambda>d. toNumber (column 100 (ad_depreciationAmount d)))
     (sort_key ad_period (depreciationsOf i db))))"

definition planRecord :: "string \<Rightarrow> date \<Rightarrow> 'z fixed_assets_scheme \<Rightarrow> asset \<Rightarrow> planned_record option" where
  "planRecord period endDate db a =
     (if list_ex (\<lambda>d. ad_period d = period) (depreciationsOf (as_id a) db) then None else
      let monthIndex = monthDiffUTC (as_startDate a) endDate;
          before = accumulatedBefore (as_id a) db;
          val = toNumber (column 100 (as_value a)); residual = toNumber (column 100 (as_residualValue a));
          amount = computeDepreciation val residual (as_usefulLifeMonths a) (as_depreciationMethod a) monthIndex before
      in if amount \<le> 0 then None else
      let accumulated = round2 (fadd before amount); bookValue = round2 (max (fsub val accumulated) residual)
      in Some \<lparr> pn_assetId = as_id a, pn_depreciationAmount = amount, pn_accumulatedAmount = accumulated, pn_bookValue = bookValue \<rparr>)"

record depreciation_req =
  dq_period :: string
  dq_depreciationDate :: "date option"
  dq_autoPost :: bool
  dq_expenseAccountCode :: string
  dq_accumulatedDepreciationAccountCode :: string
  dq_reason :: "string option"

definition depreciationRow :: "env \<Rightarrow> string \<Rightarrow> date \<Rightarrow> id option \<Rightarrow> nat \<Rightarrow> planned_record \<Rightarrow> depreciation" where
  "depreciationRow env period date journalEntryId k p =
     \<lparr> ad_id = uuid env (k + 1), ad_assetId = pn_assetId p, ad_period = period, ad_depreciationDate = date,
       ad_depreciationAmount = storeDec env 100 (pn_depreciationAmount p),
       ad_accumulatedAmount = storeDec env 100 (pn_accumulatedAmount p),
       ad_bookValue = storeDec env 100 (pn_bookValue p), ad_journalEntryId = journalEntryId \<rparr>"

definition depreciationLines :: "string \<Rightarrow> double \<Rightarrow> id list \<Rightarrow> (id \<times> double \<times> double \<times> string) list" where
  "depreciationLines period totalDepreciation ids =
     [(ids ! 0, totalDepreciation, 0, ''Cheltuiala amortizare '' @ period),
      (ids ! 1, 0, totalDepreciation, ''Amortizare cumulata '' @ period)]"

text \<open>The transaction: nothing when no asset depreciates, else the entry and the rows.\<close>

definition commitDepreciation ::
  "env \<Rightarrow> actor \<Rightarrow> depreciation_req \<Rightarrow> date \<Rightarrow> planned_record list \<Rightarrow> 'z fixed_assets_scheme \<Rightarrow>
   http_error + (depreciation list \<times> 'z fixed_assets_scheme)" where
  "commitDepreciation env u r date planned db =
     (if planned = [] then Inr ([], db) else
      bindR (if dq_autoPost r
             then bindR (accountsOrError (badRequest ''Conturile pentru postare amortizare lipsesc sau sunt invalide.'') (act_company u)
                 [dq_expenseAccountCode r, dq_accumulatedDepreciationAccountCode r] db) (\<lambda>ids.
               let totalDepreciation = round2 (reduceSum (map pn_depreciationAmount planned)) in
               bindR (insertEntry (autoEntry env u (uuid env 0) date (''Amortizare lunara '' @ dq_period r) (dq_period r) ''FIXED_ASSETS''
                 (depreciationLines (dq_period r) totalDepreciation ids) db) db) (\<lambda>db. Inr (Some (uuid env 0), db)))
             else Inr (None, db)) (\<lambda>(journalEntryId, db).
      let rows = map (\<lambda>(k, p). depreciationRow env (dq_period r) date journalEntryId k p) (List.enumerate 0 planned)
      in bindR (insertDepreciations rows db) (\<lambda>db. Inr (rows, db))))"

definition eligibleAssets :: "id \<Rightarrow> date \<Rightarrow> 'z fixed_assets_scheme \<Rightarrow> asset list" where
  "eligibleAssets c endDate db = filter (\<lambda>a. as_companyId a = c \<and> as_isActive a \<and> as_startDate a \<le> endDate) (assets db)"

definition runDepreciation ::
  "env \<Rightarrow> actor \<Rightarrow> depreciation_req \<Rightarrow> 'z fixed_assets_scheme \<Rightarrow> http_error + (depreciation list \<times> 'z fixed_assets_scheme)" where
  "runDepreciation env u r db =
     (if matchPeriod (dq_period r) = None then Inl (badRequest ''Date invalide pentru rularea amortizarii.'') else
      bindR (parsePeriod (dq_period r)) (\<lambda>_.
      bindR (assertPeriodOpen (act_company u) (dq_period r) db) (\<lambda>_.
      bindR (periodToDateRange (dq_period r)) (\<lambda>(start, endDate).
      let es = eligibleAssets (act_company u) endDate db in
      if es = [] then Inl (badRequest ''Nu exista active eligibile pentru amortizare.'') else
      bindR (commitDepreciation env u r (orElse (dq_depreciationDate r) endDate)
          (List.map_filter (planRecord (dq_period r) endDate db) es) db) (\<lambda>(rows, db).
      Inr (rows, invalidateFinancialStatementsCache (writeAudit u ''asset_depreciation'' None ''CREATE'' (dq_reason r) db)))))))"

end
