(* ===== verification/Depreciation.thy ===== *)
theory Depreciation
  imports Assets LedgerHistory "HOL-Library.Multiset"
begin

text \<open>
  What the depreciation of assets guarantees: an asset is depreciated at most once a month and never
  below its residual value, its records carry the running sum and the book value, and the degressive
  and accelerated methods end at the residual value; the linear method may stop short of it.
\<close>

section \<open>The amount of a month\<close>

text \<open>What is left to depreciate when \<open>S\<close> cents are booked.\<close>

definition depreciable :: "asset \<Rightarrow> int" where
  "depreciable a = as_value a - as_residualValue a"

definition monthAmount :: "asset \<Rightarrow> int \<Rightarrow> int \<Rightarrow> double" where
  "monthAmount a monthIndex S = computeDepreciation (cents (as_value a)) (cents (as_residualValue a))
     (as_usefulLifeMonths a) (as_depreciationMethod a) monthIndex (cents S)"

definition sized :: "asset \<Rightarrow> bool" where
  "sized a \<longleftrightarrow> 0 \<le> as_residualValue a \<and> as_residualValue a \<le> as_value a \<and> as_value a < 2 ^ 44"

text \<open>The rounded rate of each method, before it is limited by what is left.\<close>

definition monthRate :: "asset \<Rightarrow> int \<Rightarrow> int \<Rightarrow> double" where
  "monthRate a monthIndex S =
     (let remaining = cents (depreciable a - S); remainingMonths = max (as_usefulLifeMonths a - monthIndex) 1
      in case as_depreciationMethod a of
          LINEAR \<Rightarrow> round2 (fdiv (cents (depreciable a)) (of_int (as_usefulLifeMonths a)))
        | DEGRESSIVE \<Rightarrow> round2 (fmul (fdiv remaining (of_int remainingMonths)) (125 / 100))
        | ACCELERATED \<Rightarrow> if monthIndex = 0 then round2 (fmul (cents (depreciable a)) (1 / 2))
            else round2 (fdiv remaining (of_int remainingMonths)))"

lemma monthRate_grid: "\<exists>k. monthRate a i S = cents k"
  by (cases "as_depreciationMethod a") (auto simp: monthRate_def Let_def round2_grid)

lemma monthAmount_eq:
  assumes a: "sized a" and S: "0 \<le> S" "S \<le> 2 ^ 44"
  shows "monthAmount a i S = (if depreciable a \<le> S \<or> i < 0 \<or> as_usefulLifeMonths a \<le> i then 0
    else min (max (monthRate a i S) 0) (cents (depreciable a - S)))"
proof -
  have d: "0 \<le> depreciable a" "depreciable a < 2 ^ 44" using a by (auto simp: sized_def depreciable_def)
  have 1: "round2 (fsub (cents (as_value a)) (cents (as_residualValue a))) = cents (depreciable a)"
    using a round2_sub[of "as_value a" "as_residualValue a"] by (simp add: sized_def depreciable_def)
  have 2: "round2 (fsub (cents (depreciable a)) (cents S)) = cents (depreciable a - S)"
    using d S by (intro round2_sub) auto
  obtain k where k: "monthRate a i S = cents k" using monthRate_grid by blast
  have 3: "min (max (cents k) 0) (cents (depreciable a - S)) = cents (min (max k 0) (depreciable a - S))"
    using cent.grid_max[of k 0] by (simp add: cent.grid_min)
  have 4: "round2 (cents (min (max k 0) (depreciable a - S))) = cents (min (max k 0) (depreciable a - S))"
    if "S < depreciable a" using that d S by (intro round2_cents) auto
  have "monthAmount a i S = (if cents (depreciable a - S) \<le> 0 \<or> i < 0 \<or> as_usefulLifeMonths a \<le> i then 0
      else round2 (min (max (monthRate a i S) 0) (cents (depreciable a - S))))"
    unfolding monthAmount_def computeDepreciation_def Let_def 1 2 monthRate_def by (rule refl)
  moreover have "cents (depreciable a - S) \<le> 0 \<longleftrightarrow> depreciable a \<le> S" by simp
  ultimately show ?thesis unfolding k 3 using 4 by auto
qed

lemma monthAmount_bounds:
  assumes a: "sized a" and S: "0 \<le> S" "S \<le> 2 ^ 44"
  obtains k where "monthAmount a i S = cents k" "0 \<le> k" "k \<le> max (depreciable a - S) 0"
proof (cases "depreciable a \<le> S \<or> i < 0 \<or> as_usefulLifeMonths a \<le> i")
  case True
  then have "monthAmount a i S = cents 0" by (simp add: monthAmount_eq[OF a S])
  then show thesis by (rule that) auto
next
  case False
  obtain k where k: "monthRate a i S = cents k" using monthRate_grid by blast
  have "monthAmount a i S = cents (min (max k 0) (depreciable a - S))"
    using False cent.grid_max[of k 0] by (simp add: monthAmount_eq[OF a S] k cent.grid_min)
  then show thesis using False by (intro that) auto
qed

section \<open>The last month\<close>

lemma rate_covers:
  assumes r: "0 \<le> r" "r < 2 ^ 44"
  shows "cents r \<le> round2 (fmul (fdiv (cents r) 1) (125 / 100))" "round2 (fdiv (cents r) 1) = cents r"
proof -
  have "fl (cents r) \<le> fl (cents r * (5 / 4))" using r by (intro fl_mono) simp
  then have "round2 (cents r) \<le> round2 (fmul (fdiv (cents r) 1) (125 / 100))"
    by (intro round2_mono) (simp add: fmul_def fdiv_def)
  then show "cents r \<le> round2 (fmul (fdiv (cents r) 1) (125 / 100))" using r by simp
  show "round2 (fdiv (cents r) 1) = cents r" using r by (simp add: fdiv_def)
qed

lemma last_month_full:
  assumes a: "sized a" and S: "0 \<le> S" "S \<le> depreciable a" and life: "1 \<le> as_usefulLifeMonths a"
    and m: "as_depreciationMethod a = DEGRESSIVE \<or> as_depreciationMethod a = ACCELERATED \<and> 2 \<le> as_usefulLifeMonths a"
  shows "monthAmount a (as_usefulLifeMonths a - 1) S = cents (depreciable a - S)"
proof -
  have d: "depreciable a < 2 ^ 44" using a by (auto simp: sized_def depreciable_def)
  have r: "0 \<le> depreciable a - S" "depreciable a - S < 2 ^ 44" using S d by auto
  note rc = rate_covers[OF r]
  have "cents (depreciable a - S) \<le> monthRate a (as_usefulLifeMonths a - 1) S"
    using m rc life by (auto simp: monthRate_def Let_def)
  moreover have "0 \<le> cents (depreciable a - S)" using r by simp
  ultimately have "min (max (monthRate a (as_usefulLifeMonths a - 1) S) 0) (cents (depreciable a - S)) = cents (depreciable a - S)"
    by (metis max_absorb1 min_absorb2 order_trans)
  moreover have "S \<le> 2 ^ 44" using S d by simp
  ultimately show ?thesis using S life by (auto simp: monthAmount_eq[OF a S(1)])
qed

section \<open>The linear method\<close>

text \<open>What is booked when the months \<open>0, 1, \<dots>\<close> of the life of an asset are run one after the other.\<close>

fun scheduled :: "store \<Rightarrow> asset \<Rightarrow> nat \<Rightarrow> int" where
  "scheduled st a 0 = 0"
| "scheduled st a (Suc k) = scheduled st a k + st 100 (monthAmount a (int k) (scheduled st a k))"

lemma scheduled_bounds:
  assumes st: "exact_store st" and a: "sized a"
  shows "0 \<le> scheduled st a k" "scheduled st a k \<le> depreciable a"
proof (induction k)
  case 0
  { case 1 show ?case by simp next case 2 show ?case using a by (simp add: sized_def depreciable_def) }
next
  case (Suc k)
  have d: "depreciable a < 2 ^ 44" using a by (auto simp: sized_def depreciable_def)
  then have "scheduled st a k \<le> 2 ^ 44" using Suc(2) by simp
  then obtain j where j: "monthAmount a (int k) (scheduled st a k) = cents j" "0 \<le> j" "j \<le> max (depreciable a - scheduled st a k) 0"
    using monthAmount_bounds[OF a Suc(1)] by metis
  then have "st 100 (monthAmount a (int k) (scheduled st a k)) = j" using exact_storeD(1)[OF st, of j] Suc d by auto
  then show "0 \<le> scheduled st a (Suc k)" "scheduled st a (Suc k) \<le> depreciable a" using Suc j by auto
qed

lemma quotient_round:
  assumes n: "0 \<le> n" "n \<le> 2 ^ 39" and l: "1 \<le> l"
  obtains k where "round2 (fdiv (cents n) (of_int l)) = cents k" "0 \<le> k" "k \<le> n" "\<bar>of_int k - of_int n / of_int l\<bar> \<le> (1/2 + 1/1000 :: rat)"
proof -
  have p: "0 \<le> 1 / (of_int l :: rat)" "1 / of_int l \<le> (1 :: rat)" using l by simp_all
  obtain k where k: "round2 (fmul (cents n) (1 / of_int l)) = cents k" "\<bar>of_int k - of_int n * (1 / of_int l)\<bar> \<le> (1/2 + 1/1000 :: rat)"
    using n p by (rule round2_share)
  have e: "fmul (cents n) (1 / of_int l) = fdiv (cents n) (of_int l)" by (simp add: fmul_def fdiv_def)
  have q: "0 \<le> of_int n / (of_int l :: rat)" "of_int n / (of_int l :: rat) \<le> of_int n" using n l mult_right_mono[of 1 "of_int l" "of_int n :: rat"] by (simp_all add: field_simps)
  have k2: "\<bar>of_int k - of_int n / of_int l\<bar> \<le> (1/2 + 1/1000 :: rat)" using k(2) by simp
  then have "- 1 < (of_int k :: rat)" "of_int k < (of_int n + 1 :: rat)" using q unfolding abs_le_iff by linarith+
  then have "0 \<le> k" "k \<le> n" by linarith+
  then show thesis using k(1) k2 unfolding e by (intro that)
qed

lemma linear_scheduled:
  assumes st: "exact_store st" and a: "sized a" and m: "as_depreciationMethod a = LINEAR"
    and M: "round2 (fdiv (cents (depreciable a)) (of_int (as_usefulLifeMonths a))) = cents M" "0 \<le> M" "int k \<le> as_usefulLifeMonths a"
  shows "scheduled st a k = min (depreciable a) (int k * M)"
  using M(3)
proof (induction k)
  case 0 then show ?case using a by (simp add: sized_def depreciable_def)
next
  case (Suc k)
  have d: "0 \<le> depreciable a" "depreciable a < 2 ^ 44" using a by (auto simp: sized_def depreciable_def)
  define S where "S = scheduled st a k"
  have S: "S = min (depreciable a) (int k * M)" using Suc by (simp add: S_def)
  have Sb: "0 \<le> S" "S \<le> 2 ^ 44" using S d M(2) by auto
  have r: "monthRate a (int k) S = cents M" using m M(1) by (simp add: monthRate_def)
  have amt: "monthAmount a (int k) S = (if depreciable a \<le> S then 0 else cents (min M (depreciable a - S)))"
    using Suc.prems M(2) cent.grid_max[of M 0] by (simp add: monthAmount_eq[OF a Sb] r cent.grid_min max_absorb1)
  have "st 100 (monthAmount a (int k) S) = (if depreciable a \<le> S then 0 else min M (depreciable a - S))"
    using exact_storeD(1)[OF st, of "min M (depreciable a - S)"] st amt d Sb M(2) by auto
  then show ?case using S d M(2) by (auto simp: S_def[symmetric] min_def algebra_simps)
qed

section \<open>The records of an asset\<close>

definition booked :: "depreciation list \<Rightarrow> int" where
  "booked ds = (\<Sum>d\<leftarrow>ds. ad_depreciationAmount d)"

text \<open>Every record adds a positive amount to the running sum it carries, and never more than is left.\<close>

fun recordsOk :: "asset \<Rightarrow> int \<Rightarrow> depreciation list \<Rightarrow> bool" where
  "recordsOk a S [] \<longleftrightarrow> True"
| "recordsOk a S (d # ds) \<longleftrightarrow> 0 < ad_depreciationAmount d \<and> S + ad_depreciationAmount d \<le> depreciable a \<and>
     ad_accumulatedAmount d = S + ad_depreciationAmount d \<and> ad_bookValue d = as_value a - ad_accumulatedAmount d \<and>
     recordsOk a (S + ad_depreciationAmount d) ds"

text \<open>The size for which the sums over the records are exact; an asset of a hundred million depreciated
  over fifty years is far inside.\<close>

definition recordsFit :: "asset \<Rightarrow> depreciation list \<Rightarrow> bool" where
  "recordsFit a ds \<longleftrightarrow> int (length ds + 1) * (1 + as_value a) \<le> 2 ^ 44"

lemma booked_simps [simp]: "booked [] = 0" "booked (d # ds) = ad_depreciationAmount d + booked ds" "booked (ds @ es) = booked ds + booked es"
  by (simp_all add: booked_def)

lemma recordsOk_append: "recordsOk a S (ds @ es) \<longleftrightarrow> recordsOk a S ds \<and> recordsOk a (S + booked ds) es"
  by (induction ds arbitrary: S) (auto simp: algebra_simps)

lemma recordsOk_booked: "recordsOk a S ds \<Longrightarrow> 0 \<le> booked ds \<and> (ds \<noteq> [] \<longrightarrow> S + booked ds \<le> depreciable a)"
  by (induction ds arbitrary: S) (auto simp: algebra_simps, force+)

lemma recordsOk_amounts: "recordsOk a S ds \<Longrightarrow> \<forall>d \<in> set ds. 0 < ad_depreciationAmount d"
  by (induction ds arbitrary: S) auto

lemma recordsFit_append: "0 \<le> as_value a \<Longrightarrow> recordsFit a (ds @ es) \<Longrightarrow> recordsFit a ds"
  unfolding recordsFit_def by (erule order_trans[rotated], rule mult_right_mono) auto

lemma recordsFit_value:
  assumes "0 \<le> as_value a" "recordsFit a ds" shows "as_value a < 2 ^ 44"
proof -
  have "1 * (1 + as_value a) \<le> int (length ds + 1) * (1 + as_value a)" using assms(1) by (intro mult_right_mono) auto
  then have "1 * (1 + as_value a) \<le> 2 ^ 44" using assms(2) unfolding recordsFit_def by (rule order_trans)
  then show ?thesis by simp
qed

lemma accumulatedBefore_booked:
  assumes "recordsOk a 0 (depreciationsOf i db)" "recordsFit a (depreciationsOf i db)" "sized a"
  shows "accumulatedBefore i db = cents (booked (depreciationsOf i db))"
proof -
  define ds where "ds = depreciationsOf i db"
  define ns where "ns = map ad_depreciationAmount (sort_key ad_period ds)"
  have pos: "\<forall>n \<in> set ns. 0 \<le> n" using recordsOk_amounts[OF assms(1)] by (fastforce simp: ns_def ds_def)
  have "mset ns = mset (map ad_depreciationAmount ds)" by (simp add: ns_def)
  then have sum: "sum_list ns = booked ds" unfolding booked_def by (metis sum_mset_sum_list)
  have "(\<Sum>n\<leftarrow>ns. \<bar>n\<bar>) = sum_list ns" using pos by (induction ns) auto
  also have "\<dots> \<le> as_value a" using recordsOk_booked[OF assms(1)] assms(3) unfolding sum
    by (cases "ds = []") (auto simp: ds_def sized_def depreciable_def)
  finally have s: "(\<Sum>n\<leftarrow>ns. \<bar>n\<bar>) \<le> as_value a" .
  have s0: "0 \<le> (\<Sum>n\<leftarrow>ns. \<bar>n\<bar>)" by (rule cent.sum_abs_nonneg)
  have "int (length ns) * (1 + (\<Sum>n\<leftarrow>ns. \<bar>n\<bar>)) \<le> int (length ds + 1) * (1 + as_value a)"
    using s s0 by (intro mult_mono) (simp_all add: ns_def)
  also have "\<dots> \<le> 2 ^ 44" using assms(2) by (simp add: recordsFit_def ds_def)
  finally have "round2 (reduceSum (map cents ns)) = cents (sum_list ns)" by (intro round2_sum) simp
  then show ?thesis by (simp add: accumulatedBefore_def ns_def ds_def[symmetric] sum[unfolded ns_def] comp_def)
qed

text \<open>A planned record continues the records of its asset.\<close>

lemma planRecord_ok:
  assumes st: "exact_store (storeDec env)" and ok: "recordsOk a 0 (depreciationsOf (as_id a) db)"
    and fit: "recordsFit a (depreciationsOf (as_id a) db)" and a: "sized a"
    and p: "planRecord period endDate db a = Some p"
    and d: "d = depreciationRow env period date j k p" and S: "S = booked (depreciationsOf (as_id a) db)"
  shows "recordsOk a S [d]" "cents (ad_depreciationAmount d) = monthAmount a (monthDiffUTC (as_startDate a) endDate) S"
    "\<forall>e \<in> set (depreciationsOf (as_id a) db). ad_period e \<noteq> period"
proof -
  have Sb: "0 \<le> S" "S \<le> depreciable a" using recordsOk_booked[OF ok] a
    by (cases "depreciationsOf (as_id a) db = []"; auto simp: S sized_def depreciable_def)+
  have dep: "depreciable a < 2 ^ 44" using a by (auto simp: sized_def depreciable_def)
  have acc: "accumulatedBefore (as_id a) db = cents S" unfolding S using ok fit a by (rule accumulatedBefore_booked)
  let ?i = "monthDiffUTC (as_startDate a) endDate"
  obtain m where m: "monthAmount a ?i S = cents m" "0 \<le> m" "m \<le> max (depreciable a - S) 0"
  proof (rule monthAmount_bounds[OF a Sb(1)])
    show "S \<le> 2 ^ 44" using Sb dep by simp
  qed
  have am: "computeDepreciation (cents (as_value a)) (cents (as_residualValue a)) (as_usefulLifeMonths a)
      (as_depreciationMethod a) ?i (cents S) = cents m"
    using m(1) by (simp add: monthAmount_def)
  have pos: "0 < m" using p m(2) by (auto simp: planRecord_def Let_def acc am split: if_splits)
  have bounds: "0 \<le> as_residualValue a" "as_value a < 2 ^ 44" "S + m \<le> as_value a - as_residualValue a"
    using a m(3) Sb pos by (auto simp: sized_def depreciable_def)
  have sum: "round2 (fadd (cents S) (cents m)) = cents (S + m)" using Sb dep m(3) pos by (intro round2_add) auto
  have "round2 (max (fsub (cents (as_value a)) (cents (S + m))) (cents (as_residualValue a))) =
      max (round2 (fsub (cents (as_value a)) (cents (S + m)))) (round2 (cents (as_residualValue a)))"
    by (rule max_of_mono[symmetric]) (simp add: monoI round2_mono)
  also have "\<dots> = max (cents (as_value a - (S + m))) (cents (as_residualValue a))"
    using bounds Sb pos by (simp add: round2_sub)
  also have "\<dots> = cents (as_value a - (S + m))" using bounds cent.grid_max[of "as_value a - (S + m)" "as_residualValue a"] by (simp add: max_absorb1)
  finally have bv: "round2 (max (fsub (cents (as_value a)) (cents (S + m))) (cents (as_residualValue a))) = cents (as_value a - (S + m))" .
  have pe: "p = \<lparr> pn_assetId = as_id a, pn_depreciationAmount = cents m, pn_accumulatedAmount = cents (S + m),
      pn_bookValue = cents (as_value a - (S + m)) \<rparr>"
    using p pos by (auto simp: planRecord_def Let_def acc am sum bv split: if_splits)
  note ex = exact_storeD(1)[OF st]
  have da: "ad_depreciationAmount d = m" "ad_accumulatedAmount d = S + m" "ad_bookValue d = as_value a - (S + m)"
    using bounds Sb pos by (simp_all add: d depreciationRow_def pe ex)
  show "recordsOk a S [d]" using da pos bounds by (simp add: depreciable_def)
  show "cents (ad_depreciationAmount d) = monthAmount a ?i S" by (simp add: da(1) m(1))
  show "\<forall>e \<in> set (depreciationsOf (as_id a) db). ad_period e \<noteq> period" using p by (auto simp: planRecord_def list_ex_iff split: if_splits)
qed

lemma planned_nothing:
  assumes ok: "recordsOk a 0 (depreciationsOf (as_id a) db)" and fit: "recordsFit a (depreciationsOf (as_id a) db)" and a: "sized a"
    and p: "planRecord period endDate db a = None" and n: "\<forall>e \<in> set (depreciationsOf (as_id a) db). ad_period e \<noteq> period"
  shows "monthAmount a (monthDiffUTC (as_startDate a) endDate) (booked (depreciationsOf (as_id a) db)) \<le> 0"
  using p n accumulatedBefore_booked[OF ok fit a] by (auto simp: planRecord_def Let_def monthAmount_def list_ex_iff split: if_splits)

lemma planRecord_asset: "planRecord period endDate db a = Some p \<Longrightarrow> pn_assetId p = as_id a"
  by (auto simp: planRecord_def Let_def split: if_splits)

section \<open>A run\<close>

definition runRows :: "env \<Rightarrow> string \<Rightarrow> date \<Rightarrow> id option \<Rightarrow> nat \<Rightarrow> planned_record list \<Rightarrow> depreciation list" where
  "runRows env period date j n ps = map (\<lambda>(k, p). depreciationRow env period date j k p) (List.enumerate n ps)"

lemma runRows_simps [simp]: "runRows env period date j n [] = []"
  "runRows env period date j n (p # ps) = depreciationRow env period date j n p # runRows env period date j (Suc n) ps"
  by (simp_all add: runRows_def)

lemma runRows_assets: "map ad_assetId (runRows env period date j n ps) = map pn_assetId ps"
  by (induction ps arbitrary: n) (simp_all add: depreciationRow_def)

lemma planned_assets: "set (map pn_assetId (List.map_filter (planRecord period endDate db) es)) \<subseteq> as_id ` set es"
  by (induction es) (auto split: option.splits dest: planRecord_asset)

text \<open>A run writes at most one row for each asset, the one planned for it.\<close>

lemma runRows_of_asset:
  assumes "distinct (map as_id es)" "\<forall>b \<in> set es. as_id b = as_id a \<longrightarrow> b = a"
  shows "filter (\<lambda>d. ad_assetId d = as_id a) (runRows env period date j n (List.map_filter (planRecord period endDate db) es)) = [] \<and>
      (a \<in> set es \<longrightarrow> planRecord period endDate db a = None) \<or>
    (\<exists>k p. planRecord period endDate db a = Some p \<and>
      filter (\<lambda>d. ad_assetId d = as_id a) (runRows env period date j n (List.map_filter (planRecord period endDate db) es)) =
        [depreciationRow env period date j k p])"
  using assms
proof (induction es arbitrary: n)
  case (Cons b es)
  have rest: "filter (\<lambda>d. ad_assetId d = as_id a) (runRows env period date j m (List.map_filter (planRecord period endDate db) es)) = []"
    if "as_id b = as_id a" for m
  proof -
    have "ad_assetId d \<noteq> as_id a" if "d \<in> set (runRows env period date j m (List.map_filter (planRecord period endDate db) es))" for d
    proof -
      have "ad_assetId d \<in> set (map ad_assetId (runRows env period date j m (List.map_filter (planRecord period endDate db) es)))"
        using that by simp
      then have "ad_assetId d \<in> as_id ` set es" unfolding runRows_assets using planned_assets by fast
      moreover have "as_id a \<notin> as_id ` set es" using Cons.prems(1) \<open>as_id b = as_id a\<close> by simp
      ultimately show ?thesis by metis
    qed
    then show ?thesis by (simp add: filter_empty_conv)
  qed
  show ?case
  proof (cases "as_id b = as_id a")
    case True
    then have "b = a" using Cons.prems(2) by simp
    then show ?thesis using rest[OF True] by (auto simp: depreciationRow_def split: option.splits dest: planRecord_asset)
  next
    case False
    then show ?thesis using Cons.IH[of n] Cons.IH[of "Suc n"] Cons.prems
      by (auto simp: depreciationRow_def split: option.splits dest: planRecord_asset)
  qed
qed simp

lemma insertDepreciations_InrD:
  "insertDepreciations xs db = Inr db' \<Longrightarrow> db' = db\<lparr>depreciations := depreciations db @ xs\<rparr> \<and>
     (sorted_wrt (\<lambda>x y. \<not> depreciationClash x y) (depreciations db) \<longrightarrow> sorted_wrt (\<lambda>x y. \<not> depreciationClash x y) (depreciations db @ xs))"
proof (induction xs arbitrary: db)
  case (Cons x xs)
  have new: "\<forall>y \<in> set (depreciations db). \<not> depreciationClash x y"
    and ins: "insertDepreciations xs (db\<lparr>depreciations := depreciations db @ [x]\<rparr>) = Inr db'"
    using Cons.prems by (auto simp: list_ex_iff split: if_splits)
  have "\<forall>y \<in> set (depreciations db). \<not> depreciationClash y x" using new by (auto simp: depreciationClash_def)
  then show ?case using Cons.IH[OF ins] by (simp add: sorted_wrt_append)
qed simp

lemma depreciationsOf_append:
  "depreciationsOf i (db\<lparr>depreciations := ds @ xs\<rparr>) = filter (\<lambda>d. ad_assetId d = i) ds @ filter (\<lambda>d. ad_assetId d = i) xs"
  by (simp add: depreciationsOf_def)

lemma runDepreciation_InrD:
  assumes "runDepreciation env u r db = Inr (rows, db')"
  obtains endDate date j es db1 where "\<not> periodClosed (act_company u) (dq_period r) db"
    "(\<exists>start. periodToDateRange (dq_period r) = Inr (start, endDate))"
    "es = eligibleAssets (act_company u) endDate db" "date = orElse (dq_depreciationDate r) endDate"
    "commitDepreciation env u r date (List.map_filter (planRecord (dq_period r) endDate db) es) db = Inr (rows, db1)"
    "db' = invalidateFinancialStatementsCache (writeAudit u ''asset_depreciation'' None ''CREATE'' (dq_reason r) db1)"
  using assms that by (auto simp: runDepreciation_def Let_def bindR_eq_Inr assertPeriodOpen_def split: if_splits)

lemma asset_table_simps [simp, table_simps]:
  "assets (writeAudit u t r a x db) = assets db" "depreciations (writeAudit u t r a x db) = depreciations db"
  "assets (invalidateFinancialStatementsCache db) = assets db"
  "depreciations (invalidateFinancialStatementsCache db) = depreciations db"
  by (simp_all add: writeAudit_def invalidateFinancialStatementsCache_def)

lemma commitDepreciation_InrD:
  assumes c: "commitDepreciation env u r date ps db = Inr (rows, db')"
  obtains j where "rows = runRows env (dq_period r) date j 0 ps" "depreciations db' = depreciations db @ rows" "assets db' = assets db"
    "sorted_wrt (\<lambda>x y. \<not> depreciationClash x y) (depreciations db) \<Longrightarrow> sorted_wrt (\<lambda>x y. \<not> depreciationClash x y) (depreciations db')"
    "dq_autoPost r \<Longrightarrow> ps \<noteq> [] \<Longrightarrow> \<exists>ids db1. insertEntry (autoEntry env u (uuid env 0) date (''Amortizare lunara '' @ dq_period r) (dq_period r) ''FIXED_ASSETS''
       (depreciationLines (dq_period r) (round2 (reduceSum (map pn_depreciationAmount ps))) ids) db) db = Inr db1 \<and>
       db' = db1\<lparr>depreciations := depreciations db @ rows\<rparr>"
    "\<not> dq_autoPost r \<or> ps = [] \<Longrightarrow> entries db' = entries db" "periods db' = periods db"
proof (cases "ps = []")
  case True
  then show thesis using c that[of None] by (simp add: commitDepreciation_def)
next
  case False
  define e where "e ids = autoEntry env u (uuid env 0) date (''Amortizare lunara '' @ dq_period r) (dq_period r) ''FIXED_ASSETS''
       (depreciationLines (dq_period r) (round2 (reduceSum (map pn_depreciationAmount ps))) ids) db" for ids
  have "\<exists>j db1. (if dq_autoPost r then \<exists>ids. insertEntry (e ids) db = Inr db1 else db1 = db) \<and> rows = runRows env (dq_period r) date j 0 ps \<and>
    insertDepreciations rows db1 = Inr db'"
    using c False unfolding commitDepreciation_def Let_def e_def[symmetric] runRows_def[symmetric]
    by (auto simp: bindR_eq_Inr split: if_splits)
  then obtain j db1 where j: "if dq_autoPost r then \<exists>ids. insertEntry (e ids) db = Inr db1 else db1 = db" "rows = runRows env (dq_period r) date j 0 ps"
    "insertDepreciations rows db1 = Inr db'" by blast
  have f: "depreciations db1 = depreciations db" "assets db1 = assets db" "periods db1 = periods db"
    using j(1) by (auto dest: insertEntry_InrD split: if_splits)
  note ins = insertDepreciations_InrD[OF j(3)]
  show thesis using ins f j(1,2) False unfolding e_def[symmetric]
    by (intro that[of j, folded e_def]) (auto split: if_splits)
qed

section \<open>Invariant\<close>

definition assetInv :: "'z fixed_assets_scheme \<Rightarrow> bool" where
  "assetInv db \<longleftrightarrow> sorted_wrt (\<lambda>x y. \<not> assetClash x y) (assets db) \<and> sorted_wrt (\<lambda>x y. \<not> depreciationClash x y) (depreciations db) \<and>
     (\<forall>d \<in> set (depreciations db). \<exists>a \<in> set (assets db). as_id a = ad_assetId d) \<and>
     (\<forall>a \<in> set (assets db). 0 \<le> as_residualValue a \<and> as_residualValue a \<le> as_value a \<and>
        (recordsFit a (depreciationsOf (as_id a) db) \<longrightarrow> recordsOk a 0 (depreciationsOf (as_id a) db)))"

lemma asset_unique:
  assumes "assetInv db" "a \<in> set (assets db)" "b \<in> set (assets db)" "as_id a = as_id b" shows "a = b"
proof -
  have "sorted_wrt (\<lambda>x y. as_id x \<noteq> as_id y) (assets db)"
    using assms(1) by (auto simp: assetInv_def assetClash_def elim: sorted_wrt_mono_rel[rotated])
  from sorted_wrt_unique[OF this assms(2-4)] show ?thesis .
qed

lemma assets_distinct: "assetInv db \<Longrightarrow> distinct (map as_id (eligibleAssets c e db))"
proof -
  have "sorted_wrt (\<lambda>x y. as_id x \<noteq> as_id y) xs \<Longrightarrow> distinct (map as_id (filter P xs))" for xs P by (induction xs) auto
  moreover assume "assetInv db"
  then have "sorted_wrt (\<lambda>x y. as_id x \<noteq> as_id y) (assets db)"
    by (auto simp: assetInv_def assetClash_def elim: sorted_wrt_mono_rel[rotated])
  ultimately show ?thesis by (simp add: eligibleAssets_def)
qed

text \<open>What a run adds to one asset.\<close>

lemma run_asset:
  assumes run: "runDepreciation env u r db = Inr (rows, db')" and inv: "assetInv db" and a: "a \<in> set (assets db)"
  obtains start endDate ds where "periodToDateRange (dq_period r) = Inr (start, endDate)"
    "depreciationsOf (as_id a) db' = depreciationsOf (as_id a) db @ ds"
    "ds = [] \<and> (a \<in> set (eligibleAssets (act_company u) endDate db) \<longrightarrow> planRecord (dq_period r) endDate db a = None) \<or>
      (\<exists>date j k p. planRecord (dq_period r) endDate db a = Some p \<and> ds = [depreciationRow env (dq_period r) date j k p])"
  using run
proof (rule runDepreciation_InrD)
  fix endDate date es db1
  assume e: "\<exists>start. periodToDateRange (dq_period r) = Inr (start, endDate)" "es = eligibleAssets (act_company u) endDate db"
    and c: "commitDepreciation env u r date (List.map_filter (planRecord (dq_period r) endDate db) es) db = Inr (rows, db1)"
    and db': "db' = invalidateFinancialStatementsCache (writeAudit u ''asset_depreciation'' None ''CREATE'' (dq_reason r) db1)"
  obtain j where j: "rows = runRows env (dq_period r) date j 0 (List.map_filter (planRecord (dq_period r) endDate db) es)"
    "depreciations db1 = depreciations db @ rows"
    using c by (rule commitDepreciation_InrD)
  have un: "\<forall>b \<in> set es. as_id b = as_id a \<longrightarrow> b = a" using asset_unique[OF inv _ a] by (auto simp: e(2) eligibleAssets_def)
  obtain start where st: "periodToDateRange (dq_period r) = Inr (start, endDate)" using e(1) by blast
  have "depreciationsOf (as_id a) db' = depreciationsOf (as_id a) db @ filter (\<lambda>d. ad_assetId d = as_id a) rows"
    by (simp add: db' depreciationsOf_def j(2))
  from that[OF st this] show thesis
    using runRows_of_asset[OF assets_distinct[OF inv] un[unfolded e(2)], of env "dq_period r" date j 0 endDate db] unfolding j(1) e(2) by blast
qed

lemma createAsset_InrD:
  assumes "createAsset env u r db = Inr (x, db')"
  shows "assets db' = assets db @ [x]" "depreciations db' = depreciations db" "\<forall>y \<in> set (assets db). \<not> assetClash y x"
    "0 \<le> ar_residualValue r" "ar_residualValue r \<le> ar_value r"
    "as_value x = storeDec env 100 (ar_value r)" "as_residualValue x = storeDec env 100 (ar_residualValue r)"
    "as_usefulLifeMonths x = ar_usefulLifeMonths r" "0 < as_usefulLifeMonths x"
  using assms by (auto simp: createAsset_def createAssetSchema_def Let_def bindR_eq_Inr insertAsset_def list_ex_iff assetClash_def sameKey_def split: if_splits)

lemma createAsset_inv:
  assumes st: "exact_store (storeDec env)" and c: "createAsset env u r db = Inr (x, db')" and inv: "assetInv db"
  shows "assetInv db'"
proof -
  note C = createAsset_InrD[OF c]
  have bounds: "0 \<le> as_residualValue x" "as_residualValue x \<le> as_value x"
    using C(4-7) exact_store_mono[OF st, of 0 "ar_residualValue r"] exact_store_mono[OF st C(5)] st by auto
  have fresh: "as_id y \<noteq> as_id x" if "y \<in> set (assets db)" for y using C(3) that by (auto simp: assetClash_def)
  then have "depreciationsOf (as_id x) db' = []"
    using inv C(2) by (fastforce simp: assetInv_def depreciationsOf_def filter_empty_conv)
  moreover have "depreciationsOf i db' = depreciationsOf i db" for i by (simp add: depreciationsOf_def C(2))
  ultimately show ?thesis using inv C(1-3) bounds by (auto simp: assetInv_def sorted_wrt_append)
qed

lemma sized_fit: "assetInv db \<Longrightarrow> a \<in> set (assets db) \<Longrightarrow> recordsFit a ds \<Longrightarrow> sized a"
  using recordsFit_value[of a ds] by (auto simp: assetInv_def sized_def)

lemma assetInv_asset:
  assumes "assetInv db" "a \<in> set (assets db)" "recordsFit a (depreciationsOf (as_id a) db)"
  shows "recordsOk a 0 (depreciationsOf (as_id a) db)"
  using assms by (simp add: assetInv_def)

lemma runDepreciation_inv:
  assumes st: "exact_store (storeDec env)" and run: "runDepreciation env u r db = Inr (rows, db')" and inv: "assetInv db"
  shows "assetInv db'" "assets db' = assets db" "depreciations db' = depreciations db @ rows"
proof -
  obtain date endDate j es db1 where c: "commitDepreciation env u r date (List.map_filter (planRecord (dq_period r) endDate db) es) db = Inr (rows, db1)"
    and db': "db' = invalidateFinancialStatementsCache (writeAudit u ''asset_depreciation'' None ''CREATE'' (dq_reason r) db1)"
    and es: "es = eligibleAssets (act_company u) endDate db"
    using run by (rule runDepreciation_InrD)
  show as: "assets db' = assets db" using c by (rule commitDepreciation_InrD) (simp add: db')
  show dp: "depreciations db' = depreciations db @ rows" using c by (rule commitDepreciation_InrD) (simp add: db')
  have ids: "ad_assetId ` set rows \<subseteq> as_id ` set es" using c
  proof (rule commitDepreciation_InrD)
    fix j assume r: "rows = runRows env (dq_period r) date j 0 (List.map_filter (planRecord (dq_period r) endDate db) es)"
    have "ad_assetId ` set rows = set (map ad_assetId rows)" by simp
    then show ?thesis unfolding r runRows_assets using planned_assets by metis
  qed
  have keys: "sorted_wrt (\<lambda>x y. \<not> depreciationClash x y) (depreciations db')"
    using c by (rule commitDepreciation_InrD) (use inv in \<open>simp add: db' assetInv_def\<close>)
  have one: "recordsOk a 0 (depreciationsOf (as_id a) db')"
    if a: "a \<in> set (assets db)" and fit: "recordsFit a (depreciationsOf (as_id a) db')" for a
    using run inv a
  proof (rule run_asset)
    fix start endDate ds
    assume d: "depreciationsOf (as_id a) db' = depreciationsOf (as_id a) db @ ds"
      "ds = [] \<and> (a \<in> set (eligibleAssets (act_company u) endDate db) \<longrightarrow> planRecord (dq_period r) endDate db a = None) \<or>
        (\<exists>date j k p. planRecord (dq_period r) endDate db a = Some p \<and> ds = [depreciationRow env (dq_period r) date j k p])"
    have v: "0 \<le> as_value a" using inv a by (auto simp: assetInv_def)
    have fit0: "recordsFit a (depreciationsOf (as_id a) db)" using recordsFit_append[OF v] fit unfolding d(1) by blast
    note ok = assetInv_asset[OF inv a fit0]
    show ?thesis using d(2) ok planRecord_ok(1)[OF st ok fit0 sized_fit[OF inv a fit0] _ refl refl]
      by (auto simp: d(1) recordsOk_append)
  qed
  have "\<forall>d \<in> set (depreciations db'). \<exists>a \<in> set (assets db'). as_id a = ad_assetId d"
    using inv ids by (fastforce simp: dp as assetInv_def es eligibleAssets_def)
  then show "assetInv db'" using inv one keys by (simp add: assetInv_def as)
qed

inductive asset_step :: "'z fixed_assets_scheme \<Rightarrow> 'z fixed_assets_scheme \<Rightarrow> bool" where
  acquire: "exact_store (storeDec env) \<Longrightarrow> createAsset env u q db = Inr (x, db') \<Longrightarrow> asset_step db db'"
| depreciate: "exact_store (storeDec env) \<Longrightarrow> runDepreciation env u r db = Inr (rows, db') \<Longrightarrow> asset_step db db'"

inductive_cases asset_stepE: "asset_step db db'"

lemma asset_step_inv:
  assumes "asset_step db db'" "assetInv db"
  shows "assetInv db' \<and> (\<exists>new. depreciations db' = depreciations db @ new)"
  using assms(1)
proof (rule asset_stepE)
  fix env u q x assume "exact_store (storeDec env)" "createAsset env u q db = Inr (x, db')"
  then show ?thesis using createAsset_inv[of env u q db x db'] createAsset_InrD(2)[of env u q db x db'] assms(2) by simp
next
  fix env u r rows assume "exact_store (storeDec env)" "runDepreciation env u r db = Inr (rows, db')"
  then show ?thesis using runDepreciation_inv[of env u r db rows db'] assms(2) by simp
qed

lemma asset_reach_inv:
  "asset_step\<^sup>*\<^sup>* db db' \<Longrightarrow> assetInv db \<Longrightarrow> assetInv db' \<and> (\<exists>new. depreciations db' = depreciations db @ new)"
proof (induction rule: rtranclp_induct)
  case (step a b) then show ?case using asset_step_inv[of a b] by fastforce
qed simp

section \<open>The journal entry\<close>

text \<open>The stored amounts of a run add up to what its entry moves.\<close>

lemma run_total:
  assumes st: "exact_store (storeDec env)" and pos: "\<forall>p \<in> set ps. 0 < pn_depreciationAmount p \<and> (\<exists>m. pn_depreciationAmount p = cents m)"
    and fit: "int (length ps) * (1 + (\<Sum>d\<leftarrow>runRows env period date j n ps. \<bar>ad_depreciationAmount d\<bar>)) \<le> 2 ^ 44"
  shows "round2 (reduceSum (map pn_depreciationAmount ps)) = cents (booked (runRows env period date j n ps))" 
    "0 \<le> booked (runRows env period date j n ps)" "booked (runRows env period date j n ps) \<le> 2 ^ 44"
proof -
  define F where "F = (\<lambda>p :: planned_record. storeDec env 100 (pn_depreciationAmount p))"
  have rows: "map ad_depreciationAmount (runRows env period date j n ps) = map F ps" for n
    by (induction ps arbitrary: n) (simp_all add: F_def depreciationRow_def)
  have abs: "(\<Sum>d\<leftarrow>runRows env period date j n ps. \<bar>ad_depreciationAmount d\<bar>) = (\<Sum>p\<leftarrow>ps. \<bar>F p\<bar>)"
    using arg_cong[OF rows[of n], of "\<lambda>xs. sum_list (map abs xs)"] by (simp add: comp_def)
  have nn: "0 \<le> F p" if "p \<in> set ps" for p
    using pos that exact_store_mono[OF st, of 0 "pn_depreciationAmount p"] st by (fastforce simp: F_def)
  have sum0: "0 \<le> (\<Sum>p\<leftarrow>ps. \<bar>F p\<bar>)" by (rule sum_list_nonneg) auto
  have tot: "(\<Sum>p\<leftarrow>ps. \<bar>F p\<bar>) < 2 ^ 44" if "ps \<noteq> []"
  proof -
    have "1 * (1 + (\<Sum>p\<leftarrow>ps. \<bar>F p\<bar>)) \<le> int (length ps) * (1 + (\<Sum>p\<leftarrow>ps. \<bar>F p\<bar>))"
      using that sum0 by (intro mult_right_mono) (auto simp: Suc_le_eq)
    then have "1 * (1 + (\<Sum>p\<leftarrow>ps. \<bar>F p\<bar>)) \<le> 2 ^ 44" using fit unfolding abs by (rule order_trans)
    then show ?thesis by simp
  qed
  have am: "pn_depreciationAmount p = cents (F p)" if p: "p \<in> set ps" for p
  proof -
    obtain m where m: "pn_depreciationAmount p = cents m" using pos p by blast
    have "\<bar>F p\<bar> \<le> (\<Sum>p\<leftarrow>ps. \<bar>F p\<bar>)" using p by (intro member_le_sum_list) auto
    then have "\<bar>storeDec env 100 (cents m)\<bar> < 2 ^ 45" using tot p by (fastforce simp: F_def m)
    from exact_store_small[OF st this] show ?thesis by (simp add: F_def m)
  qed
  have pn: "map pn_depreciationAmount ps = map cents (map F ps)" using am by simp
  have bk: "booked (runRows env period date j n ps) = sum_list (map F ps)" by (simp add: booked_def rows)
  show "round2 (reduceSum (map pn_depreciationAmount ps)) = cents (booked (runRows env period date j n ps))"
    unfolding pn bk using fit by (intro round2_sum) (simp add: abs comp_def)
  show "0 \<le> booked (runRows env period date j n ps)" unfolding bk using nn by (auto intro!: sum_list_nonneg)
  have "sum_list (map F ps) \<le> (\<Sum>p\<leftarrow>ps. \<bar>F p\<bar>)" by (intro sum_list_mono) simp
  then show "booked (runRows env period date j n ps) \<le> 2 ^ 44" unfolding bk using tot by (cases "ps = []") auto
qed

definition runFitsBook :: "depreciation list \<Rightarrow> bool" where
  "runFitsBook rows \<longleftrightarrow> int (length rows) * (1 + (\<Sum>d\<leftarrow>rows. \<bar>ad_depreciationAmount d\<bar>)) \<le> 2 ^ 44"

lemma computeDepreciation_grid: "\<exists>m. computeDepreciation x y l method i S = cents m"
proof -
  have "\<exists>m. (if c then 0 else round2 z) = cents m" for c z using cent.grid_0[symmetric] round2_grid by (cases c) fastforce+
  then show ?thesis unfolding computeDepreciation_def Let_def by blast
qed

lemma planRecord_positive: "planRecord period endDate db a = Some p \<Longrightarrow> 0 < pn_depreciationAmount p \<and> (\<exists>m. pn_depreciationAmount p = cents m)"
  using computeDepreciation_grid by (auto simp: planRecord_def Let_def split: if_splits)

lemma depreciation_entry:
  assumes st: "exact_store (storeDec env)" and run: "runDepreciation env u r db = Inr (rows, db')" and fit: "runFitsBook rows"
    and post: "dq_autoPost r" "rows \<noteq> []"
  obtains e where "entries db' = entries db @ [e]" "je_posted e" "je_companyId e = act_company u" "je_period e = dq_period r"
    "\<not> periodClosed (act_company u) (dq_period r) db" "debits (je_lines e) = booked rows" "credits (je_lines e) = booked rows"
    "ledgerInv db \<Longrightarrow> ledgerInv db'"
proof -
  obtain date endDate es db1 where op: "\<not> periodClosed (act_company u) (dq_period r) db"
    and c: "commitDepreciation env u r date (List.map_filter (planRecord (dq_period r) endDate db) es) db = Inr (rows, db1)"
    and db': "db' = invalidateFinancialStatementsCache (writeAudit u ''asset_depreciation'' None ''CREATE'' (dq_reason r) db1)"
    using run by (rule runDepreciation_InrD)
  define ps where "ps = List.map_filter (planRecord (dq_period r) endDate db) es"
  have pos: "\<forall>p \<in> set ps. 0 < pn_depreciationAmount p \<and> (\<exists>m. pn_depreciationAmount p = cents m)"
    unfolding ps_def by (induction es) (auto split: option.splits dest: planRecord_positive)
  from c[folded ps_def] show thesis
  proof (rule commitDepreciation_InrD)
    fix j
    assume j: "rows = runRows env (dq_period r) date j 0 ps" "periods db1 = periods db"
      and ex: "dq_autoPost r \<Longrightarrow> ps \<noteq> [] \<Longrightarrow> \<exists>ids db2. insertEntry (autoEntry env u (uuid env 0) date (''Amortizare lunara '' @ dq_period r) (dq_period r) ''FIXED_ASSETS''
         (depreciationLines (dq_period r) (round2 (reduceSum (map pn_depreciationAmount ps))) ids) db) db = Inr db2 \<and>
         db1 = db2\<lparr>depreciations := depreciations db @ rows\<rparr>"
    have ne: "ps \<noteq> []" using post(2) j(1) by auto
    obtain ids db2 where ins: "insertEntry (autoEntry env u (uuid env 0) date (''Amortizare lunara '' @ dq_period r) (dq_period r) ''FIXED_ASSETS''
         (depreciationLines (dq_period r) (round2 (reduceSum (map pn_depreciationAmount ps))) ids) db) db = Inr db2"
      and db1: "db1 = db2\<lparr>depreciations := depreciations db @ rows\<rparr>"
      using ex[OF post(1) ne] by blast
    have len: "length rows = length ps" by (simp add: j(1) runRows_def)
    note T = run_total[OF st pos, of "dq_period r" date j 0, folded j(1), OF fit[unfolded runFitsBook_def len]]
    define e where "e = autoEntry env u (uuid env 0) date (''Amortizare lunara '' @ dq_period r) (dq_period r) ''FIXED_ASSETS''
         (depreciationLines (dq_period r) (cents (booked rows)) ids) db"
    have ins': "insertEntry e db = Inr db2" using ins unfolding T(1) e_def .
    have s: "storeDec env 100 (cents (booked rows)) = booked rows" "storeDec env 100 0 = 0"
      using exact_storeD(1)[OF st] T(2,3) st by auto
    have dc: "debits (je_lines e) = booked rows" "credits (je_lines e) = booked rows"
      by (simp_all add: e_def storeLines_def depreciationLines_def storeLine_def s debits_def credits_def)
    have "postable e" using dc by (simp add: postable_def balanced_def) (simp add: e_def)
    then have "ledgerInv db2" if "ledgerInv db" using ledger_posting.post_inv[OF that _ _ ins'] op by (simp add: e_def)
    then have "ledgerInv db'" if "ledgerInv db" using that ledgerInv_cong[of db' db2] by (simp add: db' db1)
    moreover have "entries db' = entries db @ [e]" using insertEntry_InrD[OF ins'] by (simp add: db' db1)
    ultimately show thesis using that[of e] op dc by (simp add: e_def)
  qed
qed

section \<open>A worked example\<close>

text \<open>An asset of 100.00 depreciated over three months by the degressive method, in its last month.\<close>

definition demoAsset :: "DepreciationMethod \<Rightarrow> asset" where
  "demoAsset m = \<lparr> as_id = ''a'', as_companyId = ''c'', as_code = None, as_name = ''Laptop'', as_value = 10000,
     as_residualValue = 0, as_depreciationMethod = m, as_startDate = DateUTC 2024 0 15 0, as_usefulLifeMonths = 3, as_isActive = True \<rparr>"

definition demoAssets :: fixed_assets where
  "demoAssets = \<lparr> accounts = map (\<lambda>c. \<lparr> a_id = c, a_companyId = ''c'', a_code = c, a_isActive = True, a_name = [], a_type = ASSET, a_currency = ''RON'' \<rparr>) [''681'', ''281''],
     periods = [], entries = [], auditLog = [], fsCache = [], assets = [demoAsset DEGRESSIVE], depreciations = [] \<rparr>"

definition demoMonth :: "string \<Rightarrow> depreciation_req" where
  "demoMonth p = \<lparr> dq_period = p, dq_depreciationDate = None, dq_autoPost = True, dq_expenseAccountCode = ''681'',
     dq_accumulatedDepreciationAccountCode = ''281'', dq_reason = None \<rparr>"

definition demoDepreciated :: "depreciation list \<times> fixed_assets" where
  "demoDepreciated = projr (runDepreciation (demoEnv ''g'') demoActor (demoMonth ''2024-03'') demoAssets)"

lemma demo_month: "matchPeriod ''2024-03'' \<noteq> None" "parsePeriod ''2024-03'' = Inr (2024, 3)"
  "periodToDateRange ''2024-03'' = Inr (DateUTC 2024 2 1 0, DateUTC 2024 3 0 (msPerDay - 1))"
  "accountsOrError err (act_company demoActor) [''681'', ''281''] demoAssets = Inr [''681'', ''281'']"
  "eligibleAssets (act_company demoActor) (DateUTC 2024 3 0 (msPerDay - 1)) demoAssets = [demoAsset DEGRESSIVE]"
  by code_simp+

lemma demo_plan: "planRecord ''2024-03'' (DateUTC 2024 3 0 (msPerDay - 1)) demoAssets (demoAsset DEGRESSIVE) =
  Some \<lparr> pn_assetId = ''a'', pn_depreciationAmount = 100, pn_accumulatedAmount = 100, pn_bookValue = 0 \<rparr>"
  by code_simp

lemma demo_depreciate: "runDepreciation (demoEnv ''g'') demoActor (demoMonth ''2024-03'') demoAssets = Inr demoDepreciated"
proof -
  have "is_ok (runDepreciation (demoEnv ''g'') demoActor (demoMonth ''2024-03'') demoAssets)"
    unfolding runDepreciation_def commitDepreciation_def Let_def
    by (simp add: demoMonth_def demo_month demo_plan assertPeriodOpen_def periodClosed_def findPeriod_def)
      (simp add: demoAssets_def insertEntry_def)
  then show ?thesis by (auto simp: demoDepreciated_def is_ok_iff)
qed

lemma demo_assets_inv: "assetInv demoAssets"
  by (simp add: assetInv_def demoAssets_def demoAsset_def depreciationsOf_def)

lemma demo_depreciation_rows: "\<exists>j. fst demoDepreciated = [depreciationRow (demoEnv ''g'') ''2024-03'' (DateUTC 2024 3 0 (msPerDay - 1)) j 0
   \<lparr> pn_assetId = ''a'', pn_depreciationAmount = 100, pn_accumulatedAmount = 100, pn_bookValue = 0 \<rparr>]"
proof -
  have g: "runDepreciation (demoEnv ''g'') demoActor (demoMonth ''2024-03'') demoAssets = Inr (fst demoDepreciated, snd demoDepreciated)"
    using demo_depreciate by simp
  show ?thesis using g
  proof (rule runDepreciation_InrD)
    fix endDate date es db1
    assume e: "\<exists>start. periodToDateRange (dq_period (demoMonth ''2024-03'')) = Inr (start, endDate)"
      and es: "es = eligibleAssets (act_company demoActor) endDate demoAssets"
      and d: "date = orElse (dq_depreciationDate (demoMonth ''2024-03'')) endDate"
      and c: "commitDepreciation (demoEnv ''g'') demoActor (demoMonth ''2024-03'') date
         (List.map_filter (planRecord (dq_period (demoMonth ''2024-03'')) endDate demoAssets) es) demoAssets = Inr (fst demoDepreciated, db1)"
    have en: "endDate = DateUTC 2024 3 0 (msPerDay - 1)" using e by (simp add: demoMonth_def demo_month)
    show ?thesis using c by (rule commitDepreciation_InrD)
      (auto simp: en es d demo_month demo_plan demoMonth_def orElse_def)
  qed
qed

lemma demo_stored: "storeDec (demoEnv ''g'') 100 100 = 10000"
  by code_simp

section \<open>Properties\<close>

text \<open>C25: In every state the asset routes reach, depreciation records are never changed or removed, an
  asset has at most one record per month, and for an asset within the size bound every record adds a
  positive amount to the running sum it carries, its book value is the value less that sum, and the
  sum never exceeds the depreciable value, so the book value never falls below the residual value.\<close>

theorem asset_records:
  assumes "asset_step\<^sup>*\<^sup>* db db'" "assetInv db" "a \<in> set (assets db')"
  shows "set (depreciations db) \<subseteq> set (depreciations db') \<and>
    (\<forall>d \<in> set (depreciations db'). \<forall>e \<in> set (depreciations db'). ad_assetId d = ad_assetId e \<and> ad_period d = ad_period e \<longrightarrow> d = e) \<and>
    (recordsFit a (depreciationsOf (as_id a) db') \<longrightarrow> recordsOk a 0 (depreciationsOf (as_id a) db') \<and>
      booked (depreciationsOf (as_id a) db') \<le> as_value a - as_residualValue a)"
proof -
  have inv: "assetInv db'" and ext: "\<exists>new. depreciations db' = depreciations db @ new"
    using asset_reach_inv[OF assms(1,2)] by auto
  have "sorted_wrt (\<lambda>x y. (ad_assetId x, ad_period x) \<noteq> (ad_assetId y, ad_period y)) (depreciations db')"
    using inv by (auto simp: assetInv_def depreciationClash_def elim: sorted_wrt_mono_rel[rotated])
  then have "\<forall>d \<in> set (depreciations db'). \<forall>e \<in> set (depreciations db'). ad_assetId d = ad_assetId e \<and> ad_period d = ad_period e \<longrightarrow> d = e"
    using sorted_wrt_unique[of "\<lambda>x. (ad_assetId x, ad_period x)"] by fastforce
  moreover have "recordsOk a 0 ds \<Longrightarrow> booked ds \<le> as_value a - as_residualValue a" for ds
    using recordsOk_booked[of a 0 ds] inv assms(3) by (cases "ds = []") (auto simp: assetInv_def depreciable_def)
  ultimately show ?thesis using ext assetInv_asset[OF inv assms(3)] by auto
qed

theorem asset_records_witness: "recordsOk (demoAsset DEGRESSIVE) 0 (depreciationsOf ''a'' (snd demoDepreciated))"
proof -
  have r: "runDepreciation (demoEnv ''g'') demoActor (demoMonth ''2024-03'') demoAssets = Inr (fst demoDepreciated, snd demoDepreciated)"
    using demo_depreciate by simp
  have s: "asset_step\<^sup>*\<^sup>* demoAssets (snd demoDepreciated)"
    using asset_step.depreciate[OF demoEnv_exact r] by simp
  note R = runDepreciation_inv[OF demoEnv_exact r demo_assets_inv]
  have a: "demoAsset DEGRESSIVE \<in> set (assets (snd demoDepreciated))" by (simp add: R(2)) (simp add: demoAssets_def)
  obtain j where j: "fst demoDepreciated = [depreciationRow (demoEnv ''g'') ''2024-03'' (DateUTC 2024 3 0 (msPerDay - 1)) j 0
     \<lparr> pn_assetId = ''a'', pn_depreciationAmount = 100, pn_accumulatedAmount = 100, pn_bookValue = 0 \<rparr>]" using demo_depreciation_rows by blast
  have "recordsFit (demoAsset DEGRESSIVE) (depreciationsOf (as_id (demoAsset DEGRESSIVE)) (snd demoDepreciated))"
    by (simp add: recordsFit_def depreciationsOf_def R(3) j) (simp add: demoAssets_def demoAsset_def depreciationRow_def)
  then show ?thesis using asset_records[OF s demo_assets_inv a] by (simp add: demoAsset_def)
qed

text \<open>The run of the last month of an asset that is depreciated by the degressive method, or by the
  accelerated method over at least two months, ends at the residual value: it books all that is left,
  whichever months were skipped before.\<close>

lemma depreciation_completes:
  assumes st: "exact_store (storeDec env)" and run: "runDepreciation env u r db = Inr (rows, db')" and inv: "assetInv db"
    and a: "a \<in> set (assets db)" "as_companyId a = act_company u" "as_isActive a" "as_startDate a \<le> endDate"
    and p: "periodToDateRange (dq_period r) = Inr (start, endDate)" "monthDiffUTC (as_startDate a) endDate = as_usefulLifeMonths a - 1"
    and m: "as_depreciationMethod a = DEGRESSIVE \<and> 1 \<le> as_usefulLifeMonths a \<or> as_depreciationMethod a = ACCELERATED \<and> 2 \<le> as_usefulLifeMonths a"
    and fit: "recordsFit a (depreciationsOf (as_id a) db)" and new: "\<forall>d \<in> set (depreciationsOf (as_id a) db). ad_period d \<noteq> dq_period r"
  shows "booked (depreciationsOf (as_id a) db') = as_value a - as_residualValue a"
proof -
  define S where "S = booked (depreciationsOf (as_id a) db)"
  note ok = assetInv_asset[OF inv a(1) fit]
  note sz = sized_fit[OF inv a(1) fit]
  have S: "0 \<le> S" "S \<le> depreciable a" using recordsOk_booked[OF ok] inv a(1)
    by (cases "depreciationsOf (as_id a) db = []"; auto simp: S_def depreciable_def assetInv_def)+
  have amt: "monthAmount a (monthDiffUTC (as_startDate a) endDate) S = cents (depreciable a - S)"
    unfolding p(2) using sz S by (rule last_month_full) (use m in auto)
  have el: "a \<in> set (eligibleAssets (act_company u) endDate db)" using a by (simp add: eligibleAssets_def)
  show ?thesis using run inv a(1)
  proof (rule run_asset)
    fix start' end' ds
    assume q: "periodToDateRange (dq_period r) = Inr (start', end')" "depreciationsOf (as_id a) db' = depreciationsOf (as_id a) db @ ds"
      "ds = [] \<and> (a \<in> set (eligibleAssets (act_company u) end' db) \<longrightarrow> planRecord (dq_period r) end' db a = None) \<or>
        (\<exists>date j k p. planRecord (dq_period r) end' db a = Some p \<and> ds = [depreciationRow env (dq_period r) date j k p])"
    have e: "end' = endDate" using q(1) p(1) by simp
    show ?thesis
    proof (cases "planRecord (dq_period r) endDate db a")
      case None
      then have "cents (depreciable a - S) \<le> 0" using planned_nothing[OF ok fit sz None new] by (simp add: S_def[symmetric] amt)
      then show ?thesis using S q(3) el None by (simp add: q(2) e S_def[symmetric] depreciable_def)
    next
      case (Some p)
      then obtain date j k where ds: "ds = [depreciationRow env (dq_period r) date j k p]" using q(3) el by (auto simp: e)
      have "cents (ad_depreciationAmount (depreciationRow env (dq_period r) date j k p)) = cents (depreciable a - S)"
        using planRecord_ok(2)[OF st ok fit sz Some refl refl] by (simp add: S_def[symmetric] amt)
      moreover have "\<bar>depreciable a - S\<bar> \<le> 2 ^ 45" using S sz by (simp add: sized_def depreciable_def)
      moreover have "recordsOk a S ds" unfolding ds S_def by (rule planRecord_ok(1)[OF st ok fit sz Some refl refl])
      then have "\<bar>ad_depreciationAmount (depreciationRow env (dq_period r) date j k p)\<bar> \<le> 2 ^ 45"
        using S sz by (simp add: ds sized_def depreciable_def)
      ultimately have "ad_depreciationAmount (depreciationRow env (dq_period r) date j k p) = depreciable a - S"
        using exact_storeD(1)[OF st] by metis
      then show ?thesis by (simp add: q(2) ds S_def[symmetric] depreciable_def)
    qed
  qed
qed

lemma depreciation_completes_example: "booked (depreciationsOf ''a'' (snd demoDepreciated)) = 10000"
proof -
  have r: "runDepreciation (demoEnv ''g'') demoActor (demoMonth ''2024-03'') demoAssets = Inr (fst demoDepreciated, snd demoDepreciated)"
    using demo_depreciate by simp
  have a: "demoAsset DEGRESSIVE \<in> set (assets demoAssets)" by (simp add: demoAssets_def)
  have d: "as_startDate (demoAsset DEGRESSIVE) \<le> DateUTC 2024 3 0 (msPerDay - 1)"
    "monthDiffUTC (as_startDate (demoAsset DEGRESSIVE)) (DateUTC 2024 3 0 (msPerDay - 1)) = as_usefulLifeMonths (demoAsset DEGRESSIVE) - 1"
    by code_simp+
  have p: "periodToDateRange (dq_period (demoMonth ''2024-03'')) = Inr (DateUTC 2024 2 1 0, DateUTC 2024 3 0 (msPerDay - 1))"
    by (simp add: demoMonth_def demo_month)
  show ?thesis using depreciation_completes[OF demoEnv_exact r demo_assets_inv a _ _ d(1) p d(2)]
    by (simp add: demoAsset_def demoActor_def demoAssets_def recordsFit_def depreciationsOf_def)
qed

text \<open>The linear method books the rounded monthly rate in every month of the life of an asset. When the
  rate is rounded up the last month takes less; when it is rounded down the difference, up to half a
  cent for every month, is never booked: an asset of 100.00 over three months stops at 99.99.\<close>

lemma linear_residue:
  assumes st: "exact_store st" and a: "sized a" "as_value a \<le> 2 ^ 39" and m: "as_depreciationMethod a = LINEAR" "1 \<le> as_usefulLifeMonths a"
  shows "\<exists>M. 0 \<le> M \<and> \<bar>1000 * (as_usefulLifeMonths a * M - depreciable a)\<bar> \<le> 501 * as_usefulLifeMonths a \<and>
    (\<forall>k. int k \<le> as_usefulLifeMonths a \<longrightarrow> scheduled st a k = min (depreciable a) (int k * M))"
proof -
  define L where "L = as_usefulLifeMonths a"
  have n: "0 \<le> depreciable a" "depreciable a \<le> 2 ^ 39" using a by (auto simp: sized_def depreciable_def)
  obtain M where M: "round2 (fdiv (cents (depreciable a)) (of_int L)) = cents M" "0 \<le> M" "M \<le> depreciable a"
    "\<bar>of_int M - of_int (depreciable a) / of_int L\<bar> \<le> (1/2 + 1/1000 :: rat)"
    using n m(2)[folded L_def] by (rule quotient_round)
  have L: "0 < (of_int L :: rat)" using m(2) by (simp add: L_def)
  have "of_int L * \<bar>of_int M - of_int (depreciable a) / of_int L\<bar> \<le> of_int L * (1/2 + 1/1000 :: rat)"
    using L M(4) by (intro mult_left_mono) auto
  also have "of_int L * \<bar>of_int M - of_int (depreciable a) / of_int L\<bar> = \<bar>of_int L * (of_int M - of_int (depreciable a) / of_int L :: rat)\<bar>"
    using L by (simp add: abs_mult)
  also have "of_int L * (of_int M - of_int (depreciable a) / of_int L :: rat) = of_int (L * M - depreciable a)"
    using L by (simp add: field_simps)
  finally have "of_int (1000 * \<bar>L * M - depreciable a\<bar>) \<le> (of_int (501 * L) :: rat)" by simp
  then have "1000 * \<bar>L * M - depreciable a\<bar> \<le> 501 * L" by (simp only: of_int_le_iff)
  then have "\<bar>1000 * (L * M - depreciable a)\<bar> \<le> 501 * L" unfolding abs_mult by simp
  then show ?thesis using linear_scheduled[OF st a(1) m(1)] M(1,2) by (auto simp: L_def)
qed

lemma linear_residue_example: "\<exists>M. scheduled nearestColumn (demoAsset LINEAR) 3 = min 10000 (3 * M) \<and>
  scheduled nearestColumn (demoAsset LINEAR) 3 = 9999"
proof -
  have "scheduled nearestColumn (demoAsset LINEAR) 3 = 9999" by code_simp
  then show ?thesis using linear_residue[of nearestColumn "demoAsset LINEAR"] nearestColumn_exact
    by (force simp: demoAsset_def sized_def depreciable_def)
qed

end
