(* ===== verification/StatementText.thy ===== *)
theory StatementText
  imports Numbers Dates
begin

text \<open>
  The readers that the three formats of bank statements share (lib/bank-statement-file-parser.ts):
  white space, IBANs, dates and decimal numbers, with \<open>Number(s)\<close> and \<open>String(n)\<close> of ECMA-262. A thrown
  \<open>Error\<close> is \<open>Inl\<close> with its message, without diacritics and without the values it interpolates.
\<close>

type_synonym 'a parsed = "string + 'a"

section \<open>Strings\<close>

text \<open>\<open>value.replace(/\s+/g, ' ')\<close>.\<close>

function collapseSpaces :: "string \<Rightarrow> string" where
  "collapseSpaces [] = []"
| "collapseSpaces (c # s) =
     (if isSpace c then CHR '' '' # collapseSpaces (dropWhile isSpace s) else c # collapseSpaces s)"
  by pat_completeness auto
termination by (relation "measure length") (auto simp: le_imp_less_Suc length_dropWhile_le)

definition removeSpaces :: "string \<Rightarrow> string" where
  "removeSpaces s = filter (\<lambda>c. \<not> isSpace c) s"

definition removeChar :: "char \<Rightarrow> string \<Rightarrow> string" where
  "removeChar c s = filter (\<lambda>x. x \<noteq> c) s"

text \<open>\<open>s.replace(',', '.')\<close>: the first occurrence.\<close>

fun replaceFirst :: "char \<Rightarrow> char \<Rightarrow> string \<Rightarrow> string" where
  "replaceFirst c d [] = []"
| "replaceFirst c d (x # s) = (if x = c then d # s else x # replaceFirst c d s)"

text \<open>\<open>s.lastIndexOf(c)\<close>, \<open>None\<close> for -1.\<close>

fun lastIndexOf :: "char \<Rightarrow> string \<Rightarrow> nat option" where
  "lastIndexOf c [] = None"
| "lastIndexOf c (x # s) = (case lastIndexOf c s of Some i \<Rightarrow> Some (Suc i) | None \<Rightarrow> if x = c then Some 0 else None)"

definition nonEmpty :: "string \<Rightarrow> string option" where
  "nonEmpty s = (if s = [] then None else Some s)"

definition normalizeWhitespace :: "string option \<Rightarrow> string option" where
  "normalizeWhitespace v = (case v of None \<Rightarrow> None | Some s \<Rightarrow> nonEmpty (trim (collapseSpaces s)))"

definition MAX_LINES :: nat where "MAX_LINES = 5000"
definition MIN_YEAR :: int where "MIN_YEAR = 1990"
definition MAX_YEAR :: int where "MAX_YEAR = 2100"

text \<open>\<open>/^[A-Z]{2}[0-9A-Z]{13,32}$/\<close>.\<close>

definition IBAN_REGEX :: "string \<Rightarrow> bool" where
  "IBAN_REGEX s \<longleftrightarrow> 15 \<le> length s \<and> length s \<le> 34 \<and> list_all isUpper (take 2 s) \<and>
     list_all (\<lambda>c. isDigit c \<or> isUpper c) (drop 2 s)"

definition normalizeIban :: "string option \<Rightarrow> string option parsed" where
  "normalizeIban v = (case v of None \<Rightarrow> Inr None
     | Some s \<Rightarrow>
         let compact = toUpperCase (removeSpaces s) in
         if compact = [] then Inr None
         else if \<not> IBAN_REGEX compact then Inl ''IBAN invalid'' else Inr (Some compact))"

section \<open>Dates\<close>

definition allDigits :: "string \<Rightarrow> bool" where
  "allDigits s \<longleftrightarrow> list_all isDigit s"

definition parseDateFromParts :: "int \<Rightarrow> int \<Rightarrow> int \<Rightarrow> date parsed" where
  "parseDateFromParts year month day =
     (let d = DateUTC year (month - 1) day 0 in
      if getUTCFullYear d \<noteq> year \<or> getUTCMonth d \<noteq> month - 1 \<or> getUTCDate d \<noteq> day then Inl ''Data invalida''
      else if year < MIN_YEAR \<or> MAX_YEAR < year then Inl ''Data este in afara intervalului permis''
      else Inr d)"

text \<open>\<open>new Date(s)\<close> on \<open>YYYY-MM-DD\<close> is midnight UTC; for days that the month does not have the standard
  leaves the result open, and V8 counts them into the next month. With a time part the result depends
  on the time zone of the process: \<open>isoTime\<close>.\<close>

definition isoDate :: "(string \<Rightarrow> date option) \<Rightarrow> string \<Rightarrow> date option" where
  "isoDate isoTime s =
     (if length s \<noteq> 10 then isoTime s else
      let y = int (readNat (take 4 s)); m = int (readNat (take 2 (drop 5 s))); d = int (readNat (drop 8 s)) in
      if 1 \<le> m \<and> m \<le> 12 \<and> 1 \<le> d \<and> d \<le> 31 then Some ((MakeDay y (m - 1) 1 + (d - 1)) * msPerDay) else None)"

text \<open>The five patterns of \<open>parseFlexibleDate\<close>: two or four digits between separators.\<close>

definition isIsoPattern :: "string \<Rightarrow> bool" where
  "isIsoPattern s \<longleftrightarrow> 10 \<le> length s \<and> allDigits (take 4 s) \<and> s ! 4 = CHR ''-'' \<and> allDigits (take 2 (drop 5 s)) \<and>
     s ! 7 = CHR ''-'' \<and> allDigits (take 2 (drop 8 s)) \<and>
     (length s = 10 \<or> s ! 10 = CHR ''T'' \<and> list_all (\<lambda>c. code c \<notin> {10, 13}) (drop 11 s))"

definition isDayFirst :: "char \<Rightarrow> string \<Rightarrow> bool" where
  "isDayFirst sep s \<longleftrightarrow> length s = 10 \<and> allDigits (take 2 s) \<and> s ! 2 = sep \<and> allDigits (take 2 (drop 3 s)) \<and>
     s ! 5 = sep \<and> allDigits (drop 6 s)"

definition isYearFirst :: "char \<Rightarrow> string \<Rightarrow> bool" where
  "isYearFirst sep s \<longleftrightarrow> length s = 10 \<and> allDigits (take 4 s) \<and> s ! 4 = sep \<and> allDigits (take 2 (drop 5 s)) \<and>
     s ! 7 = sep \<and> allDigits (drop 8 s)"

definition datePart :: "string \<Rightarrow> nat \<Rightarrow> nat \<Rightarrow> int" where
  "datePart s i n = int (readNat (take n (drop i s)))"

definition parseFlexibleDate :: "(string \<Rightarrow> date option) \<Rightarrow> string \<Rightarrow> date parsed" where
  "parseFlexibleDate isoTime value =
     (let t = trim value in
      if t = [] then Inl ''Data lipsa.''
      else if isIsoPattern t \<and> isoDate isoTime t \<noteq> None then Inr (the (isoDate isoTime t))
      else if isDayFirst (CHR ''.'') t then parseDateFromParts (datePart t 6 4) (datePart t 3 2) (datePart t 0 2)
      else if isDayFirst (CHR ''/'') t then parseDateFromParts (datePart t 6 4) (datePart t 3 2) (datePart t 0 2)
      else if isYearFirst (CHR ''/'') t then parseDateFromParts (datePart t 0 4) (datePart t 5 2) (datePart t 8 2)
      else if length t = 8 \<and> allDigits t then parseDateFromParts (datePart t 0 4) (datePart t 4 2) (datePart t 6 2)
      else Inl ''Format data necunoscut'')"

definition parseYYMMDD :: "string \<Rightarrow> date parsed" where
  "parseYYMMDD value =
     (if \<not> (length value = 6 \<and> allDigits value) then Inl ''Format YYMMDD invalid'' else
      let yy = datePart value 0 2; month = datePart value 2 2; day = datePart value 4 2;
          year = (if 70 \<le> yy then 1900 + yy else 2000 + yy)
      in parseDateFromParts year month day)"

section \<open>\<open>Number(s)\<close>\<close>

definition isFinite :: "double \<Rightarrow> bool" where
  "isFinite x \<longleftrightarrow> \<bar>x\<bar> < 2 ^ 1024"

definition finiteOnly :: "double \<Rightarrow> double option" where
  "finiteOnly x = (if isFinite x then Some x else None)"

text \<open>The optional exponent of a decimal literal.\<close>

definition exponentPart :: "string \<Rightarrow> int option" where
  "exponentPart s = (case s of [] \<Rightarrow> Some 0
     | e # r \<Rightarrow>
         if e \<notin> {CHR ''e'', CHR ''E''} then None else
         let ds = (case r of c # q \<Rightarrow> if c \<in> {CHR ''+'', CHR ''-''} then q else r | [] \<Rightarrow> []) in
         if ds = [] \<or> \<not> allDigits ds then None
         else Some (if r \<noteq> [] \<and> hd r = CHR ''-'' then - int (readNat ds) else int (readNat ds)))"

definition powerOfTen :: "int \<Rightarrow> rat" where
  "powerOfTen e = (if 0 \<le> e then 10 ^ nat e else 1 / 10 ^ nat (- e))"

definition unsignedDecimal :: "string \<Rightarrow> double option" where
  "unsignedDecimal s =
     (let ip = takeWhile isDigit s; r = dropWhile isDigit s;
          dot = (r \<noteq> [] \<and> hd r = CHR ''.'');
          fp = (if dot then takeWhile isDigit (tl r) else []);
          q = (if dot then dropWhile isDigit (tl r) else r)
      in if ip = [] \<and> fp = [] then None else
         case exponentPart q of None \<Rightarrow> None
         | Some e \<Rightarrow> finiteOnly (fl (of_nat (readNat (ip @ fp)) * powerOfTen (e - int (length fp)))))"

definition radixDigit :: "char \<Rightarrow> nat" where
  "radixDigit c = (if isDigit c then digitVal c else if isUpper c then code c - 55 else if isLower c then code c - 87 else 99)"

definition radixNumber :: "nat \<Rightarrow> string \<Rightarrow> double option" where
  "radixNumber b s = (if s = [] \<or> \<not> list_all (\<lambda>c. radixDigit c < b) s then None
     else finiteOnly (fl (of_nat (foldl (\<lambda>a c. b * a + radixDigit c) 0 s))))"

text \<open>\<open>Number(s)\<close> of a string, \<open>None\<close> when it is not a finite number.\<close>

definition toNumberString :: "string \<Rightarrow> double option" where
  "toNumberString s =
     (case trim s of [] \<Rightarrow> Some 0
      | c # r \<Rightarrow>
          if c = CHR ''-'' then map_option uminus (unsignedDecimal r)
          else if c = CHR ''+'' then unsignedDecimal r
          else if c = CHR ''0'' \<and> r \<noteq> [] \<and> toLowerChar (hd r) = CHR ''x'' then radixNumber 16 (tl r)
          else if c = CHR ''0'' \<and> r \<noteq> [] \<and> toLowerChar (hd r) = CHR ''o'' then radixNumber 8 (tl r)
          else if c = CHR ''0'' \<and> r \<noteq> [] \<and> toLowerChar (hd r) = CHR ''b'' then radixNumber 2 (tl r)
          else unsignedDecimal (c # r))"

section \<open>\<open>parseDecimal\<close>\<close>

text \<open>The separators: what is left is read by \<open>Number\<close>.\<close>

definition normalizeSeparators :: "string \<Rightarrow> string" where
  "normalizeSeparators s =
     (case (lastIndexOf (CHR '','') s, lastIndexOf (CHR ''.'') s) of
        (Some lastComma, Some lastDot) \<Rightarrow>
          if lastDot < lastComma then replaceFirst (CHR '','') (CHR ''.'') (removeChar (CHR ''.'') s) else removeChar (CHR '','') s
      | (Some lastComma, None) \<Rightarrow>
          let decimals = length s - lastComma - 1 in
          if 1 \<le> decimals \<and> decimals \<le> 3 then replaceFirst (CHR '','') (CHR ''.'') (removeChar (CHR ''.'') s) else removeChar (CHR '','') s
      | (None, _) \<Rightarrow> removeChar (CHR '','') s)"

definition parseDecimal :: "string \<Rightarrow> double parsed" where
  "parseDecimal value =
     (let t = trim value in
      if t = [] then Inl ''Valoare numerica lipsa.'' else
      let paren = (startsWith t ''('' \<and> endsWith t '')'');
          n = removeSpaces (if paren then butlast (tl t) else t);
          minus = startsWith n ''-'';
          unsigned = (if startsWith n ''+'' \<or> minus then tl n else n)
      in case toNumberString (normalizeSeparators unsigned) of
           None \<Rightarrow> Inl ''Valoare numerica invalida''
         | Some parsed \<Rightarrow> Inr (if paren \<noteq> minus then - parsed else parsed))"

section \<open>\<open>String(n)\<close>\<close>

text \<open>\<open>Number::toString\<close>: the fewest digits \<open>s\<close> whose decimal \<open>s \<times> 10\<^sup>(\<^sup>n\<^sup>-\<^sup>k\<^sup>)\<close> is the number, where \<open>n\<close> is the
  position of the decimal point.\<close>

fun pointPosition :: "nat \<Rightarrow> int \<Rightarrow> rat \<Rightarrow> int" where
  "pointPosition 0 n x = n"
| "pointPosition (Suc fuel) n x = (if 1 \<le> x then pointPosition fuel (n + 1) (x / 10)
     else if x < 1 / 10 then pointPosition fuel (n - 1) (x * 10) else n)"

definition digitsOfLength :: "double \<Rightarrow> int \<Rightarrow> nat \<Rightarrow> nat option" where
  "digitsOfLength x n k =
     (let v = x * powerOfTen (int k - n); lo = \<lfloor>v\<rfloor>; hi = lo + 1;
          good = (\<lambda>s. fl (of_int s * powerOfTen (n - int k)) = x);
          cs = (if v - of_int lo \<le> of_int hi - v then [lo, hi] else [hi, lo])
      in map_option nat (find good cs))"

fun shortestDigits :: "nat \<Rightarrow> nat \<Rightarrow> double \<Rightarrow> int \<Rightarrow> nat \<times> nat" where
  "shortestDigits 0 k x n = (nat \<lfloor>x * powerOfTen (int k - n)\<rfloor>, k)"
| "shortestDigits (Suc fuel) k x n = (case digitsOfLength x n k of Some s \<Rightarrow> (s, k) | None \<Rightarrow> shortestDigits fuel (Suc k) x n)"

text \<open>A number just below a power of ten may be that power to the nearest double: then the point moves.\<close>

definition showPositive :: "double \<Rightarrow> string" where
  "showPositive x =
     (let n0 = pointPosition 700 0 x; (num, len) = shortestDigits 17 1 x n0;
          s = take len (showNat num); n = n0 + (if len < length (showNat num) then 1 else 0); k = int (length s) in
      if k \<le> n \<and> n \<le> 21 then s @ replicate (nat (n - k)) CHR ''0''
      else if 0 < n \<and> n \<le> 21 then take (nat n) s @ ''.'' @ drop (nat n) s
      else if -6 < n \<and> n \<le> 0 then ''0.'' @ replicate (nat (- n)) CHR ''0'' @ s
      else let e = (if 0 \<le> n - 1 then ''+'' else ''-'') @ showNat (nat \<bar>n - 1\<bar>) in
        take 1 s @ (if k = 1 then [] else ''.'' @ drop 1 s) @ ''e'' @ e)"

definition numberToString :: "double \<Rightarrow> string" where
  "numberToString x = (if x = 0 then ''0'' else if x < 0 then ''-'' @ showPositive (- x) else showPositive x)"

end
