(* ===== verification/Mt940.thy ===== *)
theory Mt940
  imports StatementText
begin

text \<open>
  MT940 statements (lib/bank-statement-file-parser.ts, \<open>parseMt940\<close>): the tags of the file, the balances
  \<open>:60F:\<close> and \<open>:62F:\<close>, the transactions \<open>:61:\<close> and their descriptions \<open>:86:\<close>.
\<close>

record parsed_line =
  pf_date :: date
  pf_amount :: double
  pf_description :: "string option"
  pf_reference :: "string option"
  pf_counterpartyName :: "string option"
  pf_counterpartyIban :: "string option"

record parsed_statement =
  ps_statementDate :: date
  ps_currency :: "string option"
  ps_openingBalance :: "double option"
  ps_closingBalance :: "double option"
  ps_lines :: "parsed_line list"

text \<open>\<open>parsedLines.reduce((max, line) => line.date > max ? line.date : max, parsedLines[0].date)\<close>.\<close>

definition maxDate :: "parsed_line list \<Rightarrow> date" where
  "maxDate ls = foldl (\<lambda>m l. if m < pf_date l then pf_date l else m) (pf_date (hd ls)) ls"

section \<open>Balances\<close>

text \<open>\<open>/^([CD])(\d{6})([A-Z]{3})([-0-9.,]+)$/\<close>.\<close>

definition isBalance :: "string \<Rightarrow> bool" where
  "isBalance s \<longleftrightarrow> 11 \<le> length s \<and> hd s \<in> {CHR ''C'', CHR ''D''} \<and> allDigits (take 6 (drop 1 s)) \<and>
     list_all isUpper (take 3 (drop 7 s)) \<and> list_all (\<lambda>c. isDigit c \<or> c \<in> {CHR ''-'', CHR ''.'', CHR '',''}) (drop 10 s)"

definition parseMtBalance :: "string \<Rightarrow> (double \<times> string \<times> date) parsed" where
  "parseMtBalance value =
     (let s = trim value in
      if \<not> isBalance s then Inl ''Format sold MT940 invalid'' else
      bindR (parseYYMMDD (take 6 (drop 1 s))) (\<lambda>date.
      bindR (parseDecimal (drop 10 s)) (\<lambda>x.
      let amount = round2 (if hd s = CHR ''D'' then - \<bar>x\<bar> else \<bar>x\<bar>)
      in Inr (amount, toUpperCase (take 3 (drop 7 s)), date))))"

section \<open>Transactions\<close>

definition isAmountChar :: "char \<Rightarrow> bool" where
  "isAmountChar c \<longleftrightarrow> isDigit c \<or> c \<in> {CHR ''.'', CHR '',''}"

text \<open>What follows the first \<open>//\<close>, or everything.\<close>

fun afterSlashes :: "string \<Rightarrow> string option" where
  "afterSlashes (a # b # s) = (if a = CHR ''/'' \<and> b = CHR ''/'' then Some s else afterSlashes (b # s))"
| "afterSlashes _ = None"

text \<open>The optional transaction type: \<open>/^[A-Z][A-Z0-9]{3}/\<close>.\<close>

definition isTypeCode :: "string \<Rightarrow> bool" where
  "isTypeCode s \<longleftrightarrow> 4 \<le> length s \<and> isUpper (hd s) \<and> list_all (\<lambda>c. isUpper c \<or> isDigit c) (take 3 (tl s))"

definition parseMt61Line :: "string \<Rightarrow> (date \<times> double \<times> string option) parsed" where
  "parseMt61Line value =
     (let compact = removeSpaces value in
      if length compact < 10 then Inl ''Linie :61: MT940 invalida'' else
      bindR (parseYYMMDD (take 6 compact)) (\<lambda>date.
      let s1 = drop 6 compact;
          s2 = (if 4 \<le> length s1 \<and> allDigits (take 4 s1) then drop 4 s1 else s1);
          reverse = startsWith s2 ''R'';
          s3 = (if reverse then tl s2 else s2)
      in if s3 = [] \<or> hd s3 \<notin> {CHR ''C'', CHR ''D''} then Inl ''Indicator credit/debit invalid'' else
      let s4 = tl s3;
          s5 = (if s4 \<noteq> [] \<and> isUpper (hd s4) then tl s4 else s4);
          amountRaw = takeWhile isAmountChar s5;
          s6 = dropWhile isAmountChar s5
      in if amountRaw = [] then Inl ''Nu s-a putut extrage suma'' else
      bindR (parseDecimal amountRaw) (\<lambda>x.
      let a1 = (if hd s3 = CHR ''D'' then - \<bar>x\<bar> else \<bar>x\<bar>);
          a2 = (if reverse then - a1 else a1);
          s7 = (if isTypeCode s6 then drop 4 s6 else s6)
      in Inr (date, round2 a2, normalizeWhitespace (Some (orElse (afterSlashes s7) s7))))))"

section \<open>Descriptions\<close>

text \<open>\<open>value.replace(/\?\d{2}/g, ' ').replace(/[|]/g, ' ')\<close>.\<close>

fun dropSubfields :: "string \<Rightarrow> string" where
  "dropSubfields (q # a # b # s) =
     (if q = CHR ''?'' \<and> isDigit a \<and> isDigit b then CHR '' '' # dropSubfields s else q # dropSubfields (a # b # s))"
| "dropSubfields s = s"

definition normalizeMt86Description :: "string \<Rightarrow> string option" where
  "normalizeMt86Description value =
     normalizeWhitespace (Some (map (\<lambda>c. if c = CHR ''|'' then CHR '' '' else c) (dropSubfields value)))"

text \<open>The first match of \<open>/(?:\/NAME\/|NUME[:=]|BENEFICIAR[:=])([^/|?]+)/i\<close>: the captured group.\<close>

definition nameMarkers :: "string list" where
  "nameMarkers = [''/NAME/'', ''NUME:'', ''NUME='', ''BENEFICIAR:'', ''BENEFICIAR='']"

definition nameAt :: "string \<Rightarrow> string option" where
  "nameAt s = (case find (\<lambda>m. startsWith (toUpperCase s) m) nameMarkers of None \<Rightarrow> None
     | Some m \<Rightarrow> nonEmpty (takeWhile (\<lambda>c. c \<notin> {CHR ''/'', CHR ''|'', CHR ''?''}) (drop (length m) s)))"

fun firstMatch :: "(string \<Rightarrow> string option) \<Rightarrow> string \<Rightarrow> string option" where
  "firstMatch f [] = f []"
| "firstMatch f (c # s) = (case f (c # s) of Some m \<Rightarrow> Some m | None \<Rightarrow> firstMatch f s)"

text \<open>\<open>/(?:IBAN[:=\/ ]+)([A-Z0-9 ]{15,36})/i\<close>: both quantifiers are greedy and share the space, so the separators
  give back spaces until fifteen characters are left for the group.\<close>

definition isIbanSeparator :: "char \<Rightarrow> bool" where
  "isIbanSeparator c \<longleftrightarrow> c \<in> {CHR '':'', CHR ''='', CHR ''/'', CHR '' ''}"

definition ibanGroup :: "string \<Rightarrow> string" where
  "ibanGroup s = take 36 (takeWhile (\<lambda>c. isUpper (toUpperChar c) \<or> isDigit c \<or> c = CHR '' '') s)"

definition ibanAt :: "string \<Rightarrow> string option" where
  "ibanAt s =
     (if \<not> startsWith (toUpperCase s) ''IBAN'' then None else
      let r = drop 4 s; seps = length (takeWhile isIbanSeparator r) in
      map_option (\<lambda>k. ibanGroup (drop k r)) (find (\<lambda>k. 15 \<le> length (ibanGroup (drop k r))) (rev [1..<seps + 1])))"

definition parseMt86Counterparty :: "string \<Rightarrow> (string option \<times> string option) parsed" where
  "parseMt86Counterparty value =
     bindR (normalizeIban (firstMatch ibanAt value)) (\<lambda>iban.
     Inr (normalizeWhitespace (firstMatch nameAt value), iban))"

section \<open>Tags\<close>

type_synonym mt_tag = "string \<times> string"

text \<open>\<open>/^:(\d{2}[A-Z]?):(.*)$/\<close>.\<close>

definition matchTag :: "string \<Rightarrow> mt_tag option" where
  "matchTag s =
     (if 4 \<le> length s \<and> hd s = CHR '':'' \<and> allDigits (take 2 (drop 1 s)) then
        if s ! 3 = CHR '':'' then Some (take 2 (drop 1 s), drop 4 s)
        else if 5 \<le> length s \<and> isUpper (s ! 3) \<and> s ! 4 = CHR '':'' then Some (take 3 (drop 1 s), drop 5 s)
        else None
      else None)"

definition newline :: string where
  "newline = [char_of (10 :: nat)]"

text \<open>The loop over the lines: the tag that is open, and the tags collected so far.\<close>

fun scanTags :: "mt_tag option \<Rightarrow> mt_tag list \<Rightarrow> string list \<Rightarrow> mt_tag list" where
  "scanTags cur tags [] = (case cur of None \<Rightarrow> tags | Some t \<Rightarrow> tags @ [t])"
| "scanTags cur tags (line # ls) =
     (let t = trimEnd line in
      if t = [] then scanTags cur tags ls else
      case matchTag t of
        Some m \<Rightarrow> scanTags (Some m) (case cur of None \<Rightarrow> tags | Some c \<Rightarrow> tags @ [c]) ls
      | None \<Rightarrow> (case cur of None \<Rightarrow> scanTags cur tags ls
          | Some (n, v) \<Rightarrow> scanTags (Some (n, trim (v @ newline @ t))) tags ls))"

section \<open>The statement\<close>

record mt_state =
  mt_opening :: "double option"
  mt_closing :: "double option"
  mt_currency :: "string option"
  mt_date :: "date option"
  mt_lines :: "parsed_line list"

definition mtStart :: mt_state where
  "mtStart = \<lparr> mt_opening = None, mt_closing = None, mt_currency = None, mt_date = None, mt_lines = [] \<rparr>"

fun mtLoop :: "mt_tag list \<Rightarrow> mt_state \<Rightarrow> mt_state parsed" where
  "mtLoop [] st = Inr st"
| "mtLoop ((tag, v) # tags) st =
     (if tag = ''60F'' \<or> tag = ''60M'' then
        bindR (parseMtBalance v) (\<lambda>(amount, currency, date).
        mtLoop tags (st\<lparr>mt_opening := Some amount, mt_currency := Some currency, mt_date := Some (orElse (mt_date st) date)\<rparr>))
      else if tag = ''62F'' \<or> tag = ''62M'' then
        bindR (parseMtBalance v) (\<lambda>(amount, currency, date).
        mtLoop tags (st\<lparr>mt_closing := Some amount, mt_currency := Some currency, mt_date := Some date\<rparr>))
      else if tag \<noteq> ''61'' then mtLoop tags st
      else bindR (parseMt61Line v) (\<lambda>(date, amount, reference).
        let next86 = (case tags of [] \<Rightarrow> None | (n, w) # _ \<Rightarrow> if n = ''86'' then Some w else None) in
        bindR (case next86 of None \<Rightarrow> Inr (None, None) | Some w \<Rightarrow> parseMt86Counterparty w) (\<lambda>(name, iban).
        mtLoop tags (st\<lparr>mt_lines := mt_lines st @ [\<lparr> pf_date = date, pf_amount = amount,
          pf_description = Option.bind next86 normalizeMt86Description, pf_reference = reference,
          pf_counterpartyName = name, pf_counterpartyIban = iban \<rparr>]\<rparr>))))"

definition mtLinesOf :: "string \<Rightarrow> string list" where
  "mtLinesOf content = split (char_of (10 :: nat)) (removeChar (char_of (13 :: nat)) content)"

definition parseMt940 :: "string \<Rightarrow> parsed_statement parsed" where
  "parseMt940 content =
     (let tags = scanTags None [] (mtLinesOf content) in
      if tags = [] then Inl ''Fisierul MT940 nu contine tag-uri valide.'' else
      bindR (mtLoop tags mtStart) (\<lambda>st.
      if mt_lines st = [] then Inl ''Fisierul MT940 nu contine tranzactii (:61:).'' else
      Inr \<lparr> ps_statementDate = orElse (mt_date st) (maxDate (mt_lines st)), ps_currency = mt_currency st,
        ps_openingBalance = mt_opening st, ps_closingBalance = mt_closing st, ps_lines = mt_lines st \<rparr>))"

end
