(* ===== verification/CsvStatements.thy ===== *)
theory CsvStatements
  imports Mt940
begin

text \<open>
  CSV statements (lib/bank-statement-file-parser.ts, \<open>parseCsvRows\<close> and \<open>parseCsv\<close>): the rows of the file
  with quoted fields, the delimiter and the columns recognised by their header, and the lines.
\<close>

section \<open>Rows\<close>

definition quote :: char where
  "quote = char_of (34 :: nat)"

definition isBlank :: "string \<Rightarrow> bool" where
  "isBlank s \<longleftrightarrow> trim s = []"

definition pushRow :: "string list \<Rightarrow> string list list \<Rightarrow> string list list" where
  "pushRow row rows = (if list_ex (\<lambda>cell. \<not> isBlank cell) row then rows @ [row] else rows)"

text \<open>The loop over the characters: whether a quote is open, the field, the row and the rows so far.\<close>

function csvScan :: "string \<Rightarrow> bool \<Rightarrow> string \<Rightarrow> string list \<Rightarrow> string list list \<Rightarrow> string \<Rightarrow> string list list" where
  "csvScan delimiter inQuotes field row rows [] = pushRow (row @ [field]) rows"
| "csvScan delimiter inQuotes field row rows (c # s) =
     (if c = quote then
        if inQuotes \<and> s \<noteq> [] \<and> hd s = quote then csvScan delimiter inQuotes (field @ [quote]) row rows (tl s)
        else csvScan delimiter (\<not> inQuotes) field row rows s
      else if [c] = delimiter \<and> \<not> inQuotes then csvScan delimiter inQuotes [] (row @ [field]) rows s
      else if (code c = 10 \<or> code c = 13) \<and> \<not> inQuotes then
        csvScan delimiter inQuotes [] [] (pushRow (row @ [field]) rows)
          (if code c = 13 \<and> s \<noteq> [] \<and> code (hd s) = 10 then tl s else s)
      else csvScan delimiter inQuotes (field @ [c]) row rows s)"
  by pat_completeness auto
termination by (relation "measure (\<lambda>(_, _, _, _, _, s). length s)") auto

definition parseCsvRows :: "string \<Rightarrow> string \<Rightarrow> string list list" where
  "parseCsvRows content delimiter = csvScan delimiter False [] [] [] content"

section \<open>Header\<close>

text \<open>\<open>normalize('NFD')\<close> and the removal of diacritics take the accented letters below 256 to their base
  letter.\<close>

definition baseLetter :: "char \<Rightarrow> char" where
  "baseLetter c =
     (let n = code c; m = (if 192 \<le> n \<and> n \<le> 221 then n + 32 else n) in
      if 224 \<le> m \<and> m \<le> 229 then CHR ''a'' else if m = 231 then CHR ''c'' else if 232 \<le> m \<and> m \<le> 235 then CHR ''e''
      else if 236 \<le> m \<and> m \<le> 239 then CHR ''i'' else if m = 241 then CHR ''n'' else if 242 \<le> m \<and> m \<le> 246 then CHR ''o''
      else if 249 \<le> m \<and> m \<le> 252 then CHR ''u'' else if m = 253 \<or> m = 255 then CHR ''y'' else c)"

definition normalizeHeader :: "string \<Rightarrow> string" where
  "normalizeHeader header = filter (\<lambda>c. isLower c \<or> isDigit c) (map baseLetter (toLowerCase (trim header)))"

definition occurrences :: "char \<Rightarrow> string \<Rightarrow> nat" where
  "occurrences c s = length (filter (\<lambda>x. x = c) s)"

definition firstLine :: "string \<Rightarrow> string" where
  "firstLine content =
     (let l = takeWhile (\<lambda>c. code c \<noteq> 10) content in
      if length l < length content \<and> l \<noteq> [] \<and> code (last l) = 13 then butlast l else l)"

text \<open>The candidates in order, the first with the most occurrences; the comma when there is none.\<close>

definition detectCsvDelimiter :: "string \<Rightarrow> string" where
  "detectCsvDelimiter content =
     (let l = firstLine content; comma = occurrences (CHR '','') l; semi = occurrences (CHR '';'') l;
          tab = occurrences (char_of (9 :: nat)) l
      in if semi \<le> comma \<and> tab \<le> comma then '','' else if tab \<le> semi then '';'' else [char_of (9 :: nat)])"

datatype csv_column = ColDate | ColAmount | ColDescription | ColReference | ColCounterpartyName | ColCounterpartyIban | ColCurrency

fun headerAliases :: "csv_column \<Rightarrow> string list" where
  "headerAliases ColDate = [''date'', ''bookingdate'', ''valuedate'', ''transactiondate'', ''data'', ''datatranzactie'', ''dataoperatie'']"
| "headerAliases ColAmount = [''amount'', ''sum'', ''suma'', ''valoare'', ''transactionamount'']"
| "headerAliases ColDescription = [''description'', ''detalii'', ''details'', ''narrative'', ''explanation'']"
| "headerAliases ColReference = [''reference'', ''ref'', ''document'', ''documentnumber'', ''paymentreference'']"
| "headerAliases ColCounterpartyName =
     [''counterparty'', ''counterpartyname'', ''partener'', ''beneficiary'', ''payer'', ''name'', ''partnername'']"
| "headerAliases ColCounterpartyIban = [''counterpartyiban'', ''iban'', ''beneficiaryiban'', ''payeriban'', ''partneriban'']"
| "headerAliases ColCurrency = [''currency'', ''ccy'', ''moneda'']"

fun findIndex :: "('a \<Rightarrow> bool) \<Rightarrow> 'a list \<Rightarrow> nat option" where
  "findIndex P [] = None"
| "findIndex P (x # xs) = (if P x then Some 0 else map_option Suc (findIndex P xs))"

definition findColumn :: "string list \<Rightarrow> csv_column \<Rightarrow> nat option" where
  "findColumn headers c = findIndex (\<lambda>h. h \<in> set (headerAliases c)) headers"

text \<open>\<open>row[index]\<close>, undefined outside the row or without the column.\<close>

definition cell :: "nat option \<Rightarrow> string list \<Rightarrow> string option" where
  "cell i row = (case i of None \<Rightarrow> None | Some k \<Rightarrow> if k < length row then Some (row ! k) else None)"

section \<open>Lines\<close>

definition isCurrencyCode :: "string \<Rightarrow> bool" where
  "isCurrencyCode s \<longleftrightarrow> length s = 3 \<and> list_all isUpper s"

text \<open>The loop over the data rows: the currency discovered and the lines so far.\<close>

fun csvLoop :: "(string \<Rightarrow> date option) \<Rightarrow> (csv_column \<Rightarrow> nat option) \<Rightarrow> string list list \<Rightarrow> string option \<Rightarrow>
   parsed_line list \<Rightarrow> (string option \<times> parsed_line list) parsed" where
  "csvLoop isoTime col [] currency ls = Inr (currency, ls)"
| "csvLoop isoTime col (row # rows) currency ls =
     (let dateRaw = map_option trim (cell (col ColDate) row); amountRaw = map_option trim (cell (col ColAmount) row) in
      if dateRaw \<in> {None, Some []} \<or> amountRaw \<in> {None, Some []} then csvLoop isoTime col rows currency ls else
      bindR (parseFlexibleDate isoTime (the dateRaw)) (\<lambda>date.
      bindR (parseDecimal (the amountRaw)) (\<lambda>x.
      let amount = round2 x in
      if amount = 0 then csvLoop isoTime col rows currency ls else
      let currencyRaw = Option.bind (map_option (toUpperCase \<circ> trim) (cell (col ColCurrency) row)) nonEmpty in
      if currencyRaw \<noteq> None \<and> \<not> isCurrencyCode (the currencyRaw) then Inl ''Moneda invalida'' else
      bindR (normalizeIban (cell (col ColCounterpartyIban) row)) (\<lambda>iban.
      csvLoop isoTime col rows (case currency of None \<Rightarrow> currencyRaw | Some c \<Rightarrow> Some c)
        (ls @ [\<lparr> pf_date = date, pf_amount = amount, pf_description = normalizeWhitespace (cell (col ColDescription) row),
           pf_reference = normalizeWhitespace (cell (col ColReference) row),
           pf_counterpartyName = normalizeWhitespace (cell (col ColCounterpartyName) row),
           pf_counterpartyIban = iban \<rparr>])))))"

definition parseCsv :: "(string \<Rightarrow> date option) \<Rightarrow> string \<Rightarrow> string option \<Rightarrow> parsed_statement parsed" where
  "parseCsv isoTime content delimiter =
     (let rows = parseCsvRows content (orElse delimiter (detectCsvDelimiter content)) in
      if length rows < 2 then Inl ''CSV invalid: fisierul trebuie sa contina header si cel putin o linie.'' else
      let col = findColumn (map normalizeHeader (hd rows)) in
      if col ColDate = None \<or> col ColAmount = None then Inl ''CSV invalid: coloanele obligatorii date si amount lipsesc.'' else
      bindR (csvLoop isoTime col (tl rows) None []) (\<lambda>(currency, ls).
      if ls = [] then Inl ''CSV invalid: nu exista tranzactii mapabile.'' else
      Inr \<lparr> ps_statementDate = maxDate ls, ps_currency = currency, ps_openingBalance = None, ps_closingBalance = None,
        ps_lines = ls \<rparr>))"

end
