(* ===== verification/JsonValues.thy ===== *)
theory JsonValues
  imports StatementText
begin

text \<open>
  JavaScript values as \<open>JSON.parse\<close> and the XML parser return them, and the tests the source makes on
  them. Used by the CAMT.053 reader and by the Open Banking connector.
\<close>

datatype json = JNull | JBool bool | JNumber double | JString string | JArray "json list" | JObject "(string \<times> json) list"

text \<open>\<open>undefined\<close> is \<open>None\<close>. \<open>x ?? y\<close> takes \<open>y\<close> when \<open>x\<close> is null or undefined.\<close>

definition nullish :: "json option \<Rightarrow> bool" where
  "nullish v \<longleftrightarrow> v = None \<or> v = Some JNull"

definition asArray :: "json option \<Rightarrow> json list" where
  "asArray v = (case v of None \<Rightarrow> [] | Some JNull \<Rightarrow> [] | Some (JArray xs) \<Rightarrow> xs | Some x \<Rightarrow> [x])"

text \<open>What a condition takes for false.\<close>

definition falsy :: "json option \<Rightarrow> bool" where
  "falsy v \<longleftrightarrow> v \<in> {None, Some JNull, Some (JBool False), Some (JNumber 0), Some (JString [])}"

text \<open>\<open>a ?? b\<close>.\<close>

definition elseText :: "'a option \<Rightarrow> 'a option \<Rightarrow> 'a option" where
  "elseText a b = (case a of None \<Rightarrow> b | Some x \<Rightarrow> Some x)"

end
