(* ===== verification/Camt053.thy ===== *)
theory Camt053
  imports Mt940 JsonValues
begin

text \<open>
  CAMT.053 statements (lib/bank-statement-file-parser.ts, \<open>parseCamt053\<close>). The XML parser is a package
  that is not part of the source: a parameter, from the text to the JavaScript value it returns.
\<close>

section \<open>Reading nodes\<close>

text \<open>A key of an object, under its own name or with a namespace prefix.\<close>

definition readNode :: "json option \<Rightarrow> string \<Rightarrow> json option" where
  "readNode node key = (case node of
      Some (JObject members) \<Rightarrow> (case map_of members key of Some v \<Rightarrow> Some v
        | None \<Rightarrow> map_option snd (find (\<lambda>(k, v). endsWith k ('':'' @ key)) members))
    | _ \<Rightarrow> None)"

definition scalarText :: "json \<Rightarrow> string option" where
  "scalarText v = (case v of JString s \<Rightarrow> Some s | JNumber x \<Rightarrow> Some (numberToString x)
     | JBool b \<Rightarrow> Some (if b then ''true'' else ''false'') | _ \<Rightarrow> None)"

definition trimmedText :: "json option \<Rightarrow> string option" where
  "trimmedText v = Option.bind (Option.bind v scalarText) (\<lambda>s. nonEmpty (trim s))"

definition readText :: "json option \<Rightarrow> string option" where
  "readText node = (case node of
      Some (JObject members) \<Rightarrow>
        (case List.map_filter (\<lambda>key. trimmedText (map_of members key)) [''#text'', ''_text'', ''__text''] of [] \<Rightarrow> None | t # _ \<Rightarrow> Some t)
    | _ \<Rightarrow> trimmedText node)"

definition readAmountWithCurrency :: "json option \<Rightarrow> (double \<times> string option) parsed" where
  "readAmountWithCurrency node = (case node of
      None \<Rightarrow> Inl ''Nodul de suma lipseste.''
    | Some JNull \<Rightarrow> Inl ''Nodul de suma lipseste.''
    | Some v \<Rightarrow> (case scalarText v of
          Some s \<Rightarrow> bindR (parseDecimal s) (\<lambda>x. Inr (x, None))
        | None \<Rightarrow>
            let currency = (case v of JObject members \<Rightarrow>
                  (case map_of members ''@_Ccy'' of Some (JString c) \<Rightarrow> Some (toUpperCase c) | _ \<Rightarrow> None) | _ \<Rightarrow> None)
            in (case readText node of
                  None \<Rightarrow> Inl ''Nu s-a putut extrage valoarea numerica din nodul de suma.''
                | Some s \<Rightarrow> bindR (parseDecimal s) (\<lambda>x. Inr (x, currency)))))"

section \<open>Balances\<close>

definition signedAmount :: "json option \<Rightarrow> double \<Rightarrow> double" where
  "signedAmount node x =
     (if map_option toUpperCase (readText (readNode node ''CdtDbtInd'')) = Some ''DBIT'' then - \<bar>x\<bar> else \<bar>x\<bar>)"

fun camtBalances :: "json list \<Rightarrow> string option \<Rightarrow> double option \<Rightarrow> double option \<Rightarrow>
   (string option \<times> double option \<times> double option) parsed" where
  "camtBalances [] currency opening closing = Inr (currency, opening, closing)"
| "camtBalances (b # bs) currency opening closing =
     (let num = map_option toUpperCase (readText (readNode (readNode (readNode (Some b) ''Tp'') ''CdOrPrtry'') ''Cd''));
          amountNode = readNode (Some b) ''Amt''
      in if falsy amountNode then camtBalances bs currency opening closing else
      bindR (readAmountWithCurrency amountNode) (\<lambda>(x, c).
      let s = signedAmount (Some b) x; currency' = elseText currency c in
      if num = Some ''OPBD'' \<or> num = Some ''ITBD'' then camtBalances bs currency' (Some (round2 s)) closing
      else if num = Some ''CLBD'' then camtBalances bs currency' opening (Some (round2 s))
      else camtBalances bs currency' opening closing))"

section \<open>Entries\<close>

definition bookingDateRaw :: "json option \<Rightarrow> string option" where
  "bookingDateRaw e =
     elseText (readText (readNode (readNode e ''BookgDt'') ''Dt''))
     (elseText (readText (readNode (readNode e ''BookgDt'') ''DtTm''))
     (elseText (readText (readNode (readNode e ''ValDt'') ''Dt''))
       (readText (readNode (readNode e ''ValDt'') ''DtTm''))))"

definition firstTxOf :: "json option \<Rightarrow> json option" where
  "firstTxOf e = (case concat (map (\<lambda>d. asArray (readNode (Some d) ''TxDtls'')) (asArray (readNode e ''NtryDtls''))) of
     [] \<Rightarrow> None | t # _ \<Rightarrow> Some t)"

definition entryReference :: "json option \<Rightarrow> string option" where
  "entryReference e =
     (let tx = firstTxOf e in
      elseText (readText (readNode e ''NtryRef''))
      (elseText (readText (readNode (readNode tx ''Refs'') ''EndToEndId''))
      (elseText (readText (readNode (readNode tx ''Refs'') ''AcctSvcrRef''))
        (readText (readNode (readNode tx ''Refs'') ''TxId'')))))"

definition entryDescription :: "json option \<Rightarrow> string option" where
  "entryDescription e =
     (let remittanceText = join '' | '' (List.map_filter (\<lambda>p. readText (Some p)) (asArray (readNode (readNode (firstTxOf e) ''RmtInf'') ''Ustrd'')))
      in normalizeWhitespace (elseText (readText (readNode e ''AddtlNtryInf'')) (Some remittanceText)))"

definition entryCounterparty :: "json option \<Rightarrow> double \<Rightarrow> string option \<times> string option" where
  "entryCounterparty e amount =
     (let tx = firstTxOf e; parties = readNode tx ''RltdPties'';
          accounts = (if nullish (readNode tx ''RltdAgts'') then readNode tx ''RltdPties'' else readNode tx ''RltdAgts'');
          iban = (\<lambda>node acct. readText (readNode (readNode (readNode node acct) ''Id'') ''IBAN''));
          debtorName = readText (readNode (readNode parties ''Dbtr'') ''Nm'');
          creditorName = readText (readNode (readNode parties ''Cdtr'') ''Nm'');
          debtorIban = iban parties ''DbtrAcct''; creditorIban = iban parties ''CdtrAcct''; fallbackIban = iban accounts ''CdtrAcct''
      in if 0 < amount then (elseText debtorName creditorName, elseText debtorIban creditorIban)
         else (elseText creditorName debtorName, elseText creditorIban (elseText debtorIban fallbackIban)))"

fun camtEntries :: "(string \<Rightarrow> date option) \<Rightarrow> json list \<Rightarrow> string option \<Rightarrow> parsed_line list \<Rightarrow>
   (string option \<times> parsed_line list) parsed" where
  "camtEntries isoTime [] currency ls = Inr (currency, ls)"
| "camtEntries isoTime (e # es) currency ls =
     (let amountNode = readNode (Some e) ''Amt'' in
      if falsy amountNode then camtEntries isoTime es currency ls else
      bindR (readAmountWithCurrency amountNode) (\<lambda>(x, c).
      let amount = round2 (signedAmount (Some e) x); currency' = elseText currency c in
      if amount = 0 then camtEntries isoTime es currency' ls else
      case bookingDateRaw (Some e) of None \<Rightarrow> Inl ''CAMT.053 contine tranzactie fara BookgDt/ValDt.''
      | Some raw \<Rightarrow>
      bindR (parseFlexibleDate isoTime raw) (\<lambda>date.
      let (name, ibanRaw) = entryCounterparty (Some e) amount in
      bindR (normalizeIban ibanRaw) (\<lambda>iban.
      camtEntries isoTime es currency' (ls @ [\<lparr> pf_date = date, pf_amount = amount, pf_description = entryDescription (Some e),
        pf_reference = normalizeWhitespace (entryReference (Some e)), pf_counterpartyName = normalizeWhitespace name,
        pf_counterpartyIban = iban \<rparr>])))))"

definition parseCamt053 :: "(string \<Rightarrow> json) \<Rightarrow> (string \<Rightarrow> date option) \<Rightarrow> string \<Rightarrow> parsed_statement parsed" where
  "parseCamt053 xmlParse isoTime content =
     (let parsedXml = xmlParse content;
          doc = (if nullish (readNode (Some parsedXml) ''Document'') then Some parsedXml else readNode (Some parsedXml) ''Document'');
          stmt = (case asArray (readNode (readNode doc ''BkToCstmrStmt'') ''Stmt'') of [] \<Rightarrow> None | s # _ \<Rightarrow> Some s)
      in if falsy stmt then Inl ''Fisier CAMT.053 invalid: nodul Stmt lipseste.'' else
      bindR (camtBalances (asArray (readNode stmt ''Bal'')) None None None) (\<lambda>(currency, opening, closing).
      let ns = asArray (readNode stmt ''Ntry'') in
      if ns = [] then Inl ''Fisierul CAMT.053 nu contine tranzactii (Ntry).'' else
      bindR (camtEntries isoTime ns currency []) (\<lambda>(currency, ls).
      if ls = [] then Inl ''Fisierul CAMT.053 nu contine tranzactii mapabile.'' else
      Inr \<lparr> ps_statementDate = maxDate ls, ps_currency = currency, ps_openingBalance = opening, ps_closingBalance = closing,
        ps_lines = ls \<rparr>)))"

end
