(* ===== verification/BankReconciliation.thy ===== *)
theory BankReconciliation
  imports PurchaseReports
begin

text \<open>
  Bank reconciliation (routes/bank-reconciliation.ts): importing statements, suggesting the open
  invoice a line pays, reconciling a line with a customer or a supplier invoice, ignoring a line.
  The tables extend those of purchases and sales. A request to reconcile reads the line and the
  period lock before its transaction opens, so it is two definitions, \<open>reconcilePreview\<close> and
  \<open>reconcileCommit\<close>; other requests may run between them.
\<close>

section \<open>Tables\<close>

datatype BankStatementLineStatus = UNMATCHED | MATCHED | IGNORED
datatype TargetType = INVOICE | SUPPLIER_INVOICE

record bank_statement =
  bs_id :: id
  bs_companyId :: id
  bs_accountCode :: string
  bs_statementDate :: date
  bs_currency :: string
  bs_externalAccountId :: "string option"
  bs_openingBalance :: "int option"
  bs_closingBalance :: "int option"
  bs_sourceLabel :: "string option"
  bs_uploadedById :: id

record bank_line =
  bl_id :: id
  bl_companyId :: id
  bl_statementId :: id
  bl_externalTransactionId :: "string option"
  bl_dedupeKey :: "string option"
  bl_date :: date
  bl_amount :: int
  bl_description :: "string option"
  bl_reference :: "string option"
  bl_counterpartyName :: "string option"
  bl_counterpartyIban :: "string option"
  bl_status :: BankStatementLineStatus
  bl_matchedType :: "TargetType option"
  bl_matchedRecordId :: "id option"
  bl_matchedAt :: "date option"

record banking = purchasing +
  bankStatements :: "bank_statement list"
  bankLines :: "bank_line list"

definition insertBankStatement :: "bank_statement \<Rightarrow> 'z banking_scheme \<Rightarrow> http_error + 'z banking_scheme" where
  "insertBankStatement s db =
     (if list_ex (\<lambda>t. bs_id t = bs_id s) (bankStatements db) then Inl uniqueViolation
      else Inr (db\<lparr>bankStatements := bankStatements db @ [s]\<rparr>))"

text \<open>The primary key and the unique index \<open>[companyId, dedupeKey]\<close>.\<close>

definition bankLineClash :: "bank_line \<Rightarrow> bank_line \<Rightarrow> bool" where
  "bankLineClash x y \<longleftrightarrow> bl_id x = bl_id y \<or>
     (bl_companyId x = bl_companyId y \<and> sameKey (bl_dedupeKey x) (bl_dedupeKey y))"

definition insertBankLine :: "bank_line \<Rightarrow> 'z banking_scheme \<Rightarrow> http_error + 'z banking_scheme" where
  "insertBankLine l db =
     (if list_ex (bankLineClash l) (bankLines db) then Inl uniqueViolation
      else Inr (db\<lparr>bankLines := bankLines db @ [l]\<rparr>))"

fun insertBankLines :: "bank_line list \<Rightarrow> 'z banking_scheme \<Rightarrow> http_error + 'z banking_scheme" where
  "insertBankLines [] db = Inr db"
| "insertBankLines (l # ls) db = bindR (insertBankLine l db) (insertBankLines ls)"

definition findBankLine :: "id \<Rightarrow> id \<Rightarrow> 'z banking_scheme \<Rightarrow> bank_line option" where
  "findBankLine c i db = find (\<lambda>l. bl_id l = i \<and> bl_companyId l = c) (bankLines db)"

definition updateBankLine :: "id \<Rightarrow> (bank_line \<Rightarrow> bank_line) \<Rightarrow> 'z banking_scheme \<Rightarrow> 'z banking_scheme" where
  "updateBankLine i f db = db\<lparr>bankLines := updateWhere (\<lambda>l. bl_id l = i) f (bankLines db)\<rparr>"

section \<open>Importing a statement\<close>

record statement_line_req =
  sl_date :: date
  sl_amount :: double
  sl_description :: "string option"
  sl_reference :: "string option"
  sl_counterpartyName :: "string option"
  sl_counterpartyIban :: "string option"

record import_req =
  im_accountCode :: string
  im_statementDate :: date
  im_currency :: string
  im_openingBalance :: "double option"
  im_closingBalance :: "double option"
  im_sourceLabel :: "string option"
  im_reason :: "string option"
  im_lines :: "statement_line_req list"

definition importStatementSchema :: "import_req \<Rightarrow> bool" where
  "importStatementSchema r \<longleftrightarrow> im_accountCode r \<noteq> [] \<and> 1 \<le> length (im_lines r) \<and> length (im_lines r) \<le> 5000 \<and>
     list_all (\<lambda>l. sl_amount l \<noteq> 0) (im_lines r)"

definition importedLine :: "env \<Rightarrow> actor \<Rightarrow> id \<Rightarrow> nat \<Rightarrow> statement_line_req \<Rightarrow> bank_line" where
  "importedLine env u statementId k l =
     \<lparr> bl_id = uuid env (k + 1), bl_companyId = act_company u, bl_statementId = statementId,
       bl_externalTransactionId = None, bl_dedupeKey = None, bl_date = sl_date l,
       bl_amount = storeDec env 100 (round2 (sl_amount l)), bl_description = sl_description l,
       bl_reference = sl_reference l, bl_counterpartyName = sl_counterpartyName l,
       bl_counterpartyIban = sl_counterpartyIban l, bl_status = UNMATCHED, bl_matchedType = None,
       bl_matchedRecordId = None, bl_matchedAt = None \<rparr>"

definition importBankStatement ::
  "env \<Rightarrow> actor \<Rightarrow> import_req \<Rightarrow> 'z banking_scheme \<Rightarrow> http_error + (bank_statement \<times> 'z banking_scheme)" where
  "importBankStatement env u r db =
     (if \<not> importStatementSchema r then Inl (badRequest ''Date invalide pentru import extras bancar.'') else
      case findAccount (act_company u) (im_accountCode r) db of
        None \<Rightarrow> Inl (badRequest ''Contul bancar specificat nu exista in compania activa.'')
      | Some _ \<Rightarrow>
          let created = \<lparr> bs_id = uuid env 0, bs_companyId = act_company u, bs_accountCode = im_accountCode r,
                bs_statementDate = im_statementDate r, bs_currency = im_currency r, bs_externalAccountId = None,
                bs_openingBalance = map_option (storeDec env 100) (im_openingBalance r),
                bs_closingBalance = map_option (storeDec env 100) (im_closingBalance r),
                bs_sourceLabel = im_sourceLabel r, bs_uploadedById = act_user u \<rparr>
          in bindR (insertBankStatement created db) (\<lambda>db.
             bindR (insertBankLines (map (\<lambda>(k, l). importedLine env u (bs_id created) k l)
                 (List.enumerate 0 (im_lines r))) db) (\<lambda>db.
             Inr (created, writeAudit u ''bank_statements'' (Some (bs_id created)) ''CREATE'' (im_reason r) db))))"

section \<open>Suggestions\<close>

record suggestion =
  sg_targetType :: TargetType
  sg_targetId :: id
  sg_number :: string
  sg_partnerName :: string
  sg_openAmount :: double
  sg_score :: double
  sg_reasons :: "string list"

definition includesText :: "string \<Rightarrow> string \<Rightarrow> bool" where
  "includesText s t \<longleftrightarrow> list_ex (\<lambda>i. startsWith (drop i s) t) [0..<length s + 1]"

text \<open>\<open>text && text.toLowerCase().includes(part.toLowerCase())\<close>, the text possibly null or empty.\<close>

definition mentions :: "string option \<Rightarrow> string \<Rightarrow> bool" where
  "mentions txt part \<longleftrightarrow> (case txt of None \<Rightarrow> False
     | Some s \<Rightarrow> s \<noteq> [] \<and> includesText (toLowerCase s) (toLowerCase part))"

definition scoreSuggestion ::
  "double \<Rightarrow> double \<Rightarrow> string option \<Rightarrow> string \<Rightarrow> string option \<Rightarrow> string \<Rightarrow> double \<times> string list" where
  "scoreSuggestion expectedAmount openAmount lineReference candidateNumber lineDescription candidatePartnerName =
     (let diff = \<bar>fsub expectedAmount openAmount\<bar>;
          score = max 0 (fsub 100 diff);
          (score, reasons) = (if mentions lineReference candidateNumber
            then (fadd score 40, [''Referinta contine numarul documentului.'']) else (score, []));
          (score, reasons) = (if mentions lineDescription candidatePartnerName
            then (fadd score 15, reasons @ [''Descrierea contine numele partenerului.'']) else (score, reasons))
      in if diff \<le> cents 1 then (fadd score 30, reasons @ [''Suma se potriveste exact.''])
         else if diff \<le> 5 then (fadd score 10, reasons @ [''Suma este apropiata.''])
         else (score, reasons))"

text \<open>\<open>Math.min(Math.max(takeRaw, 1), 30)\<close>, \<open>None\<close> when the parameter is not an integer.\<close>

definition suggestTake :: "int option \<Rightarrow> nat" where
  "suggestTake takeRaw = (case takeRaw of None \<Rightarrow> 10 | Some n \<Rightarrow> nat (min (max n 1) 30))"

definition openAmountOf :: "int list \<Rightarrow> int \<Rightarrow> double" where
  "openAmountOf ns T =
     round2 (max (fsub (toNumber (column 100 T)) (round2 (reduceSum (map (\<lambda>n. toNumber (column 100 n)) ns)))) 0)"

definition partnerName :: "id \<Rightarrow> 'z sales_scheme \<Rightarrow> string" where
  "partnerName i db = orElse (map_option pt_name (find (\<lambda>p. pt_id p = i) (partners db))) []"

definition suggestInvoice :: "bank_line \<Rightarrow> 'z banking_scheme \<Rightarrow> invoice \<Rightarrow> suggestion option" where
  "suggestInvoice line db x =
     (let openAmount = openAmountOf (invoiceAmounts (i_id x) db) (i_total x) in
      if openAmount \<le> 0 then None else
      let (score, reasons) = scoreSuggestion (round2 \<bar>toNumber (column 100 (bl_amount line))\<bar>) openAmount
            (bl_reference line) (i_number x) (bl_description line) (partnerName (i_partnerId x) db)
      in Some \<lparr> sg_targetType = INVOICE, sg_targetId = i_id x, sg_number = i_number x,
           sg_partnerName = partnerName (i_partnerId x) db, sg_openAmount = openAmount, sg_score = score,
           sg_reasons = reasons \<rparr>)"

definition suggestSupplierInvoice :: "bank_line \<Rightarrow> 'z banking_scheme \<Rightarrow> supplier_invoice \<Rightarrow> suggestion option" where
  "suggestSupplierInvoice line db x =
     (let openAmount = openAmountOf (supplierAmounts (si_id x) db) (si_total x) in
      if openAmount \<le> 0 then None else
      let (score, reasons) = scoreSuggestion (round2 \<bar>toNumber (column 100 (bl_amount line))\<bar>) openAmount
            (bl_reference line) (si_number x) (bl_description line) (partnerName (si_supplierId x) db)
      in Some \<lparr> sg_targetType = SUPPLIER_INVOICE, sg_targetId = si_id x, sg_number = si_number x,
           sg_partnerName = partnerName (si_supplierId x) db, sg_openAmount = openAmount, sg_score = score,
           sg_reasons = reasons \<rparr>)"

definition suggestMatches ::
  "actor \<Rightarrow> id \<Rightarrow> int option \<Rightarrow> 'z banking_scheme \<Rightarrow> http_error + (bank_line \<times> suggestion list)" where
  "suggestMatches u lineId takeRaw db =
     (case findBankLine (act_company u) lineId db of
        None \<Rightarrow> Inl (notFound ''Linia de extras nu exista.'')
      | Some line \<Rightarrow>
          let candidates =
            (if 0 < toNumber (column 100 (bl_amount line))
             then List.map_filter (suggestInvoice line db) (take 200 (sort_key i_dueDate (sort_key i_issueDate
                    (filter (\<lambda>x. i_companyId x = act_company u \<and> i_status x \<in> {ISSUED, PARTIALLY_PAID}) (invoices db)))))
             else List.map_filter (suggestSupplierInvoice line db) (take 200 (sort_key si_dueDate (sort_key si_receivedDate
                    (filter (\<lambda>x. si_companyId x = act_company u \<and> si_status x \<in> {RECEIVED, SI_PARTIALLY_PAID})
                      (supplierInvoices db))))))
          in Inr (line, take (suggestTake takeRaw) (sort_key (\<lambda>s. - sg_score s) candidates)))"

section \<open>Reconciling a line\<close>

record reconcile_req =
  rq_targetType :: TargetType
  rq_targetId :: id
  rq_method :: PaymentMethod
  rq_reference :: "string option"
  rq_autoPost :: bool
  rq_bankAccountCode :: string
  rq_receivableAccountCode :: string
  rq_payableAccountCode :: string
  rq_reason :: "string option"

definition reconcilePreview ::
  "actor \<Rightarrow> id \<Rightarrow> reconcile_req \<Rightarrow> 'z banking_scheme \<Rightarrow> http_error + bank_line" where
  "reconcilePreview u lineId r db =
     (if rq_targetId r = [] then Inl (badRequest ''Date invalide pentru reconciliere.'') else
      case findBankLine (act_company u) lineId db of
        None \<Rightarrow> Inl (notFound ''Linia de extras nu exista.'')
      | Some line \<Rightarrow>
          if bl_status line \<noteq> UNMATCHED then Inl (conflict ''Linia de extras este deja procesata.'') else
          bindR (assertPeriodOpen (act_company u) (currentPeriod (bl_date line)) db) (\<lambda>_. Inr line))"

definition matchedLine :: "TargetType \<Rightarrow> id \<Rightarrow> date \<Rightarrow> bank_line \<Rightarrow> bank_line" where
  "matchedLine t i matchedAt l =
     l\<lparr> bl_status := MATCHED, bl_matchedType := Some t, bl_matchedRecordId := Some i, bl_matchedAt := Some matchedAt \<rparr>"

text \<open>The customer invoice part of the transaction; \<open>lineAmount\<close> is the amount read by the preview.\<close>

definition reconcileInvoice ::
  "env \<Rightarrow> actor \<Rightarrow> reconcile_req \<Rightarrow> double \<Rightarrow> bank_line \<Rightarrow> 'z banking_scheme \<Rightarrow> http_error + (payment \<times> 'z banking_scheme)" where
  "reconcileInvoice env u r lineAmount line db =
     (let lineAmountAbs = round2 \<bar>lineAmount\<bar> in
      if lineAmount \<le> 0
      then Inl (badRequest ''Liniile cu suma negativa pot fi reconciliate doar cu facturi furnizor.'') else
      case findInvoice (act_company u) (rq_targetId r) db of
        None \<Rightarrow> Inl (notFound ''Factura client pentru reconciliere nu exista.'')
      | Some x \<Rightarrow>
          let paidBefore = round2 (reduceSum (map (\<lambda>n. toNumber (column 100 n)) (invoiceAmounts (i_id x) db)));
              openAmount = openAmountOf (invoiceAmounts (i_id x) db) (i_total x)
          in if openAmount < lineAmountAbs
             then Inl (badRequest ''Suma extrasului depaseste soldul deschis al facturii.'') else
             bindR (if rq_autoPost r
                    then accountsOrError (badRequest ''Conturi implicite lipsa pentru postarea automata a reconcilierii.'')
                      (act_company u) [rq_bankAccountCode r, rq_receivableAccountCode r] db
                    else Inr []) (\<lambda>ids.
             let pay = \<lparr> pay_id = uuid env 0, pay_companyId = act_company u, pay_invoiceId = i_id x,
                   pay_partnerId = i_partnerId x, pay_date = bl_date line,
                   pay_amount = storeDec env 100 lineAmountAbs, pay_method = rq_method r,
                   pay_reference = (case rq_reference r of None \<Rightarrow> bl_reference line | Some s \<Rightarrow> Some s) \<rparr>
             in bindR (insertPayment pay db) (\<lambda>db.
                let paidAfter = round2 (fadd paidBefore lineAmountAbs);
                    nextStatus = (if toNumber (column 100 (i_total x)) \<le> paidAfter then PAID else PARTIALLY_PAID);
                    db = db\<lparr>invoices := updateWhere (\<lambda>y. i_id y = i_id x) (\<lambda>y. y\<lparr>i_status := nextStatus\<rparr>) (invoices db)\<rparr>
                in bindR (if rq_autoPost r
                          then insertEntry (autoEntry env u (uuid env 1) (bl_date line)
                            (''Reconciliere bancara incasare '' @ i_number x) (currentPeriod (bl_date line)) ''BANK_RECONCILIATION''
                            [(ids ! 0, lineAmountAbs, 0, ''Incasare reconciliata '' @ i_number x),
                             (ids ! 1, 0, lineAmountAbs, ''Stingere creanta '' @ i_number x)] db) db
                          else Inr db) (\<lambda>db.
                   Inr (pay, writeAudit u ''bank_statement_lines'' (Some (bl_id line)) ''RECONCILE'' (rq_reason r)
                     (updateBankLine (bl_id line) (matchedLine INVOICE (i_id x) (now env)) db))))))"

definition reconcileSupplierInvoice ::
  "env \<Rightarrow> actor \<Rightarrow> reconcile_req \<Rightarrow> double \<Rightarrow> bank_line \<Rightarrow> 'z banking_scheme \<Rightarrow>
   http_error + (supplier_payment \<times> 'z banking_scheme)" where
  "reconcileSupplierInvoice env u r lineAmount line db =
     (let lineAmountAbs = round2 \<bar>lineAmount\<bar> in
      if 0 \<le> lineAmount
      then Inl (badRequest ''Liniile cu suma pozitiva pot fi reconciliate doar cu facturi client.'') else
      case findSupplierInvoice (act_company u) (rq_targetId r) db of
        None \<Rightarrow> Inl (notFound ''Factura furnizor pentru reconciliere nu exista.'')
      | Some x \<Rightarrow>
          let paidBefore = round2 (reduceSum (map (\<lambda>n. toNumber (column 100 n)) (supplierAmounts (si_id x) db)));
              openAmount = openAmountOf (supplierAmounts (si_id x) db) (si_total x)
          in if openAmount < lineAmountAbs
             then Inl (badRequest ''Suma extrasului depaseste soldul deschis al facturii.'') else
             bindR (if rq_autoPost r
                    then accountsOrError (badRequest ''Conturi implicite lipsa pentru postarea automata a reconcilierii.'')
                      (act_company u) [rq_bankAccountCode r, rq_payableAccountCode r] db
                    else Inr []) (\<lambda>ids.
             let pay = \<lparr> sp_id = uuid env 0, sp_companyId = act_company u, sp_supplierInvoiceId = si_id x,
                   sp_supplierId = si_supplierId x, sp_date = bl_date line,
                   sp_amount = storeDec env 100 lineAmountAbs, sp_method = rq_method r,
                   sp_reference = (case rq_reference r of None \<Rightarrow> bl_reference line | Some s \<Rightarrow> Some s) \<rparr>
             in bindR (insertSupplierPayment pay db) (\<lambda>db.
                let paidAfter = round2 (fadd paidBefore lineAmountAbs);
                    nextStatus = (if toNumber (column 100 (si_total x)) \<le> paidAfter then SI_PAID else SI_PARTIALLY_PAID);
                    db = updateSupplierInvoice (si_id x) (\<lambda>y. y\<lparr>si_status := nextStatus\<rparr>) db
                in bindR (if rq_autoPost r
                          then insertEntry (autoEntry env u (uuid env 1) (bl_date line)
                            (''Reconciliere bancara plata '' @ si_number x) (currentPeriod (bl_date line)) ''BANK_RECONCILIATION''
                            [(ids ! 1, lineAmountAbs, 0, ''Stingere datorie '' @ si_number x),
                             (ids ! 0, 0, lineAmountAbs, ''Plata reconciliata '' @ si_number x)] db) db
                          else Inr db) (\<lambda>db.
                   Inr (pay, writeAudit u ''bank_statement_lines'' (Some (bl_id line)) ''RECONCILE'' (rq_reason r)
                     (updateBankLine (bl_id line) (matchedLine SUPPLIER_INVOICE (si_id x) (now env)) db))))))"

text \<open>\<open>fmap\<close> of a result: the two parts answer with a payment of their own table.\<close>

definition mapPayment :: "('a \<Rightarrow> 'c) \<Rightarrow> http_error + ('a \<times> 'b) \<Rightarrow> http_error + ('c \<times> 'b)" where
  "mapPayment f res = bindR res (\<lambda>(p, db). Inr (f p, db))"

definition reconcileCommit ::
  "env \<Rightarrow> actor \<Rightarrow> id \<Rightarrow> reconcile_req \<Rightarrow> bank_line \<Rightarrow> 'z banking_scheme \<Rightarrow>
   http_error + ((payment + supplier_payment) \<times> 'z banking_scheme)" where
  "reconcileCommit env u lineId r previewLine db =
     (let lineAmount = toNumber (column 100 (bl_amount previewLine)) in
      case findBankLine (act_company u) lineId db of
        None \<Rightarrow> Inl (notFound ''Linia de extras nu mai exista.'')
      | Some line \<Rightarrow>
          if bl_status line \<noteq> UNMATCHED
          then Inl (conflict ''Linia de extras a fost deja reconciliata de alta operatiune.'') else
          bindR (case rq_targetType r of
              INVOICE \<Rightarrow> mapPayment Inl (reconcileInvoice env u r lineAmount line db)
            | SUPPLIER_INVOICE \<Rightarrow> mapPayment Inr (reconcileSupplierInvoice env u r lineAmount line db)) (\<lambda>(p, db).
          Inr (p, invalidateFinancialStatementsCache db)))"

definition reconcile ::
  "env \<Rightarrow> actor \<Rightarrow> id \<Rightarrow> reconcile_req \<Rightarrow> 'z banking_scheme \<Rightarrow>
   http_error + ((payment + supplier_payment) \<times> 'z banking_scheme)" where
  "reconcile env u lineId r db =
     bindR (reconcilePreview u lineId r db) (\<lambda>previewLine. reconcileCommit env u lineId r previewLine db)"

definition ignoreLine ::
  "actor \<Rightarrow> id \<Rightarrow> string option \<Rightarrow> 'z banking_scheme \<Rightarrow> http_error + 'z banking_scheme" where
  "ignoreLine u lineId reason db =
     (case findBankLine (act_company u) lineId db of
        None \<Rightarrow> Inl (notFound ''Linia de extras nu exista.'')
      | Some existing \<Rightarrow>
          if bl_status existing \<noteq> UNMATCHED then Inl (conflict ''Linia de extras este deja procesata.'') else
          Inr (writeAudit u ''bank_statement_lines'' (Some (bl_id existing)) ''IGNORE'' reason
            (updateBankLine (bl_id existing) (\<lambda>l. l\<lparr> bl_status := IGNORED, bl_matchedType := None,
               bl_matchedRecordId := None, bl_matchedAt := None \<rparr>) db)))"

end
