(* ===== verification/BankMatching.thy ===== *)
theory BankMatching
  imports BankReconciliation "HOL-Library.Multiset"
begin

text \<open>
  What bank reconciliation guarantees together with the other routes that collect and pay: the
  payments of a document never exceed its total whichever route books them, every matched line is
  covered by a payment of its own amount, a processed line never changes again. Requests to
  reconcile are interleaved with all other requests between their preview and their transaction.
\<close>

section \<open>Settling documents\<close>

text \<open>The payments of a document of either kind against its total and its paid flag, whatever its
  kind and its approval.\<close>

definition settledBy :: "int list \<Rightarrow> int \<Rightarrow> bool \<Rightarrow> bool" where
  "settledBy ns T paid \<longleftrightarrow> (\<forall>n \<in> set ns. 0 \<le> n) \<and> (ns \<noteq> [] \<longrightarrow> 0 \<le> T) \<and>
     (fits ns T \<and> ns \<noteq> [] \<longrightarrow> sum_list ns \<le> T \<and> (paid \<longleftrightarrow> sum_list ns = T))"

lemma settledBy_Nil [simp]: "settledBy [] T p"
  by (simp add: settledBy_def)

lemma open_of_negative:
  assumes "T < 0" shows "round2 (max (fsub (cents T) 0) 0) = 0"
proof -
  have "fsub (cents T) 0 \<le> fl 0" unfolding fsub_def using cent.grid_mono[of T 0] assms by (intro fl_mono) simp
  then show ?thesis by (simp add: max_absorb2)
qed

lemma settledBy_pay:
  assumes st: "exact_store st" and ok: "settledBy ns T p" and a: "0 \<le> round2 a" "0 < round2 a \<or> 0 \<le> T"
    and paid: "paid = round2 (reduceSum (map cents ns))"
    and le: "\<not> round2 (max (fsub (cents T) paid) 0) < round2 a"
  shows "settledBy (ns @ [st 100 (round2 a)]) T (cents T \<le> round2 (fadd paid (round2 a)))"
proof -
  have nn: "\<forall>n \<in> set ns. 0 \<le> n" using ok by (simp add: settledBy_def)
  have s0: "0 \<le> st 100 (round2 a)" using exact_store_mono[OF st a(1)] st by simp
  obtain k where k: "round2 a = cents k" using round2_grid by blast
  then have kn: "0 \<le> k" using a(1) by simp
  have T: "0 \<le> T"
  proof (cases "ns = []")
    case True
    then have "paid = 0" using paid by (simp add: reduceSum_def)
    then show ?thesis using a(2) le open_of_negative[of T] by (cases "T < 0") auto
  next
    case False then show ?thesis using ok by (simp add: settledBy_def)
  qed
  have "sum_list ns + st 100 (round2 a) \<le> T \<and> (cents T \<le> round2 (fadd paid (round2 a)) \<longleftrightarrow> sum_list ns + st 100 (round2 a) = T)"
    if f: "fits (ns @ [st 100 (round2 a)]) T"
  proof -
    have f0: "fits ns T" using f nn s0 by (rule fits_snoc)
    then have "sum_list ns \<le> T" using ok T by (cases "ns = []") (auto simp: settledBy_def)
    from settle_step[OF st f0 nn this kn paid] le show ?thesis unfolding k by simp
  qed
  then show ?thesis using nn s0 T by (auto simp: settledBy_def)
qed

definition settledDocs ::
  "('d \<Rightarrow> id) \<Rightarrow> ('d \<Rightarrow> int) \<Rightarrow> ('d \<Rightarrow> bool) \<Rightarrow> ('p \<Rightarrow> id) \<Rightarrow> ('p \<Rightarrow> int) \<Rightarrow> 'd list \<Rightarrow> 'p list \<Rightarrow> bool" where
  "settledDocs did dtot dpaid pdoc pamt docs pays \<longleftrightarrow> sorted_wrt (\<lambda>x y. did x \<noteq> did y) docs \<and>
     (\<forall>p \<in> set pays. pdoc p \<in> did ` set docs) \<and>
     (\<forall>d \<in> set docs. settledBy (map pamt (filter (\<lambda>p. pdoc p = did d) pays)) (dtot d) (dpaid d))"

text \<open>The contract of a table of documents: setting the paid flag of a row keeps its key and its total.
  Both invoice tables provide it.\<close>

locale settlement =
  fixes did :: "'d \<Rightarrow> id" and dtot :: "'d \<Rightarrow> int" and dpaid :: "'d \<Rightarrow> bool" and pdoc :: "'p \<Rightarrow> id" and pamt :: "'p \<Rightarrow> int"
    and setPaid :: "bool \<Rightarrow> 'd \<Rightarrow> 'd"
  assumes setPaid_id: "did (setPaid b d) = did d" and setPaid_tot: "dtot (setPaid b d) = dtot d"
    and setPaid_paid: "dpaid (setPaid b d) = b"
begin

lemma update_docs:
  assumes s: "settledDocs did dtot dpaid pdoc pamt docs pays"
    and f: "\<And>d. d \<in> set docs \<Longrightarrow> did (f d) = did d \<and> dtot (f d) = dtot d \<and> dpaid (f d) = dpaid d"
  shows "settledDocs did dtot dpaid pdoc pamt (map f docs) pays"
proof -
  have ids: "did ` set (map f docs) = did ` set docs" using f by (force simp: image_iff)
  have "sorted_wrt (\<lambda>x y. did (f x) \<noteq> did (f y)) docs"
    using s f unfolding settledDocs_def by (auto intro: sorted_wrt_mono_rel[rotated])
  then show ?thesis using s f ids by (auto simp: settledDocs_def sorted_wrt_map)
qed

lemma add_doc:
  assumes s: "settledDocs did dtot dpaid pdoc pamt docs pays" and x: "did x \<notin> did ` set docs"
  shows "settledDocs did dtot dpaid pdoc pamt (docs @ [x]) pays"
proof -
  have "filter (\<lambda>p. pdoc p = did x) pays = []" using s x unfolding settledDocs_def filter_empty_conv by metis
  then show ?thesis using s x by (auto simp: settledDocs_def sorted_wrt_append image_iff)
qed

lemma pay:
  assumes st: "exact_store st" and s: "settledDocs did dtot dpaid pdoc pamt docs pays" and x: "x \<in> set docs"
    and a: "0 \<le> round2 a" "0 < round2 a \<or> 0 \<le> dtot x"
    and paid: "paid = round2 (reduceSum (map cents (map pamt (filter (\<lambda>p. pdoc p = did x) pays))))"
    and le: "\<not> round2 (max (fsub (cents (dtot x)) paid) 0) < round2 a"
    and p: "pdoc p = did x" "pamt p = st 100 (round2 a)"
  shows "settledDocs did dtot dpaid pdoc pamt
    (updateWhere (\<lambda>y. did y = did x) (setPaid (cents (dtot x) \<le> round2 (fadd paid (round2 a)))) docs) (pays @ [p])"
    (is "settledDocs _ _ _ _ _ (updateWhere ?P ?f docs) _")
proof -
  have so: "sorted_wrt (\<lambda>x y. did x \<noteq> did y) docs" using s by (simp add: settledDocs_def)
  have "map did (updateWhere ?P ?f docs) = map did docs" by (rule map_updateWhere) (simp add: setPaid_id)
  then have ids: "did ` set (updateWhere ?P ?f docs) = did ` set docs" by (metis list.set_map)
  have "did (if ?P d then ?f d else d) = did d" for d by (simp add: setPaid_id)
  then have so': "sorted_wrt (\<lambda>x y. did x \<noteq> did y) (updateWhere ?P ?f docs)"
    using so by (simp add: updateWhere_def sorted_wrt_map)
  have ok: "settledBy (map pamt (filter (\<lambda>p. pdoc p = did d) pays)) (dtot d) (dpaid d)" if "d \<in> set docs" for d
    using s that by (simp add: settledDocs_def)
  have "settledBy (map pamt (filter (\<lambda>q. pdoc q = did (if ?P d then ?f d else d)) (pays @ [p])))
      (dtot (if ?P d then ?f d else d)) (dpaid (if ?P d then ?f d else d))" if d: "d \<in> set docs" for d
  proof (cases "did d = did x")
    case True
    then have "d = x" using sorted_wrt_unique[OF so d x] by simp
    then show ?thesis using settledBy_pay[OF st ok[OF x] a paid le] by (simp add: setPaid_id setPaid_tot setPaid_paid p)
  next
    case False then show ?thesis using ok[OF d] p(1) by simp
  qed
  then have "\<forall>d \<in> set (updateWhere ?P ?f docs). settledBy (map pamt (filter (\<lambda>q. pdoc q = did d) (pays @ [p]))) (dtot d) (dpaid d)"
    unfolding updateWhere_set by blast
  moreover have "\<forall>q \<in> set (pays @ [p]). pdoc q \<in> did ` set (updateWhere ?P ?f docs)"
    unfolding ids using s x p(1) by (auto simp: settledDocs_def)
  ultimately show ?thesis using so' by (simp add: settledDocs_def)
qed

end

definition setInvoicePaid :: "bool \<Rightarrow> invoice \<Rightarrow> invoice" where
  "setInvoicePaid b x = x\<lparr>i_status := (if b then PAID else PARTIALLY_PAID)\<rparr>"

definition setSupplierPaid :: "bool \<Rightarrow> supplier_invoice \<Rightarrow> supplier_invoice" where
  "setSupplierPaid b x = x\<lparr>si_status := (if b then SI_PAID else SI_PARTIALLY_PAID)\<rparr>"

interpretation collect: settlement i_id i_total "\<lambda>x. i_status x = PAID" pay_invoiceId pay_amount setInvoicePaid
  by unfold_locales (auto simp: setInvoicePaid_def)

interpretation disburse: settlement si_id si_total "\<lambda>x. si_status x = SI_PAID" sp_supplierInvoiceId sp_amount setSupplierPaid
  by unfold_locales (auto simp: setSupplierPaid_def)

section \<open>The invariant of the lines\<close>

text \<open>A matched line names its document, on the side its sign tells; every other line names none.\<close>

definition lineOk :: "bank_line \<Rightarrow> bool" where
  "lineOk l \<longleftrightarrow> (case bl_status l of
       MATCHED \<Rightarrow> bl_matchedRecordId l \<noteq> None \<and> bl_matchedAt l \<noteq> None \<and>
         (bl_matchedType l = Some INVOICE \<and> 0 < bl_amount l \<or> bl_matchedType l = Some SUPPLIER_INVOICE \<and> bl_amount l < 0)
     | _ \<Rightarrow> bl_matchedType l = None \<and> bl_matchedRecordId l = None \<and> bl_matchedAt l = None)"

definition matchedTo :: "TargetType \<Rightarrow> id \<Rightarrow> bank_line \<Rightarrow> bool" where
  "matchedTo t i l \<longleftrightarrow> bl_status l = MATCHED \<and> bl_matchedType l = Some t \<and> bl_matchedRecordId l = Some i \<and>
     \<bar>bl_amount l\<bar> \<le> 2 ^ 45"

text \<open>The amounts of the lines matched to a document, up to the size that doubles represent exactly.\<close>

definition matchedAmounts :: "TargetType \<Rightarrow> id \<Rightarrow> bank_line list \<Rightarrow> int multiset" where
  "matchedAmounts t i ls = mset (map (\<lambda>l. \<bar>bl_amount l\<bar>) (filter (matchedTo t i) ls))"

definition covered :: "'z banking_scheme \<Rightarrow> bool" where
  "covered db \<longleftrightarrow> (\<forall>i. matchedAmounts INVOICE i (bankLines db) \<subseteq># mset (invoiceAmounts i db) \<and>
     matchedAmounts SUPPLIER_INVOICE i (bankLines db) \<subseteq># mset (supplierAmounts i db))"

definition invoicesSettled :: "'z banking_scheme \<Rightarrow> bool" where
  "invoicesSettled db \<longleftrightarrow> settledDocs i_id i_total (\<lambda>x. i_status x = PAID) pay_invoiceId pay_amount (invoices db) (payments db) \<and>
     (\<forall>x \<in> set (invoices db). i_kind x = FISCAL \<longrightarrow> 0 \<le> i_total x)"

definition suppliersSettled :: "'z banking_scheme \<Rightarrow> bool" where
  "suppliersSettled db \<longleftrightarrow> settledDocs si_id si_total (\<lambda>x. si_status x = SI_PAID) sp_supplierInvoiceId sp_amount
       (supplierInvoices db) (supplierPayments db) \<and> (\<forall>x \<in> set (supplierInvoices db). 0 \<le> si_total x)"

definition linesOk :: "'z banking_scheme \<Rightarrow> bool" where
  "linesOk db \<longleftrightarrow> sorted_wrt (\<lambda>x y. bl_id x \<noteq> bl_id y) (bankLines db) \<and> (\<forall>l \<in> set (bankLines db). lineOk l)"

definition bankInv :: "'z banking_scheme \<Rightarrow> bool" where
  "bankInv db \<longleftrightarrow> linesOk db \<and> covered db \<and> invoicesSettled db \<and> suppliersSettled db"

lemmas bank_inv_defs = covered_def invoicesSettled_def suppliersSettled_def linesOk_def invoiceAmounts_def
  paymentsOf_def supplierAmounts_def supplierPaymentsOf_def

text \<open>Lines may be added and settled, and payments added, but the key, company, date and amount of a
  line stay, and so does the whole line once it is processed.\<close>

definition lineFixed :: "bank_line \<Rightarrow> bank_line \<Rightarrow> bool" where
  "lineFixed l m \<longleftrightarrow> bl_id m = bl_id l \<and> bl_companyId m = bl_companyId l \<and> bl_date m = bl_date l \<and>
     bl_amount m = bl_amount l \<and> (bl_status l \<noteq> UNMATCHED \<longrightarrow> m = l)"

definition linesKept :: "'z banking_scheme \<Rightarrow> 'z banking_scheme \<Rightarrow> bool" where
  "linesKept db db' \<longleftrightarrow> (\<forall>l \<in> set (bankLines db). \<exists>m \<in> set (bankLines db'). lineFixed l m)"

lemma linesKept_refl: "bankLines db' = bankLines db \<Longrightarrow> linesKept db db'"
  by (auto simp: linesKept_def lineFixed_def)

lemma linesKept_trans: "linesKept a b \<Longrightarrow> linesKept b c \<Longrightarrow> linesKept a c"
  unfolding linesKept_def lineFixed_def by (metis (no_types, lifting))

lemma bankLines_frame [simp, table_simps]:
  "bankLines (writeAudit u t r a x db) = bankLines db"
  "bankLines (invalidateFinancialStatementsCache db) = bankLines db"
  "bankLines (invalidateInvoiceListCache db) = bankLines db"
  "supplierInvoices (invalidateInvoiceListCache db) = supplierInvoices db"
  "supplierPayments (invalidateInvoiceListCache db) = supplierPayments db"
  "invoices (updateBankLine i f db) = invoices db" "payments (updateBankLine i f db) = payments db"
  "supplierInvoices (updateBankLine i f db) = supplierInvoices db" "supplierPayments (updateBankLine i f db) = supplierPayments db"
  "entries (updateBankLine i f db) = entries db" "periods (updateBankLine i f db) = periods db"
  "bankLines (updateSupplierInvoice i g db) = bankLines db"
  "invoices (updateSupplierInvoice i g db) = invoices db" "payments (updateSupplierInvoice i g db) = payments db"
  "supplierInvoices (updateSupplierInvoice i g db) = updateWhere (\<lambda>x. si_id x = i) g (supplierInvoices db)"
  "supplierPayments (updateSupplierInvoice i g db) = supplierPayments db"
  "entries (updateSupplierInvoice i g db) = entries db" "periods (updateSupplierInvoice i g db) = periods db"
  by (simp_all add: writeAudit_def invalidateFinancialStatementsCache_def invalidateInvoiceListCache_def
      updateBankLine_def updateSupplierInvoice_def)

text \<open>The five tables the invariant reads.\<close>

definition sameBank :: "'z banking_scheme \<Rightarrow> 'z banking_scheme \<Rightarrow> bool" where
  "sameBank db db' \<longleftrightarrow> bankLines db' = bankLines db \<and> invoices db' = invoices db \<and> payments db' = payments db \<and>
     supplierInvoices db' = supplierInvoices db \<and> supplierPayments db' = supplierPayments db"

lemma bankInv_same: "sameBank db db' \<Longrightarrow> bankInv db' = bankInv db"
  by (simp add: sameBank_def bankInv_def bank_inv_defs)

lemma insertEntry_bank: "insertEntry e db = Inr db' \<Longrightarrow> sameBank db db'"
  by (auto simp: insertEntry_def sameBank_def split: if_splits)

lemma updateBankLine_lines: "bankLines (updateBankLine i f db) = updateWhere (\<lambda>l. bl_id l = i) f (bankLines db)"
  by (simp add: updateBankLine_def)

lemma findBankLine_SomeD: "findBankLine c i db = Some l \<Longrightarrow> l \<in> set (bankLines db) \<and> bl_id l = i \<and> bl_companyId l = c"
  by (auto simp: findBankLine_def dest: find_SomeD)

section \<open>One line is processed\<close>

lemma sorted_split:
  assumes "sorted_wrt (\<lambda>x y. key x \<noteq> key y) ls" "l \<in> set ls"
  obtains as bs where "ls = as @ l # bs" "\<forall>m \<in> set as \<union> set bs. key m \<noteq> key l"
proof -
  obtain as bs where "ls = as @ l # bs" using split_list[OF assms(2)] by blast
  then show thesis using assms(1) that by (fastforce simp: sorted_wrt_append)
qed

lemma updateWhere_split:
  "\<forall>m \<in> set as \<union> set bs. \<not> P m \<Longrightarrow> P l \<Longrightarrow> updateWhere P f (as @ l # bs) = as @ f l # bs"
  by (simp add: updateWhere_none)

lemma process_line:
  assumes ok: "linesOk db" and l: "l \<in> set (bankLines db)" "bl_status l = UNMATCHED"
    and f: "lineOk (f l)" "bl_id (f l) = bl_id l" "bl_companyId (f l) = bl_companyId l" "bl_date (f l) = bl_date l" "bl_amount (f l) = bl_amount l"
    and db': "bankLines db' = updateWhere (\<lambda>m. bl_id m = bl_id l) f (bankLines db)"
  shows "linesOk db'" "linesKept db db'"
    "matchedAmounts t i (bankLines db') = matchedAmounts t i (bankLines db) + (if matchedTo t i (f l) then {#\<bar>bl_amount l\<bar>#} else {#})"
proof -
  have so: "sorted_wrt (\<lambda>x y. bl_id x \<noteq> bl_id y) (bankLines db)" using ok by (simp add: linesOk_def)
  obtain as bs where ls: "bankLines db = as @ l # bs" "\<forall>m \<in> set as \<union> set bs. bl_id m \<noteq> bl_id l"
    using sorted_split[OF so l(1)] by metis
  then have ls': "bankLines db' = as @ f l # bs" unfolding db' by (simp add: updateWhere_none)
  show "linesOk db'" using ok f(1,2) by (simp add: linesOk_def ls ls' sorted_wrt_append)
  have "lineFixed l (f l)" using f l by (simp add: lineFixed_def)
  moreover have "lineFixed m m" for m by (simp add: lineFixed_def)
  ultimately show "linesKept db db'" by (auto simp: linesKept_def ls ls')
  show "matchedAmounts t i (bankLines db') = matchedAmounts t i (bankLines db) + (if matchedTo t i (f l) then {#\<bar>bl_amount l\<bar>#} else {#})"
    using l(2) f(5) by (simp add: matchedAmounts_def ls ls' matchedTo_def)
qed

section \<open>What a reconciliation does\<close>

lemma reconcileInvoice_InrD:
  assumes "reconcileInvoice env u r a line db = Inr (pay, db')"
  obtains x ids db1 db2 db3 paid where "0 < a" "findInvoice (act_company u) (rq_targetId r) db = Some x"
    "paid = round2 (reduceSum (map cents (invoiceAmounts (i_id x) db)))"
    "\<not> round2 (max (fsub (cents (i_total x)) paid) 0) < round2 \<bar>a\<bar>"
    "pay_invoiceId pay = i_id x" "pay_amount pay = storeDec env 100 (round2 \<bar>a\<bar>)"
    "db1 = db\<lparr>payments := payments db @ [pay]\<rparr>"
    "db2 = db1\<lparr>invoices := updateWhere (\<lambda>y. i_id y = i_id x)
       (setInvoicePaid (cents (i_total x) \<le> round2 (fadd paid (round2 \<bar>a\<bar>)))) (invoices db1)\<rparr>"
    "rq_autoPost r \<Longrightarrow> length ids = 2" "if rq_autoPost r then insertEntry (autoEntry env u (uuid env 1) (bl_date line)
       (''Reconciliere bancara incasare '' @ i_number x) (currentPeriod (bl_date line)) ''BANK_RECONCILIATION''
       [(ids ! 0, round2 \<bar>a\<bar>, 0, ''Incasare reconciliata '' @ i_number x),
        (ids ! 1, 0, round2 \<bar>a\<bar>, ''Stingere creanta '' @ i_number x)] db2) db2 = Inr db3 else db3 = db2"
    "db' = writeAudit u ''bank_statement_lines'' (Some (bl_id line)) ''RECONCILE'' (rq_reason r)
       (updateBankLine (bl_id line) (matchedLine INVOICE (i_id x) (now env)) db3)"
proof -
  have st: "(\<lambda>y. y\<lparr>i_status := (if b then PAID else PARTIALLY_PAID)\<rparr>) = setInvoicePaid b" for b
    by (simp add: fun_eq_iff setInvoicePaid_def)
  have len: "accountsOrError err c [k, l] db = Inr ids \<Longrightarrow> length ids = 2" for err c k l ids
    by (drule accountsOrError_length) simp
  show thesis using assms that
    by (auto simp: reconcileInvoice_def openAmountOf_def Let_def bindR_eq_Inr comp_def insertPayment_def st
        dest: len split: if_splits option.splits)
qed

lemma reconcileSupplierInvoice_InrD:
  assumes "reconcileSupplierInvoice env u r a line db = Inr (pay, db')"
  obtains x ids db1 db2 db3 paid where "a < 0" "findSupplierInvoice (act_company u) (rq_targetId r) db = Some x"
    "paid = round2 (reduceSum (map cents (supplierAmounts (si_id x) db)))"
    "\<not> round2 (max (fsub (cents (si_total x)) paid) 0) < round2 \<bar>a\<bar>"
    "sp_supplierInvoiceId pay = si_id x" "sp_amount pay = storeDec env 100 (round2 \<bar>a\<bar>)"
    "db1 = db\<lparr>supplierPayments := supplierPayments db @ [pay]\<rparr>"
    "db2 = updateSupplierInvoice (si_id x) (setSupplierPaid (cents (si_total x) \<le> round2 (fadd paid (round2 \<bar>a\<bar>)))) db1"
    "rq_autoPost r \<Longrightarrow> length ids = 2" "if rq_autoPost r then insertEntry (autoEntry env u (uuid env 1) (bl_date line)
       (''Reconciliere bancara plata '' @ si_number x) (currentPeriod (bl_date line)) ''BANK_RECONCILIATION''
       [(ids ! 1, round2 \<bar>a\<bar>, 0, ''Stingere datorie '' @ si_number x),
        (ids ! 0, 0, round2 \<bar>a\<bar>, ''Plata reconciliata '' @ si_number x)] db2) db2 = Inr db3 else db3 = db2"
    "db' = writeAudit u ''bank_statement_lines'' (Some (bl_id line)) ''RECONCILE'' (rq_reason r)
       (updateBankLine (bl_id line) (matchedLine SUPPLIER_INVOICE (si_id x) (now env)) db3)"
proof -
  have st: "(\<lambda>y. y\<lparr>si_status := (if b then SI_PAID else SI_PARTIALLY_PAID)\<rparr>) = setSupplierPaid b" for b
    by (simp add: fun_eq_iff setSupplierPaid_def)
  have len: "accountsOrError err c [k, l] db = Inr ids \<Longrightarrow> length ids = 2" for err c k l ids
    by (drule accountsOrError_length) simp
  show thesis using assms that
    by (auto simp: reconcileSupplierInvoice_def openAmountOf_def Let_def bindR_eq_Inr comp_def insertSupplierPayment_def st
        dest: len split: if_splits option.splits)
qed

lemma lineAmount_abs:
  "round2 \<bar>cents n\<bar> = round2 (cents \<bar>n\<bar>)" "0 \<le> round2 \<bar>cents n\<bar>" "n \<noteq> 0 \<Longrightarrow> 0 < round2 \<bar>cents n\<bar>"
  "exact_store st \<Longrightarrow> \<bar>n\<bar> \<le> 2 ^ 45 \<Longrightarrow> st 100 (round2 \<bar>cents n\<bar>) = \<bar>n\<bar>"
proof -
  show eq: "round2 \<bar>cents n\<bar> = round2 (cents \<bar>n\<bar>)" by (simp add: cent.grid_abs)
  show "0 \<le> round2 \<bar>cents n\<bar>" by (rule round2_nonneg) simp
  show "0 < round2 \<bar>cents n\<bar>" if "n \<noteq> 0"
  proof -
    have "round2 (cents 1) \<le> round2 (cents \<bar>n\<bar>)" using that by (intro round2_mono cent.grid_mono) simp
    moreover have "round2 (cents 1) = cents 1" by (rule round2_cents) simp
    moreover have "0 < cents 1" using cent.grid_sign[of 1] by simp
    ultimately show ?thesis unfolding eq by linarith
  qed
  show "st 100 (round2 \<bar>cents n\<bar>) = \<bar>n\<bar>" if "exact_store st" "\<bar>n\<bar> \<le> 2 ^ 45"
    using exact_storeD(1)[OF that(1), of "\<bar>n\<bar>"] that(2) round2_cents[of "\<bar>n\<bar>"] unfolding eq by simp
qed

text \<open>A payment of the amount of the line covers one more matched line.\<close>

lemma cover_step:
  assumes "M \<subseteq># mset ns" "b \<Longrightarrow> a = k" shows "M + (if b then {#k#} else {#}) \<subseteq># mset (ns @ [a])"
proof -
  have "mset ns \<subseteq># mset (ns @ [a])" by simp
  then show ?thesis using assms subset_mset.order_trans[OF assms(1)] by (auto simp: mset_subset_eq_mono_add)
qed

lemma book_line:
  assumes st: "exact_store (storeDec env)" and inv: "bankInv db" and l: "line \<in> set (bankLines db)" "bl_status line = UNMATCHED"
    and side: "t = INVOICE \<and> 0 < bl_amount line \<or> t = SUPPLIER_INVOICE \<and> bl_amount line < 0"
    and ls: "bankLines db' = updateWhere (\<lambda>m. bl_id m = bl_id line) (matchedLine t i at0) (bankLines db)"
    and ca: "\<And>j. invoiceAmounts j db' = invoiceAmounts j db @
      (if t = INVOICE \<and> j = i then [storeDec env 100 (round2 \<bar>cents (bl_amount line)\<bar>)] else [])"
    and cb: "\<And>j. supplierAmounts j db' = supplierAmounts j db @
      (if t = SUPPLIER_INVOICE \<and> j = i then [storeDec env 100 (round2 \<bar>cents (bl_amount line)\<bar>)] else [])"
  shows "linesOk db'" "linesKept db db'" "covered db'"
proof -
  have lo: "linesOk db" and c0: "covered db" using inv by (simp_all add: bankInv_def)
  have f: "lineOk (matchedLine t i at0 line)" using side by (auto simp: lineOk_def matchedLine_def)
  note pl = process_line[OF lo l f _ _ _ _ ls, simplified matchedLine_def, simplified]
  show "linesOk db'" "linesKept db db'" using pl by blast+
  note ab = lineAmount_abs(4)[OF st, of "bl_amount line"]
  have i: "matchedAmounts INVOICE j (bankLines db') \<subseteq># mset (invoiceAmounts j db')" for j
  proof (cases "t = INVOICE \<and> j = i")
    case True
    have c: "matchedAmounts INVOICE j (bankLines db) \<subseteq># mset (invoiceAmounts j db)" using c0 by (simp add: covered_def)
    have "storeDec env 100 (round2 \<bar>cents (bl_amount line)\<bar>) = \<bar>bl_amount line\<bar>" if "matchedTo INVOICE j (matchedLine t i at0 line)"
      using that ab by (simp add: matchedTo_def matchedLine_def)
    from cover_step[OF c this] show ?thesis using True by (simp add: pl(3) ca matchedLine_def)
  next
    case False
    then show ?thesis using c0 by (simp add: covered_def pl(3) ca) (auto simp: matchedTo_def)
  qed
  have s: "matchedAmounts SUPPLIER_INVOICE j (bankLines db') \<subseteq># mset (supplierAmounts j db')" for j
  proof (cases "t = SUPPLIER_INVOICE \<and> j = i")
    case True
    have c: "matchedAmounts SUPPLIER_INVOICE j (bankLines db) \<subseteq># mset (supplierAmounts j db)" using c0 by (simp add: covered_def)
    have "storeDec env 100 (round2 \<bar>cents (bl_amount line)\<bar>) = \<bar>bl_amount line\<bar>" if "matchedTo SUPPLIER_INVOICE j (matchedLine t i at0 line)"
      using that ab by (simp add: matchedTo_def matchedLine_def)
    from cover_step[OF c this] show ?thesis using True by (simp add: pl(3) cb matchedLine_def)
  next
    case False
    then show ?thesis using c0 by (simp add: covered_def pl(3) cb) (auto simp: matchedTo_def)
  qed
  show "covered db'" using i s by (simp add: covered_def)
qed

lemma reconcileInvoice_inv:
  assumes st: "exact_store (storeDec env)" and inv: "bankInv db" and l: "line \<in> set (bankLines db)" "bl_status line = UNMATCHED"
    and r: "reconcileInvoice env u r (cents (bl_amount line)) line db = Inr (pay, db')"
  shows "bankInv db' \<and> linesKept db db'"
proof -
  let ?a = "cents (bl_amount line)"
  obtain x ids db1 db2 db3 paid where a: "0 < ?a" and x: "findInvoice (act_company u) (rq_targetId r) db = Some x"
    and paid: "paid = round2 (reduceSum (map cents (invoiceAmounts (i_id x) db)))"
    and le: "\<not> round2 (max (fsub (cents (i_total x)) paid) 0) < round2 \<bar>?a\<bar>"
    and pay: "pay_invoiceId pay = i_id x" "pay_amount pay = storeDec env 100 (round2 \<bar>?a\<bar>)"
    and d1: "db1 = db\<lparr>payments := payments db @ [pay]\<rparr>"
    and d2: "db2 = db1\<lparr>invoices := updateWhere (\<lambda>y. i_id y = i_id x)
       (setInvoicePaid (cents (i_total x) \<le> round2 (fadd paid (round2 \<bar>?a\<bar>)))) (invoices db1)\<rparr>"
    and post: "if rq_autoPost r then insertEntry (autoEntry env u (uuid env 1) (bl_date line)
       (''Reconciliere bancara incasare '' @ i_number x) (currentPeriod (bl_date line)) ''BANK_RECONCILIATION''
       [(ids ! 0, round2 \<bar>?a\<bar>, 0, ''Incasare reconciliata '' @ i_number x),
        (ids ! 1, 0, round2 \<bar>?a\<bar>, ''Stingere creanta '' @ i_number x)] db2) db2 = Inr db3 else db3 = db2"
    and db': "db' = writeAudit u ''bank_statement_lines'' (Some (bl_id line)) ''RECONCILE'' (rq_reason r)
       (updateBankLine (bl_id line) (matchedLine INVOICE (i_id x) (now env)) db3)"
    using r by (rule reconcileInvoice_InrD)
  have ra: "0 < round2 \<bar>?a\<bar>" using a lineAmount_abs(3)[of "bl_amount line"] by simp
  have same: "sameBank db2 db3" using post insertEntry_bank by (auto simp: sameBank_def split: if_splits)
  have tabs: "invoices db' = invoices db2" "payments db' = payments db @ [pay]" "supplierInvoices db' = supplierInvoices db"
    "supplierPayments db' = supplierPayments db"
    "bankLines db' = updateWhere (\<lambda>m. bl_id m = bl_id line) (matchedLine INVOICE (i_id x) (now env)) (bankLines db)"
    using same by (simp_all add: db' sameBank_def d2 d1 updateBankLine_lines)
  have "linesOk db' \<and> linesKept db db' \<and> covered db'"
    using a by (intro conjI; intro book_line[OF st inv l _ tabs(5)]) (simp_all add: bank_inv_defs tabs pay)
  moreover have xm: "x \<in> set (invoices db)" using findInvoice_SomeD[OF x] by simp
  have "settledDocs i_id i_total (\<lambda>x. i_status x = PAID) pay_invoiceId pay_amount (invoices db') (payments db')"
    unfolding tabs
    using inv ra paid le pay by (simp add: d2 d1, intro collect.pay[OF st _ xm])
      (simp_all add: bankInv_def bank_inv_defs)
  then have "invoicesSettled db'"
    using inv unfolding tabs d2 d1 by (auto simp: bankInv_def bank_inv_defs updateWhere_set setInvoicePaid_def tabs d1 d2)
  moreover have "suppliersSettled db'" using inv by (simp add: bankInv_def bank_inv_defs tabs)
  ultimately show ?thesis by (simp add: bankInv_def)
qed

lemma reconcileSupplierInvoice_inv:
  assumes st: "exact_store (storeDec env)" and inv: "bankInv db" and l: "line \<in> set (bankLines db)" "bl_status line = UNMATCHED"
    and r: "reconcileSupplierInvoice env u r (cents (bl_amount line)) line db = Inr (pay, db')"
  shows "bankInv db' \<and> linesKept db db'"
proof -
  let ?a = "cents (bl_amount line)"
  obtain x ids db1 db2 db3 paid where a: "?a < 0" and x: "findSupplierInvoice (act_company u) (rq_targetId r) db = Some x"
    and paid: "paid = round2 (reduceSum (map cents (supplierAmounts (si_id x) db)))"
    and le: "\<not> round2 (max (fsub (cents (si_total x)) paid) 0) < round2 \<bar>?a\<bar>"
    and pay: "sp_supplierInvoiceId pay = si_id x" "sp_amount pay = storeDec env 100 (round2 \<bar>?a\<bar>)"
    and d1: "db1 = db\<lparr>supplierPayments := supplierPayments db @ [pay]\<rparr>"
    and d2: "db2 = updateSupplierInvoice (si_id x) (setSupplierPaid (cents (si_total x) \<le> round2 (fadd paid (round2 \<bar>?a\<bar>)))) db1"
    and post: "if rq_autoPost r then insertEntry (autoEntry env u (uuid env 1) (bl_date line)
       (''Reconciliere bancara plata '' @ si_number x) (currentPeriod (bl_date line)) ''BANK_RECONCILIATION''
       [(ids ! 1, round2 \<bar>?a\<bar>, 0, ''Stingere datorie '' @ si_number x),
        (ids ! 0, 0, round2 \<bar>?a\<bar>, ''Plata reconciliata '' @ si_number x)] db2) db2 = Inr db3 else db3 = db2"
    and db': "db' = writeAudit u ''bank_statement_lines'' (Some (bl_id line)) ''RECONCILE'' (rq_reason r)
       (updateBankLine (bl_id line) (matchedLine SUPPLIER_INVOICE (si_id x) (now env)) db3)"
    using r by (rule reconcileSupplierInvoice_InrD)
  have ra: "0 < round2 \<bar>?a\<bar>" using a lineAmount_abs(3)[of "bl_amount line"] by simp
  have same: "sameBank db2 db3" using post insertEntry_bank by (auto simp: sameBank_def split: if_splits)
  have tabs: "supplierInvoices db' = supplierInvoices db2" "supplierPayments db' = supplierPayments db @ [pay]"
    "invoices db' = invoices db" "payments db' = payments db"
    "bankLines db' = updateWhere (\<lambda>m. bl_id m = bl_id line) (matchedLine SUPPLIER_INVOICE (si_id x) (now env)) (bankLines db)"
    using same by (simp_all add: db' sameBank_def d2 d1 updateBankLine_lines)
  have "linesOk db' \<and> linesKept db db' \<and> covered db'"
    using a by (intro conjI; intro book_line[OF st inv l _ tabs(5)]) (simp_all add: bank_inv_defs tabs pay)
  moreover have xm: "x \<in> set (supplierInvoices db)" using findSupplierInvoice_SomeD[OF x] by simp
  have "settledDocs si_id si_total (\<lambda>x. si_status x = SI_PAID) sp_supplierInvoiceId sp_amount (supplierInvoices db') (supplierPayments db')"
    unfolding tabs
    using inv ra paid le pay by (simp add: d2 d1, intro disburse.pay[OF st _ xm])
      (simp_all add: bankInv_def bank_inv_defs)
  then have "suppliersSettled db'"
    using inv unfolding tabs d2 d1 by (auto simp: bankInv_def bank_inv_defs updateWhere_set setSupplierPaid_def tabs d1 d2)
  moreover have "invoicesSettled db'" using inv by (simp add: bankInv_def bank_inv_defs tabs)
  ultimately show ?thesis by (simp add: bankInv_def)
qed

lemma reconcileCommit_InrD:
  assumes "reconcileCommit env u i r pl db = Inr (p, db')"
  obtains line db1 where "findBankLine (act_company u) i db = Some line" "bl_status line = UNMATCHED"
    "(\<exists>q. rq_targetType r = INVOICE \<and> p = Inl q \<and> reconcileInvoice env u r (cents (bl_amount pl)) line db = Inr (q, db1)) \<or>
     (\<exists>q. rq_targetType r = SUPPLIER_INVOICE \<and> p = Inr q \<and> reconcileSupplierInvoice env u r (cents (bl_amount pl)) line db = Inr (q, db1))"
    "db' = invalidateFinancialStatementsCache db1"
  using assms that
  by (auto simp: reconcileCommit_def Let_def bindR_eq_Inr mapPayment_def split: if_splits option.splits TargetType.splits)

lemma reconcileCommit_inv:
  assumes st: "exact_store (storeDec env)" and inv: "bankInv db" and r: "reconcileCommit env u i r pl db = Inr (p, db')"
    and pl: "pl' \<in> set (bankLines db)" "bl_id pl' = i" "bl_amount pl' = bl_amount pl"
  shows "bankInv db' \<and> linesKept db db'"
proof -
  obtain line db1 where line: "findBankLine (act_company u) i db = Some line" "bl_status line = UNMATCHED"
    and c: "(\<exists>q. rq_targetType r = INVOICE \<and> p = Inl q \<and> reconcileInvoice env u r (cents (bl_amount pl)) line db = Inr (q, db1)) \<or>
     (\<exists>q. rq_targetType r = SUPPLIER_INVOICE \<and> p = Inr q \<and> reconcileSupplierInvoice env u r (cents (bl_amount pl)) line db = Inr (q, db1))"
    and db': "db' = invalidateFinancialStatementsCache db1"
    using r by (rule reconcileCommit_InrD)
  note lm = findBankLine_SomeD[OF line(1)]
  have "line = pl'" using sorted_wrt_unique[of bl_id "bankLines db" line pl'] inv lm pl by (simp add: bankInv_def linesOk_def)
  then have am: "bl_amount pl = bl_amount line" using pl(3) by simp
  have "bankInv db1 \<and> linesKept db db1"
    using c lm reconcileInvoice_inv[OF st inv _ line(2)] reconcileSupplierInvoice_inv[OF st inv _ line(2)]
    unfolding am by blast
  moreover have "sameBank db1 db'" by (simp add: sameBank_def db')
  ultimately show ?thesis using bankInv_same[of db1 db'] by (simp add: linesKept_def db')
qed

section \<open>The other operations\<close>

lemma insertBankLines_InrD:
  "insertBankLines ls db = Inr db' \<Longrightarrow> db' = db\<lparr>bankLines := bankLines db @ ls\<rparr> \<and>
     (sorted_wrt (\<lambda>x y. bl_id x \<noteq> bl_id y) (bankLines db) \<longrightarrow> sorted_wrt (\<lambda>x y. bl_id x \<noteq> bl_id y) (bankLines db @ ls))"
proof (induction ls arbitrary: db)
  case (Cons l ls)
  then obtain db1 where i: "insertBankLine l db = Inr db1" and r: "insertBankLines ls db1 = Inr db'" by (auto simp: bindR_eq_Inr)
  have d1: "db1 = db\<lparr>bankLines := bankLines db @ [l]\<rparr>" and nc: "\<forall>m \<in> set (bankLines db). \<not> bankLineClash l m"
    using i by (auto simp: insertBankLine_def list_ex_iff split: if_splits)
  have "bl_id m \<noteq> bl_id l" if "m \<in> set (bankLines db)" for m using nc that by (auto simp: bankLineClash_def)
  then show ?case using Cons.IH[OF r] by (auto simp: d1 sorted_wrt_append)
qed simp

text \<open>An operation that only adds unmatched lines, with keys of their own.\<close>

definition addsLines :: "'z banking_scheme \<Rightarrow> 'z banking_scheme \<Rightarrow> bool" where
  "addsLines db db' \<longleftrightarrow> invoices db' = invoices db \<and> payments db' = payments db \<and>
     supplierInvoices db' = supplierInvoices db \<and> supplierPayments db' = supplierPayments db \<and>
     (\<exists>ls. bankLines db' = bankLines db @ ls \<and> (\<forall>l \<in> set ls. bl_status l = UNMATCHED \<and> lineOk l)) \<and>
     (sorted_wrt (\<lambda>x y. bl_id x \<noteq> bl_id y) (bankLines db) \<longrightarrow> sorted_wrt (\<lambda>x y. bl_id x \<noteq> bl_id y) (bankLines db'))"

lemma addsLines_refl [simp]: "addsLines db db"
  by (simp add: addsLines_def)

lemma addsLines_trans: "addsLines a b \<Longrightarrow> addsLines b c \<Longrightarrow> addsLines a c"
  unfolding addsLines_def by (elim conjE exE) (auto intro!: exI)

lemma addsLines_inv:
  assumes inv: "bankInv db" and a: "addsLines db db'"
  shows "bankInv db' \<and> linesKept db db'"
proof -
  obtain ls where tabs: "bankLines db' = bankLines db @ ls" "invoices db' = invoices db" "payments db' = payments db"
    "supplierInvoices db' = supplierInvoices db" "supplierPayments db' = supplierPayments db"
    and new: "\<forall>l \<in> set ls. bl_status l = UNMATCHED \<and> lineOk l"
    and so: "sorted_wrt (\<lambda>x y. bl_id x \<noteq> bl_id y) (bankLines db) \<longrightarrow> sorted_wrt (\<lambda>x y. bl_id x \<noteq> bl_id y) (bankLines db')"
    using a by (auto simp: addsLines_def)
  have "filter (matchedTo t k) ls = []" for t k using new by (auto simp: filter_empty_conv matchedTo_def)
  then have m: "matchedAmounts t k (bankLines db') = matchedAmounts t k (bankLines db)" for t k
    by (simp add: matchedAmounts_def tabs)
  have "linesOk db'" using inv new so by (auto simp: bankInv_def linesOk_def tabs)
  moreover have "covered db'" using inv unfolding bankInv_def covered_def m by (simp add: bank_inv_defs tabs)
  moreover have "invoicesSettled db'" "suppliersSettled db'" using inv by (simp_all add: bankInv_def bank_inv_defs tabs)
  moreover have "linesKept db db'" by (auto simp: linesKept_def tabs lineFixed_def)
  ultimately show ?thesis by (simp add: bankInv_def)
qed

lemma import_inv:
  assumes inv: "bankInv db" and i: "importBankStatement env u r db = Inr (s, db')"
  shows "bankInv db' \<and> linesKept db db'"
proof -
  define ls where "ls = map (\<lambda>(k, l). importedLine env u (uuid env 0) k l) (List.enumerate 0 (im_lines r))"
  obtain db1 db2 where d1: "db1 = db\<lparr>bankStatements := bankStatements db @ [s]\<rparr>" and b: "insertBankLines ls db1 = Inr db2"
    and db': "db' = writeAudit u ''bank_statements'' (Some (bs_id s)) ''CREATE'' (im_reason r) db2"
    using i by (auto simp: importBankStatement_def Let_def bindR_eq_Inr insertBankStatement_def ls_def split: if_splits option.splits)
  have "bl_status l = UNMATCHED \<and> lineOk l" if "l \<in> set ls" for l
    using that by (auto simp: ls_def importedLine_def lineOk_def)
  then have "addsLines db db'" using insertBankLines_InrD[OF b] by (simp add: addsLines_def db' d1)
  then show ?thesis by (rule addsLines_inv[OF inv])
qed

lemma ignore_inv:
  assumes inv: "bankInv db" and i: "ignoreLine u i reason db = Inr db'"
  shows "bankInv db' \<and> linesKept db db'"
proof -
  obtain l where l: "findBankLine (act_company u) i db = Some l" "bl_status l = UNMATCHED"
    and db': "db' = writeAudit u ''bank_statement_lines'' (Some (bl_id l)) ''IGNORE'' reason
            (updateBankLine (bl_id l) (\<lambda>l. l\<lparr> bl_status := IGNORED, bl_matchedType := None,
               bl_matchedRecordId := None, bl_matchedAt := None \<rparr>) db)"
    using i by (auto simp: ignoreLine_def split: option.splits if_splits)
  have lo: "linesOk db" and lm: "l \<in> set (bankLines db)" using inv findBankLine_SomeD[OF l(1)] by (simp_all add: bankInv_def)
  have ls: "bankLines db' = updateWhere (\<lambda>m. bl_id m = bl_id l) (\<lambda>l. l\<lparr> bl_status := IGNORED, bl_matchedType := None,
               bl_matchedRecordId := None, bl_matchedAt := None \<rparr>) (bankLines db)"
    by (simp add: db' updateBankLine_lines)
  have tabs: "invoices db' = invoices db" "payments db' = payments db"
    "supplierInvoices db' = supplierInvoices db" "supplierPayments db' = supplierPayments db"
    by (simp_all add: db')
  note pl = process_line[OF lo lm l(2) _ _ _ _ _ ls, simplified lineOk_def matchedTo_def, simplified]
  have "covered db'" using inv unfolding bankInv_def covered_def pl(3) by (simp add: bank_inv_defs tabs)
  moreover have "invoicesSettled db'" "suppliersSettled db'" using inv by (simp_all add: bankInv_def bank_inv_defs tabs)
  ultimately show ?thesis using pl(1,2) by (simp add: bankInv_def)
qed

text \<open>An operation that leaves the lines alone and only adds payments keeps every line covered.\<close>

lemma bankInv_frame:
  assumes inv: "bankInv db" and ls: "bankLines db' = bankLines db" and p: "payments db' = payments db @ ps" "supplierPayments db' = supplierPayments db @ qs"
    and "invoicesSettled db'" "suppliersSettled db'"
  shows "bankInv db' \<and> linesKept db db'"
proof -
  have "mset (invoiceAmounts i db) \<subseteq># mset (invoiceAmounts i db')" "mset (supplierAmounts i db) \<subseteq># mset (supplierAmounts i db')" for i
    by (simp_all add: bank_inv_defs p)
  then have "covered db'" using inv unfolding bankInv_def covered_def ls by (meson subset_mset.order_trans)
  then show ?thesis using assms linesKept_refl[OF ls] by (simp add: bankInv_def linesOk_def)
qed

lemma issue_bank:
  assumes st: "exact_store (storeDec env)" and inv: "bankInv db" and c: "createInvoice env u r db = Inr (x, db')"
  shows "bankInv db' \<and> linesKept db db'"
proof -
  obtain d ids db1 db2 where r: "createInvoiceSchema r" "resolveInvoice u (i_issueDate x) r db = Inr d"
    and x: "i_kind x = ci_kind r" "i_total x = storeDec env 100 (dr_total d)"
    and ins: "insertInvoice x db = Inr db1"
    and post: "if ci_autoPost r \<and> ci_kind r \<noteq> PROFORMA then postInvoice env u r (i_issueDate x) d ids db1 = Inr db2 else db2 = db1"
    and db': "db' = invalidateInvoiceListCache (invalidateFinancialStatementsCache
           (writeAudit u ''invoices'' (Some (i_id x)) ''CREATE'' (ci_reason r) db2))"
    using c by (rule createInvoice_InrD)
  note i = insertInvoice_InrD[OF ins]
  have "sameBank db1 db2" using post insertEntry_bank by (auto simp: postInvoice_def sameBank_def split: if_splits)
  then have tabs: "invoices db' = invoices db @ [x]" "payments db' = payments db" "supplierInvoices db' = supplierInvoices db"
    "supplierPayments db' = supplierPayments db" "bankLines db' = bankLines db"
    using i by (simp_all add: db' sameBank_def)
  have "0 \<le> i_total x" if "i_kind x = FISCAL" using that draft_fiscal_nonneg[OF r] exact_store_mono[OF st, of 0 "dr_total d"] x st by simp
  moreover have "i_id x \<notin> i_id ` set (invoices db)" using i by (auto simp: invoiceClash_def)
  ultimately have "invoicesSettled db'" using inv collect.add_doc by (auto simp: bankInv_def bank_inv_defs tabs)
  moreover have "suppliersSettled db'" using inv by (simp add: bankInv_def bank_inv_defs tabs)
  ultimately show ?thesis using tabs by (intro bankInv_frame[OF inv, where ps = "[]" and qs = "[]"]) simp_all
qed

lemma collect_bank:
  assumes st: "exact_store (storeDec env)" and inv: "bankInv db" and c: "payInvoice env u i r db = Inr (p, db')"
  shows "bankInv db' \<and> linesKept db db'"
proof -
  obtain x ids db1 db2 db3 paid newStatus where a: "0 < pr_amount r"
    and x: "findInvoice (act_company u) i db = Some x" "i_kind x = FISCAL"
    and paid: "paid = round2 (reduceSum (map cents (invoiceAmounts (i_id x) db)))"
    and le: "\<not> round2 (max (fsub (cents (i_total x)) paid) 0) < round2 (pr_amount r)"
    and pay: "pay_invoiceId p = i_id x" "pay_amount p = storeDec env 100 (round2 (pr_amount r))"
    and ins: "insertPayment p db = Inr db1"
    and nx: "newStatus = (if cents (i_total x) \<le> round2 (fadd paid (round2 (pr_amount r))) then PAID else PARTIALLY_PAID)"
    and db2: "db2 = db1\<lparr>invoices := updateWhere (\<lambda>y. i_id y = i_id x) (\<lambda>y. y\<lparr>i_status := newStatus\<rparr>) (invoices db1)\<rparr>"
    and post: "if pr_autoPost r then postPayment env u (pay_date p) (round2 (pr_amount r)) (i_number x) ids db2 = Inr db3 else db3 = db2"
    and db': "db' = invalidateInvoiceListCache (invalidateFinancialStatementsCache
           (writeAudit u ''payments'' (Some (pay_id p)) ''CREATE'' (pr_reason r) db3))"
    using c by (rule payInvoice_InrD)
  have upd: "(\<lambda>y. y\<lparr>i_status := newStatus\<rparr>) = setInvoicePaid (cents (i_total x) \<le> round2 (fadd paid (round2 (pr_amount r))))"
    by (simp add: nx fun_eq_iff setInvoicePaid_def)
  have "sameBank db2 db3" using post insertEntry_bank by (auto simp: postPayment_def sameBank_def split: if_splits)
  then have tabs: "invoices db' = updateWhere (\<lambda>y. i_id y = i_id x) (\<lambda>y. y\<lparr>i_status := newStatus\<rparr>) (invoices db)"
    "payments db' = payments db @ [p]" "supplierInvoices db' = supplierInvoices db"
    "supplierPayments db' = supplierPayments db" "bankLines db' = bankLines db"
    using insertPayment_InrD[OF ins] by (simp_all add: db' db2 sameBank_def)
  have xm: "x \<in> set (invoices db)" using findInvoice_SomeD[OF x(1)] by simp
  have pos: "0 \<le> round2 (pr_amount r)" using a by (intro round2_nonneg) simp
  have "settledDocs i_id i_total (\<lambda>x. i_status x = PAID) pay_invoiceId pay_amount (invoices db') (payments db')"
    unfolding tabs upd using inv x(2) xm paid le pay pos
    by (intro collect.pay[OF st _ xm]) (simp_all add: bankInv_def bank_inv_defs)
  then have "invoicesSettled db'" using inv by (auto simp: bankInv_def bank_inv_defs updateWhere_set tabs)
  moreover have "suppliersSettled db'" using inv by (simp add: bankInv_def bank_inv_defs tabs)
  ultimately show ?thesis using tabs by (intro bankInv_frame[OF inv, where ps = "[p]" and qs = "[]"]) simp_all
qed

lemma disburse_bank:
  assumes st: "exact_store (storeDec env)" and inv: "bankInv db" and c: "paySupplierInvoice env u i r db = Inr (p, db')"
  shows "bankInv db' \<and> linesKept db db'"
proof -
  obtain x ids db1 db2 db3 paid newStatus where a: "0 < pr_amount r"
    and x: "findSupplierInvoice (act_company u) i db = Some x"
    and paid: "paid = round2 (reduceSum (map cents (supplierAmounts (si_id x) db)))"
    and le: "\<not> round2 (max (fsub (cents (si_total x)) paid) 0) < round2 (pr_amount r)"
    and pay: "sp_supplierInvoiceId p = si_id x" "sp_amount p = storeDec env 100 (round2 (pr_amount r))"
    and d1: "db1 = db\<lparr>supplierPayments := supplierPayments db @ [p]\<rparr>"
    and nx: "newStatus = (if cents (si_total x) \<le> round2 (fadd paid (round2 (pr_amount r))) then SI_PAID else SI_PARTIALLY_PAID)"
    and d2: "db2 = updateSupplierInvoice (si_id x) (\<lambda>y. y\<lparr>si_status := newStatus\<rparr>) db1"
    and post: "if pr_autoPost r then insertEntry (autoEntry env u (uuid env 1) (sp_date p) (''Plata furnizor '' @ si_number x)
        (currentPeriod (sp_date p)) ''TREASURY''
        [(ids ! 1, round2 (pr_amount r), 0, ''Stingere datorie '' @ si_number x),
         (ids ! 0, 0, round2 (pr_amount r), ''Plata '' @ si_number x)] db2) db2 = Inr db3 else db3 = db2"
    and db': "db' = invalidateFinancialStatementsCache (writeAudit u ''supplier_payments'' (Some (sp_id p)) ''CREATE'' (pr_reason r) db3)"
    using c by (rule paySupplier_InrD)
  have upd: "(\<lambda>y. y\<lparr>si_status := newStatus\<rparr>) = setSupplierPaid (cents (si_total x) \<le> round2 (fadd paid (round2 (pr_amount r))))"
    by (simp add: nx fun_eq_iff setSupplierPaid_def)
  have "sameBank db2 db3" using post insertEntry_bank by (auto simp: sameBank_def split: if_splits)
  then have tabs: "supplierInvoices db' = updateWhere (\<lambda>y. si_id y = si_id x) (\<lambda>y. y\<lparr>si_status := newStatus\<rparr>) (supplierInvoices db)"
    "supplierPayments db' = supplierPayments db @ [p]" "invoices db' = invoices db" "payments db' = payments db"
    "bankLines db' = bankLines db"
    by (simp_all add: db' d2 d1 sameBank_def)
  have xm: "x \<in> set (supplierInvoices db)" using findSupplierInvoice_SomeD[OF x(1)] by simp
  have pos: "0 \<le> round2 (pr_amount r)" using a by (intro round2_nonneg) simp
  have "settledDocs si_id si_total (\<lambda>x. si_status x = SI_PAID) sp_supplierInvoiceId sp_amount (supplierInvoices db') (supplierPayments db')"
    unfolding tabs upd using inv xm paid le pay pos
    by (intro disburse.pay[OF st _ xm]) (simp_all add: bankInv_def bank_inv_defs)
  then have "suppliersSettled db'" using inv by (auto simp: bankInv_def bank_inv_defs updateWhere_set tabs)
  moreover have "invoicesSettled db'" using inv by (simp add: bankInv_def bank_inv_defs tabs)
  ultimately show ?thesis using tabs by (intro bankInv_frame[OF inv, where ps = "[]" and qs = "[p]"]) simp_all
qed

lemma register_bank:
  assumes st: "exact_store (storeDec env)" and inv: "bankInv db" and c: "createSupplierInvoice env u r db = Inr (x, db')"
  shows "bankInv db' \<and> linesKept db db'"
proof -
  obtain ids db1 db2 T where sc: "createSupplierInvoiceSchema r" and T: "T = round2 (fadd (cs_subtotal r) (cs_vat r))"
    and ins: "insertSupplierInvoice x db = Inr db1" and x: "si_total x = storeDec env 100 T"
    and post: "if cs_autoPost r then insertEntry (autoEntry env u (uuid env 1) (si_receivedDate x)
        (''Postare automata factura furnizor '' @ cs_number r) (currentPeriod (si_receivedDate x)) ''ACCOUNTS_PAYABLE''
        (supplierInvoiceLines r T ids) db1) db1 = Inr db2 else db2 = db1"
    and db': "db' = invalidateFinancialStatementsCache (writeAudit u ''supplier_invoices'' (Some (si_id x)) ''CREATE'' (cs_reason r) db2)"
    using c by (rule createSupplier_InrD)
  have d1: "db1 = db\<lparr>supplierInvoices := supplierInvoices db @ [x]\<rparr>" and nc: "\<forall>y \<in> set (supplierInvoices db). \<not> supplierInvoiceClash x y"
    using ins by (auto simp: insertSupplierInvoice_def list_ex_iff split: if_splits)
  have "sameBank db1 db2" using post insertEntry_bank by (auto simp: sameBank_def split: if_splits)
  then have tabs: "supplierInvoices db' = supplierInvoices db @ [x]" "supplierPayments db' = supplierPayments db" "invoices db' = invoices db"
    "payments db' = payments db" "bankLines db' = bankLines db"
    by (simp_all add: db' d1 sameBank_def)
  have "0 \<le> T" unfolding T using sc by (intro round2_nonneg) (simp add: createSupplierInvoiceSchema_def fadd_def fl_nonneg)
  then have "0 \<le> si_total x" using exact_store_mono[OF st, of 0 T] st by (simp add: x)
  moreover have "si_id x \<notin> si_id ` set (supplierInvoices db)" using nc by (auto simp: supplierInvoiceClash_def)
  ultimately have "suppliersSettled db'" using inv disburse.add_doc by (auto simp: bankInv_def bank_inv_defs tabs)
  moreover have "invoicesSettled db'" using inv by (simp add: bankInv_def bank_inv_defs tabs)
  ultimately show ?thesis using tabs by (intro bankInv_frame[OF inv, where ps = "[]" and qs = "[]"]) simp_all
qed

text \<open>Approving and rejecting keep the key, the total and the status of every supplier invoice.\<close>

lemma flow_bank:
  assumes inv: "bankInv db" and tabs: "bankLines db' = bankLines db" "invoices db' = invoices db" "payments db' = payments db"
      "supplierPayments db' = supplierPayments db" "supplierInvoices db' = updateWhere P f (supplierInvoices db)"
    and f: "\<And>x. si_id (f x) = si_id x \<and> si_total (f x) = si_total x \<and> si_status (f x) = si_status x"
  shows "bankInv db' \<and> linesKept db db'"
proof -
  have g: "si_id (if P x then f x else x) = si_id x" "si_total (if P x then f x else x) = si_total x"
    "si_status (if P x then f x else x) = si_status x" for x by (simp_all add: f)
  have "suppliersSettled db'" using inv g f
    by (auto simp: bankInv_def bank_inv_defs tabs updateWhere_def intro!: disburse.update_docs)
  moreover have "invoicesSettled db'" using inv by (simp add: bankInv_def bank_inv_defs tabs)
  ultimately show ?thesis using tabs by (intro bankInv_frame[OF inv, where ps = "[]" and qs = "[]"]) simp_all
qed

lemma approve_bank:
  assumes inv: "bankInv db" and c: "approveSupplierInvoice env u role ch i r db = Inr db'"
  shows "bankInv db' \<and> linesKept db db'"
  using c
proof (rule approve_InrD)
  fix x approver fromId db1 lv q
  assume ins: "insertApproval \<lparr> ap_id = uuid env 0, ap_companyId = act_company u, ap_supplierInvoiceId = si_id x,
       ap_level = lv, ap_action = APPROVE, ap_channel = ch, ap_note = aq_note r,
       ap_approvedById = approver, ap_delegatedFromUserId = fromId \<rparr> db = Inr db1"
    and si: "supplierInvoices db' = updateWhere (\<lambda>y. si_id y = si_id x) (approvedData lv q (now env) approver) (supplierInvoices db1)"
  have "bankLines db' = bankLines db" "invoices db' = invoices db" "payments db' = payments db" "supplierPayments db' = supplierPayments db"
    using c by (auto simp: approveSupplierInvoice_def Let_def bindR_eq_Inr insertApproval_def split: if_splits option.splits)
  moreover have e: "supplierInvoices db1 = supplierInvoices db" using insertApproval_InrD[OF ins] by simp
  ultimately show ?thesis by (intro flow_bank[OF inv _ _ _ _ si[unfolded e]]) simp_all
qed

lemma reject_bank:
  assumes inv: "bankInv db" and c: "rejectSupplierInvoice env u role i reason note db = Inr db'"
  shows "bankInv db' \<and> linesKept db db'"
  using c
proof (rule reject_InrD)
  fix x approver fromId db1 lv
  assume ins: "insertApproval \<lparr> ap_id = uuid env 0, ap_companyId = act_company u, ap_supplierInvoiceId = si_id x,
            ap_level = lv, ap_action = REJECT, ap_channel = WEB, ap_note = note,
            ap_approvedById = approver, ap_delegatedFromUserId = fromId \<rparr> db = Inr db1"
    and si: "supplierInvoices db' = updateWhere (\<lambda>y. si_id y = si_id x) (\<lambda>y. y\<lparr> si_approvalStatus := REJECTED,
       si_approvalFinalizedAt := Some (now env), si_approvalFinalizedById := Some approver,
       si_approvalRejectedReason := Some reason \<rparr>) (supplierInvoices db1)"
  have "bankLines db' = bankLines db" "invoices db' = invoices db" "payments db' = payments db" "supplierPayments db' = supplierPayments db"
    using c by (auto simp: rejectSupplierInvoice_def Let_def bindR_eq_Inr insertApproval_def split: if_splits option.splits)
  moreover have e: "supplierInvoices db1 = supplierInvoices db" using insertApproval_InrD[OF ins] by simp
  ultimately show ?thesis by (intro flow_bank[OF inv _ _ _ _ si[unfolded e]]) simp_all
qed

lemma delegate_bank:
  assumes inv: "bankInv db" and c: "createDelegation env u role r db = Inr (d, db')"
  shows "bankInv db' \<and> linesKept db db'"
proof -
  have "sameBank db db'"
    using c by (auto simp: createDelegation_def Let_def bindR_eq_Inr insertDelegation_def sameBank_def split: if_splits option.splits)
  then show ?thesis using inv bankInv_same[of db db'] linesKept_refl[of db' db] by (simp add: sameBank_def)
qed

lemma other_routes_bank:
  "sales_step db db' \<Longrightarrow> bankInv db \<Longrightarrow> bankInv db' \<and> linesKept db db'"
  "purchase_step db db' \<Longrightarrow> bankInv db \<Longrightarrow> bankInv db' \<and> linesKept db db'"
  by (auto elim!: sales_stepE purchase_stepE dest: issue_bank collect_bank register_bank delegate_bank approve_bank reject_bank disburse_bank)

section \<open>Interleaved requests\<close>

text \<open>A request to reconcile between its preview and its transaction: the actor, the id of the line,
  the body and the line the preview read.\<close>

record pending_match =
  pm_actor :: actor
  pm_lineId :: id
  pm_request :: reconcile_req
  pm_line :: bank_line

inductive bank_step :: "pending_match list \<times> 'z banking_scheme \<Rightarrow> pending_match list \<times> 'z banking_scheme \<Rightarrow> bool" where
  statement: "importBankStatement env u r db = Inr (s, db') \<Longrightarrow> bank_step (ps, db) (ps, db')"
| preview: "reconcilePreview u i r db = Inr l \<Longrightarrow>
    bank_step (ps, db) (ps @ [\<lparr> pm_actor = u, pm_lineId = i, pm_request = r, pm_line = l \<rparr>], db)"
| commit: "exact_store (storeDec env) \<Longrightarrow> p \<in> set ps \<Longrightarrow>
    reconcileCommit env (pm_actor p) (pm_lineId p) (pm_request p) (pm_line p) db = Inr (y, db') \<Longrightarrow>
    bank_step (ps, db) (remove1 p ps, db')"
| refuse: "p \<in> set ps \<Longrightarrow> bank_step (ps, db) (remove1 p ps, db)"
| ignore: "ignoreLine u i reason db = Inr db' \<Longrightarrow> bank_step (ps, db) (ps, db')"
| sell: "sales_step db db' \<Longrightarrow> bank_step (ps, db) (ps, db')"
| buy: "purchase_step db db' \<Longrightarrow> bank_step (ps, db) (ps, db')"

inductive_cases bank_stepE: "bank_step (ps, db) (ps', db')"

text \<open>What a pending request read still holds of its line: the key, the date and the amount.\<close>

definition previewOk :: "'z banking_scheme \<Rightarrow> pending_match \<Rightarrow> bool" where
  "previewOk db p \<longleftrightarrow> (\<exists>l \<in> set (bankLines db). bl_id l = pm_lineId p \<and> bl_amount l = bl_amount (pm_line p) \<and> bl_date l = bl_date (pm_line p))"

lemma previewOk_kept: "linesKept db db' \<Longrightarrow> previewOk db p \<Longrightarrow> previewOk db' p"
  unfolding previewOk_def linesKept_def lineFixed_def by metis

lemma bank_step_inv:
  assumes s: "bank_step (ps, db) (ps', db')" and inv: "bankInv db" and pv: "\<forall>p \<in> set ps. previewOk db p"
  shows "bankInv db' \<and> linesKept db db' \<and> (\<forall>p \<in> set ps'. previewOk db' p)"
proof -
  have kept: "\<forall>p \<in> set qs. previewOk db' p" if "linesKept db db'" "set qs \<subseteq> set ps" for qs
    using that pv previewOk_kept by blast
  from s show ?thesis
  proof (elim bank_stepE, goal_cases)
    case (1 env u r s) then show ?thesis using import_inv[OF inv] kept by blast
  next
    case (2 u i r l)
    then have "findBankLine (act_company u) i db = Some l"
      by (auto simp: reconcilePreview_def bindR_eq_Inr split: if_splits option.splits)
    then have "previewOk db \<lparr> pm_actor = u, pm_lineId = i, pm_request = r, pm_line = l \<rparr>"
      by (auto simp: previewOk_def dest: findBankLine_SomeD)
    then show ?thesis using 2 inv pv linesKept_refl[of db db] by simp
  next
    case (3 env p y)
    then obtain l where "l \<in> set (bankLines db)" "bl_id l = pm_lineId p" "bl_amount l = bl_amount (pm_line p)"
      using pv by (auto simp: previewOk_def)
    from reconcileCommit_inv[OF 3(2) inv 3(4) this] show ?thesis
      using kept[of ps'] 3(1) set_remove1_subset[of p ps] by simp
  next
    case (4 p) then show ?thesis using inv kept[of ps'] set_remove1_subset[of p ps] linesKept_refl[of db' db] by simp
  next
    case (5 u i reason) then show ?thesis using ignore_inv[OF inv] kept by blast
  next
    case 6 then show ?thesis using other_routes_bank(1)[OF _ inv] kept by blast
  next
    case 7 then show ?thesis using other_routes_bank(2)[OF _ inv] kept by blast
  qed
qed

lemma bank_reach_inv:
  assumes "bank_step\<^sup>*\<^sup>* s s'" "bankInv (snd s)" "\<forall>p \<in> set (fst s). previewOk (snd s) p"
  shows "bankInv (snd s') \<and> linesKept (snd s) (snd s') \<and> (\<forall>p \<in> set (fst s'). previewOk (snd s') p)"
  using assms
proof (induction rule: rtranclp_induct)
  case base then show ?case using linesKept_refl[of "snd s" "snd s"] by simp
next
  case (step a b)
  then have a: "bankInv (snd a)" "linesKept (snd s) (snd a)" "\<forall>p \<in> set (fst a). previewOk (snd a) p" by simp_all
  have "bank_step (fst a, snd a) (fst b, snd b)" using step.hyps by simp
  from bank_step_inv[OF this a(1,3)] show ?case using linesKept_trans[OF a(2)] by blast
qed

end
