(* ===== verification/BankFiles.thy ===== *)
theory BankFiles
  imports CsvStatements Camt053 BankMatching
begin

text \<open>
  Reading a bank statement file (lib/bank-statement-file-parser.ts, \<open>parseBankStatementFile\<close>) and importing
  it (routes/bank-reconciliation.ts, \<open>POST /statements/import-file\<close>): the format, the checks that every
  format shares, and the request that the import receives.
\<close>

section \<open>Formats\<close>

datatype BankStatementFileFormat = AUTO | MT940 | CAMT053 | CSV

record file_input =
  fi_fileName :: "string option"
  fi_mimeType :: "string option"
  fi_content :: string
  fi_format :: "BankStatementFileFormat option"
  fi_csvDelimiter :: "string option"

definition isWord :: "char \<Rightarrow> bool" where
  "isWord c \<longleftrightarrow> isDigit c \<or> isUpper c \<or> isLower c \<or> c = CHR ''_''"

text \<open>\<open>/<(?:\w+:)?name\b/\<close> at the start of the text, and anywhere in it.\<close>

definition opensElement :: "string \<Rightarrow> string \<Rightarrow> bool" where
  "opensElement name s \<longleftrightarrow> startsWith s ''<'' \<and>
     (let r = tl s; p = takeWhile isWord r; q = dropWhile isWord r;
          here = (\<lambda>t. startsWith t name \<and> (drop (length name) t = [] \<or> \<not> isWord (hd (drop (length name) t))))
      in here r \<or> (p \<noteq> [] \<and> startsWith q '':'' \<and> here (tl q)))"

definition anywhere :: "(string \<Rightarrow> bool) \<Rightarrow> string \<Rightarrow> bool" where
  "anywhere P s \<longleftrightarrow> list_ex (\<lambda>i. P (drop i s)) [0..<length s + 1]"

definition resolveFormat :: "file_input \<Rightarrow> BankStatementFileFormat" where
  "resolveFormat i =
     (let explicit = orElse (fi_format i) AUTO in
      if explicit \<noteq> AUTO then explicit else
      let fileName = toLowerCase (orElse (fi_fileName i) '''') in
      if endsWith fileName ''.xml'' then CAMT053
      else if endsWith fileName ''.csv'' then CSV
      else if endsWith fileName ''.mt940'' \<or> endsWith fileName ''.sta'' then MT940 else
      let mimeType = toLowerCase (orElse (fi_mimeType i) '''') in
      if includesText mimeType ''xml'' then CAMT053
      else if includesText mimeType ''csv'' then CSV else
      let sample = take 4096 (fi_content i) in
      if anywhere (opensElement ''BkToCstmrStmt'') sample \<or> anywhere (opensElement ''Document'') sample then CAMT053
      else if includesText sample '':61:'' \<and> (includesText sample '':62F:'' \<or> includesText sample '':62M:'') then MT940
      else CSV)"

section \<open>The checks of every format\<close>

definition sanitizeLine :: "parsed_line \<Rightarrow> parsed_line parsed" where
  "sanitizeLine l =
     (if \<not> isFinite (pf_amount l) \<or> pf_amount l = 0 then Inl ''Linia are suma invalida.'' else
      bindR (normalizeIban (pf_counterpartyIban l)) (\<lambda>iban.
      Inr \<lparr> pf_date = pf_date l, pf_amount = round2 (pf_amount l), pf_description = normalizeWhitespace (pf_description l),
        pf_reference = normalizeWhitespace (pf_reference l), pf_counterpartyName = normalizeWhitespace (pf_counterpartyName l),
        pf_counterpartyIban = iban \<rparr>))"

fun mapR :: "('a \<Rightarrow> 'b parsed) \<Rightarrow> 'a list \<Rightarrow> 'b list parsed" where
  "mapR f [] = Inr []"
| "mapR f (x # xs) = bindR (f x) (\<lambda>y. bindR (mapR f xs) (\<lambda>ys. Inr (y # ys)))"

definition sanitizeLines :: "parsed_line list \<Rightarrow> parsed_line list parsed" where
  "sanitizeLines ls =
     (if ls = [] then Inl ''Extrasul nu contine tranzactii.''
      else if MAX_LINES < length ls then Inl ''Extrasul contine prea multe linii.''
      else mapR sanitizeLine ls)"

record parsed_file =
  pb_detectedFormat :: BankStatementFileFormat
  pb_statementDate :: date
  pb_currency :: "string option"
  pb_openingBalance :: "double option"
  pb_closingBalance :: "double option"
  pb_sourceLabel :: string
  pb_lines :: "parsed_line list"

fun formatName :: "BankStatementFileFormat \<Rightarrow> string" where
  "formatName AUTO = ''AUTO''"
| "formatName MT940 = ''MT940''"
| "formatName CAMT053 = ''CAMT053''"
| "formatName CSV = ''CSV''"

definition parseBankStatementFile ::
  "(string \<Rightarrow> json) \<Rightarrow> (string \<Rightarrow> date option) \<Rightarrow> file_input \<Rightarrow> parsed_file parsed" where
  "parseBankStatementFile xmlParse isoTime i =
     (let content = trim (fi_content i); format = resolveFormat i in
      if content = [] then Inl ''Fisierul extras este gol.'' else
      bindR (case format of
          MT940 \<Rightarrow> parseMt940 content
        | CAMT053 \<Rightarrow> parseCamt053 xmlParse isoTime content
        | CSV \<Rightarrow> parseCsv isoTime content (fi_csvDelimiter i)
        | AUTO \<Rightarrow> Inl ''Format fisier neacceptat'') (\<lambda>parsed.
      bindR (sanitizeLines (ps_lines parsed)) (\<lambda>ls.
      let currency = map_option toUpperCase (ps_currency parsed) in
      if currency \<noteq> None \<and> currency \<noteq> Some [] \<and> \<not> isCurrencyCode (the currency) then Inl ''Moneda invalida in extras'' else
      Inr \<lparr> pb_detectedFormat = format, pb_statementDate = ps_statementDate parsed, pb_currency = currency,
        pb_openingBalance = map_option round2 (ps_openingBalance parsed),
        pb_closingBalance = map_option round2 (ps_closingBalance parsed),
        pb_sourceLabel = formatName format @ '':'' @ orElse (fi_fileName i) ''uploaded-file'', pb_lines = ls \<rparr>)))"

section \<open>Importing a file\<close>

text \<open>The form fields next to the file, after the preprocessing of their schema.\<close>

record file_metadata =
  fm_accountCode :: string
  fm_format :: BankStatementFileFormat
  fm_statementDate :: "date option"
  fm_currency :: "string option"
  fm_sourceLabel :: "string option"
  fm_reason :: "string option"
  fm_csvDelimiter :: "string option"

definition importStatementFileSchema :: "file_metadata \<Rightarrow> bool" where
  "importStatementFileSchema m \<longleftrightarrow> fm_accountCode m \<noteq> [] \<and>
     (case fm_currency m of None \<Rightarrow> True | Some c \<Rightarrow> length c = 3) \<and>
     (case fm_sourceLabel m of None \<Rightarrow> True | Some l \<Rightarrow> length l \<le> 120) \<and>
     (case fm_csvDelimiter m of None \<Rightarrow> True | Some d \<Rightarrow> length d = 1)"

definition fileRequest :: "file_metadata \<Rightarrow> parsed_file \<Rightarrow> import_req" where
  "fileRequest m f =
     \<lparr> im_accountCode = fm_accountCode m, im_statementDate = orElse (fm_statementDate m) (pb_statementDate f),
       im_currency = orElse (fm_currency m) (orElse (pb_currency f) ''RON''), im_openingBalance = pb_openingBalance f,
       im_closingBalance = pb_closingBalance f, im_sourceLabel = Some (orElse (fm_sourceLabel m) (pb_sourceLabel f)),
       im_reason = fm_reason m,
       im_lines = map (\<lambda>l. \<lparr> sl_date = pf_date l, sl_amount = pf_amount l, sl_description = pf_description l,
         sl_reference = pf_reference l, sl_counterpartyName = pf_counterpartyName l,
         sl_counterpartyIban = pf_counterpartyIban l \<rparr>) (pb_lines f) \<rparr>"

definition importStatementFile ::
  "env \<Rightarrow> (string \<Rightarrow> json) \<Rightarrow> (string \<Rightarrow> date option) \<Rightarrow> actor \<Rightarrow> (string option \<times> string option \<times> string) option \<Rightarrow> file_metadata \<Rightarrow>
   'z banking_scheme \<Rightarrow> http_error + (bank_statement \<times> 'z banking_scheme)" where
  "importStatementFile env xmlParse isoTime u file m db =
     (case file of None \<Rightarrow> Inl (badRequest ''Fisierul de extras este obligatoriu (field: file).'')
      | Some (name, mime, content) \<Rightarrow>
      if \<not> importStatementFileSchema m then Inl (badRequest ''Date invalide pentru import extras din fisier.'') else
      case parseBankStatementFile xmlParse isoTime \<lparr> fi_fileName = name, fi_mimeType = mime, fi_content = content,
          fi_format = Some (fm_format m), fi_csvDelimiter = fm_csvDelimiter m \<rparr> of
        Inl msg \<Rightarrow> Inl (badRequest (''Import extras esuat: '' @ msg))
      | Inr f \<Rightarrow>
      if \<not> importStatementSchema (fileRequest m f) then Inl (badRequest ''Datele extrase din fisier sunt invalide pentru import.'')
      else importBankStatement env u (fileRequest m f) db)"

end
