(* ===== verification/BankFileGuarantees.thy ===== *)
theory BankFileGuarantees
  imports BankFiles
begin

text \<open>
  What reading a bank statement file guarantees: the shape of every line that is returned, the round
  trips of quoted CSV rows and of rendered MT940 statements, and how the separators of a number are
  read.
\<close>

section \<open>Texts\<close>

lemma dropWhile_idem: "dropWhile P (dropWhile P xs) = dropWhile P xs"
  by (induction xs) auto

lemma dropWhile_fix: "dropWhile P xs = xs \<longleftrightarrow> xs = [] \<or> \<not> P (hd xs)"
proof (cases xs)
  case (Cons a list)
  have "length (dropWhile P list) \<le> length list" by (rule length_dropWhile_le)
  then show ?thesis using Cons by (auto dest: arg_cong[of _ _ length])
qed simp

lemma trim_fix: "trim s = s \<longleftrightarrow> s = [] \<or> \<not> isSpace (hd s) \<and> \<not> isSpace (last s)"
proof
  assume t: "trim s = s"
  have "length (trimEnd (trimStart s)) \<le> length (trimStart s)" "length (trimStart s) \<le> length s"
    using length_dropWhile_le[of isSpace "rev (trimStart s)"] length_dropWhile_le[of isSpace s] by (simp_all add: trimEnd_def trimStart_def)
  then have l: "length (trimStart s) = length s" using t by (simp add: trim_def)
  have "s = takeWhile isSpace s @ trimStart s" by (simp add: trimStart_def)
  then have start: "trimStart s = s" using l by (metis append_eq_append_conv append_self_conv2 length_0_conv length_append add_cancel_left_left)
  then have "rev (dropWhile isSpace (rev s)) = s" using t by (simp add: trim_def trimEnd_def)
  then have "dropWhile isSpace (rev s) = rev s" by (metis rev_rev_ident)
  then show "s = [] \<or> \<not> isSpace (hd s) \<and> \<not> isSpace (last s)"
    using start by (auto simp: trimStart_def dropWhile_fix hd_rev)
next
  assume s: "s = [] \<or> \<not> isSpace (hd s) \<and> \<not> isSpace (last s)"
  then have "trimStart s = s" by (auto simp: trimStart_def dropWhile_fix)
  moreover have "dropWhile isSpace (rev s) = rev s" using s by (auto simp: dropWhile_fix hd_rev)
  ultimately show "trim s = s" by (simp add: trim_def trimEnd_def)
qed

lemma trim_idem [simp]: "trim (trim s) = trim s"
proof (cases "trim s = []")
  case False
  define t where "t = trimStart s"
  have d: "dropWhile isSpace (rev t) \<noteq> []" using False by (simp add: trim_def trimEnd_def t_def)
  have l: "last (trim s) = hd (dropWhile isSpace (rev t))" using d by (simp add: trim_def trimEnd_def t_def last_rev)
  obtain u where u: "t = trim s @ u" unfolding trim_def trimEnd_def t_def[symmetric]
    by (metis rev_append rev_rev_ident takeWhile_dropWhile_id)
  have "t \<noteq> []" using d by auto
  then have "\<not> isSpace (hd t)" unfolding t_def trimStart_def by (intro hd_dropWhile) (auto simp: dropWhile_eq_Nil_conv)
  then have "\<not> isSpace (hd (trim s))" using u False by simp
  moreover have "\<not> isSpace (last (trim s))" unfolding l using d by (intro hd_dropWhile) (auto simp: dropWhile_eq_Nil_conv)
  ultimately show ?thesis using False by (simp add: trim_fix)
qed (simp add: trim_fix)

definition cleanText :: "string option \<Rightarrow> bool" where
  "cleanText v \<longleftrightarrow> (case v of None \<Rightarrow> True | Some s \<Rightarrow> s \<noteq> [] \<and> trim s = s)"

lemma normalizeWhitespace_clean: "cleanText (normalizeWhitespace v)"
  by (auto simp: cleanText_def normalizeWhitespace_def nonEmpty_def split: option.split)

lemma normalizeIban_InrD: "normalizeIban v = Inr w \<Longrightarrow> (case w of None \<Rightarrow> True | Some s \<Rightarrow> IBAN_REGEX s)"
  by (auto simp: normalizeIban_def Let_def split: option.splits if_splits)

section \<open>Lines\<close>

lemma cents_of_zero: "\<exists>k. (0 :: double) = cents k"
  by (rule exI[of _ 0]) simp

definition onCents :: "parsed_line list \<Rightarrow> bool" where
  "onCents ls \<longleftrightarrow> (\<forall>l \<in> set ls. \<exists>k. pf_amount l = cents k)"

lemma onCents_simps [simp]: "onCents []" "onCents (l # ls) \<longleftrightarrow> (\<exists>k. pf_amount l = cents k) \<and> onCents ls"
  "onCents (ls @ ms) \<longleftrightarrow> onCents ls \<and> onCents ms"
  by (auto simp: onCents_def)

lemma parseMt61Line_cents: "parseMt61Line v = Inr (d, a, r) \<Longrightarrow> \<exists>k. a = cents k"
  unfolding parseMt61Line_def Let_def bindR_eq_Inr by (auto simp: bindR_eq_Inr round2_grid split: if_splits)

lemma mtLoop_cents: "mtLoop tags st = Inr st' \<Longrightarrow> onCents (mt_lines st) \<Longrightarrow> onCents (mt_lines st')"
proof (induction tags arbitrary: st)
  case (Cons t tags)
  obtain tag v where t: "t = (tag, v)" by (cases t)
  show ?case
  proof (cases "tag = ''61''")
    case True
    obtain d a r ds n i where p: "parseMt61Line v = Inr (d, a, r)" and m: "mtLoop tags (st\<lparr>mt_lines := mt_lines st @ [\<lparr> pf_date = d, pf_amount = a,
          pf_description = ds, pf_reference = r, pf_counterpartyName = n, pf_counterpartyIban = i \<rparr>]\<rparr>) = Inr st'"
      using Cons.prems(1) True by (auto simp: t bindR_eq_Inr Let_def)
    show ?thesis using Cons.IH[OF m] parseMt61Line_cents[OF p] Cons.prems(2) by simp
  next
    case False
    then show ?thesis using Cons.prems unfolding t mtLoop.simps
      by (simp add: bindR_eq_Inr split: if_splits) (auto dest!: Cons.IH)
  qed
qed simp

lemma csvLoop_cents: "csvLoop isoTime col rows cur ls = Inr (cur', ls') \<Longrightarrow> onCents ls \<Longrightarrow> onCents ls'"
proof (induction rows arbitrary: cur ls)
  case (Cons row rows)
  then show ?case by (simp add: Let_def bindR_eq_Inr split: if_splits) (use round2_grid in fastforce)+
qed simp

lemma camtEntries_cents: "camtEntries isoTime es cur ls = Inr (cur', ls') \<Longrightarrow> onCents ls \<Longrightarrow> onCents ls'"
proof (induction es arbitrary: cur ls)
  case (Cons e es)
  show ?case
  proof (cases "falsy (readNode (Some e) ''Amt'')")
    case False
    obtain x c where r: "readAmountWithCurrency (readNode (Some e) ''Amt'') = Inr (x, c)"
      using Cons.prems(1) False by (auto simp: bindR_eq_Inr Let_def)
    define a where "a = round2 (signedAmount (Some e) x)"
    have g: "\<exists>k. a = cents k" by (simp add: a_def round2_grid)
    show ?thesis
    proof (cases "a = 0")
      case True
      then show ?thesis using Cons False r by (simp add: a_def)
    next
      case nz: False
      obtain d ds rf n i where "camtEntries isoTime es (elseText cur c) (ls @ [\<lparr> pf_date = d, pf_amount = a, pf_description = ds,
          pf_reference = rf, pf_counterpartyName = n, pf_counterpartyIban = i \<rparr>]) = Inr (cur', ls')"
        using Cons.prems(1) False r nz
        by (cases "entryCounterparty (Some e) a") (auto simp: a_def[symmetric] bindR_eq_Inr Let_def split: option.splits)
      then show ?thesis using Cons.IH g Cons.prems(2) by simp
    qed
  qed (use Cons in simp)
qed simp

lemma parsed_cents:
  "parseMt940 s = Inr p \<Longrightarrow> onCents (ps_lines p)" "parseCsv isoTime s d = Inr p \<Longrightarrow> onCents (ps_lines p)"
  "parseCamt053 xmlParse isoTime s = Inr p \<Longrightarrow> onCents (ps_lines p)"
  by (auto simp: parseMt940_def parseCsv_def parseCamt053_def Let_def bindR_eq_Inr mtStart_def
      dest: mtLoop_cents csvLoop_cents camtEntries_cents split: if_splits)

lemma round2_nonzero: assumes "cents k \<noteq> 0" shows "round2 (cents k) \<noteq> 0"
proof -
  have k: "k \<noteq> 0" using assms by auto
  then consider "1 \<le> k" | "k \<le> - 1" by linarith
  then show ?thesis
  proof cases
    case 1
    then have "round2 (cents 1) \<le> round2 (cents k)" by (intro round2_mono cent.grid_mono)
    moreover have "0 < cents 1" by simp
    moreover have "round2 (cents 1) = cents 1" by (rule round2_cents) simp
    ultimately show ?thesis by linarith
  next
    case 2
    then have "round2 (cents k) \<le> round2 (cents (- 1))" by (intro round2_mono cent.grid_mono)
    moreover have "cents (- 1) < 0" by simp
    moreover have "round2 (cents (- 1)) = cents (- 1)" by (rule round2_cents) simp
    ultimately show ?thesis by linarith
  qed
qed

definition wellFormedLine :: "parsed_line \<Rightarrow> bool" where
  "wellFormedLine l \<longleftrightarrow> pf_amount l \<noteq> 0 \<and> (\<exists>k. pf_amount l = cents k) \<and> cleanText (pf_description l) \<and>
     cleanText (pf_reference l) \<and> cleanText (pf_counterpartyName l) \<and>
     (case pf_counterpartyIban l of None \<Rightarrow> True | Some s \<Rightarrow> IBAN_REGEX s)"

lemma sanitizeLine_wellFormed:
  assumes "sanitizeLine l = Inr m" "\<exists>k. pf_amount l = cents k" shows "wellFormedLine m"
proof -
  obtain k where k: "pf_amount l = cents k" using assms(2) by blast
  then show ?thesis using assms(1) round2_nonzero[of k]
    by (auto simp: sanitizeLine_def wellFormedLine_def bindR_eq_Inr normalizeWhitespace_clean round2_grid dest: normalizeIban_InrD split: if_splits)
qed

lemma mapR_InrD: "mapR f xs = Inr ys \<Longrightarrow> list_all2 (\<lambda>x y. f x = Inr y) xs ys"
  by (induction xs arbitrary: ys) (auto simp: bindR_eq_Inr)

lemma list_all2_back: "list_all2 P xs ys \<Longrightarrow> y \<in> set ys \<Longrightarrow> \<exists>x \<in> set xs. P x y"
  by (induction rule: list_all2_induct) auto

lemma sanitizeLines_InrD:
  assumes "sanitizeLines ls = Inr ms" "onCents ls"
  shows "1 \<le> length ms" "length ms \<le> 5000" "length ms = length ls" "\<forall>m \<in> set ms. wellFormedLine m"
proof -
  have m: "list_all2 (\<lambda>x y. sanitizeLine x = Inr y) ls ms" "ls \<noteq> []" "length ls \<le> 5000"
    using assms(1) by (auto simp: sanitizeLines_def MAX_LINES_def dest: mapR_InrD split: if_splits)
  show l: "length ms = length ls" using m(1) by (auto dest: list_all2_lengthD)
  show "1 \<le> length ms" "length ms \<le> 5000" using l m by (auto simp: Suc_le_eq)
  show "\<forall>m \<in> set ms. wellFormedLine m"
  proof
    fix y assume "y \<in> set ms"
    then obtain x where "x \<in> set ls" "sanitizeLine x = Inr y" using list_all2_back[OF m(1)] by blast
    then show "wellFormedLine y" using assms(2) by (auto simp: onCents_def intro: sanitizeLine_wellFormed)
  qed
qed

lemma parseBankStatementFile_InrD:
  assumes "parseBankStatementFile xmlParse isoTime i = Inr f"
  shows "1 \<le> length (pb_lines f)" "length (pb_lines f) \<le> 5000" "\<forall>l \<in> set (pb_lines f). wellFormedLine l"
    "pb_detectedFormat f = resolveFormat i" "pb_detectedFormat f \<noteq> AUTO"
proof -
  define body where "body = (case resolveFormat i of MT940 \<Rightarrow> parseMt940 (trim (fi_content i))
    | CAMT053 \<Rightarrow> parseCamt053 xmlParse isoTime (trim (fi_content i))
    | CSV \<Rightarrow> parseCsv isoTime (trim (fi_content i)) (fi_csvDelimiter i) | AUTO \<Rightarrow> Inl ''Format fisier neacceptat'')"
  obtain p where b: "body = Inr p" and s: "sanitizeLines (ps_lines p) = Inr (pb_lines f)" and fmt: "pb_detectedFormat f = resolveFormat i"
    using assms unfolding parseBankStatementFile_def Let_def body_def[symmetric] by (auto simp: bindR_eq_Inr split: if_splits)
  have c: "onCents (ps_lines p)" "resolveFormat i \<noteq> AUTO"
    using b parsed_cents unfolding body_def by (cases "resolveFormat i"; simp)+
  show "1 \<le> length (pb_lines f)" "length (pb_lines f) \<le> 5000" "\<forall>l \<in> set (pb_lines f). wellFormedLine l"
    "pb_detectedFormat f = resolveFormat i" "pb_detectedFormat f \<noteq> AUTO"
    using sanitizeLines_InrD[OF s c(1)] fmt c(2) by simp_all
qed

section \<open>CSV\<close>

text \<open>A writer of CSV that quotes every field.\<close>

definition quoteField :: "string \<Rightarrow> string" where
  "quoteField f = quote # concat (map (\<lambda>c. if c = quote then [quote, quote] else [c]) f) @ [quote]"

definition renderCsv :: "char \<Rightarrow> string list list \<Rightarrow> string" where
  "renderCsv d rows = join newline (map (\<lambda>row. join [d] (map quoteField row)) rows)"

lemma csvScan_quoted:
  assumes "s = [] \<or> hd s \<noteq> quote"
  shows "csvScan d True f row rows (concat (map (\<lambda>c. if c = quote then [quote, quote] else [c]) g) @ quote # s) =
    csvScan d False (f @ g) row rows s"
proof (induction g arbitrary: f)
  case Nil
  then show ?case using assms by auto
next
  case (Cons c g)
  then show ?case by (cases "c = quote") simp_all
qed

lemma csvScan_field:
  "s = [] \<or> hd s \<noteq> quote \<Longrightarrow> csvScan d False [] row rows (quoteField g @ s) = csvScan d False g row rows s"
  using csvScan_quoted[of s d "[]" row rows g] by (simp add: quoteField_def)

lemma code_quote: "code quote = 34"
  by (simp add: code_def quote_def)

lemma newline_not_quote: "char_of (10 :: nat) \<noteq> quote"
proof
  assume "char_of (10 :: nat) = quote"
  then have "code (char_of (10 :: nat)) = 34" using code_quote by metis
  then show False by (simp add: code_def)
qed

lemma csvScan_row:
  assumes d: "d \<noteq> quote" "code d \<noteq> 10" and s: "s = [] \<or> hd s = char_of (10 :: nat)" and g: "gs \<noteq> []"
  shows "csvScan [d] False [] row rows (join [d] (map quoteField gs) @ s) = csvScan [d] False (last gs) (row @ butlast gs) rows s"
  using g
proof (induction gs arbitrary: row rule: induct_list012)
  case (2 x)
  have "s = [] \<or> hd s \<noteq> quote" using s newline_not_quote by auto
  then show ?case by (simp add: csvScan_field)
next
  case (3 x y zs)
  have "csvScan [d] False [] row rows (quoteField x @ (d # join [d] (map quoteField (y # zs)) @ s)) =
      csvScan [d] False [] (row @ [x]) rows (join [d] (map quoteField (y # zs)) @ s)"
    using d by (subst csvScan_field) auto
  then show ?case using 3(2)[of "row @ [x]"] by simp
qed simp

lemma csvScan_rows:
  assumes d: "d \<noteq> quote" "code d \<noteq> 10" and r: "\<forall>row \<in> set rs. list_ex (\<lambda>cell. \<not> isBlank cell) row" "rs \<noteq> []"
  shows "csvScan [d] False [] [] rows (renderCsv d rs) = rows @ rs"
  using r
proof (induction rs arbitrary: rows rule: induct_list012)
  case (2 x)
  then have x: "x \<noteq> []" "list_ex (\<lambda>cell. \<not> isBlank cell) x" by auto
  then show ?case using csvScan_row[OF d, of "[]" x "[]" rows] by (simp add: renderCsv_def pushRow_def)
next
  case (3 x y zs)
  then have x: "x \<noteq> []" "list_ex (\<lambda>cell. \<not> isBlank cell) x" by auto
  define n where "n = char_of (10 :: nat)"
  have n: "newline = [n]" "code n = 10" "n \<noteq> quote" using newline_not_quote by (simp_all add: newline_def n_def code_def)
  have "csvScan [d] False [] [] rows (join [d] (map quoteField x) @ (n # renderCsv d (y # zs))) =
      csvScan [d] False (last x) (butlast x) rows (n # renderCsv d (y # zs))"
    using csvScan_row[OF d _ x(1), of "n # renderCsv d (y # zs)" "[]" rows] by (simp add: n_def)
  also have "\<dots> = csvScan [d] False [] [] (rows @ [x]) (renderCsv d (y # zs))"
    using n(2,3) d x by (cases "n = d") (auto simp: pushRow_def)
  finally show ?case using 3(2)[of "rows @ [x]"] 3(3) by (simp add: renderCsv_def n(1))
qed simp

section \<open>Numbers\<close>

lemma lastIndexOf_None: "c \<notin> set s \<Longrightarrow> lastIndexOf c s = None"
  by (induction s) auto

lemma lastIndexOf_append: "c \<notin> set t \<Longrightarrow> lastIndexOf c (s @ c # t) = Some (length s)"
  by (induction s) (simp_all add: lastIndexOf_None)

lemma lastIndexOf_before: "c \<notin> set t \<Longrightarrow> lastIndexOf c (s @ t) = lastIndexOf c s"
  by (induction s) (simp_all add: lastIndexOf_None)

lemma lastIndexOf_less: "lastIndexOf c s = Some i \<Longrightarrow> i < length s"
  by (induction s arbitrary: i) (auto split: option.splits if_splits)

lemma removeChar_join:
  "\<forall>g \<in> set gs. c \<notin> set g \<Longrightarrow> removeChar c (join [c] gs) = concat gs"
  by (induction gs rule: induct_list012) (auto simp: removeChar_def filter_id_conv)

lemma removeChar_id: "c \<notin> set s \<Longrightarrow> removeChar c s = s"
  by (induction s) (auto simp: removeChar_def)

lemma removeChar_append: "removeChar c (s @ t) = removeChar c s @ removeChar c t" "removeChar c (c # t) = removeChar c t"
  by (simp_all add: removeChar_def)

lemma replaceFirst_append: "c \<notin> set s \<Longrightarrow> replaceFirst c d (s @ c # t) = s @ d # t"
  by (induction s) auto

lemma digit_chars: "isDigit c \<Longrightarrow> \<not> isSpace c \<and> c \<noteq> CHR '','' \<and> c \<noteq> CHR ''.'' \<and> c \<noteq> CHR ''('' \<and> c \<noteq> CHR '')'' \<and>
    c \<noteq> CHR ''+'' \<and> c \<noteq> CHR ''-'' \<and> \<not> isUpper c \<and> \<not> isLower c"
  by (auto simp: isDigit_def isSpace_def isUpper_def isLower_def code_def)

lemma toNumber_digits:
  assumes ip: "ip \<noteq> []" "\<forall>c \<in> set ip. isDigit c" and fp: "fp \<noteq> []" "\<forall>c \<in> set fp. isDigit c"
  shows "toNumberString (ip @ CHR ''.'' # fp) = finiteOnly (fl (of_nat (readNat (ip @ fp)) / 10 ^ length fp))"
proof -
  obtain c r where c: "ip = c # r" using ip(1) by (cases ip) auto
  have l: "last (ip @ CHR ''.'' # fp) \<in> set fp" using fp(1) by simp
  have t: "trim (ip @ CHR ''.'' # fp) = ip @ CHR ''.'' # fp"
    using c ip fp l digit_chars by (auto simp: trim_fix)
  have s: "r @ CHR ''.'' # fp \<noteq> [] \<and> (hd (r @ CHR ''.'' # fp) = CHR ''.'' \<or> isDigit (hd (r @ CHR ''.'' # fp)))"
    using ip(2) c by (cases r) auto
  have h: "toLowerChar (hd (r @ CHR ''.'' # fp)) \<notin> {CHR ''x'', CHR ''o'', CHR ''b''}"
    using s digit_chars by (auto simp: toLowerChar_def isUpper_def isDigit_def code_def)
  have nd: "\<not> isDigit (CHR ''.'')" by (simp add: isDigit_def code_def)
  have "takeWhile isDigit (ip @ CHR ''.'' # fp) = ip" "dropWhile isDigit (ip @ CHR ''.'' # fp) = CHR ''.'' # fp"
    using ip(2) nd by (auto simp: takeWhile_append dropWhile_append)
  moreover have "takeWhile isDigit fp = fp" "dropWhile isDigit fp = []" using fp(2) by (simp_all add: takeWhile_eq_all_conv dropWhile_eq_Nil_conv)
  ultimately have "unsignedDecimal (ip @ CHR ''.'' # fp) = finiteOnly (fl (of_nat (readNat (ip @ fp)) / 10 ^ length fp))"
    using ip(1) fp(1)
    by (simp add: unsignedDecimal_def Let_def exponentPart_def powerOfTen_def del: takeWhile_eq_all_conv dropWhile_eq_Nil_conv)
  then show ?thesis using h digit_chars ip(2) s unfolding toNumberString_def t by (simp add: c Let_def)
qed

lemma finite_digits:
  assumes s: "length s \<le> 300" "\<forall>c \<in> set s. isDigit c"
  shows "finiteOnly (fl (of_nat (readNat s) / 10 ^ k)) = Some (fl (of_nat (readNat s) / 10 ^ k))"
proof -
  have "readNat s < 10 ^ length s" by (rule readNat_bound[OF s(2)])
  also have "(10 :: nat) ^ length s \<le> 10 ^ 300" using s(1) by (intro power_increasing) auto
  finally have r: "(of_nat (readNat s) :: rat) \<le> of_nat (10 ^ 300)" by (simp only: of_nat_le_iff)
  have "(of_nat (readNat s) :: rat) / 10 ^ k \<le> of_nat (readNat s) / 1" by (intro divide_left_mono) simp_all
  then have "fl (of_nat (readNat s) / 10 ^ k) \<le> fl (2 ^ 1023)" using r by (intro fl_mono) simp
  also have "fl (2 ^ 1023) = 2 ^ 1023" using fl_exact[of 1 1023] by (simp add: power_int_def del: power_numeral)
  finally have "fl (of_nat (readNat s) / 10 ^ k) < 2 ^ 1024" by (rule le_less_trans) simp
  moreover have "0 \<le> fl (of_nat (readNat s) / 10 ^ k)" by (intro fl_nonneg) simp
  ultimately show ?thesis by (simp add: finiteOnly_def isFinite_def)
qed

text \<open>Groups of digits: the whole part between separators, and the decimals.\<close>

definition digitGroups :: "string list \<Rightarrow> string \<Rightarrow> bool" where
  "digitGroups gs fs \<longleftrightarrow> gs \<noteq> [] \<and> (\<forall>g \<in> set gs. g \<noteq> [] \<and> (\<forall>c \<in> set g. isDigit c)) \<and> fs \<noteq> [] \<and> (\<forall>c \<in> set fs. isDigit c) \<and>
     length (concat gs @ fs) \<le> 300"

definition groupsValue :: "string list \<Rightarrow> string \<Rightarrow> double" where
  "groupsValue gs fs = fl (of_nat (readNat (concat gs @ fs)) / 10 ^ length fs)"

lemma set_join: "set (join [c] gs) \<subseteq> insert c (\<Union> (set ` set gs))"
  by (induction gs rule: induct_list012) auto

lemma join_head: "gs \<noteq> [] \<Longrightarrow> hd gs \<noteq> [] \<Longrightarrow> join [c] gs \<noteq> [] \<and> hd (join [c] gs) = hd (hd gs)"
  by (induction gs rule: induct_list012) auto

lemma dropWhile_head: "s \<noteq> [] \<Longrightarrow> \<not> P (hd s) \<Longrightarrow> dropWhile P s = s"
  by (simp add: dropWhile_fix)

text \<open>What \<open>parseDecimal\<close> does with digits and separators, without or with a sign.\<close>

lemma parseDecimal_plain:
  assumes s: "s \<noteq> []" "\<forall>c \<in> set s. isDigit c \<or> c = CHR '','' \<or> c = CHR ''.''" "isDigit (hd s)" "isDigit (last s)"
    and n: "toNumberString (normalizeSeparators s) = Some x"
  shows "parseDecimal s = Inr x" "parseDecimal (''-'' @ s) = Inr (- x)" "parseDecimal (''('' @ s @ '')'') = Inr (- x)"
proof -
  have sp: "\<not> isSpace c" if "c \<in> set s" for c using bspec[OF s(2) that] digit_chars[of c] by (elim disjE) (simp_all add: isSpace_def code_def)
  have nosp: "removeSpaces s = s" using sp by (simp add: removeSpaces_def filter_id_conv)
  obtain c r where c: "s = c # r" using s(1) by (cases s) auto
  have hd: "c \<noteq> CHR ''('' \<and> c \<noteq> CHR ''+'' \<and> c \<noteq> CHR ''-'' \<and> \<not> isSpace c" using s(3) digit_chars[of c] c by simp
  have la: "last s \<noteq> CHR '')'' \<and> \<not> isSpace (last s)" using s(4) digit_chars[of "last s"] by simp
  have t: "trim s = s" using s(1) hd la c by (simp add: trim_fix)
  have st: "\<not> startsWith s ''(''" "\<not> startsWith s ''+''" "\<not> startsWith s ''-''" using hd by (simp_all add: startsWith_def c)
  show "parseDecimal s = Inr x" using s(1) by (simp add: parseDecimal_def Let_def t nosp n st)
  have t2: "trim (''-'' @ s) = ''-'' @ s" using la c by (auto simp: trim_fix isSpace_def code_def)
  have n2: "removeSpaces (''-'' @ s) = ''-'' @ s" using nosp by (simp add: removeSpaces_def isSpace_def code_def)
  have ne: "''-'' @ s \<noteq> []" by simp
  have p: "\<not> startsWith (''-'' @ s) ''(''" "\<not> startsWith (''-'' @ s) ''+''" "startsWith (''-'' @ s) ''-''" "tl (''-'' @ s) = s"
    by (simp_all add: startsWith_def)
  show "parseDecimal (''-'' @ s) = Inr (- x)" unfolding parseDecimal_def Let_def t2 if_not_P[OF ne] using p n2 n by simp
  have t3: "trim (''('' @ s @ '')'') = ''('' @ s @ '')''" by (auto simp: trim_fix isSpace_def code_def)
  have e: "endsWith (''('' @ s @ '')'') '')''" by (simp add: endsWith_def)
  show "parseDecimal (''('' @ s @ '')'') = Inr (- x)"
  proof -
    have p: "startsWith (''('' @ s @ '')'') ''(''" "butlast (tl (''('' @ s @ '')'')) = s" by (simp_all add: startsWith_def butlast_append)
    have ne: "''('' @ s @ '')'' \<noteq> []" by simp
    show ?thesis unfolding parseDecimal_def Let_def t3 if_not_P[OF ne] using e p nosp n st by simp
  qed
qed

text \<open>The dot groups and the comma decides, or the other way round; a single comma with more than three
  digits behind it is taken for a separator of groups.\<close>

lemma groups_chars:
  assumes g: "digitGroups gs fs" and p: "c \<in> {CHR '','', CHR ''.''}"
  shows "c \<notin> set (concat gs)" "c \<notin> set fs" "\<forall>g \<in> set gs. c \<notin> set g" "concat gs \<noteq> []" "\<forall>c \<in> set (concat gs). isDigit c"
proof -
  have d: "\<forall>c \<in> set (concat gs) \<union> set fs. isDigit c" using g by (auto simp: digitGroups_def)
  have n: "\<not> isDigit c" using p digit_chars by auto
  show "c \<notin> set (concat gs)" "c \<notin> set fs" "\<forall>g \<in> set gs. c \<notin> set g" using d n by auto
  show "concat gs \<noteq> []" using g by (cases gs) (auto simp: digitGroups_def)
  show "\<forall>c \<in> set (concat gs). isDigit c" using d by simp
qed

lemma normalize_groups:
  assumes g: "digitGroups gs fs"
  shows "normalizeSeparators (join '','' gs @ ''.'' @ fs) = concat gs @ ''.'' @ fs"
    "length gs = 1 \<longrightarrow> length fs \<le> 3 \<Longrightarrow> normalizeSeparators (join ''.'' gs @ '','' @ fs) = concat gs @ ''.'' @ fs"
proof -
  note C = groups_chars[OF g, of "CHR '',''", simplified] and D = groups_chars[OF g, of "CHR ''.''", simplified]
  have jc: "removeChar (CHR '','') (join '','' gs @ ''.'' @ fs) = concat gs @ ''.'' @ fs"
    using removeChar_join[of gs "CHR '',''"] C(2,3) by (auto simp: removeChar_def filter_id_conv)
  have lc: "lastIndexOf (CHR ''.'') (join '','' gs @ ''.'' @ fs) = Some (length (join '','' gs))"
    using lastIndexOf_append[of "CHR ''.''" fs "join '','' gs"] D by simp
  have lc2: "lastIndexOf (CHR '','') (join '','' gs @ ''.'' @ fs) = lastIndexOf (CHR '','') (join '','' gs)"
    using lastIndexOf_before[of "CHR '',''" "''.'' @ fs" "join '','' gs"] C by simp
  show "normalizeSeparators (join '','' gs @ ''.'' @ fs) = concat gs @ ''.'' @ fs"
    using jc lc lc2 lastIndexOf_less[of "CHR '',''" "join '','' gs"]
    by (auto simp: normalizeSeparators_def simp del: append_Cons append.simps split: option.split)
  assume one: "length gs = 1 \<longrightarrow> length fs \<le> 3"
  have jd: "removeChar (CHR ''.'') (join ''.'' gs @ '','' @ fs) = concat gs @ '','' @ fs"
    using removeChar_join[of gs "CHR ''.''"] D(2,3) by (auto simp: removeChar_def filter_id_conv)
  have rf: "replaceFirst (CHR '','') (CHR ''.'') (concat gs @ '','' @ fs) = concat gs @ ''.'' @ fs"
    using replaceFirst_append[of "CHR '',''" "concat gs" "CHR ''.''" fs] C by simp
  have ld: "lastIndexOf (CHR '','') (join ''.'' gs @ '','' @ fs) = Some (length (join ''.'' gs))"
    using lastIndexOf_append[of "CHR '',''" fs "join ''.'' gs"] C by simp
  have ld2: "lastIndexOf (CHR ''.'') (join ''.'' gs @ '','' @ fs) = lastIndexOf (CHR ''.'') (join ''.'' gs)"
    using lastIndexOf_before[of "CHR ''.''" "'','' @ fs" "join ''.'' gs"] D by simp
  show "normalizeSeparators (join ''.'' gs @ '','' @ fs) = concat gs @ ''.'' @ fs"
  proof (cases "lastIndexOf (CHR ''.'') (join ''.'' gs)")
    case (Some i)
    then show ?thesis using jd rf ld ld2 lastIndexOf_less[OF Some] unfolding normalizeSeparators_def by simp
  next
    case None
    have "length gs = 1"
    proof (rule ccontr)
      assume "length gs \<noteq> 1"
      then obtain a b hs where "gs = a # b # hs" using g by (cases gs rule: remdups_adj.cases) (auto simp: digitGroups_def)
      then have "CHR ''.'' \<in> set (join ''.'' gs)" by simp
      moreover have "lastIndexOf c s = None \<Longrightarrow> c \<notin> set s" for c s by (induction s) (auto split: option.splits if_splits)
      ultimately show False using None by blast
    qed
    then have "1 \<le> length fs" "length fs \<le> 3" using one g by (auto simp: digitGroups_def Suc_le_eq)
    then show ?thesis using jd rf ld ld2 None unfolding normalizeSeparators_def by (simp add: Let_def)
  qed
qed

lemma groups_number:
  assumes g: "digitGroups gs fs"
  shows "toNumberString (concat gs @ ''.'' @ fs) = Some (groupsValue gs fs)"
proof -
  note C = groups_chars[OF g, of "CHR '',''", simplified]
  have "finiteOnly (fl (of_nat (readNat (concat gs @ fs)) / 10 ^ length fs)) = Some (groupsValue gs fs)"
    unfolding groupsValue_def using g by (intro finite_digits) (auto simp: digitGroups_def)
  then show ?thesis using toNumber_digits[of "concat gs" fs] C g by (auto simp: digitGroups_def)
qed

lemma grouped_text:
  assumes g: "digitGroups gs fs" and p: "c \<in> {CHR '','', CHR ''.''}" "d \<in> {CHR '','', CHR ''.''}"
  shows "join [c] gs @ [d] @ fs \<noteq> []" "\<forall>x \<in> set (join [c] gs @ [d] @ fs). isDigit x \<or> x = CHR '','' \<or> x = CHR ''.''"
    "isDigit (hd (join [c] gs @ [d] @ fs))" "isDigit (last (join [c] gs @ [d] @ fs))"
proof -
  have e: "gs \<noteq> []" "hd gs \<noteq> []" "\<forall>x \<in> set (hd gs). isDigit x" "fs \<noteq> []" "\<forall>x \<in> set fs. isDigit x"
    using g by (auto simp: digitGroups_def)
  note j = join_head[OF e(1,2), of c]
  show "join [c] gs @ [d] @ fs \<noteq> []" by simp
  show "\<forall>x \<in> set (join [c] gs @ [d] @ fs). isDigit x \<or> x = CHR '','' \<or> x = CHR ''.''"
    using set_join[of c gs] g p by (fastforce simp: digitGroups_def)
  show "isDigit (hd (join [c] gs @ [d] @ fs))" using j e by auto
  show "isDigit (last (join [c] gs @ [d] @ fs))" using e by simp
qed

lemma toNumber_integer:
  assumes ip: "ip \<noteq> []" "\<forall>c \<in> set ip. isDigit c"
  shows "toNumberString ip = finiteOnly (fl (of_nat (readNat ip)))"
proof -
  obtain c r where c: "ip = c # r" using ip(1) by (cases ip) auto
  have t: "trim ip = ip" using ip digit_chars by (auto simp: trim_fix)
  have h: "r = [] \<or> toLowerChar (hd r) \<notin> {CHR ''x'', CHR ''o'', CHR ''b''}"
    using ip(2) c digit_chars by (cases r) (auto simp: toLowerChar_def isUpper_def isDigit_def code_def)
  have "takeWhile isDigit ip = ip" "dropWhile isDigit ip = []" using ip(2) by (simp_all add: takeWhile_eq_all_conv dropWhile_eq_Nil_conv)
  then have "unsignedDecimal ip = finiteOnly (fl (of_nat (readNat ip)))"
    using ip(1) by (simp add: unsignedDecimal_def Let_def exponentPart_def powerOfTen_def del: takeWhile_eq_all_conv dropWhile_eq_Nil_conv)
  then show ?thesis using h digit_chars[of c] ip(2) unfolding toNumberString_def t by (auto simp: c Let_def)
qed

lemma long_decimals:
  assumes g: "digitGroups [a] fs" and l: "3 < length fs"
  shows "parseDecimal (a @ '','' @ fs) = Inr (fl (of_nat (readNat (a @ fs))))"
proof -
  note C = groups_chars[OF g, of "CHR '',''", simplified] and D = groups_chars[OF g, of "CHR ''.''", simplified]
  have "normalizeSeparators (a @ '','' @ fs) = removeChar (CHR '','') (a @ '','' @ fs)"
    using lastIndexOf_append[of "CHR '',''" fs a] lastIndexOf_None[of "CHR ''.''" "a @ '','' @ fs"] C D l
    by (simp add: normalizeSeparators_def Let_def)
  also have "\<dots> = a @ fs" using C(1,2) by (simp add: removeChar_append removeChar_id)
  finally have n: "normalizeSeparators (a @ '','' @ fs) = a @ fs" .
  have "toNumberString (a @ fs) = Some (fl (of_nat (readNat (a @ fs))))"
    using toNumber_integer[of "a @ fs"] finite_digits[of "a @ fs" 0] g by (auto simp: digitGroups_def)
  then show ?thesis using parseDecimal_plain(1)[of "a @ '','' @ fs"] grouped_text[OF g, of "CHR '',''" "CHR '',''"] n by simp
qed

section \<open>IBANs in descriptions\<close>

lemma upper_of_upper: "isUpper c \<or> isDigit c \<Longrightarrow> toUpperChar c = c"
  by (auto simp: toUpperChar_def isLower_def isUpper_def isDigit_def)

lemma toUpperCase_id: "\<forall>c \<in> set s. isUpper c \<or> isDigit c \<or> c = CHR '' '' \<Longrightarrow> toUpperCase s = s"
proof -
  have "toUpperChar (CHR '' '') = CHR '' ''" by (simp add: toUpperChar_def isLower_def code_def)
  moreover assume "\<forall>c \<in> set s. isUpper c \<or> isDigit c \<or> c = CHR '' ''"
  ultimately show ?thesis unfolding toUpperCase_def by (intro map_idI) (metis upper_of_upper)
qed

text \<open>Capital letters and digits.\<close>

definition plainCode :: "string \<Rightarrow> bool" where
  "plainCode s \<longleftrightarrow> (\<forall>c \<in> set s. isUpper c \<or> isDigit c)"

lemma iban_swallowed:
  assumes i: "15 \<le> length iban" "plainCode iban" "list_all isUpper (take 2 iban)" and t: "plainCode s"
    and len: "length (iban @ s) \<le> 34"
  shows "normalizeIban (firstMatch ibanAt (''IBAN '' @ iban @ '' '' @ s)) = Inr (Some (iban @ s))"
proof -
  define r where "r = iban @ '' '' @ s"
  have ch: "isUpper c \<or> isDigit c \<or> c = CHR '' ''" if "c \<in> set r" for c using that i(2) t by (auto simp: plainCode_def r_def)
  have up: "toUpperCase (''IBAN '' @ r) = ''IBAN '' @ r"
    using ch by (intro toUpperCase_id) (auto simp: isUpper_def code_def)
  obtain c q where c: "iban = c # q" "isUpper c" using i(1,3) by (cases iban) auto
  have sep: "takeWhile isIbanSeparator (CHR '' '' # r) = '' ''"
    using c by (auto simp: r_def isIbanSeparator_def isUpper_def code_def)
  have tw: "takeWhile (\<lambda>c. isUpper (toUpperChar c) \<or> isDigit c \<or> c = CHR '' '') r = r"
    using ch upper_of_upper by (subst takeWhile_eq_all_conv) metis
  have "length r \<le> 36" using len by (simp add: r_def)
  then have g: "ibanGroup r = r" unfolding ibanGroup_def tw by simp
  have "ibanAt (''IBAN '' @ r) = Some r"
    unfolding ibanAt_def up Let_def using g i(1) sep by (simp add: startsWith_def r_def)
  then have m: "firstMatch ibanAt (''IBAN '' @ r) = Some r" by simp
  have ns: "\<not> isSpace c" if "c \<in> set (iban @ s)" for c
    using that i(2) t digit_chars[of c] by (auto simp: plainCode_def isUpper_def isSpace_def)
  have "removeSpaces r = iban @ s" using ns by (auto simp: removeSpaces_def r_def filter_id_conv isSpace_def code_def)
  moreover have "toUpperCase (iban @ s) = iban @ s" using i(2) t by (intro toUpperCase_id) (auto simp: plainCode_def)
  moreover have "IBAN_REGEX (iban @ s)"
    using i t len by (auto simp: IBAN_REGEX_def plainCode_def list_all_iff dest: in_set_dropD)
  moreover have "iban @ s \<noteq> []" using c by simp
  ultimately have "normalizeIban (Some r) = Inr (Some (iban @ s))" by (simp add: normalizeIban_def Let_def)
  then show ?thesis using m by (simp add: r_def)
qed

section \<open>Properties\<close>


definition demoFile :: file_input where
  "demoFile = \<lparr> fi_fileName = Some ''a.csv'', fi_mimeType = None,
     fi_content = ''Data,Suma'' @ newline @ ''15.01.2024,\"1,234.56\"'', fi_format = None, fi_csvDelimiter = None \<rparr>"

definition demoParsed :: parsed_file where
  "demoParsed = projr (parseBankStatementFile (\<lambda>_. JNull) (\<lambda>_. None) demoFile)"

lemma demo_content: "resolveFormat demoFile = CSV" "trim (fi_content demoFile) = fi_content demoFile" "fi_csvDelimiter demoFile = None"
  "parseCsvRows (fi_content demoFile) (detectCsvDelimiter (fi_content demoFile)) = [[''Data'', ''Suma''], [''15.01.2024'', ''1,234.56'']]"
  by code_simp+

lemma demo_headers: "normalizeHeader ''Data'' = ''data''" "normalizeHeader ''Suma'' = ''suma''"
  by code_simp+

lemma demo_columns:
  "findColumn [normalizeHeader ''Data'', normalizeHeader ''Suma''] c = (case c of ColDate \<Rightarrow> Some 0 | ColAmount \<Rightarrow> Some 1 | _ \<Rightarrow> None)"
  by (cases c) (simp_all add: findColumn_def demo_headers)

lemma demo_cells: "trim ''15.01.2024'' = ''15.01.2024''" "trim ''1,234.56'' = ''1,234.56''"
  "parseFlexibleDate (\<lambda>_. None) ''15.01.2024'' = Inr 1705276800000"
  by code_simp+

lemma demo_number: "parseDecimal ''1,234.56'' = Inr (cents 123456)"
proof -
  have g: "digitGroups [''1'', ''234''] ''56''" by code_simp
  have r: "readNat ''123456'' = 123456" by code_simp
  have "groupsValue [''1'', ''234''] ''56'' = cents 123456" by (simp add: groupsValue_def grid_def r)
  then show ?thesis
    using parseDecimal_plain(1)[OF grouped_text[OF g, of "CHR '',''" "CHR ''.''"]] normalize_groups(1)[OF g] groups_number[OF g] by simp
qed

lemma demo_file: "parseBankStatementFile (\<lambda>_. JNull) (\<lambda>_. None) demoFile = Inr demoParsed"
proof -
  have r: "round2 (cents 123456) = cents 123456" by (rule round2_cents) simp
  have "cents 123456 \<le> fl (of_int 2000)" unfolding grid_def by (intro fl_mono) simp
  also have "fl (of_int 2000) = 2000" by (subst fl_of_int) simp_all
  finally have "cents 123456 < 2 ^ 1024" by (rule le_less_trans) simp
  moreover have p: "0 < cents 123456" by simp
  ultimately have f: "isFinite (cents 123456)" unfolding isFinite_def by (simp only: abs_of_pos)
  have "is_ok (parseBankStatementFile (\<lambda>_. JNull) (\<lambda>_. None) demoFile)"
    unfolding parseBankStatementFile_def Let_def demo_content parseCsv_def orElse_simps
    using r f p by (simp add: demo_columns demo_cells demo_number cell_def normalizeWhitespace_def normalizeIban_def
      sanitizeLines_def sanitizeLine_def MAX_LINES_def) (simp add: demoFile_def)
  then show ?thesis by (auto simp: demoParsed_def is_ok_iff)
qed


text \<open>Rows written as CSV with every field quoted are read back unchanged, whatever characters the
  fields hold (delimiters, quotes doubled, line breaks), as long as every row has a field that is not
  blank.\<close>

lemma csv_rows_roundtrip:
  assumes "d \<noteq> quote" "code d \<noteq> 10" "\<forall>row \<in> set rows. list_ex (\<lambda>cell. \<not> isBlank cell) row" "rows \<noteq> []"
  shows "parseCsvRows (renderCsv d rows) [d] = rows"
  using csvScan_rows[OF assms, of "[]"] by (simp add: parseCsvRows_def)

lemma csv_rows_roundtrip_example:
  "parseCsvRows (renderCsv (CHR '','') [[''a,b'', []], [quote # newline, ''c'']]) '','' = [[''a,b'', []], [quote # newline, ''c'']]"
proof (rule csv_rows_roundtrip)
  show "CHR '','' \<noteq> quote" "code (CHR '','') \<noteq> 10" by code_simp+
  have "\<not> isBlank ''a,b''" "\<not> isBlank ''c''" by code_simp+
  then show "\<forall>row \<in> set [[''a,b'', []], [quote # newline, ''c'']]. list_ex (\<lambda>cell. \<not> isBlank cell) row" by simp
qed simp

text \<open>A number written with groups of digits and decimals is read as its value, with the comma between
  the groups and the point before the decimals or the other way round, and negative when it has a
  minus sign or stands in parentheses. A number with one comma only is read that way up to three
  decimals; with more of them the comma is taken for a separator of groups, and the number that is
  read is a power of ten too large.\<close>

lemma parse_decimal_grouped:
  assumes "digitGroups gs fs"
  shows "parseDecimal (join '','' gs @ ''.'' @ fs) = Inr (groupsValue gs fs) \<and>
    parseDecimal (''-'' @ join '','' gs @ ''.'' @ fs) = Inr (- groupsValue gs fs) \<and>
    parseDecimal (''('' @ (join '','' gs @ ''.'' @ fs) @ '')'') = Inr (- groupsValue gs fs) \<and>
    ((length gs = 1 \<longrightarrow> length fs \<le> 3) \<longrightarrow> parseDecimal (join ''.'' gs @ '','' @ fs) = Inr (groupsValue gs fs)) \<and>
    (length gs = 1 \<and> 3 < length fs \<longrightarrow> parseDecimal (join ''.'' gs @ '','' @ fs) = Inr (fl (of_nat (readNat (concat gs @ fs)))))"
proof -
  note E = grouped_text[OF assms, of "CHR '',''" "CHR ''.''", simplified] and R = grouped_text[OF assms, of "CHR ''.''" "CHR '',''", simplified]
  have e: "toNumberString (normalizeSeparators (join '','' gs @ ''.'' @ fs)) = Some (groupsValue gs fs)"
    using normalize_groups(1)[OF assms] groups_number[OF assms] by simp
  note P = parseDecimal_plain[of "join '','' gs @ ''.'' @ fs", OF _ _ _ _ e]
  have r: "toNumberString (normalizeSeparators (join ''.'' gs @ '','' @ fs)) = Some (groupsValue gs fs)" if "length gs = 1 \<longrightarrow> length fs \<le> 3"
    using normalize_groups(2)[OF assms that] groups_number[OF assms] by simp
  have "parseDecimal (join ''.'' gs @ '','' @ fs) = Inr (fl (of_nat (readNat (concat gs @ fs))))" if l: "length gs = 1" "3 < length fs"
  proof -
    obtain a where a: "gs = [a]" using l(1) by (cases gs) auto
    show ?thesis using long_decimals[OF assms[unfolded a] l(2)] by (simp add: a)
  qed
  then show ?thesis using P E R parseDecimal_plain(1)[of "join ''.'' gs @ '','' @ fs", OF _ _ _ _ r] by simp
qed

lemma parse_decimal_grouped_example:
  "parseDecimal ''1.234,50'' = Inr (2469 / 2) \<and> parseDecimal ''12,3456'' = Inr 123456"
proof -
  have g: "digitGroups [''1'', ''234''] ''50''" "digitGroups [''12''] ''3456''" by code_simp+
  have v: "groupsValue [''1'', ''234''] ''50'' = 2469 / 2" "fl (of_nat (readNat (concat [''12''] @ ''3456''))) = 123456" by code_simp+
  show ?thesis using parse_decimal_grouped[OF g(1)] parse_decimal_grouped[OF g(2)] unfolding v by simp
qed

text \<open>An IBAN in an MT940 description that is followed by a word of capital letters or digits is read
  together with that word: the pattern of the IBAN runs over spaces, and the result passes the check of
  its shape as long as it has at most 34 characters.\<close>

lemma mt86_iban_swallows:
  assumes "15 \<le> length iban" "plainCode iban" "list_all isUpper (take 2 iban)" "plainCode word" "length (iban @ word) \<le> 34"
  shows "\<exists>name. parseMt86Counterparty (''IBAN '' @ iban @ '' '' @ word) = Inr (name, Some (iban @ word))"
  unfolding parseMt86Counterparty_def iban_swallowed[OF assms] by simp

lemma mt86_iban_swallows_example:
  "\<exists>name. parseMt86Counterparty ''IBAN RO49AAAA1B31007593840000 PLATA'' = Inr (name, Some ''RO49AAAA1B31007593840000PLATA'')"
proof -
  have "plainCode ''RO49AAAA1B31007593840000''" "plainCode ''PLATA''" "list_all isUpper (take 2 ''RO49AAAA1B31007593840000'')"
    by code_simp+
  from mt86_iban_swallows[OF _ this(1,3,2)] show ?thesis by simp
qed

end
