(* ===== verification/Mt940RoundTrip.thy ===== *)
theory Mt940RoundTrip
  imports BankFileGuarantees
begin

text \<open>
  An MT940 statement that is written out in the standard form is read back: dates, signed amounts,
  references and descriptions. The writer is the specification; the reader is the code's.
\<close>

section \<open>The writer\<close>

record mt_tx =
  tx_date :: date
  tx_amount :: int
  tx_reference :: string
  tx_description :: "string option"

record mt_statement =
  ms_currency :: string
  ms_openingDate :: date
  ms_opening :: int
  ms_closingDate :: date
  ms_closing :: int
  ms_transactions :: "mt_tx list"

definition renderDate :: "date \<Rightarrow> string" where
  "renderDate t = pad2 (getUTCFullYear t mod 100) @ pad2 (getUTCMonth t + 1) @ pad2 (getUTCDate t)"

definition renderAmount :: "int \<Rightarrow> string" where
  "renderAmount n = showNat (nat (\<bar>n\<bar> div 100)) @ '','' @ pad2 (\<bar>n\<bar> mod 100)"

definition renderSign :: "int \<Rightarrow> string" where
  "renderSign n = (if n < 0 then ''D'' else ''C'')"

definition balanceText :: "string \<Rightarrow> date \<Rightarrow> int \<Rightarrow> string" where
  "balanceText currency date n = renderSign n @ renderDate date @ currency @ renderAmount n"

definition txText :: "mt_tx \<Rightarrow> string" where
  "txText x = renderDate (tx_date x) @ renderSign (tx_amount x) @ renderAmount (tx_amount x) @ ''NTRF//'' @ tx_reference x"

definition txTags :: "mt_tx \<Rightarrow> mt_tag list" where
  "txTags x = (''61'', txText x) # (case tx_description x of None \<Rightarrow> [] | Some d \<Rightarrow> [(''86'', d)])"

definition statementTags :: "mt_statement \<Rightarrow> mt_tag list" where
  "statementTags s = (''60F'', balanceText (ms_currency s) (ms_openingDate s) (ms_opening s)) #
     concat (map txTags (ms_transactions s)) @ [(''62F'', balanceText (ms_currency s) (ms_closingDate s) (ms_closing s))]"

definition renderTag :: "mt_tag \<Rightarrow> string" where
  "renderTag t = '':'' @ fst t @ '':'' @ snd t"

definition renderMt940 :: "mt_statement \<Rightarrow> string" where
  "renderMt940 s = join newline (map renderTag (statementTags s))"

text \<open>What can be written: whole days from 1990 to 2069, amounts up to \<open>2\<^sup>4\<^sup>5\<close> cents, references without white
  space, and descriptions that the reader's clean-up leaves alone and that name no counterparty.\<close>

definition mtDate :: "date \<Rightarrow> bool" where
  "mtDate t \<longleftrightarrow> t = Day t * msPerDay \<and> 1990 \<le> getUTCFullYear t \<and> getUTCFullYear t \<le> 2069"

definition mtTx :: "mt_tx \<Rightarrow> bool" where
  "mtTx x \<longleftrightarrow> mtDate (tx_date x) \<and> \<bar>tx_amount x\<bar> \<le> 2 ^ 45 \<and> tx_reference x \<noteq> [] \<and> list_all (\<lambda>c. \<not> isSpace c) (tx_reference x) \<and>
     (case tx_description x of None \<Rightarrow> True
      | Some d \<Rightarrow> normalizeMt86Description d = Some d \<and> parseMt86Counterparty d = Inr (None, None) \<and>
          list_all (\<lambda>c. code c \<noteq> 10 \<and> code c \<noteq> 13) d)"

definition mtStatement :: "mt_statement \<Rightarrow> bool" where
  "mtStatement s \<longleftrightarrow> length (ms_currency s) = 3 \<and> list_all isUpper (ms_currency s) \<and> mtDate (ms_openingDate s) \<and> mtDate (ms_closingDate s) \<and>
     \<bar>ms_opening s\<bar> \<le> 2 ^ 45 \<and> \<bar>ms_closing s\<bar> \<le> 2 ^ 45 \<and> ms_transactions s \<noteq> [] \<and> list_all mtTx (ms_transactions s)"

definition txLine :: "mt_tx \<Rightarrow> parsed_line" where
  "txLine x = \<lparr> pf_date = tx_date x, pf_amount = cents (tx_amount x), pf_description = tx_description x,
     pf_reference = Some (tx_reference x), pf_counterpartyName = None, pf_counterpartyIban = None \<rparr>"

section \<open>Dates\<close>

lemma renderDate_shape: "length (renderDate t) = 6" "list_all isDigit (renderDate t)"
  using pad2_props[of "getUTCFullYear t mod 100"] pad2_props[of "getUTCMonth t + 1"] pad2_props[of "getUTCDate t"]
    getUTCDate_range[of t] getUTCMonth_range[of t] by (simp_all add: renderDate_def)

lemma parse_renderDate:
  assumes "mtDate t" shows "parseYYMMDD (renderDate t) = Inr t"
proof -
  define y m d where "y = getUTCFullYear t" "m = getUTCMonth t" "d = getUTCDate t"
  have r: "1990 \<le> y" "y \<le> 2069" "0 \<le> m" "m \<le> 11" "1 \<le> d" "d \<le> 31"
    using assms getUTCDate_range[of t] getUTCMonth_range[of t] by (auto simp: mtDate_def y_m_d_def)
  note p = pad2_props[of "y mod 100"] pad2_props[of "m + 1"] pad2_props[of d]
  have len: "length (pad2 (y mod 100)) = 2" "length (pad2 (m + 1)) = 2" "length (pad2 d) = 2" using p r by simp_all
  have parts: "datePart (renderDate t) 0 2 = y mod 100" "datePart (renderDate t) 2 2 = m + 1" "datePart (renderDate t) 4 2 = d"
    using p r len by (simp_all add: datePart_def renderDate_def y_m_d_def[symmetric])
  have year: "(if 70 \<le> y mod 100 then 1900 + y mod 100 else 2000 + y mod 100) = y" using r by presburger
  have "MakeDay y m d = Day t" by (simp add: y_m_d_def MakeDay_of_date)
  then have u: "DateUTC y m d 0 = t" using assms r by (simp add: DateUTC_def MakeFullYear_def mtDate_def)
  show ?thesis using renderDate_shape[of t] year r
    by (simp add: parseYYMMDD_def allDigits_def Let_def parts parseDateFromParts_def u y_m_d_def[symmetric] MIN_YEAR_def MAX_YEAR_def)
qed

section \<open>Amounts\<close>

lemma renderAmount_parse:
  assumes "\<bar>n\<bar> \<le> 2 ^ 45" shows "parseDecimal (renderAmount n) = Inr \<bar>cents n\<bar>"
proof -
  define w f where "w = showNat (nat (\<bar>n\<bar> div 100))" "f = pad2 (\<bar>n\<bar> mod 100)"
  have f: "length f = 2" "list_all isDigit f" "readNat f = nat (\<bar>n\<bar> mod 100)" using pad2_props[of "\<bar>n\<bar> mod 100"] by (simp_all add: w_f_def)
  have "\<bar>n\<bar> div 100 < 10 ^ 20" using assms by (simp add: div_less_iff_less_mult less_le_trans[of _ "2 ^ 45 + 1"])
  then have "length w \<le> 20" using length_showNat[of 20 "nat (\<bar>n\<bar> div 100)"] by (simp add: w_f_def nat_less_iff)
  then have g: "digitGroups [w] f" using f showNat_digits[of "nat (\<bar>n\<bar> div 100)"] by (auto simp: digitGroups_def w_f_def list_all_iff)
  have "0 \<le> \<bar>n\<bar> div 100" by (simp add: pos_imp_zdiv_nonneg_iff)
  then have "int (nat (\<bar>n\<bar> div 100) * 10 ^ 2 + nat (\<bar>n\<bar> mod 100)) = \<bar>n\<bar>" by simp
  then have rd: "(of_nat (readNat (w @ f)) :: rat) = of_int \<bar>n\<bar>"
    unfolding readNat_append f(1,3) by (metis of_int_of_nat_eq readNat_showNat w_f_def(1))
  have "groupsValue [w] f = cents \<bar>n\<bar>" by (simp only: groupsValue_def concat.simps append_Nil2 rd f(1) grid_def) simp
  also have "\<dots> = \<bar>cents n\<bar>" by (cases "0 \<le> n") (simp_all add: cent.grid_minus abs_if)
  finally have v: "groupsValue [w] f = \<bar>cents n\<bar>" .
  have "parseDecimal (join ''.'' [w] @ '','' @ f) = Inr (groupsValue [w] f)"
    using parseDecimal_plain(1)[OF grouped_text[OF g, of "CHR ''.''" "CHR '',''"]] normalize_groups(2)[OF g] groups_number[OF g] f by simp
  then show ?thesis by (simp add: renderAmount_def w_f_def v[unfolded w_f_def])
qed

lemma renderAmount_chars: "list_all isAmountChar (renderAmount n)" "renderAmount n \<noteq> []" "isDigit (hd (renderAmount n))" "isDigit (last (renderAmount n))"
proof -
  have f: "length (pad2 (\<bar>n\<bar> mod 100)) = 2" "list_all isDigit (pad2 (\<bar>n\<bar> mod 100))" using pad2_props[of "\<bar>n\<bar> mod 100"] by simp_all
  then have ne: "pad2 (\<bar>n\<bar> mod 100) \<noteq> []" by auto
  note w = showNat_digits[of "nat (\<bar>n\<bar> div 100)"]
  show "list_all isAmountChar (renderAmount n)" using f w by (auto simp: renderAmount_def isAmountChar_def list_all_iff)
  show "renderAmount n \<noteq> []" by (simp add: renderAmount_def)
  show "isDigit (hd (renderAmount n))" using w by (auto simp: renderAmount_def hd_append)
  show "isDigit (last (renderAmount n))" using f(2) ne last_in_set[OF ne] by (auto simp: renderAmount_def list_all_iff)
qed

lemma sign_amount: "\<bar>n\<bar> \<le> 2 ^ 45 \<Longrightarrow> round2 (if n < 0 then - \<bar>cents n\<bar> else \<bar>cents n\<bar>) = cents n"
  using round2_cents[of n] by (cases "n < 0") (simp_all add: abs_if)

section \<open>Balances and transactions\<close>

lemma no_space: "isDigit c \<Longrightarrow> \<not> isSpace c" "isUpper c \<Longrightarrow> \<not> isSpace c" "isAmountChar c \<Longrightarrow> \<not> isSpace c"
  using digit_chars[of c] by (auto simp: isAmountChar_def isUpper_def isSpace_def code_def)

lemma trimEnd_id: "s \<noteq> [] \<Longrightarrow> \<not> isSpace (last s) \<Longrightarrow> trimEnd s = s"
proof -
  assume "s \<noteq> []" "\<not> isSpace (last s)"
  then have "dropWhile isSpace (rev s) = rev s" by (simp add: dropWhile_fix hd_rev)
  then show ?thesis by (simp add: trimEnd_def)
qed

lemma sign_cases: "renderSign n = [if n < 0 then CHR ''D'' else CHR ''C'']"
  by (simp add: renderSign_def)

lemma balance_parse:
  assumes c: "length cur = 3" "list_all isUpper cur" and d: "mtDate t" and n: "\<bar>n\<bar> \<le> 2 ^ 45"
  shows "parseMtBalance (balanceText cur t n) = Inr (cents n, cur, t)" "trimEnd (balanceText cur t n) = balanceText cur t n"
    "\<forall>c \<in> set (balanceText cur t n). \<not> isSpace c"
proof -
  note r = renderDate_shape[of t] and a = renderAmount_chars[of n]
  define b where "b = balanceText cur t n"
  have b: "b = (if n < 0 then CHR ''D'' else CHR ''C'') # renderDate t @ cur @ renderAmount n" by (simp add: b_def balanceText_def sign_cases)
  have cd: "\<not> isSpace (CHR ''D'')" "\<not> isSpace (CHR ''C'')" by (simp_all add: isSpace_def code_def)
  show "\<forall>c \<in> set (balanceText cur t n). \<not> isSpace c"
    using c(2) r(2) a(1) no_space cd unfolding b_def[symmetric] b by (auto simp: list_all_iff)
  have l: "last b = last (renderAmount n)" using a(2) by (simp add: b)
  have t: "trim b = b" using cd no_space(1)[OF a(4)] unfolding trim_fix l by (simp add: b)
  have "b \<noteq> []" by (simp add: b)
  then show "trimEnd (balanceText cur t n) = balanceText cur t n" unfolding b_def[symmetric] using no_space(1)[OF a(4)] l by (intro trimEnd_id) simp_all
  have parts: "take 6 (drop 1 b) = renderDate t" "take 3 (drop 7 b) = cur" "drop 10 b = renderAmount n"
    using r(1) c(1) by (simp_all add: b)
  have ok: "isBalance b"
    using r a c(1,2) parts by (cases "renderAmount n") (auto simp: isBalance_def allDigits_def b isAmountChar_def list_all_iff)
  have u: "toUpperCase cur = cur" using c(2) by (intro toUpperCase_id) (simp add: list_all_iff)
  show "parseMtBalance (balanceText cur t n) = Inr (cents n, cur, t)"
    unfolding b_def[symmetric] parseMtBalance_def Let_def t using ok parts parse_renderDate[OF d] renderAmount_parse[OF n] sign_amount[OF n] u round2_cents[OF n]
    by (simp add: b)
qed

lemma collapse_id: "\<forall>c \<in> set s. \<not> isSpace c \<Longrightarrow> collapseSpaces s = s"
  by (induction s) auto

lemma normalize_plain: "s \<noteq> [] \<Longrightarrow> \<forall>c \<in> set s. \<not> isSpace c \<Longrightarrow> normalizeWhitespace (Some s) = Some s"
  by (simp add: normalizeWhitespace_def collapse_id nonEmpty_def trim_fix[THEN iffD2])

lemma tx_parse:
  assumes x: "mtTx x"
  shows "parseMt61Line (txText x) = Inr (tx_date x, cents (tx_amount x), Some (tx_reference x))" "\<forall>c \<in> set (txText x). \<not> isSpace c"
proof -
  define n R where "n = tx_amount x" "R = tx_reference x"
  have h: "mtDate (tx_date x)" "\<bar>n\<bar> \<le> 2 ^ 45" "R \<noteq> []" "\<forall>c \<in> set R. \<not> isSpace c" using x by (auto simp: mtTx_def n_R_def list_all_iff)
  note r = renderDate_shape[of "tx_date x"] and a = renderAmount_chars[of n]
  have ch: "\<forall>c \<in> set (''DCNTRF//''). \<not> isSpace c" by (simp add: isSpace_def code_def)
  define s where "s = txText x"
  have s: "s = renderDate (tx_date x) @ (if n < 0 then CHR ''D'' else CHR ''C'') # renderAmount n @ ''NTRF//'' @ R"
    by (simp add: s_def txText_def sign_cases n_R_def)
  show sp: "\<forall>c \<in> set (txText x). \<not> isSpace c"
    using r(2) a(1) h(4) no_space ch unfolding s_def[symmetric] s by (auto simp: list_all_iff)
  have compact: "removeSpaces s = s" using sp by (simp add: s_def removeSpaces_def filter_id_conv)
  have t6: "take 6 s = renderDate (tx_date x)" "drop 6 s = (if n < 0 then CHR ''D'' else CHR ''C'') # renderAmount n @ ''NTRF//'' @ R"
    using r(1) by (simp_all add: s)
  have len: "10 \<le> length s" using r(1) by (simp add: s)
  have nd: "\<not> isDigit (CHR ''D'')" "\<not> isDigit (CHR ''C'')" "\<not> isAmountChar (CHR ''N'')" by (simp_all add: isDigit_def isAmountChar_def code_def)
  have nu: "\<not> isUpper (hd (renderAmount n))" "hd (renderAmount n @ ''NTRF//'' @ R) = hd (renderAmount n)" using a(2,3) digit_chars by auto
  have tw: "takeWhile isAmountChar (renderAmount n @ ''NTRF//'' @ R) = renderAmount n"
    "dropWhile isAmountChar (renderAmount n @ ''NTRF//'' @ R) = ''NTRF//'' @ R"
    using a(1) nd(3) by (auto simp: takeWhile_append dropWhile_append list_all_iff)
  have code: "isTypeCode (''NTRF//'' @ R)" by (simp add: isTypeCode_def isUpper_def code_def)
  define S where "S = renderAmount n @ ''NTRF//'' @ R"
  have S: "S \<noteq> []" "\<not> isUpper (hd S)" "takeWhile isAmountChar S = renderAmount n" "dropWhile isAmountChar S = ''NTRF//'' @ R"
    using nu tw a(2) by (simp_all only: S_def) auto
  show "parseMt61Line (txText x) = Inr (tx_date x, cents (tx_amount x), Some (tx_reference x))"
    unfolding s_def[symmetric] parseMt61Line_def Let_def compact t6 S_def[symmetric]
    using len nd S a(2) code parse_renderDate[OF h(1)] renderAmount_parse[OF h(2)] sign_amount[OF h(2)] normalize_plain[OF h(3,4)] round2_cents[OF h(2)]
    by (simp add: allDigits_def startsWith_def n_R_def)
qed

section \<open>Tags\<close>

lemma split_lines: "\<forall>s \<in> set ss. d \<notin> set s \<Longrightarrow> ss \<noteq> [] \<Longrightarrow> split d (join [d] ss) = ss"
  by (induction ss rule: induct_list012) (simp_all add: split_no_sep split_append)

lemma scan_rendered:
  assumes "\<forall>t \<in> set ts. trimEnd (renderTag t) = renderTag t \<and> matchTag (renderTag t) = Some t"
  shows "scanTags cur acc (map renderTag ts) = acc @ (case cur of None \<Rightarrow> [] | Some c \<Rightarrow> [c]) @ ts"
  using assms
proof (induction ts arbitrary: cur acc)
  case (Cons t ts)
  have "renderTag t \<noteq> []" by (simp add: renderTag_def)
  then show ?case using Cons by (simp split: option.split)
qed (simp split: option.split)

lemma match_rendered:
  "matchTag (renderTag (''60F'', v)) = Some (''60F'', v)" "matchTag (renderTag (''62F'', v)) = Some (''62F'', v)"
  "matchTag (renderTag (''61'', v)) = Some (''61'', v)" "matchTag (renderTag (''86'', v)) = Some (''86'', v)"
  by (simp_all add: matchTag_def renderTag_def allDigits_def isDigit_def isUpper_def code_def)

text \<open>What a tag of the writer must satisfy to survive the reader's lines.\<close>

definition soundTag :: "mt_tag \<Rightarrow> bool" where
  "soundTag t \<longleftrightarrow> fst t \<in> {''60F'', ''62F'', ''61'', ''86''} \<and> snd t \<noteq> [] \<and> \<not> isSpace (last (snd t)) \<and> (\<forall>c \<in> set (snd t). code c \<noteq> 10 \<and> code c \<noteq> 13)"

lemma soundTag_reads:
  assumes "soundTag t"
  shows "trimEnd (renderTag t) = renderTag t" "matchTag (renderTag t) = Some t" "char_of (10 :: nat) \<notin> set (renderTag t)" "char_of (13 :: nat) \<notin> set (renderTag t)"
proof -
  obtain n v where t: "t = (n, v)" by (cases t)
  have v: "v \<noteq> []" "\<not> isSpace (last v)" "\<forall>c \<in> set v. code c \<noteq> 10 \<and> code c \<noteq> 13" and n: "n \<in> {''60F'', ''62F'', ''61'', ''86''}"
    using assms by (auto simp: soundTag_def t)
  have "renderTag t \<noteq> []" "last (renderTag t) = last v" using v(1) by (simp_all add: renderTag_def t)
  then show "trimEnd (renderTag t) = renderTag t" using v(2) by (intro trimEnd_id) simp_all
  show "matchTag (renderTag t) = Some t" using n match_rendered by (auto simp: t)
  have nc: "\<forall>c \<in> set ('':'' @ n @ '':''). code c \<noteq> 10 \<and> code c \<noteq> 13" using n by (auto simp: code_def)
  have "\<forall>c \<in> set (renderTag t). code c \<noteq> 10 \<and> code c \<noteq> 13" using nc v(3) by (auto simp: renderTag_def t)
  then show "char_of (10 :: nat) \<notin> set (renderTag t)" "char_of (13 :: nat) \<notin> set (renderTag t)" by (auto simp: code_def)
qed

lemma scan_statement:
  assumes "\<forall>t \<in> set ts. soundTag t" "ts \<noteq> []"
  shows "scanTags None [] (mtLinesOf (join newline (map renderTag ts))) = ts"
proof -
  have nl: "newline = [char_of (10 :: nat)]" by (simp add: newline_def)
  have "char_of (13 :: nat) \<notin> set (join newline (map renderTag ts))"
    using set_join[of "char_of 10" "map renderTag ts"] soundTag_reads(4) assms(1) unfolding nl by fastforce
  then have rc: "removeChar (char_of (13 :: nat)) (join newline (map renderTag ts)) = join newline (map renderTag ts)" by (rule removeChar_id)
  have "\<forall>s \<in> set (map renderTag ts). char_of (10 :: nat) \<notin> set s" using assms(1) soundTag_reads(3) by auto
  then have "split (char_of (10 :: nat)) (join newline (map renderTag ts)) = map renderTag ts"
    unfolding nl using assms(2) by (intro split_lines) simp_all
  then have "mtLinesOf (join newline (map renderTag ts)) = map renderTag ts" unfolding mtLinesOf_def rc .
  then show ?thesis using scan_rendered[of ts None "[]"] soundTag_reads(1,2) assms(1) by simp
qed

section \<open>The loop\<close>

lemma mtLoop_txs:
  assumes "\<forall>x \<in> set xs. mtTx x" "rest \<noteq> []" "fst (hd rest) \<noteq> ''86''"
  shows "mtLoop (concat (map txTags xs) @ rest) st = mtLoop rest (st\<lparr>mt_lines := mt_lines st @ map txLine xs\<rparr>)"
  using assms(1)
proof (induction xs arbitrary: st)
  case (Cons x xs)
  have x: "mtTx x" using Cons.prems by simp
  define W where "W = concat (map txTags xs) @ rest"
  have W: "(case W of [] \<Rightarrow> None | (n, w) # _ \<Rightarrow> if n = ''86'' then Some w else None) = None"
    using assms(2,3) by (cases xs; cases rest) (auto simp: txTags_def W_def)
  have tail: "mtLoop W s = mtLoop rest (s\<lparr>mt_lines := mt_lines s @ map txLine xs\<rparr>)" for s
    using Cons.IH Cons.prems by (simp add: W_def)
  have "mtLoop (txTags x @ W) st = mtLoop W (st\<lparr>mt_lines := mt_lines st @ [txLine x]\<rparr>)"
  proof (cases "tx_description x")
    case None
    then show ?thesis using tx_parse(1)[OF x] by (simp add: txTags_def txLine_def W)
  next
    case (Some d)
    have d: "normalizeMt86Description d = Some d" "parseMt86Counterparty d = Inr (None, None)" using x Some by (auto simp: mtTx_def)
    then show ?thesis using tx_parse(1)[OF x] by (simp add: txTags_def txLine_def Some)
  qed
  then show ?case by (simp add: tail W_def[symmetric])
qed simp

section \<open>Properties\<close>

lemma statement_tags_sound:
  assumes s: "mtStatement s" shows "\<forall>t \<in> set (statementTags s). soundTag t"
proof -
  have nosp: "soundTag (n, v)" if "n \<in> {''60F'', ''62F'', ''61'', ''86''}" "v \<noteq> []" "\<forall>c \<in> set v. \<not> isSpace c" for n v
  proof -
    have "\<not> isSpace (last v)" using that by simp
    moreover have "\<not> isSpace c \<Longrightarrow> code c \<noteq> 10 \<and> code c \<noteq> 13" for c by (auto simp: isSpace_def)
    ultimately show ?thesis using that by (auto simp: soundTag_def)
  qed
  have cur: "length (ms_currency s) = 3" "list_all isUpper (ms_currency s)" "mtDate (ms_openingDate s)" "mtDate (ms_closingDate s)"
    "\<bar>ms_opening s\<bar> \<le> 2 ^ 45" "\<bar>ms_closing s\<bar> \<le> 2 ^ 45" "\<forall>x \<in> set (ms_transactions s). mtTx x"
    using s by (auto simp: mtStatement_def list_all_iff)
  have bal: "soundTag (n, balanceText (ms_currency s) t k)" if "n \<in> {''60F'', ''62F''}" "mtDate t" "\<bar>k\<bar> \<le> 2 ^ 45" for n t k
    using nosp[of n "balanceText (ms_currency s) t k"] balance_parse(3)[OF cur(1,2) that(2,3)] that(1)
    by (auto simp: balanceText_def sign_cases)
  have tx: "\<forall>t \<in> set (txTags x). soundTag t" if x: "mtTx x" for x
  proof -
    have "soundTag (''61'', txText x)" using nosp[of "''61''" "txText x"] tx_parse(2)[OF x] by (auto simp: txText_def sign_cases)
    moreover have "soundTag (''86'', d)" if d: "tx_description x = Some d" for d
    proof -
      have n: "normalizeMt86Description d = Some d" using x d by (simp add: mtTx_def)
      have "cleanText (normalizeMt86Description d)" by (simp add: normalizeMt86Description_def normalizeWhitespace_clean)
      then have "d \<noteq> []" "trim d = d" by (simp_all add: n cleanText_def)
      then show ?thesis using x d by (auto simp: soundTag_def mtTx_def trim_fix list_all_iff)
    qed
    ultimately show ?thesis by (auto simp: txTags_def split: option.splits)
  qed
  show ?thesis using bal[OF _ cur(3,5), of "''60F''"] bal[OF _ cur(4,6), of "''62F''"] tx cur(7) by (auto simp: statementTags_def)
qed

text \<open>C27: An MT940 statement written in the standard form is read back completely: the currency, the date and
  amount of both balances, and for every transaction its date, its amount with the sign of the credit or
  debit mark, its reference and its description, in order.\<close>

theorem mt940_roundtrip:
  assumes s: "mtStatement s"
  shows "parseMt940 (renderMt940 s) = Inr \<lparr> ps_statementDate = ms_closingDate s, ps_currency = Some (ms_currency s),
    ps_openingBalance = Some (cents (ms_opening s)), ps_closingBalance = Some (cents (ms_closing s)),
    ps_lines = map txLine (ms_transactions s) \<rparr>"
proof -
  have tags: "scanTags None [] (mtLinesOf (renderMt940 s)) = statementTags s"
    unfolding renderMt940_def by (rule scan_statement[OF statement_tags_sound[OF s]]) (simp add: statementTags_def)
  have c: "length (ms_currency s) = 3" "list_all isUpper (ms_currency s)" "mtDate (ms_openingDate s)" "mtDate (ms_closingDate s)"
    "\<bar>ms_opening s\<bar> \<le> 2 ^ 45" "\<bar>ms_closing s\<bar> \<le> 2 ^ 45" "\<forall>x \<in> set (ms_transactions s). mtTx x" "ms_transactions s \<noteq> []"
    using s by (auto simp: mtStatement_def list_all_iff)
  have "statementTags s \<noteq> []" by (simp add: statementTags_def)
  then show ?thesis unfolding parseMt940_def Let_def tags
    using balance_parse(1)[OF c(1,2,3,5)] balance_parse(1)[OF c(1,2,4,6)] c(8)
    by (simp add: statementTags_def mtLoop_txs[OF c(7)] mtStart_def)
qed

definition demoMt :: mt_statement where
  "demoMt = \<lparr> ms_currency = ''RON'', ms_openingDate = 1704067200000, ms_opening = 100000, ms_closingDate = 1706659200000,
     ms_closing = 87655, ms_transactions = [\<lparr> tx_date = 1705276800000, tx_amount = -12345, tx_reference = ''R1'', tx_description = Some ''PLATA'' \<rparr>] \<rparr>"

theorem mt940_roundtrip_witness:
  "\<exists>p. parseMt940 (renderMt940 demoMt) = Inr p \<and> map pf_amount (ps_lines p) = [cents (-12345)]"
proof -
  have d: "mtDate 1704067200000" "mtDate 1706659200000" "mtDate 1705276800000" by code_simp+
  have t: "normalizeMt86Description ''PLATA'' = Some ''PLATA''" "parseMt86Counterparty ''PLATA'' = Inr (None, None)"
    "list_all (\<lambda>c. code c \<noteq> 10 \<and> code c \<noteq> 13) ''PLATA''" "list_all isUpper ''RON''" "list_all (\<lambda>c. \<not> isSpace c) ''R1''"
    by code_simp+
  have "mtStatement demoMt" using d t unfolding demoMt_def mtStatement_def by (simp add: mtTx_def)
  from mt940_roundtrip[OF this] show ?thesis by (simp add: demoMt_def txLine_def)
qed

end
