(* ===== verification/BankConnector.thy ===== *)
theory BankConnector
  imports JsonValues
begin

text \<open>
  The client of the banks' interfaces (services/open-banking/banks.ts and pilot-bcr-connector.ts): the bank
  codes, the configuration of a bank, the readers of the JSON the bank answers with, and the three calls:
  tokens, accounts, transactions. The network is a parameter: \<open>bank_fetch\<close> maps the number of a call and
  the call to what it returns, a thrown error or a status with the parsed body (\<open>None\<close> when the body is
  empty or not JSON). \<open>new Date(s)\<close> on a string that is not a date of ISO 8601 is the parameter of
  \<open>isoDate\<close>. Keys of an object are distinct. A thrown \<open>Error\<close> is \<open>Inl\<close> with its message, without
  diacritics and without the values it interpolates.
\<close>

section \<open>Bank codes\<close>

datatype OpenBankingBankCode = BCR | BRD | ING | RAIFFEISEN | UNICREDIT

definition OPEN_BANKING_BANK_CODES :: "OpenBankingBankCode list" where
  "OPEN_BANKING_BANK_CODES = [BCR, BRD, ING, RAIFFEISEN, UNICREDIT]"

fun bankCodeName :: "OpenBankingBankCode \<Rightarrow> string" where
  "bankCodeName BCR = ''BCR''" | "bankCodeName BRD = ''BRD''" | "bankCodeName ING = ''ING''"
| "bankCodeName RAIFFEISEN = ''RAIFFEISEN''" | "bankCodeName UNICREDIT = ''UNICREDIT''"

fun providerNameForBankCode :: "OpenBankingBankCode \<Rightarrow> string" where
  "providerNameForBankCode BCR = ''BCR George Open Banking''"
| "providerNameForBankCode BRD = ''BRD Open Banking''"
| "providerNameForBankCode ING = ''ING Open Banking''"
| "providerNameForBankCode RAIFFEISEN = ''Raiffeisen Open Banking''"
| "providerNameForBankCode UNICREDIT = ''UniCredit Open Banking''"

definition parseOpenBankingBankCode :: "string \<Rightarrow> OpenBankingBankCode option" where
  "parseOpenBankingBankCode value = find (\<lambda>b. bankCodeName b = toUpperCase (trim value)) OPEN_BANKING_BANK_CODES"

lemma parseOpenBankingBankCode_name: "parseOpenBankingBankCode (bankCodeName b) = Some b"
proof -
  have "list_all (\<lambda>b. parseOpenBankingBankCode (bankCodeName b) = Some b) OPEN_BANKING_BANK_CODES" by code_simp
  then show ?thesis by (cases b) (simp_all add: OPEN_BANKING_BANK_CODES_def)
qed

section \<open>Configuration\<close>

record connector_env =
  tokenUrl :: "string option"
  accountsUrl :: "string option"
  transactionsUrl :: "string option"
  clientId :: "string option"
  clientSecret :: "string option"

record connector_config =
  cf_tokenUrl :: string
  cf_accountsUrl :: string
  cf_transactionsUrl :: string
  cf_clientId :: string
  cf_clientSecret :: string

definition missing :: "string option \<Rightarrow> bool" where
  "missing v \<longleftrightarrow> v = None \<or> v = Some []"

definition resolveConfig :: "(OpenBankingBankCode \<Rightarrow> connector_env) \<Rightarrow> OpenBankingBankCode \<Rightarrow> connector_config parsed" where
  "resolveConfig connectorEnvByBank bankCode =
     (let c = connectorEnvByBank bankCode in
      if missing (tokenUrl c) \<or> missing (accountsUrl c) \<or> missing (transactionsUrl c)
      then Inl ''Configuratia Open Banking este incompleta (URL-uri lipsa).''
      else if missing (clientId c) \<or> missing (clientSecret c)
      then Inl ''Configuratia Open Banking este incompleta (client credentials lipsa).''
      else Inr \<lparr> cf_tokenUrl = the (tokenUrl c), cf_accountsUrl = the (accountsUrl c),
        cf_transactionsUrl = the (transactionsUrl c), cf_clientId = the (clientId c), cf_clientSecret = the (clientSecret c) \<rparr>)"

section \<open>Reading JSON\<close>

text \<open>An array is an object too, without any of the keys read here.\<close>

definition asObject :: "json option \<Rightarrow> (string \<times> json) list option" where
  "asObject v = (case v of Some (JObject members) \<Rightarrow> Some members | Some (JArray xs) \<Rightarrow> Some [] | _ \<Rightarrow> None)"

fun readPath :: "json option \<Rightarrow> string list \<Rightarrow> json option" where
  "readPath current [] = current"
| "readPath current (part # parts) = (case asObject current of None \<Rightarrow> None
     | Some members \<Rightarrow> readPath (map_of members part) parts)"

definition readDeep :: "json option \<Rightarrow> string \<Rightarrow> json option" where
  "readDeep source path = readPath source (split (CHR ''.'') path)"

fun pickFirst :: "json option \<Rightarrow> string list \<Rightarrow> json option" where
  "pickFirst source [] = None"
| "pickFirst source (path # paths) =
     (let v = readDeep source path in if nullish v then pickFirst source paths else v)"

definition toStringOrUndefined :: "json option \<Rightarrow> string option" where
  "toStringOrUndefined v = (case v of Some (JString s) \<Rightarrow> nonEmpty (trim s)
     | Some (JNumber x) \<Rightarrow> Some (numberToString x)
     | Some (JBool b) \<Rightarrow> Some (if b then ''true'' else ''false'') | _ \<Rightarrow> None)"

definition ibanOrUndefined :: "string option \<Rightarrow> string option" where
  "ibanOrUndefined v = (case v of None \<Rightarrow> None
     | Some s \<Rightarrow> let compact = toUpperCase (removeSpaces s) in
         if IBAN_REGEX compact then Some compact else None)"

definition numberOrUndefined :: "json option \<Rightarrow> double option" where
  "numberOrUndefined v = (case v of Some (JNumber x) \<Rightarrow> finiteOnly x
     | Some (JString s) \<Rightarrow> toNumberString (replaceFirst (CHR '','') (CHR ''.'') (removeSpaces s))
     | _ \<Rightarrow> None)"

definition dateOrUndefined :: "(string \<Rightarrow> date option) \<Rightarrow> json option \<Rightarrow> date option" where
  "dateOrUndefined isoTime v = (case v of
     Some (JString s) \<Rightarrow> if isIsoPattern s then isoDate isoTime s else isoTime s | _ \<Rightarrow> None)"

text \<open>\<open>value.toISOString().slice(0, 10)\<close>: years outside 0 to 9999 have a sign and six digits.\<close>

definition isoYear :: "int \<Rightarrow> string" where
  "isoYear y = (if 0 \<le> y \<and> y \<le> 9999 then padStart 4 (CHR ''0'') (showNat (nat y))
     else (if y < 0 then ''-'' else ''+'') @ padStart 6 (CHR ''0'') (showNat (nat \<bar>y\<bar>)))"

definition toIsoDay :: "date \<Rightarrow> string" where
  "toIsoDay t = take 10 (isoYear (getUTCFullYear t) @ ''-'' @ pad2 (getUTCMonth t + 1) @ ''-'' @ pad2 (getUTCDate t))"

section \<open>Accounts\<close>

record account_snapshot =
  ac_externalAccountId :: string
  ac_iban :: "string option"
  ac_currency :: string
  ac_balance :: "double option"
  ac_name :: "string option"

text \<open>\<open>object.key\<close>.\<close>

definition field :: "(string \<times> json) list \<Rightarrow> string \<Rightarrow> json option" where
  "field members key = map_of members key"

definition parseAccount :: "json \<Rightarrow> account_snapshot option" where
  "parseAccount raw = (case asObject (Some raw) of None \<Rightarrow> None
     | Some account \<Rightarrow>
         let text = (\<lambda>key. toStringOrUndefined (field account key));
             deep = (\<lambda>path. readDeep (Some raw) path);
             externalAccountId = elseText (text ''id'') (elseText (text ''accountId'') (elseText (text ''resourceId'')
               (ibanOrUndefined (text ''iban''))));
             currency = elseText (text ''currency'') (elseText (toStringOrUndefined (deep ''balance.currency''))
               (toStringOrUndefined (deep ''balances.current.currency'')));
             balance = elseText (numberOrUndefined (field account ''balance''))
               (elseText (numberOrUndefined (deep ''balance.amount''))
               (elseText (numberOrUndefined (deep ''balances.current.amount''))
                 (numberOrUndefined (deep ''balances.available.amount''))))
         in case externalAccountId of None \<Rightarrow> None
            | Some i \<Rightarrow> Some \<lparr> ac_externalAccountId = i,
                ac_iban = ibanOrUndefined (elseText (text ''iban'') (text ''accountNumber'')),
                ac_currency = toUpperCase (orElse currency ''RON''), ac_balance = balance, ac_name = text ''name'' \<rparr>)"

definition parseAccountsPayload :: "json option \<Rightarrow> account_snapshot list" where
  "parseAccountsPayload payload =
     List.map_filter parseAccount (asArray (pickFirst payload [''accounts'', ''data.accounts'', ''data.items'', ''items'']))"

section \<open>Transactions\<close>

text \<open>\<open>Number(x.toFixed(2))\<close>: the nearest hundredth of the exact value, halves away from zero.\<close>

definition toFixed2 :: "double \<Rightarrow> double" where
  "toFixed2 x = (if 10 ^ 21 \<le> \<bar>x\<bar> then x
     else let n = \<lfloor>\<bar>x\<bar> * 100 + 1 / 2\<rfloor> in if x < 0 then - fl (of_int n / 100) else fl (of_int n / 100))"

definition rawAmount :: "(string \<times> json) list \<Rightarrow> double option" where
  "rawAmount transaction =
     (let amountObject = elseText (asObject (field transaction ''amount'')) (asObject (field transaction ''transactionAmount'')) in
      elseText (numberOrUndefined (field transaction ''amount''))
      (elseText (numberOrUndefined (readDeep (Some (JObject transaction)) ''amount.value''))
      (elseText (numberOrUndefined (Option.bind amountObject (\<lambda>m. field m ''amount'')))
        (numberOrUndefined (readDeep (Some (JObject transaction)) ''transactionAmount.amount'')))))"

definition indicator :: "(string \<times> json) list \<Rightarrow> string" where
  "indicator transaction =
     toUpperCase (orElse (elseText (toStringOrUndefined (field transaction ''creditDebitIndicator''))
       (toStringOrUndefined (readDeep (Some (JObject transaction)) ''transactionAmount.creditDebitIndicator''))) [])"

definition parseTransactionAmount :: "(string \<times> json) list \<Rightarrow> (double \<times> string) option" where
  "parseTransactionAmount transaction =
     (let amountObject = elseText (asObject (field transaction ''amount'')) (asObject (field transaction ''transactionAmount'')) in
      case rawAmount transaction of None \<Rightarrow> None
      | Some amountValue \<Rightarrow>
          if amountValue = 0 then None else
          let signed = (if indicator transaction \<in> {''DBIT'', ''DEBIT''} then - \<bar>amountValue\<bar> else \<bar>amountValue\<bar>);
              currency = elseText (toStringOrUndefined (field transaction ''currency''))
                (elseText (toStringOrUndefined (readDeep (Some (JObject transaction)) ''amount.currency''))
                (elseText (toStringOrUndefined (Option.bind amountObject (\<lambda>m. field m ''currency'')))
                  (toStringOrUndefined (readDeep (Some (JObject transaction)) ''transactionAmount.currency''))))
          in Some (toFixed2 signed, toUpperCase (orElse currency ''RON'')))"

record transaction_snapshot =
  tx_externalTransactionId :: "string option"
  tx_bookingDate :: date
  tx_amount :: double
  tx_currency :: string
  tx_description :: "string option"
  tx_reference :: "string option"
  tx_counterpartyName :: "string option"
  tx_counterpartyIban :: "string option"

definition firstText :: "(string \<times> json) list \<Rightarrow> string list \<Rightarrow> string option" where
  "firstText members keys = foldr (\<lambda>key rest. elseText (toStringOrUndefined (field members key)) rest) keys None"

definition bookingDateOf :: "(string \<Rightarrow> date option) \<Rightarrow> (string \<times> json) list \<Rightarrow> date option" where
  "bookingDateOf isoTime transaction =
     foldr (\<lambda>key rest. elseText (dateOrUndefined isoTime (field transaction key)) rest)
       [''bookingDate'', ''bookingDateTime'', ''valueDate'', ''date''] None"

definition parseTransaction :: "(string \<Rightarrow> date option) \<Rightarrow> json \<Rightarrow> transaction_snapshot option" where
  "parseTransaction isoTime raw = (case asObject (Some raw) of None \<Rightarrow> None
     | Some transaction \<Rightarrow> (case parseTransactionAmount transaction of None \<Rightarrow> None
     | Some (amount, currency) \<Rightarrow> (case bookingDateOf isoTime transaction of None \<Rightarrow> None
     | Some bookingDate \<Rightarrow> Some
         \<lparr> tx_externalTransactionId = firstText transaction [''id'', ''transactionId'', ''resourceId'', ''entryReference''],
           tx_bookingDate = bookingDate, tx_amount = amount, tx_currency = currency,
           tx_description = elseText (firstText transaction [''description'', ''remittanceInformationUnstructured''])
             (toStringOrUndefined (readDeep (Some raw) ''remittanceInformation.unstructured'')),
           tx_reference = firstText transaction [''reference'', ''endToEndId'', ''transactionId''],
           tx_counterpartyName = firstText transaction [''counterpartyName'', ''creditorName'', ''debtorName''],
           tx_counterpartyIban = ibanOrUndefined
             (firstText transaction [''counterpartyIban'', ''creditorAccountIban'', ''debtorAccountIban'']) \<rparr>)))"

definition parseTransactionsPayload :: "(string \<Rightarrow> date option) \<Rightarrow> json option \<Rightarrow> transaction_snapshot list" where
  "parseTransactionsPayload isoTime payload =
     sort_key tx_bookingDate (List.map_filter (parseTransaction isoTime)
       (asArray (pickFirst payload [''transactions'', ''data.transactions'', ''data.booked'', ''bookedTransactions'', ''items''])))"

section \<open>Calls\<close>

datatype fetch_call =
    TokenRequest string "(string \<times> string) list"
  | AccountsRequest string string
  | TransactionsRequest string string string string string

datatype fetch_result = FetchFailed string | Response (status: nat) (body: "json option")

type_synonym bank_fetch = "nat \<Rightarrow> fetch_call \<Rightarrow> fetch_result"

definition readJsonResponse :: "json option \<Rightarrow> (string \<times> json) list" where
  "readJsonResponse b = orElse (asObject b) []"

text \<open>What the three calls share: the payload of an answer with a status from 200 to 299, else the error.\<close>

definition payloadOf :: "string \<Rightarrow> fetch_result \<Rightarrow> (string \<times> json) list parsed" where
  "payloadOf fallback answer = (case answer of FetchFailed e \<Rightarrow> Inl e
     | Response st b \<Rightarrow>
         let payload = readJsonResponse b in
         if 200 \<le> st \<and> st \<le> 299 then Inr payload
         else Inl (orElse (elseText (toStringOrUndefined (field payload ''error_description''))
           (toStringOrUndefined (field payload ''error''))) fallback))"

datatype grant = AuthorizationCode "string option" "string option" | RefreshToken "string option"

record token_result =
  tr_accessToken :: string
  tr_refreshToken :: "string option"
  tr_expiresAt :: "date option"
  tr_scope :: "string option"
  tr_tokenType :: "string option"

fun grantBody :: "grant \<Rightarrow> (string \<times> string) list parsed" where
  "grantBody (AuthorizationCode num redirectUri) =
     (if missing num then Inl ''authorizationCode este obligatoriu pentru grant_type=authorization_code.''
      else Inr ([(''code'', the num)] @ (if missing redirectUri then [] else [(''redirect_uri'', the redirectUri)])))"
| "grantBody (RefreshToken t) =
     (if missing t then Inl ''refreshToken este obligatoriu pentru grant_type=refresh_token.''
      else Inr [(''refresh_token'', the t)])"

fun grantType :: "grant \<Rightarrow> string" where
  "grantType (AuthorizationCode num redirectUri) = ''authorization_code''"
| "grantType (RefreshToken t) = ''refresh_token''"

text \<open>\<open>new Date(Date.now() + expiresIn * 1000)\<close>, truncated to milliseconds. Beyond the range of dates the
  date is invalid and the update that both callers make next is refused: the error is raised here.\<close>

definition expiryDate :: "date \<Rightarrow> double option \<Rightarrow> date option parsed" where
  "expiryDate t expiresIn = (case expiresIn of None \<Rightarrow> Inr None
     | Some x \<Rightarrow>
         if x = 0 then Inr None else
         let ms = fadd (of_int t) (fmul x 1000) in
         if 8640000000000000 < \<bar>ms\<bar> then Inl ''Invalid Date''
         else Inr (Some (if 0 \<le> ms then \<lfloor>ms\<rfloor> else \<lceil>ms\<rceil>)))"

definition exchangeOpenBankingAccessToken ::
  "(OpenBankingBankCode \<Rightarrow> connector_env) \<Rightarrow> bank_fetch \<Rightarrow> date \<Rightarrow> OpenBankingBankCode \<Rightarrow> grant \<Rightarrow> token_result parsed" where
  "exchangeOpenBankingAccessToken envs fetch t bankCode g =
     bindR (resolveConfig envs bankCode) (\<lambda>config.
     bindR (grantBody g) (\<lambda>params.
     bindR (payloadOf ''Token endpoint raspunde cu status de eroare'' (fetch 0 (TokenRequest (cf_tokenUrl config)
       ([(''grant_type'', grantType g), (''client_id'', cf_clientId config), (''client_secret'', cf_clientSecret config)] @ params)))) (\<lambda>payload.
     let accessToken = toStringOrUndefined (field payload ''access_token'') in
     if missing accessToken then Inl ''Token endpoint nu a returnat access_token.'' else
     bindR (expiryDate t (numberOrUndefined (field payload ''expires_in''))) (\<lambda>expiresAt.
     Inr \<lparr> tr_accessToken = the accessToken, tr_refreshToken = toStringOrUndefined (field payload ''refresh_token''),
       tr_expiresAt = expiresAt, tr_scope = toStringOrUndefined (field payload ''scope''),
       tr_tokenType = toStringOrUndefined (field payload ''token_type'') \<rparr>))))"

definition fetchOpenBankingAccounts ::
  "(OpenBankingBankCode \<Rightarrow> connector_env) \<Rightarrow> bank_fetch \<Rightarrow> OpenBankingBankCode \<Rightarrow> string \<Rightarrow> account_snapshot list parsed" where
  "fetchOpenBankingAccounts envs fetch bankCode accessToken =
     bindR (resolveConfig envs bankCode) (\<lambda>config.
     bindR (payloadOf ''Accounts endpoint raspunde cu status de eroare'' (fetch 1 (AccountsRequest (cf_accountsUrl config) accessToken))) (\<lambda>payload.
     let found = parseAccountsPayload (Some (JObject payload)) in
     if found = [] then Inl ''Accounts endpoint nu a returnat conturi utilizabile.'' else Inr found))"

text \<open>The address is the template with the account in it; an invalid one is a failed call.\<close>

definition fetchOpenBankingTransactions ::
  "(OpenBankingBankCode \<Rightarrow> connector_env) \<Rightarrow> bank_fetch \<Rightarrow> (string \<Rightarrow> date option) \<Rightarrow> nat \<Rightarrow>
   OpenBankingBankCode \<Rightarrow> string \<Rightarrow> string \<Rightarrow> date \<Rightarrow> date \<Rightarrow> transaction_snapshot list parsed" where
  "fetchOpenBankingTransactions envs fetch isoTime call bankCode accessToken externalAccountId fromDate toDate =
     bindR (resolveConfig envs bankCode) (\<lambda>config.
     bindR (payloadOf ''Transactions endpoint raspunde cu status de eroare'' (fetch call (TransactionsRequest (cf_transactionsUrl config)
       accessToken externalAccountId (toIsoDay fromDate) (toIsoDay toDate)))) (\<lambda>payload.
     Inr (parseTransactionsPayload isoTime (Some (JObject payload)))))"

end
