(* ===== verification/OpenBanking.thy ===== *)
theory OpenBanking
  imports BankConnector BankMatching
begin

text \<open>
  Open banking (services/open-banking/sync-service.ts and scheduler.ts, routes/open-banking.ts): the
  connections of a company to its banks, the synchronisation that imports accounts and transactions as
  statements and lines of the bank reconciliation, the routes and the daily scheduler. The tables extend
  those of the bank reconciliation. A synchronisation is not a transaction: what it wrote before an error
  stays, so its steps return the state beside the result (\<open>bindS\<close>). The identifiers of the rows it
  creates are counted by the argument \<open>k\<close>; the calls to the bank by the argument of \<open>bank_fetch\<close>.
\<close>

section \<open>Tables\<close>

datatype OpenBankingConnectionStatus = CONNECTION_PENDING | CONNECTION_ACTIVE | CONNECTION_ERROR | CONNECTION_DISABLED
datatype OpenBankingSyncStatus = SYNC_RUNNING | SYNC_SUCCESS | SYNC_FAILED

record connection =
  oc_id :: id
  oc_companyId :: id
  oc_createdById :: id
  oc_bankCode :: string
  oc_providerName :: string
  oc_accountCode :: string
  oc_externalConsentId :: "string option"
  oc_externalAccountId :: "string option"
  oc_status :: OpenBankingConnectionStatus
  oc_accessToken :: "string option"
  oc_refreshToken :: "string option"
  oc_tokenExpiresAt :: "date option"
  oc_lastSyncedAt :: "date option"
  oc_lastCursorDate :: "date option"
  oc_errorCount :: int
  oc_lastErrorAt :: "date option"
  oc_lastErrorMessage :: "string option"
  oc_createdAt :: date
  oc_updatedAt :: date

record sync_run =
  sr_id :: id
  sr_connectionId :: id
  sr_companyId :: id
  sr_initiatedByUserId :: "id option"
  sr_status :: OpenBankingSyncStatus
  sr_startedAt :: date
  sr_finishedAt :: "date option"
  sr_cursorFrom :: date
  sr_cursorTo :: date
  sr_statementsImported :: nat
  sr_transactionsImported :: nat
  sr_balancesSynced :: nat
  sr_errorMessage :: "string option"

record open_banking = banking +
  connections :: "connection list"
  syncRuns :: "sync_run list"

definition findConnection :: "id \<Rightarrow> id \<Rightarrow> 'z open_banking_scheme \<Rightarrow> connection option" where
  "findConnection c i db = find (\<lambda>x. oc_id x = i \<and> oc_companyId x = c) (connections db)"

text \<open>An update sets \<open>updatedAt\<close>.\<close>

definition updateConnection :: "env \<Rightarrow> id \<Rightarrow> (connection \<Rightarrow> connection) \<Rightarrow> 'z open_banking_scheme \<Rightarrow> 'z open_banking_scheme" where
  "updateConnection env i f db =
     db\<lparr>connections := updateWhere (\<lambda>x. oc_id x = i) (\<lambda>x. (f x)\<lparr>oc_updatedAt := now env\<rparr>) (connections db)\<rparr>"

definition insertConnection :: "connection \<Rightarrow> 'z open_banking_scheme \<Rightarrow> http_error + 'z open_banking_scheme" where
  "insertConnection x db =
     (if list_ex (\<lambda>y. oc_id y = oc_id x) (connections db) then Inl uniqueViolation
      else Inr (db\<lparr>connections := connections db @ [x]\<rparr>))"

definition insertSyncRun :: "sync_run \<Rightarrow> 'z open_banking_scheme \<Rightarrow> http_error + 'z open_banking_scheme" where
  "insertSyncRun x db =
     (if list_ex (\<lambda>y. sr_id y = sr_id x) (syncRuns db) then Inl uniqueViolation
      else Inr (db\<lparr>syncRuns := syncRuns db @ [x]\<rparr>))"

definition updateSyncRun :: "id \<Rightarrow> (sync_run \<Rightarrow> sync_run) \<Rightarrow> 'z open_banking_scheme \<Rightarrow> 'z open_banking_scheme" where
  "updateSyncRun i f db = db\<lparr>syncRuns := updateWhere (\<lambda>x. sr_id x = i) f (syncRuns db)\<rparr>"

text \<open>\<open>createMany\<close> with \<open>skipDuplicates\<close>: a row that clashes with a stored one is left out.\<close>

fun insertSkipping :: "bank_line list \<Rightarrow> 'z banking_scheme \<Rightarrow> 'z banking_scheme" where
  "insertSkipping [] db = db"
| "insertSkipping (l # ls) db =
     insertSkipping ls (if list_ex (bankLineClash l) (bankLines db) then db else db\<lparr>bankLines := bankLines db @ [l]\<rparr>)"

text \<open>Sequencing of steps that keep the state on an error.\<close>

fun bindS :: "('e + 'a) \<times> 's \<Rightarrow> ('a \<Rightarrow> 's \<Rightarrow> ('e + 'b) \<times> 's) \<Rightarrow> ('e + 'b) \<times> 's" where
  "bindS (Inl e, s) f = (Inl e, s)"
| "bindS (Inr x, s) f = f x s"

section \<open>Importing the transactions of an account\<close>

definition startOfUtcDay :: "date \<Rightarrow> date" where
  "startOfUtcDay t = DateUTC (getUTCFullYear t) (getUTCMonth t) (getUTCDate t) 0"

definition addDays :: "date \<Rightarrow> int \<Rightarrow> date" where
  "addDays t n = t + n * 24 * 60 * 60 * 1000"

definition dayKeyOf :: "transaction_snapshot \<Rightarrow> string" where
  "dayKeyOf t = toIsoDay (startOfUtcDay (tx_bookingDate t))"

text \<open>A \<open>Map\<close> in the order its keys were first set.\<close>

fun mapPush :: "'k \<Rightarrow> 'a \<Rightarrow> ('k \<times> 'a list) list \<Rightarrow> ('k \<times> 'a list) list" where
  "mapPush k x [] = [(k, [x])]"
| "mapPush k x ((j, xs) # m) = (if j = k then (j, xs @ [x]) # m else (j, xs) # mapPush k x m)"

definition groupTransactionsByStatementDay :: "transaction_snapshot list \<Rightarrow> (string \<times> transaction_snapshot list) list" where
  "groupTransactionsByStatementDay transactions = foldl (\<lambda>grouped t. mapPush (dayKeyOf t) t grouped) [] transactions"

text \<open>\<open>new Date(`${dayKey}T00:00:00.000Z`)\<close>.\<close>

definition dayOfKey :: "string \<Rightarrow> date option" where
  "dayOfKey key = (if isIsoPattern key then isoDate (\<lambda>_. None) key else None)"

definition readExistingExternalTransactionIds :: "id \<Rightarrow> string list \<Rightarrow> 'z banking_scheme \<Rightarrow> string list" where
  "readExistingExternalTransactionIds c externalIds db =
     filter (\<lambda>i. i \<noteq> []) (List.map_filter bl_externalTransactionId
       (filter (\<lambda>l. bl_companyId l = c \<and> (\<exists>i \<in> set externalIds. bl_externalTransactionId l = Some i)) (bankLines db)))"

definition fetchedLine :: "env \<Rightarrow> connection \<Rightarrow> id \<Rightarrow> nat \<Rightarrow> transaction_snapshot \<Rightarrow> bank_line" where
  "fetchedLine env conn statementId k t =
     \<lparr> bl_id = uuid env k, bl_companyId = oc_companyId conn, bl_statementId = statementId,
       bl_externalTransactionId = tx_externalTransactionId t, bl_dedupeKey = None, bl_date = tx_bookingDate t,
       bl_amount = storeDec env 100 (round2 (tx_amount t)), bl_description = tx_description t,
       bl_reference = tx_reference t, bl_counterpartyName = tx_counterpartyName t,
       bl_counterpartyIban = tx_counterpartyIban t, bl_status = UNMATCHED, bl_matchedType = None,
       bl_matchedRecordId = None, bl_matchedAt = None \<rparr>"

definition sourceLabelOf :: "connection \<Rightarrow> string" where
  "sourceLabelOf conn = ''OPEN_BANKING:'' @ toUpperCase (oc_bankCode conn)"

definition findStatement :: "connection \<Rightarrow> account_snapshot \<Rightarrow> date \<Rightarrow> 'z banking_scheme \<Rightarrow> bank_statement option" where
  "findStatement conn account day db =
     find (\<lambda>s. bs_companyId s = oc_companyId conn \<and> bs_accountCode s = oc_accountCode conn \<and>
       bs_externalAccountId s = Some (ac_externalAccountId account) \<and> bs_statementDate s = day \<and>
       bs_sourceLabel s = Some (sourceLabelOf conn)) (bankStatements db)"

definition newStatement :: "env \<Rightarrow> connection \<Rightarrow> account_snapshot \<Rightarrow> nat \<Rightarrow> date \<Rightarrow> bank_statement" where
  "newStatement env conn account k day =
     \<lparr> bs_id = uuid env k, bs_companyId = oc_companyId conn, bs_accountCode = oc_accountCode conn,
       bs_statementDate = day, bs_currency = ac_currency account,
       bs_externalAccountId = Some (ac_externalAccountId account), bs_openingBalance = None,
       bs_closingBalance = map_option (storeDec env 100) (ac_balance account),
       bs_sourceLabel = Some (sourceLabelOf conn), bs_uploadedById = oc_createdById conn \<rparr>"

text \<open>One turn of the loop over the days: the statement, found or created, and its lines. The result says
  whether a statement was created.\<close>

definition importDay ::
  "env \<Rightarrow> connection \<Rightarrow> account_snapshot \<Rightarrow> nat \<Rightarrow> string \<Rightarrow> transaction_snapshot list \<Rightarrow> 'z banking_scheme \<Rightarrow>
   (string + bool) \<times> 'z banking_scheme" where
  "importDay env conn account k dayKey dayTransactions db =
     (case dayOfKey dayKey of None \<Rightarrow> (Inl ''Invalid Date'', db)
      | Some day \<Rightarrow>
          bindS (case findStatement conn account day db of
              Some s \<Rightarrow> (Inr (bs_id s, False), db)
            | None \<Rightarrow> (case insertBankStatement (newStatement env conn account k day) db of
                Inl e \<Rightarrow> (Inl (message e), db) | Inr db \<Rightarrow> (Inr (uuid env k, True), db))) (\<lambda>(statementId, created) db.
          (Inr created, insertSkipping (map (\<lambda>(j, t). fetchedLine env conn statementId j t)
             (List.enumerate (k + 1) dayTransactions)) db)))"

fun importDays ::
  "env \<Rightarrow> connection \<Rightarrow> account_snapshot \<Rightarrow> nat \<Rightarrow> (string \<times> transaction_snapshot list) list \<Rightarrow> nat \<times> nat \<Rightarrow>
   'z banking_scheme \<Rightarrow> (string + (nat \<times> nat)) \<times> 'z banking_scheme" where
  "importDays env conn account k [] counts db = (Inr counts, db)"
| "importDays env conn account k ((dayKey, dayTransactions) # days) (statementsImported, transactionsImported) db =
     bindS (importDay env conn account k dayKey dayTransactions db) (\<lambda>created db.
     importDays env conn account (k + 1 + length dayTransactions) days
       (statementsImported + (if created then 1 else 0), transactionsImported + length dayTransactions) db)"

definition scopedTransactions :: "date \<Rightarrow> date \<Rightarrow> transaction_snapshot list \<Rightarrow> transaction_snapshot list" where
  "scopedTransactions syncFrom syncTo ts = filter (\<lambda>t. syncFrom \<le> tx_bookingDate t \<and> tx_bookingDate t \<le> syncTo) ts"

definition freshTransactions :: "connection \<Rightarrow> 'z banking_scheme \<Rightarrow> transaction_snapshot list \<Rightarrow> transaction_snapshot list" where
  "freshTransactions conn db scoped =
     (let externalIds = filter (\<lambda>i. i \<noteq> []) (List.map_filter tx_externalTransactionId scoped);
          existingIds = readExistingExternalTransactionIds (oc_companyId conn) externalIds db
      in filter (\<lambda>t. case tx_externalTransactionId t of None \<Rightarrow> True | Some i \<Rightarrow> i = [] \<or> i \<notin> set existingIds) scoped)"

definition latestDate :: "transaction_snapshot list \<Rightarrow> date" where
  "latestDate fresh = foldl (\<lambda>latest t. if latest < tx_bookingDate t then tx_bookingDate t else latest) (tx_bookingDate (hd fresh)) fresh"

record imported =
  ir_statementsImported :: nat
  ir_transactionsImported :: nat
  ir_latestTransactionDate :: "date option"

definition importAccountTransactions ::
  "env \<Rightarrow> connection \<Rightarrow> account_snapshot \<Rightarrow> transaction_snapshot list \<Rightarrow> date \<Rightarrow> date \<Rightarrow> nat \<Rightarrow> 'z banking_scheme \<Rightarrow>
   (string + imported) \<times> 'z banking_scheme" where
  "importAccountTransactions env conn account transactions syncFrom syncTo k db =
     (let scoped = scopedTransactions syncFrom syncTo transactions;
          fresh = freshTransactions conn db scoped
      in if scoped = []
         then (Inr \<lparr> ir_statementsImported = 0, ir_transactionsImported = 0, ir_latestTransactionDate = None \<rparr>, db)
         else if fresh = []
         then (Inr \<lparr> ir_statementsImported = 0, ir_transactionsImported = 0,
            ir_latestTransactionDate = Some (tx_bookingDate (last scoped)) \<rparr>, db)
         else bindS (importDays env conn account k (groupTransactionsByStatementDay fresh) (0, 0) db) (\<lambda>(si, ti) db.
           (Inr \<lparr> ir_statementsImported = si, ir_transactionsImported = ti, ir_latestTransactionDate = Some (latestDate fresh) \<rparr>, db)))"

end
