(* ===== verification/OpenBankingSync.thy ===== *)
theory OpenBankingSync
  imports OpenBanking
begin

text \<open>
  Open banking, continued: a synchronisation run (services/open-banking/sync-service.ts,
  \<open>runOpenBankingSync\<close>), the routes of routes/open-banking.ts and the scheduler. The clock is read once per
  run. A date that a caller passes is \<open>None\<close> when absent and \<open>Some None\<close> when it is an invalid \<open>Date\<close>. The 502 of a failed run is built
  with \<open>expose: true\<close>, so unlike the other errors from 500 on its message reaches the client.
\<close>

section \<open>The session of a connection\<close>

definition resolveConnectionBankCode :: "string \<Rightarrow> OpenBankingBankCode parsed" where
  "resolveConnectionBankCode raw = (case parseOpenBankingBankCode raw of
     None \<Rightarrow> Inl ''Cod banca Open Banking neacceptat'' | Some b \<Rightarrow> Inr b)"

definition tokenStillValid :: "date \<Rightarrow> connection \<Rightarrow> bool" where
  "tokenStillValid t conn \<longleftrightarrow> \<not> missing (oc_accessToken conn) \<and>
     (case oc_tokenExpiresAt conn of None \<Rightarrow> True | Some e \<Rightarrow> 60 * 1000 < e - t)"

text \<open>The columns an exchange writes: \<open>undefined\<close> leaves a column as it is.\<close>

definition storeToken :: "string option \<Rightarrow> token_result \<Rightarrow> connection \<Rightarrow> connection" where
  "storeToken oldRefresh token x = x\<lparr>
     oc_accessToken := Some (tr_accessToken token),
     oc_refreshToken := elseText (elseText (tr_refreshToken token) oldRefresh) (oc_refreshToken x),
     oc_tokenExpiresAt := elseText (tr_expiresAt token) (oc_tokenExpiresAt x),
     oc_status := CONNECTION_ACTIVE, oc_lastErrorAt := None, oc_lastErrorMessage := None\<rparr>"

definition ensureAccessToken ::
  "env \<Rightarrow> (OpenBankingBankCode \<Rightarrow> connector_env) \<Rightarrow> bank_fetch \<Rightarrow> connection \<Rightarrow> 'z open_banking_scheme \<Rightarrow>
   (string + connection) \<times> 'z open_banking_scheme" where
  "ensureAccessToken env envs fetch conn db =
     (if tokenStillValid (now env) conn then (Inr conn, db)
      else if missing (oc_refreshToken conn)
      then (Inl ''Conexiunea Open Banking nu are refresh token pentru reinnoirea sesiunii OAuth2.'', db)
      else case bindR (resolveConnectionBankCode (oc_bankCode conn)) (\<lambda>b.
          exchangeOpenBankingAccessToken envs fetch (now env) b (RefreshToken (oc_refreshToken conn))) of
        Inl e \<Rightarrow> (Inl e, db)
      | Inr token \<Rightarrow>
          (Inr ((storeToken (oc_refreshToken conn) token conn)\<lparr>oc_updatedAt := now env\<rparr>),
           updateConnection env (oc_id conn) (storeToken (oc_refreshToken conn) token) db))"

section \<open>A run\<close>

record sync_input =
  sy_connectionId :: id
  sy_companyId :: id
  sy_initiatedByUserId :: "id option"
  sy_fromDate :: "date option option"
  sy_toDate :: "date option option"

definition resolveSyncWindow :: "date \<Rightarrow> connection \<Rightarrow> sync_input \<Rightarrow> http_error + (date \<times> date)" where
  "resolveSyncWindow t conn input =
     (case orElse (sy_toDate input) (Some t) of
        None \<Rightarrow> Inl (badRequest ''toDate invalid pentru sincronizarea Open Banking.'')
      | Some endDate \<Rightarrow>
          let defaultFrom = (case oc_lastCursorDate conn of Some d \<Rightarrow> startOfUtcDay d
                | None \<Rightarrow> startOfUtcDay (addDays endDate (-1)))
          in case orElse (sy_fromDate input) (Some defaultFrom) of
            None \<Rightarrow> Inl (badRequest ''fromDate invalid pentru sincronizarea Open Banking.'')
          | Some start \<Rightarrow>
              if endDate < start then Inl (badRequest ''fromDate trebuie sa fie <= toDate.'') else Inr (start, endDate))"

definition pickAccounts :: "connection \<Rightarrow> account_snapshot list \<Rightarrow> account_snapshot list" where
  "pickAccounts conn found =
     (if missing (oc_externalAccountId conn) then found
      else filter (\<lambda>a. Some (ac_externalAccountId a) = oc_externalAccountId conn \<or> ac_iban a = oc_externalAccountId conn) found)"

text \<open>The counters of the loop over the accounts: statements, transactions, balances and the latest date.\<close>

record sync_counts =
  ct_statementsImported :: nat
  ct_transactionsImported :: nat
  ct_balancesSynced :: nat
  ct_latestCursorDate :: "date option"

definition addImported :: "imported \<Rightarrow> sync_counts \<Rightarrow> sync_counts" where
  "addImported r c = \<lparr> ct_statementsImported = ct_statementsImported c + ir_statementsImported r,
     ct_transactionsImported = ct_transactionsImported c + ir_transactionsImported r,
     ct_balancesSynced = ct_balancesSynced c + 1,
     ct_latestCursorDate = (case (ir_latestTransactionDate r, ct_latestCursorDate c) of
         (None, latest) \<Rightarrow> latest | (Some d, None) \<Rightarrow> Some d
       | (Some d, Some latest) \<Rightarrow> Some (if latest < d then d else latest)) \<rparr>"

text \<open>Call 0 is the exchange of the token, call 1 reads the accounts, and each account takes one more. An
  import uses at most two identifiers per transaction: a line, and the statement of its day.\<close>

fun syncAccounts ::
  "env \<Rightarrow> (OpenBankingBankCode \<Rightarrow> connector_env) \<Rightarrow> bank_fetch \<Rightarrow> (string \<Rightarrow> date option) \<Rightarrow> OpenBankingBankCode \<Rightarrow>
   connection \<Rightarrow> date \<Rightarrow> date \<Rightarrow> nat \<Rightarrow> nat \<Rightarrow> account_snapshot list \<Rightarrow> sync_counts \<Rightarrow> 'z open_banking_scheme \<Rightarrow>
   (string + sync_counts) \<times> 'z open_banking_scheme" where
  "syncAccounts env envs fetch isoTime b conn start endDate call k [] counts db = (Inr counts, db)"
| "syncAccounts env envs fetch isoTime b conn start endDate call k (account # rest) counts db =
     (case fetchOpenBankingTransactions envs fetch isoTime call b (the (oc_accessToken conn)) (ac_externalAccountId account)
          start endDate of
        Inl e \<Rightarrow> (Inl e, db)
      | Inr transactions \<Rightarrow>
          bindS (importAccountTransactions env conn account transactions start endDate k db) (\<lambda>r db.
          syncAccounts env envs fetch isoTime b conn start endDate (call + 1) (k + 2 * length transactions) rest
            (addImported r counts) db))"

text \<open>The \<open>try\<close> block up to its updates.\<close>

definition syncBody ::
  "env \<Rightarrow> (OpenBankingBankCode \<Rightarrow> connector_env) \<Rightarrow> bank_fetch \<Rightarrow> (string \<Rightarrow> date option) \<Rightarrow> connection \<Rightarrow> date \<Rightarrow> date \<Rightarrow>
   'z open_banking_scheme \<Rightarrow> (string + sync_counts) \<times> 'z open_banking_scheme" where
  "syncBody env envs fetch isoTime conn start endDate db =
     bindS (ensureAccessToken env envs fetch conn db) (\<lambda>active db.
     if missing (oc_accessToken active) then (Inl ''Conexiunea Open Banking nu are access token activ.'', db) else
     case bindR (resolveConnectionBankCode (oc_bankCode active)) (\<lambda>b.
          bindR (fetchOpenBankingAccounts envs fetch b (the (oc_accessToken active))) (\<lambda>found. Inr (b, found))) of
       Inl e \<Rightarrow> (Inl e, db)
     | Inr (b, found) \<Rightarrow>
         let selected = pickAccounts active found in
         if selected = [] then (Inl ''Nu exista conturi eligibile pentru sincronizare pe conexiunea selectata.'', db)
         else syncAccounts env envs fetch isoTime b active start endDate 2 1 selected
           \<lparr> ct_statementsImported = 0, ct_transactionsImported = 0, ct_balancesSynced = 0, ct_latestCursorDate = None \<rparr> db)"

record sync_summary =
  sm_syncRunId :: id
  sm_connectionId :: id
  sm_counts :: sync_counts
  sm_cursorFrom :: date
  sm_cursorTo :: date

definition newSyncRun :: "env \<Rightarrow> connection \<Rightarrow> sync_input \<Rightarrow> date \<Rightarrow> date \<Rightarrow> sync_run" where
  "newSyncRun env conn input start endDate =
     \<lparr> sr_id = uuid env 0, sr_connectionId = oc_id conn, sr_companyId = oc_companyId conn,
       sr_initiatedByUserId = sy_initiatedByUserId input, sr_status = SYNC_RUNNING, sr_startedAt = now env,
       sr_finishedAt = None, sr_cursorFrom = start, sr_cursorTo = endDate, sr_statementsImported = 0,
       sr_transactionsImported = 0, sr_balancesSynced = 0, sr_errorMessage = None \<rparr>"

definition syncSucceeded :: "env \<Rightarrow> connection \<Rightarrow> date \<Rightarrow> sync_counts \<Rightarrow> 'z open_banking_scheme \<Rightarrow> 'z open_banking_scheme" where
  "syncSucceeded env conn endDate c db =
     updateSyncRun (uuid env 0) (\<lambda>x. x\<lparr>sr_status := SYNC_SUCCESS, sr_finishedAt := Some (now env),
         sr_statementsImported := ct_statementsImported c, sr_transactionsImported := ct_transactionsImported c,
         sr_balancesSynced := ct_balancesSynced c\<rparr>)
       (updateConnection env (oc_id conn) (\<lambda>x. x\<lparr>oc_status := CONNECTION_ACTIVE, oc_lastSyncedAt := Some (now env),
         oc_lastCursorDate := Some (orElse (ct_latestCursorDate c) endDate), oc_errorCount := 0,
         oc_lastErrorAt := None, oc_lastErrorMessage := None\<rparr>) db)"

definition syncFailed :: "env \<Rightarrow> connection \<Rightarrow> string \<Rightarrow> 'z open_banking_scheme \<Rightarrow> 'z open_banking_scheme" where
  "syncFailed env conn errorMessage db =
     updateSyncRun (uuid env 0) (\<lambda>x. x\<lparr>sr_status := SYNC_FAILED, sr_finishedAt := Some (now env),
         sr_errorMessage := Some errorMessage\<rparr>)
       (updateConnection env (oc_id conn) (\<lambda>x. x\<lparr>oc_status := CONNECTION_ERROR, oc_errorCount := oc_errorCount x + 1,
         oc_lastErrorAt := Some (now env), oc_lastErrorMessage := Some errorMessage\<rparr>) db)"

definition runOpenBankingSync ::
  "env \<Rightarrow> (OpenBankingBankCode \<Rightarrow> connector_env) \<Rightarrow> bank_fetch \<Rightarrow> (string \<Rightarrow> date option) \<Rightarrow> sync_input \<Rightarrow>
   'z open_banking_scheme \<Rightarrow> (http_error + sync_summary) \<times> 'z open_banking_scheme" where
  "runOpenBankingSync env envs fetch isoTime input db =
     (case findConnection (sy_companyId input) (sy_connectionId input) db of
        None \<Rightarrow> (Inl (notFound ''Conexiunea Open Banking nu exista.''), db)
      | Some conn \<Rightarrow>
          if oc_status conn = CONNECTION_DISABLED then (Inl (conflict ''Conexiunea Open Banking este dezactivata.''), db) else
          case resolveSyncWindow (now env) conn input of Inl e \<Rightarrow> (Inl e, db)
          | Inr (start, endDate) \<Rightarrow>
          case insertSyncRun (newSyncRun env conn input start endDate) db of Inl e \<Rightarrow> (Inl e, db)
          | Inr db \<Rightarrow>
          case syncBody env envs fetch isoTime conn start endDate db of
            (Inr counts, db) \<Rightarrow>
              (Inr \<lparr> sm_syncRunId = uuid env 0, sm_connectionId = oc_id conn, sm_counts = counts, sm_cursorFrom = start,
                 sm_cursorTo = endDate \<rparr>, syncSucceeded env conn endDate counts db)
          | (Inl e, db) \<Rightarrow>
              (Inl (HttpError 502 (''Sincronizarea Open Banking a esuat: '' @ take 1800 e)),
               syncFailed env conn (take 1800 e) db))"

section \<open>Routes\<close>

definition readConnectionOrThrow :: "id \<Rightarrow> id \<Rightarrow> 'z open_banking_scheme \<Rightarrow> http_error + connection" where
  "readConnectionOrThrow i c db = (case findConnection c i db of
     None \<Rightarrow> Inl (notFound ''Conexiunea Open Banking nu exista.'') | Some x \<Rightarrow> Inr x)"

definition listConnections :: "actor \<Rightarrow> bool \<Rightarrow> 'z open_banking_scheme \<Rightarrow> connection list" where
  "listConnections u includeDisabled db = sort_key (\<lambda>x. - oc_createdAt x)
     (filter (\<lambda>x. oc_companyId x = act_company u \<and> (includeDisabled \<or> oc_status x \<noteq> CONNECTION_DISABLED)) (connections db))"

record connection_req =
  cn_bankCode :: OpenBankingBankCode
  cn_providerName :: "string option"
  cn_accountCode :: string
  cn_externalConsentId :: "string option"
  cn_externalAccountId :: "string option"
  cn_reason :: "string option"

definition createConnectionSchema :: "connection_req \<Rightarrow> bool" where
  "createConnectionSchema r \<longleftrightarrow> (\<forall>n \<in> set_option (cn_providerName r). 2 \<le> length n \<and> length n \<le> 120) \<and>
     cn_accountCode r \<noteq> [] \<and> (\<forall>n \<in> set_option (cn_externalConsentId r). 3 \<le> length n) \<and>
     (\<forall>n \<in> set_option (cn_externalAccountId r). 3 \<le> length n)"

definition createConnection ::
  "env \<Rightarrow> actor \<Rightarrow> connection_req \<Rightarrow> 'z open_banking_scheme \<Rightarrow> http_error + (connection \<times> 'z open_banking_scheme)" where
  "createConnection env u r db =
     (if \<not> createConnectionSchema r then Inl (badRequest ''Date invalide pentru conexiunea Open Banking.'')
      else if \<not> list_ex (\<lambda>a. a_companyId a = act_company u \<and> a_code a = cn_accountCode r \<and> a_isActive a) (accounts db)
      then Inl (badRequest ''Contul contabil pentru reconciliere nu exista sau este inactiv.'') else
      let x = \<lparr> oc_id = uuid env 0, oc_companyId = act_company u, oc_createdById = act_user u,
            oc_bankCode = bankCodeName (cn_bankCode r),
            oc_providerName = orElse (cn_providerName r) (providerNameForBankCode (cn_bankCode r)),
            oc_accountCode = cn_accountCode r, oc_externalConsentId = cn_externalConsentId r,
            oc_externalAccountId = cn_externalAccountId r, oc_status = CONNECTION_PENDING, oc_accessToken = None,
            oc_refreshToken = None, oc_tokenExpiresAt = None, oc_lastSyncedAt = None, oc_lastCursorDate = None,
            oc_errorCount = 0, oc_lastErrorAt = None, oc_lastErrorMessage = None, oc_createdAt = now env, oc_updatedAt = now env \<rparr>
      in bindR (insertConnection x db) (\<lambda>db.
         Inr (x, writeAudit u ''open_banking_connections'' (Some (oc_id x)) ''CREATE'' (cn_reason r) db)))"

text \<open>\<open>active\<close> is the status ACTIVE of the request, otherwise DISABLED.\<close>

definition updateConnectionStatus ::
  "env \<Rightarrow> actor \<Rightarrow> id \<Rightarrow> bool \<Rightarrow> string option \<Rightarrow> 'z open_banking_scheme \<Rightarrow> http_error + 'z open_banking_scheme" where
  "updateConnectionStatus env u i active reason db =
     bindR (readConnectionOrThrow i (act_company u) db) (\<lambda>x.
     if active \<and> missing (oc_accessToken x)
     then Inl (conflict ''Conexiunea nu poate fi activata fara token OAuth2 valid.'') else
     Inr (writeAudit u ''open_banking_connections'' (Some (oc_id x)) ''STATUS_UPDATE'' reason
       (updateConnection env (oc_id x)
         (\<lambda>x. x\<lparr>oc_status := (if active then CONNECTION_ACTIVE else CONNECTION_DISABLED)\<rparr>) db)))"

record token_req =
  tk_authorizationCode :: "string option"
  tk_refreshToken :: "string option"
  tk_redirectUri :: "string option"
  tk_reason :: "string option"

definition oauthTokenSchema :: "token_req \<Rightarrow> bool" where
  "oauthTokenSchema r \<longleftrightarrow> (\<forall>s \<in> set_option (tk_authorizationCode r). 6 \<le> length s) \<and>
     (\<forall>s \<in> set_option (tk_refreshToken r). 10 \<le> length s)"

text \<open>An error of the connector is no \<open>HttpError\<close>: the answer is 500.\<close>

definition exchangeToken ::
  "env \<Rightarrow> (OpenBankingBankCode \<Rightarrow> connector_env) \<Rightarrow> bank_fetch \<Rightarrow> actor \<Rightarrow> id \<Rightarrow> token_req \<Rightarrow> 'z open_banking_scheme \<Rightarrow>
   http_error + 'z open_banking_scheme" where
  "exchangeToken env envs fetch u i r db =
     (if \<not> oauthTokenSchema r then Inl (badRequest ''Date invalide pentru token exchange OAuth2.'') else
      bindR (readConnectionOrThrow i (act_company u) db) (\<lambda>x.
      let refreshToken = elseText (tk_refreshToken r) (oc_refreshToken x);
          byCode = (tk_authorizationCode r \<noteq> None)
      in if \<not> byCode \<and> missing refreshToken
         then Inl (badRequest ''authorizationCode sau refreshToken sunt obligatorii pentru token exchange.'') else
         case parseOpenBankingBankCode (oc_bankCode x) of None \<Rightarrow> Inl (badRequest ''Cod banca Open Banking neacceptat'')
         | Some b \<Rightarrow>
         case exchangeOpenBankingAccessToken envs fetch (now env) b
             (if byCode then AuthorizationCode (tk_authorizationCode r) (tk_redirectUri r) else RefreshToken refreshToken) of
           Inl e \<Rightarrow> Inl (internal e)
         | Inr token \<Rightarrow>
             Inr (writeAudit u ''open_banking_connections'' (Some (oc_id x)) ''OAUTH_TOKEN_EXCHANGE'' (tk_reason r)
               (updateConnection env (oc_id x) (storeToken refreshToken token) db))))"

definition syncConnection ::
  "env \<Rightarrow> (OpenBankingBankCode \<Rightarrow> connector_env) \<Rightarrow> bank_fetch \<Rightarrow> (string \<Rightarrow> date option) \<Rightarrow> actor \<Rightarrow> id \<Rightarrow>
   date option option \<Rightarrow> date option option \<Rightarrow> string option \<Rightarrow> 'z open_banking_scheme \<Rightarrow>
   (http_error + sync_summary) \<times> 'z open_banking_scheme" where
  "syncConnection env envs fetch isoTime u i fromDate toDate reason db =
     (case readConnectionOrThrow i (act_company u) db of Inl e \<Rightarrow> (Inl e, db)
      | Inr x \<Rightarrow>
          bindS (runOpenBankingSync env envs fetch isoTime \<lparr> sy_connectionId = oc_id x, sy_companyId = oc_companyId x,
              sy_initiatedByUserId = Some (act_user u), sy_fromDate = fromDate, sy_toDate = toDate \<rparr> db) (\<lambda>s db.
          (Inr s, writeAudit u ''open_banking_sync_runs'' (Some (sm_syncRunId s)) ''SYNC_TRIGGER'' reason db)))"

text \<open>\<open>takeRaw\<close> is \<open>None\<close> when the parameter is not an integer.\<close>

definition listSyncRuns :: "actor \<Rightarrow> id \<Rightarrow> int option \<Rightarrow> 'z open_banking_scheme \<Rightarrow> http_error + sync_run list" where
  "listSyncRuns u i takeRaw db =
     bindR (readConnectionOrThrow i (act_company u) db) (\<lambda>x.
     Inr (take (case takeRaw of None \<Rightarrow> 20 | Some n \<Rightarrow> nat (min (max n 1) 100))
       (sort_key (\<lambda>r. - sr_startedAt r) (filter (\<lambda>r. sr_connectionId r = oc_id x \<and> sr_companyId r = oc_companyId x) (syncRuns db)))))"

section \<open>The scheduler\<close>

definition SCHEDULER_MIN_SYNC_INTERVAL_MS :: int where
  "SCHEDULER_MIN_SYNC_INTERVAL_MS = 20 * 60 * 60 * 1000"

definition getUTCHours :: "date \<Rightarrow> int" where
  "getUTCHours t = t mod msPerDay div 3600000"

text \<open>\<open>value.toISOString().slice(0, 13)\<close> for the years 0 to 9999.\<close>

definition hourKeyUtc :: "date \<Rightarrow> string" where
  "hourKeyUtc t = toIsoDay t @ ''T'' @ pad2 (getUTCHours t)"

definition shouldSyncConnectionNow :: "date \<Rightarrow> date option \<Rightarrow> bool" where
  "shouldSyncConnectionNow t lastSyncedAt = (case lastSyncedAt of None \<Rightarrow> True
     | Some s \<Rightarrow> SCHEDULER_MIN_SYNC_INTERVAL_MS \<le> t - s)"

definition eligibleConnections :: "'z open_banking_scheme \<Rightarrow> connection list" where
  "eligibleConnections db = take 200 (sort_key oc_updatedAt
     (filter (\<lambda>x. oc_status x \<in> {CONNECTION_ACTIVE, CONNECTION_ERROR}) (connections db)))"

text \<open>The loop over the connections read at the start; errors are only logged. \<open>envs i\<close> and \<open>fetches i\<close> are
  the environment and the network of turn \<open>i\<close>.\<close>

fun tickLoop ::
  "(nat \<Rightarrow> env) \<Rightarrow> (OpenBankingBankCode \<Rightarrow> connector_env) \<Rightarrow> (nat \<Rightarrow> bank_fetch) \<Rightarrow> (string \<Rightarrow> date option) \<Rightarrow> nat \<Rightarrow>
   connection list \<Rightarrow> 'z open_banking_scheme \<Rightarrow> 'z open_banking_scheme" where
  "tickLoop envs cfg fetches isoTime i [] db = db"
| "tickLoop envs cfg fetches isoTime i (x # xs) db =
     tickLoop envs cfg fetches isoTime (i + 1) xs
       (if shouldSyncConnectionNow (now (envs i)) (oc_lastSyncedAt x)
        then snd (runOpenBankingSync (envs i) cfg (fetches i) isoTime \<lparr> sy_connectionId = oc_id x,
          sy_companyId = oc_companyId x, sy_initiatedByUserId = None, sy_fromDate = None, sy_toDate = None \<rparr> db)
        else db)"

definition runDailyOpenBankingSyncTick ::
  "int \<Rightarrow> date \<Rightarrow> (nat \<Rightarrow> env) \<Rightarrow> (OpenBankingBankCode \<Rightarrow> connector_env) \<Rightarrow> (nat \<Rightarrow> bank_fetch) \<Rightarrow> (string \<Rightarrow> date option) \<Rightarrow>
   string option \<times> 'z open_banking_scheme \<Rightarrow> string option \<times> 'z open_banking_scheme" where
  "runDailyOpenBankingSyncTick dailyHour t envs cfg fetches isoTime = (\<lambda>(lastTriggeredHourKey, db).
     if getUTCHours t \<noteq> dailyHour then (lastTriggeredHourKey, db)
     else if lastTriggeredHourKey = Some (hourKeyUtc t) then (lastTriggeredHourKey, db)
     else (Some (hourKeyUtc t), tickLoop envs cfg fetches isoTime 0 (eligibleConnections db) db))"

end
