(* ===== verification/BankGuarantees.thy ===== *)
theory BankGuarantees
  imports BankMatching
begin

text \<open>
  The properties of bank reconciliation: a processed line never changes, payments settle documents
  whichever route books them, when a reconciliation is accepted and what it books, and two ways it
  departs from the other routes: it pays supplier invoices that are not approved, and its period
  check can be stale when it posts.
\<close>

section \<open>A worked example\<close>

definition demoBankLine :: "id \<Rightarrow> int \<Rightarrow> BankStatementLineStatus \<Rightarrow> (TargetType \<times> id) option \<Rightarrow> bank_line" where
  "demoBankLine i n st m = \<lparr> bl_id = i, bl_companyId = ''c'', bl_statementId = ''t0'', bl_externalTransactionId = None,
     bl_dedupeKey = None, bl_date = 1706745600000, bl_amount = n, bl_description = None, bl_reference = None,
     bl_counterpartyName = None, bl_counterpartyIban = None, bl_status = st, bl_matchedType = map_option fst m,
     bl_matchedRecordId = map_option snd m, bl_matchedAt = map_option (\<lambda>_. 1706745600000) m \<rparr>"

definition demoBankDb :: "accounting_period list \<Rightarrow> bank_line list \<Rightarrow> banking" where
  "demoBankDb ps ls = \<lparr> accounts =
       [\<lparr> a_id = ''R'', a_companyId = ''c'', a_code = ''4111'', a_isActive = True, a_name = [], a_type = ASSET, a_currency = ''RON'' \<rparr>,
        \<lparr> a_id = ''B'', a_companyId = ''c'', a_code = ''5121'', a_isActive = True, a_name = [], a_type = ASSET, a_currency = ''RON'' \<rparr>,
        \<lparr> a_id = ''F'', a_companyId = ''c'', a_code = ''401'', a_isActive = True, a_name = [], a_type = ASSET, a_currency = ''RON'' \<rparr>],
     periods = ps, entries = [], auditLog = [], fsCache = [],
     partners = [\<lparr> pt_id = ''p'', pt_companyId = ''c'', pt_type = BOTH, pt_name = ''P'', pt_cui = None \<rparr>],
     invoices = [demoInvoice ISSUED], payments = [], invoiceListKeys = [],
     memberships = [demoMember ''u'' CHIEF_ACCOUNTANT],
     supplierInvoices = [demoSupplierInvoice PENDING_LEVEL_1 1 RECEIVED], approvals = [], delegations = [],
     supplierPayments = [],
     bankStatements = [\<lparr> bs_id = ''t0'', bs_companyId = ''c'', bs_accountCode = ''5121'', bs_statementDate = 1706745600000,
       bs_currency = ''RON'', bs_externalAccountId = None, bs_openingBalance = None, bs_closingBalance = None, bs_sourceLabel = None, bs_uploadedById = ''u'' \<rparr>],
     bankLines = ls \<rparr>"

definition demoMatch :: "TargetType \<Rightarrow> id \<Rightarrow> bool \<Rightarrow> reconcile_req" where
  "demoMatch t i post = \<lparr> rq_targetType = t, rq_targetId = i, rq_method = BANK_TRANSFER, rq_reference = None,
     rq_autoPost = post, rq_bankAccountCode = ''5121'', rq_receivableAccountCode = ''4111'',
     rq_payableAccountCode = ''401'', rq_reason = None \<rparr>"

definition demoIn :: bank_line where "demoIn = demoBankLine ''l1'' 11912 UNMATCHED None"
definition demoOut :: bank_line where "demoOut = demoBankLine ''l2'' (- 11912) UNMATCHED None"

definition demoPeriods :: "bool \<Rightarrow> accounting_period list" where
  "demoPeriods shut = (if shut then [\<lparr> p_id = ''z0'', p_companyId = ''c'', p_period = ''2024-02'', p_status = PERIOD_CLOSED,
     p_closedAt = Some 1706745600000, p_closedById = Some ''u'', p_notes = None \<rparr>] else [])"

definition demoCommit :: "bool \<Rightarrow> http_error + ((payment + supplier_payment) \<times> banking)" where
  "demoCommit shut = reconcileCommit (demoEnv ''q'') demoActor ''l1'' (demoMatch INVOICE ''i0'' True) demoIn
     (demoBankDb (demoPeriods shut) [demoIn, demoOut])"

definition demoCollected :: "bool \<Rightarrow> (payment + supplier_payment) \<times> banking" where
  "demoCollected shut = projr (demoCommit shut)"

lemma demo_bank_inv: "bankInv (demoBankDb ps [demoIn, demoOut])"
  by (simp add: bankInv_def bank_inv_defs settledDocs_def demoBankDb_def demoIn_def demoOut_def demoBankLine_def lineOk_def
      matchedAmounts_def matchedTo_def demoInvoice_def demoSupplierInvoice_def)

lemma demo_commit_ok: "is_ok (demoCommit False)" "is_ok (demoCommit True)"
  by code_simp+

lemma demo_commit_rows:
  "map_sum id (\<lambda>(p, d). (bankLines d, payments d, invoices d)) (demoCommit False) =
     Inr ([demoBankLine ''l1'' 11912 MATCHED (Some (INVOICE, ''i0'')), demoOut],
       [(demoPaymentRow ''q0'' 11912)\<lparr>pay_method := BANK_TRANSFER\<rparr>], [demoInvoice PAID])"
  by code_simp

lemma demo_collect: "demoCommit shut = Inr (demoCollected shut)"
  using demo_commit_ok by (cases shut) (auto simp: demoCollected_def is_ok_iff)

lemma demo_rows:
  "bankLines (snd (demoCollected False)) = [demoBankLine ''l1'' 11912 MATCHED (Some (INVOICE, ''i0'')), demoOut]"
  "payments (snd (demoCollected False)) = [(demoPaymentRow ''q0'' 11912)\<lparr>pay_method := BANK_TRANSFER\<rparr>]"
  "invoices (snd (demoCollected False)) = [demoInvoice PAID]"
  using demo_commit_rows unfolding demo_collect by (auto simp: map_sum_def split: prod.splits)

definition demoPending :: pending_match where
  "demoPending = \<lparr> pm_actor = demoActor, pm_lineId = ''l1'', pm_request = demoMatch INVOICE ''i0'' True, pm_line = demoIn \<rparr>"

lemma demo_preview: "reconcilePreview demoActor ''l1'' (demoMatch INVOICE ''i0'' True) (demoBankDb [] [demoIn, demoOut]) = Inr demoIn"
  by code_simp

lemma demo_bank_reach: "bank_step\<^sup>*\<^sup>* ([], demoBankDb [] [demoIn, demoOut]) ([], snd (demoCollected False))"
proof -
  have "bank_step ([], demoBankDb [] [demoIn, demoOut]) ([] @ [demoPending], demoBankDb [] [demoIn, demoOut])"
    unfolding demoPending_def by (rule bank_step.preview[OF demo_preview])
  moreover have "bank_step ([demoPending], demoBankDb [] [demoIn, demoOut]) (remove1 demoPending [demoPending], snd (demoCollected False))"
    using demo_collect[of False] unfolding demoCommit_def demoPeriods_def
    by (intro bank_step.commit[where env = "demoEnv ''q''" and y = "fst (demoCollected False)"]) (simp_all add: demoPending_def)
  ultimately show ?thesis by simp
qed

section \<open>Properties\<close>



text \<open>C22: In every state these interleavings reach, the amounts of the lines matched to a document are
  among the payments of that document, each line with a payment of its own; and the payments of any
  invoice, customer or supplier, whichever route booked them, do not exceed its total, which they
  reach exactly when it is marked paid.\<close>

theorem bank_payments_settle:
  assumes "bank_step\<^sup>*\<^sup>* (ps, db) (ps', db')" "bankInv db" "\<forall>p \<in> set ps. previewOk db p"
  shows "matchedAmounts INVOICE i (bankLines db') \<subseteq># mset (invoiceAmounts i db') \<and>
    matchedAmounts SUPPLIER_INVOICE i (bankLines db') \<subseteq># mset (supplierAmounts i db') \<and>
    (\<forall>x \<in> set (invoices db'). fits (invoiceAmounts (i_id x) db') (i_total x) \<and> invoiceAmounts (i_id x) db' \<noteq> [] \<longrightarrow>
      sum_list (invoiceAmounts (i_id x) db') \<le> i_total x \<and>
      (i_status x = PAID \<longleftrightarrow> sum_list (invoiceAmounts (i_id x) db') = i_total x)) \<and>
    (\<forall>y \<in> set (supplierInvoices db'). fits (supplierAmounts (si_id y) db') (si_total y) \<and> supplierAmounts (si_id y) db' \<noteq> [] \<longrightarrow>
      sum_list (supplierAmounts (si_id y) db') \<le> si_total y \<and>
      (si_status y = SI_PAID \<longleftrightarrow> sum_list (supplierAmounts (si_id y) db') = si_total y))"
proof -
  have inv: "bankInv db'" using bank_reach_inv[OF assms(1)] assms(2,3) by simp
  then have "matchedAmounts INVOICE i (bankLines db') \<subseteq># mset (invoiceAmounts i db') \<and>
    matchedAmounts SUPPLIER_INVOICE i (bankLines db') \<subseteq># mset (supplierAmounts i db')"
    by (simp add: bankInv_def covered_def)
  moreover have "settledBy (invoiceAmounts (i_id x) db') (i_total x) (i_status x = PAID)" if "x \<in> set (invoices db')" for x
    using inv that by (simp add: bankInv_def invoicesSettled_def settledDocs_def invoiceAmounts_def paymentsOf_def)
  moreover have "settledBy (supplierAmounts (si_id y) db') (si_total y) (si_status y = SI_PAID)" if "y \<in> set (supplierInvoices db')" for y
    using inv that by (simp add: bankInv_def suppliersSettled_def settledDocs_def supplierAmounts_def supplierPaymentsOf_def)
  ultimately show ?thesis unfolding settledBy_def by blast
qed

theorem bank_payments_settle_witness:
  "{#11912#} \<subseteq># mset (invoiceAmounts ''i0'' (snd (demoCollected False))) \<and>
   sum_list (invoiceAmounts (i_id (demoInvoice PAID)) (snd (demoCollected False))) = i_total (demoInvoice PAID)"
proof -
  note w = bank_payments_settle[OF demo_bank_reach demo_bank_inv, of "''i0''"]
  have m: "matchedAmounts INVOICE ''i0'' (bankLines (snd (demoCollected False))) = {#11912#}"
    by (simp add: demo_rows matchedAmounts_def matchedTo_def demoBankLine_def demoOut_def)
  have x: "demoInvoice PAID \<in> set (invoices (snd (demoCollected False)))" by (simp add: demo_rows)
  have ns: "invoiceAmounts (i_id (demoInvoice PAID)) (snd (demoCollected False)) = [11912]"
    by (simp add: invoiceAmounts_def paymentsOf_def demo_rows demoPaymentRow_def demoInvoice_def)
  have f: "fits [11912] (i_total (demoInvoice PAID))" by (simp add: fits_def demoInvoice_def)
  have p: "i_status (demoInvoice PAID) = PAID" by (simp add: demoInvoice_def)
  have "\<forall>p \<in> set []. previewOk (demoBankDb [] [demoIn, demoOut]) p" by simp
  from w[OF this] have "sum_list (invoiceAmounts (i_id (demoInvoice PAID)) (snd (demoCollected False))) = i_total (demoInvoice PAID)"
    "{#11912#} \<subseteq># mset (invoiceAmounts ''i0'' (snd (demoCollected False)))"
    using x f p unfolding m ns by (metis list.distinct(1) ns)+
  then show ?thesis by simp
qed

lemma openAmount_fits:
  assumes "fits ns T" "\<forall>n \<in> set ns. 0 \<le> n" "sum_list ns \<le> T"
  shows "openAmountOf ns T = cents (T - sum_list ns)"
proof -
  have s: "0 \<le> sum_list ns" using assms(2) by (rule sum_list_nonneg_int)
  have T: "T < 2 ^ 44" using assms(1) by (simp add: fits_def)
  have p: "round2 (reduceSum (map cents ns)) = cents (sum_list ns)" by (rule fits_sum[OF assms(1,2)])
  have "0 \<le> fsub (cents T) (cents (sum_list ns))" unfolding fsub_def using cent.grid_mono[OF assms(3)] by (intro fl_nonneg) simp
  then show ?thesis using s T assms(3) by (simp add: openAmountOf_def p max_absorb1 round2_sub)
qed

lemma open_exceeded:
  assumes "fits ns T" "\<forall>n \<in> set ns. 0 \<le> n" "sum_list ns \<le> T" "0 \<le> k" "k \<le> 2 ^ 45"
  shows "openAmountOf ns T < round2 (cents k) \<longleftrightarrow> T < sum_list ns + k"
proof -
  have s: "0 \<le> sum_list ns" using assms(2) by (rule sum_list_nonneg_int)
  have "cents (T - sum_list ns) < cents k \<longleftrightarrow> T - sum_list ns < k"
    using assms s by (intro cent.grid_less_cmp) (auto simp: fits_def)
  then show ?thesis using assms by (simp add: openAmount_fits) linarith
qed

text \<open>Without automatic posting, a line of at most \<open>2\<^sup>4\<^sup>5\<close> cents is reconciled with a customer invoice
  exactly when it is not yet processed, its month is open, its amount is positive and, together with
  the payments so far, does not exceed the invoice's total. Neither the kind nor the status of the
  invoice matters, unlike on the payment route.\<close>

lemma reconcile_accepted:
  assumes "bankInv db" "findBankLine (act_company u) i db = Some l" "rq_targetType r = INVOICE" "rq_targetId r \<noteq> []"
    and "findInvoice (act_company u) (rq_targetId r) db = Some x" "0 \<le> i_total x" "fits (invoiceAmounts (i_id x) db) (i_total x)"
    and "\<bar>bl_amount l\<bar> \<le> 2 ^ 45" "\<not> rq_autoPost r" "uuid env 0 \<notin> pay_id ` set (payments db)"
  shows "is_ok (reconcile env u i r db) \<longleftrightarrow> bl_status l = UNMATCHED \<and>
    \<not> periodClosed (act_company u) (currentPeriod (bl_date l)) db \<and> 0 < bl_amount l \<and>
    sum_list (invoiceAmounts (i_id x) db) + bl_amount l \<le> i_total x"
proof -
  let ?ns = "invoiceAmounts (i_id x) db"
  have xm: "x \<in> set (invoices db)" using findInvoice_SomeD[OF assms(5)] by simp
  have "settledBy ?ns (i_total x) (i_status x = PAID)"
    using assms(1) xm by (simp add: bankInv_def invoicesSettled_def settledDocs_def invoiceAmounts_def paymentsOf_def)
  then have nn: "\<forall>n \<in> set ?ns. 0 \<le> n" and le: "sum_list ?ns \<le> i_total x"
    using assms(6,7) by (cases "?ns = []"; auto simp: settledBy_def)+
  have ex: "openAmountOf ?ns (i_total x) < round2 \<bar>cents (bl_amount l)\<bar> \<longleftrightarrow> i_total x < sum_list ?ns + \<bar>bl_amount l\<bar>"
    using open_exceeded[OF assms(7) nn le, of "\<bar>bl_amount l\<bar>"] assms(8) by (simp add: cent.grid_abs)
  have fresh: "\<not> list_ex (\<lambda>y. pay_id y = uuid env 0) (payments db)" using assms(10) by (auto simp: list_ex_iff image_iff)
  have "is_ok (reconcileInvoice env u r (cents (bl_amount l)) l db) \<longleftrightarrow> 0 < bl_amount l \<and> sum_list ?ns + bl_amount l \<le> i_total x"
    using assms(5,9) ex fresh by (auto simp: reconcileInvoice_def Let_def insertPayment_def bindR_eq_Inr is_ok_iff not_less)
  moreover have "is_ok (mapPayment f res) = is_ok res" for f :: "payment \<Rightarrow> payment + supplier_payment" and res :: "http_error + payment \<times> 'a banking_scheme"
    by (cases res) (auto simp: mapPayment_def)
  moreover have "is_ok (bindR res (\<lambda>(p, db). Inr (p, f db))) = is_ok res" for f :: "'a banking_scheme \<Rightarrow> 'a banking_scheme"
      and res :: "http_error + (payment + supplier_payment) \<times> 'a banking_scheme"
    by (cases res) auto
  ultimately show ?thesis
    using assms(2-4) by (auto simp: reconcile_def reconcilePreview_def reconcileCommit_def Let_def assertPeriodOpen_def)
qed

lemma reconcile_accepted_example:
  "\<not> is_ok (reconcile (demoEnv ''q'') demoActor ''l1'' (demoMatch INVOICE ''i0'' False)
     (demoBankDb [] [demoBankLine ''l1'' 11913 UNMATCHED None, demoOut]))"
proof -
  let ?db = "demoBankDb [] [demoBankLine ''l1'' 11913 UNMATCHED None, demoOut]"
  have inv: "bankInv ?db"
    by (simp add: bankInv_def bank_inv_defs settledDocs_def demoBankDb_def demoOut_def demoBankLine_def lineOk_def
        matchedAmounts_def matchedTo_def demoInvoice_def demoSupplierInvoice_def)
  have l: "findBankLine (act_company demoActor) ''l1'' ?db = Some (demoBankLine ''l1'' 11913 UNMATCHED None)" by code_simp
  have x: "findInvoice (act_company demoActor) (rq_targetId (demoMatch INVOICE ''i0'' False)) ?db = Some (demoInvoice ISSUED)" by code_simp
  have ns: "invoiceAmounts (i_id (demoInvoice ISSUED)) ?db = []" by code_simp
  have f: "0 \<le> i_total (demoInvoice ISSUED)" "fits (invoiceAmounts (i_id (demoInvoice ISSUED)) ?db) (i_total (demoInvoice ISSUED))"
    unfolding ns by (simp_all add: fits_def demoInvoice_def)
  have r: "rq_targetType (demoMatch INVOICE ''i0'' False) = INVOICE" "rq_targetId (demoMatch INVOICE ''i0'' False) \<noteq> []"
    "\<not> rq_autoPost (demoMatch INVOICE ''i0'' False)" by (simp_all add: demoMatch_def)
  have fr: "uuid (demoEnv ''q'') 0 \<notin> pay_id ` set (payments ?db)" by (simp add: demoBankDb_def)
  have b: "\<bar>bl_amount (demoBankLine ''l1'' 11913 UNMATCHED None)\<bar> \<le> 2 ^ 45" by (simp add: demoBankLine_def)
  show ?thesis unfolding reconcile_accepted[OF inv l r(1,2) x f b r(3) fr] ns
    by (simp add: demoInvoice_def demoBankLine_def)
qed

text \<open>C23: A reconciliation books one payment of the amount of the line, on the side of its sign, and
  nothing else in the two payment tables; with automatic posting also exactly one journal entry,
  posted, in the month of the line, debiting and crediting that amount; and it leaves the cached
  invoice lists as they are, with the old status of the invoice.\<close>

theorem reconcile_books:
  assumes "exact_store (storeDec env)" "findBankLine (act_company u) i db = Some l" "\<bar>bl_amount l\<bar> \<le> 2 ^ 45"
    and "reconcile env u i r db = Inr (p, db')"
  shows "(case p of Inl q \<Rightarrow> 0 < bl_amount l \<and> pay_amount q = bl_amount l \<and> payments db' = payments db @ [q] \<and> supplierPayments db' = supplierPayments db
      | Inr q \<Rightarrow> bl_amount l < 0 \<and> sp_amount q = - bl_amount l \<and> supplierPayments db' = supplierPayments db @ [q] \<and> payments db' = payments db) \<and>
    (if rq_autoPost r then \<exists>e. entries db' = entries db @ [e] \<and> je_posted e \<and> je_period e = currentPeriod (bl_date l) \<and>
        map (\<lambda>l. (jl_debit l, jl_credit l)) (je_lines e) = [(\<bar>bl_amount l\<bar>, 0), (0, \<bar>bl_amount l\<bar>)]
      else entries db' = entries db) \<and>
    \<not> periodClosed (act_company u) (currentPeriod (bl_date l)) db \<and> invoiceListKeys db' = invoiceListKeys db"
proof -
  define k where "k = round2 \<bar>cents (bl_amount l)\<bar>"
  have ab: "storeDec env 100 k = \<bar>bl_amount l\<bar>" unfolding k_def by (rule lineAmount_abs(4)[OF assms(1,3)])
  have pr: "reconcilePreview u i r db = Inr l" "\<not> periodClosed (act_company u) (currentPeriod (bl_date l)) db"
    and c: "reconcileCommit env u i r l db = Inr (p, db')"
    using assms(2,4) by (auto simp: reconcile_def reconcilePreview_def bindR_eq_Inr assertPeriodOpen_def split: if_splits)
  have ek: "entries db3 = entries db2 @ [e] \<and> invoiceListKeys db3 = invoiceListKeys db2 \<and> payments db3 = payments db2 \<and> supplierPayments db3 = supplierPayments db2"
    if "insertEntry e db2 = Inr db3" for e and db2 db3 :: "'a banking_scheme"
    using that by (auto simp: insertEntry_def split: if_splits)
  obtain db1 where cs: "(\<exists>q. p = Inl q \<and> reconcileInvoice env u r (cents (bl_amount l)) l db = Inr (q, db1)) \<or>
     (\<exists>q. p = Inr q \<and> reconcileSupplierInvoice env u r (cents (bl_amount l)) l db = Inr (q, db1))"
    and db': "db' = invalidateFinancialStatementsCache db1"
    using c assms(2) by (auto elim!: reconcileCommit_InrD)
  have "entries db' = entries db1" "payments db' = payments db1" "supplierPayments db' = supplierPayments db1" "invoiceListKeys db' = invoiceListKeys db1"
    by (simp_all add: db' invalidateFinancialStatementsCache_def)
  with cs pr(2) show ?thesis
    by (elim disjE exE conjE reconcileInvoice_InrD reconcileSupplierInvoice_InrD; fold k_def)
      (auto simp: ab writeAudit_def updateBankLine_def updateSupplierInvoice_def storeLines_def storeLine_def assms(1)
        dest!: ek split: if_splits)
qed

theorem reconcile_books_witness:
  "\<exists>e. entries (snd (demoCollected False)) = [e] \<and> map (\<lambda>l. (jl_debit l, jl_credit l)) (je_lines e) = [(11912, 0), (0, 11912)]"
proof -
  let ?db = "demoBankDb [] [demoIn, demoOut]"
  have f: "findBankLine (act_company demoActor) ''l1'' ?db = Some demoIn" by code_simp
  have "reconcile (demoEnv ''q'') demoActor ''l1'' (demoMatch INVOICE ''i0'' True) ?db = demoCommit False"
    by (simp add: reconcile_def demo_preview demoCommit_def demoPeriods_def)
  then have r: "reconcile (demoEnv ''q'') demoActor ''l1'' (demoMatch INVOICE ''i0'' True) ?db =
      Inr (fst (demoCollected False), snd (demoCollected False))"
    by (simp add: demo_collect)
  have b: "\<bar>bl_amount demoIn\<bar> \<le> 2 ^ 45" "bl_amount demoIn = 11912" by (simp_all add: demoIn_def demoBankLine_def)
  have e: "entries ?db = []" "rq_autoPost (demoMatch INVOICE ''i0'' True)" by (simp_all add: demoBankDb_def demoMatch_def)
  show ?thesis using reconcile_books[OF demoEnv_exact f b(1) r] e b(2) by auto
qed

text \<open>A reconciliation without posting that pays a supplier invoice in one payment.\<close>

lemma reconcile_supplier_full:
  assumes "findBankLine (act_company u) i db = Some l" "bl_status l = UNMATCHED"
    and "\<not> periodClosed (act_company u) (currentPeriod (bl_date l)) db" "bl_amount l < 0" "- bl_amount l < 2 ^ 44"
    and "rq_targetType r = SUPPLIER_INVOICE" "rq_targetId r \<noteq> []" "\<not> rq_autoPost r"
    and "findSupplierInvoice (act_company u) (rq_targetId r) db = Some x" "supplierAmounts (si_id x) db = []" "si_total x = - bl_amount l"
    and "uuid env 0 \<notin> sp_id ` set (supplierPayments db)"
  obtains q db' where "reconcile env u i r db = Inr (Inr q, db')" "sp_supplierInvoiceId q = si_id x"
    "supplierInvoices db' = updateWhere (\<lambda>y. si_id y = si_id x) (setSupplierPaid True) (supplierInvoices db)"
    "supplierPayments db' = supplierPayments db @ [q]"
proof -
  have T: "0 \<le> si_total x" "si_total x < 2 ^ 44" using assms(4,5,11) by simp_all
  have abs: "round2 \<bar>cents (bl_amount l)\<bar> = cents (si_total x)" using T assms(4,11) by (simp add: cent.grid_abs)
  have op: "openAmountOf [] (si_total x) = cents (si_total x)"
    using openAmount_fits[of "[]" "si_total x"] T by (simp add: fits_def)
  have paid: "round2 (fadd 0 (cents (si_total x))) = cents (si_total x)"
    using round2_add[of 0 "si_total x"] T by simp
  have fresh: "\<not> list_ex (\<lambda>y. sp_id y = uuid env 0) (supplierPayments db)" using assms(12) by (auto simp: list_ex_iff image_iff)
  have "is_ok (reconcileSupplierInvoice env u r (cents (bl_amount l)) l db)"
    using assms(4,8-10) fresh abs op
    by (auto simp: reconcileSupplierInvoice_def Let_def insertSupplierPayment_def bindR_eq_Inr is_ok_iff)
  then obtain q db1 where q: "reconcileSupplierInvoice env u r (cents (bl_amount l)) l db = Inr (q, db1)" by (auto simp: is_ok_iff)
  then have "sp_supplierInvoiceId q = si_id x \<and>
    supplierInvoices db1 = updateWhere (\<lambda>y. si_id y = si_id x) (setSupplierPaid True) (supplierInvoices db) \<and>
    supplierPayments db1 = supplierPayments db @ [q]"
    using assms(8-10) paid abs by (auto simp: reduceSum_def elim!: reconcileSupplierInvoice_InrD)
  moreover have "reconcile env u i r db = Inr (Inr q, invalidateFinancialStatementsCache db1)"
    using assms(1-3,6,7) q by (simp add: reconcile_def reconcilePreview_def reconcileCommit_def Let_def assertPeriodOpen_def mapPayment_def)
  ultimately show thesis using that[of q "invalidateFinancialStatementsCache db1"] by simp
qed

text \<open>The bank route pays supplier invoices that the approval flow has not released: a line of the
  amount of an unpaid supplier invoice, whatever its approval status (pending or rejected), is
  accepted and marks it paid, where the payment route refuses every payment; the invariant of
  purchases, that only approved invoices have payments, is broken.\<close>

lemma bank_bypasses_approval:
  assumes "findBankLine (act_company u) i db = Some l" "bl_status l = UNMATCHED"
    and "\<not> periodClosed (act_company u) (currentPeriod (bl_date l)) db" "bl_amount l < 0" "- bl_amount l < 2 ^ 44"
    and "rq_targetType r = SUPPLIER_INVOICE" "rq_targetId r \<noteq> []" "\<not> rq_autoPost r"
    and "findSupplierInvoice (act_company u) (rq_targetId r) db = Some x" "supplierAmounts (si_id x) db = []" "si_total x = - bl_amount l"
    and "uuid env 0 \<notin> sp_id ` set (supplierPayments db)" "si_approvalStatus x \<noteq> APPROVED"
  shows "(\<exists>q db'. reconcile env u i r db = Inr (Inr q, db') \<and> x\<lparr>si_status := SI_PAID\<rparr> \<in> set (supplierInvoices db') \<and> \<not> purchaseInv db') \<and>
    \<not> is_ok (paySupplierInvoice env u (rq_targetId r) pr db)"
proof -
  obtain q db' where r: "reconcile env u i r db = Inr (Inr q, db')" and q: "sp_supplierInvoiceId q = si_id x"
    and si: "supplierInvoices db' = updateWhere (\<lambda>y. si_id y = si_id x) (setSupplierPaid True) (supplierInvoices db)"
    and sp: "supplierPayments db' = supplierPayments db @ [q]"
    using assms(1-12) by (rule reconcile_supplier_full)
  have "x \<in> set (supplierInvoices db)" using findSupplierInvoice_SomeD[OF assms(9)] by simp
  then have xm: "x\<lparr>si_status := SI_PAID\<rparr> \<in> set (supplierInvoices db')" unfolding si updateWhere_set
    by (auto simp: setSupplierPaid_def image_iff)
  have "supplierAmounts (si_id (x\<lparr>si_status := SI_PAID\<rparr>)) db' \<noteq> []" using q by (simp add: supplierAmounts_def supplierPaymentsOf_def sp)
  then have "\<not> purchaseOk db' (x\<lparr>si_status := SI_PAID\<rparr>)" using assms(13) by (simp add: purchaseOk_def supplierSettled_def)
  then have "\<not> purchaseInv db'" using xm by (auto simp: purchaseInv_def)
  moreover have "\<not> is_ok (paySupplierInvoice env u (rq_targetId r) pr db)"
    using assms(9,13) by (auto simp: is_ok_iff elim!: paySupplier_InrD)
  ultimately show ?thesis using r xm by blast
qed

lemma bank_bypasses_approval_example:
  "is_ok (reconcile (demoEnv ''q'') demoActor ''l2'' (demoMatch SUPPLIER_INVOICE ''s0'' False) (demoBankDb [] [demoIn, demoOut])) \<and>
   \<not> is_ok (paySupplierInvoice (demoEnv ''q'') demoActor ''s0'' (demoPayment (cents 11912)) (demoBankDb [] [demoIn, demoOut]))"
proof -
  let ?db = "demoBankDb [] [demoIn, demoOut]" and ?r = "demoMatch SUPPLIER_INVOICE ''s0'' False"
  let ?x = "demoSupplierInvoice PENDING_LEVEL_1 1 RECEIVED"
  have l: "findBankLine (act_company demoActor) ''l2'' ?db = Some demoOut" by code_simp
  have x: "findSupplierInvoice (act_company demoActor) (rq_targetId ?r) ?db = Some ?x" by code_simp
  have ns: "supplierAmounts (si_id ?x) ?db = []" by code_simp
  have lo: "bl_status demoOut = UNMATCHED" "bl_amount demoOut < 0" "- bl_amount demoOut < 2 ^ 44"
    by (simp_all add: demoOut_def demoBankLine_def)
  have op: "\<not> periodClosed (act_company demoActor) (currentPeriod (bl_date demoOut)) ?db"
    by (simp add: periodClosed_def findPeriod_def demoBankDb_def)
  have r: "rq_targetType ?r = SUPPLIER_INVOICE" "rq_targetId ?r \<noteq> []" "\<not> rq_autoPost ?r" "rq_targetId ?r = ''s0''" by (simp_all add: demoMatch_def)
  have t: "si_total ?x = - bl_amount demoOut" "si_approvalStatus ?x \<noteq> APPROVED"
    by (simp_all add: demoSupplierInvoice_def demoOut_def demoBankLine_def)
  have fr: "uuid (demoEnv ''q'') 0 \<notin> sp_id ` set (supplierPayments ?db)" by (simp add: demoBankDb_def)
  note w = bank_bypasses_approval[OF l lo(1) op lo(2,3) r(1-3) x ns t(1) fr t(2), of "demoPayment (cents 11912)"]
  show ?thesis using w unfolding r(4) by (auto simp: is_ok_iff)
qed

text \<open>The lock of a period is checked before the transaction opens. When the month of the line is
  closed between the preview and the transaction, the reconciliation with posting still succeeds and
  leaves a validated, posted entry in the closed period, which no route of the ledger allows.\<close>

lemma reconcile_period_race:
  assumes "findBankLine (act_company u) i db = Some l" "reconcileCommit env u i r l db = Inr (p, db')" "rq_autoPost r"
    and "periodClosed (act_company u) (currentPeriod (bl_date l)) db"
  shows "(\<exists>e \<in> set (entries db'). je_companyId e = act_company u \<and> je_period e = currentPeriod (bl_date l) \<and>
      je_status e = VALIDATED \<and> je_posted e \<and> periodClosed (je_companyId e) (je_period e) db') \<and> \<not> ledgerInv db'"
proof -
  have ek: "e \<in> set (entries db3) \<and> periods db3 = periods db2" if "insertEntry e db2 = Inr db3" for e and db2 db3 :: "'a banking_scheme"
    using that by (auto simp: insertEntry_def split: if_splits)
  obtain db1 where cs: "(\<exists>q. p = Inl q \<and> reconcileInvoice env u r (cents (bl_amount l)) l db = Inr (q, db1)) \<or>
     (\<exists>q. p = Inr q \<and> reconcileSupplierInvoice env u r (cents (bl_amount l)) l db = Inr (q, db1))"
    and db': "db' = invalidateFinancialStatementsCache db1"
    using assms(1,2) by (auto elim!: reconcileCommit_InrD)
  have "\<exists>e \<in> set (entries db1). je_companyId e = act_company u \<and> je_period e = currentPeriod (bl_date l) \<and>
      je_status e = VALIDATED \<and> je_posted e \<and> periods db1 = periods db"
    using cs assms(3)
    by (elim disjE exE conjE reconcileInvoice_InrD reconcileSupplierInvoice_InrD) (auto dest!: ek intro!: bexI[rotated])
  then obtain e where e: "e \<in> set (entries db')" "je_companyId e = act_company u" "je_period e = currentPeriod (bl_date l)"
      "je_status e = VALIDATED" "je_posted e" and per: "periods db' = periods db"
    by (auto simp: db')
  have cl: "periodClosed (je_companyId e) (je_period e) db'"
    using assms(4) periodClosed_frame[OF per] by (simp add: e)
  then have "\<not> entryOk db' e" by (simp add: entryOk_def e(4))
  then show ?thesis using e cl by (auto simp: ledgerInv_def)
qed

lemma demo_race_rows:
  "reconcilePreview demoActor ''l1'' (demoMatch INVOICE ''i0'' True) (demoBankDb [] [demoIn, demoOut]) = Inr demoIn"
  "map_sum id periods (closePeriod (demoEnv ''z'') demoActor ''2024-02'' None None (demoBankDb [] [demoIn, demoOut])) = Inr (demoPeriods True)"
  by code_simp+

lemma reconcile_period_race_example:
  "\<exists>e \<in> set (entries (snd (demoCollected True))). je_status e = VALIDATED \<and> periodClosed (je_companyId e) (je_period e) (snd (demoCollected True))"
proof -
  have l: "findBankLine (act_company demoActor) ''l1'' (demoBankDb (demoPeriods True) [demoIn, demoOut]) = Some demoIn" by code_simp
  have c: "reconcileCommit (demoEnv ''q'') demoActor ''l1'' (demoMatch INVOICE ''i0'' True) demoIn
      (demoBankDb (demoPeriods True) [demoIn, demoOut]) = Inr (fst (demoCollected True), snd (demoCollected True))"
    using demo_collect[of True] by (simp add: demoCommit_def)
  have p: "periodClosed (act_company demoActor) (currentPeriod (bl_date demoIn)) (demoBankDb (demoPeriods True) [demoIn, demoOut])" by code_simp
  have a: "rq_autoPost (demoMatch INVOICE ''i0'' True)" by (simp add: demoMatch_def)
  show ?thesis using reconcile_period_race[OF l c a p] by blast
qed

end
