(* ===== verification/FeedImport.thy ===== *)
theory FeedImport
  imports OpenBanking BankGuarantees
begin

text \<open>
  What the import of a feed stores (services/open-banking/sync-service.ts): each transaction that is new,
  once, under the statement of its day. The day of a statement goes through a text key, so the key is
  shown to be read back. The sign of an amount comes from the indicator of the bank alone.
\<close>

section \<open>Days and their keys\<close>

text \<open>From the year 100 on, where \<open>Date.UTC\<close> takes the year as it is.\<close>

lemma startOfUtcDay_day: "100 \<le> getUTCFullYear t \<Longrightarrow> startOfUtcDay t = Day t * msPerDay"
  by (simp add: startOfUtcDay_def DateUTC_def MakeFullYear_def MakeDay_of_date)

lemma Day_startOfUtcDay:
  assumes "100 \<le> getUTCFullYear t" shows "Day (startOfUtcDay t) = Day t"
  by (simp add: startOfUtcDay_day[OF assms] Day_def msPerDay_def)

lemma isoYear_digits:
  assumes "0 \<le> y" "y \<le> 9999"
  shows "length (isoYear y) = 4" "list_all isDigit (isoYear y)" "readNat (isoYear y) = nat y"
proof -
  have y: "isoYear y = padStart 4 (CHR ''0'') (showNat (nat y))" using assms by (simp add: isoYear_def)
  show "length (isoYear y) = 4" using assms length_showNat_padded[of 4 "nat y"] by (simp add: y nat_less_iff)
  show "list_all isDigit (isoYear y)" using showNat_digits[of "nat y"]
    by (auto simp: y padStart_def list_all_iff isDigit_def code_def)
  show "readNat (isoYear y) = nat y" by (simp add: y)
qed

text \<open>The first ten characters of the ISO form are read back as midnight of that day.\<close>

lemma dayOfKey_toIsoDay:
  assumes "0 \<le> getUTCFullYear t" "getUTCFullYear t \<le> 9999"
  shows "dayOfKey (toIsoDay t) = Some (Day t * msPerDay)"
proof -
  let ?y = "isoYear (getUTCFullYear t)" and ?m = "pad2 (getUTCMonth t + 1)" and ?d = "pad2 (getUTCDate t)"
  note y = isoYear_digits[OF assms] and mr = day_in_month(3,4)[of t] and dr = getUTCDate_range[of t]
  note m = pad2_props[of "getUTCMonth t + 1"] and d = pad2_props[of "getUTCDate t"]
  have len: "length ?m = 2" "length ?d = 2" using m(1) d(1) mr dr by simp_all
  define s where "s = ?y @ ''-'' @ ?m @ ''-'' @ ?d"
  have s: "length s = 10" "take 4 s = ?y" "s ! 4 = CHR ''-''" "take 2 (drop 5 s) = ?m" "s ! 7 = CHR ''-''" "drop 8 s = ?d"
    using y(1) len by (simp_all add: s_def nth_append)
  have k: "toIsoDay t = s" using s(1) by (simp add: toIsoDay_def s_def)
  have "isIsoPattern s" using s y(2) m(2) d(2) mr dr len by (simp add: isIsoPattern_def allDigits_def)
  moreover have "isoDate (\<lambda>_. None) s = Some ((MakeDay (getUTCFullYear t) (getUTCMonth t) 1 + (getUTCDate t - 1)) * msPerDay)"
    using s y(3) m(3) d(3) mr dr assms by (simp add: isoDate_def Let_def)
  moreover have "MakeDay (getUTCFullYear t) (getUTCMonth t) 1 + (getUTCDate t - 1) = Day t"
    using MakeDay_of_date[of t] by (simp add: MakeDay_def Let_def)
  ultimately show ?thesis by (simp add: dayOfKey_def k)
qed

definition plainYear :: "date \<Rightarrow> bool" where
  "plainYear t \<longleftrightarrow> 100 \<le> getUTCFullYear t \<and> getUTCFullYear t \<le> 9999"

lemma dayOfKey_dayKeyOf:
  assumes "plainYear (tx_bookingDate t)"
  shows "dayOfKey (dayKeyOf t) = Some (startOfUtcDay (tx_bookingDate t))"
proof -
  let ?d = "startOfUtcDay (tx_bookingDate t)"
  have e: "Day ?d = Day (tx_bookingDate t)" using assms by (intro Day_startOfUtcDay) (simp add: plainYear_def)
  then have "getUTCFullYear ?d = getUTCFullYear (tx_bookingDate t)" by (simp add: getUTCFullYear_def)
  then have "dayOfKey (toIsoDay ?d) = Some (Day ?d * msPerDay)"
    using assms by (intro dayOfKey_toIsoDay) (simp_all add: plainYear_def)
  then show ?thesis using assms by (simp add: dayKeyOf_def e startOfUtcDay_day plainYear_def)
qed

section \<open>Groups\<close>

lemma mapPush_mset: "mset (concat (map snd (mapPush k x m))) = add_mset x (mset (concat (map snd m)))"
  by (induction k x m rule: mapPush.induct) auto

definition keyed :: "('a \<Rightarrow> 'k) \<Rightarrow> ('k \<times> 'a list) list \<Rightarrow> bool" where
  "keyed f m \<longleftrightarrow> (\<forall>g \<in> set m. \<forall>t \<in> set (snd g). f t = fst g)"

lemma mapPush_keyed: "keyed f m \<Longrightarrow> f x = k \<Longrightarrow> keyed f (mapPush k x m)"
  by (induction k x m rule: mapPush.induct) (simp_all add: keyed_def)

lemma group_mset: "mset (concat (map snd (foldl (\<lambda>g t. mapPush (f t) t g) m ts))) = mset (concat (map snd m)) + mset ts"
  by (induction ts arbitrary: m) (simp_all add: mapPush_mset)

lemma group_keyed: "keyed f m \<Longrightarrow> keyed f (foldl (\<lambda>g t. mapPush (f t) t g) m ts)"
  by (induction ts arbitrary: m) (simp_all add: mapPush_keyed)

text \<open>The groups hold the transactions, each under the key of its day.\<close>

lemma groups:
  "mset (concat (map snd (groupTransactionsByStatementDay ts))) = mset ts"
  "keyed dayKeyOf (groupTransactionsByStatementDay ts)"
  unfolding groupTransactionsByStatementDay_def
  by (simp add: group_mset, rule group_keyed, simp add: keyed_def)

lemma mapPush_nonempty: "\<forall>g \<in> set m. snd g \<noteq> [] \<Longrightarrow> \<forall>g \<in> set (mapPush k x m). snd g \<noteq> []"
  by (induction k x m rule: mapPush.induct) auto

lemma groups_nonempty: "\<forall>g \<in> set (groupTransactionsByStatementDay ts). snd g \<noteq> []"
proof -
  have "\<forall>g \<in> set (foldl (\<lambda>g t. mapPush (dayKeyOf t) t g) m ts). snd g \<noteq> []" if "\<forall>g \<in> set m. snd g \<noteq> []" for m
    using that
  proof (induction ts arbitrary: m)
    case (Cons t ts) then show ?case using Cons.IH[OF mapPush_nonempty[OF Cons.prems]] by simp
  qed simp
  from this[of "[]"] show ?thesis by (simp add: groupTransactionsByStatementDay_def)
qed

section \<open>Storing the lines\<close>

lemma insertSkipping_fresh:
  assumes "distinct (map bl_id ls)" "\<forall>l \<in> set ls. bl_dedupeKey l = None" "bl_id ` set ls \<inter> bl_id ` set (bankLines db) = {}"
  shows "insertSkipping ls db = db\<lparr>bankLines := bankLines db @ ls\<rparr>"
  using assms
proof (induction ls arbitrary: db)
  case (Cons l ls)
  have "\<not> list_ex (bankLineClash l) (bankLines db)" using Cons.prems by (auto simp: list_ex_iff bankLineClash_def sameKey_def)
  moreover have "bl_id ` set ls \<inter> bl_id ` set (bankLines (db\<lparr>bankLines := bankLines db @ [l]\<rparr>)) = {}"
    using Cons.prems(1,3) by auto
  ultimately show ?case using Cons.IH[of "db\<lparr>bankLines := bankLines db @ [l]\<rparr>"] Cons.prems(1,2) by simp
qed simp

text \<open>The identifiers from \<open>k\<close> on are not in use.\<close>

definition unusedFrom :: "env \<Rightarrow> nat \<Rightarrow> 'z banking_scheme \<Rightarrow> bool" where
  "unusedFrom env k db \<longleftrightarrow> inj (uuid env) \<and> (\<forall>j \<ge> k. uuid env j \<notin> bl_id ` set (bankLines db) \<union> bs_id ` set (bankStatements db))"

text \<open>A transaction and the line it became: under a statement of its account and its day.\<close>

definition storedAs :: "env \<Rightarrow> connection \<Rightarrow> account_snapshot \<Rightarrow> bank_statement list \<Rightarrow> transaction_snapshot \<Rightarrow> bank_line \<Rightarrow> bool" where
  "storedAs env conn account ss t l \<longleftrightarrow> bl_companyId l = oc_companyId conn \<and> bl_status l = UNMATCHED \<and>
     bl_externalTransactionId l = tx_externalTransactionId t \<and> bl_date l = tx_bookingDate t \<and>
     bl_amount l = storeDec env 100 (round2 (tx_amount t)) \<and>
     (\<exists>s \<in> set ss. bs_id s = bl_statementId l \<and> bs_statementDate s = startOfUtcDay (tx_bookingDate t) \<and>
        bs_externalAccountId s = Some (ac_externalAccountId account) \<and> bs_accountCode s = oc_accountCode conn \<and>
        bs_companyId s = oc_companyId conn)"

lemma storedAs_mono: "set ss \<subseteq> set ss' \<Longrightarrow> storedAs env c a ss t l \<Longrightarrow> storedAs env c a ss' t l"
  by (auto simp: storedAs_def)

lemma importDay_exact:
  assumes u: "unusedFrom env k db" and day: "dayOfKey key = Some day" and ts: "\<forall>t \<in> set ts. startOfUtcDay (tx_bookingDate t) = day"
  obtains created db' ls where "importDay env c a k key ts db = (Inr created, db')" "bankLines db' = bankLines db @ ls"
    "list_all2 (storedAs env c a (bankStatements db')) ts ls" "set (bankStatements db) \<subseteq> set (bankStatements db')"
    "unusedFrom env (k + 1 + length ts) db'"
proof -
  have inj: "uuid env i = uuid env j \<longleftrightarrow> i = j" for i j using u by (auto simp: unusedFrom_def dest: injD)
  have free: "uuid env j \<notin> bl_id ` set (bankLines db)" "uuid env j \<notin> bs_id ` set (bankStatements db)" if "k \<le> j" for j
    using u that by (auto simp: unusedFrom_def)
  define st where "st = (case findStatement c a day db of Some s \<Rightarrow> s | None \<Rightarrow> newStatement env c a k day)"
  define created where "created = (findStatement c a day db = None)"
  define ss where "ss = (if created then bankStatements db @ [st] else bankStatements db)"
  define ls where "ls = map (\<lambda>(j, t). fetchedLine env c (bs_id st) j t) (List.enumerate (k + 1) ts)"
  have st: "st \<in> set ss" "bs_statementDate st = day" "bs_externalAccountId st = Some (ac_externalAccountId a)"
    "bs_accountCode st = oc_accountCode c" "bs_companyId st = oc_companyId c"
    by (auto simp: st_def ss_def created_def newStatement_def findStatement_def dest: find_SomeD split: option.split)
  have nc: "\<not> list_ex (\<lambda>t. bs_id t = uuid env k) (bankStatements db)" using free(2)[of k] by (auto simp: list_ex_iff image_iff)
  have ids: "map bl_id ls = map (uuid env) [k + 1..<k + 1 + length ts]"
  proof -
    have "map bl_id ls = map (uuid env) (map fst (List.enumerate (k + 1) ts))"
      by (simp add: ls_def fetchedLine_def comp_def split_def del: map_fst_enumerate)
    then show ?thesis by (simp only: map_fst_enumerate)
  qed
  have dis: "distinct (map bl_id ls)" unfolding ids using inj by (simp add: distinct_map inj_on_def)
  have idset: "bl_id ` set ls = uuid env ` {k + 1..<k + 1 + length ts}"
    using arg_cong[OF ids, of set] by (simp del: upt_Suc)
  have "uuid env j \<notin> bl_id ` set (bankLines db)" if "j \<in> {k + 1..<k + 1 + length ts}" for j using that free(1)[of j] by simp
  then have "bl_id ` set ls \<inter> bl_id ` set (bankLines db) = {}" unfolding idset by blast
  moreover have "\<forall>l \<in> set ls. bl_dedupeKey l = None" by (auto simp: ls_def fetchedLine_def)
  ultimately have ins: "insertSkipping ls (db\<lparr>bankStatements := ss\<rparr>) = db\<lparr>bankStatements := ss, bankLines := bankLines db @ ls\<rparr>"
    using insertSkipping_fresh[OF dis, of "db\<lparr>bankStatements := ss\<rparr>"] by simp
  show thesis
  proof (rule that[of created "db\<lparr>bankStatements := ss, bankLines := bankLines db @ ls\<rparr>" ls])
    have b: "(case findStatement c a day db of
              Some s \<Rightarrow> (Inr (bs_id s, False), db)
            | None \<Rightarrow> (case insertBankStatement (newStatement env c a k day) db of
                Inl e \<Rightarrow> (Inl (message e), db) | Inr db \<Rightarrow> (Inr (uuid env k, True), db))) =
          (Inr (bs_id st, created), db\<lparr>bankStatements := ss\<rparr>)"
      using nc by (auto simp: st_def ss_def created_def insertBankStatement_def newStatement_def split: option.split)
    show "importDay env c a k key ts db = (Inr created, db\<lparr>bankStatements := ss, bankLines := bankLines db @ ls\<rparr>)"
      unfolding importDay_def day option.case b bindS.simps prod.case ls_def[symmetric] ins by simp
    show "list_all2 (storedAs env c a (bankStatements (db\<lparr>bankStatements := ss, bankLines := bankLines db @ ls\<rparr>))) ts ls"
      using st ts by (auto simp: list_all2_conv_all_nth ls_def nth_enumerate_eq fetchedLine_def storedAs_def)
    show "unusedFrom env (k + 1 + length ts) (db\<lparr>bankStatements := ss, bankLines := bankLines db @ ls\<rparr>)"
      unfolding unusedFrom_def
    proof (intro conjI allI impI)
      show "inj (uuid env)" using u by (simp add: unusedFrom_def)
      fix j assume j: "k + 1 + length ts \<le> j"
      have "uuid env j \<notin> bl_id ` set ls" unfolding idset using j inj by auto
      moreover have "uuid env j \<noteq> uuid env k" using j inj by simp
      moreover have "set ss \<subseteq> set (bankStatements db) \<union> {newStatement env c a k day}"
        by (auto simp: ss_def created_def st_def split: option.splits)
      then have "bs_id ` set ss \<subseteq> bs_id ` set (bankStatements db) \<union> {uuid env k}" by (auto simp: newStatement_def)
      ultimately show "uuid env j \<notin> bl_id ` set (bankLines (db\<lparr>bankStatements := ss, bankLines := bankLines db @ ls\<rparr>)) \<union>
          bs_id ` set (bankStatements (db\<lparr>bankStatements := ss, bankLines := bankLines db @ ls\<rparr>))"
        using free[of j] j by auto
    qed
  qed (auto simp: ss_def)
qed

lemma importDays_exact:
  assumes "unusedFrom env k db" "\<forall>g \<in> set days. \<exists>day. dayOfKey (fst g) = Some day \<and> (\<forall>t \<in> set (snd g). startOfUtcDay (tx_bookingDate t) = day)"
  shows "\<exists>si db' ls. importDays env c a k days (s0, t0) db = (Inr (si, t0 + length ls), db') \<and> bankLines db' = bankLines db @ ls \<and>
    list_all2 (storedAs env c a (bankStatements db')) (concat (map snd days)) ls \<and> set (bankStatements db) \<subseteq> set (bankStatements db')"
  using assms
proof (induction days arbitrary: k db s0 t0)
  case (Cons g days)
  obtain key ts where g: "g = (key, ts)" by fastforce
  obtain day where day: "dayOfKey key = Some day" "\<forall>t \<in> set ts. startOfUtcDay (tx_bookingDate t) = day" using Cons.prems(2) g by auto
  obtain created db1 ls where d: "importDay env c a k key ts db = (Inr created, db1)" and b1: "bankLines db1 = bankLines db @ ls"
    and l1: "list_all2 (storedAs env c a (bankStatements db1)) ts ls" and s1: "set (bankStatements db) \<subseteq> set (bankStatements db1)"
    and u: "unusedFrom env (k + 1 + length ts) db1"
    using Cons.prems(1) day by (rule importDay_exact)
  have "\<forall>g \<in> set days. \<exists>day. dayOfKey (fst g) = Some day \<and> (\<forall>t \<in> set (snd g). startOfUtcDay (tx_bookingDate t) = day)"
    using Cons.prems(2) by simp
  from Cons.IH[OF u this, of "s0 + (if created then 1 else 0)" "t0 + length ts"]
  obtain si db2 ls2 where r: "importDays env c a (k + 1 + length ts) days (s0 + (if created then 1 else 0), t0 + length ts) db1 =
      (Inr (si, t0 + length ts + length ls2), db2)"
    and b2: "bankLines db2 = bankLines db1 @ ls2" and l2: "list_all2 (storedAs env c a (bankStatements db2)) (concat (map snd days)) ls2"
    and s2: "set (bankStatements db1) \<subseteq> set (bankStatements db2)" by blast
  have "list_all2 (storedAs env c a (bankStatements db2)) ts ls" using l1 storedAs_mono[OF s2] by (rule list_all2_mono)
  then have "list_all2 (storedAs env c a (bankStatements db2)) (concat (map snd (g # days))) (ls @ ls2)"
    using l2 by (simp add: g list_all2_appendI)
  moreover have "importDays env c a k (g # days) (s0, t0) db = (Inr (si, t0 + length (ls @ ls2)), db2)"
    using r list_all2_lengthD[OF l1] by (simp add: g d add.assoc)
  ultimately show ?case using b1 b2 s1 s2 by (intro exI[of _ si] exI[of _ db2] exI[of _ "ls @ ls2"]) auto
qed simp

text \<open>One import: the new transactions of the window, each stored once.\<close>

lemma import_exact:
  assumes "unusedFrom env k db" "\<forall>t \<in> set ts. plainYear (tx_bookingDate t)"
  obtains r db' ts' ls where "importAccountTransactions env c a ts start endDate k db = (Inr r, db')"
    "mset ts' = mset (freshTransactions c db (scopedTransactions start endDate ts))" "bankLines db' = bankLines db @ ls"
    "list_all2 (storedAs env c a (bankStatements db')) ts' ls" "ir_transactionsImported r = length ls"
proof -
  let ?scoped = "scopedTransactions start endDate ts"
  let ?fresh = "freshTransactions c db ?scoped"
  show thesis
  proof (cases "?fresh = []")
    case True
    then have "\<exists>r. importAccountTransactions env c a ts start endDate k db = (Inr r, db) \<and> ir_transactionsImported r = 0"
      by (simp add: importAccountTransactions_def Let_def)
    then show thesis using True that[of _ db "[]" "[]"] by auto
  next
    case False
    then have ns: "?scoped \<noteq> []" by (auto simp: freshTransactions_def Let_def)
    have sub: "set ?fresh \<subseteq> set ts" by (auto simp: freshTransactions_def scopedTransactions_def Let_def)
    let ?days = "groupTransactionsByStatementDay ?fresh"
    have py: "plainYear (tx_bookingDate t)" if "g \<in> set ?days" "t \<in> set (snd g)" for g t
    proof -
      have "t \<in># mset (concat (map snd ?days))" using that by auto
      then show ?thesis using sub assms(2) by (auto simp: groups(1))
    qed
    have ne: "snd g \<noteq> []" if "g \<in> set ?days" for g using groups_nonempty that by blast
    have "\<forall>g \<in> set ?days. \<exists>day. dayOfKey (fst g) = Some day \<and> (\<forall>t \<in> set (snd g). startOfUtcDay (tx_bookingDate t) = day)"
    proof
      fix g assume g: "g \<in> set ?days"
      have key: "dayKeyOf t = fst g" if "t \<in> set (snd g)" for t using groups(2)[of ?fresh] g that by (simp add: keyed_def)
      have each: "dayOfKey (fst g) = Some (startOfUtcDay (tx_bookingDate t))" if "t \<in> set (snd g)" for t
        using dayOfKey_dayKeyOf[OF py[OF g that]] key[OF that] by simp
      obtain t where "t \<in> set (snd g)" using ne[OF g] by (cases "snd g") auto
      from each[OF this] each show "\<exists>day. dayOfKey (fst g) = Some day \<and> (\<forall>t \<in> set (snd g). startOfUtcDay (tx_bookingDate t) = day)"
        by fastforce
    qed
    from importDays_exact[OF assms(1) this, of c a 0 0]
    obtain si db' ls where i: "importDays env c a k ?days (0, 0) db = (Inr (si, length ls), db')" and b: "bankLines db' = bankLines db @ ls"
      and l: "list_all2 (storedAs env c a (bankStatements db')) (concat (map snd ?days)) ls" by auto
    show thesis
    proof (rule that[OF _ groups(1) b l])
      show "importAccountTransactions env c a ts start endDate k db =
          (Inr \<lparr> ir_statementsImported = si, ir_transactionsImported = length ls, ir_latestTransactionDate = Some (latestDate ?fresh) \<rparr>, db')"
        using False ns i by (simp add: importAccountTransactions_def Let_def)
    qed simp
  qed
qed

text \<open>The identifiers an import uses are those of its request.\<close>

definition idsWithin :: "env \<Rightarrow> 'z banking_scheme \<Rightarrow> 'z banking_scheme \<Rightarrow> bool" where
  "idsWithin env db db' \<longleftrightarrow> bl_id ` set (bankLines db') \<subseteq> bl_id ` set (bankLines db) \<union> range (uuid env) \<and>
     bs_id ` set (bankStatements db') \<subseteq> bs_id ` set (bankStatements db) \<union> range (uuid env)"

lemma idsWithin_trans: "idsWithin env a b \<Longrightarrow> idsWithin env b c \<Longrightarrow> idsWithin env a c"
  unfolding idsWithin_def by blast

lemma insertSkipping_ids:
  "\<forall>l \<in> set ls. bl_id l \<in> range (uuid env) \<Longrightarrow> idsWithin env db (insertSkipping ls db)"
proof (induction ls arbitrary: db)
  case (Cons l ls)
  let ?db = "if list_ex (bankLineClash l) (bankLines db) then db else db\<lparr>bankLines := bankLines db @ [l]\<rparr>"
  have "idsWithin env db ?db" using Cons.prems by (auto simp: idsWithin_def)
  moreover have "idsWithin env ?db (insertSkipping ls ?db)" using Cons by simp
  ultimately show ?case unfolding insertSkipping.simps by (rule idsWithin_trans)
qed (simp add: idsWithin_def)

lemma importDay_ids: "idsWithin env db (snd (importDay env c a k key ts db))"
proof -
  have new: "idsWithin env d (insertSkipping (map (\<lambda>(j, t). fetchedLine env c i j t) ts') d)" for i d ts'
    by (rule insertSkipping_ids) (auto simp: fetchedLine_def)
  have st: "idsWithin env db (db\<lparr>bankStatements := bankStatements db @ [newStatement env c a k day]\<rparr>)" for day
    by (simp add: idsWithin_def newStatement_def subset_insertI2)
  show ?thesis
    by (auto simp: importDay_def insertBankStatement_def new idsWithin_trans[OF st new] split: option.splits sum.splits)
      (simp_all add: idsWithin_def)
qed

lemma importDays_ids: "idsWithin env db (snd (importDays env c a k days counts db))"
proof (induction env c a k days counts db rule: importDays.induct)
  case (2 env c a k key ts days si ti db)
  obtain r db1 where i: "importDay env c a k key ts db = (r, db1)" by fastforce
  have d1: "idsWithin env db db1" using importDay_ids[of env db c a k key ts] by (simp add: i)
  show ?case
  proof (cases r)
    case (Inr x)
    have "idsWithin env db1 (snd (importDays env c a (k + 1 + length ts) days (si + (if x then 1 else 0), ti + length ts) db1))"
      using 2 by simp
    from idsWithin_trans[OF d1 this] show ?thesis by (simp add: i Inr)
  qed (simp add: i d1)
qed (simp add: idsWithin_def)

lemma import_ids: "idsWithin env db (snd (importAccountTransactions env c a ts start endDate k db))"
proof -
  let ?fresh = "freshTransactions c db (scopedTransactions start endDate ts)"
  obtain x db1 where i: "importDays env c a k (groupTransactionsByStatementDay ?fresh) (0, 0) db = (x, db1)" by fastforce
  have "idsWithin env db db1" using importDays_ids[of env db c a k "groupTransactionsByStatementDay ?fresh" "(0, 0)"] unfolding i by simp
  moreover have "idsWithin env db db" by (simp add: idsWithin_def)
  moreover have "snd (importAccountTransactions env c a ts start endDate k db) \<in> {db, db1}"
    unfolding importAccountTransactions_def Let_def i by (cases x) (simp_all split: prod.split)
  ultimately show ?thesis by auto
qed

lemma not_in_grown: "x \<notin> A \<union> B \<Longrightarrow> x \<notin> R \<Longrightarrow> A' \<subseteq> A \<union> R \<Longrightarrow> B' \<subseteq> B \<union> R \<Longrightarrow> x \<notin> A' \<union> B'"
  by blast

lemma unusedFrom_other:
  assumes "unusedFrom env2 k db" "idsWithin env db db'" "range (uuid env) \<inter> range (uuid env2) = {}"
  shows "unusedFrom env2 k db'"
proof -
  have "uuid env2 j \<notin> bl_id ` set (bankLines db') \<union> bs_id ` set (bankStatements db')" if "k \<le> j" for j
  proof -
    have "uuid env2 j \<notin> bl_id ` set (bankLines db) \<union> bs_id ` set (bankStatements db)" using assms(1) that by (simp add: unusedFrom_def)
    moreover have "uuid env2 j \<notin> range (uuid env)" using assms(3) rangeI[of "uuid env2" j] by (simp only: disjoint_iff) blast
    ultimately show ?thesis using assms(2) unfolding idsWithin_def by (elim conjE) (rule not_in_grown)
  qed
  then show ?thesis using assms(1) by (simp add: unusedFrom_def)
qed

section \<open>A worked example\<close>

definition demoTx :: "string option \<Rightarrow> transaction_snapshot" where
  "demoTx i = \<lparr> tx_externalTransactionId = i, tx_bookingDate = 1706778000000, tx_amount = 50, tx_currency = ''RON'',
     tx_description = None, tx_reference = None, tx_counterpartyName = None, tx_counterpartyIban = None \<rparr>"

definition demoConnection :: connection where
  "demoConnection = \<lparr> oc_id = ''o'', oc_companyId = ''c'', oc_createdById = ''u'', oc_bankCode = ''BCR'', oc_providerName = ''BCR'',
     oc_accountCode = ''5121'', oc_externalConsentId = None, oc_externalAccountId = None, oc_status = CONNECTION_ACTIVE,
     oc_accessToken = Some ''t'', oc_refreshToken = None, oc_tokenExpiresAt = None, oc_lastSyncedAt = None,
     oc_lastCursorDate = None, oc_errorCount = 0, oc_lastErrorAt = None, oc_lastErrorMessage = None,
     oc_createdAt = 0, oc_updatedAt = 0 \<rparr>"

definition demoSnapshot :: account_snapshot where
  "demoSnapshot = \<lparr> ac_externalAccountId = ''A'', ac_iban = None, ac_currency = ''RON'', ac_balance = None, ac_name = None \<rparr>"

definition demoBank :: banking where "demoBank = demoBankDb [] [demoIn, demoOut]"

lemma uuid_demo: "uuid (demoEnv k) n = k @ showNat n"
  by (simp add: demoEnv_def)

lemma demo_ranges: "range (uuid (demoEnv ''z'')) \<inter> range (uuid (demoEnv ''y'')) = {}"
  by (auto simp: uuid_demo)

lemma showNat_inj: "showNat m = showNat n \<longleftrightarrow> m = n"
  by (metis readNat_showNat)

lemma demo_unused: "unusedFrom (demoEnv ''z'') k demoBank" "unusedFrom (demoEnv ''y'') k demoBank"
  by (auto simp: unusedFrom_def uuid_demo inj_def showNat_inj demoBank_def demoBankDb_def demoIn_def demoOut_def demoBankLine_def)

lemma demo_plain: "\<forall>t \<in> set [demoTx i]. plainYear (tx_bookingDate t)"
proof -
  have "getUTCFullYear 1706778000000 = 2024" by code_simp
  then show ?thesis by (simp add: plainYear_def demoTx_def)
qed

section \<open>What a feed stores\<close>

text \<open>A transaction is new when the bank gives it no identifier, or no line of the company has it.\<close>

definition isNew :: "id \<Rightarrow> bank_line list \<Rightarrow> transaction_snapshot \<Rightarrow> bool" where
  "isNew cid ls t \<longleftrightarrow> missing (tx_externalTransactionId t) \<or>
     (\<forall>l \<in> set ls. bl_companyId l = cid \<longrightarrow> bl_externalTransactionId l \<noteq> tx_externalTransactionId t)"

lemma freshTransactions_filter: "freshTransactions c db ts = filter (isNew (oc_companyId c) (bankLines db)) ts"
proof -
  have "(case tx_externalTransactionId t of None \<Rightarrow> True | Some i \<Rightarrow> i = [] \<or> i \<notin> set (readExistingExternalTransactionIds (oc_companyId c)
      (filter (\<lambda>i. i \<noteq> []) (List.map_filter tx_externalTransactionId ts)) db)) = isNew (oc_companyId c) (bankLines db) t"
    if "t \<in> set ts" for t
    using that by (force simp: isNew_def missing_def readExistingExternalTransactionIds_def map_filter_def split: option.split)
  then show ?thesis by (simp add: freshTransactions_def Let_def cong: filter_cong)
qed

definition inWindow :: "date \<Rightarrow> date \<Rightarrow> transaction_snapshot \<Rightarrow> bool" where
  "inWindow start endDate t \<longleftrightarrow> start \<le> tx_bookingDate t \<and> tx_bookingDate t \<le> endDate"

lemma scopedTransactions_filter: "scopedTransactions start endDate ts = filter (inWindow start endDate) ts"
  unfolding scopedTransactions_def inWindow_def ..

text \<open>C30: The import of a feed succeeds and stores exactly the transactions of its window that are new, each as
  one unmatched line with its identifier, date and amount, under a statement of its account dated the day
  of the transaction; the lines that were there stay, and the count it reports is that of the new ones.\<close>

theorem feed_import_exact:
  assumes "unusedFrom env k db" "\<forall>t \<in> set ts. plainYear (tx_bookingDate t)"
  shows "\<exists>r db' ts' ls. importAccountTransactions env c a ts start endDate k db = (Inr r, db') \<and>
    mset ts' = mset (filter (\<lambda>t. inWindow start endDate t \<and> isNew (oc_companyId c) (bankLines db) t) ts) \<and>
    bankLines db' = bankLines db @ ls \<and> list_all2 (storedAs env c a (bankStatements db')) ts' ls \<and>
    ir_transactionsImported r = length ls"
proof -
  obtain r db' ts' ls where "importAccountTransactions env c a ts start endDate k db = (Inr r, db')"
    "mset ts' = mset (freshTransactions c db (scopedTransactions start endDate ts))" "bankLines db' = bankLines db @ ls"
    "list_all2 (storedAs env c a (bankStatements db')) ts' ls" "ir_transactionsImported r = length ls"
    using assms by (rule import_exact)
  then show ?thesis
    by (intro exI[of _ r] exI[of _ db'] exI[of _ ts'] exI[of _ ls])
      (simp add: freshTransactions_filter scopedTransactions_filter conj_commute)
qed

theorem feed_import_exact_witness:
  "\<exists>r db' l. importAccountTransactions (demoEnv ''z'') demoConnection demoSnapshot [demoTx (Some ''T1'')] 0 2000000000000 1 demoBank =
     (Inr r, db') \<and> bankLines db' = [demoIn, demoOut, l] \<and> bl_externalTransactionId l = Some ''T1'' \<and> ir_transactionsImported r = 1"
proof -
  have n: "filter (\<lambda>t. inWindow 0 2000000000000 t \<and> isNew (oc_companyId demoConnection) (bankLines demoBank) t) [demoTx (Some ''T1'')] =
      [demoTx (Some ''T1'')]"
    by (simp add: inWindow_def isNew_def demoTx_def demoBank_def demoBankDb_def demoIn_def demoOut_def demoBankLine_def)
  have b: "bankLines demoBank = [demoIn, demoOut]" by (simp add: demoBank_def demoBankDb_def)
  obtain r db' ts' ls where i: "importAccountTransactions (demoEnv ''z'') demoConnection demoSnapshot [demoTx (Some ''T1'')] 0
        2000000000000 1 demoBank = (Inr r, db')"
    and m: "mset ts' = mset [demoTx (Some ''T1'')]" and l: "bankLines db' = bankLines demoBank @ ls"
    "list_all2 (storedAs (demoEnv ''z'') demoConnection demoSnapshot (bankStatements db')) ts' ls" "ir_transactionsImported r = length ls"
    using feed_import_exact[where env = "demoEnv ''z''" and k = 1 and db = demoBank and ts = "[demoTx (Some ''T1'')]" and
        c = demoConnection and a = demoSnapshot and start = 0 and endDate = 2000000000000, OF demo_unused(1) demo_plain, unfolded n] by blast
  have ts: "ts' = [demoTx (Some ''T1'')]" using m by (simp add: mset_single_iff)
  then obtain x where "ls = [x]" "bl_externalTransactionId x = Some ''T1''"
    using l(2) by (auto simp: list_all2_Cons1 storedAs_def demoTx_def)
  then show ?thesis using i l(1,3) by (auto simp: b)
qed

text \<open>After an import every transaction of the window that has an identifier is on a line of the company.\<close>

lemma fresh_after:
  assumes "unusedFrom env k db" "\<forall>t \<in> set ts. plainYear (tx_bookingDate t)"
    and i: "importAccountTransactions env c a ts start endDate k db = (Inr r, db')" and co: "oc_companyId c2 = oc_companyId c"
  shows "freshTransactions c2 db' (scopedTransactions start endDate ts) =
    filter (\<lambda>t. missing (tx_externalTransactionId t)) (scopedTransactions start endDate ts)"
proof -
  let ?sc = "scopedTransactions start endDate ts"
  obtain ts' ls where m: "mset ts' = mset (freshTransactions c db ?sc)" and b: "bankLines db' = bankLines db @ ls"
    and l: "list_all2 (storedAs env c a (bankStatements db')) ts' ls"
    using import_exact[OF assms(1,2), of c a start endDate] i by (metis Pair_inject Inr_inject)
  have "isNew (oc_companyId c2) (bankLines db') t = missing (tx_externalTransactionId t)" if t: "t \<in> set ?sc" for t
  proof (cases "isNew (oc_companyId c) (bankLines db) t")
    case True
    then have "t \<in> set (freshTransactions c db ?sc)" using t by (simp add: freshTransactions_filter)
    then have "t \<in> set ts'" using m by (metis set_mset_mset)
    then obtain n where n: "n < length ts'" "ts' ! n = t" by (auto simp: in_set_conv_nth)
    then have "storedAs env c a (bankStatements db') t (ls ! n)" "ls ! n \<in> set (bankLines db')"
      using list_all2_nthD[OF l, of n] list_all2_lengthD[OF l] by (auto simp: b)
    then show ?thesis by (auto simp: isNew_def storedAs_def co)
  next
    case False
    then show ?thesis by (auto simp: isNew_def b co)
  qed
  then show ?thesis unfolding freshTransactions_filter by (rule filter_cong[OF refl])
qed

text \<open>C31: Importing the same feed again, for any connection of the company, adds nothing and changes nothing
  when the bank gives every transaction an identifier.\<close>

theorem feed_idempotent:
  assumes "unusedFrom env k db" "\<forall>t \<in> set ts. plainYear (tx_bookingDate t)"
    and "importAccountTransactions env c a ts start endDate k db = (Inr r, db')"
    and "\<forall>t \<in> set ts. \<not> missing (tx_externalTransactionId t)" "oc_companyId c2 = oc_companyId c"
  shows "\<exists>r2. importAccountTransactions env2 c2 a2 ts start endDate k2 db' = (Inr r2, db') \<and>
    ir_transactionsImported r2 = 0 \<and> ir_statementsImported r2 = 0"
proof -
  have "freshTransactions c2 db' (scopedTransactions start endDate ts) = []"
    unfolding fresh_after[OF assms(1-3,5)] using assms(4) by (auto simp: filter_empty_conv scopedTransactions_def)
  then show ?thesis by (simp add: importAccountTransactions_def Let_def)
qed

theorem feed_idempotent_witness:
  "\<exists>r db' r2. importAccountTransactions (demoEnv ''z'') demoConnection demoSnapshot [demoTx (Some ''T1'')] 0 2000000000000 1 demoBank =
      (Inr r, db') \<and>
    importAccountTransactions (demoEnv ''y'') demoConnection demoSnapshot [demoTx (Some ''T1'')] 0 2000000000000 1 db' = (Inr r2, db') \<and>
    ir_transactionsImported r2 = 0"
proof -
  have ids: "\<forall>t \<in> set [demoTx (Some ''T1'')]. \<not> missing (tx_externalTransactionId t)" by (simp add: demoTx_def missing_def)
  obtain r db' where i: "importAccountTransactions (demoEnv ''z'') demoConnection demoSnapshot [demoTx (Some ''T1'')] 0 2000000000000 1
      demoBank = (Inr r, db')"
    using import_exact[OF demo_unused(1) demo_plain] by metis
  then show ?thesis using feed_idempotent[OF demo_unused(1) demo_plain i ids refl] by blast
qed

text \<open>Transactions without an identifier are stored again at every import whose window holds them: the
  lines have no \<open>dedupeKey\<close>, so the unique index that \<open>skipDuplicates\<close> relies on never applies.\<close>

lemma feed_without_ids_repeats:
  assumes "unusedFrom env k db" "\<forall>t \<in> set ts. plainYear (tx_bookingDate t)"
    and "importAccountTransactions env c a ts start endDate k db = (Inr r, db')"
    and "\<forall>t \<in> set ts. missing (tx_externalTransactionId t)" "unusedFrom env2 k2 db'" "oc_companyId c2 = oc_companyId c"
  shows "\<exists>r2 db''. importAccountTransactions env2 c2 a2 ts start endDate k2 db' = (Inr r2, db'') \<and>
    length (bankLines db') = length (bankLines db) + length (filter (inWindow start endDate) ts) \<and>
    length (bankLines db'') = length (bankLines db') + length (filter (inWindow start endDate) ts)"
proof -
  let ?sc = "scopedTransactions start endDate ts"
  have all: "filter (\<lambda>t. missing (tx_externalTransactionId t)) ?sc = ?sc"
    using assms(4) by (intro filter_True) (auto simp: scopedTransactions_def)
  have f1: "freshTransactions c db ?sc = ?sc" using assms(4) unfolding freshTransactions_filter
    by (intro filter_True) (auto simp: isNew_def scopedTransactions_def)
  have f2: "freshTransactions c2 db' ?sc = ?sc" using fresh_after[OF assms(1-3,6)] all by simp
  have count: "length ls = length ?sc" if "list_all2 P ts' ls" "mset ts' = mset ?sc" for P ts' and ls :: "bank_line list"
    using list_all2_lengthD[OF that(1)] mset_eq_length[OF that(2)] by simp
  have "length (bankLines db') = length (bankLines db) + length ?sc"
    using import_exact[OF assms(1,2), of c a start endDate] assms(3) count unfolding f1
    by (metis Inr_inject Pair_inject length_append)
  moreover obtain r2 db'' ts2 ls2 where "importAccountTransactions env2 c2 a2 ts start endDate k2 db' = (Inr r2, db'')"
    "mset ts2 = mset ?sc" "bankLines db'' = bankLines db' @ ls2" "list_all2 (storedAs env2 c2 a2 (bankStatements db'')) ts2 ls2"
    using import_exact[OF assms(5,2), of c2 a2 start endDate] unfolding f2 by metis
  moreover have "length ls2 = length ?sc" using count calculation by blast
  ultimately show ?thesis by (simp add: scopedTransactions_filter)
qed

lemma feed_without_ids_repeats_example:
  "\<exists>r db' r2 db''. importAccountTransactions (demoEnv ''z'') demoConnection demoSnapshot [demoTx None] 0 2000000000000 1 demoBank =
      (Inr r, db') \<and>
    importAccountTransactions (demoEnv ''y'') demoConnection demoSnapshot [demoTx None] 0 2000000000000 1 db' = (Inr r2, db'') \<and>
    length (bankLines db') = 3 \<and> length (bankLines db'') = 4"
proof -
  have ids: "\<forall>t \<in> set [demoTx None]. missing (tx_externalTransactionId t)" by (simp add: demoTx_def missing_def)
  have w: "length (filter (inWindow 0 2000000000000) [demoTx None]) = 1" by (simp add: inWindow_def demoTx_def)
  have b: "length (bankLines demoBank) = 2" by (simp add: demoBank_def demoBankDb_def)
  obtain r db' where i: "importAccountTransactions (demoEnv ''z'') demoConnection demoSnapshot [demoTx None] 0 2000000000000 1
      demoBank = (Inr r, db')"
    using import_exact[OF demo_unused(1) demo_plain] by metis
  have "idsWithin (demoEnv ''z'') demoBank db'"
    using import_ids[of "demoEnv ''z''" demoBank demoConnection demoSnapshot "[demoTx None]" 0 2000000000000 1] unfolding i by simp
  from unusedFrom_other[OF demo_unused(2) this demo_ranges] have u: "unusedFrom (demoEnv ''y'') 1 db'" .
  show ?thesis using feed_without_ids_repeats[OF demo_unused(1) demo_plain i ids u refl] i unfolding w b by fastforce
qed

section \<open>Signs\<close>

lemma toFixed2_nonneg: "0 \<le> x \<Longrightarrow> 0 \<le> toFixed2 x"
  by (auto simp: toFixed2_def Let_def intro!: fl_nonneg)

lemma toFixed2_minus: "0 < x \<Longrightarrow> toFixed2 (- x) = - toFixed2 x"
  by (simp add: toFixed2_def Let_def)

text \<open>The transactions of a feed come in the order of their booking dates, and the sign of an amount comes
  from the indicator alone: without DBIT or DEBIT the amount stored is positive (or zero, below half a
  cent) whatever sign the bank sent. A payment out of the account that the bank marks by a minus sign
  becomes money received.\<close>

lemma feed_amount_sign:
  assumes "x \<in> set (parseTransactionsPayload isoTime payload)"
  shows "sorted (map tx_bookingDate (parseTransactionsPayload isoTime payload)) \<and>
    (\<exists>m raw. asObject (Some m) = Some raw \<and> m \<in> set (asArray (pickFirst payload
         [''transactions'', ''data.transactions'', ''data.booked'', ''bookedTransactions'', ''items''])) \<and>
       (\<exists>v. rawAmount raw = Some v \<and> v \<noteq> 0 \<and> 0 \<le> toFixed2 \<bar>v\<bar> \<and>
         tx_amount x = (if indicator raw \<in> {''DBIT'', ''DEBIT''} then - toFixed2 \<bar>v\<bar> else toFixed2 \<bar>v\<bar>)))"
proof -
  obtain m where m: "m \<in> set (asArray (pickFirst payload
         [''transactions'', ''data.transactions'', ''data.booked'', ''bookedTransactions'', ''items'']))"
    "parseTransaction isoTime m = Some x"
    using assms by (auto simp: parseTransactionsPayload_def map_filter_def)
  then obtain raw cur where r: "asObject (Some m) = Some raw" "parseTransactionAmount raw = Some (tx_amount x, cur)"
    by (auto simp: parseTransaction_def split: option.splits)
  then obtain v where "rawAmount raw = Some v" "v \<noteq> 0"
    "tx_amount x = toFixed2 (if indicator raw \<in> {''DBIT'', ''DEBIT''} then - \<bar>v\<bar> else \<bar>v\<bar>)"
    by (auto simp: parseTransactionAmount_def Let_def split: option.splits if_splits)
  moreover have "sorted (map tx_bookingDate (parseTransactionsPayload isoTime payload))"
    by (simp add: parseTransactionsPayload_def)
  ultimately show ?thesis using m(1) r(1) toFixed2_nonneg[of "\<bar>v\<bar>"] toFixed2_minus[of "\<bar>v\<bar>"]
    by (intro conjI exI[of _ m] exI[of _ raw] exI[of _ v]) auto
qed

text \<open>An account pays 50 and the bank sends the amount -50 without an indicator.\<close>

definition demoUnmarked :: json where
  "demoUnmarked = JObject [(''amount'', JNumber (- 50)), (''bookingDate'', JString ''2024-02-01'')]"

lemma demo_unmarked_amount:
  "parseTransactionAmount [(''amount'', JNumber (- 50)), (''bookingDate'', JString ''2024-02-01'')] = Some (50, ''RON'')"
  (is "parseTransactionAmount ?raw = _")
proof -
  have v: "rawAmount ?raw = Some (- 50)"
    by (simp add: rawAmount_def field_def elseText_def numberOrUndefined_def finiteOnly_def isFinite_def asObject_def)
  have i: "indicator ?raw = []" by code_simp
  have c: "toStringOrUndefined (field ?raw ''currency'') = None" "toStringOrUndefined (readDeep (Some (JObject ?raw)) ''amount.currency'') = None"
    "toStringOrUndefined (readDeep (Some (JObject ?raw)) ''transactionAmount.currency'') = None"
    "asObject (field ?raw ''amount'') = None" "asObject (field ?raw ''transactionAmount'') = None" "toUpperCase ''RON'' = ''RON''"
    by code_simp+
  have f: "toFixed2 50 = 50" by code_simp
  show ?thesis unfolding parseTransactionAmount_def Let_def v i c by (simp add: elseText_def orElse_def toStringOrUndefined_def f c(6))
qed

lemma demo_unmarked:
  obtains x where "parseTransactionsPayload (\<lambda>_. None) (Some (JObject [(''transactions'', JArray [demoUnmarked])])) = [x]" "tx_amount x = 50"
proof -
  let ?raw = "[(''amount'', JNumber (- 50)), (''bookingDate'', JString ''2024-02-01'')]"
  have "bookingDateOf (\<lambda>_. None) ?raw = Some 1706745600000" by code_simp
  then obtain x where x: "parseTransaction (\<lambda>_. None) demoUnmarked = Some x" "tx_amount x = 50"
    by (simp add: parseTransaction_def demoUnmarked_def asObject_def demo_unmarked_amount)
  have "pickFirst (Some (JObject [(''transactions'', JArray [demoUnmarked])]))
      [''transactions'', ''data.transactions'', ''data.booked'', ''bookedTransactions'', ''items''] = Some (JArray [demoUnmarked])"
    by code_simp
  then show thesis using that[OF _ x(2)] x(1) by (simp add: parseTransactionsPayload_def asArray_def map_filter_simps)
qed

lemma feed_amount_sign_example:
  "\<exists>x raw. x \<in> set (parseTransactionsPayload (\<lambda>_. None) (Some (JObject [(''transactions'', JArray [demoUnmarked])]))) \<and>
     tx_amount x = 50 \<and> asObject (Some demoUnmarked) = Some raw \<and> rawAmount raw = Some (- 50) \<and>
     tx_amount x = toFixed2 \<bar>- 50\<bar>"
proof -
  obtain x where x: "parseTransactionsPayload (\<lambda>_. None) (Some (JObject [(''transactions'', JArray [demoUnmarked])])) = [x]" "tx_amount x = 50"
    by (rule demo_unmarked)
  have p: "pickFirst (Some (JObject [(''transactions'', JArray [demoUnmarked])]))
      [''transactions'', ''data.transactions'', ''data.booked'', ''bookedTransactions'', ''items''] = Some (JArray [demoUnmarked])"
    by code_simp
  have "x \<in> set (parseTransactionsPayload (\<lambda>_. None) (Some (JObject [(''transactions'', JArray [demoUnmarked])])))" using x(1) by simp
  note w = feed_amount_sign[OF this, unfolded p]
  obtain raw v where r: "asObject (Some demoUnmarked) = Some raw" "rawAmount raw = Some v"
    "tx_amount x = (if indicator raw \<in> {''DBIT'', ''DEBIT''} then - toFixed2 \<bar>v\<bar> else toFixed2 \<bar>v\<bar>)"
    using w by (auto simp: asArray_def)
  have raw: "raw = [(''amount'', JNumber (- 50)), (''bookingDate'', JString ''2024-02-01'')]"
    using r(1) by (simp add: asObject_def demoUnmarked_def)
  have v: "v = - 50" using r(2)
    by (simp add: raw rawAmount_def field_def elseText_def numberOrUndefined_def finiteOnly_def isFinite_def asObject_def)
  have "indicator raw = []" unfolding raw by code_simp
  then show ?thesis using x r by (auto simp: v)
qed

end
