(* ===== verification/OpenBankingGuarantees.thy ===== *)
theory OpenBankingGuarantees
  imports OpenBankingSync FeedImport
begin

text \<open>
  What open banking guarantees and what it does not: a synchronisation adds unmatched lines only and ends
  its run; every reachable state keeps the invariant of the bank reconciliation and of the connections; an
  import stores each new transaction once, under the statement of its day, unless the bank gives it no
  identifier; the sign of an amount comes from the indicator alone.
\<close>

section \<open>What a run leaves alone\<close>

lemma insertSkipping_adds:
  assumes "\<forall>l \<in> set ls. bl_status l = UNMATCHED \<and> lineOk l"
  shows "addsLines db (insertSkipping ls db)"
  using assms
proof (induction ls arbitrary: db)
  case (Cons l ls)
  define db1 where "db1 = (if list_ex (bankLineClash l) (bankLines db) then db else db\<lparr>bankLines := bankLines db @ [l]\<rparr>)"
  have "addsLines db db1" using Cons.prems
    by (auto simp: db1_def addsLines_def list_ex_iff bankLineClash_def sorted_wrt_append)
  moreover have "addsLines db1 (insertSkipping ls db1)" using Cons by simp
  ultimately show ?case unfolding insertSkipping.simps db1_def[symmetric] by (rule addsLines_trans)
qed simp

lemma fetchedLine_ok [simp]: "bl_status (fetchedLine env c s k t) = UNMATCHED" "lineOk (fetchedLine env c s k t)"
  by (simp_all add: fetchedLine_def lineOk_def)

lemma importDay_adds: "addsLines db (snd (importDay env c a k key ts db))"
proof -
  have new: "addsLines d (insertSkipping (map (\<lambda>(j, t). fetchedLine env c i j t) ts') d)" for i d ts'
    by (rule insertSkipping_adds) auto
  have st: "addsLines db (db\<lparr>bankStatements := ss\<rparr>)" for ss by (simp add: addsLines_def)
  note both = addsLines_trans[OF st new]
  show ?thesis
    by (auto simp: importDay_def insertBankStatement_def new both split: option.splits sum.splits)
qed

text \<open>A sequence of steps adds lines when its steps do.\<close>

lemma bindS_adds:
  assumes "addsLines db (snd m)" "\<And>x s. m = (Inr x, s) \<Longrightarrow> addsLines s (snd (f x s))"
  shows "addsLines db (snd (bindS m f))"
  using assms by (cases "(m, f)" rule: bindS.cases) (auto intro: addsLines_trans)

lemma importDays_adds: "addsLines db (snd (importDays env c a k days counts db))"
proof (induction env c a k days counts db rule: importDays.induct)
  case (2 env c a k key ts days si ti db)
  then show ?case by (auto simp: importDay_adds intro!: bindS_adds)
qed simp

lemma importAccount_adds: "addsLines db (snd (importAccountTransactions env c a ts f e k db))"
  by (auto simp: importAccountTransactions_def Let_def intro!: bindS_adds importDays_adds)

text \<open>The tables of open banking are no tables of the bank.\<close>

lemma ob_updates_adds [simp]:
  "addsLines db (updateConnection env i f' db)" "addsLines db (updateSyncRun i g db)"
  "insertSyncRun r db = Inr db' \<Longrightarrow> addsLines db db'" "insertConnection x db = Inr db'' \<Longrightarrow> addsLines db db''"
  "addsLines db (writeAudit u tbl j act reason db)"
  by (auto simp: addsLines_def updateConnection_def updateSyncRun_def insertSyncRun_def insertConnection_def split: if_splits)

lemma ensureAccessToken_adds: "addsLines db (snd (ensureAccessToken env envs fetch c db))"
  by (simp add: ensureAccessToken_def split: sum.split)

lemma syncAccounts_adds: "addsLines db (snd (syncAccounts env envs fetch isoTime b c f e call k accs counts db))"
proof (induction env envs fetch isoTime b c f e call k accs counts db rule: syncAccounts.induct)
  case (2 env envs fetch isoTime b c f e call k a rest counts db)
  then show ?case by (auto split: sum.split intro!: bindS_adds importAccount_adds)
qed simp

lemma syncBody_adds: "addsLines db (snd (syncBody env envs fetch isoTime c f e db))"
  unfolding syncBody_def Let_def
  by (intro bindS_adds ensureAccessToken_adds) (auto split: sum.split intro: syncAccounts_adds)

lemma resolveSyncWindow_InlD: "resolveSyncWindow t conn input = Inl e \<Longrightarrow> statusCode e = 400"
  by (auto simp: resolveSyncWindow_def Let_def badRequest_def split: option.splits if_splits)

text \<open>The three ways a run ends: refused before its row is written, failed, done.\<close>

lemma run_cases:
  assumes "runOpenBankingSync env envs fetch isoTime input db = (res, db')"
  obtains (refused) e where "res = Inl e" "db' = db" "statusCode e \<in> {400, 404, 409}"
  | (failed) conn start endDate e db1 db2 where "findConnection (sy_companyId input) (sy_connectionId input) db = Some conn"
    "oc_status conn \<noteq> CONNECTION_DISABLED" "resolveSyncWindow (now env) conn input = Inr (start, endDate)"
    "insertSyncRun (newSyncRun env conn input start endDate) db = Inr db1"
    "syncBody env envs fetch isoTime conn start endDate db1 = (Inl e, db2)"
    "res = Inl (HttpError 502 (''Sincronizarea Open Banking a esuat: '' @ take 1800 e))" "db' = syncFailed env conn (take 1800 e) db2"
  | (finished) conn start endDate counts db1 db2 where "findConnection (sy_companyId input) (sy_connectionId input) db = Some conn"
    "oc_status conn \<noteq> CONNECTION_DISABLED" "resolveSyncWindow (now env) conn input = Inr (start, endDate)"
    "insertSyncRun (newSyncRun env conn input start endDate) db = Inr db1"
    "syncBody env envs fetch isoTime conn start endDate db1 = (Inr counts, db2)"
    "res = Inr \<lparr> sm_syncRunId = uuid env 0, sm_connectionId = oc_id conn, sm_counts = counts, sm_cursorFrom = start,
       sm_cursorTo = endDate \<rparr>" "db' = syncSucceeded env conn endDate counts db2"
proof -
  have i: "statusCode e = 409" if "insertSyncRun r d = Inl e" for r d e
    using that by (auto simp: insertSyncRun_def uniqueViolation_def conflict_def split: if_splits)
  have refuse: thesis if "res = Inl e" "db' = db" "statusCode e = 400 \<or> statusCode e = 404 \<or> statusCode e = 409" for e
    using refused that by blast
  show thesis
    using assms failed finished refuse
    by (fastforce simp: runOpenBankingSync_def notFound_def conflict_def dest: i resolveSyncWindow_InlD
        split: option.splits if_splits sum.splits prod.splits)
qed

lemma syncBody_addsD: "syncBody env envs fetch isoTime c f e db = (r, db') \<Longrightarrow> addsLines db db'"
  by (metis snd_conv syncBody_adds)

lemma sync_adds:
  assumes "runOpenBankingSync env envs fetch isoTime input db = (res, db')" shows "addsLines db db'"
  using assms
proof (cases rule: run_cases)
  case (failed conn start endDate e db1 db2)
  show ?thesis unfolding failed(7) syncFailed_def
    by (rule addsLines_trans[OF addsLines_trans[OF addsLines_trans[OF ob_updates_adds(3)[OF failed(4)] syncBody_addsD[OF failed(5)]]
          ob_updates_adds(1)] ob_updates_adds(2)])
next
  case (finished conn start endDate counts db1 db2)
  show ?thesis unfolding finished(7) syncSucceeded_def
    by (rule addsLines_trans[OF addsLines_trans[OF addsLines_trans[OF ob_updates_adds(3)[OF finished(4)] syncBody_addsD[OF finished(5)]]
          ob_updates_adds(1)] ob_updates_adds(2)])
qed simp

section \<open>Connections and runs\<close>

text \<open>An import touches statements and lines only.\<close>

definition sameOb :: "'z open_banking_scheme \<Rightarrow> 'z open_banking_scheme \<Rightarrow> bool" where
  "sameOb db db' \<longleftrightarrow> connections db' = connections db \<and> syncRuns db' = syncRuns db"

lemma sameOb_trans: "sameOb a b \<Longrightarrow> sameOb b c \<Longrightarrow> sameOb a c"
  by (simp add: sameOb_def)

lemma bindS_same:
  assumes "sameOb db (snd m)" "\<And>x s. m = (Inr x, s) \<Longrightarrow> sameOb s (snd (f x s))"
  shows "sameOb db (snd (bindS m f))"
  using assms by (cases "(m, f)" rule: bindS.cases) (auto intro: sameOb_trans)

lemma insertSkipping_same: "sameOb db (insertSkipping ls db)"
proof (induction ls arbitrary: db)
  case (Cons l ls)
  have "sameOb db (if list_ex (bankLineClash l) (bankLines db) then db else db\<lparr>bankLines := bankLines db @ [l]\<rparr>)"
    by (simp add: sameOb_def)
  then show ?case unfolding insertSkipping.simps by (rule sameOb_trans[OF _ Cons.IH])
qed (simp add: sameOb_def)

lemma importDay_same: "sameOb db (snd (importDay env c a k key ts db))"
proof -
  have "sameOb db (db\<lparr>bankStatements := ss\<rparr>)" for ss by (simp add: sameOb_def)
  note both = sameOb_trans[OF this insertSkipping_same]
  show ?thesis
    by (auto simp: importDay_def insertBankStatement_def insertSkipping_same both split: option.splits sum.splits)
      (simp add: sameOb_def)+
qed

lemma importDays_same: "sameOb db (snd (importDays env c a k days counts db))"
proof (induction env c a k days counts db rule: importDays.induct)
  case (2 env c a k key ts days si ti db)
  then show ?case by (auto simp: importDay_same intro!: bindS_same)
qed (simp add: sameOb_def)

lemma importAccount_same: "sameOb db (snd (importAccountTransactions env c a ts f e k db))"
  by (auto simp: importAccountTransactions_def Let_def sameOb_def[of _ db] intro!: bindS_same importDays_same) (simp add: sameOb_def)+

lemma syncAccounts_same: "sameOb db (snd (syncAccounts env envs fetch isoTime b c f e call k accs counts db))"
proof (induction env envs fetch isoTime b c f e call k accs counts db rule: syncAccounts.induct)
  case (2 env envs fetch isoTime b c f e call k a rest counts db)
  have "sameOb db db" by (simp add: sameOb_def)
  then show ?case using 2 by (auto split: sum.split intro!: bindS_same importAccount_same)
qed (simp add: sameOb_def)

lemma exchange_token:
  assumes "exchangeOpenBankingAccessToken envs fetch t b g = Inr token" shows "tr_accessToken token \<noteq> []"
  using assms by (auto simp: exchangeOpenBankingAccessToken_def bindR_eq_Inr Let_def missing_def split: if_splits)

text \<open>What the body of a run does to the connections: nothing, or it stores a new token.\<close>

lemma syncBody_tables:
  assumes b: "syncBody env envs fetch isoTime conn start endDate db = (r, db')"
  shows "syncRuns db' = syncRuns db \<and>
    (connections db' = connections db \<and> (is_ok r \<longrightarrow> \<not> missing (oc_accessToken conn)) \<or>
     (\<exists>old token. tr_accessToken token \<noteq> [] \<and>
        connections db' = connections (updateConnection env (oc_id conn) (storeToken old token) db)))"
proof -
  obtain x db1 where en: "ensureAccessToken env envs fetch conn db = (x, db1)" by fastforce
  have db1: "syncRuns db1 = syncRuns db \<and> (connections db1 = connections db \<and> (\<forall>c. x = Inr c \<longrightarrow> c = conn) \<or>
     (\<exists>old token. tr_accessToken token \<noteq> [] \<and>
        connections db1 = connections (updateConnection env (oc_id conn) (storeToken old token) db)))"
    using en exchange_token
    by (auto simp: ensureAccessToken_def updateConnection_def bindR_eq_Inr split: if_splits sum.splits; blast)
  show ?thesis
  proof (cases x)
    case (Inl e)
    then show ?thesis using b db1 by (auto simp: syncBody_def en)
  next
    case (Inr active)
    have "sameOb db1 (snd (syncBody env envs fetch isoTime conn start endDate db))"
      by (auto simp: syncBody_def en Inr Let_def sameOb_def[of db1 db1] split: sum.split intro!: syncAccounts_same)
    moreover have "is_ok r \<longrightarrow> \<not> missing (oc_accessToken active)" using b by (auto simp: syncBody_def en Inr split: if_splits)
    ultimately show ?thesis using db1 Inr by (auto simp: b sameOb_def updateConnection_def)
  qed
qed

text \<open>A connection keeps its keys, so it is found again after an update.\<close>

definition keepsKey :: "(connection \<Rightarrow> connection) \<Rightarrow> bool" where
  "keepsKey f \<longleftrightarrow> (\<forall>x. oc_id (f x) = oc_id x \<and> oc_companyId (f x) = oc_companyId x)"

lemma storeToken_keeps [simp]: "keepsKey (storeToken old token)"
  by (simp add: keepsKey_def storeToken_def)

lemma find_updateWhere:
  "(\<And>x. p (f x) = p x) \<Longrightarrow> find p (updateWhere q f xs) = map_option (\<lambda>x. if q x then f x else x) (find p xs)"
  by (induction xs) auto

lemma find_updateConnection:
  assumes "keepsKey f" "findConnection c i db = Some x"
  shows "findConnection c i (updateConnection env i f db) = Some ((f x)\<lparr>oc_updatedAt := now env\<rparr>)"
proof -
  have "oc_id x = i" using find_SomeD[OF assms(2)[unfolded findConnection_def]] by simp
  then show ?thesis using assms unfolding findConnection_def updateConnection_def keepsKey_def
    by (simp add: find_updateWhere)
qed

lemma findConnection_cong: "connections a = connections b \<Longrightarrow> findConnection c i a = findConnection c i b"
  by (simp add: findConnection_def)

lemma insertSyncRun_InrD:
  "insertSyncRun r db = Inr db' \<Longrightarrow> db' = db\<lparr>syncRuns := syncRuns db @ [r]\<rparr> \<and> (\<forall>s \<in> set (syncRuns db). sr_id s \<noteq> sr_id r)"
  by (auto simp: insertSyncRun_def list_ex_iff split: if_splits)

text \<open>The last update of a run: its row is the new one, and its connection gets the final status.\<close>

lemma run_tables:
  assumes c: "findConnection (sy_companyId input) (sy_connectionId input) db = Some conn"
    and i: "insertSyncRun (newSyncRun env conn input start endDate) db = Inr db1"
    and b: "syncBody env envs fetch isoTime conn start endDate db1 = (r, db2)"
    and f: "keepsKey f" "\<And>x. oc_errorCount (f x) = g (oc_errorCount x)"
    and d: "db' = updateSyncRun (uuid env 0) h (updateConnection env (oc_id conn) f db2)"
  shows "syncRuns db' = syncRuns db @ [h (newSyncRun env conn input start endDate)]"
    and "\<exists>y. findConnection (sy_companyId input) (sy_connectionId input) db' = Some ((f y)\<lparr>oc_updatedAt := now env\<rparr>) \<and>
      oc_errorCount (f y) = g (oc_errorCount conn)"
proof -
  note ins = insertSyncRun_InrD[OF i] and tb = syncBody_tables[OF b]
  have ci: "oc_id conn = sy_connectionId input" using find_SomeD[OF c[unfolded findConnection_def]] by simp
  have "updateWhere (\<lambda>x. sr_id x = uuid env 0) h (syncRuns db) = syncRuns db"
    using ins by (intro updateWhere_none) (auto simp: newSyncRun_def)
  then show "syncRuns db' = syncRuns db @ [h (newSyncRun env conn input start endDate)]"
    using ins tb by (simp add: d updateSyncRun_def updateConnection_def newSyncRun_def)
  have c1: "findConnection (sy_companyId input) (sy_connectionId input) db1 = Some conn"
    using c ins by (simp add: findConnection_def)
  obtain y where y: "findConnection (sy_companyId input) (sy_connectionId input) db2 = Some y" "oc_errorCount y = oc_errorCount conn"
    using tb
  proof (elim conjE disjE exE)
    assume "connections db2 = connections db1"
    then show thesis using that c1 by (simp add: findConnection_def)
  next
    fix old token
    assume "connections db2 = connections (updateConnection env (oc_id conn) (storeToken old token) db1)"
    then have e: "connections db2 = connections (updateConnection env (sy_connectionId input) (storeToken old token) db1)"
      by (simp add: ci)
    show thesis using that find_updateConnection[OF storeToken_keeps c1, of env old token]
      unfolding findConnection_cong[OF e] by (simp add: storeToken_def)
  qed
  have "findConnection (sy_companyId input) (sy_connectionId input) db' = Some ((f y)\<lparr>oc_updatedAt := now env\<rparr>)"
    using find_updateConnection[OF f(1) y(1)] by (simp add: d ci findConnection_def updateSyncRun_def)
  then show "\<exists>y. findConnection (sy_companyId input) (sy_connectionId input) db' = Some ((f y)\<lparr>oc_updatedAt := now env\<rparr>) \<and>
      oc_errorCount (f y) = g (oc_errorCount conn)"
    using f(2) y(2) by (metis)
qed

text \<open>C29: Every synchronisation ends. Either it is refused with 400, 404 or 409 and nothing was written, or it
  adds one run, of its connection, which is finished: with SUCCESS and the counts of the answer, and the
  connection is ACTIVE with no errors counted, or with FAILED and the message of the 502 that is answered,
  and the connection is in ERROR with one more error counted.\<close>

theorem sync_run_ends:
  "case runOpenBankingSync env envs fetch isoTime input db of (res, db') \<Rightarrow>
     (\<exists>e. res = Inl e \<and> statusCode e \<in> {400, 404, 409} \<and> db' = db) \<or>
     (\<exists>conn x r. findConnection (sy_companyId input) (sy_connectionId input) db = Some conn \<and>
        findConnection (sy_companyId input) (sy_connectionId input) db' = Some x \<and>
        syncRuns db' = syncRuns db @ [r] \<and> sr_connectionId r = oc_id conn \<and> sr_finishedAt r = Some (now env) \<and>
        (case res of
           Inr s \<Rightarrow> sr_status r = SYNC_SUCCESS \<and> sr_id r = sm_syncRunId s \<and>
             sr_transactionsImported r = ct_transactionsImported (sm_counts s) \<and>
             sr_statementsImported r = ct_statementsImported (sm_counts s) \<and>
             oc_status x = CONNECTION_ACTIVE \<and> oc_errorCount x = 0
         | Inl e \<Rightarrow> statusCode e = 502 \<and> sr_status r = SYNC_FAILED \<and>
             (\<exists>m. sr_errorMessage r = Some m \<and> message e = ''Sincronizarea Open Banking a esuat: '' @ m) \<and>
             oc_status x = CONNECTION_ERROR \<and> oc_errorCount x = oc_errorCount conn + 1))"
proof -
  obtain res db' where run: "runOpenBankingSync env envs fetch isoTime input db = (res, db')" by fastforce
  then show ?thesis
  proof (cases rule: run_cases)
    case (failed conn start endDate e db1 db2)
    note t = run_tables[OF failed(1,4,5) _ _ failed(7)[unfolded syncFailed_def], where g = "\<lambda>n. n + 1", simplified keepsKey_def, simplified]
    obtain y where y: "findConnection (sy_companyId input) (sy_connectionId input) db' = Some y"
      "oc_status y = CONNECTION_ERROR" "oc_errorCount y = oc_errorCount conn + 1" using t(2) by fastforce
    show ?thesis unfolding run prod.case failed(6) sum.case
      by (intro disjI2 exI[of _ conn] exI[of _ y] exI conjI, rule failed(1), rule y(1), rule t(1))
        (simp_all add: newSyncRun_def y(2,3))
  next
    case (finished conn start endDate counts db1 db2)
    note t = run_tables[OF finished(1,4,5) _ _ finished(7)[unfolded syncSucceeded_def], where g = "\<lambda>n. 0", simplified keepsKey_def, simplified]
    obtain y where y: "findConnection (sy_companyId input) (sy_connectionId input) db' = Some y"
      "oc_status y = CONNECTION_ACTIVE" "oc_errorCount y = 0" using t(2) by fastforce
    show ?thesis unfolding run prod.case finished(6) sum.case
      by (intro disjI2 exI[of _ conn] exI[of _ y] exI conjI, rule finished(1), rule y(1), rule t(1))
        (simp_all add: newSyncRun_def y(2,3))
  qed (auto simp: run)
qed

section \<open>Histories\<close>

definition connectionOk :: "connection \<Rightarrow> bool" where
  "connectionOk x \<longleftrightarrow> 0 \<le> oc_errorCount x \<and> (oc_status x = CONNECTION_ACTIVE \<longrightarrow> \<not> missing (oc_accessToken x)) \<and>
     (oc_status x = CONNECTION_ERROR \<longrightarrow> 1 \<le> oc_errorCount x \<and> oc_lastErrorAt x \<noteq> None \<and> oc_lastErrorMessage x \<noteq> None)"

definition runOk :: "sync_run \<Rightarrow> bool" where
  "runOk r \<longleftrightarrow> sr_status r \<noteq> SYNC_RUNNING \<and> sr_finishedAt r \<noteq> None \<and> sr_cursorFrom r \<le> sr_cursorTo r \<and>
     (sr_status r = SYNC_FAILED \<longleftrightarrow> sr_errorMessage r \<noteq> None)"

definition obInv :: "'z open_banking_scheme \<Rightarrow> bool" where
  "obInv db \<longleftrightarrow> distinct (map oc_id (connections db)) \<and> (\<forall>x \<in> set (connections db). connectionOk x) \<and>
     distinct (map sr_id (syncRuns db)) \<and> (\<forall>r \<in> set (syncRuns db). runOk r)"

lemma obInv_update:
  assumes "obInv db" "keepsKey f" "\<And>x. x \<in> set (connections db) \<Longrightarrow> oc_id x = i \<Longrightarrow> connectionOk (f x)"
  shows "obInv (updateConnection env i f db)"
proof -
  have "map oc_id (connections (updateConnection env i f db)) = map oc_id (connections db)"
    using assms(2) by (simp add: updateConnection_def map_updateWhere keepsKey_def)
  moreover have "connectionOk x" if "x \<in> set (connections (updateConnection env i f db))" for x
    using that assms(1,3) by (auto simp: obInv_def updateConnection_def updateWhere_set connectionOk_def split: if_splits)
  ultimately show ?thesis using assms(1) by (simp add: obInv_def) (simp add: updateConnection_def)
qed

lemma obInv_cong: "connections db' = connections db \<Longrightarrow> syncRuns db' = syncRuns db \<Longrightarrow> obInv db' = obInv db"
  by (simp add: obInv_def)

lemma connection_unique:
  assumes "distinct (map oc_id (connections db))" "findConnection c i db = Some x" "y \<in> set (connections db)" "oc_id y = oc_id x"
  shows "y = x"
  using assms find_SomeD[OF assms(2)[unfolded findConnection_def]] by (auto simp: distinct_map dest: inj_onD)

text \<open>The common end of a run: the connection is found as it was or with a new token, then updated.\<close>

lemma run_inv:
  assumes inv: "obInv db" and c: "findConnection (sy_companyId input) (sy_connectionId input) db = Some conn"
    and w: "resolveSyncWindow (now env) conn input = Inr (start, endDate)"
    and i: "insertSyncRun (newSyncRun env conn input start endDate) db = Inr db1"
    and b: "syncBody env envs fetch isoTime conn start endDate db1 = (r, db2)"
    and f: "keepsKey f" "\<And>x. connectionOk x \<Longrightarrow> \<not> is_ok r \<or> \<not> missing (oc_accessToken x) \<Longrightarrow> connectionOk (f x)"
    and h: "\<And>x. sr_id (h x) = sr_id x" "runOk (h (newSyncRun env conn input start endDate))"
    and d: "db' = updateSyncRun (uuid env 0) h (updateConnection env (oc_id conn) f db2)"
  shows "obInv db'"
proof -
  note ins = insertSyncRun_InrD[OF i] and tb = syncBody_tables[OF b]
  have cok: "connectionOk x" if "x \<in> set (connections db)" for x
    using inv that by (auto simp: obInv_def)
  have dc: "distinct (map oc_id (connections db))" using inv by (simp add: obInv_def)
  have runs: "syncRuns db' = syncRuns db @ [h (newSyncRun env conn input start endDate)]"
    using ins tb
    by (simp add: d updateSyncRun_def updateConnection_def newSyncRun_def updateWhere_none)
  have upd: "map oc_id (connections db2) = map oc_id (connections db) \<and>
      (\<forall>x \<in> set (connections db2). connectionOk x \<and> (is_ok r \<and> oc_id x = oc_id conn \<longrightarrow> \<not> missing (oc_accessToken x)))"
    using tb
  proof (elim conjE disjE exE)
    assume a: "connections db2 = connections db1" "is_ok r \<longrightarrow> \<not> missing (oc_accessToken conn)"
    then show ?thesis using cok connection_unique[OF dc c] ins by auto
  next
    fix old token
    assume a: "tr_accessToken token \<noteq> []"
      "connections db2 = connections (updateConnection env (oc_id conn) (storeToken old token) db1)"
    have "connectionOk (storeToken old token x)" if "connectionOk x" for x
      using that a(1) by (simp add: connectionOk_def storeToken_def missing_def)
    then show ?thesis using a ins cok
      by (auto simp: updateConnection_def updateWhere_set map_updateWhere storeToken_def missing_def connectionOk_def)
  qed
  have "distinct (map oc_id (connections db'))" using f(1) upd dc
    by (simp add: d updateSyncRun_def updateConnection_def map_updateWhere keepsKey_def)
  moreover have "connectionOk x" if x: "x \<in> set (connections db')" for x
  proof -
    obtain y where y: "y \<in> set (connections db2)" "x = (if oc_id y = oc_id conn then (f y)\<lparr>oc_updatedAt := now env\<rparr> else y)"
      using x by (auto simp: d updateSyncRun_def updateConnection_def updateWhere_set)
    then show ?thesis using upd f(2)[of y] by (auto simp: connectionOk_def)
  qed
  moreover have "distinct (map sr_id (syncRuns db'))" "\<forall>x \<in> set (syncRuns db'). runOk x"
    using inv ins h by (auto simp: obInv_def runs image_iff)
  ultimately show ?thesis by (simp add: obInv_def)
qed

lemma resolveSyncWindow_le: "resolveSyncWindow t conn input = Inr (start, endDate) \<Longrightarrow> start \<le> endDate"
  by (auto simp: resolveSyncWindow_def Let_def split: option.splits if_splits)

lemma sync_obInv:
  assumes inv: "obInv db" and run: "runOpenBankingSync env envs fetch isoTime input db = (res, db')"
  shows "obInv db'"
  using run
proof (cases rule: run_cases)
  case (failed conn start endDate e db1 db2)
  show ?thesis
    by (rule run_inv[OF inv failed(1,3,4,5) _ _ _ _ failed(7)[unfolded syncFailed_def]])
      (use resolveSyncWindow_le[OF failed(3)] in \<open>auto simp: keepsKey_def connectionOk_def runOk_def newSyncRun_def\<close>)
next
  case (finished conn start endDate counts db1 db2)
  show ?thesis
    by (rule run_inv[OF inv finished(1,3,4,5) _ _ _ _ finished(7)[unfolded syncSucceeded_def]])
      (use resolveSyncWindow_le[OF finished(3)] in \<open>auto simp: keepsKey_def connectionOk_def runOk_def newSyncRun_def\<close>)
qed (use inv in simp)

text \<open>The routes of the ledger, of sales, purchases and the bank leave the tables of open banking alone.\<close>

lemma ob_frame [simp]:
  "connections (writeAudit u t i a r d) = connections d" "syncRuns (writeAudit u t i a r d) = syncRuns d"
  "connections (invalidateFinancialStatementsCache d) = connections d" "syncRuns (invalidateFinancialStatementsCache d) = syncRuns d"
  "connections (invalidateInvoiceListCache d) = connections d" "syncRuns (invalidateInvoiceListCache d) = syncRuns d"
  "connections (updateSupplierInvoice j f d) = connections d" "syncRuns (updateSupplierInvoice j f d) = syncRuns d"
  "connections (updateBankLine j g d) = connections d" "syncRuns (updateBankLine j g d) = syncRuns d"
  by (simp_all add: writeAudit_def invalidateFinancialStatementsCache_def invalidateInvoiceListCache_def
      updateSupplierInvoice_def updateBankLine_def)

lemma ob_insert:
  fixes d :: "'z open_banking_scheme"
  shows "insertEntry e d = Inr d' \<Longrightarrow> sameOb d d'" "insertInvoice x d = Inr d' \<Longrightarrow> sameOb d d'"
    "insertPayment y d = Inr d' \<Longrightarrow> sameOb d d'" "insertSupplierInvoice v d = Inr d' \<Longrightarrow> sameOb d d'"
    "insertApproval a d = Inr d' \<Longrightarrow> sameOb d d'" "insertDelegation g d = Inr d' \<Longrightarrow> sameOb d d'"
    "insertBankStatement s d = Inr d' \<Longrightarrow> sameOb d d'" "insertBankLine l d = Inr d' \<Longrightarrow> sameOb d d'"
  by (auto simp: sameOb_def insertEntry_def insertInvoice_def insertPayment_def insertSupplierInvoice_def
      insertApproval_def insertDelegation_def insertBankStatement_def insertBankLine_def split: if_splits)

lemma sales_step_same:
  fixes db :: "'z open_banking_scheme"
  assumes "sales_step db db'" shows "sameOb db db'"
  using assms
proof (elim sales_stepE, goal_cases)
  case (1 env u r x)
  from 1(2) show ?thesis
    by (rule createInvoice_InrD) (auto simp: postInvoice_def dest!: ob_insert split: if_splits simp: sameOb_def)
next
  case (2 env u i p y)
  from 2(2) show ?thesis
    by (rule payInvoice_InrD) (auto simp: postPayment_def dest!: ob_insert split: if_splits simp: sameOb_def)
qed

lemma purchase_step_same:
  fixes db :: "'z open_banking_scheme"
  assumes "purchase_step db db'" shows "sameOb db db'"
  using assms
proof (elim purchase_stepE, goal_cases)
  case (1 env u r x)
  from 1(2) show ?thesis
    by (rule createSupplier_InrD) (auto dest!: ob_insert split: if_splits simp: sameOb_def)
next
  case (2 env u role dr d)
  then show ?thesis
    by (auto simp: createDelegation_def Let_def bindR_eq_Inr sameOb_def dest!: ob_insert split: if_splits option.splits)
next
  case (3 env u role ch i aq)
  then show ?thesis
    by (auto simp: approveSupplierInvoice_def Let_def bindR_eq_Inr sameOb_def dest!: ob_insert split: if_splits option.splits)
next
  case (4 env u role i reason nt)
  then show ?thesis
    by (auto simp: rejectSupplierInvoice_def Let_def bindR_eq_Inr sameOb_def dest!: ob_insert split: if_splits option.splits)
next
  case (5 env u i pq p)
  from 5(2) show ?thesis
    by (rule paySupplier_InrD) (auto dest!: ob_insert split: if_splits simp: sameOb_def)
qed

lemma bank_step_same:
  fixes db :: "'z open_banking_scheme"
  assumes "bank_step (ps, db) (ps', db')" shows "sameOb db db'"
  using assms
proof (elim bank_stepE, goal_cases)
  case (1 env u r s)
  then show ?thesis
    by (auto simp: importBankStatement_def Let_def bindR_eq_Inr dest!: ob_insert insertBankLines_InrD
        split: if_splits option.splits simp: sameOb_def)
next
  case (3 env p y)
  from 3(4) show ?thesis
  proof (rule reconcileCommit_InrD)
    fix line db1
    assume c: "(\<exists>q. rq_targetType (pm_request p) = INVOICE \<and> y = Inl q \<and>
          reconcileInvoice env (pm_actor p) (pm_request p) (cents (bl_amount (pm_line p))) line db = Inr (q, db1)) \<or>
        (\<exists>q. rq_targetType (pm_request p) = SUPPLIER_INVOICE \<and> y = Inr q \<and>
          reconcileSupplierInvoice env (pm_actor p) (pm_request p) (cents (bl_amount (pm_line p))) line db = Inr (q, db1))"
      and d: "db' = invalidateFinancialStatementsCache db1"
    have "sameOb db db1" using c
      by (elim disjE exE conjE reconcileInvoice_InrD reconcileSupplierInvoice_InrD)
        (auto dest!: ob_insert split: if_splits simp: sameOb_def)
    then show ?thesis by (simp add: d sameOb_def)
  qed
next
  case (5 u i reason)
  then show ?thesis by (auto simp: ignoreLine_def sameOb_def split: if_splits option.splits)
qed (auto dest: sales_step_same purchase_step_same simp: sameOb_def)

text \<open>Any history: the routes of open banking, the scheduler, and every other route that works on invoices,
  payments or statement lines, a request to reconcile being two steps.\<close>

inductive ob_step :: "pending_match list \<times> 'z open_banking_scheme \<Rightarrow> pending_match list \<times> 'z open_banking_scheme \<Rightarrow> bool" where
  books: "bank_step (ps, db) (ps', db') \<Longrightarrow> ob_step (ps, db) (ps', db')"
| connect: "createConnection env u r db = Inr (x, db') \<Longrightarrow> ob_step (ps, db) (ps, db')"
| switch: "updateConnectionStatus env u i active reason db = Inr db' \<Longrightarrow> ob_step (ps, db) (ps, db')"
| token: "exchangeToken env cfg fetch u i tr db = Inr db' \<Longrightarrow> ob_step (ps, db) (ps, db')"
| sync: "syncConnection env cfg fetch isoTime u i start endDate reason db = (res, db') \<Longrightarrow> ob_step (ps, db) (ps, db')"
| tick: "runDailyOpenBankingSyncTick hour t envs cfg fetches isoTime (key, db) = (key', db') \<Longrightarrow> ob_step (ps, db) (ps, db')"

inductive_cases ob_stepE: "ob_step (ps, db) (ps', db')"

lemma connection_row:
  "readConnectionOrThrow i c db = Inr x \<Longrightarrow> x \<in> set (connections db)"
  by (auto simp: readConnectionOrThrow_def findConnection_def dest: find_SomeD split: option.splits)

text \<open>Every step outside the books adds lines only and keeps the invariant of the connections.\<close>

lemma audit_obInv [simp]: "obInv (writeAudit u t i a r db) = obInv db"
  by (simp add: obInv_def writeAudit_def)

lemma connect_inv:
  assumes "obInv db" "createConnection env u r db = Inr (x, db')"
  shows "addsLines db db' \<and> obInv db'"
proof -
  obtain db1 where i: "insertConnection x db = Inr db1" and x: "connectionOk x"
    and d: "db' = writeAudit u ''open_banking_connections'' (Some (oc_id x)) ''CREATE'' (cn_reason r) db1"
    using assms(2) by (auto simp: createConnection_def Let_def bindR_eq_Inr connectionOk_def split: if_splits)
  have "addsLines db db'" unfolding d using addsLines_trans[OF ob_updates_adds(4)[OF i] ob_updates_adds(5)] .
  moreover have n: "oc_id x \<notin> oc_id ` set (connections db)" and d1: "db1 = db\<lparr>connections := connections db @ [x]\<rparr>"
    using i by (auto simp: insertConnection_def list_ex_iff split: if_splits)
  have "obInv db'" using assms(1) x n by (simp add: d d1 obInv_def)
  ultimately show ?thesis by simp
qed

lemma switch_inv:
  assumes "obInv db" "updateConnectionStatus env u i active reason db = Inr db'"
  shows "addsLines db db' \<and> obInv db'"
proof -
  obtain x where x: "readConnectionOrThrow i (act_company u) db = Inr x" "active \<longrightarrow> \<not> missing (oc_accessToken x)"
    and d: "db' = writeAudit u ''open_banking_connections'' (Some (oc_id x)) ''STATUS_UPDATE'' reason (updateConnection env (oc_id x)
         (\<lambda>x. x\<lparr>oc_status := (if active then CONNECTION_ACTIVE else CONNECTION_DISABLED)\<rparr>) db)"
    using assms(2) by (auto simp: updateConnectionStatus_def bindR_eq_Inr split: if_splits)
  have u: "y = x" if "y \<in> set (connections db)" "oc_id y = oc_id x" for y
    using that connection_row[OF x(1)] assms(1) by (auto simp: obInv_def distinct_map dest: inj_onD)
  have "obInv (updateConnection env (oc_id x) (\<lambda>x. x\<lparr>oc_status := (if active then CONNECTION_ACTIVE else CONNECTION_DISABLED)\<rparr>) db)"
    using assms(1) u x(2) connection_row[OF x(1)]
    by (intro obInv_update) (auto simp: keepsKey_def connectionOk_def obInv_def)
  then show ?thesis by (simp add: d addsLines_trans[OF ob_updates_adds(1) ob_updates_adds(5)])
qed

lemma token_inv:
  assumes "obInv db" "exchangeToken env cfg fetch u i r db = Inr db'"
  shows "addsLines db db' \<and> obInv db'"
proof -
  obtain x where x: "readConnectionOrThrow i (act_company u) db = Inr x"
    using assms(2) by (auto simp: exchangeToken_def bindR_eq_Inr split: if_splits)
  let ?old = "elseText (tk_refreshToken r) (oc_refreshToken x)"
  let ?g = "if tk_authorizationCode r \<noteq> None then AuthorizationCode (tk_authorizationCode r) (tk_redirectUri r) else RefreshToken ?old"
  obtain b token where t: "exchangeOpenBankingAccessToken cfg fetch (now env) b ?g = Inr token"
    and d: "db' = writeAudit u ''open_banking_connections'' (Some (oc_id x)) ''OAUTH_TOKEN_EXCHANGE'' (tk_reason r)
               (updateConnection env (oc_id x) (storeToken ?old token) db)"
    using assms(2) x unfolding exchangeToken_def Let_def
    by (simp split: if_splits option.splits sum.splits)
  have "obInv (updateConnection env (oc_id x) (storeToken ?old token) db)"
    using assms(1) exchange_token[OF t] by (intro obInv_update) (auto simp: connectionOk_def storeToken_def missing_def obInv_def)
  then show ?thesis by (simp add: d addsLines_trans[OF ob_updates_adds(1) ob_updates_adds(5)])
qed

lemma syncConnection_inv:
  assumes "obInv db" "syncConnection env cfg fetch isoTime u i start endDate reason db = (res, db')"
  shows "addsLines db db' \<and> obInv db'"
proof (cases "readConnectionOrThrow i (act_company u) db")
  case (Inl e) then show ?thesis using assms by (simp add: syncConnection_def)
next
  case (Inr x)
  obtain q db1 where r: "runOpenBankingSync env cfg fetch isoTime \<lparr> sy_connectionId = oc_id x, sy_companyId = oc_companyId x,
      sy_initiatedByUserId = Some (act_user u), sy_fromDate = start, sy_toDate = endDate \<rparr> db = (q, db1)" by fastforce
  have "db' = db1 \<or> (\<exists>j. db' = writeAudit u ''open_banking_sync_runs'' j ''SYNC_TRIGGER'' reason db1)"
    using assms(2) Inr r by (cases q) (auto simp: syncConnection_def)
  then show ?thesis
    using sync_adds[OF r] sync_obInv[OF assms(1) r] addsLines_trans[OF sync_adds[OF r] ob_updates_adds(5)] by auto
qed

lemma tickLoop_inv: "obInv db \<Longrightarrow> addsLines db (tickLoop envs cfg fetches isoTime i xs db) \<and> obInv (tickLoop envs cfg fetches isoTime i xs db)"
proof (induction envs cfg fetches isoTime i xs db rule: tickLoop.induct)
  case (2 envs cfg fetches isoTime i x xs db)
  define db1 where "db1 = (if shouldSyncConnectionNow (now (envs i)) (oc_lastSyncedAt x)
        then snd (runOpenBankingSync (envs i) cfg (fetches i) isoTime \<lparr> sy_connectionId = oc_id x,
          sy_companyId = oc_companyId x, sy_initiatedByUserId = None, sy_fromDate = None, sy_toDate = None \<rparr> db)
        else db)"
  have "addsLines db db1 \<and> obInv db1"
    using 2(2) sync_adds[of "envs i" cfg "fetches i" isoTime _ db] sync_obInv[OF 2(2), of "envs i" cfg "fetches i" isoTime]
    by (auto simp: db1_def) (metis surjective_pairing)+
  then show ?case using 2(1)[folded db1_def] addsLines_trans by (auto simp: db1_def[symmetric])
qed simp

lemma ob_step_inv:
  assumes s: "ob_step (ps, db) (ps', db')" and inv: "bankInv db" "obInv db" "\<forall>p \<in> set ps. previewOk db p"
  shows "bankInv db' \<and> obInv db' \<and> linesKept db db' \<and> (\<forall>p \<in> set ps'. previewOk db' p)"
proof (cases "bank_step (ps, db) (ps', db')")
  case True
  then show ?thesis using bank_step_inv[OF True inv(1,3)] bank_step_same[OF True] inv(2) by (simp add: sameOb_def obInv_def)
next
  case False
  have "addsLines db db' \<and> obInv db' \<and> ps' = ps"
    using s False inv(2)
    by (elim ob_stepE) (auto dest: connect_inv switch_inv token_inv syncConnection_inv
        simp: runDailyOpenBankingSyncTick_def tickLoop_inv split: if_splits)
  then show ?thesis using addsLines_inv[OF inv(1)] inv(3) previewOk_kept by blast
qed

lemma ob_reach_inv:
  assumes "ob_step\<^sup>*\<^sup>* s s'" "bankInv (snd s)" "obInv (snd s)" "\<forall>p \<in> set (fst s). previewOk (snd s) p"
  shows "bankInv (snd s') \<and> obInv (snd s') \<and> linesKept (snd s) (snd s') \<and> (\<forall>p \<in> set (fst s'). previewOk (snd s') p)"
  using assms
proof (induction rule: rtranclp_induct)
  case base then show ?case using linesKept_refl[of "snd s" "snd s"] by simp
next
  case (step a b)
  then have "ob_step (fst a, snd a) (fst b, snd b)" by simp
  from ob_step_inv[OF this] step show ?case using linesKept_trans by blast
qed

text \<open>C28: Whatever the order of synchronisations, scheduler ticks, token exchanges and the routes of the bank and
  of the invoices: a connection is ACTIVE only with an access token and in ERROR only with an error counted
  and its message; no finished request leaves a run that is still RUNNING, and a run has a message exactly
  when it FAILED; a statement line that was matched or ignored stays as it is; and the lines matched to a
  document stay covered by payments of their own.\<close>

theorem open_banking_history:
  assumes "ob_step\<^sup>*\<^sup>* (ps, db) (ps', db')" "bankInv db" "obInv db" "\<forall>p \<in> set ps. previewOk db p"
  shows "(\<forall>x \<in> set (connections db'). (oc_status x = CONNECTION_ACTIVE \<longrightarrow> \<not> missing (oc_accessToken x)) \<and>
      (oc_status x = CONNECTION_ERROR \<longrightarrow> 1 \<le> oc_errorCount x \<and> oc_lastErrorMessage x \<noteq> None)) \<and>
    (\<forall>r \<in> set (syncRuns db'). sr_status r \<noteq> SYNC_RUNNING \<and> sr_cursorFrom r \<le> sr_cursorTo r \<and>
      (sr_status r = SYNC_FAILED \<longleftrightarrow> sr_errorMessage r \<noteq> None)) \<and>
    (\<forall>l \<in> set (bankLines db). bl_status l \<noteq> UNMATCHED \<longrightarrow> l \<in> set (bankLines db')) \<and>
    matchedAmounts INVOICE i (bankLines db') \<subseteq># mset (invoiceAmounts i db') \<and>
    matchedAmounts SUPPLIER_INVOICE i (bankLines db') \<subseteq># mset (supplierAmounts i db')"
proof -
  have inv: "bankInv db'" "obInv db'" "linesKept db db'" using ob_reach_inv[OF assms(1)] assms(2-4) by simp_all
  have "l \<in> set (bankLines db')" if "l \<in> set (bankLines db)" "bl_status l \<noteq> UNMATCHED" for l
    using inv(3) that by (auto simp: linesKept_def lineFixed_def)
  moreover have "connectionOk x" if "x \<in> set (connections db')" for x using inv(2) that by (simp add: obInv_def)
  moreover have "runOk r" if "r \<in> set (syncRuns db')" for r using inv(2) that by (simp add: obInv_def)
  ultimately show ?thesis using inv(1) by (simp add: connectionOk_def runOk_def bankInv_def covered_def)
qed

text \<open>A bank without configuration: the run fails and its connection goes into error.\<close>

definition demoOb :: open_banking where
  "demoOb = banking.extend demoBank \<lparr> connections = [demoConnection], syncRuns = [] \<rparr>"

definition demoSync :: "(http_error + sync_summary) \<times> open_banking" where
  "demoSync = syncConnection (demoEnv ''z'') (\<lambda>_. \<lparr> tokenUrl = None, accountsUrl = None, transactionsUrl = None,
     clientId = None, clientSecret = None \<rparr>) (\<lambda>_ _. FetchFailed ''x'') (\<lambda>_. None) demoActor ''o'' None None None demoOb"

lemma demo_sync_rows:
  "map (\<lambda>r. (sr_status r, sr_errorMessage r)) (syncRuns (snd demoSync)) =
     [(SYNC_FAILED, Some ''Configuratia Open Banking este incompleta (URL-uri lipsa).'')]"
  "map oc_status (connections (snd demoSync)) = [CONNECTION_ERROR]"
  by code_simp+

lemma demo_ob_inv: "bankInv demoOb" "obInv demoOb"
proof -
  have "bankInv demoBank" unfolding demoBank_def by (rule demo_bank_inv)
  then show "bankInv demoOb" by (simp add: demoOb_def bankInv_def bank_inv_defs banking.defs)
  show "obInv demoOb" by (simp add: demoOb_def obInv_def banking.defs demoConnection_def connectionOk_def missing_def)
qed

theorem open_banking_history_witness:
  "\<exists>r x. syncRuns (snd demoSync) = [r] \<and> sr_status r = SYNC_FAILED \<and> sr_errorMessage r \<noteq> None \<and>
     connections (snd demoSync) = [x] \<and> oc_status x = CONNECTION_ERROR \<and> 1 \<le> oc_errorCount x"
proof -
  have "ob_step ([], demoOb) ([], snd demoSync)"
    by (rule ob_step.sync[OF trans[OF demoSync_def[symmetric] prod.collapse[symmetric]]])
  then have s: "ob_step\<^sup>*\<^sup>* ([], demoOb) ([], snd demoSync)" by blast
  have p: "\<forall>p \<in> set []. previewOk demoOb p" by simp
  obtain r x where "syncRuns (snd demoSync) = [r]" "sr_status r = SYNC_FAILED" "connections (snd demoSync) = [x]" "oc_status x = CONNECTION_ERROR"
    using demo_sync_rows by (auto simp: map_eq_Cons_conv)
  then show ?thesis using open_banking_history[OF s demo_ob_inv p] by auto
qed

end
