(* ===== verification/FinancialStatements.thy ===== *)
theory FinancialStatements
  imports PurchaseReports Payroll
begin

text \<open>
  The financial statements (services/reports/statements-service.ts, \<open>computeStatements\<close>): trial balance,
  profit and loss, balance sheet, aging of receivables and the tax summary; and the chart of accounts
  (routes/accounts.ts), whose types the statements read. A query without an order returns the rows in the
  order of the table. \<open>localeCompare\<close> is a parameter: a key by which it orders the codes. The payroll runs,
  which are tables of another component, are an argument. What the cache does with the result is in
  StatementsCache.
\<close>

section \<open>Accounts\<close>

record account_req =
  na_code :: string
  na_name :: string
  na_type :: AccountType
  na_currency :: string
  na_reason :: "string option"

definition createAccountSchema :: "account_req \<Rightarrow> bool" where
  "createAccountSchema r \<longleftrightarrow> 3 \<le> length (na_code r) \<and> 2 \<le> length (na_name r)"

text \<open>The primary key and the unique index \<open>[companyId, code]\<close>.\<close>

definition insertAccount :: "account \<Rightarrow> 'z ledger_scheme \<Rightarrow> http_error + 'z ledger_scheme" where
  "insertAccount a db =
     (if list_ex (\<lambda>b. a_id b = a_id a \<or> a_companyId b = a_companyId a \<and> a_code b = a_code a) (accounts db)
      then Inl uniqueViolation else Inr (db\<lparr>accounts := accounts db @ [a]\<rparr>))"

definition createAccount ::
  "env \<Rightarrow> actor \<Rightarrow> account_req \<Rightarrow> 'z ledger_scheme \<Rightarrow> http_error + (account \<times> 'z ledger_scheme)" where
  "createAccount env u r db =
     (if \<not> createAccountSchema r then Inl (badRequest ''Date invalide pentru cont.'') else
      let a = \<lparr> a_id = uuid env 0, a_companyId = act_company u, a_code = na_code r, a_isActive = True,
            a_name = na_name r, a_type = na_type r, a_currency = na_currency r \<rparr>
      in bindR (insertAccount a db) (\<lambda>db.
         Inr (a, invalidateFinancialStatementsCache
           (writeAudit u ''accounts'' (Some (a_id a)) ''CREATE'' (na_reason r) db))))"

text \<open>The reason of an update is required; absent fields stay as they are.\<close>

record account_patch =
  ua_name :: "string option"
  ua_type :: "AccountType option"
  ua_currency :: "string option"
  ua_isActive :: "bool option"
  ua_reason :: string

definition updateAccountSchema :: "account_patch \<Rightarrow> bool" where
  "updateAccountSchema r \<longleftrightarrow> (\<forall>n \<in> set_option (ua_name r). 2 \<le> length n) \<and> 3 \<le> length (ua_reason r)"

definition patchAccount :: "account_patch \<Rightarrow> account \<Rightarrow> account" where
  "patchAccount r a = a\<lparr> a_name := orElse (ua_name r) (a_name a), a_type := orElse (ua_type r) (a_type a),
     a_currency := orElse (ua_currency r) (a_currency a), a_isActive := orElse (ua_isActive r) (a_isActive a) \<rparr>"

definition updateAccount ::
  "actor \<Rightarrow> id \<Rightarrow> account_patch \<Rightarrow> 'z ledger_scheme \<Rightarrow> http_error + 'z ledger_scheme" where
  "updateAccount u i r db =
     (if \<not> updateAccountSchema r then Inl (badRequest ''Date invalide pentru actualizare cont.'') else
      case find (\<lambda>a. a_id a = i \<and> a_companyId a = act_company u) (accounts db) of
        None \<Rightarrow> Inl (notFound ''Cont inexistent.'')
      | Some a \<Rightarrow> Inr (invalidateFinancialStatementsCache
          (writeAudit u ''accounts'' (Some (a_id a)) ''UPDATE'' (Some (ua_reason r))
            (db\<lparr>accounts := updateWhere (\<lambda>b. a_id b = i) (patchAccount r) (accounts db)\<rparr>))))"

section \<open>The trial balance\<close>

record date_range =
  rg_from :: "date option"
  rg_to :: "date option"

definition hasRange :: "date_range \<Rightarrow> bool" where
  "hasRange r \<longleftrightarrow> rg_from r \<noteq> None \<or> rg_to r \<noteq> None"

text \<open>\<open>{ gte: range.from, lte: range.to }\<close>, where an undefined bound is ignored, and no filter without a range.\<close>

definition inRange :: "date_range \<Rightarrow> date \<Rightarrow> bool" where
  "inRange r t \<longleftrightarrow> hasRange r \<longrightarrow>
     (case rg_from r of None \<Rightarrow> True | Some f \<Rightarrow> f \<le> t) \<and> (case rg_to r of None \<Rightarrow> True | Some e \<Rightarrow> t \<le> e)"

definition journalLines :: "id \<Rightarrow> date_range \<Rightarrow> 'z ledger_scheme \<Rightarrow> journal_line list" where
  "journalLines c r db = concat (map je_lines (filter (\<lambda>e. je_companyId e = c \<and> inRange r (je_date e)) (entries db)))"

definition accountOf :: "id \<Rightarrow> 'z ledger_scheme \<Rightarrow> account option" where
  "accountOf i db = find (\<lambda>a. a_id a = i) (accounts db)"

text \<open>\<open>include: { account: true }\<close>: the foreign key gives every line its account.\<close>

definition withAccounts :: "'z ledger_scheme \<Rightarrow> journal_line list \<Rightarrow> (journal_line \<times> account) list" where
  "withAccounts db ls = List.map_filter (\<lambda>l. map_option (Pair l) (accountOf (jl_accountId l) db)) ls"

record trial_row =
  tb_accountId :: id
  tb_code :: string
  tb_name :: string
  tb_type :: AccountType
  tb_debit :: double
  tb_credit :: double

definition addAmounts :: "journal_line \<Rightarrow> trial_row \<Rightarrow> trial_row" where
  "addAmounts l row = row\<lparr> tb_debit := round2 (fadd (tb_debit row) (toNumber (column 100 (jl_debit l)))),
     tb_credit := round2 (fadd (tb_credit row) (toNumber (column 100 (jl_credit l)))) \<rparr>"

text \<open>The \<open>Map\<close> keyed by account, in the order its keys were first set.\<close>

fun addLine :: "journal_line \<times> account \<Rightarrow> trial_row list \<Rightarrow> trial_row list" where
  "addLine (l, a) [] = [addAmounts l \<lparr> tb_accountId = jl_accountId l, tb_code = a_code a, tb_name = a_name a,
     tb_type = a_type a, tb_debit = 0, tb_credit = 0 \<rparr>]"
| "addLine (l, a) (row # rows) =
     (if tb_accountId row = jl_accountId l then addAmounts l row # rows else row # addLine (l, a) rows)"

definition trialRows :: "(string \<Rightarrow> nat) \<Rightarrow> (journal_line \<times> account) list \<Rightarrow> trial_row list" where
  "trialRows collate ls = sort_key (\<lambda>row. collate (tb_code row)) (foldl (\<lambda>rows x. addLine x rows) [] ls)"

definition trialTotals :: "trial_row list \<Rightarrow> double \<times> double" where
  "trialTotals rows = foldl (\<lambda>(d, c) row. (round2 (fadd d (tb_debit row)), round2 (fadd c (tb_credit row)))) (0, 0) rows"

section \<open>Profit and loss, balance sheet\<close>

record statement_sums =
  ss_revenues :: double
  ss_expenses :: double
  ss_assets :: double
  ss_liabilities :: double
  ss_equity :: double

definition addRow :: "trial_row \<Rightarrow> statement_sums \<Rightarrow> statement_sums" where
  "addRow row s =
     (let accountBalance = round2 (fsub (tb_debit row) (tb_credit row)) in
      case tb_type row of
        REVENUE \<Rightarrow> s\<lparr>ss_revenues := round2 (fadd (ss_revenues s) (fsub (tb_credit row) (tb_debit row)))\<rparr>
      | EXPENSE \<Rightarrow> s\<lparr>ss_expenses := round2 (fadd (ss_expenses s) (fsub (tb_debit row) (tb_credit row)))\<rparr>
      | ASSET \<Rightarrow> s\<lparr>ss_assets := round2 (fadd (ss_assets s) accountBalance)\<rparr>
      | LIABILITY \<Rightarrow> s\<lparr>ss_liabilities := round2 (fsub (ss_liabilities s) accountBalance)\<rparr>
      | EQUITY \<Rightarrow> s\<lparr>ss_equity := round2 (fsub (ss_equity s) accountBalance)\<rparr>)"

definition statementSums :: "trial_row list \<Rightarrow> statement_sums" where
  "statementSums rows = foldl (\<lambda>s row. addRow row s)
     \<lparr> ss_revenues = 0, ss_expenses = 0, ss_assets = 0, ss_liabilities = 0, ss_equity = 0 \<rparr> rows"

record pnl_data =
  pl_revenues :: double
  pl_expenses :: double
  pl_netProfit :: double

record balance_sheet =
  sh_assets :: double
  sh_liabilities :: double
  sh_equity :: double
  sh_liabilitiesAndEquity :: double

definition pnlOf :: "statement_sums \<Rightarrow> pnl_data" where
  "pnlOf s = \<lparr> pl_revenues = ss_revenues s, pl_expenses = ss_expenses s,
     pl_netProfit = round2 (fsub (ss_revenues s) (ss_expenses s)) \<rparr>"

definition balanceSheetOf :: "statement_sums \<Rightarrow> balance_sheet" where
  "balanceSheetOf s = \<lparr> sh_assets = ss_assets s, sh_liabilities = ss_liabilities s, sh_equity = ss_equity s,
     sh_liabilitiesAndEquity = round2 (fadd (ss_liabilities s) (ss_equity s)) \<rparr>"

section \<open>Aging of receivables\<close>

record receivable_row =
  rc_invoiceId :: id
  rc_number :: string
  rc_partner :: string
  rc_dueDate :: date
  rc_openAmount :: double
  rc_overdueDays :: int

definition receivableOpen :: "'z sales_scheme \<Rightarrow> invoice \<Rightarrow> double" where
  "receivableOpen db x = round2 (max (fsub (toNumber (column 100 (i_total x)))
     (reduceSum (map (\<lambda>p. toNumber (column 100 (pay_amount p))) (paymentsOf (i_id x) db)))) 0)"

definition receivableDays :: "date \<Rightarrow> invoice \<Rightarrow> int" where
  "receivableDays t x = \<lfloor>fdiv (of_int (t - i_dueDate x)) (of_int (1000 * 60 * 60 * 24))\<rfloor>"

definition computeAging :: "id \<Rightarrow> date_range \<Rightarrow> date \<Rightarrow> 'z sales_scheme \<Rightarrow> aging_buckets \<times> receivable_row list" where
  "computeAging c r t db =
     (let xs = filter (\<lambda>x. i_companyId x = c \<and> i_status x \<in> {ISSUED, PARTIALLY_PAID} \<and> inRange r (i_issueDate x)) (invoices db)
      in (foldl (\<lambda>b x. addToBucket (receivableDays t x) (receivableOpen db x) b)
            \<lparr> ab_current = 0, ab_d1_30 = 0, ab_d31_60 = 0, ab_d61_90 = 0, ab_d90_plus = 0 \<rparr> xs,
          map (\<lambda>x. \<lparr> rc_invoiceId = i_id x, rc_number = i_number x,
             rc_partner = orElse (map_option pt_name (find (\<lambda>p. pt_id p = i_partnerId x) (partners db))) [],
             rc_dueDate = i_dueDate x, rc_openAmount = receivableOpen db x,
             rc_overdueDays = max (receivableDays t x) 0 \<rparr>) xs))"

section \<open>Taxes\<close>

record tax_summary =
  tax_taxableSales :: double
  tax_vatCollected :: double
  tax_payrollCas :: double
  tax_payrollCass :: double
  tax_payrollCam :: double
  tax_payrollTax :: double
  tax_estimatedProfitTax :: double
  tax_totalFiscalLiabilities :: double

definition sumColumn :: "('r \<Rightarrow> int) \<Rightarrow> 'r list \<Rightarrow> double" where
  "sumColumn f rows = round2 (reduceSum (map (\<lambda>x. toNumber (column 100 (f x))) rows))"

definition taxableInvoices :: "id \<Rightarrow> date_range \<Rightarrow> 'z sales_scheme \<Rightarrow> invoice list" where
  "taxableInvoices c r db = filter (\<lambda>x. i_companyId x = c \<and> i_status x \<noteq> CANCELLED \<and> inRange r (i_issueDate x)) (invoices db)"

definition taxSummaryOf :: "id \<Rightarrow> date_range \<Rightarrow> 'z sales_scheme \<Rightarrow> payroll_run list \<Rightarrow> pnl_data \<Rightarrow> tax_summary" where
  "taxSummaryOf c r db runRows pnl =
     (let invoicesForTaxes = taxableInvoices c r db;
          runs = filter (\<lambda>x. run_companyId x = c \<and> inRange r (run_payDate x)) runRows;
          vatCollected = sumColumn i_vat invoicesForTaxes;
          cas = sumColumn run_totalCas runs; cass = sumColumn run_totalCass runs;
          cam = sumColumn run_totalCam runs; tax = sumColumn run_totalTax runs;
          estimatedProfitTax = round2 (fmul (max (pl_netProfit pnl) 0) (fl (16 / 100)))
      in \<lparr> tax_taxableSales = sumColumn i_subtotal invoicesForTaxes, tax_vatCollected = vatCollected,
           tax_payrollCas = cas, tax_payrollCass = cass, tax_payrollCam = cam, tax_payrollTax = tax,
           tax_estimatedProfitTax = estimatedProfitTax,
           tax_totalFiscalLiabilities = round2 (fadd (fadd (fadd (fadd (fadd vatCollected cas) cass) cam) tax) estimatedProfitTax) \<rparr>)"

section \<open>The bundle\<close>

record statement_bundle =
  sb_trialRows :: "trial_row list"
  sb_trialTotals :: "double \<times> double"
  sb_pnl :: pnl_data
  sb_balanceSheet :: balance_sheet
  sb_aging :: "aging_buckets \<times> receivable_row list"
  sb_taxSummary :: tax_summary

definition computeStatements ::
  "(string \<Rightarrow> nat) \<Rightarrow> id \<Rightarrow> date_range \<Rightarrow> date \<Rightarrow> 'z sales_scheme \<Rightarrow> payroll_run list \<Rightarrow> statement_bundle" where
  "computeStatements collate c r t db runRows =
     (let rows = trialRows collate (withAccounts db (journalLines c r db)); s = statementSums rows; pnl = pnlOf s
      in \<lparr> sb_trialRows = rows, sb_trialTotals = trialTotals rows, sb_pnl = pnl, sb_balanceSheet = balanceSheetOf s,
           sb_aging = computeAging c r t db, sb_taxSummary = taxSummaryOf c r db runRows pnl \<rparr>)"

end
