(* ===== verification/StatementGuarantees.thy ===== *)
theory StatementGuarantees
  imports FinancialStatements LedgerHistory
begin

text \<open>
  The financial statements compute, through rounded sums of doubles, exactly what integer sums in cents
  give; a ledger without drafts satisfies the accounting equation; drafts are in the statements too.
\<close>

section \<open>The exact statements\<close>

record exact_row =
  xr_accountId :: id
  xr_code :: string
  xr_name :: string
  xr_type :: AccountType
  xr_debit :: int
  xr_credit :: int

definition inCents :: "exact_row \<Rightarrow> trial_row" where
  "inCents x = \<lparr> tb_accountId = xr_accountId x, tb_code = xr_code x, tb_name = xr_name x, tb_type = xr_type x,
     tb_debit = cents (xr_debit x), tb_credit = cents (xr_credit x) \<rparr>"

fun addExact :: "journal_line \<times> account \<Rightarrow> exact_row list \<Rightarrow> exact_row list" where
  "addExact (l, a) [] = [\<lparr> xr_accountId = jl_accountId l, xr_code = a_code a, xr_name = a_name a, xr_type = a_type a,
     xr_debit = jl_debit l, xr_credit = jl_credit l \<rparr>]"
| "addExact (l, a) (x # xs) =
     (if xr_accountId x = jl_accountId l
      then x\<lparr>xr_debit := xr_debit x + jl_debit l, xr_credit := xr_credit x + jl_credit l\<rparr> # xs
      else x # addExact (l, a) xs)"

definition exactRows :: "(journal_line \<times> account) list \<Rightarrow> exact_row list" where
  "exactRows ls = foldl (\<lambda>rows x. addExact x rows) [] ls"

definition lineSize :: "journal_line \<Rightarrow> int" where
  "lineSize l = \<bar>jl_debit l\<bar> + \<bar>jl_credit l\<bar>"

definition rowsSize :: "exact_row list \<Rightarrow> int" where
  "rowsSize xs = (\<Sum>x\<leftarrow>xs. \<bar>xr_debit x\<bar> + \<bar>xr_credit x\<bar>)"

lemma rowsSize_simps [simp]: "rowsSize [] = 0" "rowsSize (x # xs) = \<bar>xr_debit x\<bar> + \<bar>xr_credit x\<bar> + rowsSize xs"
  by (simp_all add: rowsSize_def)

lemma rowsSize_nonneg: "0 \<le> rowsSize xs"
  by (induction xs) auto

lemma addExact_size: "rowsSize (addExact (l, a) xs) \<le> rowsSize xs + lineSize l"
  by (induction xs) (auto simp: lineSize_def)

lemma exactRows_snoc: "exactRows (ls @ [x]) = addExact x (exactRows ls)"
  by (simp add: exactRows_def)

lemma exactRows_size: "rowsSize (exactRows ls) \<le> (\<Sum>x\<leftarrow>ls. lineSize (fst x))"
proof (induction ls rule: rev_induct)
  case (snoc x ls)
  then show ?case using addExact_size[of "fst x" "snd x" "exactRows ls"] by (simp add: exactRows_snoc)
qed (simp add: exactRows_def)

lemma addLine_exact:
  assumes "rowsSize xs + lineSize l \<le> 2 ^ 44"
  shows "addLine (l, a) (map inCents xs) = map inCents (addExact (l, a) xs)"
  using assms
proof (induction xs)
  case Nil
  have "round2 (fadd 0 (cents n)) = cents n" if "\<bar>n\<bar> \<le> 2 ^ 44" for n using round2_add[of 0 n] that by simp
  then show ?case using Nil by (simp add: inCents_def addAmounts_def lineSize_def)
next
  case (Cons x xs)
  have b: "\<bar>xr_debit x\<bar> \<le> 2 ^ 44" "\<bar>jl_debit l\<bar> \<le> 2 ^ 44" "\<bar>xr_credit x\<bar> \<le> 2 ^ 44" "\<bar>jl_credit l\<bar> \<le> 2 ^ 44"
    using Cons.prems rowsSize_nonneg[of xs] by (simp_all add: lineSize_def)
  show ?case
  proof (cases "xr_accountId x = jl_accountId l")
    case True then show ?thesis using b by (simp add: inCents_def addAmounts_def round2_add)
  next
    case False
    have "rowsSize xs + lineSize l \<le> 2 ^ 44" using Cons.prems by simp
    then show ?thesis using Cons.IH False by (simp add: inCents_def)
  qed
qed

lemma fold_exact:
  assumes "(\<Sum>x\<leftarrow>ls. lineSize (fst x)) \<le> 2 ^ 44"
  shows "foldl (\<lambda>rows x. addLine x rows) [] ls = map inCents (exactRows ls)"
  using assms
proof (induction ls rule: rev_induct)
  case (snoc x ls)
  obtain l a where x: "x = (l, a)" by fastforce
  have nn: "0 \<le> lineSize l" by (simp add: lineSize_def)
  then have "foldl (\<lambda>rows x. addLine x rows) [] ls = map inCents (exactRows ls)" using snoc by (simp add: x)
  moreover have "rowsSize (exactRows ls) + lineSize l \<le> 2 ^ 44" using snoc.prems exactRows_size[of ls] by (simp add: x)
  ultimately show ?case by (simp add: x exactRows_snoc addLine_exact)
qed (simp add: exactRows_def)

lemma insort_map: "insort_key f (g x) (map g xs) = map g (insort_key (\<lambda>x. f (g x)) x xs)"
  by (induction xs) auto

lemma sort_map: "sort_key f (map g xs) = map g (sort_key (\<lambda>x. f (g x)) xs)"
  by (induction xs) (auto simp: sort_key_def insort_map)

definition exactSorted :: "(string \<Rightarrow> nat) \<Rightarrow> (journal_line \<times> account) list \<Rightarrow> exact_row list" where
  "exactSorted collate ls = sort_key (\<lambda>x. collate (xr_code x)) (exactRows ls)"

lemma trialRows_exact:
  "(\<Sum>x\<leftarrow>ls. lineSize (fst x)) \<le> 2 ^ 44 \<Longrightarrow> trialRows collate ls = map inCents (exactSorted collate ls)"
  by (simp add: trialRows_def fold_exact sort_map exactSorted_def) (simp add: inCents_def)

section \<open>Sums over the rows\<close>

lemma sum_list_insort: "(\<Sum>x\<leftarrow>insort_key k y xs. f x) = f y + (\<Sum>x\<leftarrow>xs. f x :: int)"
  by (induction xs) auto

lemma sum_list_sort: "(\<Sum>x\<leftarrow>sort_key k xs. f x) = (\<Sum>x\<leftarrow>xs. f x :: int)"
  by (induction xs) (auto simp: sort_key_def sum_list_insort)

lemma rowsSize_sort: "rowsSize (exactSorted collate ls) = rowsSize (exactRows ls)"
  by (simp add: rowsSize_def exactSorted_def sum_list_sort)

lemma totals_exact:
  assumes "\<bar>d\<bar> + \<bar>c\<bar> + rowsSize xs \<le> 2 ^ 44"
  shows "foldl (\<lambda>(d, c) row. (round2 (fadd d (tb_debit row)), round2 (fadd c (tb_credit row)))) (cents d, cents c) (map inCents xs) =
    (cents (d + (\<Sum>x\<leftarrow>xs. xr_debit x)), cents (c + (\<Sum>x\<leftarrow>xs. xr_credit x)))"
  using assms
proof (induction xs arbitrary: d c)
  case (Cons x xs)
  have b: "\<bar>d\<bar> \<le> 2 ^ 44" "\<bar>c\<bar> \<le> 2 ^ 44" "\<bar>xr_debit x\<bar> \<le> 2 ^ 44" "\<bar>xr_credit x\<bar> \<le> 2 ^ 44"
    "\<bar>d + xr_debit x\<bar> + \<bar>c + xr_credit x\<bar> + rowsSize xs \<le> 2 ^ 44"
    using Cons.prems rowsSize_nonneg[of xs] by simp_all
  have "round2 (fadd (cents d) (cents (xr_debit x))) = cents (d + xr_debit x)"
    "round2 (fadd (cents c) (cents (xr_credit x))) = cents (c + xr_credit x)" using b by (simp_all add: round2_add)
  then show ?case using Cons.IH[OF b(5)] by (simp add: inCents_def add.assoc)
qed simp

text \<open>\<open>round2(total + (a - b))\<close>: the difference is not rounded before it is added.\<close>

lemma round2_add_difference:
  assumes "\<bar>t\<bar> + \<bar>m\<bar> + \<bar>n\<bar> \<le> 2 ^ 44"
  shows "round2 (fadd (cents t) (fsub (cents m) (cents n))) = cents (t + m - n)"
proof (rule round2_near)
  define y where "y = cents t + fsub (cents m) (cents n)"
  have t: "\<bar>100 * cents t - of_int t\<bar> \<le> 1/20" using cent.grid_close_44[of t] assms by simp
  have d: "\<bar>100 * fsub (cents m) (cents n) - of_int (m - n)\<bar> \<le> 1/5" using cent.fsub_grid_close[of m n] assms by simp
  have y: "\<bar>100 * y - of_int (t + m - n)\<bar> \<le> 1/4" using t d unfolding y_def abs_le_iff by simp
  have n: "\<bar>of_int (t + m - n) :: rat\<bar> \<le> 2 ^ 44"
  proof -
    have "\<bar>t + m - n\<bar> \<le> 2 ^ 44" using assms by linarith
    then show ?thesis by (metis of_int_abs of_int_le_iff of_int_numeral of_int_power)
  qed
  have "\<bar>y\<bar> \<le> 2 ^ 38" using y n unfolding abs_le_iff by simp
  then have "\<bar>y\<bar> / 2 ^ 53 + 1 / 2 ^ 1000 \<le> 2 ^ 38 / 2 ^ 53 + 1 / 2 ^ 1000" by (intro add_right_mono divide_right_mono) simp_all
  also have "\<dots> \<le> 1 / 10000" by simp
  finally have "\<bar>fl y - y\<bar> \<le> 1 / 10000" using fl_err[of y] by linarith
  then have "\<bar>100 * fl y - of_int (t + m - n)\<bar> \<le> 2/5" using y unfolding abs_le_iff by linarith
  then show "\<bar>of_int 100 * fadd (cents t) (fsub (cents m) (cents n)) - of_int (t + m - n)\<bar> \<le> 2/5"
    by (simp add: fadd_def y_def)
qed (use assms in simp)

text \<open>The sums by type of account.\<close>

definition netOf :: "AccountType \<Rightarrow> exact_row list \<Rightarrow> int" where
  "netOf t xs = (\<Sum>x\<leftarrow>xs. if xr_type x = t then xr_debit x - xr_credit x else 0)"

lemma netOf_simps [simp]: "netOf t [] = 0"
  "netOf t (x # xs) = (if xr_type x = t then xr_debit x - xr_credit x else 0) + netOf t xs"
  by (simp_all add: netOf_def)

lemma netOf_size: "\<bar>netOf t xs\<bar> \<le> rowsSize xs"
  by (induction xs) auto

definition sumsInCents :: "int \<Rightarrow> int \<Rightarrow> int \<Rightarrow> int \<Rightarrow> int \<Rightarrow> statement_sums" where
  "sumsInCents r e a l q = \<lparr> ss_revenues = cents r, ss_expenses = cents e, ss_assets = cents a,
     ss_liabilities = cents l, ss_equity = cents q \<rparr>"

lemma addRow_exact:
  assumes b: "\<bar>r\<bar> + \<bar>e\<bar> + \<bar>a\<bar> + \<bar>l\<bar> + \<bar>q\<bar> + \<bar>xr_debit x\<bar> + \<bar>xr_credit x\<bar> \<le> 2 ^ 44"
  defines "n \<equiv> xr_debit x - xr_credit x" and "k t v \<equiv> if xr_type x = t then v else (0 :: int)"
  shows "addRow (inCents x) (sumsInCents r e a l q) =
    sumsInCents (r - k REVENUE n) (e + k EXPENSE n) (a + k ASSET n) (l - k LIABILITY n) (q - k EQUITY n)"
proof -
  have gen: "D + C \<le> B" "R + C + D \<le> B" "E + D + C \<le> B" "A \<le> B" "L \<le> B" "Q \<le> B" "D \<le> B" "C \<le> B" "R \<le> B" "E \<le> B"
    if "R + E + A + L + Q + D + C \<le> B" "0 \<le> R" "0 \<le> E" "0 \<le> A" "0 \<le> L" "0 \<le> Q" "0 \<le> D" "0 \<le> C"
    for R E A L Q D C B :: int using that by linarith+
  note n = gen[OF b abs_ge_zero abs_ge_zero abs_ge_zero abs_ge_zero abs_ge_zero abs_ge_zero abs_ge_zero]
  have nn: "\<bar>n\<bar> \<le> 2 ^ 44" unfolding n_def by (rule order_trans[OF abs_triangle_ineq4 n(1)])
  have bal: "round2 (fsub (cents (xr_debit x)) (cents (xr_credit x))) = cents n"
    using round2_add[of "xr_debit x" "- xr_credit x"] n(7,8) by (simp add: fsub_cents n_def)
  have add: "round2 (fadd (cents m) (cents n)) = cents (m + n)" if "\<bar>m\<bar> \<le> 2 ^ 44" for m
    using that nn by (simp add: round2_add)
  have sub: "round2 (fsub (cents m) (cents n)) = cents (m - n)" if "\<bar>m\<bar> \<le> 2 ^ 44" for m
    using that nn round2_add[of m "- n"] by (simp add: fsub_cents)
  have rev: "round2 (fadd (cents r) (fsub (cents (xr_credit x)) (cents (xr_debit x)))) = cents (r - n)"
    using round2_add_difference[OF n(2)] by (simp add: n_def algebra_simps)
  have exp: "round2 (fadd (cents e) (fsub (cents (xr_debit x)) (cents (xr_credit x)))) = cents (e + n)"
    using round2_add_difference[OF n(3)] by (simp add: n_def algebra_simps)
  show ?thesis
    by (cases "xr_type x") (simp_all add: addRow_def inCents_def sumsInCents_def k_def bal rev exp add[OF n(4)] sub[OF n(5)] sub[OF n(6)])
qed

lemma statementSums_fold:
  assumes "\<bar>r\<bar> + \<bar>e\<bar> + \<bar>a\<bar> + \<bar>l\<bar> + \<bar>q\<bar> + rowsSize xs \<le> 2 ^ 44"
  shows "foldl (\<lambda>s row. addRow row s) (sumsInCents r e a l q) (map inCents xs) =
    sumsInCents (r - netOf REVENUE xs) (e + netOf EXPENSE xs) (a + netOf ASSET xs) (l - netOf LIABILITY xs) (q - netOf EQUITY xs)"
  using assms
proof (induction xs arbitrary: r e a l q)
  case (Cons x xs)
  have b: "\<bar>r\<bar> + \<bar>e\<bar> + \<bar>a\<bar> + \<bar>l\<bar> + \<bar>q\<bar> + \<bar>xr_debit x\<bar> + \<bar>xr_credit x\<bar> \<le> 2 ^ 44"
    using Cons.prems rowsSize_nonneg[of xs] by simp
  define k where "k t = (if xr_type x = t then xr_debit x - xr_credit x else 0)" for t
  have size: "\<bar>k REVENUE\<bar> + \<bar>k EXPENSE\<bar> + \<bar>k ASSET\<bar> + \<bar>k LIABILITY\<bar> + \<bar>k EQUITY\<bar> \<le> \<bar>xr_debit x\<bar> + \<bar>xr_credit x\<bar>"
    using abs_triangle_ineq4[of "xr_debit x" "xr_credit x"] by (cases "xr_type x") (simp_all add: k_def)
  have gen: "r1 + e1 + a1 + l1 + q1 + z \<le> B"
    if "r1 \<le> r0 + v1" "e1 \<le> e0 + v2" "a1 \<le> a0 + v3" "l1 \<le> l0 + v4" "q1 \<le> q0 + v5"
      "v1 + v2 + v3 + v4 + v5 \<le> v" "r0 + e0 + a0 + l0 + q0 + (v + z) \<le> B"
    for r1 e1 a1 l1 q1 r0 e0 a0 l0 q0 v1 v2 v3 v4 v5 v z B :: int using that by linarith
  have "\<bar>r - k REVENUE\<bar> + \<bar>e + k EXPENSE\<bar> + \<bar>a + k ASSET\<bar> + \<bar>l - k LIABILITY\<bar> + \<bar>q - k EQUITY\<bar> + rowsSize xs \<le> 2 ^ 44"
    by (rule gen[OF abs_triangle_ineq4 abs_triangle_ineq abs_triangle_ineq abs_triangle_ineq4 abs_triangle_ineq4 size])
      (use Cons.prems in \<open>simp only: rowsSize_simps add.assoc\<close>)
  note ih = Cons.IH[OF this]
  show ?case by (simp add: addRow_exact[OF b] k_def[symmetric] ih) (simp add: k_def algebra_simps)
qed simp

section \<open>Rows and lines\<close>

lemma addExact_keys:
  "distinct (map xr_accountId xs) \<Longrightarrow> distinct (map xr_accountId (addExact (l, a) xs)) \<and>
     set (map xr_accountId (addExact (l, a) xs)) = insert (jl_accountId l) (set (map xr_accountId xs))"
  by (induction xs) auto

lemma exactRows_keys:
  "distinct (map xr_accountId (exactRows ls)) \<and> set (map xr_accountId (exactRows ls)) = (\<lambda>x. jl_accountId (fst x)) ` set ls"
proof (induction ls rule: rev_induct)
  case (snoc x ls)
  then show ?case using addExact_keys[of "exactRows ls" "fst x" "snd x"] by (auto simp: exactRows_snoc)
qed (simp add: exactRows_def)

text \<open>A sum over the rows that adds up over the lines: any linear reading of the two amounts.\<close>

definition rowSum :: "(exact_row \<Rightarrow> bool) \<Rightarrow> int \<Rightarrow> int \<Rightarrow> exact_row list \<Rightarrow> int" where
  "rowSum P u v xs = (\<Sum>x\<leftarrow>xs. if P x then u * xr_debit x + v * xr_credit x else 0)"

definition lineSum :: "(journal_line \<times> account \<Rightarrow> bool) \<Rightarrow> int \<Rightarrow> int \<Rightarrow> (journal_line \<times> account) list \<Rightarrow> int" where
  "lineSum P u v ls = (\<Sum>x\<leftarrow>ls. if P x then u * jl_debit (fst x) + v * jl_credit (fst x) else 0)"

lemma rowSum_addExact:
  assumes "\<And>x y. xr_accountId x = xr_accountId y \<Longrightarrow> xr_type x = xr_type y \<Longrightarrow> P x = P y"
    and "\<forall>x \<in> set xs. xr_accountId x = jl_accountId l \<longrightarrow> xr_type x = a_type a"
    and "Q = P \<lparr> xr_accountId = jl_accountId l, xr_code = a_code a, xr_name = a_name a, xr_type = a_type a, xr_debit = 0, xr_credit = 0 \<rparr>"
  shows "rowSum P u v (addExact (l, a) xs) = rowSum P u v xs + (if Q then u * jl_debit l + v * jl_credit l else 0)"
  using assms(2)
proof (induction xs)
  case Nil
  have "P \<lparr> xr_accountId = jl_accountId l, xr_code = a_code a, xr_name = a_name a, xr_type = a_type a,
    xr_debit = jl_debit l, xr_credit = jl_credit l \<rparr> = Q" unfolding assms(3) by (rule assms(1)) simp_all
  then show ?case by (simp add: rowSum_def)
next
  case (Cons x xs)
  have upd: "P (x\<lparr>xr_debit := d, xr_credit := c\<rparr>) = P x" for d c by (rule assms(1)) simp_all
  have "P x = Q" if "xr_accountId x = jl_accountId l" unfolding assms(3) by (rule assms(1)) (use that Cons.prems in simp_all)
  then show ?case using Cons by (auto simp: rowSum_def upd algebra_simps)
qed

lemma addExact_types:
  "\<forall>y \<in> set xs. xr_type y = F (xr_accountId y) \<Longrightarrow> a_type a = F (jl_accountId l) \<Longrightarrow>
     \<forall>y \<in> set (addExact (l, a) xs). xr_type y = F (xr_accountId y)"
  by (induction xs) auto

lemma exactRows_types:
  assumes "\<forall>x \<in> set ls. a_type (snd x) = F (jl_accountId (fst x))"
  shows "\<forall>x \<in> set (exactRows ls). xr_type x = F (xr_accountId x)"
  using assms
proof (induction ls rule: rev_induct)
  case (snoc x ls)
  obtain l a where x: "x = (l, a)" by fastforce
  have "\<forall>y \<in> set (exactRows ls). xr_type y = F (xr_accountId y)" "a_type a = F (jl_accountId l)"
    using snoc by (simp_all add: x)
  then show ?case unfolding x exactRows_snoc by (rule addExact_types)
qed (simp add: exactRows_def)

lemma rowSum_exactRows:
  assumes "\<And>x y. xr_accountId x = xr_accountId y \<Longrightarrow> xr_type x = xr_type y \<Longrightarrow> P x = P y"
    and ty: "\<forall>x \<in> set ls. a_type (snd x) = F (jl_accountId (fst x))"
    and "\<And>l a. Q (l, a) = P \<lparr> xr_accountId = jl_accountId l, xr_code = a_code a, xr_name = a_name a, xr_type = a_type a, xr_debit = 0, xr_credit = 0 \<rparr>"
  shows "rowSum P u v (exactRows ls) = lineSum Q u v ls"
  using ty
proof (induction ls rule: rev_induct)
  case (snoc x ls)
  obtain l a where x: "x = (l, a)" by fastforce
  have "rowSum P u v (addExact (l, a) (exactRows ls)) = rowSum P u v (exactRows ls) + (if Q (l, a) then u * jl_debit l + v * jl_credit l else 0)"
  proof (rule rowSum_addExact[OF assms(1)])
    have "\<forall>y \<in> set (exactRows ls). xr_type y = F (xr_accountId y)" by (rule exactRows_types) (use snoc.prems in simp)
    then show "\<forall>y \<in> set (exactRows ls). xr_accountId y = jl_accountId l \<longrightarrow> xr_type y = a_type a"
      using snoc.prems by (simp add: x)
  qed (simp_all add: assms(3))
  then show ?case using snoc by (simp add: x exactRows_snoc lineSum_def)
qed (simp add: exactRows_def rowSum_def lineSum_def)

lemma amounts_of_key:
  assumes "distinct (map xr_accountId xs)" "x \<in> set xs"
  shows "rowSum (\<lambda>y. xr_accountId y = xr_accountId x) u v xs = u * xr_debit x + v * xr_credit x"
  using assms
proof (induction xs)
  case (Cons y xs)
  have none: "rowSum (\<lambda>y. xr_accountId y = i) u v zs = 0" if "i \<notin> set (map xr_accountId zs)" for i zs
    using that by (induction zs) (auto simp: rowSum_def)
  show ?case
  proof (cases "x = y")
    case True then show ?thesis using Cons.prems none[of "xr_accountId x" xs] by (simp add: rowSum_def)
  next
    case False then show ?thesis using Cons by (auto simp: rowSum_def)
  qed
qed simp

lemma withAccounts_lines:
  "\<forall>l \<in> set ls. accountOf (jl_accountId l) db \<noteq> None \<Longrightarrow> map fst (withAccounts db ls) = ls"
  by (induction ls) (auto simp: withAccounts_def map_filter_simps)

lemma withAccounts_set: "x \<in> set (withAccounts db ls) \<Longrightarrow> accountOf (jl_accountId (fst x)) db = Some (snd x)"
  by (induction ls) (auto simp: withAccounts_def map_filter_simps split: option.splits)

section \<open>The statements of a ledger\<close>

definition hasType :: "'z ledger_scheme \<Rightarrow> AccountType \<Rightarrow> journal_line \<Rightarrow> bool" where
  "hasType db t l \<longleftrightarrow> map_option a_type (accountOf (jl_accountId l) db) = Some t"

text \<open>Debits less credits of the lines on accounts of one type, in cents; and the debits and credits of one account.\<close>

definition netByType :: "'z ledger_scheme \<Rightarrow> AccountType \<Rightarrow> journal_line list \<Rightarrow> int" where
  "netByType db t ls = (\<Sum>l\<leftarrow>ls. if hasType db t l then jl_debit l - jl_credit l else 0)"

definition onAccount :: "id \<Rightarrow> journal_line list \<Rightarrow> journal_line list" where
  "onAccount i ls = filter (\<lambda>l. jl_accountId l = i) ls"

lemma withAccounts_sum:
  assumes fk: "\<forall>l \<in> set ls. accountOf (jl_accountId l) db \<noteq> None"
  shows "(\<Sum>x\<leftarrow>withAccounts db ls. f (fst x)) = (\<Sum>l\<leftarrow>ls. f l :: int)"
proof -
  have "(\<Sum>x\<leftarrow>withAccounts db ls. f (fst x)) = (\<Sum>l\<leftarrow>map fst (withAccounts db ls). f l)" by (simp add: comp_def)
  then show ?thesis by (simp only: withAccounts_lines[OF fk])
qed

lemma withAccounts_typed:
  "\<forall>x \<in> set (withAccounts db ls). a_type (snd x) = (\<lambda>i. a_type (the (accountOf i db))) (jl_accountId (fst x))"
  using withAccounts_set by fastforce

lemma netOf_rows:
  assumes fk: "\<forall>l \<in> set ls. accountOf (jl_accountId l) db \<noteq> None"
  shows "netOf t (exactSorted collate (withAccounts db ls)) = netByType db t ls"
proof -
  let ?L = "withAccounts db ls"
  have "netOf t (exactSorted collate ?L) = netOf t (exactRows ?L)" by (simp add: netOf_def exactSorted_def sum_list_sort)
  also have "\<dots> = rowSum (\<lambda>x. xr_type x = t) 1 (- 1) (exactRows ?L)" by (simp add: netOf_def rowSum_def cong: if_cong)
  also have "\<dots> = lineSum (\<lambda>x. a_type (snd x) = t) 1 (- 1) ?L" by (rule rowSum_exactRows[OF _ withAccounts_typed]) simp_all
  also have "\<dots> = (\<Sum>x\<leftarrow>?L. if hasType db t (fst x) then jl_debit (fst x) - jl_credit (fst x) else 0)"
    unfolding lineSum_def by (rule arg_cong[where f = sum_list], rule map_cong[OF refl])
      (use withAccounts_set in \<open>fastforce simp: hasType_def\<close>)
  also have "\<dots> = netByType db t ls" unfolding netByType_def by (rule withAccounts_sum[OF fk])
  finally show ?thesis .
qed

lemma amounts_rows:
  assumes fk: "\<forall>l \<in> set ls. accountOf (jl_accountId l) db \<noteq> None"
  shows "(\<Sum>x\<leftarrow>exactSorted collate (withAccounts db ls). xr_debit x) = debits ls"
    "(\<Sum>x\<leftarrow>exactSorted collate (withAccounts db ls). xr_credit x) = credits ls"
proof -
  let ?L = "withAccounts db ls"
  have s: "rowSum (\<lambda>x. True) u v (exactRows ?L) = lineSum (\<lambda>x. True) u v ?L" for u v
    by (rule rowSum_exactRows[OF _ withAccounts_typed]) simp_all
  show "(\<Sum>x\<leftarrow>exactSorted collate ?L. xr_debit x) = debits ls"
    using s[of 1 0] withAccounts_sum[OF fk, of jl_debit] by (simp add: rowSum_def lineSum_def exactSorted_def sum_list_sort debits_def)
  show "(\<Sum>x\<leftarrow>exactSorted collate ?L. xr_credit x) = credits ls"
    using s[of 0 1] withAccounts_sum[OF fk, of jl_credit] by (simp add: rowSum_def lineSum_def exactSorted_def sum_list_sort credits_def)
qed

lemma onAccount_sums:
  "debits (onAccount i ls) = (\<Sum>l\<leftarrow>ls. if jl_accountId l = i then jl_debit l else 0)"
  "credits (onAccount i ls) = (\<Sum>l\<leftarrow>ls. if jl_accountId l = i then jl_credit l else 0)"
  by (induction ls) (simp_all add: onAccount_def debits_def credits_def)

lemma row_amounts:
  assumes fk: "\<forall>l \<in> set ls. accountOf (jl_accountId l) db \<noteq> None"
    and x: "x \<in> set (exactSorted collate (withAccounts db ls))"
  shows "xr_debit x = debits (onAccount (xr_accountId x) ls)" "xr_credit x = credits (onAccount (xr_accountId x) ls)"
proof -
  let ?L = "withAccounts db ls"
  let ?P = "\<lambda>y. xr_accountId y = xr_accountId x"
  have x': "x \<in> set (exactRows ?L)" using x by (simp add: exactSorted_def)
  have s: "rowSum ?P u v (exactRows ?L) = lineSum (\<lambda>y. jl_accountId (fst y) = xr_accountId x) u v ?L" for u v
    by (rule rowSum_exactRows[OF _ withAccounts_typed]) simp_all
  note a = amounts_of_key[OF conjunct1[OF exactRows_keys] x']
  show "xr_debit x = debits (onAccount (xr_accountId x) ls)"
    using s[of 1 0] a[of 1 0] withAccounts_sum[OF fk, of "\<lambda>l. if jl_accountId l = xr_accountId x then jl_debit l else 0"]
    by (simp add: lineSum_def onAccount_sums cong: if_cong)
  show "xr_credit x = credits (onAccount (xr_accountId x) ls)"
    using s[of 0 1] a[of 0 1] withAccounts_sum[OF fk, of "\<lambda>l. if jl_accountId l = xr_accountId x then jl_credit l else 0"]
    by (simp add: lineSum_def onAccount_sums cong: if_cong)
qed

section \<open>Properties\<close>

text \<open>The bundle of a ledger, part by part.\<close>

lemma rows_in_cents:
  fixes collate :: "string \<Rightarrow> nat" and db :: "'z ledger_scheme"
  assumes fk: "\<forall>l \<in> set (journalLines c r db). accountOf (jl_accountId l) db \<noteq> None"
    and size: "(\<Sum>l\<leftarrow>journalLines c r db. lineSize l) \<le> 2 ^ 44"
  defines "xs \<equiv> exactSorted collate (withAccounts db (journalLines c r db))"
  shows "trialRows collate (withAccounts db (journalLines c r db)) = map inCents xs" "rowsSize xs \<le> 2 ^ 44"
proof -
  let ?L = "withAccounts db (journalLines c r db)"
  have sz: "(\<Sum>x\<leftarrow>?L. lineSize (fst x)) \<le> 2 ^ 44" using size unfolding withAccounts_sum[OF fk] .
  show "trialRows collate ?L = map inCents xs" unfolding xs_def by (rule trialRows_exact[OF sz])
  show "rowsSize xs \<le> 2 ^ 44" unfolding xs_def rowsSize_sort by (rule order_trans[OF exactRows_size sz])
qed

lemma trial_in_cents:
  fixes collate :: "string \<Rightarrow> nat" and db :: "'z ledger_scheme"
  assumes fk: "\<forall>l \<in> set (journalLines c r db). accountOf (jl_accountId l) db \<noteq> None"
    and size: "(\<Sum>l\<leftarrow>journalLines c r db. lineSize l) \<le> 2 ^ 44"
  defines "ls \<equiv> journalLines c r db" and "rows \<equiv> trialRows collate (withAccounts db (journalLines c r db))"
  shows "distinct (map tb_accountId rows)" "tb_accountId ` set rows = jl_accountId ` set ls"
    "\<forall>row \<in> set rows. tb_debit row = cents (debits (onAccount (tb_accountId row) ls)) \<and>
      tb_credit row = cents (credits (onAccount (tb_accountId row) ls))"
    "trialTotals rows = (cents (debits ls), cents (credits ls))"
proof -
  let ?L = "withAccounts db ls"
  let ?xs = "exactSorted collate ?L"
  note fk' = fk[folded ls_def]
  have rows: "rows = map inCents ?xs" and rs: "rowsSize ?xs \<le> 2 ^ 44"
    unfolding rows_def ls_def by (rule rows_in_cents[OF fk size])+
  have "distinct (map xr_accountId (exactRows ?L))" "xr_accountId ` set (exactRows ?L) = jl_accountId ` fst ` set ?L"
    using exactRows_keys[of ?L] by (simp_all add: image_image)
  moreover have "fst ` set ?L = set ls" using withAccounts_lines[OF fk'] by (metis set_map)
  ultimately show "distinct (map tb_accountId rows)" "tb_accountId ` set rows = jl_accountId ` set ls"
    unfolding rows by (simp_all add: exactSorted_def distinct_map image_image inj_on_def) (auto simp: inCents_def)
  show "\<forall>row \<in> set rows. tb_debit row = cents (debits (onAccount (tb_accountId row) ls)) \<and>
      tb_credit row = cents (credits (onAccount (tb_accountId row) ls))"
    using row_amounts[OF fk'] by (auto simp: rows inCents_def)
  show "trialTotals rows = (cents (debits ls), cents (credits ls))"
    using totals_exact[of 0 0 ?xs] rs by (simp add: rows trialTotals_def amounts_rows[OF fk'])
qed

lemma netByType_size: "\<bar>netByType db ty ls\<bar> \<le> (\<Sum>l\<leftarrow>ls. lineSize l)"
  by (induction ls) (auto simp: netByType_def lineSize_def)

lemma results_in_cents:
  fixes collate :: "string \<Rightarrow> nat" and db :: "'z ledger_scheme"
  assumes fk: "\<forall>l \<in> set (journalLines c r db). accountOf (jl_accountId l) db \<noteq> None"
    and size: "(\<Sum>l\<leftarrow>journalLines c r db. lineSize l) \<le> 2 ^ 44"
  defines "s \<equiv> statementSums (trialRows collate (withAccounts db (journalLines c r db)))"
    and "N \<equiv> \<lambda>ty. netByType db ty (journalLines c r db)"
  shows "pnlOf s = \<lparr> pl_revenues = cents (- N REVENUE), pl_expenses = cents (N EXPENSE), pl_netProfit = cents (- N REVENUE - N EXPENSE) \<rparr>"
    "balanceSheetOf s = \<lparr> sh_assets = cents (N ASSET), sh_liabilities = cents (- N LIABILITY), sh_equity = cents (- N EQUITY),
       sh_liabilitiesAndEquity = cents (- N LIABILITY - N EQUITY) \<rparr>"
proof -
  let ?xs = "exactSorted collate (withAccounts db (journalLines c r db))"
  have net: "netOf ty ?xs = N ty" for ty unfolding N_def by (rule netOf_rows[OF fk])
  have s: "s = sumsInCents (- N REVENUE) (N EXPENSE) (N ASSET) (- N LIABILITY) (- N EQUITY)"
    using statementSums_fold[of 0 0 0 0 0 ?xs] rows_in_cents(2)[OF fk size]
    unfolding s_def rows_in_cents(1)[OF fk size] statementSums_def by (simp add: sumsInCents_def net)
  have n: "\<bar>N ty\<bar> \<le> 2 ^ 44" for ty unfolding N_def by (rule order_trans[OF netByType_size size])
  show "pnlOf s = \<lparr> pl_revenues = cents (- N REVENUE), pl_expenses = cents (N EXPENSE), pl_netProfit = cents (- N REVENUE - N EXPENSE) \<rparr>"
    using round2_add[of "- N REVENUE" "- N EXPENSE"] n by (simp add: s pnlOf_def sumsInCents_def fsub_cents)
  show "balanceSheetOf s = \<lparr> sh_assets = cents (N ASSET), sh_liabilities = cents (- N LIABILITY), sh_equity = cents (- N EQUITY),
       sh_liabilitiesAndEquity = cents (- N LIABILITY - N EQUITY) \<rparr>"
    using round2_add[of "- N LIABILITY" "- N EQUITY"] n by (simp add: s balanceSheetOf_def sumsInCents_def)
qed

text \<open>C32: The statements are exact. Whatever the order in which the lines come back, the rounded sums of doubles
  give in cents what integers would: one trial row per account that has lines, with its debits and credits; the
  totals; revenues, expenses and net profit; assets, liabilities and equity. It holds for lines whose amounts
  sum to at most 2^44 cents.\<close>

theorem statements_exact:
  fixes db :: "'z sales_scheme"
  assumes fk: "\<forall>l \<in> set (journalLines c r db). accountOf (jl_accountId l) db \<noteq> None"
    and size: "(\<Sum>l\<leftarrow>journalLines c r db. lineSize l) \<le> 2 ^ 44"
  shows "let ls = journalLines c r db; b = computeStatements collate c r t db runRows;
      N = (\<lambda>ty. netByType db ty ls)
    in distinct (map tb_accountId (sb_trialRows b)) \<and> tb_accountId ` set (sb_trialRows b) = jl_accountId ` set ls \<and>
      (\<forall>row \<in> set (sb_trialRows b). tb_debit row = cents (debits (onAccount (tb_accountId row) ls)) \<and>
        tb_credit row = cents (credits (onAccount (tb_accountId row) ls))) \<and>
      sb_trialTotals b = (cents (debits ls), cents (credits ls)) \<and>
      sb_pnl b = \<lparr> pl_revenues = cents (- N REVENUE), pl_expenses = cents (N EXPENSE),
        pl_netProfit = cents (- N REVENUE - N EXPENSE) \<rparr> \<and>
      sb_balanceSheet b = \<lparr> sh_assets = cents (N ASSET), sh_liabilities = cents (- N LIABILITY), sh_equity = cents (- N EQUITY),
        sh_liabilitiesAndEquity = cents (- N LIABILITY - N EQUITY) \<rparr>"
  unfolding Let_def computeStatements_def statement_bundle.simps
  by (intro conjI trial_in_cents[OF fk size] results_in_cents[OF fk size])

text \<open>An issued invoice of 100.10 and 19.02 VAT: the statements of a company that booked only that.\<close>

definition demoAccount :: "id \<Rightarrow> string \<Rightarrow> AccountType \<Rightarrow> account" where
  "demoAccount i num ty = \<lparr> a_id = i, a_companyId = ''c'', a_code = num, a_isActive = True, a_name = [], a_type = ty, a_currency = ''RON'' \<rparr>"

definition demoBooked :: sales where
  "demoBooked = demoInvoiced\<lparr> accounts :=
     [demoAccount ''R'' ''4111'' ASSET, demoAccount ''V'' ''707'' REVENUE, demoAccount ''T'' ''4427'' LIABILITY] \<rparr>"

definition noRange :: date_range where
  "noRange = \<lparr> rg_from = None, rg_to = None \<rparr>"

lemma demo_lines: "journalLines ''c'' noRange demoBooked = je_lines demoInvoiceEntry"
  by (simp add: journalLines_def demoBooked_def demoInvoiced_def demoInvoiceEntry_def noRange_def inRange_def hasRange_def)

lemma demo_fk: "\<forall>l \<in> set (journalLines ''c'' noRange demoBooked). accountOf (jl_accountId l) demoBooked \<noteq> None"
  unfolding demo_lines by (simp add: demoInvoiceEntry_def accountOf_def demoBooked_def demoAccount_def)

lemma demo_size: "(\<Sum>l\<leftarrow>journalLines ''c'' noRange demoBooked. lineSize l) \<le> 2 ^ 44"
  by (simp add: demo_lines demoInvoiceEntry_def lineSize_def)

lemma demo_net:
  "netByType demoBooked ASSET (je_lines demoInvoiceEntry) = 11912" "netByType demoBooked REVENUE (je_lines demoInvoiceEntry) = - 10010"
  "netByType demoBooked LIABILITY (je_lines demoInvoiceEntry) = - 1902" "netByType demoBooked EQUITY (je_lines demoInvoiceEntry) = 0"
  "netByType demoBooked EXPENSE (je_lines demoInvoiceEntry) = 0"
  by (simp_all add: netByType_def hasType_def demoInvoiceEntry_def accountOf_def demoBooked_def demoAccount_def)

theorem statements_exact_witness:
  "let b = computeStatements (\<lambda>s. length s) ''c'' noRange 0 demoBooked [] in
     sb_trialTotals b = (cents 11912, cents 11912) \<and> pl_netProfit (sb_pnl b) = cents 10010 \<and>
     sh_assets (sb_balanceSheet b) = cents 11912 \<and> sh_liabilitiesAndEquity (sb_balanceSheet b) = cents 1902"
proof -
  have t: "debits (je_lines demoInvoiceEntry) = 11912" "credits (je_lines demoInvoiceEntry) = 11912"
    by (simp_all add: demoInvoiceEntry_def debits_def credits_def)
  show ?thesis using statements_exact[OF demo_fk demo_size, of "\<lambda>s. length s" 0 "[]"]
    unfolding Let_def demo_lines demo_net t by simp
qed

lemma types_total:
  assumes "\<forall>l \<in> set ls. accountOf (jl_accountId l) db \<noteq> None"
  shows "netByType db ASSET ls + netByType db LIABILITY ls + netByType db EQUITY ls + netByType db REVENUE ls + netByType db EXPENSE ls =
    debits ls - credits ls"
  using assms
proof (induction ls)
  case (Cons l ls)
  obtain a where a: "accountOf (jl_accountId l) db = Some a" using Cons.prems by auto
  have "netByType db ty (l # ls) = (if a_type a = ty then jl_debit l - jl_credit l else 0) + netByType db ty ls" for ty
    by (simp add: netByType_def hasType_def a)
  then show ?case using Cons by (cases "a_type a") (simp_all add: debits_def credits_def)
qed (simp add: netByType_def debits_def credits_def)



text \<open>The statements read every entry, drafts included: creating an entry, a draft that is not posted, adds its
  lines to those that the statements are computed from, while the lines of the posted entries stay the same.\<close>

lemma drafts_in_statements:
  assumes "createEntry env u r db = Inr (e, db')" "inRange rg (je_date e)"
  shows "journalLines (act_company u) rg db' = journalLines (act_company u) rg db @ je_lines e \<and>
    je_status e = DRAFT \<and> \<not> je_posted e \<and> postedLines (act_company u) db' = postedLines (act_company u) db"
proof -
  note d = createEntry_InrD[OF assms(1)]
  obtain db1 where "insertEntry e db = Inr db1" "entries db' = entries db1" using d(9) by auto
  then have "entries db' = entries db @ [e]" using insertEntry_InrD by fastforce
  then show ?thesis using d(3,4,5) assms(2) by (simp add: journalLines_def postedLines_def)
qed

lemma drafts_in_statements_example:
  "debits (journalLines ''c'' noRange demoCreated) = 10 \<and> postedLines ''c'' demoCreated = []"
proof -
  obtain e where "createEntry (demoEnv ''x'') demoActor demoRequest demoLedger = Inr (e, demoCreated)" using demo_create by blast
  from drafts_in_statements[OF this, of noRange]
  have "postedLines ''c'' demoCreated = []" by (simp add: demoActor_def demoLedger_def postedLines_def noRange_def inRange_def hasRange_def)
  moreover have "debits (journalLines ''c'' noRange demoCreated) = 10"
    by (simp add: demoCreated_def demoLedger_def journalLines_def demoEntry_def noRange_def inRange_def hasRange_def debits_def)
  ultimately show ?thesis by simp
qed

end
