(* ===== verification/ListQuery.thy ===== *)
theory ListQuery
  imports StatementText
begin

text \<open>
  The query parameters of the lists (lib/list-query.ts): page, page size, search and order, and the headers
  that describe a page. A page is the part of the ordered rows that \<open>skip\<close> and \<open>take\<close> cut out.
\<close>

section \<open>Parameters\<close>

text \<open>What the query parser of Express makes of a parameter: a text, an array, or an object.\<close>

datatype query_value = QText string | QArray "query_value list" | QObject

definition readQueryString :: "(string \<Rightarrow> query_value option) \<Rightarrow> string \<Rightarrow> http_error + string option" where
  "readQueryString query key = (case query key of
       None \<Rightarrow> Inr None
     | Some (QText s) \<Rightarrow> Inr (Some s)
     | Some (QArray (QText s # _)) \<Rightarrow> Inr (Some s)
     | Some _ \<Rightarrow> Inl (badRequest (''Parametrul '' @ key @ '' este invalid.'')))"

definition parsePositiveInt :: "string \<Rightarrow> string \<Rightarrow> http_error + double" where
  "parsePositiveInt raw field = (case toNumberString raw of
       None \<Rightarrow> Inl (badRequest (''Parametrul '' @ field @ '' trebuie sa fie un numar intreg pozitiv.''))
     | Some v \<Rightarrow> if v \<noteq> of_int \<lfloor>v\<rfloor> \<or> v \<le> 0
         then Inl (badRequest (''Parametrul '' @ field @ '' trebuie sa fie un numar intreg pozitiv.'')) else Inr v)"

definition parseBoolean :: "string \<Rightarrow> string \<Rightarrow> http_error + bool" where
  "parseBoolean raw field =
     (let normalized = toLowerCase (trim raw) in
      if normalized \<in> {''1'', ''true'', ''yes'', ''y''} then Inr True
      else if normalized \<in> {''0'', ''false'', ''no'', ''n''} then Inr False
      else Inl (badRequest (''Parametrul '' @ field @ '' trebuie sa fie boolean (true/false).'')))"

text \<open>The options of a list; a direction is the text that reaches the query.\<close>

record list_options =
  lo_allowedSortFields :: "string list"
  lo_defaultSortField :: string
  lo_defaultSortDirection :: "string option"
  lo_defaultPageSize :: "double option"
  lo_maxPageSize :: "double option"
  lo_defaultPaginationEnabled :: "bool option"

definition parseSort :: "string option \<Rightarrow> list_options \<Rightarrow> http_error + (string \<times> string)" where
  "parseSort rawSort opts =
     (let defaultDirection = orElse (lo_defaultSortDirection opts) ''asc'' in
      case rawSort of None \<Rightarrow> Inr (lo_defaultSortField opts, defaultDirection)
      | Some s \<Rightarrow> if s = [] then Inr (lo_defaultSortField opts, defaultDirection) else
          let parts = split (CHR '':'') s; field = trim (hd parts);
              direction = (case tl parts of [] \<Rightarrow> None | d # _ \<Rightarrow> Some (toLowerCase (trim d)))
          in if field = [] \<or> field \<notin> set (lo_allowedSortFields opts) then Inl (badRequest ''Parametrul sort este invalid.'')
             else if direction \<noteq> None \<and> direction \<noteq> Some [] \<and> direction \<notin> {Some ''asc'', Some ''desc''}
             then Inl (badRequest ''Directia de sortare trebuie sa fie asc sau desc.'')
             else Inr (field, orElse direction defaultDirection))"

record list_query =
  lq_page :: double
  lq_pageSize :: double
  lq_search :: "string option"
  lq_sortField :: string
  lq_sortDirection :: string
  lq_paginationEnabled :: bool
  lq_skip :: "double option"
  lq_take :: "double option"

text \<open>An absent and an empty text are both falsy.\<close>

definition truthy :: "string option \<Rightarrow> string option" where
  "truthy v = (case v of Some s \<Rightarrow> if s = [] then None else Some s | None \<Rightarrow> None)"

definition whenGiven :: "string option \<Rightarrow> (string \<Rightarrow> http_error + 'a) \<Rightarrow> 'a \<Rightarrow> http_error + 'a" where
  "whenGiven v f d = (case truthy v of None \<Rightarrow> Inr d | Some s \<Rightarrow> f s)"

definition searchText :: "string option \<Rightarrow> string option" where
  "searchText rawSearch = (let normalizedSearch = trim (orElse rawSearch []) in
     if normalizedSearch \<noteq> [] then Some (take 120 normalizedSearch) else None)"

definition parseListQuery :: "(string \<Rightarrow> query_value option) \<Rightarrow> list_options \<Rightarrow> http_error + list_query" where
  "parseListQuery query opts =
     (let maxPageSize = orElse (lo_maxPageSize opts) 200; defaultPageSize = orElse (lo_defaultPageSize opts) 50 in
      bindR (readQueryString query ''page'') (\<lambda>rawPage.
      bindR (readQueryString query ''pageSize'') (\<lambda>rawPageSize.
      bindR (readQueryString query ''all'') (\<lambda>rawAll.
      bindR (readQueryString query ''paginate'') (\<lambda>rawPaginate.
      bindR (readQueryString query ''search'') (\<lambda>rawSearch.
      bindR (readQueryString query ''sort'') (\<lambda>rawSort.
      bindR (whenGiven rawPage (\<lambda>s. parsePositiveInt s ''page'') 1) (\<lambda>page.
      bindR (whenGiven rawPageSize (\<lambda>s. parsePositiveInt s ''pageSize'') defaultPageSize) (\<lambda>pageSizeUncapped.
      let pageSize = min pageSizeUncapped maxPageSize in
      if rawAll \<noteq> None \<and> rawPaginate \<noteq> None
      then Inl (badRequest ''Parametrii all si paginate nu pot fi folositi impreuna.'') else
      bindR (whenGiven rawAll (\<lambda>s. parseBoolean s ''all'') False) (\<lambda>allRequested.
      bindR (if allRequested then Inr False
             else whenGiven rawPaginate (\<lambda>s. parseBoolean s ''paginate'') (orElse (lo_defaultPaginationEnabled opts) True)) (\<lambda>paginationEnabled.
      if \<not> paginationEnabled \<and> (rawPage \<noteq> None \<or> rawPageSize \<noteq> None)
      then Inl (badRequest ''Parametrii page si pageSize nu pot fi folositi cand paginate=false.'') else
      bindR (parseSort rawSort opts) (\<lambda>(sortField, sortDirection).
      Inr \<lparr> lq_page = page, lq_pageSize = pageSize, lq_search = searchText rawSearch, lq_sortField = sortField,
            lq_sortDirection = sortDirection, lq_paginationEnabled = paginationEnabled,
            lq_skip = (if paginationEnabled then Some (fmul (fsub page 1) pageSize) else None),
            lq_take = (if paginationEnabled then Some pageSize else None) \<rparr>))))))))))))"

record page_headers =
  ph_totalCount :: double
  ph_page :: double
  ph_pageSize :: double
  ph_totalPages :: double

definition setPaginationHeaders :: "nat \<Rightarrow> list_query \<Rightarrow> page_headers" where
  "setPaginationHeaders totalCount q = \<lparr> ph_totalCount = of_nat totalCount, ph_page = lq_page q, ph_pageSize = lq_pageSize q,
     ph_totalPages = (if totalCount = 0 then 0 else of_int \<lceil>fdiv (of_nat totalCount) (lq_pageSize q)\<rceil>) \<rparr>"

text \<open>What the database returns of the ordered rows for \<open>skip\<close> and \<open>take\<close>.\<close>

definition pageRows :: "list_query \<Rightarrow> 'r list \<Rightarrow> 'r list" where
  "pageRows q rows =
     (let rest = (case lq_skip q of None \<Rightarrow> rows | Some n \<Rightarrow> drop (nat \<lfloor>n\<rfloor>) rows) in
      case lq_take q of None \<Rightarrow> rest | Some n \<Rightarrow> take (nat \<lfloor>n\<rfloor>) rest)"

text \<open>\<open>s.includes(t)\<close>.\<close>

definition includesText :: "string \<Rightarrow> string \<Rightarrow> bool" where
  "includesText s t \<longleftrightarrow> list_ex (\<lambda>i. startsWith (drop i s) t) [0..<Suc (length s)]"

section \<open>What an accepted query looks like\<close>

lemma whenGiven_Inr: "whenGiven v f d = Inr x \<Longrightarrow> x = d \<or> (\<exists>s. f s = Inr x)"
  by (auto simp: whenGiven_def split: option.splits)

lemma parsePositiveInt_Inr: "parsePositiveInt s k = Inr v \<Longrightarrow> \<exists>n. v = of_int n \<and> 1 \<le> n"
proof -
  assume "parsePositiveInt s k = Inr v"
  then have "v = of_int \<lfloor>v\<rfloor>" "0 < v" by (auto simp: parsePositiveInt_def split: option.splits if_splits)
  then show ?thesis by (intro exI[of _ "\<lfloor>v\<rfloor>"]) (metis of_int_0_less_iff zless_imp_add1_zle add_0)
qed

lemma parseSort_Inr:
  "parseSort r opts = Inr (f, d) \<Longrightarrow> (f = lo_defaultSortField opts \<or> f \<in> set (lo_allowedSortFields opts)) \<and>
     (d \<in> {''asc'', ''desc'', ''''} \<or> d = orElse (lo_defaultSortDirection opts) ''asc'')"
  by (auto simp: parseSort_def Let_def orElse_def split: option.splits if_splits list.splits)

lemma listQuery_slice:
  "parseListQuery query opts = Inr q \<Longrightarrow>
     lq_skip q = (if lq_paginationEnabled q then Some (fmul (fsub (lq_page q) 1) (lq_pageSize q)) else None) \<and>
     lq_take q = (if lq_paginationEnabled q then Some (lq_pageSize q) else None)"
  unfolding parseListQuery_def by (auto simp: Let_def bindR_eq_Inr split: if_splits)


definition demoOptions :: list_options where
  "demoOptions = \<lparr> lo_allowedSortFields = [''code'', ''name''], lo_defaultSortField = ''code'', lo_defaultSortDirection = Some ''asc'',
     lo_defaultPageSize = Some 50, lo_maxPageSize = Some 200, lo_defaultPaginationEnabled = None \<rparr>"


section \<open>Pages\<close>

lemma ceiling_fdiv:
  assumes "0 \<le> a" "a < 2 ^ 53" "0 < b" "b \<le> 2 ^ 53"
  shows "\<lceil>fdiv (of_int a) (of_int b)\<rceil> = - (- a div b)"
proof -
  have "fdiv (of_int (- a)) (of_int b) = - fdiv (of_int a) (of_int b)" by (simp add: fdiv_def fl_minus)
  then show ?thesis using floor_fdiv[of "- a" b] assms by (simp add: ceiling_def)
qed

lemma concat_pages: "concat (map (\<lambda>k. take n (drop ((k - 1) * n) rows)) [1..<Suc N]) = take (N * n) rows"
proof (induction N)
  case (Suc N)
  have "take (N * n) rows @ take n (drop (N * n) rows) = take (n + N * n) rows" by (metis add.commute take_add)
  then show ?case using Suc by simp
qed simp

lemma pageRows_slice:
  assumes q: "lq_page q = of_nat k" "lq_pageSize q = of_nat n" "1 \<le> k" "int k * int n \<le> 2 ^ 53" "1 \<le> n"
    and st: "lq_skip q = Some (fmul (fsub (lq_page q) 1) (lq_pageSize q))" "lq_take q = Some (lq_pageSize q)"
  shows "pageRows q rows = take n (drop ((k - 1) * n) rows)"
proof -
  have k: "int k * 1 \<le> int k * int n" using q(5) by (intro mult_left_mono) auto
  have "fsub (of_nat k) 1 = fl (of_int (int (k - 1)))" using q(3) by (simp add: fsub_def of_nat_diff)
  also have "\<dots> = of_nat (k - 1)" using fl_of_int[of "int (k - 1)"] k q(4) by simp
  finally have s: "fsub (of_nat k) 1 = (of_nat (k - 1) :: double)" .
  have "int ((k - 1) * n) \<le> int k * int n" by (simp add: mult_right_mono)
  then have "fl (of_int (int ((k - 1) * n))) = of_int (int ((k - 1) * n))" using q(4) by (intro fl_of_int) simp
  then have "fmul (fsub (of_nat k) 1) (of_nat n) = of_nat ((k - 1) * n)" unfolding s fmul_def by simp
  then have "nat \<lfloor>fmul (fsub (of_nat k) 1) (of_nat n)\<rfloor> = (k - 1) * n" by (simp only: floor_of_nat nat_int)
  then show ?thesis by (simp add: pageRows_def st q(1,2))
qed

text \<open>C35: The pages tile the list. When a client asks for the pages 1 to the number that the header announces, with the
  same size, the rows it gets, one page after the other, are the rows of the list: none is missing and none comes
  twice.\<close>

theorem pages_tile:
  assumes pages: "\<forall>k \<in> {1..N}. parseListQuery (query k) opts = Inr (r k) \<and> lq_paginationEnabled (r k) \<and>
      lq_page (r k) = of_nat k \<and> lq_pageSize (r k) = of_nat n"
    and sizes: "1 \<le> n" "n \<le> 2 ^ 52" "length rows \<le> 2 ^ 52"
    and header: "ph_totalPages (setPaginationHeaders (length rows) (r 1)) = of_nat N" "lq_pageSize (r 1) = of_nat n"
  shows "concat (map (\<lambda>k. pageRows (r k) rows) [1..<Suc N]) = rows"
proof -
  let ?T = "int (length rows)"
  have T: "?T \<le> 2 ^ 52" "int n \<le> 2 ^ 52" using sizes(2,3) by (simp_all add: nat_le_iff[symmetric])
  have N: "int N = - (- ?T div int n)"
  proof (cases "rows = []")
    case True then show ?thesis using header(1) by (simp add: setPaginationHeaders_def)
  next
    case False
    have "\<lceil>fdiv (of_int ?T) (of_int (int n))\<rceil> = - (- ?T div int n)" by (rule ceiling_fdiv) (use T sizes(1) in simp_all)
    then have "(of_nat N :: double) = of_int (- (- ?T div int n))" using header False by (simp add: setPaginationHeaders_def)
    then show ?thesis by (metis of_int_eq_iff of_int_of_nat_eq)
  qed
  have n0: "0 < int n" using sizes(1) by simp
  define q m where "q = - ?T div int n" and "m = - ?T mod int n"
  have "int n * q + m = - ?T" unfolding q_def m_def by (rule mult_div_mod_eq)
  moreover have "0 \<le> m" "m < int n" using n0 by (simp_all add: m_def)
  moreover have "int N * int n = - (int n * q)" unfolding N q_def[symmetric] by (simp add: mult.commute)
  ultimately have b: "?T \<le> int N * int n" "int N * int n < ?T + int n" by linarith+
  have "pageRows (r k) rows = take n (drop ((k - 1) * n) rows)" if "k \<in> {1..N}" for k
  proof (rule pageRows_slice)
    have p: "parseListQuery (query k) opts = Inr (r k)" "lq_paginationEnabled (r k)" using pages that by auto
    show "lq_skip (r k) = Some (fmul (fsub (lq_page (r k)) 1) (lq_pageSize (r k)))" "lq_take (r k) = Some (lq_pageSize (r k))"
      using listQuery_slice[OF p(1)] p(2) by simp_all
    have "int k * int n \<le> int N * int n" using that by (intro mult_right_mono) auto
    moreover have "?T + int n \<le> 2 ^ 53" using T by simp
    ultimately show "int k * int n \<le> 2 ^ 53" using b(2) by linarith
  qed (use pages that sizes in auto)
  then have "map (\<lambda>k. pageRows (r k) rows) [1..<Suc N] = map (\<lambda>k. take n (drop ((k - 1) * n) rows)) [1..<Suc N]"
    by (intro map_cong) auto
  moreover have "length rows \<le> N * n" using b(1) by (metis of_nat_le_iff of_nat_mult)
  ultimately show ?thesis by (simp only: concat_pages) simp
qed

lemma demo_digits: "toNumberString ''2'' = Some 2" "toNumberString ''1'' = Some 1"
proof -
  have f: "fl 2 = 2" "fl 1 = 1" using fl_of_int[of 2] fl_of_int[of 1] by simp_all
  have r: "readNat ''2'' = 2" "readNat ''1'' = 1" by code_simp+
  have d: "isDigit (CHR ''2'')" "isDigit (CHR ''1'')" by (simp_all add: isDigit_def code_def)
  have t: "trim ''2'' = ''2''" "trim ''1'' = ''1''" by (simp_all add: trim_def trimStart_def trimEnd_def isSpace_def code_def)
  show "toNumberString ''2'' = Some 2" "toNumberString ''1'' = Some 1"
    by (simp_all add: toNumberString_def t unsignedDecimal_def d exponentPart_def r powerOfTen_def f finiteOnly_def isFinite_def)
qed

definition demoPage :: "nat \<Rightarrow> string \<Rightarrow> query_value option" where
  "demoPage k key = (if key = ''page'' then Some (QText (if k = 1 then ''1'' else ''2'')) else if key = ''pageSize'' then Some (QText ''2'') else None)"

definition demoAnswer :: "nat \<Rightarrow> list_query" where
  "demoAnswer k = projr (parseListQuery (demoPage k) demoOptions)"

theorem pages_tile_witness:
  "concat (map (\<lambda>k. pageRows (demoAnswer k) ''abc'') [1..<3]) = ''abc''"
proof -
  have two: "{1..2} = {1, 2 :: nat}" by auto
  have ints: "(2 :: rat) = of_int \<lfloor>2\<rfloor>" "(1 :: rat) = of_int \<lfloor>1\<rfloor>" by simp_all
  have p: "parseListQuery (demoPage k) demoOptions = Inr (demoAnswer k) \<and> lq_paginationEnabled (demoAnswer k) \<and>
      lq_page (demoAnswer k) = of_nat k \<and> lq_pageSize (demoAnswer k) = of_nat 2" if "k \<in> {1..2}" for k
    using that unfolding two demoAnswer_def
    by (auto simp: parseListQuery_def readQueryString_def demoPage_def whenGiven_def truthy_def parsePositiveInt_def demo_digits
      parseSort_def demoOptions_def Let_def)
  have "\<lceil>fdiv 3 2 :: double\<rceil> = 2" using ceiling_fdiv[of 3 2] by simp
  then have h: "ph_totalPages (setPaginationHeaders (length ''abc'') (demoAnswer 1)) = of_nat 2"
    using p[of 1] by (simp add: setPaginationHeaders_def)
  have "concat (map (\<lambda>k. pageRows (demoAnswer k) ''abc'') [1..<Suc 2]) = ''abc''"
    by (rule pages_tile[where n = 2 and N = 2 and r = demoAnswer and query = demoPage and opts = demoOptions]) (use p h in simp_all)
  then show ?thesis by (simp add: numeral_3_eq_3 numeral_2_eq_2)
qed

text \<open>A direction that is left empty after the colon, as in \<open>sort=code:\<close>, passes the check of the directions and is
  not replaced by the default, since it is not null: the empty text reaches the query as the direction.\<close>

lemma sort_direction_empty:
  assumes "f \<in> set (lo_allowedSortFields opts)" "trim f = f" "f \<noteq> []" "CHR '':'' \<notin> set f"
  shows "parseSort (Some (f @ '':'')) opts = Inr (f, [])"
proof -
  have "split (CHR '':'') (f @ '':'') = [f, []]" using assms(4) by (induction f) auto
  moreover have "trim [] = []" by (simp add: trim_def trimStart_def trimEnd_def)
  ultimately show ?thesis using assms by (simp add: parseSort_def Let_def toLowerCase_def)
qed

lemma sort_direction_empty_example:
  "parseSort (Some ''code:'') demoOptions = Inr (''code'', [])"
proof -
  have "trim ''code'' = ''code''" by (simp add: trim_def trimStart_def trimEnd_def isSpace_def code_def)
  then show ?thesis using sort_direction_empty[of "''code''" demoOptions] by (simp add: demoOptions_def)
qed

end
