(* ===== verification/TaxDeclarations.thy ===== *)
theory TaxDeclarations
  imports FinancialStatements ListQuery
begin

text \<open>
  The tax declarations (services/reports/anaf-service.ts, utils/anaf.ts): the amounts that the forms D300,
  D394, D112, D101, D100, D205, D392 and D393 declare, and their XML, character by character. The settings
  of the process are a record. The SAF-T file D406, its report and the XSD validator are not modelled.
\<close>

section \<open>Settings\<close>

record anaf_env =
  ANAF_COMPANY_NAME :: string
  ANAF_COMPANY_CUI :: string
  ANAF_COMPANY_ADDRESS :: string
  ANAF_COMPANY_CAEN :: string
  ANAF_DECLARANT_NAME :: string
  ANAF_DECLARANT_FUNCTION :: string
  companyNameProvided :: bool
  companyCuiProvided :: bool
  companyAddressProvided :: bool
  companyCaenProvided :: bool
  declarantNameProvided :: bool
  declarantFunctionProvided :: bool

datatype AnafDeclarationType = D300 | D394 | D112 | D101 | D100 | D205 | D392 | D393 | D406

fun declarationCode :: "AnafDeclarationType \<Rightarrow> string" where
  "declarationCode D300 = ''D300''"
| "declarationCode D394 = ''D394''"
| "declarationCode D112 = ''D112''"
| "declarationCode D101 = ''D101''"
| "declarationCode D100 = ''D100''"
| "declarationCode D205 = ''D205''"
| "declarationCode D392 = ''D392''"
| "declarationCode D393 = ''D393''"
| "declarationCode D406 = ''D406''"

definition normalizeCui :: "string \<Rightarrow> string" where
  "normalizeCui raw = removeSpaces (toUpperCase (trim raw))"

definition bareCui :: "string \<Rightarrow> string" where
  "bareCui raw = (let normalized = normalizeCui raw in if startsWith normalized ''RO'' then drop 2 normalized else normalized)"

text \<open>\<open>/^RO?\d{2,12}$/i\<close>.\<close>

definition CUI_REGEX :: "string \<Rightarrow> bool" where
  "CUI_REGEX s \<longleftrightarrow> (\<exists>p \<in> {''R'', ''RO''}. startsWith (toUpperCase s) p \<and>
     2 \<le> length s - length p \<and> length s - length p \<le> 12 \<and> allDigits (drop (length p) s))"

record anaf_validation =
  av_errors :: "string list"
  av_warnings :: "string list"

definition av_valid :: "anaf_validation \<Rightarrow> bool" where
  "av_valid v \<longleftrightarrow> av_errors v = []"

definition checks :: "(bool \<times> string) list \<Rightarrow> string list" where
  "checks cs = map snd (filter fst cs)"

definition validateAnafProfile :: "anaf_env \<Rightarrow> AnafDeclarationType \<Rightarrow> string \<Rightarrow> nat \<Rightarrow> anaf_validation" where
  "validateAnafProfile e ty period rowCount =
     (let companyName = trim (ANAF_COMPANY_NAME e); companyCui = normalizeCui (ANAF_COMPANY_CUI e) in
      \<lparr> av_errors = checks
          [(matchPeriod period = None, ''Perioada trebuie sa fie in format YYYY-MM.''),
           (length companyName < 2, ''ANAF_COMPANY_NAME este obligatoriu.''),
           (\<not> CUI_REGEX companyCui, ''ANAF_COMPANY_CUI trebuie sa contina un CUI valid (ex. RO12345678).''),
           (length (trim (ANAF_COMPANY_ADDRESS e)) < 5, ''ANAF_COMPANY_ADDRESS este obligatoriu.''),
           (length (trim (ANAF_DECLARANT_NAME e)) < 2, ''ANAF_DECLARANT_NAME este obligatoriu.''),
           (length (trim (ANAF_DECLARANT_FUNCTION e)) < 2, ''ANAF_DECLARANT_FUNCTION este obligatoriu.'')],
        av_warnings = checks
          [(companyCui = ''RO00000000'' \<or> bareCui companyCui = ''00000000'', ''CUI-ul este inca pe valoarea demo. Actualizeaza ANAF_COMPANY_CUI.''),
           (includesText (toLowerCase companyName) ''demo'', ''Numele companiei este pe profil demo. Actualizeaza ANAF_COMPANY_NAME.''),
           (rowCount = 0, ''Declaratia '' @ declarationCode ty @ '' nu are date pentru perioada selectata.'')] \<rparr>)"

section \<open>Values of the forms\<close>

definition normalizeForCompare :: "string \<Rightarrow> string" where
  "normalizeForCompare v = toUpperCase (collapseSpaces (trim v))"

definition normalizeText :: "string \<Rightarrow> string \<Rightarrow> nat \<Rightarrow> string" where
  "normalizeText v fallback maxLength =
     (let normalized = collapseSpaces (trim v) in take maxLength (if normalized \<noteq> [] then normalized else fallback))"

definition normalizePhone :: "string \<Rightarrow> string" where
  "normalizePhone v = (let phone = trim v in if phone = [] then ''0000000000'' else take 15 phone)"

text \<open>\<open>raw.trim().split(/\s+/)\<close> without the empty parts, and the first and the other names.\<close>

definition nameParts :: "string \<Rightarrow> string list" where
  "nameParts raw = filter (\<lambda>p. p \<noteq> []) (split (CHR '' '') (collapseSpaces (trim raw)))"

definition splitDeclarantName :: "string \<Rightarrow> string \<times> string" where
  "splitDeclarantName raw = (case nameParts raw of
       [] \<Rightarrow> (''Declarant'', ''Declarant'')
     | [p] \<Rightarrow> (p, p)
     | p # ps \<Rightarrow> (p, let firstName = join '' '' ps in if firstName \<noteq> [] then firstName else p))"

definition toAnafUnsignedInteger :: "double \<Rightarrow> double" where
  "toAnafUnsignedInteger v = (if \<not> isFinite v then 0 else max 0 (mathRound v))"

definition toAnafSignedInteger :: "double \<Rightarrow> double" where
  "toAnafSignedInteger v = (if \<not> isFinite v then 0 else mathRound v)"

definition onlyDigits :: "string \<Rightarrow> string" where
  "onlyDigits s = filter isDigit s"

text \<open>\<open>/^[1-9]\d{1,9}$/\<close> or \<open>/^[1-9]\d{12}$/\<close>, of a string of digits.\<close>

definition validCuiDigits :: "string \<Rightarrow> bool" where
  "validCuiDigits ds \<longleftrightarrow> ds \<noteq> [] \<and> hd ds \<noteq> CHR ''0'' \<and> (2 \<le> length ds \<and> length ds \<le> 10 \<or> length ds = 13)"

definition toAnafCuiForXsd :: "string \<Rightarrow> string" where
  "toAnafCuiForXsd raw = (let digits = onlyDigits (bareCui raw) in if validCuiDigits digits then digits else ''12345678'')"

definition toDeclarantCif :: "string \<Rightarrow> string" where
  "toDeclarantCif raw = (let digits = onlyDigits (bareCui raw) in
     if 1 \<le> length digits \<and> length digits \<le> 13 then digits else ''0'')"

definition toAnafCaen :: "string \<Rightarrow> string" where
  "toAnafCaen raw = (let digits = onlyDigits (trim raw) in if 4 \<le> length digits then take 4 digits else ''6201'')"

definition validateAnafBusinessProfile :: "anaf_env \<Rightarrow> anaf_validation" where
  "validateAnafBusinessProfile e =
     (let companyName = trim (ANAF_COMPANY_NAME e); companyAddress = trim (ANAF_COMPANY_ADDRESS e);
          cuiDigits = onlyDigits (bareCui (ANAF_COMPANY_CUI e)); caenDigits = onlyDigits (trim (ANAF_COMPANY_CAEN e)) in
      \<lparr> av_errors = checks
          [(\<not> companyCuiProvided e, ''ANAF_COMPANY_CUI lipseste din env. Fallback-ul implicit nu este permis in strict mode.''),
           (\<not> companyCaenProvided e, ''ANAF_COMPANY_CAEN lipseste din env. Fallback-ul implicit nu este permis in strict mode.''),
           (\<not> companyNameProvided e, ''ANAF_COMPANY_NAME lipseste din env. Completeaza denumirea reala a companiei.''),
           (\<not> companyAddressProvided e, ''ANAF_COMPANY_ADDRESS lipseste din env. Completeaza adresa reala a companiei.''),
           (length companyName < 2, ''ANAF_COMPANY_NAME este invalid (prea scurt).''),
           (normalizeForCompare companyName = normalizeForCompare ''SEGA DEMO SRL'', ''ANAF_COMPANY_NAME foloseste valoare demo implicita.''),
           (length companyAddress < 5, ''ANAF_COMPANY_ADDRESS este invalid (prea scurt).''),
           (normalizeForCompare companyAddress = normalizeForCompare ''Bucuresti, Romania'', ''ANAF_COMPANY_ADDRESS foloseste valoare demo implicita.''),
           (\<not> validCuiDigits cuiDigits, ''ANAF_COMPANY_CUI este invalid. Introdu un CUI real (fara fallback demo).''),
           (cuiDigits = onlyDigits (bareCui ''RO00000000'') \<or> cuiDigits = ''12345678'', ''ANAF_COMPANY_CUI foloseste o valoare demo/placeholder.''),
           (length caenDigits \<noteq> 4, ''ANAF_COMPANY_CAEN este invalid. Trebuie sa contina exact 4 cifre.'')],
        av_warnings = checks
          [(normalizeForCompare (ANAF_COMPANY_CAEN e) = normalizeForCompare ''6201'', ''ANAF_COMPANY_CAEN este egal cu valoarea implicita (6201). Verifica daca este CAEN-ul real.''),
           (\<not> declarantNameProvided e, ''ANAF_DECLARANT_NAME nu este setat explicit in env.''),
           (\<not> declarantFunctionProvided e, ''ANAF_DECLARANT_FUNCTION nu este setat explicit in env.''),
           (normalizeForCompare (ANAF_DECLARANT_NAME e) = normalizeForCompare ''Administrator'', ''ANAF_DECLARANT_NAME este valoarea implicita (Administrator).''),
           (normalizeForCompare (ANAF_DECLARANT_FUNCTION e) = normalizeForCompare ''Administrator'', ''ANAF_DECLARANT_FUNCTION este valoarea implicita (Administrator).'')] \<rparr>)"

section \<open>Periods\<close>

record anaf_period =
  pd_period :: string
  pd_start :: date
  pd_end :: date

definition parseAnafPeriod :: "string option \<Rightarrow> http_error + anaf_period" where
  "parseAnafPeriod v =
     (let raw = trim (orElse v []) in
      case matchPeriod raw of
        None \<Rightarrow> Inl (badRequest ''Parametrul period este obligatoriu si trebuie sa fie in format YYYY-MM.'')
      | Some (ys, ms) \<Rightarrow>
          let year = int (readNat ys); month = int (readNat ms) in
          if month < 1 \<or> 12 < month then Inl (badRequest ''Luna din parametrul period este invalida.'')
          else Inr \<lparr> pd_period = raw, pd_start = DateUTC year (month - 1) 1 0, pd_end = DateUTC year month 0 (msPerDay - 1) \<rparr>)"

definition anafYear :: "string \<Rightarrow> int" where
  "anafYear period = int (readNat (take 4 period))"

definition monthText :: "string \<Rightarrow> string" where
  "monthText period = take 2 (drop 5 period)"

definition anafMonth :: "string \<Rightarrow> int" where
  "anafMonth period = int (readNat (monthText period))"

definition monthRange :: "anaf_period \<Rightarrow> date_range" where
  "monthRange p = \<lparr> rg_from = Some (pd_start p), rg_to = Some (pd_end p) \<rparr>"

definition buildAnnualRange :: "int \<Rightarrow> date_range" where
  "buildAnnualRange year = \<lparr> rg_from = Some (DateUTC year 0 1 0), rg_to = Some (DateUTC year 11 31 (msPerDay - 1)) \<rparr>"

definition quarterFromMonth :: "int \<Rightarrow> int" where
  "quarterFromMonth month = min 4 (max 1 (\<lfloor>fdiv (of_int (month - 1)) 3\<rfloor> + 1))"

definition isNonRomanianCui :: "string option \<Rightarrow> bool" where
  "isNonRomanianCui cui = (case cui of None \<Rightarrow> False
     | Some s \<Rightarrow> let normalized = toUpperCase (trim s) in normalized \<noteq> [] \<and> \<not> startsWith normalized ''RO'')"

section \<open>XML\<close>

text \<open>The five replacements run over the whole string one after the other; \<open>&\<close> first.\<close>

definition replaceAll :: "char \<Rightarrow> string \<Rightarrow> string \<Rightarrow> string" where
  "replaceAll c r s = concat (map (\<lambda>x. if x = c then r else [x]) s)"

definition xmlEscape :: "string \<Rightarrow> string" where
  "xmlEscape v = replaceAll (CHR 0x27) ''&apos;'' (replaceAll (CHR 0x22) ''&quot;''
     (replaceAll (CHR ''>'') ''&gt;'' (replaceAll (CHR ''<'') ''&lt;'' (replaceAll (CHR ''&'') ''&amp;'' v))))"

definition attr :: "string \<times> string \<Rightarrow> string" where
  "attr a = '' '' @ fst a @ ''='' @ [CHR 0x22] @ snd a @ [CHR 0x22]"

definition tag :: "string \<Rightarrow> (string \<times> string) list \<Rightarrow> string \<Rightarrow> string" where
  "tag name as close = ''<'' @ name @ concat (map attr as) @ close"

definition xmlHeader :: string where
  "xmlHeader = ''<?xml'' @ attr (''version'', ''1.0'') @ attr (''encoding'', ''UTF-8'') @ ''?>''"

definition xmlLines :: "string list \<Rightarrow> string" where
  "xmlLines ls = join [CHR 0x0A] ls"

record anaf_payload =
  dc_type :: AnafDeclarationType
  dc_period :: string
  dc_xml :: string
  dc_rowCount :: nat

definition declarantAttrs :: "anaf_env \<Rightarrow> (string \<times> string) list" where
  "declarantAttrs e = (let declarant = splitDeclarantName (ANAF_DECLARANT_NAME e) in
     [(''nume_declar'', xmlEscape (normalizeText (fst declarant) ''Declarant'' 75)),
      (''prenume_declar'', xmlEscape (normalizeText (snd declarant) ''Declarant'' 75)),
      (''functie_declar'', xmlEscape (normalizeText (ANAF_DECLARANT_FUNCTION e) ''Administrator'' 50))])"

definition companyName :: "anaf_env \<Rightarrow> string" where
  "companyName e = xmlEscape (normalizeText (ANAF_COMPANY_NAME e) ''SEGA DEMO SRL'' 200)"

definition companyAddress :: "anaf_env \<Rightarrow> string" where
  "companyAddress e = xmlEscape (normalizeText (ANAF_COMPANY_ADDRESS e) ''Bucuresti, Romania'' 1000)"

definition companyCif :: "anaf_env \<Rightarrow> string" where
  "companyCif e = xmlEscape (toAnafCuiForXsd (ANAF_COMPANY_CUI e))"

definition companyCaen :: "anaf_env \<Rightarrow> string" where
  "companyCaen e = xmlEscape (toAnafCaen (ANAF_COMPANY_CAEN e))"

definition signedText :: "double \<Rightarrow> string" where
  "signedText x = numberToString (toAnafSignedInteger x)"

definition unsignedText :: "double \<Rightarrow> string" where
  "unsignedText x = numberToString (toAnafUnsignedInteger x)"

section \<open>Sums of a query\<close>

text \<open>\<open>_sum\<close> of a decimal column is null over no rows and exact otherwise.\<close>

definition aggregateSum :: "('r \<Rightarrow> int) \<Rightarrow> 'r list \<Rightarrow> numeric" where
  "aggregateSum f rows = (if rows = [] then NullValue else column 100 (\<Sum>x\<leftarrow>rows. f x))"

lemma toNumber_aggregateSum [simp]: "toNumber (aggregateSum f rows) = cents (\<Sum>x\<leftarrow>rows. f x)"
  by (simp add: aggregateSum_def)

definition invoicesIn :: "(InvoiceStatus \<Rightarrow> bool) \<Rightarrow> id \<Rightarrow> date_range \<Rightarrow> 'z sales_scheme \<Rightarrow> invoice list" where
  "invoicesIn P c r db = filter (\<lambda>x. i_companyId x = c \<and> P (i_status x) \<and> inRange r (i_issueDate x)) (invoices db)"

definition supplierInvoicesIn :: "(SupplierInvoiceStatus \<Rightarrow> bool) \<Rightarrow> id \<Rightarrow> date_range \<Rightarrow> 'z purchasing_scheme \<Rightarrow> supplier_invoice list" where
  "supplierInvoicesIn P c r db = filter (\<lambda>x. si_companyId x = c \<and> P (si_status x) \<and> inRange r (si_receivedDate x)) (supplierInvoices db)"

definition partnerCui :: "id \<Rightarrow> 'z sales_scheme \<Rightarrow> string option" where
  "partnerCui i db = (case find (\<lambda>p. pt_id p = i) (partners db) of None \<Rightarrow> None | Some p \<Rightarrow> pt_cui p)"

definition partnerName :: "id \<Rightarrow> 'z sales_scheme \<Rightarrow> string" where
  "partnerName i db = (case find (\<lambda>p. pt_id p = i) (partners db) of None \<Rightarrow> [] | Some p \<Rightarrow> pt_name p)"

section \<open>D300: VAT\<close>

definition D300_TAXABLE_INVOICE_STATUSES :: "InvoiceStatus list" where
  "D300_TAXABLE_INVOICE_STATUSES = [ISSUED, PARTIALLY_PAID, PAID]"

definition D300_DEDUCTIBLE_SUPPLIER_INVOICE_STATUSES :: "SupplierInvoiceStatus list" where
  "D300_DEDUCTIBLE_SUPPLIER_INVOICE_STATUSES = [RECEIVED, SI_PARTIALLY_PAID, SI_PAID]"

record vat_amounts =
  vat_collected :: double
  vat_deductible :: double
  vat_balance :: double

definition resolveD300VatAmounts :: "double \<Rightarrow> double \<Rightarrow> double option \<Rightarrow> double option \<Rightarrow> vat_amounts" where
  "resolveD300VatAmounts invoiceVatCollected supplierVatDeductible journalCollected journalDeductible =
     (let vatCollected = orElse journalCollected invoiceVatCollected;
          vatDeductible = orElse journalDeductible supplierVatDeductible
      in \<lparr> vat_collected = round2 vatCollected, vat_deductible = round2 vatDeductible,
           vat_balance = round2 (fsub vatCollected vatDeductible) \<rparr>)"

text \<open>The posted lines of the range on one account, and the row of the \<open>groupBy\<close>, which exists only when there
  are such lines.\<close>

definition vatLines :: "id \<Rightarrow> date_range \<Rightarrow> id \<Rightarrow> 'z ledger_scheme \<Rightarrow> journal_line list" where
  "vatLines c r accountId db = filter (\<lambda>l. jl_accountId l = accountId)
     (concat (map je_lines (filter (\<lambda>e. je_companyId e = c \<and> je_posted e \<and> inRange r (je_date e)) (entries db))))"

definition vatJournalByCode :: "id \<Rightarrow> date_range \<Rightarrow> string \<Rightarrow> 'z ledger_scheme \<Rightarrow> (double \<times> double) option" where
  "vatJournalByCode c r num db = (case find (\<lambda>a. a_companyId a = c \<and> a_code a = num) (accounts db) of
       None \<Rightarrow> None
     | Some a \<Rightarrow> let ls = vatLines c r (a_id a) db in
         if ls = [] then None else Some (toNumber (aggregateSum jl_debit ls), toNumber (aggregateSum jl_credit ls)))"

definition d300Amounts :: "id \<Rightarrow> date_range \<Rightarrow> 'z purchasing_scheme \<Rightarrow> vat_amounts" where
  "d300Amounts c r db = resolveD300VatAmounts
     (round2 (toNumber (aggregateSum i_vat (invoicesIn (\<lambda>st. st \<in> set D300_TAXABLE_INVOICE_STATUSES) c r db))))
     (round2 (toNumber (aggregateSum si_vat (supplierInvoicesIn (\<lambda>st. st \<in> set D300_DEDUCTIBLE_SUPPLIER_INVOICE_STATUSES) c r db))))
     (map_option (\<lambda>(d, k). round2 (fsub k d)) (vatJournalByCode c r ''4427'' db))
     (map_option (\<lambda>(d, k). round2 (fsub d k)) (vatJournalByCode c r ''4426'' db))"

definition buildD300Xml :: "anaf_env \<Rightarrow> id \<Rightarrow> anaf_period \<Rightarrow> 'z purchasing_scheme \<Rightarrow> anaf_payload" where
  "buildD300Xml e c p db =
     (let r = monthRange p; year = showInt (anafYear (pd_period p));
          outgoing = invoicesIn (\<lambda>st. st \<in> set D300_TAXABLE_INVOICE_STATUSES) c r db;
          incoming = supplierInvoicesIn (\<lambda>st. st \<in> set D300_DEDUCTIBLE_SUPPLIER_INVOICE_STATUSES) c r db
      in \<lparr> dc_type = D300, dc_period = pd_period p,
           dc_xml = xmlLines [xmlHeader, tag ''declaratie300''
             ([(''xmlns'', ''mfp:anaf:dgti:d300:declaratie:v10''), (''luna'', showInt (anafMonth (pd_period p))), (''an'', year),
               (''depusReprezentant'', ''0''), (''bifa_interne'', ''0''), (''temei'', ''0'')] @ declarantAttrs e @
              [(''cui'', companyCif e), (''den'', companyName e), (''adresa'', companyAddress e), (''banca'', ''TREZORERIE''),
               (''cont'', ''RO00TREZ0000000000000000''), (''caen'', companyCaen e), (''tip_decont'', ''L''), (''pro_rata'', ''0''),
               (''bifa_cereale'', ''N''), (''bifa_mob'', ''N''), (''bifa_disp'', ''N''), (''bifa_cons'', ''N''), (''solicit_ramb'', ''N''),
               (''nr_evid'', year @ monthText (pd_period p) @ ''01''),
               (''totalPlata_A'', signedText (vat_balance (d300Amounts c r db)))]) ''/>''],
           dc_rowCount = length outgoing + length incoming \<rparr>)"

section \<open>D394: partners\<close>

text \<open>Proforma invoices, kept as drafts, are not cancelled.\<close>

abbreviation notCancelled :: "InvoiceStatus \<Rightarrow> bool" where
  "notCancelled st \<equiv> st \<noteq> CANCELLED"

definition invoiceCui :: "'z sales_scheme \<Rightarrow> invoice \<Rightarrow> string option" where
  "invoiceCui db x = partnerCui (i_partnerId x) db"

text \<open>The rows are added up in the order \<open>issueDate, number\<close>; \<open>collate\<close> orders the numbers.\<close>

definition inIssueOrder :: "(string \<Rightarrow> nat) \<Rightarrow> invoice list \<Rightarrow> invoice list" where
  "inIssueOrder collate xs = sort_key i_issueDate (sort_key (\<lambda>x. collate (i_number x)) xs)"

definition buildD394Xml :: "(string \<Rightarrow> nat) \<Rightarrow> anaf_env \<Rightarrow> id \<Rightarrow> anaf_period \<Rightarrow> 'z sales_scheme \<Rightarrow> anaf_payload" where
  "buildD394Xml collate e c p db =
     (let xs = inIssueOrder collate (invoicesIn notCancelled c (monthRange p) db);
          uniquePartners = remdups (map (\<lambda>x. orElse (invoiceCui db x) (partnerName (i_partnerId x) db)) xs);
          vatTotal = sumColumn i_vat xs; total = sumColumn i_total xs;
          declarantName = xmlEscape (normalizeText (ANAF_DECLARANT_NAME e) ''Administrator'' 75);
          declarantFunction = xmlEscape (normalizeText (ANAF_DECLARANT_FUNCTION e) ''Administrator'' 100);
          invoiceCount = unsignedText (of_nat (length xs)); partnerCount = unsignedText (of_nat (length uniquePartners))
      in \<lparr> dc_type = D394, dc_period = pd_period p,
           dc_xml = xmlLines [xmlHeader,
             tag ''declaratie394''
               [(''xmlns'', ''mfp:anaf:dgti:d394:declaratie:v4''), (''luna'', showInt (anafMonth (pd_period p))),
                (''an'', showInt (anafYear (pd_period p))), (''tip_D394'', ''L''), (''sistemTVA'', ''0''),
                (''op_efectuate'', if xs \<noteq> [] then ''1'' else ''0''), (''cui'', companyCif e), (''caen'', companyCaen e),
                (''den'', companyName e), (''adresa'', companyAddress e), (''telefon'', normalizePhone []),
                (''totalPlata_A'', signedText vatTotal), (''denR'', companyName e), (''functie_reprez'', declarantFunction),
                (''adresaR'', companyAddress e), (''tip_intocmit'', ''0''), (''den_intocmit'', declarantName),
                (''cif_intocmit'', toDeclarantCif (ANAF_COMPANY_CUI e)), (''optiune'', ''0''), (''prsAfiliat'', ''0'')] ''>'',
             ''  '' @ tag ''informatii''
               [(''nrCui1'', partnerCount), (''nrCui2'', ''0''), (''nrCui3'', ''0''), (''nrCui4'', ''0''), (''nr_BF_i1'', ''0''),
                (''incasari_i1'', signedText total), (''incasari_i2'', ''0''), (''nrFacturi_terti'', invoiceCount),
                (''nrFacturi_benef'', ''0''), (''nrFacturi'', invoiceCount), (''nrFacturiL_PF'', ''0''), (''nrFacturiLS_PF'', ''0''),
                (''val_LS_PF'', ''0''), (''tvaDedAI24'', ''0''), (''tvaDedAI20'', ''0''), (''tvaDedAI19'', ''0''),
                (''tvaDedAI9'', ''0''), (''tvaDedAI5'', ''0''), (''solicit'', ''0'')] '' />'',
             ''</declaratie394>''],
           dc_rowCount = length xs \<rparr>)"

section \<open>D112: payroll\<close>

record d112_totals =
  dt_gross :: double
  dt_cas :: double
  dt_cass :: double
  dt_tax :: double
  dt_cam :: double
  dt_net :: double
  dt_employeeCount :: nat

definition addRun :: "payroll_run \<Rightarrow> d112_totals \<Rightarrow> d112_totals" where
  "addRun x t = \<lparr> dt_gross = round2 (fadd (dt_gross t) (toNumber (column 100 (run_totalGross x)))),
     dt_cas = round2 (fadd (dt_cas t) (toNumber (column 100 (run_totalCas x)))),
     dt_cass = round2 (fadd (dt_cass t) (toNumber (column 100 (run_totalCass x)))),
     dt_tax = round2 (fadd (dt_tax t) (toNumber (column 100 (run_totalTax x)))),
     dt_cam = round2 (fadd (dt_cam t) (toNumber (column 100 (run_totalCam x)))),
     dt_net = round2 (fadd (dt_net t) (toNumber (column 100 (run_totalNet x)))),
     dt_employeeCount = dt_employeeCount t + length (run_lines x) \<rparr>"

definition d112Runs :: "(string \<Rightarrow> nat) \<Rightarrow> id \<Rightarrow> date_range \<Rightarrow> 'z payrolling_scheme \<Rightarrow> payroll_run list" where
  "d112Runs collate c r db = sort_key (\<lambda>x. collate (run_period x))
     (filter (\<lambda>x. run_companyId x = c \<and> inRange r (run_payDate x)) (payrollRuns db))"

definition d112Totals :: "payroll_run list \<Rightarrow> d112_totals" where
  "d112Totals runs = foldl (\<lambda>t x. addRun x t)
     \<lparr> dt_gross = 0, dt_cas = 0, dt_cass = 0, dt_tax = 0, dt_cam = 0, dt_net = 0, dt_employeeCount = 0 \<rparr> runs"

definition d112Liabilities :: "d112_totals \<Rightarrow> double" where
  "d112Liabilities t = toAnafUnsignedInteger (fadd (fadd (fadd (dt_cas t) (dt_cass t)) (dt_tax t)) (dt_cam t))"

definition buildD112Xml :: "(string \<Rightarrow> nat) \<Rightarrow> anaf_env \<Rightarrow> id \<Rightarrow> anaf_period \<Rightarrow> 'z payrolling_scheme \<Rightarrow> anaf_payload" where
  "buildD112Xml collate e c p db =
     (let runs = d112Runs collate c (monthRange p) db; totals = d112Totals runs;
          totalLiabilities = numberToString (d112Liabilities totals);
          employeeCount = min (toAnafUnsignedInteger (of_nat (dt_employeeCount totals))) 99999;
          totalCam = toAnafUnsignedInteger (dt_cam totals)
      in \<lparr> dc_type = D112, dc_period = pd_period p,
           dc_xml = xmlLines [xmlHeader,
             tag ''declaratieUnica''
               ([(''xmlns'', ''mfp:anaf:dgti:declaratie_unica:declaratie:v6''), (''luna_r'', showInt (anafMonth (pd_period p))),
                 (''an_r'', showInt (anafYear (pd_period p)))] @ declarantAttrs e) ''>'',
             ''  '' @ tag ''angajator''
               [(''cif'', companyCif e), (''caen'', companyCaen e), (''den'', companyName e), (''casaAng'', ''AB''),
                (''datCAM'', numberToString totalCam), (''bifa_CAM'', if 0 < totalCam then ''1'' else ''0''),
                (''totalPlata_A'', totalLiabilities)] ''>'',
             ''    '' @ tag ''angajatorA''
               [(''A_codBugetar'', ''20470101XX''), (''A_codOblig'', ''602''), (''A_datorat'', totalLiabilities), (''A_scutit'', ''0''),
                (''A_plata'', totalLiabilities)] '' />'',
             ''    '' @ tag ''angajatorB''
               [(''B_cnp'', ''0''), (''B_sanatate'', ''0''), (''B_pensie'', ''0''), (''B_brutSalarii'', unsignedText (dt_gross totals)),
                (''B_sal'', numberToString employeeCount)] '' />'',
             ''  </angajator>'', ''</declaratieUnica>''],
           dc_rowCount = length runs \<rparr>)"

section \<open>D101 and D100: profit and turnover\<close>

definition linesOfType :: "AccountType \<Rightarrow> id \<Rightarrow> date_range \<Rightarrow> 'z ledger_scheme \<Rightarrow> journal_line list" where
  "linesOfType ty c r db = filter (\<lambda>l. map_option a_type (accountOf (jl_accountId l) db) = Some ty) (journalLines c r db)"

record d101_amounts =
  dp_totalRevenue :: double
  dp_totalExpense :: double
  dp_accountingResult :: double
  dp_taxableProfit :: double
  dp_corporateTax :: double

definition d101Amounts :: "id \<Rightarrow> date_range \<Rightarrow> 'z ledger_scheme \<Rightarrow> d101_amounts" where
  "d101Amounts c r db =
     (let totalRevenue = round2 (toNumber (aggregateSum jl_credit (linesOfType REVENUE c r db)));
          totalExpense = round2 (toNumber (aggregateSum jl_debit (linesOfType EXPENSE c r db)));
          accountingResult = round2 (fsub totalRevenue totalExpense);
          taxableProfit = round2 (max accountingResult 0)
      in \<lparr> dp_totalRevenue = totalRevenue, dp_totalExpense = totalExpense, dp_accountingResult = accountingResult,
           dp_taxableProfit = taxableProfit, dp_corporateTax = round2 (fmul taxableProfit (fl (16 / 100))) \<rparr>)"

definition buildD101Xml :: "anaf_env \<Rightarrow> id \<Rightarrow> anaf_period \<Rightarrow> 'z ledger_scheme \<Rightarrow> anaf_payload" where
  "buildD101Xml e c p db =
     (let year = anafYear (pd_period p); r = buildAnnualRange year; a = d101Amounts c r db
      in \<lparr> dc_type = D101, dc_period = pd_period p,
           dc_xml = xmlLines [xmlHeader,
             tag ''declaratie101''
               ([(''xmlns'', ''mfp:anaf:dgti:d101:declaratie:v2''), (''an'', showInt year), (''cui'', companyCif e),
                 (''den'', companyName e)] @ declarantAttrs e) ''>'',
             ''  '' @ tag ''sinteza''
               [(''venituri'', signedText (dp_totalRevenue a)), (''cheltuieli'', signedText (dp_totalExpense a)),
                (''profitContabil'', signedText (dp_accountingResult a)), (''profitImpozabil'', signedText (dp_taxableProfit a)),
                (''impozitProfit'', signedText (dp_corporateTax a))] '' />'',
             ''</declaratie101>''],
           dc_rowCount = length (filter (\<lambda>x. je_companyId x = c \<and> inRange r (je_date x)) (entries db)) \<rparr>)"

definition buildD100Xml :: "anaf_env \<Rightarrow> id \<Rightarrow> anaf_period \<Rightarrow> 'z sales_scheme \<Rightarrow> anaf_payload" where
  "buildD100Xml e c p db =
     (let xs = invoicesIn notCancelled c (monthRange p) db; taxableBase = round2 (toNumber (aggregateSum i_total xs))
      in \<lparr> dc_type = D100, dc_period = pd_period p,
           dc_xml = xmlLines [xmlHeader,
             tag ''declaratie100''
               [(''xmlns'', ''mfp:anaf:dgti:d100:declaratie:v2''), (''an'', showInt (anafYear (pd_period p))),
                (''trimestru'', showInt (quarterFromMonth (anafMonth (pd_period p)))), (''perioada'', xmlEscape (pd_period p)),
                (''cui'', companyCif e), (''den'', companyName e)] ''>'',
             ''  '' @ tag ''obligatii''
               [(''bazaImpozabila'', signedText taxableBase), (''micro_1'', signedText (round2 (fmul taxableBase (fl (1 / 100))))),
                (''micro_3'', signedText (round2 (fmul taxableBase (fl (3 / 100)))))] '' />'',
             ''</declaratie100>''],
           dc_rowCount = length xs \<rparr>)"

section \<open>D205, D392 and D393: suppliers and the Union\<close>

definition buildD205Xml :: "anaf_env \<Rightarrow> id \<Rightarrow> anaf_period \<Rightarrow> 'z purchasing_scheme \<Rightarrow> anaf_payload" where
  "buildD205Xml e c p db =
     (let year = anafYear (pd_period p);
          xs = filter (\<lambda>x. sp_companyId x = c \<and> inRange (buildAnnualRange year) (sp_date x)) (supplierPayments db);
          uniqueSuppliers = remdups (filter (\<lambda>i. i \<noteq> []) (map sp_supplierId xs))
      in \<lparr> dc_type = D205, dc_period = pd_period p,
           dc_xml = xmlLines [xmlHeader,
             tag ''declaratie205''
               [(''xmlns'', ''mfp:anaf:dgti:d205:declaratie:v2''), (''an'', showInt year), (''cui'', companyCif e), (''den'', companyName e)] ''>'',
             ''  '' @ tag ''sumar''
               [(''nrBeneficiari'', unsignedText (of_nat (length uniqueSuppliers))), (''venitBrut'', signedText (sumColumn sp_amount xs)),
                (''impozitRetinut'', signedText 0)] '' />'',
             ''</declaratie205>''],
           dc_rowCount = length xs \<rparr>)"

definition intraEuPurchases :: "id \<Rightarrow> date_range \<Rightarrow> 'z purchasing_scheme \<Rightarrow> supplier_invoice list" where
  "intraEuPurchases c r db = filter (\<lambda>x. isNonRomanianCui (partnerCui (si_supplierId x) db))
     (filter (\<lambda>x. partnerCui (si_supplierId x) db \<noteq> None) (supplierInvoicesIn (\<lambda>st. st \<noteq> SI_CANCELLED) c r db))"

definition buildD392Xml :: "anaf_env \<Rightarrow> id \<Rightarrow> anaf_period \<Rightarrow> 'z purchasing_scheme \<Rightarrow> anaf_payload" where
  "buildD392Xml e c p db =
     (let year = anafYear (pd_period p); xs = intraEuPurchases c (buildAnnualRange year) db;
          acquisitionsValue = sumColumn si_total xs
      in \<lparr> dc_type = D392, dc_period = pd_period p,
           dc_xml = xmlLines [xmlHeader,
             tag ''declaratie392''
               [(''xmlns'', ''mfp:anaf:dgti:d392:declaratie:v2''), (''an'', showInt year), (''cui'', companyCif e), (''den'', companyName e),
                (''plafonEur'', ''10000'')] ''>'',
             ''  '' @ tag ''achizitiiIntracomunitare''
               [(''nrOperatiuni'', unsignedText (of_nat (length xs))), (''valoare'', signedText acquisitionsValue),
                (''subPlafon'', if acquisitionsValue < 10000 then ''1'' else ''0'')] '' />'',
             ''</declaratie392>''],
           dc_rowCount = length xs \<rparr>)"

definition intraEuDeliveries :: "id \<Rightarrow> date_range \<Rightarrow> 'z sales_scheme \<Rightarrow> invoice list" where
  "intraEuDeliveries c r db = filter (\<lambda>x. isNonRomanianCui (invoiceCui db x))
     (filter (\<lambda>x. invoiceCui db x \<noteq> None) (invoicesIn notCancelled c r db))"

definition buildD393Xml :: "anaf_env \<Rightarrow> id \<Rightarrow> anaf_period \<Rightarrow> 'z sales_scheme \<Rightarrow> anaf_payload" where
  "buildD393Xml e c p db =
     (let xs = intraEuDeliveries c (monthRange p) db
      in \<lparr> dc_type = D393, dc_period = pd_period p,
           dc_xml = xmlLines [xmlHeader,
             tag ''declaratie393''
               [(''xmlns'', ''mfp:anaf:dgti:d393:declaratie:v2''), (''an'', showInt (anafYear (pd_period p))),
                (''luna'', showInt (anafMonth (pd_period p))), (''cui'', companyCif e), (''den'', companyName e)] ''>'',
             ''  '' @ tag ''livrariIntracomunitare''
               [(''nrOperatiuni'', unsignedText (of_nat (length xs))), (''valoare'', signedText (sumColumn i_total xs)),
                (''tva'', signedText (sumColumn i_vat xs))] '' />'',
             ''</declaratie393>''],
           dc_rowCount = length xs \<rparr>)"

end
