(* ===== verification/TaxGuarantees.thy ===== *)
theory TaxGuarantees
  imports TaxDeclarations StatementGuarantees
begin

text \<open>
  What the tax declarations declare: VAT from the posted entries, exact in cents; the social contributions to
  the nearest leu; the profit of D101 against the profit and loss account; and that no text of a setting can
  leave the attribute it is written into.
\<close>

section \<open>Escaping\<close>

definition escapeChar :: "char \<Rightarrow> string" where
  "escapeChar c = (if c = CHR ''&'' then ''&amp;'' else if c = CHR ''<'' then ''&lt;'' else if c = CHR ''>'' then ''&gt;''
     else if c = CHR 0x22 then ''&quot;'' else if c = CHR 0x27 then ''&apos;'' else [c])"

lemma replaceAll_concat: "replaceAll c r (concat (map g s)) = concat (map (\<lambda>x. replaceAll c r (g x)) s)"
  by (induction s) (auto simp: replaceAll_def)

lemma xmlEscape_chars: "xmlEscape v = concat (map escapeChar v)"
proof -
  have 1: "replaceAll c r s = concat (map (\<lambda>x. if x = c then r else [x]) s)" for c r s by (simp add: replaceAll_def)
  have "xmlEscape v = concat (map (\<lambda>x. replaceAll (CHR 0x27) ''&apos;'' (replaceAll (CHR 0x22) ''&quot;''
      (replaceAll (CHR ''>'') ''&gt;'' (replaceAll (CHR ''<'') ''&lt;'' (if x = CHR ''&'' then ''&amp;'' else [x]))))) v)"
    unfolding xmlEscape_def 1[of "CHR ''&''"] replaceAll_concat ..
  also have "\<dots> = concat (map escapeChar v)"
    by (rule arg_cong[where f = concat], rule map_cong[OF refl]) (simp add: replaceAll_def escapeChar_def)
  finally show ?thesis .
qed

text \<open>What an XML parser reads: the five entities, and any other character as it is.\<close>

definition entities :: "(string \<times> char) list" where
  "entities = [(''&amp;'', CHR ''&''), (''&lt;'', CHR ''<''), (''&gt;'', CHR ''>''), (''&quot;'', CHR 0x22), (''&apos;'', CHR 0x27)]"

function xmlUnescape :: "string \<Rightarrow> string" where
  "xmlUnescape [] = []"
| "xmlUnescape (c # s) = (case find (\<lambda>e. startsWith (c # s) (fst e)) entities of
       Some e \<Rightarrow> snd e # xmlUnescape (drop (length (fst e) - 1) s)
     | None \<Rightarrow> c # xmlUnescape s)"
  by pat_completeness auto
termination by (relation "measure length") auto

lemma unescape_char: "xmlUnescape (escapeChar c @ s) = c # xmlUnescape s"
  by (simp add: escapeChar_def entities_def startsWith_def)

lemma escapeChar_safe: "x \<in> set (escapeChar c) \<Longrightarrow> x \<noteq> CHR ''<'' \<and> x \<noteq> CHR ''>'' \<and> x \<noteq> CHR 0x22 \<and> x \<noteq> CHR 0x27"
  by (auto simp: escapeChar_def split: if_splits)

section \<open>Properties\<close>

text \<open>C40: A text written into an XML attribute stays in it: its escaped form has no quotation mark, apostrophe or
  angle bracket, and a parser that replaces the five entities reads the text back, whatever it is.\<close>

theorem xml_attribute_roundtrip:
  "xmlUnescape (xmlEscape v) = v \<and> set (xmlEscape v) \<inter> {CHR ''<'', CHR ''>'', CHR 0x22, CHR 0x27} = {}"
proof (induction v)
  case Nil
  show ?case by (simp add: xmlEscape_chars)
next
  case (Cons c v)
  then show ?case using escapeChar_safe[of _ c] by (auto simp: xmlEscape_chars unescape_char)
qed

text \<open>The VAT of a side, in cents: the net of the posted lines on its account, or the invoices when there are none.\<close>

definition sideVat :: "id \<Rightarrow> date_range \<Rightarrow> string \<Rightarrow> (journal_line list \<Rightarrow> int) \<Rightarrow> int \<Rightarrow> 'z ledger_scheme \<Rightarrow> int" where
  "sideVat c r num net invoiced db = (case find (\<lambda>a. a_companyId a = c \<and> a_code a = num) (accounts db) of
       None \<Rightarrow> invoiced
     | Some a \<Rightarrow> let ls = vatLines c r (a_id a) db in if ls = [] then invoiced else net ls)"

definition collectedVat :: "id \<Rightarrow> date_range \<Rightarrow> 'z purchasing_scheme \<Rightarrow> int" where
  "collectedVat c r db = sideVat c r ''4427'' (\<lambda>ls. credits ls - debits ls)
     (\<Sum>x\<leftarrow>invoicesIn (\<lambda>st. st \<in> {ISSUED, PARTIALLY_PAID, PAID}) c r db. i_vat x) db"

definition deductibleVat :: "id \<Rightarrow> date_range \<Rightarrow> 'z purchasing_scheme \<Rightarrow> int" where
  "deductibleVat c r db = sideVat c r ''4426'' (\<lambda>ls. debits ls - credits ls)
     (\<Sum>x\<leftarrow>supplierInvoicesIn (\<lambda>st. st \<in> {RECEIVED, SI_PARTIALLY_PAID, SI_PAID}) c r db. si_vat x) db"

lemma round2_diff: "\<bar>m\<bar> \<le> 2 ^ 44 \<Longrightarrow> \<bar>n\<bar> \<le> 2 ^ 44 \<Longrightarrow> round2 (fsub (cents m) (cents n)) = cents (m - n)"
  using round2_add[of m "- n"] by (simp add: fsub_cents)

lemma totals_size: "\<bar>debits ls\<bar> + \<bar>credits ls\<bar> \<le> (\<Sum>l\<leftarrow>ls. lineSize l)"
  by (induction ls) (auto simp: debits_def credits_def lineSize_def)

lemma side_in_cents:
  assumes fits: "\<forall>i. (\<Sum>l\<leftarrow>vatLines c r i db. lineSize l) \<le> 2 ^ 43" and inv: "\<bar>m\<bar> \<le> 2 ^ 43"
  shows "orElse (map_option (\<lambda>(d, k). round2 (fsub k d)) (vatJournalByCode c r num db)) (round2 (cents m)) =
      cents (sideVat c r num (\<lambda>ls. credits ls - debits ls) m db)"
    "orElse (map_option (\<lambda>(d, k). round2 (fsub d k)) (vatJournalByCode c r num db)) (round2 (cents m)) =
      cents (sideVat c r num (\<lambda>ls. debits ls - credits ls) m db)"
    "\<bar>sideVat c r num (\<lambda>ls. credits ls - debits ls) m db\<bar> \<le> 2 ^ 43"
    "\<bar>sideVat c r num (\<lambda>ls. debits ls - credits ls) m db\<bar> \<le> 2 ^ 43"
proof -
  have b: "\<bar>debits (vatLines c r i db)\<bar> + \<bar>credits (vatLines c r i db)\<bar> \<le> 2 ^ 43" for i
    using totals_size[of "vatLines c r i db"] fits by (meson order_trans)
  have b1: "\<bar>debits (vatLines c r i db)\<bar> \<le> 2 ^ 44" "\<bar>credits (vatLines c r i db)\<bar> \<le> 2 ^ 44"
    "\<bar>debits (vatLines c r i db) - credits (vatLines c r i db)\<bar> \<le> 2 ^ 43"
    "\<bar>credits (vatLines c r i db) - debits (vatLines c r i db)\<bar> \<le> 2 ^ 43" for i using b[of i] by simp_all
  have m: "round2 (cents m) = cents m" using inv by simp
  have s: "(\<Sum>l\<leftarrow>ls. jl_debit l) = debits ls" "(\<Sum>l\<leftarrow>ls. jl_credit l) = credits ls" for ls by (simp_all add: debits_def credits_def)
  show "orElse (map_option (\<lambda>(d, k). round2 (fsub k d)) (vatJournalByCode c r num db)) (round2 (cents m)) =
      cents (sideVat c r num (\<lambda>ls. credits ls - debits ls) m db)"
    using b1 by (simp add: vatJournalByCode_def sideVat_def m s Let_def round2_diff split: option.splits)
  show "orElse (map_option (\<lambda>(d, k). round2 (fsub d k)) (vatJournalByCode c r num db)) (round2 (cents m)) =
      cents (sideVat c r num (\<lambda>ls. debits ls - credits ls) m db)"
    using b1 by (simp add: vatJournalByCode_def sideVat_def m s Let_def round2_diff split: option.splits)
  show "\<bar>sideVat c r num (\<lambda>ls. credits ls - debits ls) m db\<bar> \<le> 2 ^ 43" "\<bar>sideVat c r num (\<lambda>ls. debits ls - credits ls) m db\<bar> \<le> 2 ^ 43"
    using inv b1 by (simp_all add: sideVat_def Let_def split: option.splits)
qed


text \<open>The invoice of the demo is booked on 4427; nothing is booked on 4426.\<close>

definition demoTaxed :: purchasing where
  "demoTaxed = demoPurchasing\<lparr> accounts := accounts demoBooked, entries := [demoInvoiceEntry] \<rparr>"


text \<open>A draft does not change the declaration.\<close>

lemma d300_ignores_drafts:
  assumes "createEntry env u q db = Inr (e, db')"
  shows "d300Amounts c r db' = d300Amounts c r db"
proof -
  note d = createEntry_InrD[OF assms]
  obtain db1 where db1: "insertEntry e db = Inr db1"
    "db' = invalidateFinancialStatementsCache (writeAudit u ''journal_entries'' (Some (je_id e)) ''CREATE'' (ce_reason q) db1)"
    using d(9) by blast
  have "db1 = db\<lparr>entries := entries db @ [e]\<rparr>" using insertEntry_InrD[OF db1(1)] by blast
  then have "entries db' = entries db @ [e]" "accounts db' = accounts db" "invoices db' = invoices db" "supplierInvoices db' = supplierInvoices db"
    by (simp_all add: db1(2) invalidateFinancialStatementsCache_def writeAudit_def)
  then show ?thesis using d(5)
    by (simp add: d300Amounts_def invoicesIn_def supplierInvoicesIn_def vatJournalByCode_def vatLines_def cong: option.case_cong)
qed

lemma netByType_lines: "netByType db ty (journalLines c r db) = debits (linesOfType ty c r db) - credits (linesOfType ty c r db)"
proof -
  have "netByType db ty ls = debits (filter (hasType db ty) ls) - credits (filter (hasType db ty) ls)" for ls
    by (induction ls) (simp_all add: netByType_def debits_def credits_def)
  then show ?thesis by (simp add: linesOfType_def hasType_def[abs_def])
qed

text \<open>C38: D101 does not net reversals. The profit it declares is the profit of the statements plus everything that was
  debited to accounts of revenue and minus everything that was credited to accounts of expense: a storno, which
  brings the profit of the statements back, leaves the declared profit as it was.\<close>

theorem d101_profit:
  fixes db :: "'z sales_scheme"
  assumes fk: "\<forall>l \<in> set (journalLines c r db). accountOf (jl_accountId l) db \<noteq> None"
    and size: "(\<Sum>l\<leftarrow>journalLines c r db. lineSize l) \<le> 2 ^ 43"
  shows "\<exists>m. dp_accountingResult (d101Amounts c r db) =
      cents (m + debits (linesOfType REVENUE c r db) - credits (linesOfType EXPENSE c r db)) \<and>
    pl_netProfit (sb_pnl (computeStatements collate c r t db runRows)) = cents m"
proof -
  let ?R = "linesOfType REVENUE c r db" and ?E = "linesOfType EXPENSE c r db"
  have sub: "(\<Sum>l\<leftarrow>filter P ls. lineSize l) \<le> (\<Sum>l\<leftarrow>ls. lineSize l)" for P ls
    by (induction ls) (auto simp: lineSize_def)
  have b: "\<bar>debits (linesOfType ty c r db)\<bar> + \<bar>credits (linesOfType ty c r db)\<bar> \<le> 2 ^ 43" for ty
    using totals_size[of "linesOfType ty c r db"] sub[of _ "journalLines c r db"] size unfolding linesOfType_def by (meson order_trans)
  have s: "(\<Sum>l\<leftarrow>ls. jl_debit l) = debits ls" "(\<Sum>l\<leftarrow>ls. jl_credit l) = credits ls" for ls by (simp_all add: debits_def credits_def)
  have "dp_accountingResult (d101Amounts c r db) = cents (credits ?R - debits ?E)"
    using b[of REVENUE] b[of EXPENSE] by (simp add: d101Amounts_def Let_def s round2_diff)
  moreover have "pl_netProfit (sb_pnl (computeStatements collate c r t db runRows)) = cents (credits ?R - debits ?R - (debits ?E - credits ?E))"
    using results_in_cents(1)[OF fk, of collate] size by (simp add: computeStatements_def Let_def netByType_lines)
  ultimately show ?thesis by (intro exI[of _ "credits ?R - debits ?R - (debits ?E - credits ?E)"]) (simp add: algebra_simps)
qed

text \<open>The same invoice, reversed by a storno: the statements show no profit, D101 declares 100.10.\<close>

definition demoReversal :: journal_entry where
  "demoReversal = demoInvoiceEntry\<lparr> je_id := ''z0'', je_number := Some ''NC-2024-000002'', je_reversalOfEntryId := Some ''i1'',
     je_lines := map swapLine (je_lines demoInvoiceEntry) \<rparr>"

definition demoUnbooked :: sales where
  "demoUnbooked = demoBooked\<lparr> entries := [demoInvoiceEntry, demoReversal] \<rparr>"

theorem d101_profit_witness:
  "dp_accountingResult (d101Amounts ''c'' noRange demoUnbooked) = cents 10010 \<and>
   pl_netProfit (sb_pnl (computeStatements (\<lambda>s. length s) ''c'' noRange 0 demoUnbooked [])) = cents 0"
proof -
  have ls: "journalLines ''c'' noRange demoUnbooked = je_lines demoInvoiceEntry @ map swapLine (je_lines demoInvoiceEntry)"
    by (simp add: journalLines_def demoUnbooked_def demoBooked_def demoReversal_def demoInvoiceEntry_def noRange_def inRange_def hasRange_def)
  have fk: "\<forall>l \<in> set (journalLines ''c'' noRange demoUnbooked). accountOf (jl_accountId l) demoUnbooked \<noteq> None"
    unfolding ls by (simp add: demoInvoiceEntry_def swapLine_def accountOf_def demoUnbooked_def demoBooked_def demoAccount_def)
  have size: "(\<Sum>l\<leftarrow>journalLines ''c'' noRange demoUnbooked. lineSize l) \<le> 2 ^ 43"
    unfolding ls by (simp add: demoInvoiceEntry_def swapLine_def lineSize_def)
  have "debits (linesOfType REVENUE ''c'' noRange demoUnbooked) = 10010" "credits (linesOfType EXPENSE ''c'' noRange demoUnbooked) = 0"
    unfolding linesOfType_def ls
    by (simp_all add: demoInvoiceEntry_def swapLine_def accountOf_def demoUnbooked_def demoBooked_def demoAccount_def debits_def credits_def)
  moreover have "netByType demoUnbooked REVENUE (journalLines ''c'' noRange demoUnbooked) = 0" "netByType demoUnbooked EXPENSE (journalLines ''c'' noRange demoUnbooked) = 0"
    unfolding ls by (simp_all add: netByType_def hasType_def demoInvoiceEntry_def swapLine_def accountOf_def demoUnbooked_def demoBooked_def demoAccount_def)
  then have "pl_netProfit (sb_pnl (computeStatements (\<lambda>s. length s) ''c'' noRange 0 demoUnbooked [])) = cents 0"
    using results_in_cents(1)[OF fk, of "\<lambda>s. length s"] size by (simp add: computeStatements_def Let_def)
  moreover have "cents m = 0 \<Longrightarrow> m = 0" if "\<bar>m\<bar> \<le> 2 ^ 49" for m using cent.grid_eq_cmp[OF that, of 0] by auto
  ultimately show ?thesis using d101_profit[OF fk size, of "\<lambda>s. length s" 0 "[]"] by auto
qed

text \<open>The contributions of D112, in cents.\<close>

definition runLiabilities :: "payroll_run \<Rightarrow> int" where
  "runLiabilities x = run_totalCas x + run_totalCass x + run_totalTax x + run_totalCam x"

lemma d112_total_in_cents:
  assumes nn: "\<forall>x \<in> set runs. 0 \<le> f x" and le: "(\<Sum>x\<leftarrow>runs. f x) \<le> 2 ^ 40"
    and upd: "\<And>t x. g (addRun x t) = round2 (fadd (g t) (cents (f x)))" and z: "0 \<le> a" "a + (\<Sum>x\<leftarrow>runs. f x) \<le> 2 ^ 40" "g t = cents a"
  shows "g (foldl (\<lambda>t x. addRun x t) t runs) = cents (a + (\<Sum>x\<leftarrow>runs. f x))"
  using nn le z
proof (induction runs arbitrary: a t)
  case (Cons x runs)
  have s: "0 \<le> (\<Sum>x\<leftarrow>runs. f x)" using Cons.prems(1) by (intro sum_list_nonneg) auto
  have "g (addRun x t) = cents (a + f x)" using Cons.prems s by (simp add: upd round2_add)
  then show ?case using Cons.IH[of "a + f x" "addRun x t"] Cons.prems s by (simp add: add.assoc)
qed simp

lemma fadd_close:
  assumes "\<bar>100 * a - of_int m\<bar> \<le> p" "\<bar>100 * b - of_int n\<bar> \<le> q" "\<bar>m + n\<bar> \<le> 2 ^ 42" "p + q \<le> 1"
  shows "\<bar>100 * fadd a b - of_int (m + n)\<bar> \<le> p + q + 1 / 1000"
proof -
  have mn: "\<bar>of_int (m + n) :: rat\<bar> \<le> 2 ^ 42" using int_bound[OF assms(3)] by simp
  have c: "\<bar>100 * (a + b) - of_int (m + n)\<bar> \<le> p + q" using assms(1,2) unfolding of_int_add distrib_left abs_le_iff by linarith
  then have "\<bar>a + b\<bar> \<le> 2 ^ 36" using mn assms(4) unfolding abs_le_iff by simp
  then have "\<bar>a + b\<bar> / 2 ^ 53 + 1 / 2 ^ 1000 \<le> 2 ^ 36 / 2 ^ 53 + 1 / 2 ^ 1000" by (intro add_right_mono divide_right_mono) simp_all
  also have "\<dots> \<le> 1 / 100000" by simp
  finally have "\<bar>fl (a + b) - (a + b)\<bar> \<le> 1 / 100000" using fl_err[of "a + b"] by linarith
  then have f: "\<bar>100 * (fl (a + b) - (a + b))\<bar> \<le> 1 / 1000" unfolding abs_mult by simp
  have "100 * fl (a + b) - of_int (m + n) = 100 * (fl (a + b) - (a + b)) + (100 * (a + b) - of_int (m + n))" by (simp add: algebra_simps)
  then show ?thesis unfolding fadd_def using order_trans[OF abs_triangle_ineq add_mono[OF f c]] by (simp add: add.commute)
qed

text \<open>C39: D112 declares the contributions to the nearest leu: the amount to pay is a whole number of lei within half a
  leu of the exact sum of CAS, CASS, tax and CAM over the runs of the month, and never negative.\<close>

theorem d112_liabilities:
  assumes nn: "\<forall>x \<in> set runs. 0 \<le> run_totalCas x \<and> 0 \<le> run_totalCass x \<and> 0 \<le> run_totalTax x \<and> 0 \<le> run_totalCam x"
    and le: "(\<Sum>x\<leftarrow>runs. runLiabilities x) \<le> 2 ^ 40"
  shows "\<exists>n. d112Liabilities (d112Totals runs) = of_int n \<and> 0 \<le> n \<and> \<bar>100 * n - (\<Sum>x\<leftarrow>runs. runLiabilities x)\<bar> \<le> 50"
proof -
  define A B C D where "A = (\<Sum>x\<leftarrow>runs. run_totalCas x)" and "B = (\<Sum>x\<leftarrow>runs. run_totalCass x)"
    and "C = (\<Sum>x\<leftarrow>runs. run_totalTax x)" and "D = (\<Sum>x\<leftarrow>runs. run_totalCam x)"
  note defs = A_def B_def C_def D_def
  have T: "(\<Sum>x\<leftarrow>runs. runLiabilities x) = A + B + C + D" by (simp add: defs runLiabilities_def sum_list_addf)
  have pos: "0 \<le> A" "0 \<le> B" "0 \<le> C" "0 \<le> D" unfolding defs by (rule sum_list_nonneg; use nn in auto)+
  have bd: "A \<le> 2 ^ 40" "B \<le> 2 ^ 40" "C \<le> 2 ^ 40" "D \<le> 2 ^ 40" using le pos unfolding T by simp_all
  have tot: "dt_cas (d112Totals runs) = cents A" "dt_cass (d112Totals runs) = cents B"
    "dt_tax (d112Totals runs) = cents C" "dt_cam (d112Totals runs) = cents D"
    unfolding d112Totals_def defs
    using d112_total_in_cents[of runs run_totalCas dt_cas 0] d112_total_in_cents[of runs run_totalCass dt_cass 0]
      d112_total_in_cents[of runs run_totalTax dt_tax 0] d112_total_in_cents[of runs run_totalCam dt_cam 0] nn bd
    by (simp_all add: addRun_def defs)
  define v where "v = fadd (fadd (fadd (cents A) (cents B)) (cents C)) (cents D)"
  have c: "\<bar>100 * cents k - of_int k\<bar> \<le> 1 / 20" if "0 \<le> k" "k \<le> 2 ^ 40" for k using cent.grid_close_44[of k] that by simp
  have "\<bar>100 * v - of_int (A + B + C + D)\<bar> \<le> ((1/20 + 1/20 + 1/1000) + 1/20 + 1/1000) + 1/20 + 1/1000"
    unfolding v_def by (intro fadd_close c) (use pos bd in simp_all)
  then have v: "\<bar>100 * v - of_int (A + B + C + D)\<bar> \<le> 1/2" by (rule order_trans) simp
  define n where "n = \<lfloor>v + 1/2\<rfloor>"
  have n: "of_int n \<le> v + 1/2" "v + 1/2 < of_int n + 1" unfolding n_def by linarith+
  have "of_int (100 * n - (A + B + C + D)) < (51 :: rat)" "of_int (100 * n - (A + B + C + D)) > (- 51 :: rat)"
    using n v unfolding abs_le_iff of_int_diff of_int_mult by simp_all
  then have near: "\<bar>100 * n - (A + B + C + D)\<bar> \<le> 50" by linarith
  then have n0: "0 \<le> n" using pos by linarith
  have "of_int (A + B + C + D) \<le> (2 ^ 42 :: rat)" using bd by (simp only: of_int_add) (simp add: int_bound)
  then have "isFinite v" using v pos unfolding isFinite_def abs_le_iff by (simp add: abs_if)
  then have "d112Liabilities (d112Totals runs) = of_int n"
    using n0 unfolding d112Liabilities_def tot v_def[symmetric] toAnafUnsignedInteger_def mathRound_def n_def[symmetric] by simp
  then show ?thesis using near n0 unfolding T by blast
qed

definition demoRun :: payroll_run where
  "demoRun = \<lparr> run_id = ''r'', run_companyId = ''c'', run_period = ''2024-02'', run_payDate = 1706745600000, run_status = PAYROLL_POSTED,
     run_totalGross = 500003, run_totalNet = 295502, run_totalCas = 125001, run_totalCass = 50000, run_totalTax = 29500,
     run_totalCam = 11250, run_createdById = ''u'', run_journalEntryId = None, run_lines = [] \<rparr>"

theorem d112_liabilities_witness:
  "d112Liabilities (d112Totals [demoRun]) = 2158"
proof -
  have r: "\<forall>x \<in> set [demoRun]. 0 \<le> run_totalCas x \<and> 0 \<le> run_totalCass x \<and> 0 \<le> run_totalTax x \<and> 0 \<le> run_totalCam x"
    "(\<Sum>x\<leftarrow>[demoRun]. runLiabilities x) \<le> 2 ^ 40" by (simp_all add: demoRun_def runLiabilities_def)
  obtain n where "d112Liabilities (d112Totals [demoRun]) = of_int n" "\<bar>100 * n - (\<Sum>x\<leftarrow>[demoRun]. runLiabilities x)\<bar> \<le> 50"
    using d112_liabilities[OF r] by blast
  moreover have "(\<Sum>x\<leftarrow>[demoRun]. runLiabilities x) = 215751" by (simp add: demoRun_def runLiabilities_def)
  ultimately have "\<bar>100 * n - 215751\<bar> \<le> 50" "d112Liabilities (d112Totals [demoRun]) = of_int n" by simp_all
  moreover from this(1) have "n = 2158" by presburger
  ultimately show ?thesis by simp
qed

end
