(* ===== verification/ETransport.thy ===== *)
theory ETransport
  imports Ledger JsonValues ListQuery
begin

text \<open>
  Road transports (routes/e-transport.ts, lib/e-transport.ts): the codes UIT, the state machine of a transport,
  its routes and its list. The bytes that \<open>randomBytes(5)\<close> gives at the k-th attempt are an argument. The check
  of a status change and its commit are separate steps of the source: between them another request may commit.
\<close>

section \<open>Tables\<close>

datatype ETransportShipmentStatus = GENERATED | IN_TRANSIT | DELIVERED | SHIPMENT_CANCELLED

record shipment =
  sh_id :: id
  sh_companyId :: id
  sh_createdById :: id
  sh_uit :: string
  sh_shipmentReference :: "string option"
  sh_vehicleNumber :: string
  sh_carrierName :: "string option"
  sh_originLocation :: string
  sh_destinationLocation :: string
  sh_goodsDescription :: string
  sh_goodsCategory :: "string option"
  sh_quantity :: "int option"
  sh_unit :: "string option"
  sh_grossWeightKg :: "int option"
  sh_plannedDepartureAt :: "date option"
  sh_actualDepartureAt :: "date option"
  sh_actualArrivalAt :: "date option"
  sh_status :: ETransportShipmentStatus
  sh_statusReason :: "string option"
  sh_metadata :: "json option"
  sh_createdAt :: date
  sh_updatedAt :: date

record transporting = ledger +
  shipments :: "shipment list"

section \<open>Codes\<close>

definition utcDatePart :: "date \<Rightarrow> string" where
  "utcDatePart t = showInt (getUTCFullYear t) @ pad2 (getUTCMonth t + 1) @ pad2 (getUTCDate t)"

definition hexDigit :: "nat \<Rightarrow> char" where
  "hexDigit d = (if d < 10 then digitChar d else char_of (55 + d))"

text \<open>\<open>bytes.toString('hex').toUpperCase()\<close>.\<close>

definition toHex :: "nat list \<Rightarrow> string" where
  "toHex bytes = concat (map (\<lambda>b. [hexDigit (b div 16), hexDigit (b mod 16)]) bytes)"

definition generateUitCode :: "date \<Rightarrow> nat list \<Rightarrow> string" where
  "generateUitCode t bytes = ''UIT-'' @ utcDatePart t @ ''-'' @ toHex bytes"

text \<open>\<open>/^UIT-\d{8}-[A-F0-9]{10}$/\<close>.\<close>

definition UIT_REGEX :: "string \<Rightarrow> bool" where
  "UIT_REGEX s \<longleftrightarrow> length s = 23 \<and> startsWith s ''UIT-'' \<and> list_all isDigit (take 8 (drop 4 s)) \<and> s ! 12 = CHR ''-'' \<and>
     list_all (\<lambda>c. isDigit c \<or> 65 \<le> code c \<and> code c \<le> 70) (drop 13 s)"

definition isValidUitCode :: "string \<Rightarrow> bool" where
  "isValidUitCode v \<longleftrightarrow> UIT_REGEX (trim v)"

definition MAX_UIT_GENERATION_ATTEMPTS :: nat where
  "MAX_UIT_GENERATION_ATTEMPTS = 12"

text \<open>The first candidate that no transport has, of at most twelve.\<close>

definition reserveUniqueUitCode :: "date \<Rightarrow> (nat \<Rightarrow> nat list) \<Rightarrow> 'z transporting_scheme \<Rightarrow> string option" where
  "reserveUniqueUitCode t entropy db =
     find (\<lambda>candidate. candidate \<notin> sh_uit ` set (shipments db)) (map (\<lambda>k. generateUitCode t (entropy k)) [0..<MAX_UIT_GENERATION_ATTEMPTS])"

section \<open>Status\<close>

fun ALLOWED_STATUS_TRANSITIONS :: "ETransportShipmentStatus \<Rightarrow> ETransportShipmentStatus list" where
  "ALLOWED_STATUS_TRANSITIONS GENERATED = [IN_TRANSIT, SHIPMENT_CANCELLED]"
| "ALLOWED_STATUS_TRANSITIONS IN_TRANSIT = [DELIVERED, SHIPMENT_CANCELLED]"
| "ALLOWED_STATUS_TRANSITIONS DELIVERED = []"
| "ALLOWED_STATUS_TRANSITIONS SHIPMENT_CANCELLED = []"

definition canTransitionETransportStatus :: "ETransportShipmentStatus \<Rightarrow> ETransportShipmentStatus \<Rightarrow> bool" where
  "canTransitionETransportStatus currentStatus nextStatus \<longleftrightarrow>
     currentStatus = nextStatus \<or> nextStatus \<in> set (ALLOWED_STATUS_TRANSITIONS currentStatus)"

section \<open>Routes\<close>

record shipment_req =
  cr_shipmentReference :: "string option"
  cr_vehicleNumber :: string
  cr_carrierName :: "string option"
  cr_originLocation :: string
  cr_destinationLocation :: string
  cr_goodsDescription :: string
  cr_goodsCategory :: "string option"
  cr_quantity :: "double option"
  cr_unit :: "string option"
  cr_grossWeightKg :: "double option"
  cr_plannedDepartureAt :: "date option"
  cr_metadata :: "json option"
  cr_reason :: "string option"

definition lengthIn :: "nat \<Rightarrow> nat \<Rightarrow> string \<Rightarrow> bool" where
  "lengthIn lo hi s \<longleftrightarrow> lo \<le> length s \<and> length s \<le> hi"

definition createShipmentSchema :: "shipment_req \<Rightarrow> bool" where
  "createShipmentSchema r \<longleftrightarrow> pred_option (lengthIn 3 64) (cr_shipmentReference r) \<and> lengthIn 2 32 (cr_vehicleNumber r) \<and>
     pred_option (lengthIn 2 160) (cr_carrierName r) \<and> lengthIn 2 200 (cr_originLocation r) \<and>
     lengthIn 2 200 (cr_destinationLocation r) \<and> lengthIn 3 500 (cr_goodsDescription r) \<and>
     pred_option (lengthIn 0 120) (cr_goodsCategory r) \<and> pred_option (\<lambda>x. 0 < x \<and> x \<le> 999999999) (cr_quantity r) \<and>
     pred_option (lengthIn 0 24) (cr_unit r) \<and> pred_option (\<lambda>x. 0 < x \<and> x \<le> 999999999) (cr_grossWeightKg r) \<and>
     pred_option (lengthIn 0 256) (cr_reason r)"

definition transport_normalizeOptionalString :: "string option \<Rightarrow> string option" where
  "transport_normalizeOptionalString v = (case v of None \<Rightarrow> None
     | Some s \<Rightarrow> let trimmed = trim s in if trimmed \<noteq> [] then Some trimmed else None)"

definition insertShipment :: "shipment \<Rightarrow> 'z transporting_scheme \<Rightarrow> http_error + 'z transporting_scheme" where
  "insertShipment x db =
     (if list_ex (\<lambda>y. sh_id y = sh_id x \<or> sh_uit y = sh_uit x) (shipments db)
      then Inl (conflict ''Codul UIT este deja alocat. Reincearca cererea.'')
      else Inr (db\<lparr>shipments := shipments db @ [x]\<rparr>))"

definition createShipment ::
  "(nat \<Rightarrow> nat list) \<Rightarrow> env \<Rightarrow> actor \<Rightarrow> shipment_req \<Rightarrow> 'z transporting_scheme \<Rightarrow> http_error + (shipment \<times> 'z transporting_scheme)" where
  "createShipment entropy env u r db =
     (if \<not> createShipmentSchema r then Inl (badRequest ''Date invalide pentru generarea UIT.'') else
      case reserveUniqueUitCode (now env) entropy db of
        None \<Rightarrow> Inl (HttpError 503 ''Generarea codului UIT a esuat. Incearca din nou.'')
      | Some uit \<Rightarrow>
          let created = \<lparr> sh_id = uuid env 0, sh_companyId = act_company u, sh_createdById = act_user u, sh_uit = uit,
                sh_shipmentReference = transport_normalizeOptionalString (cr_shipmentReference r),
                sh_vehicleNumber = toUpperCase (trim (cr_vehicleNumber r)),
                sh_carrierName = transport_normalizeOptionalString (cr_carrierName r),
                sh_originLocation = trim (cr_originLocation r), sh_destinationLocation = trim (cr_destinationLocation r),
                sh_goodsDescription = trim (cr_goodsDescription r), sh_goodsCategory = transport_normalizeOptionalString (cr_goodsCategory r),
                sh_quantity = map_option (storeDec env 1000) (cr_quantity r), sh_unit = transport_normalizeOptionalString (cr_unit r),
                sh_grossWeightKg = map_option (storeDec env 1000) (cr_grossWeightKg r),
                sh_plannedDepartureAt = cr_plannedDepartureAt r, sh_actualDepartureAt = None, sh_actualArrivalAt = None,
                sh_status = GENERATED, sh_statusReason = None, sh_metadata = cr_metadata r,
                sh_createdAt = now env, sh_updatedAt = now env \<rparr>
          in bindR (insertShipment created db) (\<lambda>db.
             Inr (created, writeAudit u ''ETransportShipment'' (Some (sh_id created)) ''E_TRANSPORT_CREATE''
               (Some (orElse (cr_reason r) ''generate-uit'')) db)))"

record status_req =
  us_status :: ETransportShipmentStatus
  us_statusReason :: "string option"
  us_actualDepartureAt :: "date option"
  us_actualArrivalAt :: "date option"
  us_reason :: "string option"

definition updateShipmentStatusSchema :: "status_req \<Rightarrow> bool" where
  "updateShipmentStatusSchema r \<longleftrightarrow> pred_option (lengthIn 0 300) (us_statusReason r) \<and> pred_option (lengthIn 0 256) (us_reason r)"

definition findShipment :: "id \<Rightarrow> id \<Rightarrow> 'z transporting_scheme \<Rightarrow> shipment option" where
  "findShipment c i db = find (\<lambda>x. sh_id x = i \<and> sh_companyId x = c) (shipments db)"

text \<open>The checks of a status change, before its transaction.\<close>

definition checkStatusChange :: "actor \<Rightarrow> id \<Rightarrow> status_req \<Rightarrow> 'z transporting_scheme \<Rightarrow> http_error + shipment" where
  "checkStatusChange u i r db =
     (if \<not> updateShipmentStatusSchema r then Inl (badRequest ''Date invalide pentru actualizarea statusului transportului.'') else
      case findShipment (act_company u) i db of
        None \<Rightarrow> Inl (notFound ''Transportul nu exista.'')
      | Some x \<Rightarrow> if \<not> canTransitionETransportStatus (sh_status x) (us_status r)
          then Inl (conflict ''Tranzitie invalida de status.'') else Inr x)"

text \<open>An undefined date leaves the column as it is; the reason of the status is always written.\<close>

definition applyStatus :: "date \<Rightarrow> status_req \<Rightarrow> shipment \<Rightarrow> shipment" where
  "applyStatus t r x =
     (let defaultDepartureAt = (if us_status r = IN_TRANSIT \<and> us_actualDepartureAt r = None then Some t else None);
          defaultArrivalAt = (if us_status r = DELIVERED \<and> us_actualArrivalAt r = None then Some t else None)
      in x\<lparr> sh_status := us_status r, sh_statusReason := transport_normalizeOptionalString (us_statusReason r),
           sh_actualDepartureAt := elseText (elseText (us_actualDepartureAt r) defaultDepartureAt) (sh_actualDepartureAt x),
           sh_actualArrivalAt := elseText (elseText (us_actualArrivalAt r) defaultArrivalAt) (sh_actualArrivalAt x),
           sh_updatedAt := t \<rparr>)"

definition commitStatusChange :: "env \<Rightarrow> actor \<Rightarrow> shipment \<Rightarrow> status_req \<Rightarrow> 'z transporting_scheme \<Rightarrow> 'z transporting_scheme" where
  "commitStatusChange env u x r db =
     writeAudit u ''ETransportShipment'' (Some (sh_id x)) ''E_TRANSPORT_STATUS_UPDATE'' (Some (orElse (us_reason r) ''update-transport-status''))
       (db\<lparr>shipments := updateWhere (\<lambda>y. sh_id y = sh_id x) (applyStatus (now env) r) (shipments db)\<rparr>)"

definition updateShipmentStatus ::
  "env \<Rightarrow> actor \<Rightarrow> id \<Rightarrow> status_req \<Rightarrow> 'z transporting_scheme \<Rightarrow> http_error + 'z transporting_scheme" where
  "updateShipmentStatus env u i r db = bindR (checkStatusChange u i r db) (\<lambda>x. Inr (commitStatusChange env u x r db))"

section \<open>Reading\<close>

definition getShipment :: "actor \<Rightarrow> id \<Rightarrow> 'z transporting_scheme \<Rightarrow> http_error + shipment" where
  "getShipment u i db = (case findShipment (act_company u) i db of None \<Rightarrow> Inl (notFound ''Transportul nu exista.'') | Some x \<Rightarrow> Inr x)"

definition countStatus :: "id \<Rightarrow> ETransportShipmentStatus \<Rightarrow> 'z transporting_scheme \<Rightarrow> nat" where
  "countStatus c st db = length (filter (\<lambda>x. sh_companyId x = c \<and> sh_status x = st) (shipments db))"

record transport_monitor =
  tm_generated :: nat
  tm_inTransit :: nat
  tm_delivered :: nat
  tm_cancelled :: nat
  tm_activeShipments :: "shipment list"

definition monitorShipments :: "actor \<Rightarrow> 'z transporting_scheme \<Rightarrow> transport_monitor" where
  "monitorShipments u db =
     \<lparr> tm_generated = countStatus (act_company u) GENERATED db, tm_inTransit = countStatus (act_company u) IN_TRANSIT db,
       tm_delivered = countStatus (act_company u) DELIVERED db, tm_cancelled = countStatus (act_company u) SHIPMENT_CANCELLED db,
       tm_activeShipments = take 25 (sort_key (\<lambda>x. - sh_updatedAt x)
         (filter (\<lambda>x. sh_companyId x = act_company u \<and> sh_status x \<in> {GENERATED, IN_TRANSIT}) (shipments db))) \<rparr>"

section \<open>The list\<close>

text \<open>\<open>contains\<close> without regard to case, of a column that may be null.\<close>

definition containsInsensitive :: "string \<Rightarrow> string option \<Rightarrow> bool" where
  "containsInsensitive t v = (case v of None \<Rightarrow> False | Some s \<Rightarrow> includesText (toLowerCase s) (toLowerCase t))"

definition matchesSearch :: "string option \<Rightarrow> shipment \<Rightarrow> bool" where
  "matchesSearch search x = (case search of None \<Rightarrow> True | Some t \<Rightarrow>
     list_ex (containsInsensitive t) [Some (sh_uit x), sh_shipmentReference x, Some (sh_vehicleNumber x), sh_carrierName x,
       Some (sh_originLocation x), Some (sh_destinationLocation x), Some (sh_goodsDescription x), sh_goodsCategory x])"

text \<open>The order of the database: numbers for the columns, \<open>collate\<close> for the texts, and a null after every value.\<close>

fun statusRank :: "ETransportShipmentStatus \<Rightarrow> int" where
  "statusRank GENERATED = 0"
| "statusRank IN_TRANSIT = 1"
| "statusRank DELIVERED = 2"
| "statusRank SHIPMENT_CANCELLED = 3"

definition orderBy :: "string \<Rightarrow> (shipment \<Rightarrow> int option) \<Rightarrow> shipment list \<Rightarrow> shipment list" where
  "orderBy direction k rows =
     (let values = filter (\<lambda>x. k x \<noteq> None) rows; nulls = filter (\<lambda>x. k x = None) rows in
      if direction = ''desc'' then nulls @ sort_key (\<lambda>x. - the (k x)) values else sort_key (\<lambda>x. the (k x)) values @ nulls)"

definition buildOrderBy :: "(string \<Rightarrow> int) \<Rightarrow> string \<Rightarrow> string \<Rightarrow> shipment list \<Rightarrow> shipment list" where
  "buildOrderBy collate sortField direction rows =
     (if sortField = ''updatedAt'' then orderBy direction (\<lambda>x. Some (sh_updatedAt x)) (orderBy ''desc'' (\<lambda>x. Some (sh_createdAt x)) rows)
      else if sortField = ''uit'' then orderBy direction (\<lambda>x. Some (collate (sh_uit x))) rows
      else if sortField = ''status'' then orderBy direction (\<lambda>x. Some (statusRank (sh_status x))) (orderBy ''desc'' (\<lambda>x. Some (sh_updatedAt x)) rows)
      else if sortField = ''vehicleNumber'' then orderBy direction (\<lambda>x. Some (collate (sh_vehicleNumber x))) (orderBy ''desc'' (\<lambda>x. Some (sh_createdAt x)) rows)
      else if sortField = ''plannedDepartureAt'' then orderBy direction sh_plannedDepartureAt (orderBy ''desc'' (\<lambda>x. Some (sh_createdAt x)) rows)
      else orderBy direction (\<lambda>x. Some (sh_createdAt x)) rows)"

definition shipmentListOptions :: list_options where
  "shipmentListOptions = \<lparr> lo_allowedSortFields = [''createdAt'', ''updatedAt'', ''uit'', ''status'', ''vehicleNumber'', ''plannedDepartureAt''],
     lo_defaultSortField = ''createdAt'', lo_defaultSortDirection = Some ''desc'', lo_defaultPageSize = Some 50, lo_maxPageSize = Some 200,
     lo_defaultPaginationEnabled = Some True \<rparr>"

definition statusValues :: "(string \<times> ETransportShipmentStatus) list" where
  "statusValues = [(''GENERATED'', GENERATED), (''IN_TRANSIT'', IN_TRANSIT), (''DELIVERED'', DELIVERED), (''CANCELLED'', SHIPMENT_CANCELLED)]"

definition statusFilter :: "query_value option \<Rightarrow> http_error + ETransportShipmentStatus option" where
  "statusFilter v =
     (let rawStatus = (case v of Some (QText s) \<Rightarrow> toUpperCase (trim s) | _ \<Rightarrow> []) in
      if rawStatus = [] then Inr None
      else case map_of statusValues rawStatus of None \<Rightarrow> Inl (badRequest ''Filtrul status este invalid.'') | Some st \<Rightarrow> Inr (Some st))"

text \<open>The database client refuses an order whose direction is neither of the two.\<close>

definition listShipments ::
  "(string \<Rightarrow> int) \<Rightarrow> actor \<Rightarrow> (string \<Rightarrow> query_value option) \<Rightarrow> 'z transporting_scheme \<Rightarrow> http_error + (shipment list \<times> page_headers option)" where
  "listShipments collate u query db =
     bindR (parseListQuery query shipmentListOptions) (\<lambda>q.
     bindR (statusFilter (query ''status'')) (\<lambda>st.
     if lq_sortDirection q \<notin> {''asc'', ''desc''} then Inl (internal ''Eroare interna de server.'') else
     let rows = filter (\<lambda>x. sh_companyId x = act_company u \<and> (st = None \<or> st = Some (sh_status x)) \<and> matchesSearch (lq_search q) x) (shipments db)
     in Inr (pageRows q (buildOrderBy collate (lq_sortField q) (lq_sortDirection q) rows),
          if lq_paginationEnabled q then Some (setPaginationHeaders (length rows) q) else None)))"

end
