(* ===== verification/TransportGuarantees.thy ===== *)
theory TransportGuarantees
  imports ETransport LedgerHistory
begin

text \<open>
  Transports over their whole history: every transport has a code of its own that is well formed, and its status
  moves along the state machine only, as long as requests follow one another. Two requests that are checked
  before either commits break it.
\<close>

section \<open>Codes\<close>

text \<open>What \<open>randomBytes(5)\<close> gives.\<close>

definition entropyOk :: "(nat \<Rightarrow> nat list) \<Rightarrow> bool" where
  "entropyOk entropy \<longleftrightarrow> (\<forall>k. length (entropy k) = 5 \<and> (\<forall>b \<in> set (entropy k). b < 256))"

definition yearOk :: "date \<Rightarrow> bool" where
  "yearOk t \<longleftrightarrow> 1000 \<le> getUTCFullYear t \<and> getUTCFullYear t \<le> 9999"

lemma trim_solid:
  assumes "s \<noteq> []" "\<not> isSpace (hd s)" "\<not> isSpace (last s)" shows "trim s = s"
proof -
  have "dropWhile isSpace s = s" using assms(1,2) by (cases s) auto
  moreover have "dropWhile isSpace (rev s) = rev s" using assms(1,3) by (cases "rev s") (auto simp: last_rev[symmetric] simp del: last_rev)
  ultimately show ?thesis by (simp add: trim_def trimStart_def trimEnd_def)
qed

lemma hexDigit_hex: "d < 16 \<Longrightarrow> isDigit (hexDigit d) \<or> 65 \<le> code (hexDigit d) \<and> code (hexDigit d) \<le> 70"
  by (auto simp: hexDigit_def code_def)

lemma toHex_props:
  assumes "\<forall>b \<in> set bytes. b < 256"
  shows "length (toHex bytes) = 2 * length bytes" "list_all (\<lambda>c. isDigit c \<or> 65 \<le> code c \<and> code c \<le> 70) (toHex bytes)"
proof -
  show "length (toHex bytes) = 2 * length bytes" by (induction bytes) (simp_all add: toHex_def)
  show "list_all (\<lambda>c. isDigit c \<or> 65 \<le> code c \<and> code c \<le> 70) (toHex bytes)"
    using assms
  proof (induction bytes)
    case (Cons b bytes)
    have "b div 16 < 16" "b mod 16 < 16" using Cons.prems by (simp_all add: less_mult_imp_div_less)
    then show ?case using Cons hexDigit_hex by (simp add: toHex_def)
  qed (simp add: toHex_def)
qed

lemma utcDatePart_props:
  assumes "yearOk t" shows "length (utcDatePart t) = 8" "list_all isDigit (utcDatePart t)"
proof -
  have y: "length (showInt (getUTCFullYear t)) = 4" "list_all isDigit (showInt (getUTCFullYear t))"
    using assms length_showNat_eq[of 3 "nat (getUTCFullYear t)"] showNat_digits[of "nat (getUTCFullYear t)"]
    by (simp_all add: yearOk_def showInt_of_nat le_nat_iff nat_less_iff list_all_iff)
  have m: "0 \<le> getUTCMonth t + 1" "getUTCMonth t + 1 \<le> 99" "0 \<le> getUTCDate t" "getUTCDate t \<le> 99"
    using getUTCMonth_range[of t] getUTCDate_range[of t] by simp_all
  show "length (utcDatePart t) = 8" using y pad2_props(1)[OF m(1,2)] pad2_props(1)[OF m(3,4)] by (simp add: utcDatePart_def)
  show "list_all isDigit (utcDatePart t)" using y pad2_props(2)[OF m(1,2)] pad2_props(2)[OF m(3,4)] by (simp add: utcDatePart_def)
qed

lemma generateUitCode_valid:
  assumes "yearOk t" "length bytes = 5" "\<forall>b \<in> set bytes. b < 256" shows "isValidUitCode (generateUitCode t bytes)"
proof -
  define d h where "d = utcDatePart t" and "h = toHex bytes"
  have d: "length d = 8" "list_all isDigit d" unfolding d_def by (rule utcDatePart_props[OF assms(1)])+
  have h: "length h = 10" "list_all (\<lambda>c. isDigit c \<or> 65 \<le> code c \<and> code c \<le> 70) h"
    using toHex_props[OF assms(3)] assms(2) by (simp_all add: h_def)
  have g: "generateUitCode t bytes = ''UIT-'' @ d @ ''-'' @ h" by (simp add: generateUitCode_def d_def h_def)
  have "h \<noteq> []" using h(1) by auto
  then have "isDigit (last h) \<or> 65 \<le> code (last h) \<and> code (last h) \<le> 70" using h(2) by (simp add: list_all_iff)
  then have "\<not> isSpace (last h)" by (auto simp: isSpace_def isDigit_def)
  then have "trim (''UIT-'' @ d @ ''-'' @ h) = ''UIT-'' @ d @ ''-'' @ h"
    using \<open>h \<noteq> []\<close> by (intro trim_solid) (simp_all add: isSpace_def code_def)
  moreover have "UIT_REGEX (''UIT-'' @ d @ ''-'' @ h)" using d h by (simp add: UIT_REGEX_def startsWith_def nth_append)
  ultimately show ?thesis by (simp add: isValidUitCode_def g)
qed

section \<open>Histories\<close>

definition transportsOk :: "'z transporting_scheme \<Rightarrow> bool" where
  "transportsOk db \<longleftrightarrow> distinct (map sh_id (shipments db)) \<and> distinct (map sh_uit (shipments db)) \<and>
     (\<forall>x \<in> set (shipments db). isValidUitCode (sh_uit x))"

inductive transport_step :: "'z transporting_scheme \<Rightarrow> 'z transporting_scheme \<Rightarrow> bool" where
  create: "entropyOk entropy \<Longrightarrow> yearOk (now env) \<Longrightarrow> createShipment entropy env u r db = Inr (x, db') \<Longrightarrow> transport_step db db'"
| update: "updateShipmentStatus env u i q db = Inr db' \<Longrightarrow> transport_step db db'"

text \<open>A status and those it may still reach; what stays of a transport.\<close>

definition leadsTo :: "ETransportShipmentStatus \<Rightarrow> ETransportShipmentStatus \<Rightarrow> bool" where
  "leadsTo a b \<longleftrightarrow> a = b \<or> a = GENERATED \<or> a = IN_TRANSIT \<and> b \<noteq> GENERATED"

lemma leadsTo_iff: "leadsTo a b \<longleftrightarrow> canTransitionETransportStatus\<^sup>*\<^sup>* a b"
proof
  assume l: "leadsTo a b"
  have s: "canTransitionETransportStatus GENERATED IN_TRANSIT" "canTransitionETransportStatus GENERATED SHIPMENT_CANCELLED"
    "canTransitionETransportStatus IN_TRANSIT DELIVERED" "canTransitionETransportStatus IN_TRANSIT SHIPMENT_CANCELLED"
    by (simp_all add: canTransitionETransportStatus_def)
  show "canTransitionETransportStatus\<^sup>*\<^sup>* a b" using l s
    by (cases a; cases b; simp add: leadsTo_def; (rule r_into_rtranclp, assumption | rule rtranclp_trans[OF r_into_rtranclp r_into_rtranclp], assumption, assumption))
next
  show "canTransitionETransportStatus\<^sup>*\<^sup>* a b \<Longrightarrow> leadsTo a b"
  proof (induction rule: rtranclp_induct)
    case (step b c)
    then show ?case by (cases a; cases b; cases c; simp add: leadsTo_def canTransitionETransportStatus_def)
  qed (simp add: leadsTo_def)
qed

definition continues :: "shipment \<Rightarrow> shipment \<Rightarrow> bool" where
  "continues x y \<longleftrightarrow> sh_id y = sh_id x \<and> sh_companyId y = sh_companyId x \<and> sh_uit y = sh_uit x \<and>
     sh_createdAt y = sh_createdAt x \<and> leadsTo (sh_status x) (sh_status y)"

lemma continues_refl [simp]: "continues x x"
  by (simp add: continues_def leadsTo_def)

lemma continues_trans: "continues x y \<Longrightarrow> continues y z \<Longrightarrow> continues x z"
  unfolding continues_def leadsTo_iff by (auto intro: rtranclp_trans)

lemma reserve_fresh:
  assumes "reserveUniqueUitCode t entropy db = Some uit" "entropyOk entropy" "yearOk t"
  shows "uit \<notin> sh_uit ` set (shipments db)" "isValidUitCode uit"
proof -
  note f = find_SomeD[OF assms(1)[unfolded reserveUniqueUitCode_def]]
  show "uit \<notin> sh_uit ` set (shipments db)" using f by simp
  show "isValidUitCode uit" using f assms(2,3) generateUitCode_valid by (auto simp: entropyOk_def)
qed

lemma createShipment_InrD:
  assumes "createShipment entropy env u r db = Inr (x, db')"
  shows "reserveUniqueUitCode (now env) entropy db = Some (sh_uit x)" "sh_id x \<notin> sh_id ` set (shipments db)"
    "shipments db' = shipments db @ [x]" "sh_status x = GENERATED"
proof -
  obtain uit db1 where u: "reserveUniqueUitCode (now env) entropy db = Some uit" "sh_uit x = uit" "sh_status x = GENERATED"
    "insertShipment x db = Inr db1" "shipments db' = shipments db1"
    using assms unfolding createShipment_def
    by (auto simp: Let_def bindR_eq_Inr writeAudit_def split: if_splits option.splits)
  show "reserveUniqueUitCode (now env) entropy db = Some (sh_uit x)" "sh_status x = GENERATED" using u by simp_all
  show "sh_id x \<notin> sh_id ` set (shipments db)" "shipments db' = shipments db @ [x]"
    using u(4,5) by (auto simp: insertShipment_def list_ex_iff split: if_splits)
qed

lemma commit_shipments:
  "shipments (commitStatusChange env u x r db) = updateWhere (\<lambda>y. sh_id y = sh_id x) (applyStatus (now env) r) (shipments db)"
  by (simp add: commitStatusChange_def writeAudit_def)

lemma applyStatus_fields [simp]:
  "sh_id (applyStatus t r x) = sh_id x" "sh_uit (applyStatus t r x) = sh_uit x" "sh_companyId (applyStatus t r x) = sh_companyId x"
  "sh_createdAt (applyStatus t r x) = sh_createdAt x" "sh_status (applyStatus t r x) = us_status r"
  by (simp_all add: applyStatus_def Let_def)

lemma checkStatusChange_InrD:
  "checkStatusChange u i r db = Inr x \<Longrightarrow> x \<in> set (shipments db) \<and> sh_id x = i \<and> sh_companyId x = act_company u \<and>
     canTransitionETransportStatus (sh_status x) (us_status r) \<and> updateShipmentStatusSchema r"
  by (auto simp: checkStatusChange_def findShipment_def dest!: find_SomeD split: if_splits option.splits)

lemma transport_step_ok:
  assumes "transport_step db db'" "transportsOk db"
  shows "transportsOk db' \<and> (\<forall>x \<in> set (shipments db). \<exists>y \<in> set (shipments db'). continues x y)"
  using assms
proof (induction rule: transport_step.induct)
  case (create entropy env u r db x db')
  note c = createShipment_InrD[OF create(3)]
  have "transportsOk db'" using create(4) c(2,3) reserve_fresh[OF c(1) create(1,2)] by (auto simp: transportsOk_def)
  moreover have "\<exists>y \<in> set (shipments db'). continues z y" if "z \<in> set (shipments db)" for z
    using that by (intro bexI[of _ z]) (simp_all add: c(3))
  ultimately show ?case by blast
next
  case (update env u i q db db')
  obtain x where x: "checkStatusChange u i q db = Inr x" "db' = commitStatusChange env u x q db"
    using update(1) by (auto simp: updateShipmentStatus_def bindR_eq_Inr)
  note c = checkStatusChange_InrD[OF x(1)]
  have s: "shipments db' = updateWhere (\<lambda>y. sh_id y = sh_id x) (applyStatus (now env) q) (shipments db)"
    by (simp add: x(2) commit_shipments)
  have "map sh_id (shipments db') = map sh_id (shipments db)" "map sh_uit (shipments db') = map sh_uit (shipments db)"
    unfolding s by (rule map_updateWhere; simp)+
  then have ok: "transportsOk db'" using update(2) by (auto simp: transportsOk_def s updateWhere_set)
  have "continues z (if sh_id z = sh_id x then applyStatus (now env) q z else z)" if "z \<in> set (shipments db)" for z
  proof (cases "sh_id z = sh_id x")
    case True
    then have "z = x" using that c update(2) by (metis transportsOk_def eq_key_imp_eq_value map_of_eq_None_iff distinct_map inj_onD)
    then show ?thesis using c by (simp add: continues_def leadsTo_iff r_into_rtranclp)
  qed simp
  then show ?case using ok unfolding s updateWhere_set by blast
qed

section \<open>Properties\<close>

text \<open>C36: Under any sequence of requests, every transport keeps its own, well-formed code UIT, no two share one, and its
  status only moves along the transitions that the table allows: once delivered or cancelled, it stays so.\<close>

theorem transport_history:
  assumes "transport_step\<^sup>*\<^sup>* db db'" "transportsOk db"
  shows "transportsOk db' \<and> (\<forall>x \<in> set (shipments db). \<exists>y \<in> set (shipments db'). sh_id y = sh_id x \<and> sh_uit y = sh_uit x \<and>
    canTransitionETransportStatus\<^sup>*\<^sup>* (sh_status x) (sh_status y) \<and>
    (sh_status x \<in> {DELIVERED, SHIPMENT_CANCELLED} \<longrightarrow> sh_status y = sh_status x))"
proof -
  have "transportsOk db' \<and> (\<forall>x \<in> set (shipments db). \<exists>y \<in> set (shipments db'). continues x y)"
    using assms
  proof (induction rule: rtranclp_induct)
    case (step b c)
    then show ?case using transport_step_ok[OF step(2)] continues_trans by blast
  qed (use continues_refl in blast)
  moreover have "sh_id y = sh_id x \<and> sh_uit y = sh_uit x \<and> canTransitionETransportStatus\<^sup>*\<^sup>* (sh_status x) (sh_status y) \<and>
      (sh_status x \<in> {DELIVERED, SHIPMENT_CANCELLED} \<longrightarrow> sh_status y = sh_status x)" if "continues x y" for x y
    using that by (auto simp: continues_def leadsTo_iff[symmetric] leadsTo_def)
  ultimately show ?thesis by blast
qed

text \<open>A transport of the demo, its delivery and its cancellation.\<close>

definition demoShipment :: "ETransportShipmentStatus \<Rightarrow> shipment" where
  "demoShipment st = \<lparr> sh_id = ''s'', sh_companyId = ''c'', sh_createdById = ''u'', sh_uit = ''UIT-20240201-0123456789'', sh_shipmentReference = None,
     sh_vehicleNumber = ''B01ABC'', sh_carrierName = None, sh_originLocation = ''Cluj'', sh_destinationLocation = ''Iasi'',
     sh_goodsDescription = ''grau'', sh_goodsCategory = None, sh_quantity = None, sh_unit = None, sh_grossWeightKg = None,
     sh_plannedDepartureAt = None, sh_actualDepartureAt = None, sh_actualArrivalAt = None, sh_status = st, sh_statusReason = None,
     sh_metadata = None, sh_createdAt = 0, sh_updatedAt = 0 \<rparr>"

definition demoTransports :: "shipment list \<Rightarrow> transporting" where
  "demoTransports xs = \<lparr> accounts = [], periods = [], entries = [], auditLog = [], fsCache = [], shipments = xs \<rparr>"

definition demoChange :: "ETransportShipmentStatus \<Rightarrow> status_req" where
  "demoChange st = \<lparr> us_status = st, us_statusReason = None, us_actualDepartureAt = None, us_actualArrivalAt = None, us_reason = None \<rparr>"

lemma demo_checked:
  "canTransitionETransportStatus st st' \<Longrightarrow>
     checkStatusChange demoActor ''s'' (demoChange st') (demoTransports [demoShipment st]) = Inr (demoShipment st)"
  by (simp add: checkStatusChange_def updateShipmentStatusSchema_def demoChange_def findShipment_def demoTransports_def demoShipment_def demoActor_def)

theorem transport_history_witness:
  "\<exists>db'. transport_step (demoTransports [demoShipment IN_TRANSIT]) db' \<and> transportsOk db' \<and> sh_status (hd (shipments db')) = DELIVERED"
proof -
  let ?db = "demoTransports [demoShipment IN_TRANSIT]"
  let ?db' = "commitStatusChange (demoEnv ''t'') demoActor (demoShipment IN_TRANSIT) (demoChange DELIVERED) ?db"
  have step: "transport_step ?db ?db'"
    by (rule transport_step.update[of "demoEnv ''t''" demoActor "''s''" "demoChange DELIVERED"])
      (simp add: updateShipmentStatus_def demo_checked canTransitionETransportStatus_def)
  have "isValidUitCode (sh_uit (demoShipment IN_TRANSIT))" unfolding demoShipment_def by code_simp
  then have "transportsOk ?db" by (simp add: transportsOk_def demoTransports_def)
  then have "transportsOk ?db'" using transport_history[OF r_into_rtranclp[of transport_step, OF step]] by blast
  moreover have "sh_status (hd (shipments ?db')) = DELIVERED"
    by (simp add: commit_shipments demoTransports_def demoChange_def)
  ultimately show ?thesis using step by blast
qed

text \<open>The check of a status change reads the transport before the transaction that writes it. Of two requests that
  are both checked while the transport is on the road, one to deliver it and one to cancel it, both are carried out,
  and the delivered transport ends cancelled; in sequence the second would have been refused.\<close>

lemma transport_race:
  assumes "checkStatusChange u i r db = Inr x" "us_status r = DELIVERED"
    and "checkStatusChange v i q db = Inr y" "us_status q = SHIPMENT_CANCELLED"
  shows "(\<forall>z \<in> set (shipments (commitStatusChange env' v y q (commitStatusChange env u x r db))). sh_id z = i \<longrightarrow> sh_status z = SHIPMENT_CANCELLED) \<and>
    is_ok (checkStatusChange v i q db) \<and> \<not> is_ok (checkStatusChange v i q (commitStatusChange env u x r db))"
proof -
  note c = checkStatusChange_InrD[OF assms(1)] and d = checkStatusChange_InrD[OF assms(3)]
  have all: "\<forall>z \<in> set (shipments (commitStatusChange env u x r db)). sh_id z = i \<longrightarrow> sh_status z = DELIVERED"
    using c assms(2) by (auto simp: commit_shipments updateWhere_set)
  have "\<not> is_ok (checkStatusChange v i q (commitStatusChange env u x r db))"
  proof
    assume "is_ok (checkStatusChange v i q (commitStatusChange env u x r db))"
    then obtain z where "checkStatusChange v i q (commitStatusChange env u x r db) = Inr z" by (auto simp: is_ok_iff)
    from checkStatusChange_InrD[OF this] all show False by (auto simp: canTransitionETransportStatus_def assms(4))
  qed
  moreover have "\<forall>z \<in> set (shipments (commitStatusChange env' v y q (commitStatusChange env u x r db))). sh_id z = i \<longrightarrow> sh_status z = SHIPMENT_CANCELLED"
    using d assms(4) by (auto simp: commit_shipments[of env' v y q] updateWhere_set)
  ultimately show ?thesis by (simp add: assms(3))
qed

lemma transport_race_example:
  "\<exists>db. checkStatusChange demoActor ''s'' (demoChange SHIPMENT_CANCELLED) (demoTransports [demoShipment IN_TRANSIT]) = Inr (demoShipment IN_TRANSIT) \<and>
     updateShipmentStatus (demoEnv ''t'') demoActor ''s'' (demoChange DELIVERED) (demoTransports [demoShipment IN_TRANSIT]) = Inr db \<and>
     \<not> is_ok (checkStatusChange demoActor ''s'' (demoChange SHIPMENT_CANCELLED) db)"
proof -
  have c: "checkStatusChange demoActor ''s'' (demoChange st) (demoTransports [demoShipment IN_TRANSIT]) = Inr (demoShipment IN_TRANSIT)"
    if "st \<in> {DELIVERED, SHIPMENT_CANCELLED}" for st
    using that by (intro demo_checked) (auto simp: canTransitionETransportStatus_def)
  show ?thesis
    using transport_race[OF c[of DELIVERED] _ c[of SHIPMENT_CANCELLED], of "demoEnv ''t''" "demoEnv ''t''"] c
    by (auto simp: updateShipmentStatus_def demoChange_def)
qed

text \<open>A transport that is delivered can be delivered again: its status stays, and its time of arrival is the time of
  the last request.\<close>

lemma arrival_overwritten:
  assumes "findShipment (act_company u) i db = Some x" "sh_status x = DELIVERED" "us_status r = DELIVERED" "us_actualArrivalAt r = None"
    "updateShipmentStatusSchema r"
  shows "\<exists>db'. updateShipmentStatus env u i r db = Inr db' \<and>
    (\<forall>y \<in> set (shipments db'). sh_id y = sh_id x \<longrightarrow> sh_actualArrivalAt y = Some (now env))"
proof -
  have "checkStatusChange u i r db = Inr x"
    using assms by (simp add: checkStatusChange_def canTransitionETransportStatus_def)
  then show ?thesis using assms(3,4)
    by (auto simp: updateShipmentStatus_def commit_shipments updateWhere_set applyStatus_def Let_def elseText_def)
qed

end
