(* ===== verification/Spec2Isabelle.thy ===== *)
theory Spec2Isabelle
  imports PurchaseReports StockLevels StatementsCache ExportQueue Authentication PayrollRuns Depreciation Mt940RoundTrip OpenBankingGuarantees StatementGuarantees TaxGuarantees TransportGuarantees
begin

text \<open>
  Verification development of the SEGA accounting backend.
\<close>

end
